(* ===== verification/Symbios_Prelude.thy ===== *)
theory Symbios_Prelude
  imports Main "HOL-Library.Word" "HOL-Library.Sublist"
begin

text \<open>
  Shared vocabulary of the development: the machine types of the C and C++ sources, the
  byte-buffer operations behind \<^verbatim>\<open>memcpy\<close>, \<^verbatim>\<open>malloc\<close> and \<^verbatim>\<open>std::string\<close>, the C library
  routines the sources call (\<^verbatim>\<open>std::to_string\<close>, \<^verbatim>\<open>atoi\<close>, \<^verbatim>\<open>strtok\<close>, \<^verbatim>\<open>strstr\<close>), and the
  generic lemmas on words, lists and decimal strings that the component theories use.

  Buffers and strings are lists of characters (bytes). A \<^verbatim>\<open>size_t\<close> is a 64-bit word, so
  that its additions and subtractions wrap around as the compiled code's do; \<^const>\<open>unat\<close>
  reads it as a length.
\<close>

section \<open>Machine types\<close>

type_synonym size_t = "64 word"
type_synonym int64 = "64 word"
type_synonym int32 = "32 word"
type_synonym uint16 = "16 word"
type_synonym bytes = string

named_theorems io_simps \<open>equations of the storage clients and of their backends\<close>
named_theorems size_arith \<open>reading wrapped size arithmetic as natural numbers\<close>

section \<open>Byte buffers\<close>

text \<open>\<open>slice off n s\<close> are the \<open>n\<close> bytes of \<open>s\<close> from offset \<open>off\<close> on.\<close>

definition slice :: "nat \<Rightarrow> nat \<Rightarrow> bytes \<Rightarrow> bytes" where
  "slice off n s = take n (drop off s)"

text \<open>
  \<open>memcpy_at off src dst\<close> is the buffer \<open>dst\<close> after \<^verbatim>\<open>memcpy(dst + off, src, |src|)\<close>;
  \<open>None\<close> when the copy would leave the buffer, which is undefined behaviour in C.
\<close>

definition memcpy_at :: "nat \<Rightarrow> bytes \<Rightarrow> bytes \<Rightarrow> bytes option" where
  "memcpy_at off src dst =
     (if off + length src \<le> length dst
      then Some (take off dst @ src @ drop (off + length src) dst) else None)"

text \<open>\<open>mem_read off n s\<close> reads \<open>n\<close> bytes at \<open>s + off\<close>; \<open>None\<close> when they are not all there.\<close>

definition mem_read :: "nat \<Rightarrow> nat \<Rightarrow> bytes \<Rightarrow> bytes option" where
  "mem_read off n s = (if off + n \<le> length s then Some (slice off n s) else None)"

definition zeros :: "nat \<Rightarrow> bytes" where
  "zeros n = replicate n (CHR 0x00)"

text \<open>
  \<open>overlay off src old\<close> is the reference for a positioned write: \<open>src\<close> placed at offset
  \<open>off\<close> of \<open>old\<close>, a gap before it filled with zero bytes, everything else kept.
\<close>

definition overlay :: "nat \<Rightarrow> bytes \<Rightarrow> bytes \<Rightarrow> bytes" where
  "overlay off src old =
     take off old @ zeros (off - length old) @ src @ drop (off + length src) old"

text \<open>The content of a fresh \<^verbatim>\<open>malloc\<close>ed block is unspecified: \<open>junk\<close> supplies it.\<close>

definition malloc :: "(nat \<Rightarrow> char) \<Rightarrow> nat \<Rightarrow> bytes" where
  "malloc junk n = map junk [0..<n]"

section \<open>Decimal numbers as text\<close>

definition digit_char :: "nat \<Rightarrow> char" where
  "digit_char d = char_of (48 + d)"

definition is_digit :: "char \<Rightarrow> bool" where
  "is_digit c \<longleftrightarrow> 48 \<le> (of_char c :: nat) \<and> (of_char c :: nat) \<le> 57"

definition digit_val :: "char \<Rightarrow> nat" where
  "digit_val c = of_char c - 48"

fun nat_to_string :: "nat \<Rightarrow> string" where
  "nat_to_string n =
     (if n < 10 then [digit_char n] else nat_to_string (n div 10) @ [digit_char (n mod 10)])"

declare nat_to_string.simps [simp del]

definition int_to_string :: "int \<Rightarrow> string" where
  "int_to_string i =
     (if i < 0 then CHR ''-'' # nat_to_string (nat (- i)) else nat_to_string (nat i))"

text \<open>White space as \<^verbatim>\<open>isspace\<close> in the C locale.\<close>

definition is_space :: "char \<Rightarrow> bool" where
  "is_space c \<longleftrightarrow> c = CHR '' '' \<or> (9 \<le> (of_char c :: nat) \<and> (of_char c :: nat) \<le> 13)"

definition digits_val :: "string \<Rightarrow> nat" where
  "digits_val s = foldl (\<lambda>n c. 10 * n + digit_val c) 0 s"

text \<open>
  The number \<^verbatim>\<open>strtol(s, NULL, 10)\<close> reads before its range check: leading white space, an
  optional sign, the longest run of digits, 0 when there is none.
\<close>

definition decimal_prefix :: "string \<Rightarrow> int" where
  "decimal_prefix s =
     (let t = dropWhile is_space s in
      case t of
        [] \<Rightarrow> 0
      | c # u \<Rightarrow>
          if c = CHR ''-'' then - int (digits_val (takeWhile is_digit u))
          else if c = CHR ''+'' then int (digits_val (takeWhile is_digit u))
          else int (digits_val (takeWhile is_digit t)))"

text \<open>\<^verbatim>\<open>atol\<close> saturates at the limits of \<^verbatim>\<open>long\<close>; \<^verbatim>\<open>atoi\<close> converts that to \<^verbatim>\<open>int\<close>.\<close>

definition atol :: "string \<Rightarrow> int" where
  "atol s = max (- (2 ^ 63)) (min (2 ^ 63 - 1) (decimal_prefix s))"

definition atoi :: "string \<Rightarrow> int" where
  "atoi s = sint (word_of_int (atol s) :: int32)"

section \<open>C string scanning\<close>

text \<open>
  One call of \<^verbatim>\<open>strtok\<close> with the one-character delimiter \<open>d\<close>: leading delimiters are
  skipped; the token runs to the next delimiter, which is consumed; \<open>None\<close> is the NULL
  returned when only delimiters are left.
\<close>

definition strtok :: "char \<Rightarrow> string \<Rightarrow> (string \<times> string) option" where
  "strtok d s =
     (let t = dropWhile (\<lambda>c. c = d) s in
      if t = [] then None
      else Some (takeWhile (\<lambda>c. c \<noteq> d) t, drop 1 (dropWhile (\<lambda>c. c \<noteq> d) t)))"

text \<open>
  The strings successive calls of \<^verbatim>\<open>std::getline(stream, token, d)\<close> return: an empty field is
  kept, except that nothing follows a delimiter that ends the text.
\<close>

fun getlines_go :: "char \<Rightarrow> string \<Rightarrow> string \<Rightarrow> string list" where
  "getlines_go d token [] = (if token = [] then [] else [token])"
| "getlines_go d token (c # s) =
     (if c = d then token # getlines_go d [] s else getlines_go d (token @ [c]) s)"

definition getlines :: "char \<Rightarrow> string \<Rightarrow> string list" where
  "getlines d s = getlines_go d [] s"

text \<open>\<^verbatim>\<open>strstr(s, p) != NULL\<close>, and the offset of the first occurrence of \<open>p\<close> in \<open>s\<close>.\<close>

fun find_sub :: "string \<Rightarrow> string \<Rightarrow> nat option" where
  "find_sub p [] = (if p = [] then Some 0 else None)"
| "find_sub p (c # s) =
     (if prefix p (c # s) then Some 0 else map_option Suc (find_sub p s))"

definition strstr :: "string \<Rightarrow> string \<Rightarrow> bool" where
  "strstr s p \<longleftrightarrow> find_sub p s \<noteq> None"

section \<open>strtol\<close>

definition digit_in :: "nat \<Rightarrow> char \<Rightarrow> nat option" where
  "digit_in base c =
     (let n = of_char c :: nat;
          d = (if 48 \<le> n \<and> n \<le> 57 then n - 48
               else if 97 \<le> n \<and> n \<le> 122 then n - 87
               else if 65 \<le> n \<and> n \<le> 90 then n - 55 else 36)
      in if d < base then Some d else None)"

definition base_digits :: "nat \<Rightarrow> string \<Rightarrow> string" where
  "base_digits base s = takeWhile (\<lambda>c. digit_in base c \<noteq> None) s"

definition base_value :: "nat \<Rightarrow> string \<Rightarrow> nat" where
  "base_value base s = foldl (\<lambda>n c. base * n + (case digit_in base c of None \<Rightarrow> 0 | Some d \<Rightarrow> d)) 0 s"

text \<open>The base and the digits after a sign: base 16 may begin with \<^verbatim>\<open>0x\<close>, base 0 decides itself.\<close>

definition hex_prefix :: "string \<Rightarrow> bool" where
  "hex_prefix s =
     (case s of c # x # d # _ \<Rightarrow> c = CHR ''0'' \<and> (x = CHR ''x'' \<or> x = CHR ''X'') \<and> digit_in 16 d \<noteq> None
      | _ \<Rightarrow> False)"

definition strtol_base :: "nat \<Rightarrow> string \<Rightarrow> nat \<times> string" where
  "strtol_base base s =
     (if (base = 0 \<or> base = 16) \<and> hex_prefix s then (16, drop 2 s)
      else if base = 0 then (if prefix ''0'' s then 8 else 10, s)
      else (base, s))"

text \<open>The result, the text from \<^verbatim>\<open>endptr\<close> on, and whether \<^verbatim>\<open>errno\<close> is set to \<^verbatim>\<open>ERANGE\<close>.\<close>

definition strtol :: "string \<Rightarrow> nat \<Rightarrow> int \<times> string \<times> bool" where
  "strtol s base =
     (let t = dropWhile is_space s;
          neg = prefix ''-'' t;
          u = (if neg \<or> prefix ''+'' t then drop 1 t else t);
          (b, v) = strtol_base base u;
          ds = base_digits b v;
          n = (if neg then - int (base_value b ds) else int (base_value b ds))
      in if ds = [] then (0, s, False)
         else if n < - (2 ^ 63) then (- (2 ^ 63), drop (length ds) v, True)
         else if n \<ge> 2 ^ 63 then (2 ^ 63 - 1, drop (length ds) v, True)
         else (n, drop (length ds) v, False))"

section \<open>Lemmas on buffers\<close>

lemma length_zeros [simp]: "length (zeros n) = n"
  by (simp add: zeros_def)

lemma zeros_0 [simp]: "zeros 0 = []"
  by (simp add: zeros_def)

lemma length_malloc [simp]: "length (malloc junk n) = n"
  by (simp add: malloc_def)

lemma length_slice [simp]: "length (slice off n s) = min n (length s - off)"
  by (simp add: slice_def)

lemma slice_0 [simp]: "slice 0 n s = take n s"
  by (simp add: slice_def)

lemma slice_all [simp]: "length s \<le> n \<Longrightarrow> slice 0 n s = s"
  by (simp add: slice_def)

lemma mem_read_Some:
  "off + n \<le> length s \<Longrightarrow> mem_read off n s = Some (slice off n s)"
  by (simp add: mem_read_def)

lemma memcpy_at_Some:
  "off + length src \<le> length dst \<Longrightarrow>
     memcpy_at off src dst = Some (take off dst @ src @ drop (off + length src) dst)"
  by (simp add: memcpy_at_def)

lemma memcpy_at_length: "memcpy_at off src dst = Some r \<Longrightarrow> length r = length dst"
  by (auto simp: memcpy_at_def split: if_splits)

lemma memcpy_at_full: "length src = length dst \<Longrightarrow> memcpy_at 0 src dst = Some src"
  by (simp add: memcpy_at_def)

lemma memcpy_at_overlay:
  "off + length src \<le> length dst \<Longrightarrow> memcpy_at off src dst = Some (overlay off src dst)"
  by (simp add: memcpy_at_def overlay_def)

lemma length_overlay: "length (overlay off src old) = max (length old) (off + length src)"
  by (auto simp: overlay_def)

lemma overlay_append: "overlay (length old) src old = old @ src"
  by (simp add: overlay_def)

lemma overlay_0: "overlay 0 src old = src @ drop (length src) old"
  by (simp add: overlay_def)

lemma slice_overlay_same: "slice off (length src) (overlay off src old) = src"
  by (simp add: slice_def overlay_def)

lemma overlay_before:
  "i < off \<Longrightarrow> i < length old \<Longrightarrow> overlay off src old ! i = old ! i"
  by (simp add: overlay_def nth_append)

lemma overlay_after:
  "off + length src \<le> i \<Longrightarrow> i < length old \<Longrightarrow> overlay off src old ! i = old ! i"
  by (auto simp: overlay_def nth_append min_def)

section \<open>Lemmas on wrapped sizes\<close>

lemma size_fits [size_arith]:
  "n < 2 ^ 64 \<Longrightarrow> unat (of_nat n :: size_t) = n"
  by (simp add: unat_of_nat)

lemma size_add [size_arith]:
  fixes a b :: size_t
  shows "unat a + unat b < 2 ^ 64 \<Longrightarrow> unat (a + b) = unat a + unat b"
  by (simp add: unat_word_ariths)

lemma size_sub [size_arith]:
  fixes a b :: size_t
  shows "unat b \<le> unat a \<Longrightarrow> unat (a - b) = unat a - unat b"
  by (simp add: unat_sub word_le_nat_alt)

lemma size_of_nat_add:
  "m + n < 2 ^ 64 \<Longrightarrow> unat (of_nat m + of_nat n :: size_t) = m + n"
  by (metis of_nat_add size_fits)

lemma size_of_nat_eq_0: "n < 2 ^ 64 \<Longrightarrow> (of_nat n :: size_t) = 0 \<longleftrightarrow> n = 0"
  by (simp add: word_unat_eq_iff size_fits)

lemma of_nat_unat_word [simp]: "of_nat (unat w) = (w :: 'a::len word)"
  by (simp add: of_nat_unat)

lemma size_of_unat: "unat (w :: size_t) = n \<Longrightarrow> w = of_nat n"
  using of_nat_unat_word [of w] by simp

lemma sint_narrow_size: "n < 2 ^ 31 \<Longrightarrow> sint (ucast (of_nat n :: size_t) :: int32) = int n"
proof -
  assume n: "n < 2 ^ 31"
  then have "take_bit 64 n = n" by (simp add: take_bit_nat_eq_self)
  then have "sint (ucast (of_nat n :: size_t) :: int32) = signed_take_bit 31 (int n)"
    by (simp add: unsigned_of_nat signed_of_nat)
  also have "\<dots> = int n" using n by (intro signed_take_bit_int_eq_self) simp_all
  finally show ?thesis .
qed

lemma uint_size_t_bound [simp]: "uint (w :: size_t) < 18446744073709551616"
  using unsigned_less [of w, where 'a = int] by simp

lemma uint_uint16_bound [simp]: "uint (w :: uint16) < 65536"
  using unsigned_less [of w, where 'a = int] by simp

lemma unat_size_t_bound [simp]: "unat (w :: size_t) < 18446744073709551616"
  using unsigned_less [of w, where 'a = nat] by simp

lemma sint_int64_upper [simp]: "sint (w :: int64) < 9223372036854775808"
  using sint_less [of w] by simp

lemma sint_int64_lower [simp]: "- 9223372036854775808 \<le> sint (w :: int64)"
  using sint_greater_eq [of w] by simp

section \<open>Lemmas on decimal text\<close>

lemma of_char_digit_char [simp]: "d < 10 \<Longrightarrow> (of_char (digit_char d) :: nat) = 48 + d"
  by (simp add: digit_char_def)

lemma is_digit_digit_char [simp]: "d < 10 \<Longrightarrow> is_digit (digit_char d)"
  by (simp add: is_digit_def)

lemma digit_val_digit_char [simp]: "d < 10 \<Longrightarrow> digit_val (digit_char d) = d"
  by (simp add: digit_val_def)

text \<open>Evaluating decimal text by the simplifier.\<close>

lemma digit_chars:
  "digit_char 0 = CHR ''0''" "digit_char (Suc 0) = CHR ''1''" "digit_char 2 = CHR ''2''"
  "digit_char 3 = CHR ''3''" "digit_char 4 = CHR ''4''" "digit_char 5 = CHR ''5''"
  "digit_char 6 = CHR ''6''" "digit_char 7 = CHR ''7''" "digit_char 8 = CHR ''8''"
  "digit_char 9 = CHR ''9''"
  by code_simp+

lemmas decimal_eval = nat_to_string.simps int_to_string_def digit_chars

lemma nat_to_string_nonempty [simp]: "nat_to_string n \<noteq> []"
  by (subst nat_to_string.simps) simp

lemma length_nat_to_string_bound: "n < 10 ^ Suc d \<Longrightarrow> length (nat_to_string n) \<le> Suc d"
proof (induction d arbitrary: n)
  case 0
  then show ?case by (subst nat_to_string.simps) simp
next
  case (Suc d)
  show ?case
  proof (cases "n < 10")
    case True
    then show ?thesis by (subst nat_to_string.simps) simp
  next
    case False
    have "n div 10 < 10 ^ Suc d" using Suc.prems by (simp add: less_mult_imp_div_less mult.commute)
    from Suc.IH [OF this] show ?thesis
      using False by (subst nat_to_string.simps) simp
  qed
qed

lemma nat_to_string_digits: "\<forall>c \<in> set (nat_to_string n). is_digit c"
proof (induction n rule: nat_to_string.induct)
  case (1 n)
  then show ?case by (subst nat_to_string.simps) auto
qed

lemma digits_val_append:
  "digits_val (s @ [c]) = 10 * digits_val s + digit_val c"
  by (simp add: digits_val_def)

lemma digits_val_nat_to_string [simp]: "digits_val (nat_to_string n) = n"
proof (induction n rule: nat_to_string.induct)
  case (1 n)
  show ?case
  proof (cases "n < 10")
    case True
    then show ?thesis by (subst nat_to_string.simps) (simp add: digits_val_def)
  next
    case False
    with 1 have "digits_val (nat_to_string (n div 10)) = n div 10" by simp
    with False show ?thesis
      by (subst nat_to_string.simps) (simp add: digits_val_append)
  qed
qed

lemma nat_to_string_inject [simp]: "nat_to_string m = nat_to_string n \<longleftrightarrow> m = n"
  by (metis digits_val_nat_to_string)

lemma takeWhile_digits [simp]: "takeWhile is_digit (nat_to_string n) = nat_to_string n"
  by (simp add: takeWhile_eq_all_conv nat_to_string_digits)

lemma is_digit_not_space: "is_digit c \<Longrightarrow> \<not> is_space c"
  by (auto simp: is_digit_def is_space_def)

lemma is_digit_not_sign: "is_digit c \<Longrightarrow> c \<noteq> CHR ''-'' \<and> c \<noteq> CHR ''+''"
  by (auto simp: is_digit_def)

lemma nat_to_string_Cons: "\<exists>c t. nat_to_string n = c # t \<and> is_digit c"
proof -
  obtain c t where ct: "nat_to_string n = c # t"
    using nat_to_string_nonempty by (cases "nat_to_string n") auto
  moreover have "is_digit c"
    using nat_to_string_digits [of n] ct by simp
  ultimately show ?thesis by blast
qed

lemma decimal_prefix_nat_to_string [simp]: "decimal_prefix (nat_to_string n) = int n"
proof -
  obtain c t where ct: "nat_to_string n = c # t" and c: "is_digit c"
    using nat_to_string_Cons by blast
  have "dropWhile is_space (nat_to_string n) = c # t"
    using ct c by (simp add: is_digit_not_space)
  moreover have "digits_val (takeWhile is_digit (c # t)) = n"
    using ct takeWhile_digits [of n] digits_val_nat_to_string [of n] by simp
  ultimately show ?thesis
    using c by (auto simp: decimal_prefix_def Let_def dest: is_digit_not_sign)
qed

lemma decimal_prefix_int_to_string [simp]: "decimal_prefix (int_to_string i) = i"
proof (cases "i < 0")
  case True
  have "\<not> is_space (CHR ''-'')" by (simp add: is_space_def)
  then show ?thesis using True by (simp add: int_to_string_def decimal_prefix_def)
next
  case False
  then show ?thesis by (simp add: int_to_string_def)
qed

lemma int_to_string_inject [simp]: "int_to_string i = int_to_string j \<longleftrightarrow> i = j"
  by (metis decimal_prefix_int_to_string)

lemma int_to_string_nonempty [simp]: "int_to_string i \<noteq> []"
  by (simp add: int_to_string_def)

lemma sint_word_of_int_32:
  "- (2 ^ 31) \<le> i \<Longrightarrow> i < 2 ^ 31 \<Longrightarrow> sint (word_of_int i :: int32) = i"
  by (simp add: signed_of_int signed_take_bit_int_eq_self)

lemma atol_int_to_string:
  "- (2 ^ 63) \<le> i \<Longrightarrow> i < 2 ^ 63 \<Longrightarrow> atol (int_to_string i) = i"
  by (simp add: atol_def)

lemma atoi_int_to_string:
  assumes "- (2 ^ 31) \<le> i" "i < 2 ^ 31"
  shows "atoi (int_to_string i) = i"
proof -
  have "atol (int_to_string i) = i"
    using assms by (intro atol_int_to_string) simp_all
  then show ?thesis using assms by (simp add: atoi_def sint_word_of_int_32)
qed

section \<open>Lemmas on strtol\<close>

lemma digit_in_10: "digit_in 10 c = (if is_digit c then Some (digit_val c) else None)"
  by (auto simp: digit_in_def is_digit_def digit_val_def Let_def)

lemma base_value_10: "\<forall>c\<in>set s. is_digit c \<Longrightarrow> base_value 10 s = digits_val s"
  unfolding base_value_def digits_val_def by (rule foldl_cong) (simp_all add: digit_in_10)

lemma strtol_nat: "strtol_base 10 (nat_to_string n) = (10, nat_to_string n)"
  "base_digits 10 (nat_to_string n) = nat_to_string n" "base_value 10 (nat_to_string n) = n"
proof -
  show "strtol_base 10 (nat_to_string n) = (10, nat_to_string n)" by (simp add: strtol_base_def)
  have "(\<lambda>c. digit_in 10 c \<noteq> None) = is_digit" by (rule ext) (simp add: digit_in_10)
  then show "base_digits 10 (nat_to_string n) = nat_to_string n" by (simp add: base_digits_def del: not_None_eq)
  show "base_value 10 (nat_to_string n) = n" using nat_to_string_digits by (simp add: base_value_10)
qed

lemma strtol_digits:
  assumes t: "dropWhile is_space s = t" and neg: "prefix ''-'' t = neg"
    and u: "(if neg \<or> prefix ''+'' t then drop 1 t else t) = nat_to_string m"
    and range: "- (2 ^ 63) \<le> (if neg then - int m else int m)" "(if neg then - int m else int m) < 2 ^ 63"
  shows "strtol s 10 = ((if neg then - int m else int m), [], False)"
  unfolding strtol_def Let_def t neg u strtol_nat prod.case using range by (simp split: if_splits)

lemma strtol_int_to_string:
  assumes "- (2 ^ 63) \<le> i" "i < 2 ^ 63"
  shows "strtol (int_to_string i) 10 = (i, [], False)"
proof -
  let ?m = "nat \<bar>i\<bar>"
  obtain c t where ct: "nat_to_string ?m = c # t" "is_digit c" using nat_to_string_Cons by blast
  have sp: "\<not> is_space (CHR ''-'')" by (simp add: is_space_def)
  note c = is_digit_not_space [OF ct(2)] is_digit_not_sign [OF ct(2)]
  have i: "(if i < 0 then - int ?m else int ?m) = i" by simp
  have "strtol (int_to_string i) 10 = ((if i < 0 then - int ?m else int ?m), [], False)"
  proof (rule strtol_digits)
    show "dropWhile is_space (int_to_string i) = int_to_string i"
      using ct c sp by (auto simp: int_to_string_def)
    show "prefix ''-'' (int_to_string i) = (i < 0)" using ct c by (auto simp: int_to_string_def)
    show "(if i < 0 \<or> prefix ''+'' (int_to_string i) then drop 1 (int_to_string i) else int_to_string i) =
          nat_to_string ?m"
      using ct c by (auto simp: int_to_string_def)
  qed (use assms in \<open>simp_all only: i\<close>)
  then show ?thesis by (simp only: i)
qed

lemma strtol_range:
  assumes "strtol s base = (r, e, x)"
  shows "- (2 ^ 63) \<le> r" "r < 2 ^ 63"
  using assms by (auto simp: strtol_def Let_def split: prod.splits if_splits)

section \<open>Lemmas on tokens\<close>

lemma strtok_token:
  assumes "a \<noteq> []" "d \<notin> set a"
  shows "strtok d (a @ d # rest) = Some (a, rest)"
proof -
  obtain c t where a: "a = c # t" using assms(1) by (cases a) auto
  have "dropWhile (\<lambda>c. c = d) (a @ d # rest) = a @ d # rest"
    using a assms(2) by auto
  moreover have "takeWhile (\<lambda>c. c \<noteq> d) (a @ d # rest) = a"
    using assms(2) by (subst takeWhile_append2) auto
  moreover have "dropWhile (\<lambda>c. c \<noteq> d) (a @ d # rest) = d # rest"
    using assms(2) by (subst dropWhile_append2) auto
  ultimately show ?thesis using a by (simp add: strtok_def)
qed

lemma strtok_skip: "strtok d (d # s) = strtok d s"
  by (simp add: strtok_def)

lemma strtok_Nil [simp]: "strtok d [] = None"
  by (simp add: strtok_def)

text \<open>Joining non-empty fields with the delimiter and splitting them again.\<close>

lemma getlines_go_field:
  "d \<notin> set s \<Longrightarrow> getlines_go d token (s @ d # rest) = (token @ s) # getlines_go d [] rest"
  by (induction s arbitrary: token) auto

lemma getlines_go_last: "d \<notin> set s \<Longrightarrow> token @ s \<noteq> [] \<Longrightarrow> getlines_go d token s = [token @ s]"
  by (induction s arbitrary: token) auto

lemma getlines_terminated:
  "\<forall>l \<in> set ls. d \<notin> set l \<Longrightarrow> getlines d (concat (map (\<lambda>l. l @ [d]) ls)) = ls"
  unfolding getlines_def by (induction ls) (simp_all add: getlines_go_field)

lemma find_sub_Some:
  "find_sub p s = Some n \<Longrightarrow> n + length p \<le> length s \<and> take (length p) (drop n s) = p"
proof (induction p s arbitrary: n rule: find_sub.induct)
  case (1 p)
  then show ?case by (simp split: if_splits)
next
  case (2 p c s)
  show ?case
  proof (cases "prefix p (c # s)")
    case True
    with 2 have "n = 0" by simp
    moreover have "length p \<le> length (c # s)" using True by (rule prefix_length_le)
    moreover have "take (length p) (c # s) = p" using True by (auto simp: prefix_def)
    ultimately show ?thesis by simp
  next
    case False
    with 2 show ?thesis by (auto split: option.splits)
  qed
qed

end
