(* ===== verification/Error_Codes.thy ===== *)
theory Error_Codes
  imports Symbios_Prelude
begin

text \<open>
  The error values of Symbios: \<^verbatim>\<open>include/symbios/common/error_definition.h\<close> (the class
  \<^verbatim>\<open>ErrorCode\<close> and the exception \<^verbatim>\<open>ErrorException\<close> with its \<^verbatim>\<open>%s\<close> substitution) and the
  table of codes of \<^verbatim>\<open>include/symbios/common/error_codes.h\<close>. Every operation of the model
  that can fail returns \<open>fault + 'a\<close>; a \<open>fault\<close> says how the C++ code left the function.
\<close>

section \<open>ErrorCode and ErrorException\<close>

record ErrorCode =
  err_code :: int
  err_message :: string

definition mk_ErrorCode :: "int \<Rightarrow> string \<Rightarrow> ErrorCode" where
  "mk_ErrorCode code message = \<lparr>err_code = code, err_message = message\<rparr>"

definition getCode :: "ErrorCode \<Rightarrow> int" where
  "getCode e = err_code e"

definition getMessage :: "ErrorCode \<Rightarrow> string" where
  "getMessage e = err_message e"

definition setMessage :: "ErrorCode \<Rightarrow> string \<Rightarrow> ErrorCode" where
  "setMessage e message = e\<lparr>err_message := message\<rparr>"

text \<open>\<^verbatim>\<open>ErrorException::replace\<close>: the first occurrence of \<open>from\<close> in \<open>str\<close> becomes \<open>to\<close>.\<close>

definition replace_first :: "string \<Rightarrow> string \<Rightarrow> string \<Rightarrow> bool \<times> string" where
  "replace_first str from to =
     (case find_sub from str of
        None \<Rightarrow> (False, str)
      | Some start_pos \<Rightarrow>
          (True, take start_pos str @ to @ drop (start_pos + length from) str))"

text \<open>
  The constructor \<^verbatim>\<open>ErrorException(errorcode, args...)\<close>: the value is the error code the
  exception carries. Only with arguments is the message rewritten (code, tab, text with
  each argument substituted for the next \<^verbatim>\<open>%s\<close>).
\<close>

definition ErrorException :: "ErrorCode \<Rightarrow> string list \<Rightarrow> ErrorCode" where
  "ErrorException errorcode args =
     (let error_message = int_to_string (getCode errorcode) @ [CHR 0x09] @ getMessage errorcode
      in if args \<noteq> []
         then setMessage errorcode
                (foldl (\<lambda>msg w. snd (replace_first msg ''%s'' w)) error_message args)
         else errorcode)"

text \<open>\<^verbatim>\<open>ErrorException::what\<close> reports the message the exception carries.\<close>

definition what :: "ErrorCode \<Rightarrow> string" where
  "what e = getMessage e"

section \<open>How a function is left\<close>

text \<open>
  \<open>Thrown\<close> is \<^verbatim>\<open>throw ErrorException(...)\<close>; \<open>Thrown_Int\<close> is \<^verbatim>\<open>throw 1\<close>; \<open>Std_Exn\<close> is an
  exception of the standard library or of a package; \<open>Exit\<close> is a call of \<^verbatim>\<open>exit\<close> or
  \<^verbatim>\<open>MPI_Abort\<close>; \<open>Undefined\<close> is undefined behaviour (an access outside a buffer or
  through a null pointer, a division by zero).
\<close>

datatype fault =
    Thrown ErrorCode
  | Thrown_Int int
  | Std_Exn string
  | Exit int
  | Undefined

type_synonym 'a res = "fault + 'a"

text \<open>Going on with the value of a call, unless the call left the function.\<close>

definition and_then :: "'a res \<Rightarrow> ('a \<Rightarrow> 'b res) \<Rightarrow> 'b res" where
  "and_then r f = (case r of Inl e \<Rightarrow> Inl e | Inr x \<Rightarrow> f x)"

section \<open>The table of error codes\<close>

definition SUCCESSFUL :: ErrorCode where
  "SUCCESSFUL = mk_ErrorCode 0 ''SUCCESSFUL''"
definition OPEN_FILE_FAILED :: ErrorCode where
  "OPEN_FILE_FAILED = mk_ErrorCode 1000 ''Open file failed''"
definition SEEK_FILE_FAILED :: ErrorCode where
  "SEEK_FILE_FAILED = mk_ErrorCode 1001 ''Seek the position from file failed''"
definition READ_DATA_FROM_FILE_FAILED :: ErrorCode where
  "READ_DATA_FROM_FILE_FAILED = mk_ErrorCode 1002 ''Read data from file failed''"
definition WRITE_DATA_TO_FILE_FAILED :: ErrorCode where
  "WRITE_DATA_TO_FILE_FAILED = mk_ErrorCode 1003 ''Write data to file failed''"
definition REDIS_SERVER_SIDE_FAILED :: ErrorCode where
  "REDIS_SERVER_SIDE_FAILED = mk_ErrorCode 1004 ''Redis server maybe failed''"
definition READ_REDIS_POSITION_OR_SIZE_FAILED :: ErrorCode where
  "READ_REDIS_POSITION_OR_SIZE_FAILED = mk_ErrorCode 1005
     ''Error read position or data size when reading data from Redis Cluster''"
definition READ_REDIS_DATA_FAILED :: ErrorCode where
  "READ_REDIS_DATA_FAILED = mk_ErrorCode 1006 ''Read data from Redis Cluster failed''"
definition WRITE_REDIS_DATA_FAILED :: ErrorCode where
  "WRITE_REDIS_DATA_FAILED = mk_ErrorCode 1007 ''Write data to Redis Cluster failed''"
definition READ_MONGODB_DATA_FAILED :: ErrorCode where
  "READ_MONGODB_DATA_FAILED = mk_ErrorCode 1008 ''Read data from Mongodb failed''"
definition WRITE_MONGODB_DATA_FAILED :: ErrorCode where
  "WRITE_MONGODB_DATA_FAILED = mk_ErrorCode 1009 ''Write data to Mongodb failed''"
definition READ_MONGO_POSITION_OR_SIZE_FAILED :: ErrorCode where
  "READ_MONGO_POSITION_OR_SIZE_FAILED = mk_ErrorCode 1010
     ''Error read position or data size when reading data from Mongodb''"
definition MONGODB_SERVER_SIDE_FAILED :: ErrorCode where
  "MONGODB_SERVER_SIDE_FAILED = mk_ErrorCode 1011 ''Mongodb server maybe failed''"
definition CONNECT_REDIS_SERVER_ERROR :: ErrorCode where
  "CONNECT_REDIS_SERVER_ERROR = mk_ErrorCode 1012 ''Connect Redis Cluster failed''"
definition CONNECT_MONGO_SERVER_ERROR :: ErrorCode where
  "CONNECT_MONGO_SERVER_ERROR = mk_ErrorCode 1013 ''Connect Mongo Cluster failed''"
definition CREATE_MONGO_CLIENT_ERROR :: ErrorCode where
  "CREATE_MONGO_CLIENT_ERROR = mk_ErrorCode 1014 ''Create Mongo Client failed''"
definition CONNECT_MONGO_DATABASE_ERROR :: ErrorCode where
  "CONNECT_MONGO_DATABASE_ERROR = mk_ErrorCode 1015 ''Cannot connect to mongo database''"
definition CONNECT_MONGO_COLLECTION_ERROR :: ErrorCode where
  "CONNECT_MONGO_COLLECTION_ERROR = mk_ErrorCode 1016 ''Cannot connect to mongo collection''"
definition FILE_PATH_NON_EXISTANCE :: ErrorCode where
  "FILE_PATH_NON_EXISTANCE = mk_ErrorCode 1017 ''The file io path is non existance''"
definition INVALID_STORAGE_INDEX :: ErrorCode where
  "INVALID_STORAGE_INDEX = mk_ErrorCode 1018 ''Invalid storage index''"
definition UNDEFINED_ENV_VARIABLE :: ErrorCode where
  "UNDEFINED_ENV_VARIABLE = mk_ErrorCode 2011 ''The environment variable is not defined %s''"

definition all_error_codes :: "ErrorCode list" where
  "all_error_codes =
     [SUCCESSFUL, OPEN_FILE_FAILED, SEEK_FILE_FAILED, READ_DATA_FROM_FILE_FAILED,
      WRITE_DATA_TO_FILE_FAILED, REDIS_SERVER_SIDE_FAILED, READ_REDIS_POSITION_OR_SIZE_FAILED,
      READ_REDIS_DATA_FAILED, WRITE_REDIS_DATA_FAILED, READ_MONGODB_DATA_FAILED,
      WRITE_MONGODB_DATA_FAILED, READ_MONGO_POSITION_OR_SIZE_FAILED, MONGODB_SERVER_SIDE_FAILED,
      CONNECT_REDIS_SERVER_ERROR, CONNECT_MONGO_SERVER_ERROR, CREATE_MONGO_CLIENT_ERROR,
      CONNECT_MONGO_DATABASE_ERROR, CONNECT_MONGO_COLLECTION_ERROR, FILE_PATH_NON_EXISTANCE,
      INVALID_STORAGE_INDEX, UNDEFINED_ENV_VARIABLE]"

lemmas error_code_defs =
  SUCCESSFUL_def OPEN_FILE_FAILED_def SEEK_FILE_FAILED_def READ_DATA_FROM_FILE_FAILED_def
  WRITE_DATA_TO_FILE_FAILED_def REDIS_SERVER_SIDE_FAILED_def
  READ_REDIS_POSITION_OR_SIZE_FAILED_def READ_REDIS_DATA_FAILED_def WRITE_REDIS_DATA_FAILED_def
  READ_MONGODB_DATA_FAILED_def WRITE_MONGODB_DATA_FAILED_def
  READ_MONGO_POSITION_OR_SIZE_FAILED_def MONGODB_SERVER_SIDE_FAILED_def
  CONNECT_REDIS_SERVER_ERROR_def CONNECT_MONGO_SERVER_ERROR_def CREATE_MONGO_CLIENT_ERROR_def
  CONNECT_MONGO_DATABASE_ERROR_def CONNECT_MONGO_COLLECTION_ERROR_def FILE_PATH_NON_EXISTANCE_def
  INVALID_STORAGE_INDEX_def UNDEFINED_ENV_VARIABLE_def

section \<open>Lemmas\<close>

lemma and_then_simps [simp]: "and_then (Inl e) f = Inl e" "and_then (Inr x) f = f x"
  by (simp_all add: and_then_def)

lemma and_then_Inr: "and_then r f = Inr y \<longleftrightarrow> (\<exists>x. r = Inr x \<and> f x = Inr y)"
  by (cases r) simp_all

lemma find_sub_percent:
  assumes "CHR ''%'' \<notin> set pre"
  shows "find_sub ''%s'' (pre @ ''%s'' @ post) = Some (length pre)"
  using assms
proof (induction pre)
  case Nil
  then show ?case by simp
next
  case (Cons c pre)
  then show ?case by auto
qed

lemma replace_first_percent:
  assumes "CHR ''%'' \<notin> set pre"
  shows "replace_first (pre @ ''%s'' @ post) ''%s'' to = (True, pre @ to @ post)"
  using find_sub_percent [OF assms, of post] by (simp add: replace_first_def)

lemma percent_not_digit: "CHR ''%'' \<notin> set (int_to_string i)"
proof -
  have "\<not> is_digit (CHR ''%'')" by (simp add: is_digit_def)
  then show ?thesis
    using nat_to_string_digits by (auto simp: int_to_string_def)
qed

end
