(* ===== verification/Data_Structures.thy ===== *)
theory Data_Structures
  imports Error_Codes "HOL-Library.AList"
begin

text \<open>
  The data model of Symbios: \<^verbatim>\<open>include/symbios/common/enumerations.h\<close> and
  \<^verbatim>\<open>include/symbios/common/data_structure.h\<close> with the MessagePack adaptors
  (\<^verbatim>\<open>pack\<close>/\<^verbatim>\<open>convert\<close>) of \<^verbatim>\<open>Data\<close> and \<^verbatim>\<open>Metadata\<close>, and the printers of
  \<^verbatim>\<open>src/symbios/common/data_structure.cpp\<close>.

  A \<^verbatim>\<open>char*\<close> buffer is \<open>None\<close> for NULL and otherwise the bytes of the block it points to;
  a \<^verbatim>\<open>CharStruct\<close> of the basket library is the string it holds; an
  \<^verbatim>\<open>unordered_map\<close> is an association list with distinct keys whose order is the
  map's iteration order. MessagePack's wire format is not in the repository: the adaptors
  translate to and from its object model \<open>msgpack\<close>, and the bytes of an object are a
  parameter of the components that store them.
\<close>

section \<open>Enumerations\<close>

datatype IOClientErrorStatus = IO_CLIENT_SUCCESS | IO_CLIENT_FAILED

datatype IOClientType = FILE_IO | REDIS_IO | MONGO_IO

datatype DataDistributionPolicy =
    RANDOM_POLICY | ROUND_ROBIN_POLICY | HEURISTICS_POLICY | DYNAMIC_PROGRAMMING_POLICY

section \<open>Structures\<close>

record Data =
  d_id :: string
  d_position :: size_t
  d_buffer :: "bytes option"
  d_data_size :: size_t
  d_storage_index :: uint16

definition default_Data :: Data where
  "default_Data =
     \<lparr>d_id = '''', d_position = 0, d_buffer = None, d_data_size = 0, d_storage_index = 0\<rparr>"

text \<open>
  \<^verbatim>\<open>StorageSolution\<close> and its three subclasses: a tagged union whose tag is
  \<^verbatim>\<open>io_client_type_\<close>.
\<close>

datatype StorageSolution =
    FileSS string
  | RedisSS string string
  | MongoSS string string string

fun end_point :: "StorageSolution \<Rightarrow> string" where
  "end_point (FileSS e) = e"
| "end_point (RedisSS e port) = e"
| "end_point (MongoSS e database collection) = e"

fun io_client_type :: "StorageSolution \<Rightarrow> IOClientType" where
  "io_client_type (FileSS e) = FILE_IO"
| "io_client_type (RedisSS e port) = REDIS_IO"
| "io_client_type (MongoSS e database collection) = MONGO_IO"

record DataDistribution =
  dd_source_data :: Data
  dd_destination_data :: Data
  dd_storage_index :: uint16

definition default_DataDistribution :: DataDistribution where
  "default_DataDistribution =
     \<lparr>dd_source_data = default_Data, dd_destination_data = default_Data, dd_storage_index = 0\<rparr>"

record Metadata =
  m_is_link :: bool
  m_storage_index :: uint16
  m_links :: "(int64 \<times> Data) list"

definition default_Metadata :: Metadata where
  "default_Metadata = \<lparr>m_is_link = False, m_storage_index = 0, m_links = []\<rparr>"

text \<open>
  \<^verbatim>\<open>links_.insert({k, d})\<close> leaves an existing entry alone; \<^verbatim>\<open>links_[k]\<close> reads an entry,
  a default one when there is none.
\<close>

definition links_insert :: "int64 \<Rightarrow> Data \<Rightarrow> (int64 \<times> Data) list \<Rightarrow> (int64 \<times> Data) list" where
  "links_insert k d links = (case map_of links k of None \<Rightarrow> links @ [(k, d)] | Some _ \<Rightarrow> links)"

definition links_at :: "(int64 \<times> Data) list \<Rightarrow> int64 \<Rightarrow> Data" where
  "links_at links k = (case map_of links k of None \<Rightarrow> default_Data | Some d \<Rightarrow> d)"

section \<open>MessagePack adaptors\<close>

datatype msgpack =
    MBool bool
  | MInt int
  | MStr string
  | MArray "msgpack list"
  | MMap "(msgpack \<times> msgpack) list"

text \<open>\<^verbatim>\<open>object::as<T>\<close>: a \<^verbatim>\<open>type_error\<close> when the object does not hold a value of the type.\<close>

definition type_error :: fault where
  "type_error = Std_Exn ''msgpack::type_error''"

fun as_bool :: "msgpack \<Rightarrow> bool res" where
  "as_bool (MBool b) = Inr b"
| "as_bool _ = Inl type_error"

fun as_string :: "msgpack \<Rightarrow> string res" where
  "as_string (MStr s) = Inr s"
| "as_string _ = Inl type_error"

fun as_size_t :: "msgpack \<Rightarrow> size_t res" where
  "as_size_t (MInt i) = (if 0 \<le> i \<and> i < 2 ^ 64 then Inr (word_of_int i) else Inl type_error)"
| "as_size_t _ = Inl type_error"

fun as_int64 :: "msgpack \<Rightarrow> int64 res" where
  "as_int64 (MInt i) =
     (if - (2 ^ 63) \<le> i \<and> i < 2 ^ 63 then Inr (word_of_int i) else Inl type_error)"
| "as_int64 _ = Inl type_error"

fun as_uint16 :: "msgpack \<Rightarrow> uint16 res" where
  "as_uint16 (MInt i) = (if 0 \<le> i \<and> i < 2 ^ 16 then Inr (word_of_int i) else Inl type_error)"
| "as_uint16 _ = Inl type_error"

text \<open>
  \<^verbatim>\<open>convert<Data>\<close> reads the five elements of the array without looking at the object's
  type or size; \<open>input\<close> is the object it fills, whose buffer stays as it was when the
  packed string is empty.
\<close>

fun convert_Data :: "msgpack \<Rightarrow> Data \<Rightarrow> Data res" where
  "convert_Data (MArray (o0 # o1 # o2 # o3 # o4 # _)) input =
     (case as_string o0 of Inl e \<Rightarrow> Inl e | Inr i \<Rightarrow>
      case as_size_t o1 of Inl e \<Rightarrow> Inl e | Inr pos \<Rightarrow>
      case as_string o2 of Inl e \<Rightarrow> Inl e | Inr dat \<Rightarrow>
      case as_size_t o3 of Inl e \<Rightarrow> Inl e | Inr sz \<Rightarrow>
      case (if dat \<noteq> [] then map_option Some (mem_read 0 (unat sz) dat)
            else Some (d_buffer input)) of None \<Rightarrow> Inl Undefined | Some buf \<Rightarrow>
      case as_uint16 o4 of Inl e \<Rightarrow> Inl e | Inr ix \<Rightarrow>
        Inr (input\<lparr>d_id := i, d_position := pos, d_buffer := buf, d_data_size := sz,
                   d_storage_index := ix\<rparr>))"
| "convert_Data _ input = Inl Undefined"

text \<open>
  \<^verbatim>\<open>pack<Data>\<close> (and \<^verbatim>\<open>object_with_zone<Data>\<close>, which builds the same object): the buffer
  is read as \<^verbatim>\<open>std::string(buffer_, data_size_)\<close>.
\<close>

definition pack_Data :: "Data \<Rightarrow> msgpack res" where
  "pack_Data d =
     (case (case d_buffer d of None \<Rightarrow> Some ''''
                             | Some b \<Rightarrow> mem_read 0 (unat (d_data_size d)) b) of
        None \<Rightarrow> Inl Undefined
      | Some s \<Rightarrow>
          Inr (MArray [MStr (d_id d), MInt (uint (d_position d)), MStr s,
                       MInt (uint (d_data_size d)), MInt (uint (d_storage_index d))]))"

fun pack_links :: "(int64 \<times> Data) list \<Rightarrow> (msgpack \<times> msgpack) list res" where
  "pack_links [] = Inr []"
| "pack_links ((k, d) # ls) =
     (case pack_Data d of Inl e \<Rightarrow> Inl e | Inr od \<Rightarrow>
      case pack_links ls of Inl e \<Rightarrow> Inl e | Inr ols \<Rightarrow> Inr ((MInt (sint k), od) # ols))"

fun convert_links :: "(msgpack \<times> msgpack) list \<Rightarrow> (int64 \<times> Data) list res" where
  "convert_links [] = Inr []"
| "convert_links ((ok, od) # ols) =
     (case as_int64 ok of Inl e \<Rightarrow> Inl e | Inr k \<Rightarrow>
      case convert_Data od default_Data of Inl e \<Rightarrow> Inl e | Inr d \<Rightarrow>
      case convert_links ols of Inl e \<Rightarrow> Inl e | Inr ls \<Rightarrow>
        Inr (if k \<in> fst ` set ls then ls else (k, d) # ls))"

fun as_links :: "msgpack \<Rightarrow> (int64 \<times> Data) list res" where
  "as_links (MMap ols) = convert_links ols"
| "as_links _ = Inl type_error"

fun convert_Metadata :: "msgpack \<Rightarrow> Metadata res" where
  "convert_Metadata (MArray (o0 # o1 # o2 # _)) =
     (case as_bool o0 of Inl e \<Rightarrow> Inl e | Inr l \<Rightarrow>
      case as_links o1 of Inl e \<Rightarrow> Inl e | Inr ls \<Rightarrow>
      case as_uint16 o2 of Inl e \<Rightarrow> Inl e | Inr ix \<Rightarrow>
        Inr \<lparr>m_is_link = l, m_storage_index = ix, m_links = ls\<rparr>)"
| "convert_Metadata _ = Inl Undefined"

definition pack_Metadata :: "Metadata \<Rightarrow> msgpack res" where
  "pack_Metadata m =
     (case pack_links (m_links m) of Inl e \<Rightarrow> Inl e | Inr ols \<Rightarrow>
        Inr (MArray [MBool (m_is_link m), MMap ols, MInt (uint (m_storage_index m))]))"

section \<open>Printers\<close>

definition show_Data :: "Data \<Rightarrow> string" where
  "show_Data m =
     ''{id_:'' @ d_id m @ '','' @
     ''data_size_:'' @ nat_to_string (unat (d_data_size m)) @ '','' @
     ''position_:'' @ nat_to_string (unat (d_position m)) @ '','' @
     ''storage_index_:'' @ nat_to_string (unat (d_storage_index m)) @ ''}''"

text \<open>
  The loop counter \<open>i\<close> of the \<^verbatim>\<open>Metadata\<close> printer stays 0: a comma follows every link when
  there are at least two, and none otherwise (\<^verbatim>\<open>0 < links_.size() - 1\<close> on \<^verbatim>\<open>size_t\<close>).
\<close>

fun show_links :: "nat \<Rightarrow> (int64 \<times> Data) list \<Rightarrow> string" where
  "show_links n [] = ''''"
| "show_links n ((k, d) # ls) =
     ''{ first:'' @ int_to_string (sint k) @ '', second:'' @ int_to_string (sint k) @ ''}'' @
     (if 0 < n - 1 then '','' else '''') @ ''}'' @ show_links n ls"

definition show_Metadata :: "Metadata \<Rightarrow> string" where
  "show_Metadata m =
     ''{storage_index_:'' @ nat_to_string (unat (m_storage_index m)) @ '','' @
     ''is_link_:'' @ (if m_is_link m then ''1'' else ''0'') @ '','' @
     ''links_:{'' @ show_links (length (m_links m)) (m_links m)"

definition show_DataDistribution :: "DataDistribution \<Rightarrow> string" where
  "show_DataDistribution m =
     ''{source_data_:'' @ show_Data (dd_source_data m) @ '','' @
     ''destination_data_:'' @ show_Data (dd_destination_data m) @ '','' @
     ''storage_index_:'' @ nat_to_string (unat (dd_storage_index m)) @ ''}''"

section \<open>Well-formedness\<close>

text \<open>
  A \<^verbatim>\<open>Data\<close> that survives packing: no buffer, or a non-empty one of exactly
  \<^verbatim>\<open>data_size_\<close> bytes.
\<close>

definition wf_Data :: "Data \<Rightarrow> bool" where
  "wf_Data d = (case d_buffer d of None \<Rightarrow> True
                | Some b \<Rightarrow> b \<noteq> [] \<and> length b = unat (d_data_size d))"

definition wf_Metadata :: "Metadata \<Rightarrow> bool" where
  "wf_Metadata m \<longleftrightarrow> distinct (map fst (m_links m)) \<and> list_all (\<lambda>(k, d). wf_Data d) (m_links m)"

section \<open>Lemmas\<close>

lemma default_Data_simps [simp]:
  "d_id default_Data = ''''" "d_position default_Data = 0" "d_buffer default_Data = None"
  "d_data_size default_Data = 0" "d_storage_index default_Data = 0"
  by (simp_all add: default_Data_def)

lemma default_Metadata_simps [simp]:
  "m_is_link default_Metadata = False" "m_storage_index default_Metadata = 0"
  "m_links default_Metadata = []"
  by (simp_all add: default_Metadata_def)

lemma as_size_t_pack [simp]: "as_size_t (MInt (uint (w :: size_t))) = Inr w"
  by simp

lemma as_uint16_pack [simp]: "as_uint16 (MInt (uint (w :: uint16))) = Inr w"
  by simp

lemma as_int64_pack [simp]: "as_int64 (MInt (sint (w :: int64))) = Inr w"
  by simp

lemma pack_Data_wf: "wf_Data d \<Longrightarrow>
  pack_Data d = Inr (MArray [MStr (d_id d), MInt (uint (d_position d)),
    MStr (case d_buffer d of None \<Rightarrow> '''' | Some b \<Rightarrow> b),
    MInt (uint (d_data_size d)), MInt (uint (d_storage_index d))])"
  by (auto simp: pack_Data_def wf_Data_def mem_read_def split: option.splits)

lemma convert_pack_Data:
  assumes "wf_Data d" "pack_Data d = Inr ob"
  shows "convert_Data ob default_Data = Inr d"
proof (cases "d_buffer d")
  case None
  with assms show ?thesis by (auto simp: pack_Data_wf)
next
  case (Some b)
  with assms show ?thesis by (auto simp: pack_Data_wf wf_Data_def mem_read_def)
qed

lemma pack_links_wf: "list_all (\<lambda>(k, d). wf_Data d) ls \<Longrightarrow> \<exists>ols. pack_links ls = Inr ols"
  by (induction ls rule: pack_links.induct) (auto simp: pack_Data_wf)

lemma convert_pack_links:
  "pack_links ls = Inr ols \<Longrightarrow> distinct (map fst ls) \<Longrightarrow> list_all (\<lambda>(k, d). wf_Data d) ls \<Longrightarrow>
   convert_links ols = Inr ls"
proof (induction ls arbitrary: ols rule: pack_links.induct)
  case 1
  then show ?case by simp
next
  case (2 k d ls)
  from "2.prems"(1) obtain od ols' where od: "pack_Data d = Inr od"
    and ols': "pack_links ls = Inr ols'" and ols: "ols = (MInt (sint k), od) # ols'"
    by (auto split: sum.splits)
  have "convert_Data od default_Data = Inr d"
    using "2.prems"(3) od by (auto intro: convert_pack_Data)
  moreover have "convert_links ols' = Inr ls"
    using "2.IH" od ols' "2.prems" by auto
  ultimately show ?case using "2.prems"(2) ols by (auto split: if_splits)
qed

lemma pack_Metadata_wf: "wf_Metadata m \<Longrightarrow> \<exists>ob. pack_Metadata m = Inr ob"
  using pack_links_wf [of "m_links m"] by (auto simp: pack_Metadata_def wf_Metadata_def)

lemma convert_pack_Metadata:
  "wf_Metadata m \<Longrightarrow> pack_Metadata m = Inr ob \<Longrightarrow> convert_Metadata ob = Inr m"
  by (auto simp: pack_Metadata_def wf_Metadata_def convert_pack_links split: sum.splits)

lemma map_of_links_insert:
  "map_of (links_insert k d ls) k' =
     (if map_of ls k' = None \<and> k' = k then Some d else map_of ls k')"
  by (auto simp: links_insert_def map_add_def split: option.splits)

lemma distinct_links_insert:
  "distinct (map fst ls) \<Longrightarrow> distinct (map fst (links_insert k d ls))"
  by (auto simp: links_insert_def map_of_eq_None_iff split: option.splits)

lemma set_links_insert:
  "set (links_insert k d ls) \<subseteq> insert (k, d) (set ls)"
  by (auto simp: links_insert_def split: option.splits)

lemma wf_links_insert:
  "list_all (\<lambda>(k, d). wf_Data d) ls \<Longrightarrow> wf_Data d \<Longrightarrow>
   list_all (\<lambda>(k, d). wf_Data d) (links_insert k d ls)"
  by (auto simp: links_insert_def split: option.splits)

end
