(* ===== verification/Configuration.thy ===== *)
theory Configuration
  imports Data_Structures
begin

text \<open>
  \<^verbatim>\<open>include/symbios/common/configuration_manager.h\<close>: the configuration singleton, the
  expansion of \<^verbatim>\<open>${VARIABLE}\<close> in its strings, the \<^verbatim>\<open>config\<close> overloads that copy members of
  the JSON document into it, \<^verbatim>\<open>CountServers\<close> and \<^verbatim>\<open>LoadConfiguration\<close>.

  The rapidjson parser, the process environment, the file system and the basket
  configuration are parameters: the parsed document, \<open>getenv\<close>, the content of a file,
  and the functions of \<^verbatim>\<open>BASKET_CONF\<close>. A failed \<^verbatim>\<open>assert\<close> (rapidjson's included) aborts the
  process: \<open>aborted\<close>. An \<^verbatim>\<open>unordered_map\<close> of storage solutions is an association list; a
  null \<^verbatim>\<open>shared_ptr\<close> is \<open>None\<close>.
\<close>

section \<open>Data\<close>

datatype json =
    JNull
  | JBool bool
  | JInt int
  | JDouble
  | JString string
  | JArray "json list"
  | JObject "(string \<times> json) list"

definition aborted :: fault where
  "aborted = Exit 134"

type_synonym storage_solutions = "(uint16 \<times> StorageSolution option) list"

record conf =
  SERVER_LISTS :: string
  CLIENT_LISTS :: string
  SYMBIOS_PORT :: uint16
  SERVER_RPC_THREADS :: uint16
  SERVER_DIR :: string
  CONFIGURATION_FILE :: string
  SERVER_COUNT :: uint16
  RANDOM_SEED :: uint16
  MAX_OBJ_SIZE :: int64
  STORAGE_SOLUTIONS :: storage_solutions
  DATA_DISTRIBUTION_POLICY :: DataDistributionPolicy

definition ConfigurationManager :: conf where
  "ConfigurationManager =
     \<lparr>SERVER_LISTS = ''/home/user/symbios/conf/server_lists/single_node_symbios_server'',
      CLIENT_LISTS = ''/home/user/symbios/conf/server_lists/single_node_symbios_client'',
      SYMBIOS_PORT = 8000, SERVER_RPC_THREADS = 4,
      SERVER_DIR = ''/dev/shm/hari/single_node_symbios_server'',
      CONFIGURATION_FILE = ''/home/user/symbios/conf/base_symbios.conf'',
      SERVER_COUNT = 1, RANDOM_SEED = 100, MAX_OBJ_SIZE = 2 * 1024 * 1024,
      STORAGE_SOLUTIONS =
        [(0, Some (FileSS ''./'')), (1, Some (RedisSS ''127.0.0.1'' ''6379'')),
         (2, Some (MongoSS ''mongodb://localhost:27017'' ''mydb'' ''test''))],
      DATA_DISTRIBUTION_POLICY = RANDOM_POLICY\<rparr>"

section \<open>Environment variables\<close>

text \<open>
  A match of the regular expression \<^verbatim>\<open>\$\{.*?\}\<close> at the start of a string: the name between
  the braces and what follows. The dot does not match a line terminator.
\<close>

definition env_here :: "string \<Rightarrow> (string \<times> string) option" where
  "env_here s =
     (if prefix ''${'' s
      then let rest = drop 2 s;
               body = takeWhile (\<lambda>c. c \<noteq> CHR ''}'' \<and> c \<noteq> CHR 0x0A \<and> c \<noteq> CHR 0x0D) rest
           in (case drop (length body) rest of
                 c # post \<Rightarrow> if c = CHR ''}'' then Some (body, post) else None
               | [] \<Rightarrow> None)
      else None)"

text \<open>\<^verbatim>\<open>regex_search\<close>: the text before the first match, its name, the text after it.\<close>

fun env_search :: "string \<Rightarrow> (string \<times> string \<times> string) option" where
  "env_search [] = None"
| "env_search (c # s) =
     (case env_here (c # s) of
        Some (name, post) \<Rightarrow> Some ([], name, post)
      | None \<Rightarrow> map_option (\<lambda>(pre, name, post). (c # pre, name, post)) (env_search s))"

text \<open>
  The replacement text is a format string: \<^verbatim>\<open>$$\<close>, \<^verbatim>\<open>$&\<close>, the prefix, the suffix and
  \<^verbatim>\<open>$n\<close> are expanded (the expression has one group, the whole match).
\<close>

fun regex_format :: "string \<Rightarrow> string \<Rightarrow> string \<Rightarrow> string \<Rightarrow> string" where
  "regex_format pre m post [] = []"
| "regex_format pre m post [c] = [c]"
| "regex_format pre m post (c # e # s) =
     (if c \<noteq> CHR ''$'' then c # regex_format pre m post (e # s)
      else if e = CHR ''$'' then CHR ''$'' # regex_format pre m post s
      else if e = CHR ''&'' then m @ regex_format pre m post s
      else if e = CHR 0x60 then pre @ regex_format pre m post s
      else if e = CHR 0x27 then post @ regex_format pre m post s
      else if is_digit e
      then (case s of
              [] \<Rightarrow> if digit_val e < 2 then m else []
            | f # s' \<Rightarrow>
                if is_digit f
                then (if 10 * digit_val e + digit_val f < 2 then m else []) @
                     regex_format pre m post s'
                else (if digit_val e < 2 then m else []) @ regex_format pre m post s)
      else CHR ''$'' # regex_format pre m post (e # s))"

lemma env_here_length: "env_here s = Some (name, post) \<Longrightarrow> length post < length s"
proof -
  assume a: "env_here s = Some (name, post)"
  let ?body = "takeWhile (\<lambda>c. c \<noteq> CHR ''}'' \<and> c \<noteq> CHR 0x0A \<and> c \<noteq> CHR 0x0D) (drop 2 s)"
  from a obtain c where "drop (length ?body) (drop 2 s) = c # post"
    by (auto simp: env_here_def Let_def split: if_splits list.splits)
  then have "length (drop (length ?body) (drop 2 s)) = Suc (length post)" by simp
  then show ?thesis by simp
qed

lemma env_search_length: "env_search s = Some (pre, name, post) \<Longrightarrow> length post < length s"
  by (induction s arbitrary: pre name post)
    (fastforce dest: env_here_length split: option.splits)+

text \<open>\<^verbatim>\<open>regex_replace(s, regexp, fmt)\<close> replaces every match.\<close>

function regex_replace :: "string \<Rightarrow> string \<Rightarrow> string" where
  "regex_replace fmt s =
     (case env_search s of
        None \<Rightarrow> s
      | Some (pre, name, post) \<Rightarrow>
          pre @ regex_format pre (''${'' @ name @ ''}'') post fmt @ regex_replace fmt post)"
  by pat_completeness auto
termination
  by (relation "measure (\<lambda>(fmt, s). length s)") (auto dest: env_search_length)

declare regex_replace.simps [simp del]

definition replaceEnvVariable :: "(string \<Rightarrow> string option) \<Rightarrow> string \<Rightarrow> string res" where
  "replaceEnvVariable getenv temp_variable =
     (case env_search temp_variable of
        None \<Rightarrow> Inr temp_variable
      | Some (pre, name, post) \<Rightarrow>
          (case getenv name of
             None \<Rightarrow> Inl (Thrown (ErrorException UNDEFINED_ENV_VARIABLE [name]))
           | Some unrolled \<Rightarrow> Inr (regex_replace unrolled temp_variable)))"

section \<open>The config overloads\<close>

text \<open>\<^verbatim>\<open>doc.HasMember(m)\<close> with \<^verbatim>\<open>doc[m]\<close>; looking for a member of a non-object aborts.\<close>

fun json_member :: "json \<Rightarrow> string \<Rightarrow> json option res" where
  "json_member (JObject ms) m = Inr (map_of ms m)"
| "json_member _ m = Inl aborted"

definition config_uint16 ::
  "(string \<Rightarrow> string option) \<Rightarrow> json \<Rightarrow> string \<Rightarrow> uint16 \<Rightarrow> uint16 res" where
  "config_uint16 getenv doc member variable =
     (case json_member doc member of
        Inl e \<Rightarrow> Inl e
      | Inr None \<Rightarrow> Inr variable
      | Inr (Some (JInt i)) \<Rightarrow>
          if - (2 ^ 31) \<le> i \<and> i < 2 ^ 31
          then map_sum id (\<lambda>s. word_of_int (atoi s)) (replaceEnvVariable getenv (int_to_string i))
          else Inl aborted
      | Inr (Some _) \<Rightarrow> Inl aborted)"

definition config_really_long ::
  "(string \<Rightarrow> string option) \<Rightarrow> json \<Rightarrow> string \<Rightarrow> size_t \<Rightarrow> size_t res" where
  "config_really_long getenv doc member variable =
     (case json_member doc member of
        Inl e \<Rightarrow> Inl e
      | Inr None \<Rightarrow> Inr variable
      | Inr (Some (JInt i)) \<Rightarrow>
          if 0 \<le> i \<and> i < 2 ^ 64
          then map_sum id (\<lambda>s. word_of_int (atol s)) (replaceEnvVariable getenv (int_to_string i))
          else Inl aborted
      | Inr (Some _) \<Rightarrow> Inl aborted)"

definition config_string ::
  "(string \<Rightarrow> string option) \<Rightarrow> json \<Rightarrow> string \<Rightarrow> string \<Rightarrow> string res" where
  "config_string getenv doc member variable =
     (case json_member doc member of
        Inl e \<Rightarrow> Inl e
      | Inr None \<Rightarrow> Inr variable
      | Inr (Some (JString s)) \<Rightarrow> replaceEnvVariable getenv s
      | Inr (Some _) \<Rightarrow> Inl aborted)"

text \<open>One element of the \<^verbatim>\<open>STORAGE_SOLUTIONS\<close> array; an unknown type gives a null pointer.\<close>

definition config_solution ::
  "(string \<Rightarrow> string option) \<Rightarrow> json \<Rightarrow> StorageSolution option res" where
  "config_solution getenv result =
     (case json_member result ''TYPE'' of
        Inl e \<Rightarrow> Inl e
      | Inr None \<Rightarrow> Inl aborted
      | Inr (Some ty) \<Rightarrow>
          if ty = JString ''FILE_IO''
          then and_then (config_string getenv result ''MOUNT'' '''') (\<lambda>mount.
               Inr (Some (FileSS mount)))
          else if ty = JString ''REDIS_IO''
          then and_then (config_string getenv result ''IP'' '''') (\<lambda>ip.
               and_then (config_string getenv result ''PORT'' '''') (\<lambda>port.
               Inr (Some (RedisSS ip port))))
          else if ty = JString ''MONGO_IO''
          then and_then (config_string getenv result ''IP'' '''') (\<lambda>ip.
               and_then (config_string getenv result ''DATABASE'' '''') (\<lambda>database.
               and_then (config_string getenv result ''COLLECTION'' '''') (\<lambda>collection.
               Inr (Some (MongoSS ip database collection)))))
          else Inr None)"

text \<open>The loop over the array from index \<open>i\<close>; \<^verbatim>\<open>insert\<close> keeps an entry that is there.\<close>

fun config_solutions_from ::
  "(string \<Rightarrow> string option) \<Rightarrow> nat \<Rightarrow> json list \<Rightarrow> storage_solutions \<Rightarrow> storage_solutions res" where
  "config_solutions_from getenv i [] variable = Inr variable"
| "config_solutions_from getenv i (r # rs) variable =
     (case config_solution getenv r of
        Inl e \<Rightarrow> Inl e
      | Inr ss \<Rightarrow>
          config_solutions_from getenv (Suc i) rs
            (case map_of variable (of_nat i) of
               None \<Rightarrow> variable @ [(of_nat i, ss)]
             | Some _ \<Rightarrow> variable))"

definition config_solutions ::
  "(string \<Rightarrow> string option) \<Rightarrow> json \<Rightarrow> string \<Rightarrow> storage_solutions res" where
  "config_solutions getenv doc member =
     (case json_member doc member of
        Inl e \<Rightarrow> Inl e
      | Inr None \<Rightarrow> Inr []
      | Inr (Some (JArray results)) \<Rightarrow> config_solutions_from getenv 0 results []
      | Inr (Some _) \<Rightarrow> Inl aborted)"

definition config_policy ::
  "json \<Rightarrow> string \<Rightarrow> DataDistributionPolicy \<Rightarrow> DataDistributionPolicy res" where
  "config_policy doc member variable =
     (case json_member doc member of
        Inl e \<Rightarrow> Inl e
      | Inr None \<Rightarrow> Inr variable
      | Inr (Some (JString s)) \<Rightarrow>
          Inr (if s = ''RANDOM_POLICY'' then RANDOM_POLICY
               else if s = ''ROUND_ROBIN_POLICY'' then ROUND_ROBIN_POLICY
               else if s = ''HEURISTICS_POLICY'' then HEURISTICS_POLICY
               else if s = ''DYNAMIC_PROGRAMMING_POLICY'' then DYNAMIC_PROGRAMMING_POLICY
               else variable)
      | Inr (Some _) \<Rightarrow> Inl aborted)"

section \<open>Counting servers\<close>

text \<open>What one line of the server list adds; the text given to \<^verbatim>\<open>atoi\<close> starts at the colon.\<close>

definition line_count :: "string \<Rightarrow> nat" where
  "line_count file_line =
     (if file_line = [] then 0
      else if CHR '':'' \<in> set file_line
      then nat (atoi (dropWhile (\<lambda>c. c \<noteq> CHR '':'') file_line))
      else 1)"

definition CountServers :: "string option \<Rightarrow> int res" where
  "CountServers file =
     (case file of
        None \<Rightarrow> Inl (Exit 1)
      | Some content \<Rightarrow> Inr (int (sum_list (map line_count (getlines (CHR 0x0A) content)))))"

section \<open>Loading\<close>

text \<open>
  \<open>doc\<close> is the parsed configuration file, \<open>None\<close> when the file cannot be opened, and
  \<open>create_directories\<close> the error of creating the server directory, if any.
\<close>

definition LoadConfiguration ::
  "(string \<Rightarrow> string option) \<Rightarrow> (string \<Rightarrow> string option) \<Rightarrow> json option \<Rightarrow> conf \<Rightarrow> conf res" where
  "LoadConfiguration getenv create_directories doc c =
     (case doc of
        Some (JObject ms) \<Rightarrow>
          and_then (config_string getenv (JObject ms) ''SERVER_LISTS'' (SERVER_LISTS c)) (\<lambda>sl.
          and_then (config_string getenv (JObject ms) ''CLIENT_LISTS'' (CLIENT_LISTS c)) (\<lambda>cl.
          and_then (config_uint16 getenv (JObject ms) ''SYMBIOS_PORT'' (SYMBIOS_PORT c)) (\<lambda>port.
          and_then (config_uint16 getenv (JObject ms) ''SERVER_RPC_THREADS'' (SERVER_RPC_THREADS c))
            (\<lambda>threads.
          and_then (config_string getenv (JObject ms) ''SERVER_DIR'' (SERVER_DIR c)) (\<lambda>dir.
          and_then (config_uint16 getenv (JObject ms) ''RANDOM_SEED'' (RANDOM_SEED c)) (\<lambda>seed.
          and_then (config_solutions getenv (JObject ms) ''STORAGE_SOLUTIONS'') (\<lambda>sols.
          and_then (config_policy (JObject ms) ''DATA_DISTRIBUTION_POLICY'' (DATA_DISTRIBUTION_POLICY c))
            (\<lambda>pol.
          if create_directories dir = None
          then Inr (c\<lparr>SERVER_LISTS := sl, CLIENT_LISTS := cl, SYMBIOS_PORT := port,
                      SERVER_RPC_THREADS := threads, SERVER_DIR := dir, RANDOM_SEED := seed,
                      STORAGE_SOLUTIONS := sols, DATA_DISTRIBUTION_POLICY := pol\<rparr>)
          else Inl (Std_Exn (the (create_directories dir)))))))))))
      | _ \<Rightarrow> Inl (Exit 1))"

record basket_conf =
  RPC_PORT :: uint16
  RPC_THREADS :: uint16
  MEMORY_ALLOCATED :: size_t
  BACKED_FILE_DIR :: string
  NUM_SERVERS :: int

text \<open>The basket functions \<^verbatim>\<open>ConfigureDefaultClient\<close> and \<^verbatim>\<open>ConfigureDefaultServer\<close> are parameters.\<close>

definition ConfigureSymbiosClient ::
  "(string \<Rightarrow> basket_conf \<Rightarrow> basket_conf) \<Rightarrow> conf res \<Rightarrow> basket_conf \<Rightarrow> (conf \<times> basket_conf) res" where
  "ConfigureSymbiosClient default_client loaded b =
     (case loaded of
        Inl e \<Rightarrow> Inl e
      | Inr c \<Rightarrow> Inr (c, (default_client (SERVER_LISTS c) b)\<lparr>RPC_PORT := SYMBIOS_PORT c\<rparr>))"

definition ConfigureSymbiosServer ::
  "(string \<Rightarrow> basket_conf \<Rightarrow> basket_conf) \<Rightarrow> conf res \<Rightarrow> basket_conf \<Rightarrow> (conf \<times> basket_conf) res" where
  "ConfigureSymbiosServer default_server loaded b =
     (case loaded of
        Inl e \<Rightarrow> Inl e
      | Inr c \<Rightarrow>
          let b1 = b\<lparr>RPC_THREADS := SERVER_RPC_THREADS c, MEMORY_ALLOCATED := 1024 * 1024 * 1,
                     BACKED_FILE_DIR := SERVER_DIR c\<rparr>;
              b2 = default_server (SERVER_LISTS c) b1
          in Inr (c\<lparr>SERVER_COUNT := word_of_int (NUM_SERVERS b2)\<rparr>,
                  b2\<lparr>RPC_PORT := SYMBIOS_PORT c\<rparr>))"

end
