(* ===== verification/Object_Store.thy ===== *)
theory Object_Store
  imports Data_Structures
begin

text \<open>
  The interface \<^verbatim>\<open>IOClient\<close> of \<^verbatim>\<open>src/symbios/io_clients/io.h\<close> as its callers use it: the
  four virtual methods, and the laws the three implementations share. The common ground is
  the \<^emph>\<open>whole object\<close>: a write at position 0 replaces the first bytes of the object and
  keeps the rest, a read from position 0 returns the object or a prefix of it. Writes and
  reads at other positions differ between the clients and are treated with each client.

  Methods that change the store return the new store also when they throw.
\<close>

text \<open>The request that carries exactly the bytes \<open>b\<close>, from the start of its buffer.\<close>

definition whole :: "Data \<Rightarrow> bytes \<Rightarrow> bool" where
  "whole src b \<longleftrightarrow> d_buffer src = Some b \<and> d_data_size src = of_nat (length b) \<and> d_position src = 0"

definition old_bytes :: "bytes option \<Rightarrow> bytes" where
  "old_bytes v = (case v of None \<Rightarrow> [] | Some b \<Rightarrow> b)"

text \<open>The data a request carries, as the clients read it from the source buffer.\<close>

definition carries :: "Data \<Rightarrow> bytes \<Rightarrow> bool" where
  "carries src dat \<longleftrightarrow>
     mem_read (unat (d_position src)) (unat (d_data_size src)) (old_bytes (d_buffer src)) = Some dat"

lemma old_bytes_simps [simp]: "old_bytes None = []" "old_bytes (Some b) = b"
  by (simp_all add: old_bytes_def)

lemma carries_length: "carries src dat \<Longrightarrow> length dat = unat (d_data_size src)"
  by (auto simp: carries_def mem_read_def split: if_splits)

lemma whole_carries: "whole src b \<Longrightarrow> length b < 2 ^ 63 \<Longrightarrow> carries src b"
  by (simp add: whole_def carries_def mem_read_def old_bytes_def size_fits)

locale object_store =
  fixes up :: "'w \<Rightarrow> string \<Rightarrow> bool"
    and fits :: "'w \<Rightarrow> nat \<Rightarrow> bool"
    and obj :: "'w \<Rightarrow> string \<Rightarrow> bytes option"
    and rd :: "'w \<Rightarrow> Data \<Rightarrow> Data \<Rightarrow> Data res"
    and wr :: "'w \<Rightarrow> Data \<Rightarrow> Data \<Rightarrow> Data res \<times> 'w"
    and rm :: "'w \<Rightarrow> Data \<Rightarrow> bool res \<times> 'w"
    and sz :: "'w \<Rightarrow> Data \<Rightarrow> size_t res"
  assumes fits_bound: "fits w n \<Longrightarrow> n < 2 ^ 63"
    and fits_mono: "fits w n \<Longrightarrow> m \<le> n \<Longrightarrow> fits w m"
    and wr_whole: "up w (d_id dst) \<Longrightarrow> whole src b \<Longrightarrow> d_position dst = 0 \<Longrightarrow>
      fits w (length b) \<Longrightarrow> fits w (length (old_bytes (obj w (d_id dst)))) \<Longrightarrow>
      \<exists>w'. wr w src dst = (Inr src, w') \<and>
        obj w' = (obj w)(d_id dst \<mapsto> overlay 0 b (old_bytes (obj w (d_id dst)))) \<and>
        up w' = up w \<and> fits w' = fits w"
    and rd_whole: "up w (d_id src) \<Longrightarrow> obj w (d_id src) = Some v \<Longrightarrow> fits w (length v) \<Longrightarrow>
      d_data_size src = 0 \<Longrightarrow> d_position src = 0 \<Longrightarrow> d_position dst = 0 \<Longrightarrow>
      rd w src dst = Inr (dst\<lparr>d_buffer := Some v, d_data_size := of_nat (length v)\<rparr>)"
    and rd_prefix: "up w (d_id src) \<Longrightarrow> obj w (d_id src) = Some v \<Longrightarrow> fits w (length v) \<Longrightarrow>
      d_data_size src = of_nat n \<Longrightarrow> 0 < n \<Longrightarrow> n \<le> length v \<Longrightarrow>
      d_position src = 0 \<Longrightarrow> d_position dst = 0 \<Longrightarrow>
      rd w src dst = Inr (dst\<lparr>d_buffer := Some (take n v), d_data_size := of_nat n\<rparr>)"
    and rd_absent: "up w (d_id src) \<Longrightarrow> obj w (d_id src) = None \<Longrightarrow>
      \<exists>e. rd w src dst = Inl (Thrown e)"
    and rm_gone: "up w (d_id src) \<Longrightarrow>
      \<exists>w'. rm w src = (Inr True, w') \<and> obj w' = (obj w)(d_id src := None) \<and>
        up w' = up w \<and> fits w' = fits w"
    and sz_length: "up w (d_id src) \<Longrightarrow> fits w (length (old_bytes (obj w (d_id src)))) \<Longrightarrow>
      sz w src = Inr (of_nat (length (old_bytes (obj w (d_id src)))))"
begin

text \<open>Storing a fresh object and reading it back whole returns its bytes.\<close>

lemma fresh_write_read:
  assumes "up w (d_id dst)" "whole src b" "d_position dst = 0" "fits w (length b)"
    and "obj w (d_id dst) = None"
    and "d_id s = d_id dst" "d_data_size s = 0" "d_position s = 0" "d_position d = 0"
  shows "\<exists>w'. wr w src dst = (Inr src, w') \<and>
    rd w' s d = Inr (d\<lparr>d_buffer := Some b, d_data_size := of_nat (length b)\<rparr>)"
proof -
  have "fits w (length (old_bytes (obj w (d_id dst))))"
    using assms(4,5) fits_mono by (fastforce simp: old_bytes_def)
  then obtain w' where w': "wr w src dst = (Inr src, w')"
    and obj': "obj w' = (obj w)(d_id dst \<mapsto> overlay 0 b (old_bytes (obj w (d_id dst))))"
    and frame: "up w' = up w" "fits w' = fits w"
    using wr_whole assms(1-4) by blast
  have "obj w' (d_id s) = Some b"
    using obj' assms(5,6) by (simp add: overlay_0 old_bytes_def)
  then have "rd w' s d = Inr (d\<lparr>d_buffer := Some b, d_data_size := of_nat (length b)\<rparr>)"
    using frame assms by (intro rd_whole) simp_all
  then show ?thesis using w' by blast
qed

text \<open>A write at position 0 that covers the old object replaces it.\<close>

lemma covering_write:
  assumes "up w (d_id dst)" "whole src b" "d_position dst = 0" "fits w (length b)"
    and "length (old_bytes (obj w (d_id dst))) \<le> length b"
  shows "\<exists>w'. wr w src dst = (Inr src, w') \<and> obj w' = (obj w)(d_id dst \<mapsto> b) \<and>
    up w' = up w \<and> fits w' = fits w"
proof -
  have "fits w (length (old_bytes (obj w (d_id dst))))"
    using assms(4,5) fits_mono by blast
  moreover have "overlay 0 b (old_bytes (obj w (d_id dst))) = b"
    using assms(5) by (simp add: overlay_0)
  ultimately show ?thesis using wr_whole assms(1-4) by metis
qed

text \<open>A removed object reads as absent and has size 0.\<close>

lemma removed_is_gone:
  assumes "up w (d_id src)" "d_id s = d_id src"
  shows "\<exists>w' e. rm w src = (Inr True, w') \<and> rd w' s d = Inl (Thrown e) \<and>
    (fits w 0 \<longrightarrow> sz w' s = Inr 0)"
proof -
  obtain w' where w': "rm w src = (Inr True, w')" and obj': "obj w' = (obj w)(d_id src := None)"
    and frame: "up w' = up w" "fits w' = fits w"
    using rm_gone assms(1) by blast
  have none: "obj w' (d_id s) = None" using obj' assms(2) by simp
  moreover have "up w' (d_id s)" using frame assms by simp
  ultimately have "\<exists>e. rd w' s d = Inl (Thrown e)" and
    "fits w 0 \<longrightarrow> sz w' s = Inr 0"
    using rd_absent sz_length [of w' s] frame by (auto simp: old_bytes_def)
  then show ?thesis using w' by blast
qed

end

text \<open>
  An object store that is a component of a larger state is one on that state: \<open>get\<close> reads the
  component and \<open>put\<close> replaces it.
\<close>

lemma object_store_lift:
  fixes get :: "'w \<Rightarrow> 's" and put :: "'w \<Rightarrow> 's \<Rightarrow> 'w"
  assumes store: "object_store up fits obj rd wr rm sz" and lens: "\<And>w s. get (put w s) = s"
  shows "object_store (\<lambda>w. up (get w)) (\<lambda>w. fits (get w)) (\<lambda>w. obj (get w)) (\<lambda>w. rd (get w))
    (\<lambda>w src dst. case wr (get w) src dst of (r, s) \<Rightarrow> (r, put w s))
    (\<lambda>w src. case rm (get w) src of (r, s) \<Rightarrow> (r, put w s)) (\<lambda>w. sz (get w))"
proof (unfold_locales, goal_cases)
  case (1 w n)
  then show ?case by (rule object_store.fits_bound [OF store])
next
  case (2 w n m)
  then show ?case by (rule object_store.fits_mono [OF store])
next
  case (3 w dst src b)
  then obtain s where "wr (get w) src dst = (Inr src, s)"
    "obj s = (obj (get w))(d_id dst \<mapsto> overlay 0 b (old_bytes (obj (get w) (d_id dst))))"
    "up s = up (get w)" "fits s = fits (get w)"
    using object_store.wr_whole [OF store, of "get w" dst src b] by blast
  then show ?case using lens by simp
next
  case (4 w src v dst)
  then show ?case by (rule object_store.rd_whole [OF store])
next
  case (5 w src v n dst)
  then show ?case by (rule object_store.rd_prefix [OF store])
next
  case (6 w src dst)
  then show ?case by (rule object_store.rd_absent [OF store])
next
  case (7 w src)
  then obtain s where "rm (get w) src = (Inr True, s)" "obj s = (obj (get w))(d_id src := None)"
    "up s = up (get w)" "fits s = fits (get w)"
    using object_store.rm_gone [OF store, of "get w" src] by blast
  then show ?case using lens by simp
next
  case (8 w src)
  then show ?case by (rule object_store.sz_length [OF store])
qed

end
