(* ===== verification/File_Io.thy ===== *)
theory File_Io
  imports Object_Store
begin

text \<open>
  The file client \<^verbatim>\<open>src/symbios/io_clients/file_io.cpp\<close> over a model of the POSIX calls it
  makes. A file system maps paths to contents; \<open>fs_denied\<close> are the paths \<^verbatim>\<open>open\<close> refuses,
  \<open>fs_room\<close> is the size no file can pass (a write beyond it is short, or fails with -1 when
  not a single byte fits), and \<open>fs_max_io\<close> is the most one \<^verbatim>\<open>read\<close> transfers.
  \<^verbatim>\<open>malloc\<close> always succeeds and its bytes are the parameter \<open>junk\<close>.
\<close>

section \<open>The POSIX calls\<close>

record fs =
  fs_files :: "string \<Rightarrow> bytes option"
  fs_denied :: "string \<Rightarrow> bool"
  fs_room :: nat
  fs_max_io :: nat

text \<open>\<^verbatim>\<open>open(path, O_RDONLY)\<close>: the content the descriptor reads, \<open>None\<close> for -1.\<close>

definition posix_open_rdonly :: "fs \<Rightarrow> string \<Rightarrow> bytes option" where
  "posix_open_rdonly fs p = (if fs_denied fs p then None else fs_files fs p)"

text \<open>\<^verbatim>\<open>open(path, O_RDWR | O_CREAT, 0644)\<close>: a missing file is created empty.\<close>

definition posix_open_creat :: "fs \<Rightarrow> string \<Rightarrow> (bytes \<times> fs) option" where
  "posix_open_creat fs p =
     (if fs_denied fs p then None
      else Some (old_bytes (fs_files fs p),
                 fs\<lparr>fs_files := (fs_files fs)(p \<mapsto> old_bytes (fs_files fs p))\<rparr>))"

text \<open>\<^verbatim>\<open>lseek(fd, pos, SEEK_SET)\<close> fails for an offset that is negative as an \<^verbatim>\<open>off_t\<close>.\<close>

definition lseek_set_fails :: "size_t \<Rightarrow> bool" where
  "lseek_set_fails pos \<longleftrightarrow> sint pos < 0"

definition posix_read :: "fs \<Rightarrow> bytes \<Rightarrow> nat \<Rightarrow> nat \<Rightarrow> bytes" where
  "posix_read fs content off n = slice off (min n (fs_max_io fs)) content"

text \<open>\<^verbatim>\<open>write\<close> at offset \<open>off\<close>: the returned \<^verbatim>\<open>ssize_t\<close> and the new content.\<close>

definition posix_write :: "fs \<Rightarrow> bytes \<Rightarrow> nat \<Rightarrow> bytes \<Rightarrow> int64 \<times> bytes" where
  "posix_write fs content off dat =
     (if dat \<noteq> [] \<and> fs_room fs \<le> off then (-1, content)
      else let n = min (length dat) (fs_room fs - off)
           in (of_nat n, if n = 0 then content else overlay off (take n dat) content))"

section \<open>The client\<close>

definition FileIOClient_Read :: "(nat \<Rightarrow> char) \<Rightarrow> fs \<Rightarrow> Data \<Rightarrow> Data \<Rightarrow> Data res" where
  "FileIOClient_Read junk fs source destination =
     (case posix_open_rdonly fs (d_id source) of
        None \<Rightarrow> Inl (Thrown OPEN_FILE_FAILED)
      | Some content \<Rightarrow>
          let file_size = of_nat (length content) :: size_t in
          if lseek_set_fails (d_position source) then Inl (Thrown SEEK_FILE_FAILED)
          else
            let source_data_size =
                  (if d_data_size source = 0 then file_size - d_position source
                   else d_data_size source);
                buf = malloc junk (unat (d_position destination + source_data_size));
                got = posix_read fs content (unat (d_position source)) (unat source_data_size)
            in case memcpy_at (unat (d_position destination)) got buf of
                 None \<Rightarrow> Inl Undefined
               | Some buf' \<Rightarrow>
                   if length got = unat source_data_size
                   then Inr (destination\<lparr>d_buffer := Some buf',
                               d_data_size := d_position destination + of_nat (length got)\<rparr>)
                   else Inl (Thrown READ_DATA_FROM_FILE_FAILED))"

text \<open>
  The comparison \<^verbatim>\<open>size < source.data_size_ - source.position_\<close> is between a signed and an
  unsigned 64-bit value, so it is made on the unsigned values.
\<close>

definition FileIOClient_Write :: "fs \<Rightarrow> Data \<Rightarrow> Data \<Rightarrow> Data res \<times> fs" where
  "FileIOClient_Write fs source destination =
     (case posix_open_creat fs (d_id destination) of
        None \<Rightarrow> (Inl (Thrown OPEN_FILE_FAILED), fs)
      | Some (content, fs1) \<Rightarrow>
          if lseek_set_fails (d_position destination)
          then (Inl (Thrown SEEK_FILE_FAILED), fs1)
          else
            let n = d_data_size source - d_position source in
            case mem_read (unat (d_position source)) (unat n) (old_bytes (d_buffer source)) of
              None \<Rightarrow> (Inl Undefined, fs1)
            | Some dat \<Rightarrow>
                let (ret, content') = posix_write fs1 content (unat (d_position destination)) dat;
                    fs2 = fs1\<lparr>fs_files := (fs_files fs1)(d_id destination \<mapsto> content')\<rparr>
                in if ret < n then (Inl (Thrown WRITE_DATA_TO_FILE_FAILED), fs2)
                   else (Inr source, fs2))"

definition FileIOClient_Remove :: "fs \<Rightarrow> Data \<Rightarrow> bool res \<times> fs" where
  "FileIOClient_Remove fs source =
     (Inr True, fs\<lparr>fs_files := (fs_files fs)(d_id source := None)\<rparr>)"

definition FileIOClient_Size :: "fs \<Rightarrow> Data \<Rightarrow> size_t res" where
  "FileIOClient_Size fs source =
     Inr (case fs_files fs (d_id source) of None \<Rightarrow> 0 | Some content \<Rightarrow> of_nat (length content))"

section \<open>Lemmas\<close>

definition file_up :: "fs \<Rightarrow> string \<Rightarrow> bool" where
  "file_up fs p \<longleftrightarrow> \<not> fs_denied fs p"

definition file_fits :: "fs \<Rightarrow> nat \<Rightarrow> bool" where
  "file_fits fs n \<longleftrightarrow> n \<le> fs_room fs \<and> n \<le> fs_max_io fs \<and> n < 2 ^ 63"

lemma lseek_small: "unat p < 2 ^ 63 \<Longrightarrow> \<not> lseek_set_fails p"
proof -
  assume small: "unat p < 2 ^ 63"
  have "int (unat p) < int (2 ^ 63)" using small by (rule of_nat_less_iff [THEN iffD2])
  then have "uint p < 2 ^ 63" by simp
  moreover have "0 \<le> uint p" by simp
  ultimately have "signed_take_bit 63 (uint p) = uint p"
    by (intro signed_take_bit_int_eq_self) linarith+
  then show ?thesis by (simp add: lseek_set_fails_def sint_uint)
qed

lemma posix_read_all: "off + n \<le> length c \<Longrightarrow> n \<le> fs_max_io fs \<Longrightarrow> posix_read fs c off n = slice off n c"
  by (simp add: posix_read_def)

lemma posix_write_room:
  "off + length dat \<le> fs_room fs \<Longrightarrow>
   posix_write fs content off dat =
     (of_nat (length dat), if dat = [] then content else overlay off dat content)"
  by (cases dat) (auto simp: posix_write_def Let_def)

text \<open>A positioned read inside the file returns exactly the bytes asked for.\<close>

lemma FileIOClient_Read_slice:
  assumes "\<not> fs_denied fs (d_id src)" "fs_files fs (d_id src) = Some v"
    and "unat (d_position src) + n \<le> length v" "length v < 2 ^ 63" "n \<le> fs_max_io fs"
    and "d_data_size src = of_nat n" "0 < n"
    and "unat (d_position dst) + n < 2 ^ 64"
  shows "\<exists>pad. length pad = unat (d_position dst) \<and>
    FileIOClient_Read junk fs src dst =
      Inr (dst\<lparr>d_buffer := Some (pad @ slice (unat (d_position src)) n v),
               d_data_size := d_position dst + of_nat n\<rparr>)"
proof -
  let ?m = "unat (d_position dst)"
  have n: "unat (of_nat n :: size_t) = n" "(of_nat n :: size_t) \<noteq> 0"
    using assms by (auto simp: size_fits dest: arg_cong [where f = unat])
  have add: "unat (d_position dst + of_nat n) = ?m + n"
    using n assms(8) by (simp add: size_add)
  have got: "posix_read fs v (unat (d_position src)) n = slice (unat (d_position src)) n v"
    using assms by (simp add: posix_read_all)
  have len: "length (slice (unat (d_position src)) n v) = n" using assms(3) by simp
  have buf: "memcpy_at ?m (slice (unat (d_position src)) n v) (malloc junk (?m + n)) =
     Some (take ?m (malloc junk (?m + n)) @ slice (unat (d_position src)) n v)"
    using len by (simp add: memcpy_at_def)
  have "\<not> lseek_set_fails (d_position src)" using assms(3,4) by (intro lseek_small) simp
  then have "FileIOClient_Read junk fs src dst =
      Inr (dst\<lparr>d_buffer := Some (take ?m (malloc junk (?m + n)) @ slice (unat (d_position src)) n v),
               d_data_size := d_position dst + of_nat n\<rparr>)"
    using assms(1,2,6) n add got len buf
    by (simp add: FileIOClient_Read_def posix_open_rdonly_def Let_def)
  then show ?thesis by (intro exI [of _ "take ?m (malloc junk (?m + n))"]) simp
qed

text \<open>A read with size 0 returns the file from the position to its end.\<close>

lemma FileIOClient_Read_rest:
  assumes "\<not> fs_denied fs (d_id src)" "fs_files fs (d_id src) = Some v"
    and "unat (d_position src) \<le> length v" "length v < 2 ^ 63" "length v \<le> fs_max_io fs"
    and "d_data_size src = 0" "d_position dst = 0"
  shows "FileIOClient_Read junk fs src dst =
    Inr (dst\<lparr>d_buffer := Some (drop (unat (d_position src)) v),
             d_data_size := of_nat (length v - unat (d_position src))\<rparr>)"
proof -
  let ?p = "unat (d_position src)"
  have sub: "unat (of_nat (length v) - d_position src :: size_t) = length v - ?p"
    using assms by (simp add: size_sub size_fits)
  have got: "posix_read fs v ?p (length v - ?p) = drop ?p v"
    using assms by (simp add: posix_read_all slice_def)
  have "\<not> lseek_set_fails (d_position src)" using assms by (intro lseek_small) simp
  then show ?thesis
    using assms sub got by (simp add: FileIOClient_Read_def posix_open_rdonly_def Let_def memcpy_at_def)
qed

text \<open>A write whose bytes fit is the reference overlay; other files are untouched.\<close>

lemma FileIOClient_Write_overlay:
  assumes "\<not> fs_denied fs (d_id dst)"
    and "d_buffer src = Some b" "unat (d_position src) \<le> unat (d_data_size src)"
    and "unat (d_data_size src) \<le> length b"
    and "unat (d_position dst) + (unat (d_data_size src) - unat (d_position src)) \<le> fs_room fs"
    and "unat (d_position dst) < 2 ^ 63"
    and "dat = slice (unat (d_position src)) (unat (d_data_size src) - unat (d_position src)) b"
  shows "FileIOClient_Write fs src dst =
    (Inr src, fs\<lparr>fs_files := (fs_files fs)(d_id dst \<mapsto>
       (if dat = [] then old_bytes (fs_files fs (d_id dst))
        else overlay (unat (d_position dst)) dat (old_bytes (fs_files fs (d_id dst)))))\<rparr>)"
proof -
  have sub: "unat (d_data_size src - d_position src) = unat (d_data_size src) - unat (d_position src)"
    using assms(3) by (simp add: size_sub)
  have len: "length dat = unat (d_data_size src) - unat (d_position src)"
    using assms(3,4,7) by simp
  have rd: "mem_read (unat (d_position src)) (unat (d_data_size src - d_position src)) b = Some dat"
    using assms(3,4,7) sub by (simp add: mem_read_def)
  have nl: "\<not> (of_nat (length dat) < d_data_size src - d_position src)"
  proof -
    have "of_nat (length dat) = d_data_size src - d_position src"
      using size_of_unat [OF sub] len by simp
    then show ?thesis by simp
  qed
  have w: "posix_write fs' c (unat (d_position dst)) dat =
      (of_nat (length dat), if dat = [] then c else overlay (unat (d_position dst)) dat c)"
    if "fs_room fs' = fs_room fs" for fs' c
    using assms(5) len that by (intro posix_write_room) simp
  show ?thesis
    using assms(1,2,6) rd nl
    by (simp add: FileIOClient_Write_def posix_open_creat_def lseek_small old_bytes_def Let_def w
        split: option.splits)
qed

section \<open>The file client is an object store\<close>

interpretation file_store: object_store file_up file_fits fs_files
  "FileIOClient_Read junk" FileIOClient_Write FileIOClient_Remove FileIOClient_Size
proof (unfold_locales, goal_cases)
  case (1 w n)
  then show ?case by (simp add: file_fits_def)
next
  case (2 w n m)
  then show ?case by (simp add: file_fits_def)
next
  case (3 w dst src b)
  let ?old = "old_bytes (fs_files w (d_id dst))"
  have u: "unat (d_data_size src) = length b"
    using 3 by (simp add: whole_def file_fits_def size_fits)
  have "FileIOClient_Write w src dst =
    (Inr src, w\<lparr>fs_files := (fs_files w)(d_id dst \<mapsto>
       (if b = [] then ?old else overlay (unat (d_position dst)) b ?old))\<rparr>)"
    using 3 u by (intro FileIOClient_Write_overlay [where b = b]) (simp_all add: file_up_def whole_def file_fits_def u)
  moreover have "(if b = [] then ?old else overlay (unat (d_position dst)) b ?old) = overlay 0 b ?old"
    using 3 by (simp add: overlay_0)
  ultimately show ?case by (auto simp: file_up_def file_fits_def fun_eq_iff)
next
  case (4 w src v dst)
  then show ?case
    using FileIOClient_Read_rest [of w src v dst junk] by (simp add: file_up_def file_fits_def)
next
  case (5 w src v n dst)
  then show ?case
    using FileIOClient_Read_slice [of w src v n dst junk] by (auto simp: file_up_def file_fits_def)
next
  case (6 w src dst)
  then show ?case by (simp add: FileIOClient_Read_def posix_open_rdonly_def file_up_def)
next
  case (7 w src)
  then show ?case by (auto simp: FileIOClient_Remove_def file_up_def file_fits_def fun_eq_iff)
next
  case (8 w src)
  then show ?case by (auto simp: FileIOClient_Size_def old_bytes_def split: option.splits)
qed

end
