(* ===== verification/Redis_Io.thy ===== *)
theory Redis_Io
  imports Object_Store
begin

text \<open>
  The Redis client \<^verbatim>\<open>src/symbios/io_clients/redis_io.h\<close> and \<^verbatim>\<open>redis_io.cpp\<close>. The cluster and
  the redis++ package are not part of the repository: the calls the client makes are the
  record \<open>redis_ops\<close>, over an abstract server state, and \<open>redis_ok\<close> states what the client
  relies on (a string key-value store that is up, for values of at most 512 MiB, Redis's
  limit). A redis++ \<^verbatim>\<open>Error\<close> is \<open>Inl\<close>.

  A \<^verbatim>\<open>std::string\<close> of \<open>n\<close> characters gives \<open>n + 1\<close> readable bytes through \<^verbatim>\<open>c_str()\<close>, the
  last one NUL: \<open>c_str\<close>.
\<close>

record 'r redis_ops =
  redis_get :: "'r \<Rightarrow> string \<Rightarrow> string + bytes option"
  redis_set :: "'r \<Rightarrow> string \<Rightarrow> bytes \<Rightarrow> (string + bool) \<times> 'r"
  redis_del :: "'r \<Rightarrow> string \<Rightarrow> (string + int) \<times> 'r"

definition c_str :: "bytes \<Rightarrow> bytes" where
  "c_str s = s @ [CHR 0x00]"

section \<open>Choosing the cluster node\<close>

definition split :: "string \<Rightarrow> char \<Rightarrow> string list" where
  "split s delimiter = getlines delimiter s"

text \<open>The host and port the constructor connects to, for an MPI rank.\<close>

definition RedisIOClient_node :: "StorageSolution \<Rightarrow> nat \<Rightarrow> (string \<times> int) res" where
  "RedisIOClient_node solution rank =
     (case solution of
        RedisSS end_points ports \<Rightarrow>
          let end_points_arr = split end_points CHR '','';
              ports_arr = split ports CHR '',''
          in if end_points_arr = [] then Inl Undefined
             else let index = rank mod length end_points_arr
                  in if index < length ports_arr
                     then Inr (end_points_arr ! index, atoi (ports_arr ! index))
                     else Inl Undefined
      | _ \<Rightarrow> Inl Undefined)"

section \<open>The client\<close>

definition RedisIOClient_Read :: "'r redis_ops \<Rightarrow> 'r \<Rightarrow> Data \<Rightarrow> Data \<Rightarrow> Data res" where
  "RedisIOClient_Read R r source destination =
     (case redis_get R r (d_id source) of
        Inl err \<Rightarrow> Inl (Thrown REDIS_SERVER_SIDE_FAILED)
      | Inr None \<Rightarrow> Inl (Thrown READ_REDIS_DATA_FAILED)
      | Inr (Some value) \<Rightarrow>
          let value_size = of_nat (length value) :: size_t;
              source_size = (if d_data_size source = 0 then value_size else d_data_size source)
          in if source_size > value_size then Inl (Thrown READ_REDIS_POSITION_OR_SIZE_FAILED)
             else case mem_read (unat (d_position source)) (unat source_size) (c_str value) of
                    None \<Rightarrow> Inl Undefined
                  | Some buf \<Rightarrow>
                      Inr (destination\<lparr>d_buffer := Some buf, d_data_size := source_size\<rparr>))"

text \<open>
  The value a write stores for an existing key: \<^verbatim>\<open>new_val\<close> of the first branch (the object
  grows or is rewritten to its end), the updated \<^verbatim>\<open>old_value\<close> of the second.
\<close>

definition redis_new_value :: "bytes \<Rightarrow> Data \<Rightarrow> Data \<Rightarrow> bytes option" where
  "redis_new_value old_value source destination =
     (let old_value_size = of_nat (length old_value) :: size_t;
          pos = d_position destination;
          n = d_data_size source
      in case mem_read (unat (d_position source)) (unat n) (old_bytes (d_buffer source)) of
           None \<Rightarrow> None
         | Some dat \<Rightarrow>
             if n \<ge> old_value_size \<or> n + pos \<ge> old_value_size
             then let new_val = zeros (unat (pos + n));
                      kept = (if pos > old_value_size then old_value_size else pos - 1)
                  in case (if pos > 0
                           then case mem_read 0 (unat kept) (c_str old_value) of
                                  None \<Rightarrow> None
                                | Some head \<Rightarrow> memcpy_at 0 head new_val
                           else Some new_val) of
                       None \<Rightarrow> None
                     | Some new_val' \<Rightarrow> memcpy_at (unat pos) dat new_val'
             else memcpy_at (unat pos) dat old_value)"

definition redis_put :: "'r redis_ops \<Rightarrow> 'r \<Rightarrow> string \<Rightarrow> bytes \<Rightarrow> Data \<Rightarrow> Data res \<times> 'r" where
  "redis_put R r key value source =
     (case redis_set R r key value of
        (Inl err, r') \<Rightarrow> (Inl (Thrown REDIS_SERVER_SIDE_FAILED), r')
      | (Inr result, r') \<Rightarrow>
          (if \<not> result then (Inl (Thrown WRITE_REDIS_DATA_FAILED), r') else (Inr source, r')))"

definition RedisIOClient_Write :: "'r redis_ops \<Rightarrow> 'r \<Rightarrow> Data \<Rightarrow> Data \<Rightarrow> Data res \<times> 'r" where
  "RedisIOClient_Write R r source destination =
     (case redis_get R r (d_id destination) of
        Inl err \<Rightarrow> (Inl (Thrown REDIS_SERVER_SIDE_FAILED), r)
      | Inr (Some old_value) \<Rightarrow>
          (case redis_new_value old_value source destination of
             None \<Rightarrow> (Inl Undefined, r)
           | Some new_val \<Rightarrow> redis_put R r (d_id destination) new_val source)
      | Inr None \<Rightarrow>
          (case mem_read (unat (d_position source)) (unat (d_data_size source))
                  (old_bytes (d_buffer source)) of
             None \<Rightarrow> (Inl Undefined, r)
           | Some value \<Rightarrow> redis_put R r (d_id destination) value source))"

definition RedisIOClient_Remove :: "'r redis_ops \<Rightarrow> 'r \<Rightarrow> Data \<Rightarrow> bool res \<times> 'r" where
  "RedisIOClient_Remove R r source =
     (case redis_del R r (d_id source) of
        (Inl err, r') \<Rightarrow> (Inl (Std_Exn err), r')
      | (Inr _, r') \<Rightarrow> (Inr True, r'))"

definition RedisIOClient_Size :: "'r redis_ops \<Rightarrow> 'r \<Rightarrow> Data \<Rightarrow> size_t res" where
  "RedisIOClient_Size R r source =
     (case redis_get R r (d_id source) of
        Inl err \<Rightarrow> Inl (Std_Exn err)
      | Inr (Some value) \<Rightarrow> Inr (of_nat (length value))
      | Inr None \<Rightarrow> Inr 0)"

section \<open>What the client relies on\<close>

definition redis_max :: nat where
  "redis_max = 512 * 1024 * 1024"

definition redis_ok :: "'r redis_ops \<Rightarrow> bool" where
  "redis_ok R \<longleftrightarrow>
     (\<forall>r k. \<exists>v. redis_get R r k = Inr v) \<and>
     (\<forall>r k v. length v \<le> redis_max \<longrightarrow>
        (\<exists>r'. redis_set R r k v = (Inr True, r') \<and>
              redis_get R r' = (redis_get R r)(k := Inr (Some v)))) \<and>
     (\<forall>r k. \<exists>n r'. redis_del R r k = (Inr n, r') \<and>
              redis_get R r' = (redis_get R r)(k := Inr None))"

definition redis_obj :: "'r redis_ops \<Rightarrow> 'r \<Rightarrow> string \<Rightarrow> bytes option" where
  "redis_obj R r k = (case redis_get R r k of Inl _ \<Rightarrow> None | Inr v \<Rightarrow> v)"

definition redis_fits :: "'r \<Rightarrow> nat \<Rightarrow> bool" where
  "redis_fits r n \<longleftrightarrow> n \<le> redis_max"

definition redis_up :: "'r redis_ops \<Rightarrow> 'r \<Rightarrow> string \<Rightarrow> bool" where
  "redis_up R r k \<longleftrightarrow> redis_ok R"

text \<open>A cluster that satisfies the requirements: a map.\<close>

definition map_redis :: "(string \<rightharpoonup> bytes) redis_ops" where
  "map_redis = \<lparr>redis_get = (\<lambda>r k. Inr (r k)),
                redis_set = (\<lambda>r k v. (Inr True, r(k \<mapsto> v))),
                redis_del = (\<lambda>r k. (Inr (case r k of None \<Rightarrow> 0 | Some _ \<Rightarrow> 1), r(k := None)))\<rparr>"

text \<open>What a write stores, absent keys included.\<close>

definition redis_value :: "bytes option \<Rightarrow> Data \<Rightarrow> Data \<Rightarrow> bytes \<Rightarrow> bytes option" where
  "redis_value old src dst dat =
     (case old of None \<Rightarrow> Some dat | Some v \<Rightarrow> redis_new_value v src dst)"

section \<open>Lemmas\<close>

lemma map_redis_ok: "redis_ok map_redis"
  by (auto simp: redis_ok_def map_redis_def)

lemma map_redis_simps [simp]:
  "redis_get map_redis r k = Inr (r k)"
  "redis_set map_redis r k v = (Inr True, r(k \<mapsto> v))"
  "redis_obj map_redis r = r"
  by (simp_all add: map_redis_def redis_obj_def fun_eq_iff)

lemma redis_ok_get: "redis_ok R \<Longrightarrow> redis_get R r k = Inr (redis_obj R r k)"
proof -
  assume "redis_ok R"
  then obtain v where "redis_get R r k = Inr v" unfolding redis_ok_def by blast
  then show ?thesis by (simp add: redis_obj_def)
qed

lemma redis_ok_set:
  assumes "redis_ok R" "length v \<le> redis_max"
  obtains r' where "redis_set R r k v = (Inr True, r')" "redis_obj R r' = (redis_obj R r)(k \<mapsto> v)"
proof -
  obtain r' where "redis_set R r k v = (Inr True, r')"
    "redis_get R r' = (redis_get R r)(k := Inr (Some v))"
    using assms unfolding redis_ok_def by blast
  then show ?thesis using that by (simp add: redis_obj_def fun_eq_iff)
qed

lemma redis_ok_del:
  assumes "redis_ok R"
  obtains n r' where "redis_del R r k = (Inr n, r')" "redis_obj R r' = (redis_obj R r)(k := None)"
proof -
  obtain n r' where "redis_del R r k = (Inr n, r')"
    "redis_get R r' = (redis_get R r)(k := Inr None)"
    using assms unfolding redis_ok_def by blast
  then show ?thesis using that by (simp add: redis_obj_def fun_eq_iff)
qed

text \<open>A write that stays inside the old object is the reference overlay.\<close>

lemma redis_new_value_inside:
  assumes "carries src dat" "unat (d_position dst) + length dat < length old" "length old < 2 ^ 63"
  shows "redis_new_value old src dst = Some (overlay (unat (d_position dst)) dat old)"
proof -
  let ?pos = "d_position dst" and ?n = "d_data_size src"
  have n: "unat ?n = length dat" using carries_length [OF assms(1)] by simp
  have old: "unat (of_nat (length old) :: size_t) = length old" using assms(3) by (simp add: size_fits)
  have sum: "unat (?n + ?pos) = length dat + unat ?pos" using n assms(2,3) by (simp add: size_add)
  have "\<not> (?n \<ge> of_nat (length old) \<or> ?n + ?pos \<ge> of_nat (length old))"
    using n old sum assms(2) by (simp add: word_le_nat_alt)
  then show ?thesis
    using assms by (simp add: redis_new_value_def carries_def memcpy_at_overlay)
qed

text \<open>
  A write that reaches or passes the end: the bytes before the position are kept except
  the last one, which becomes a zero byte; a gap is filled with zeros.
\<close>

lemma redis_new_value_tail:
  assumes "carries src dat" "length old \<le> unat (d_position dst) + length dat"
    and "length old < 2 ^ 63" "unat (d_position dst) + length dat < 2 ^ 63"
  shows "redis_new_value old src dst =
    Some (let pos = unat (d_position dst);
              kept = (if pos > length old then length old else pos - 1)
          in take kept old @ zeros (pos - kept) @ dat)"
proof -
  let ?pos = "d_position dst" and ?n = "d_data_size src"
  have n: "unat ?n = length dat" using carries_length [OF assms(1)] by simp
  have old: "unat (of_nat (length old) :: size_t) = length old" using assms(3) by (simp add: size_fits)
  have sum: "unat (?n + ?pos) = length dat + unat ?pos" "unat (?pos + ?n) = unat ?pos + length dat"
    using n assms(4) by (simp_all add: size_add)
  have grow: "?n \<ge> of_nat (length old) \<or> ?n + ?pos \<ge> of_nat (length old)"
    using old sum assms(2) by (simp add: word_le_nat_alt)
  define kept where "kept = (if unat ?pos > length old then length old else unat ?pos - 1)"
  have kept_word: "unat (if ?pos > of_nat (length old) then of_nat (length old) else ?pos - 1) = kept"
    if "?pos > 0"
    using that old by (auto simp: kept_def word_less_nat_alt size_sub unat_sub)
  have kept_le: "kept \<le> length old" "kept \<le> unat ?pos" by (auto simp: kept_def)
  show ?thesis
  proof (cases "?pos > 0")
    case True
    have head: "mem_read 0 kept (c_str old) = Some (take kept old)"
      using kept_le by (simp add: mem_read_def c_str_def)
    have "memcpy_at 0 (take kept old) (zeros (unat ?pos + length dat)) =
        Some (take kept old @ zeros (unat ?pos + length dat - kept))"
      using kept_le by (simp add: memcpy_at_def zeros_def)
    moreover have "memcpy_at (unat ?pos) dat (take kept old @ zeros (unat ?pos + length dat - kept)) =
        Some (take kept old @ zeros (unat ?pos - kept) @ dat)"
      using kept_le by (simp add: memcpy_at_def zeros_def min_def)
    ultimately show ?thesis
      using assms(1) grow True kept_word [OF True] head sum
      by (simp add: redis_new_value_def carries_def Let_def kept_def [symmetric])
  next
    case False
    then have "?pos = 0" by (simp add: word_gt_0)
    then show ?thesis
      using assms(1) grow n
      by (simp add: redis_new_value_def carries_def Let_def memcpy_at_full)
  qed
qed

lemma redis_new_value_0:
  assumes "carries src dat" "d_position dst = 0" "length old < 2 ^ 63" "length dat < 2 ^ 63"
  shows "redis_new_value old src dst = Some (overlay 0 dat old)"
proof (cases "length dat < length old")
  case True
  then show ?thesis using redis_new_value_inside [of src dat dst old] assms by simp
next
  case False
  then show ?thesis using redis_new_value_tail [of src dat old dst] assms by (simp add: overlay_0)
qed

lemma RedisIOClient_Write_stores:
  assumes "redis_ok R" "carries src dat" "redis_value (redis_obj R r (d_id dst)) src dst dat = Some new"
    and "length new \<le> redis_max"
  shows "\<exists>r'. RedisIOClient_Write R r src dst = (Inr src, r') \<and>
    redis_obj R r' = (redis_obj R r)(d_id dst \<mapsto> new)"
proof -
  obtain r' where r': "redis_set R r (d_id dst) new = (Inr True, r')"
    "redis_obj R r' = (redis_obj R r)(d_id dst \<mapsto> new)"
    using assms(1,4) by (rule redis_ok_set)
  then have "redis_put R r (d_id dst) new src = (Inr src, r')"
    by (simp add: redis_put_def)
  then have "RedisIOClient_Write R r src dst = (Inr src, r')"
    using assms(2,3) redis_ok_get [OF assms(1)]
    by (cases "redis_obj R r (d_id dst)")
      (simp_all add: RedisIOClient_Write_def redis_value_def carries_def)
  then show ?thesis using r' by blast
qed

text \<open>A read inside the value returns exactly the bytes asked for.\<close>

lemma RedisIOClient_Read_slice:
  assumes "redis_ok R" "redis_obj R r (d_id src) = Some v" "length v < 2 ^ 63"
    and "d_data_size src = of_nat n" "0 < n" "unat (d_position src) + n \<le> length v"
  shows "RedisIOClient_Read R r src dst =
    Inr (dst\<lparr>d_buffer := Some (slice (unat (d_position src)) n v), d_data_size := of_nat n\<rparr>)"
proof -
  have n: "unat (of_nat n :: size_t) = n" using assms(3,6) by (simp add: size_fits)
  have v: "unat (of_nat (length v) :: size_t) = length v" using assms(3) by (simp add: size_fits)
  have "(of_nat n :: size_t) \<noteq> 0" using n assms(5) by (metis unat_0 less_irrefl)
  moreover have "\<not> (of_nat n > (of_nat (length v) :: size_t))"
    using n v assms(6) by (simp add: word_less_nat_alt)
  moreover have "mem_read (unat (d_position src)) n (c_str v) = Some (slice (unat (d_position src)) n v)"
    using assms(6) by (simp add: mem_read_def c_str_def slice_def)
  ultimately show ?thesis
    using assms(1,2,4) n by (simp add: RedisIOClient_Read_def redis_ok_get Let_def)
qed

lemma RedisIOClient_Read_all:
  assumes "redis_ok R" "redis_obj R r (d_id src) = Some v" "length v < 2 ^ 63"
    and "d_data_size src = 0" "d_position src = 0"
  shows "RedisIOClient_Read R r src dst =
    Inr (dst\<lparr>d_buffer := Some v, d_data_size := of_nat (length v)\<rparr>)"
  using assms
  by (simp add: RedisIOClient_Read_def redis_ok_get Let_def mem_read_def c_str_def size_fits)

section \<open>The Redis client is an object store\<close>

interpretation redis_store: object_store "redis_up R" redis_fits "redis_obj R"
  "RedisIOClient_Read R" "RedisIOClient_Write R" "RedisIOClient_Remove R" "RedisIOClient_Size R"
proof (unfold_locales, goal_cases)
  case (1 w n)
  then show ?case by (simp add: redis_fits_def redis_max_def)
next
  case (2 w n m)
  then show ?case by (simp add: redis_fits_def)
next
  case (3 w dst src b)
  let ?old = "redis_obj R w (d_id dst)"
  have bounds: "length b < 2 ^ 63" "length (old_bytes ?old) < 2 ^ 63"
    using 3 by (simp_all add: redis_fits_def redis_max_def)
  have car: "carries src b" using 3 bounds by (simp add: whole_carries)
  have "redis_value ?old src dst b = Some (overlay 0 b (old_bytes ?old))"
    using 3 bounds car redis_new_value_0 [of src b dst]
    by (auto simp: redis_value_def old_bytes_def overlay_0 split: option.splits)
  moreover have "length (overlay 0 b (old_bytes ?old)) \<le> redis_max"
    using 3 by (simp add: length_overlay redis_fits_def)
  ultimately show ?case
    using 3 car RedisIOClient_Write_stores [of R src b w dst]
    by (fastforce simp: redis_up_def redis_fits_def fun_eq_iff)
next
  case (4 w src v dst)
  then show ?case
    by (simp add: RedisIOClient_Read_all redis_up_def redis_fits_def redis_max_def)
next
  case (5 w src v n dst)
  then show ?case
    by (simp add: RedisIOClient_Read_slice redis_up_def redis_fits_def redis_max_def)
next
  case (6 w src dst)
  then show ?case by (simp add: RedisIOClient_Read_def redis_ok_get redis_up_def)
next
  case (7 w src)
  then obtain n r' where "redis_del R w (d_id src) = (Inr n, r')"
    "redis_obj R r' = (redis_obj R w)(d_id src := None)"
    using redis_ok_del [of R w "d_id src"] by (auto simp: redis_up_def)
  then show ?case by (simp add: RedisIOClient_Remove_def redis_up_def redis_fits_def fun_eq_iff)
next
  case (8 w src)
  then show ?case
    by (auto simp: RedisIOClient_Size_def redis_up_def redis_ok_get old_bytes_def split: option.splits)
qed

end
