(* ===== verification/Mongo_Io.thy ===== *)
theory Mongo_Io
  imports Object_Store
begin

text \<open>
  The MongoDB client \<^verbatim>\<open>src/symbios/io_clients/mongo_io.cpp\<close>. The server and the mongocxx
  package are not part of the repository: the calls on the client's collection are the
  record \<open>mongo_ops\<close>, over an abstract state of that collection. \<^verbatim>\<open>find_one\<close> returns the
  \<^verbatim>\<open>value\<close> field of a document with the given \<^verbatim>\<open>key\<close>; \<^verbatim>\<open>insert_one\<close> returns \<open>None\<close> for an
  unacknowledged write. \<open>mongo_ok\<close> states what the client relies on: a collection that is
  up and takes documents of at most 16 MiB, MongoDB's limit. A mongocxx exception is
  \<open>Inl\<close>; it derives from \<^verbatim>\<open>std::exception\<close>, as does \<^verbatim>\<open>ErrorException\<close>.
\<close>

record 'm mongo_ops =
  mongo_find_one :: "'m \<Rightarrow> string \<Rightarrow> string + bytes option"
  mongo_delete_many :: "'m \<Rightarrow> string \<Rightarrow> (string + unit) \<times> 'm"
  mongo_insert_one :: "'m \<Rightarrow> string \<Rightarrow> bytes \<Rightarrow> (string + bool option) \<times> 'm"

section \<open>The client\<close>

definition MongoIOClient_Read ::
  "(nat \<Rightarrow> char) \<Rightarrow> 'm mongo_ops \<Rightarrow> 'm \<Rightarrow> Data \<Rightarrow> Data \<Rightarrow> Data res" where
  "MongoIOClient_Read junk M m source destination =
     (case mongo_find_one M m (d_id source) of
        Inl err \<Rightarrow> Inl (Std_Exn err)
      | Inr None \<Rightarrow> Inl (Thrown READ_MONGODB_DATA_FAILED)
      | Inr (Some dat) \<Rightarrow>
          let source_size = (if d_data_size source = 0 then of_nat (length dat)
                             else d_data_size source)
          in case mem_read (unat (d_position source)) (unat (source_size - d_position source))
                    (dat @ [CHR 0x00]) of
               None \<Rightarrow> Inl Undefined
             | Some got \<Rightarrow>
                 (case memcpy_at 0 got (malloc junk (unat source_size)) of
                    None \<Rightarrow> Inl Undefined
                  | Some buf \<Rightarrow>
                      Inr (destination\<lparr>d_buffer := Some buf, d_data_size := source_size\<rparr>)))"

text \<open>The value a write stores over an existing document with content \<^verbatim>\<open>read_source\<close>.\<close>

definition mongo_new_value :: "Data \<Rightarrow> Data \<Rightarrow> Data \<Rightarrow> bytes option" where
  "mongo_new_value read_source source destination =
     (let old = old_bytes (d_buffer read_source);
          old_size = d_data_size read_source;
          pos = d_position destination;
          n = d_data_size source
      in case mem_read (unat (d_position source)) (unat n) (old_bytes (d_buffer source)) of
           None \<Rightarrow> None
         | Some dat \<Rightarrow>
             if n \<ge> old_size \<or> n + pos \<ge> old_size
             then let new_val = zeros (unat (pos + n));
                      kept = (if pos > old_size then old_size else pos - 1)
                  in case (if pos > 0
                           then case mem_read 0 (unat kept) old of
                                  None \<Rightarrow> None
                                | Some head \<Rightarrow> memcpy_at 0 head new_val
                           else Some new_val) of
                       None \<Rightarrow> None
                     | Some new_val' \<Rightarrow> memcpy_at (unat pos) dat new_val'
             else case mem_read 0 (unat old_size) old of
                    None \<Rightarrow> None
                  | Some new_val \<Rightarrow> memcpy_at (unat pos) dat new_val)"

text \<open>
  The insertion that ends a write. After an unacknowledged write the code still
  dereferences the empty result.
\<close>

definition mongo_insert :: "'m mongo_ops \<Rightarrow> 'm \<Rightarrow> string \<Rightarrow> bytes \<Rightarrow> Data \<Rightarrow> Data res \<times> 'm" where
  "mongo_insert M m key new_val source =
     (case mongo_insert_one M m key new_val of
        (Inl err, m') \<Rightarrow> (Inl (Std_Exn err), m')
      | (Inr None, m') \<Rightarrow> (Inl Undefined, m')
      | (Inr (Some is_oid), m') \<Rightarrow> (Inr source, m'))"

text \<open>
  A write reads the old document (any exception of that read means: does not exist),
  deletes it and inserts the new one; the source's position is reset when there was one.
\<close>

definition MongoIOClient_Write ::
  "(nat \<Rightarrow> char) \<Rightarrow> 'm mongo_ops \<Rightarrow> 'm \<Rightarrow> Data \<Rightarrow> Data \<Rightarrow> Data res \<times> 'm" where
  "MongoIOClient_Write junk M m source destination =
     (let probe = default_Data\<lparr>d_id := d_id destination\<rparr> in
      case MongoIOClient_Read junk M m probe probe of
        Inl Undefined \<Rightarrow> (Inl Undefined, m)
      | Inl _ \<Rightarrow>
          (case mem_read (unat (d_position source)) (unat (d_data_size source))
                  (old_bytes (d_buffer source)) of
             None \<Rightarrow> (Inl Undefined, m)
           | Some new_val \<Rightarrow> mongo_insert M m (d_id destination) new_val source)
      | Inr read_source \<Rightarrow>
          (case mongo_new_value read_source source destination of
             None \<Rightarrow> (Inl Undefined, m)
           | Some new_val \<Rightarrow>
               (case mongo_delete_many M m (d_id destination) of
                  (Inl err, m1) \<Rightarrow> (Inl (Std_Exn err), m1)
                | (Inr _, m1) \<Rightarrow>
                    mongo_insert M m1 (d_id destination) new_val (source\<lparr>d_position := 0\<rparr>))))"

definition MongoIOClient_Remove :: "'m mongo_ops \<Rightarrow> 'm \<Rightarrow> Data \<Rightarrow> bool res \<times> 'm" where
  "MongoIOClient_Remove M m source =
     (case mongo_delete_many M m (d_id source) of
        (Inl err, m') \<Rightarrow> (Inl (Std_Exn err), m')
      | (Inr _, m') \<Rightarrow> (Inr True, m'))"

definition MongoIOClient_Size ::
  "(nat \<Rightarrow> char) \<Rightarrow> 'm mongo_ops \<Rightarrow> 'm \<Rightarrow> Data \<Rightarrow> size_t res" where
  "MongoIOClient_Size junk M m source =
     (let probe = default_Data\<lparr>d_id := d_id source\<rparr> in
      case MongoIOClient_Read junk M m probe probe of
        Inl Undefined \<Rightarrow> Inl Undefined
      | Inl _ \<Rightarrow> Inr 0
      | Inr read_source \<Rightarrow> Inr (d_data_size read_source))"

section \<open>What the client relies on\<close>

text \<open>A document with the fields \<^verbatim>\<open>_id\<close>, \<^verbatim>\<open>key\<close> and \<^verbatim>\<open>value\<close> takes less than 64 bytes more.\<close>

definition bson_fits :: "string \<Rightarrow> bytes \<Rightarrow> bool" where
  "bson_fits k v \<longleftrightarrow> length k + length v + 64 \<le> 16 * 1024 * 1024"

definition mongo_ok :: "'m mongo_ops \<Rightarrow> bool" where
  "mongo_ok M \<longleftrightarrow>
     (\<forall>m k. \<exists>v. mongo_find_one M m k = Inr v) \<and>
     (\<forall>m k. \<exists>m'. mongo_delete_many M m k = (Inr (), m') \<and>
        mongo_find_one M m' = (mongo_find_one M m)(k := Inr None)) \<and>
     (\<forall>m k v. mongo_find_one M m k = Inr None \<longrightarrow> bson_fits k v \<longrightarrow>
        (\<exists>b m'. mongo_insert_one M m k v = (Inr (Some b), m') \<and>
              mongo_find_one M m' = (mongo_find_one M m)(k := Inr (Some v))))"

definition mongo_obj :: "'m mongo_ops \<Rightarrow> 'm \<Rightarrow> string \<Rightarrow> bytes option" where
  "mongo_obj M m k = (case mongo_find_one M m k of Inl _ \<Rightarrow> None | Inr v \<Rightarrow> v)"

text \<open>Keys of at most 4096 characters leave this much room for the value.\<close>

definition mongo_max :: nat where
  "mongo_max = 16 * 1024 * 1024 - 4160"

definition mongo_fits :: "'m \<Rightarrow> nat \<Rightarrow> bool" where
  "mongo_fits m n \<longleftrightarrow> n \<le> mongo_max"

definition mongo_up :: "'m mongo_ops \<Rightarrow> 'm \<Rightarrow> string \<Rightarrow> bool" where
  "mongo_up M m k \<longleftrightarrow> mongo_ok M \<and> length k \<le> 4096"

text \<open>A collection that satisfies the requirements: an association list of documents.\<close>

definition alist_mongo :: "(string \<times> bytes) list mongo_ops" where
  "alist_mongo =
     \<lparr>mongo_find_one = (\<lambda>m k. Inr (map_of m k)),
      mongo_delete_many = (\<lambda>m k. (Inr (), filter (\<lambda>(k', v). k' \<noteq> k) m)),
      mongo_insert_one = (\<lambda>m k v. (Inr (Some True), m @ [(k, v)]))\<rparr>"

text \<open>The \<^verbatim>\<open>Data\<close> that a probe of the document \<open>v\<close> under key \<open>k\<close> fills.\<close>

definition mongo_doc :: "bytes \<Rightarrow> string \<Rightarrow> Data" where
  "mongo_doc v k = default_Data\<lparr>d_id := k, d_buffer := Some v, d_data_size := of_nat (length v)\<rparr>"

section \<open>Lemmas\<close>

lemma map_of_filter_key: "map_of (filter (\<lambda>(k', v). k' \<noteq> k) m) = (map_of m)(k := None)"
  by (induction m) (auto simp: fun_eq_iff)

lemma alist_mongo_ok: "mongo_ok alist_mongo"
  by (auto simp: mongo_ok_def alist_mongo_def map_of_filter_key fun_eq_iff map_add_def
      split: option.splits)

lemma mongo_ok_find: "mongo_ok M \<Longrightarrow> mongo_find_one M m k = Inr (mongo_obj M m k)"
proof -
  assume "mongo_ok M"
  then obtain v where "mongo_find_one M m k = Inr v" unfolding mongo_ok_def by blast
  then show ?thesis by (simp add: mongo_obj_def)
qed

lemma mongo_ok_delete:
  assumes "mongo_ok M"
  obtains m' where "mongo_delete_many M m k = (Inr (), m')" "mongo_obj M m' = (mongo_obj M m)(k := None)"
proof -
  obtain m' where "mongo_delete_many M m k = (Inr (), m')"
    "mongo_find_one M m' = (mongo_find_one M m)(k := Inr None)"
    using assms unfolding mongo_ok_def by blast
  then show ?thesis using that by (simp add: mongo_obj_def fun_eq_iff)
qed

lemma mongo_ok_insert:
  assumes "mongo_ok M" "mongo_obj M m k = None" "bson_fits k v"
  obtains m' where "mongo_insert M m k v src = (Inr src, m')" "mongo_obj M m' = (mongo_obj M m)(k \<mapsto> v)"
proof -
  have "mongo_find_one M m k = Inr None" using assms by (simp add: mongo_ok_find)
  then obtain b m' where "mongo_insert_one M m k v = (Inr (Some b), m')"
    "mongo_find_one M m' = (mongo_find_one M m)(k := Inr (Some v))"
    using assms unfolding mongo_ok_def by blast
  then show ?thesis using that by (simp add: mongo_obj_def mongo_insert_def fun_eq_iff)
qed

text \<open>A read from position 0, of the whole value or of a prefix.\<close>

lemma MongoIOClient_Read_prefix:
  assumes "mongo_ok M" "mongo_obj M m (d_id src) = Some v" "length v < 2 ^ 63"
    and "d_data_size src = of_nat n" "n \<le> length v" "d_position src = 0"
  shows "MongoIOClient_Read junk M m src dst =
    Inr (dst\<lparr>d_buffer := Some (if n = 0 then v else take n v),
             d_data_size := of_nat (if n = 0 then length v else n)\<rparr>)"
proof -
  have n: "unat (of_nat n :: size_t) = n" using assms(3,5) by (simp add: size_fits)
  have v: "unat (of_nat (length v) :: size_t) = length v" using assms(3) by (simp add: size_fits)
  have "(of_nat n :: size_t) = 0 \<longleftrightarrow> n = 0" using assms(3,5) by (simp add: size_of_nat_eq_0)
  then show ?thesis
    using assms(1,2,4,5,6) n v
    by (simp add: MongoIOClient_Read_def mongo_ok_find Let_def mem_read_def memcpy_at_full)
qed

lemma MongoIOClient_Read_absent:
  "mongo_ok M \<Longrightarrow> mongo_obj M m (d_id src) = None \<Longrightarrow>
   MongoIOClient_Read junk M m src dst = Inl (Thrown READ_MONGODB_DATA_FAILED)"
  by (simp add: MongoIOClient_Read_def mongo_ok_find)

lemma MongoIOClient_probe:
  assumes "mongo_ok M" "mongo_obj M m k = Some v" "length v < 2 ^ 63"
  shows "MongoIOClient_Read junk M m (default_Data\<lparr>d_id := k\<rparr>) (default_Data\<lparr>d_id := k\<rparr>) =
    Inr (mongo_doc v k)"
  using MongoIOClient_Read_prefix [of M m "default_Data\<lparr>d_id := k\<rparr>" v 0 junk "default_Data\<lparr>d_id := k\<rparr>"]
    assms by (simp add: mongo_doc_def)

lemma MongoIOClient_Write_replaces:
  assumes "mongo_ok M" "mongo_obj M m (d_id dst) = Some v" "length v < 2 ^ 63"
    and "mongo_new_value (mongo_doc v (d_id dst)) src dst = Some new" "bson_fits (d_id dst) new"
  shows "\<exists>m'. MongoIOClient_Write junk M m src dst = (Inr (src\<lparr>d_position := 0\<rparr>), m') \<and>
    mongo_obj M m' = (mongo_obj M m)(d_id dst \<mapsto> new)"
proof -
  obtain m1 where m1: "mongo_delete_many M m (d_id dst) = (Inr (), m1)"
    "mongo_obj M m1 = (mongo_obj M m)(d_id dst := None)"
    using assms(1) by (rule mongo_ok_delete)
  then have "mongo_obj M m1 (d_id dst) = None" by simp
  from mongo_ok_insert [OF assms(1) this assms(5)]
  obtain m2 where m2: "mongo_insert M m1 (d_id dst) new (src\<lparr>d_position := 0\<rparr>) =
      (Inr (src\<lparr>d_position := 0\<rparr>), m2)"
    "mongo_obj M m2 = (mongo_obj M m1)(d_id dst \<mapsto> new)" by metis
  have "MongoIOClient_Write junk M m src dst = (Inr (src\<lparr>d_position := 0\<rparr>), m2)"
    using MongoIOClient_probe [OF assms(1-3)] assms(4) m1(1) m2(1)
    by (simp add: MongoIOClient_Write_def Let_def)
  then show ?thesis using m1(2) m2(2) by simp
qed

lemma MongoIOClient_Write_fresh:
  assumes "mongo_ok M" "mongo_obj M m (d_id dst) = None" "carries src dat" "bson_fits (d_id dst) dat"
  shows "\<exists>m'. MongoIOClient_Write junk M m src dst = (Inr src, m') \<and>
    mongo_obj M m' = (mongo_obj M m)(d_id dst \<mapsto> dat)"
proof -
  from mongo_ok_insert [OF assms(1,2,4)] obtain m' where
    m': "mongo_insert M m (d_id dst) dat src = (Inr src, m')"
    "mongo_obj M m' = (mongo_obj M m)(d_id dst \<mapsto> dat)" by metis
  have "MongoIOClient_Read junk M m (default_Data\<lparr>d_id := d_id dst\<rparr>) (default_Data\<lparr>d_id := d_id dst\<rparr>) =
      Inl (Thrown READ_MONGODB_DATA_FAILED)"
    using assms(1,2) by (simp add: MongoIOClient_Read_absent)
  then have "MongoIOClient_Write junk M m src dst = (Inr src, m')"
    using assms(3) m'(1) by (simp add: MongoIOClient_Write_def Let_def carries_def)
  then show ?thesis using m'(2) by simp
qed

lemma mongo_new_value_0:
  assumes "carries src dat" "d_position dst = 0" "length old < 2 ^ 63" "length dat < 2 ^ 63"
  shows "mongo_new_value (mongo_doc old k) src dst = Some (overlay 0 dat old)"
proof -
  have n: "unat (d_data_size src) = length dat" using carries_length [OF assms(1)] by simp
  have old: "unat (of_nat (length old) :: size_t) = length old" using assms(3) by (simp add: size_fits)
  have grow: "d_data_size src \<ge> of_nat (length old) \<longleftrightarrow> length old \<le> length dat"
    using n old by (simp add: word_le_nat_alt)
  show ?thesis
  proof (cases "length old \<le> length dat")
    case True
    then show ?thesis
      using assms(1,2) n grow
      by (simp add: mongo_new_value_def mongo_doc_def carries_def memcpy_at_full overlay_0)
  next
    case False
    then show ?thesis
      using assms(1,2) n grow old
      by (simp add: mongo_new_value_def mongo_doc_def carries_def mem_read_Some
          memcpy_at_overlay Let_def)
  qed
qed

section \<open>The MongoDB client is an object store\<close>

lemma mongo_fits_bson: "length k \<le> 4096 \<Longrightarrow> length v \<le> mongo_max \<Longrightarrow> bson_fits k v"
  by (simp add: bson_fits_def mongo_max_def)

interpretation mongo_store: object_store "mongo_up M" mongo_fits "mongo_obj M"
  "MongoIOClient_Read junk M" "MongoIOClient_Write junk M" "MongoIOClient_Remove M"
  "MongoIOClient_Size junk M"
proof (unfold_locales, goal_cases)
  case (1 w n)
  then show ?case by (simp add: mongo_fits_def mongo_max_def)
next
  case (2 w n m)
  then show ?case by (simp add: mongo_fits_def)
next
  case (3 w dst src b)
  let ?old = "mongo_obj M w (d_id dst)"
  have ok: "mongo_ok M" "length (d_id dst) \<le> 4096" using 3 by (simp_all add: mongo_up_def)
  have bounds: "length b < 2 ^ 63" "length (old_bytes ?old) < 2 ^ 63"
    using 3 by (simp_all add: mongo_fits_def mongo_max_def)
  have car: "carries src b" using 3 bounds by (simp add: whole_carries)
  have room: "bson_fits (d_id dst) (overlay 0 b (old_bytes ?old))"
    using 3 ok by (intro mongo_fits_bson) (simp_all add: length_overlay mongo_fits_def)
  have src: "src\<lparr>d_position := 0\<rparr> = src" using 3 by (simp add: whole_def)
  have "\<exists>w'. MongoIOClient_Write junk M w src dst = (Inr src, w') \<and>
      mongo_obj M w' = (mongo_obj M w)(d_id dst \<mapsto> overlay 0 b (old_bytes ?old))"
  proof (cases ?old)
    case None
    then show ?thesis
      using MongoIOClient_Write_fresh [OF ok(1) None car, where junk = junk] room
      by (auto simp: old_bytes_def overlay_0)
  next
    case (Some v)
    have "mongo_new_value (mongo_doc v (d_id dst)) src dst = Some (overlay 0 b (old_bytes ?old))"
      using mongo_new_value_0 [OF car] 3 bounds Some by (simp add: old_bytes_def)
    then show ?thesis
      using MongoIOClient_Write_replaces [OF ok(1) Some, where junk = junk] bounds room Some src
      by (fastforce simp: old_bytes_def)
  qed
  then show ?case by (fastforce simp: mongo_up_def mongo_fits_def fun_eq_iff)
next
  case (4 w src v dst)
  then show ?case
    using MongoIOClient_Read_prefix [of M w src v 0 junk dst]
    by (simp add: mongo_up_def mongo_fits_def mongo_max_def)
next
  case (5 w src v n dst)
  then show ?case
    using MongoIOClient_Read_prefix [of M w src v n junk dst]
    by (simp add: mongo_up_def mongo_fits_def mongo_max_def)
next
  case (6 w src dst)
  then show ?case by (simp add: MongoIOClient_Read_absent mongo_up_def)
next
  case (7 w src)
  then have "mongo_ok M" by (simp add: mongo_up_def)
  then obtain m' where "mongo_delete_many M w (d_id src) = (Inr (), m')"
    "mongo_obj M m' = (mongo_obj M w)(d_id src := None)"
    by (rule mongo_ok_delete)
  then show ?case by (simp add: MongoIOClient_Remove_def mongo_up_def mongo_fits_def fun_eq_iff)
next
  case (8 w src)
  then have ok: "mongo_ok M" by (simp add: mongo_up_def)
  show ?case
  proof (cases "mongo_obj M w (d_id src)")
    case None
    then show ?thesis
      using ok by (simp add: MongoIOClient_Size_def Let_def MongoIOClient_Read_absent old_bytes_def)
  next
    case (Some v)
    have "length v < 2 ^ 63" using 8 Some by (simp add: old_bytes_def mongo_fits_def mongo_max_def)
    then show ?thesis
      using MongoIOClient_probe [OF ok Some] Some
      by (simp add: MongoIOClient_Size_def Let_def mongo_doc_def old_bytes_def)
  qed
qed

end
