(* ===== verification/Io_Factory.thy ===== *)
theory Io_Factory
  imports Configuration File_Io Redis_Io Mongo_Io
begin

text \<open>
  \<^verbatim>\<open>src/symbios/io_clients/io_factory.h\<close> and the constructors of the clients
  (\<^verbatim>\<open>io.h\<close>, \<^verbatim>\<open>file_io.h\<close>, \<^verbatim>\<open>redis_io.h\<close>, \<^verbatim>\<open>mongo_io.h\<close>): from a storage index to the client
  that serves it. The clients are singletons of their classes, so there is one client,
  hence one key space, per client type: two storage solutions of the same type share it.

  \<open>env\<close> collects the parameters (the remote services, the bytes of fresh memory, the
  MessagePack wire format, \<^verbatim>\<open>rand\<close> and basket's global sequence as the values their calls
  return); \<open>world\<close> is the state: the configuration singleton, the three backends and the
  number of calls made of \<^verbatim>\<open>rand\<close> and of the sequence.
\<close>

record ('r, 'm) env =
  e_redis :: "'r redis_ops"
  e_mongo :: "'m mongo_ops"
  e_junk :: "nat \<Rightarrow> char"
  e_pack :: "msgpack \<Rightarrow> bytes"
  e_unpack :: "bytes \<Rightarrow> string + msgpack"
  e_rand :: "nat \<Rightarrow> nat"
  e_seq :: "nat \<Rightarrow> size_t"

record ('r, 'm) world =
  w_conf :: conf
  w_fs :: fs
  w_redis :: 'r
  w_mongo :: 'm
  w_rand_calls :: nat
  w_seq_calls :: nat

section \<open>Constructing the clients\<close>

text \<open>
  What the constructors find: whether a path exists, whether a cluster node answers, and
  the outcome of the checks on the MongoDB client (\<open>None\<close> when all pass).
\<close>

record probes =
  p_exists :: "string \<Rightarrow> bool"
  p_redis :: "string \<Rightarrow> int \<Rightarrow> bool"
  p_mongo :: "string \<Rightarrow> string \<Rightarrow> string \<Rightarrow> ErrorCode option"
  p_rank :: nat

definition FileIOClient :: "probes \<Rightarrow> string \<Rightarrow> unit res" where
  "FileIOClient P end_pt =
     (if \<not> p_exists P end_pt then Inl (Thrown FILE_PATH_NON_EXISTANCE) else Inr ())"

definition RedisIOClient :: "probes \<Rightarrow> StorageSolution \<Rightarrow> unit res" where
  "RedisIOClient P solution =
     and_then (RedisIOClient_node solution (p_rank P)) (\<lambda>(host, port).
       if p_redis P host port then Inr () else Inl (Thrown CONNECT_REDIS_SERVER_ERROR))"

definition MongoIOClient :: "probes \<Rightarrow> string \<Rightarrow> string \<Rightarrow> string \<Rightarrow> unit res" where
  "MongoIOClient P end_pt database collection =
     (case p_mongo P end_pt database collection of
        None \<Rightarrow> Inr ()
      | Some e \<Rightarrow> Inl (Thrown e))"

text \<open>The base-class constructor looks the index up and throws when it is not configured.\<close>

definition IOClient :: "storage_solutions \<Rightarrow> uint16 \<Rightarrow> StorageSolution option res" where
  "IOClient sols storage_index =
     (case map_of sols storage_index of
        Some s \<Rightarrow> Inr s
      | None \<Rightarrow> Inl (Thrown INVALID_STORAGE_INDEX))"

definition construct_client :: "probes \<Rightarrow> StorageSolution \<Rightarrow> unit res" where
  "construct_client P s =
     (case s of
        FileSS e \<Rightarrow> FileIOClient P e
      | RedisSS e port \<Rightarrow> RedisIOClient P s
      | MongoSS e db coll \<Rightarrow> MongoIOClient P e db coll)"

text \<open>
  \<^verbatim>\<open>Singleton<C>::GetInstance(i)\<close> constructs on the first call only: \<open>made\<close> maps each class to
  the index its instance was constructed for.
\<close>

definition get_instance ::
  "probes \<Rightarrow> storage_solutions \<Rightarrow> (IOClientType \<times> uint16) list \<Rightarrow> IOClientType \<Rightarrow> uint16 \<Rightarrow>
   (IOClientType \<times> uint16) list res" where
  "get_instance P sols made t storage_index =
     (case map_of made t of
        Some _ \<Rightarrow> Inr made
      | None \<Rightarrow>
          and_then (IOClient sols storage_index) (\<lambda>sol.
            case sol of
              None \<Rightarrow> Inl Undefined
            | Some s \<Rightarrow> and_then (construct_client P s) (\<lambda>_. Inr (made @ [(t, storage_index)]))))"

text \<open>The constructor of the factory walks over the solutions.\<close>

fun IOFactory_loop ::
  "probes \<Rightarrow> storage_solutions \<Rightarrow> storage_solutions \<Rightarrow> (IOClientType \<times> uint16) list \<Rightarrow>
   (IOClientType \<times> uint16) list res" where
  "IOFactory_loop P sols [] made = Inr made"
| "IOFactory_loop P sols ((ix, sol) # entries) made =
     (case sol of
        None \<Rightarrow> Inl Undefined
      | Some s \<Rightarrow>
          and_then (get_instance P sols made (io_client_type s) ix) (IOFactory_loop P sols entries))"

definition IOFactory :: "probes \<Rightarrow> storage_solutions \<Rightarrow> (IOClientType \<times> uint16) list res" where
  "IOFactory P sols = IOFactory_loop P sols sols []"

section \<open>Choosing the client\<close>

text \<open>
  \<^verbatim>\<open>STORAGE_SOLUTIONS[i]\<close> inserts a null pointer when the index is not configured;
  dereferencing it is undefined.
\<close>

definition GetIOClient :: "('r, 'm) world \<Rightarrow> uint16 \<Rightarrow> IOClientType res" where
  "GetIOClient w storage_index =
     (case map_of (STORAGE_SOLUTIONS (w_conf w)) storage_index of
        Some (Some s) \<Rightarrow> Inr (io_client_type s)
      | _ \<Rightarrow> Inl Undefined)"

text \<open>The four virtual methods, by the class of the client.\<close>

fun client_Read :: "('r, 'm) env \<Rightarrow> IOClientType \<Rightarrow> ('r, 'm) world \<Rightarrow> Data \<Rightarrow> Data \<Rightarrow> Data res" where
  "client_Read E FILE_IO w src dst = FileIOClient_Read (e_junk E) (w_fs w) src dst"
| "client_Read E REDIS_IO w src dst = RedisIOClient_Read (e_redis E) (w_redis w) src dst"
| "client_Read E MONGO_IO w src dst = MongoIOClient_Read (e_junk E) (e_mongo E) (w_mongo w) src dst"

fun client_Write ::
  "('r, 'm) env \<Rightarrow> IOClientType \<Rightarrow> ('r, 'm) world \<Rightarrow> Data \<Rightarrow> Data \<Rightarrow> Data res \<times> ('r, 'm) world" where
  "client_Write E FILE_IO w src dst =
     (case FileIOClient_Write (w_fs w) src dst of (r, s) \<Rightarrow> (r, w\<lparr>w_fs := s\<rparr>))"
| "client_Write E REDIS_IO w src dst =
     (case RedisIOClient_Write (e_redis E) (w_redis w) src dst of (r, s) \<Rightarrow> (r, w\<lparr>w_redis := s\<rparr>))"
| "client_Write E MONGO_IO w src dst =
     (case MongoIOClient_Write (e_junk E) (e_mongo E) (w_mongo w) src dst of
        (r, s) \<Rightarrow> (r, w\<lparr>w_mongo := s\<rparr>))"

fun client_Remove ::
  "('r, 'm) env \<Rightarrow> IOClientType \<Rightarrow> ('r, 'm) world \<Rightarrow> Data \<Rightarrow> bool res \<times> ('r, 'm) world" where
  "client_Remove E FILE_IO w src =
     (case FileIOClient_Remove (w_fs w) src of (r, s) \<Rightarrow> (r, w\<lparr>w_fs := s\<rparr>))"
| "client_Remove E REDIS_IO w src =
     (case RedisIOClient_Remove (e_redis E) (w_redis w) src of (r, s) \<Rightarrow> (r, w\<lparr>w_redis := s\<rparr>))"
| "client_Remove E MONGO_IO w src =
     (case MongoIOClient_Remove (e_mongo E) (w_mongo w) src of (r, s) \<Rightarrow> (r, w\<lparr>w_mongo := s\<rparr>))"

fun client_Size :: "('r, 'm) env \<Rightarrow> IOClientType \<Rightarrow> ('r, 'm) world \<Rightarrow> Data \<Rightarrow> size_t res" where
  "client_Size E FILE_IO w src = FileIOClient_Size (w_fs w) src"
| "client_Size E REDIS_IO w src = RedisIOClient_Size (e_redis E) (w_redis w) src"
| "client_Size E MONGO_IO w src = MongoIOClient_Size (e_junk E) (e_mongo E) (w_mongo w) src"

text \<open>\<^verbatim>\<open>GetIOClient(i)->Method(...)\<close>\<close>

definition Io_Read :: "('r, 'm) env \<Rightarrow> ('r, 'm) world \<Rightarrow> uint16 \<Rightarrow> Data \<Rightarrow> Data \<Rightarrow> Data res" where
  "Io_Read E w ix src dst = and_then (GetIOClient w ix) (\<lambda>t. client_Read E t w src dst)"

definition Io_Write ::
  "('r, 'm) env \<Rightarrow> ('r, 'm) world \<Rightarrow> uint16 \<Rightarrow> Data \<Rightarrow> Data \<Rightarrow> Data res \<times> ('r, 'm) world" where
  "Io_Write E w ix src dst =
     (case GetIOClient w ix of Inl e \<Rightarrow> (Inl e, w) | Inr t \<Rightarrow> client_Write E t w src dst)"

definition Io_Remove ::
  "('r, 'm) env \<Rightarrow> ('r, 'm) world \<Rightarrow> uint16 \<Rightarrow> Data \<Rightarrow> bool res \<times> ('r, 'm) world" where
  "Io_Remove E w ix src =
     (case GetIOClient w ix of Inl e \<Rightarrow> (Inl e, w) | Inr t \<Rightarrow> client_Remove E t w src)"

definition Io_Size :: "('r, 'm) env \<Rightarrow> ('r, 'm) world \<Rightarrow> uint16 \<Rightarrow> Data \<Rightarrow> size_t res" where
  "Io_Size E w ix src = and_then (GetIOClient w ix) (\<lambda>t. client_Size E t w src)"

section \<open>The objects of a world\<close>

fun client_obj :: "('r, 'm) env \<Rightarrow> IOClientType \<Rightarrow> ('r, 'm) world \<Rightarrow> string \<Rightarrow> bytes option" where
  "client_obj E FILE_IO w = fs_files (w_fs w)"
| "client_obj E REDIS_IO w = redis_obj (e_redis E) (w_redis w)"
| "client_obj E MONGO_IO w = mongo_obj (e_mongo E) (w_mongo w)"

fun client_up :: "('r, 'm) env \<Rightarrow> IOClientType \<Rightarrow> ('r, 'm) world \<Rightarrow> string \<Rightarrow> bool" where
  "client_up E FILE_IO w = file_up (w_fs w)"
| "client_up E REDIS_IO w = redis_up (e_redis E) (w_redis w)"
| "client_up E MONGO_IO w = mongo_up (e_mongo E) (w_mongo w)"

fun client_fits :: "IOClientType \<Rightarrow> ('r, 'm) world \<Rightarrow> nat \<Rightarrow> bool" where
  "client_fits FILE_IO w = file_fits (w_fs w)"
| "client_fits REDIS_IO w = redis_fits (w_redis w)"
| "client_fits MONGO_IO w = mongo_fits (w_mongo w)"

section \<open>Lemmas\<close>

lemma client_Write_conf [simp]: "w_conf (snd (client_Write E t w src dst)) = w_conf w"
  by (cases t) (simp_all split: prod.splits)

lemma client_Remove_conf [simp]: "w_conf (snd (client_Remove E t w src)) = w_conf w"
  by (cases t) (simp_all split: prod.splits)

text \<open>A client touches its own backend only.\<close>

lemma client_Write_frame:
  "t \<noteq> t' \<Longrightarrow> client_Write E t w src dst = (r, w') \<Longrightarrow>
   client_obj E t' w' = client_obj E t' w \<and> client_up E t' w' = client_up E t' w \<and>
   client_fits t' w' = client_fits t' w"
  by (cases t; cases t') (auto split: prod.splits)

lemma client_Remove_frame:
  "t \<noteq> t' \<Longrightarrow> client_Remove E t w src = (r, w') \<Longrightarrow>
   client_obj E t' w' = client_obj E t' w \<and> client_up E t' w' = client_up E t' w \<and>
   client_fits t' w' = client_fits t' w"
  by (cases t; cases t') (auto split: prod.splits)

text \<open>Whatever client the factory returns, it is an object store.\<close>

lemmas client_methods =
  client_up.simps [abs_def] client_fits.simps [abs_def] client_obj.simps [abs_def]
  client_Read.simps [abs_def] client_Write.simps [abs_def] client_Remove.simps [abs_def]
  client_Size.simps [abs_def]

interpretation client_store: object_store "client_up E t" "client_fits t" "client_obj E t"
  "client_Read E t" "client_Write E t" "client_Remove E t" "client_Size E t"
proof (cases t)
  case FILE_IO
  from object_store_lift [OF file_store.object_store_axioms, of w_fs "\<lambda>w s. w\<lparr>w_fs := s\<rparr>" "e_junk E"]
  show "object_store (client_up E t) (client_fits t) (client_obj E t)
    (client_Read E t) (client_Write E t) (client_Remove E t) (client_Size E t)"
    unfolding FILE_IO client_methods
    by simp
next
  case REDIS_IO
  from object_store_lift [OF redis_store.object_store_axioms, of w_redis "\<lambda>w s. w\<lparr>w_redis := s\<rparr>" "e_redis E"]
  show "object_store (client_up E t) (client_fits t) (client_obj E t)
    (client_Read E t) (client_Write E t) (client_Remove E t) (client_Size E t)"
    unfolding REDIS_IO client_methods
    by simp
next
  case MONGO_IO
  from object_store_lift [OF mongo_store.object_store_axioms, of w_mongo "\<lambda>w s. w\<lparr>w_mongo := s\<rparr>"
    "e_mongo E" "e_junk E"]
  show "object_store (client_up E t) (client_fits t) (client_obj E t)
    (client_Read E t) (client_Write E t) (client_Remove E t) (client_Size E t)"
    unfolding MONGO_IO client_methods
    by simp
qed

end
