(* ===== verification/Data_Distribution.thy ===== *)
theory Data_Distribution
  imports Io_Factory
begin

text \<open>
  The data distribution engines of \<^verbatim>\<open>src/symbios/data_distribution\<close>: \<^verbatim>\<open>RandomDDE\<close>,
  \<^verbatim>\<open>RoundRobinDDE\<close>, \<^verbatim>\<open>HeuristicsDDE\<close>, \<^verbatim>\<open>DynamicProgrammingDDE\<close> and the factory that picks
  one by policy. An engine turns a request into a list of distributions, each naming the
  storage that receives its data.

  The C library's \<^verbatim>\<open>rand\<close> and basket's \<^verbatim>\<open>global_sequence\<close> are the sequences \<open>e_rand\<close> and
  \<open>e_seq\<close> of the environment, read at the call count kept in the world.
\<close>

section \<open>The engines\<close>

text \<open>
  \<^verbatim>\<open>SYMBIOS_CONF->STORAGE_SOLUTIONS[i]\<close> in the engines: the pointer is not used, but an
  index that is not configured gets a null entry.
\<close>

definition touch_solution :: "uint16 \<Rightarrow> ('r, 'm) world \<Rightarrow> ('r, 'm) world" where
  "touch_solution ix w =
     (case map_of (STORAGE_SOLUTIONS (w_conf w)) ix of
        Some _ \<Rightarrow> w
      | None \<Rightarrow> w\<lparr>w_conf := (w_conf w)\<lparr>STORAGE_SOLUTIONS :=
                   STORAGE_SOLUTIONS (w_conf w) @ [(ix, None)]\<rparr>\<rparr>)"

text \<open>The one distribution an engine builds for its selected index.\<close>

definition place :: "Data \<Rightarrow> Data \<Rightarrow> uint16 \<Rightarrow> DataDistribution" where
  "place source destination selected_solution_index =
     \<lparr>dd_source_data = source,
      dd_destination_data = destination\<lparr>d_storage_index := selected_solution_index\<rparr>,
      dd_storage_index = d_storage_index source\<rparr>"

definition RandomDDE_Distribute ::
  "('r, 'm) env \<Rightarrow> ('r, 'm) world \<Rightarrow> Data \<Rightarrow> Data \<Rightarrow> DataDistribution list res \<times> ('r, 'm) world" where
  "RandomDDE_Distribute E w source destination =
     (let random_number = e_rand E (w_rand_calls w);
          w1 = w\<lparr>w_rand_calls := Suc (w_rand_calls w)\<rparr>;
          n = length (STORAGE_SOLUTIONS (w_conf w1))
      in if n = 0 then (Inl Undefined, w1)
         else let selected_solution_index = of_nat (random_number mod n)
              in (Inr [place source destination selected_solution_index],
                  touch_solution selected_solution_index w1))"

definition RoundRobinDDE_Distribute ::
  "('r, 'm) env \<Rightarrow> ('r, 'm) world \<Rightarrow> Data \<Rightarrow> Data \<Rightarrow> DataDistribution list res \<times> ('r, 'm) world" where
  "RoundRobinDDE_Distribute E w source destination =
     (let next_value = e_seq E (w_seq_calls w);
          w1 = w\<lparr>w_seq_calls := Suc (w_seq_calls w)\<rparr>;
          n = length (STORAGE_SOLUTIONS (w_conf w1))
      in if n = 0 then (Inl Undefined, w1)
         else let selected_solution_index = of_nat (unat next_value mod n)
              in (Inr [place source destination selected_solution_index],
                  touch_solution selected_solution_index w1))"

text \<open>
  The constructor of \<^verbatim>\<open>HeuristicsDDE\<close>: the first solution of each client type, in the order
  the configuration is walked over. A null solution is dereferenced.
\<close>

fun HeuristicsDDE :: "storage_solutions \<Rightarrow> (IOClientType \<times> uint16) list \<Rightarrow>
    (IOClientType \<times> uint16) list res" where
  "HeuristicsDDE [] maps = Inr maps"
| "HeuristicsDDE ((ix, sol) # entries) maps =
     (case sol of
        None \<Rightarrow> Inl Undefined
      | Some s \<Rightarrow>
          HeuristicsDDE entries
            (case map_of maps (io_client_type s) of
               None \<Rightarrow> maps @ [(io_client_type s, ix)]
             | Some _ \<Rightarrow> maps))"

text \<open>\<^verbatim>\<open>maps[type].first\<close> is 0 for a type without a solution.\<close>

definition maps_first :: "(IOClientType \<times> uint16) list \<Rightarrow> IOClientType \<Rightarrow> uint16" where
  "maps_first maps t = (case map_of maps t of None \<Rightarrow> 0 | Some ix \<Rightarrow> ix)"

definition heuristic_type :: "size_t \<Rightarrow> IOClientType" where
  "heuristic_type data_size =
     (if data_size < 16 * 1024 then MONGO_IO
      else if data_size \<ge> 16 * 1024 \<and> data_size < 128 * 1024 then REDIS_IO
      else FILE_IO)"

definition HeuristicsDDE_Distribute ::
  "(IOClientType \<times> uint16) list \<Rightarrow> ('r, 'm) world \<Rightarrow> Data \<Rightarrow> Data \<Rightarrow>
   DataDistribution list res \<times> ('r, 'm) world" where
  "HeuristicsDDE_Distribute maps w source destination =
     (let selected_solution_index = maps_first maps (heuristic_type (d_data_size destination))
      in (Inr [place source destination selected_solution_index],
          touch_solution selected_solution_index w))"

definition DynamicProgrammingDDE_Distribute ::
  "('r, 'm) world \<Rightarrow> Data \<Rightarrow> Data \<Rightarrow> DataDistribution list res \<times> ('r, 'm) world" where
  "DynamicProgrammingDDE_Distribute w source destination = (Inr [], w)"

text \<open>
  \<^verbatim>\<open>GetDataDistributionEngine(policy)->Distribute(source, destination)\<close>. The engine is
  constructed on first use, which is when the server starts.
\<close>

definition Distribute ::
  "('r, 'm) env \<Rightarrow> ('r, 'm) world \<Rightarrow> Data \<Rightarrow> Data \<Rightarrow> DataDistribution list res \<times> ('r, 'm) world" where
  "Distribute E w source destination =
     (case DATA_DISTRIBUTION_POLICY (w_conf w) of
        RANDOM_POLICY \<Rightarrow> RandomDDE_Distribute E w source destination
      | ROUND_ROBIN_POLICY \<Rightarrow> RoundRobinDDE_Distribute E w source destination
      | HEURISTICS_POLICY \<Rightarrow>
          (case HeuristicsDDE (STORAGE_SOLUTIONS (w_conf w)) [] of
             Inl e \<Rightarrow> (Inl e, w)
           | Inr maps \<Rightarrow> HeuristicsDDE_Distribute maps w source destination)
      | DYNAMIC_PROGRAMMING_POLICY \<Rightarrow> DynamicProgrammingDDE_Distribute w source destination)"

section \<open>Well-formed configurations\<close>

text \<open>
  What loading a configuration gives: the indices \<open>0, ..., n - 1\<close> in order, every solution
  present, fewer than 32768 of them (the engines keep the index in an \<^verbatim>\<open>int16_t\<close>).
\<close>

definition wf_solutions :: "storage_solutions \<Rightarrow> bool" where
  "wf_solutions sols \<longleftrightarrow>
     length sols < 2 ^ 15 \<and> map fst sols = map of_nat [0..<length sols] \<and>
     list_all (\<lambda>e. snd e \<noteq> None) sols"

section \<open>Lemmas\<close>

lemma uint16_of_nat_inject:
  "i < 2 ^ 16 \<Longrightarrow> j < 2 ^ 16 \<Longrightarrow> (of_nat i :: uint16) = of_nat j \<longleftrightarrow> i = j"
  by (simp add: word_unat_eq_iff unat_of_nat)

lemma wf_solutions_distinct: "wf_solutions sols \<Longrightarrow> distinct (map fst sols)"
  by (auto simp: wf_solutions_def distinct_map inj_on_def uint16_of_nat_inject)

lemma wf_solutions_lookup:
  assumes "wf_solutions sols" "i < length sols"
  shows "\<exists>s. map_of sols (of_nat i) = Some (Some s) \<and> sols ! i = (of_nat i, Some s)"
proof -
  have "fst (sols ! i) = map fst sols ! i" using assms(2) by simp
  also have "\<dots> = of_nat i" using assms by (simp add: wf_solutions_def)
  finally have ix: "fst (sols ! i) = of_nat i" .
  have "sols ! i \<in> set sols" using assms(2) by simp
  then have "snd (sols ! i) \<noteq> None"
    using assms(1) by (simp add: wf_solutions_def list_all_iff)
  then obtain s where "sols ! i = (of_nat i, Some s)" using ix by (metis option.exhaust prod.collapse)
  moreover from this have "map_of sols (of_nat i) = Some (Some s)"
    using wf_solutions_distinct [OF assms(1)] \<open>sols ! i \<in> set sols\<close> by (simp add: map_of_is_SomeI)
  ultimately show ?thesis by blast
qed

lemma wf_solutions_index:
  assumes "wf_solutions sols" "map_of sols ix = Some s"
  shows "unat ix < length sols" "\<exists>sol. s = Some sol"
proof -
  have mem: "(ix, s) \<in> set sols" using assms(2) by (rule map_of_SomeD)
  have eq: "map fst sols = map of_nat [0..<length sols]"
    using assms(1) by (simp add: wf_solutions_def)
  have "ix \<in> set (map fst sols)" using mem by force
  then have "ix \<in> of_nat ` {0..<length sols}" by (simp only: eq set_map set_upt)
  then obtain i where "i < length sols" "ix = of_nat i" by auto
  then show "unat ix < length sols"
    using assms(1) by (simp add: wf_solutions_def unat_of_nat)
  show "\<exists>sol. s = Some sol"
    using assms(1) mem by (auto simp: wf_solutions_def list_all_iff)
qed

lemma touch_solution_id:
  "map_of (STORAGE_SOLUTIONS (w_conf w)) ix = Some s \<Longrightarrow> touch_solution ix w = w"
  by (simp add: touch_solution_def)

lemma HeuristicsDDE_total:
  "list_all (\<lambda>e. snd e \<noteq> None) sols \<Longrightarrow> \<exists>maps'. HeuristicsDDE sols maps = Inr maps'"
  by (induction sols maps rule: HeuristicsDDE.induct) (auto split: option.splits)

text \<open>Every entry of the engine's table is a configured solution of the entry's type.\<close>

lemma HeuristicsDDE_sound:
  "HeuristicsDDE sols maps = Inr maps' \<Longrightarrow> map_of maps' t = Some ix \<Longrightarrow>
   map_of maps t = Some ix \<or> (\<exists>s. (ix, Some s) \<in> set sols \<and> io_client_type s = t)"
proof (induction sols maps arbitrary: maps' rule: HeuristicsDDE.induct)
  case (1 maps)
  then show ?case by simp
next
  case (2 ix' sol entries maps)
  then obtain s where s: "sol = Some s" by (auto split: option.splits)
  with 2 show ?case
    by (fastforce simp: map_add_def split: option.splits if_splits)
qed

text \<open>A type with a configured solution is in the table.\<close>

lemma HeuristicsDDE_complete:
  "HeuristicsDDE sols maps = Inr maps' \<Longrightarrow>
   map_of maps t \<noteq> None \<or> (\<exists>ix s. (ix, Some s) \<in> set sols \<and> io_client_type s = t) \<Longrightarrow>
   map_of maps' t \<noteq> None"
proof (induction sols maps arbitrary: maps' rule: HeuristicsDDE.induct)
  case (1 maps)
  then show ?case by simp
next
  case (2 ix' sol entries maps)
  then obtain s where s: "sol = Some s" by (auto split: option.splits)
  with 2 show ?case
    by (fastforce simp: map_add_def split: option.splits if_splits)
qed

end
