(* ===== verification/Metadata_Orchestrator.thy ===== *)
theory Metadata_Orchestrator
  imports Data_Distribution
begin

text \<open>
  \<^verbatim>\<open>src/symbios/metadata_orchestrator/metadata_orchestrator.cpp\<close>. For an object \<open>id\<close> the
  orchestrator keeps one \<^emph>\<open>primary\<close> metadata record under the key \<open>id_meta\<close> in the storage the
  object was first addressed through, and in every other storage, under the same key, a
  \<^emph>\<open>link\<close>: a metadata record whose entry -1 names the storage and the size of the primary.
  The primary maps segment numbers (\<^verbatim>\<open>position / MAX_OBJ_SIZE\<close>) to the objects that hold the
  segments.

  \<open>Locate\<close> reads the metadata (one hop for a link) and cuts the request into segments;
  \<open>Store\<close> adds the segments of a write, and writes primary and links. The segment counter
  of \<open>Locate\<close> is an \<^verbatim>\<open>int\<close> narrowed from the 64-bit segment number, the running destination
  position an \<^verbatim>\<open>int\<close> that is sign-extended; there are fewer than \<open>2^31\<close> links.
\<close>

section \<open>Reading metadata\<close>

definition meta_id :: "Data \<Rightarrow> string" where
  "meta_id request = d_id request @ ''_meta''"

text \<open>Reading \<open>src\<close> through the client of index \<open>ix\<close> and unpacking the bytes as metadata.\<close>

definition load_metadata ::
  "('r, 'm) env \<Rightarrow> ('r, 'm) world \<Rightarrow> uint16 \<Rightarrow> Data \<Rightarrow> Metadata res" where
  "load_metadata E w ix src =
     and_then (Io_Read E w ix src src) (\<lambda>d.
       case mem_read 0 (unat (d_data_size d)) (old_bytes (d_buffer d)) of
         None \<Rightarrow> Inl Undefined
       | Some s \<Rightarrow>
           (case e_unpack E s of
              Inl err \<Rightarrow> Inl (Std_Exn err)
            | Inr ob \<Rightarrow> convert_Metadata ob))"

definition read_primary :: "('r, 'm) env \<Rightarrow> ('r, 'm) world \<Rightarrow> Data \<Rightarrow> Metadata res" where
  "read_primary E w request =
     and_then
       (load_metadata E w (d_storage_index request)
          (default_Data\<lparr>d_id := meta_id request, d_storage_index := d_storage_index request\<rparr>))
       (\<lambda>metadata.
          if \<not> m_is_link metadata then Inr metadata
          else let original_metadata = links_at (m_links metadata) (- 1)
               in load_metadata E w (d_storage_index original_metadata) original_metadata)"

section \<open>Cutting a request into segments\<close>

text \<open>
  The array \<^verbatim>\<open>Data links[size]\<close> filled by \<^verbatim>\<open>links[link.first] = link.second\<close>: \<open>None\<close> when a
  segment number is not an index of the array.
\<close>

definition link_array :: "(int64 \<times> Data) list \<Rightarrow> Data list option" where
  "link_array links =
     (if list_all (\<lambda>(k, d). 0 \<le> sint k \<and> sint k < int (length links)) links
      then Some (map (\<lambda>i. links_at links (of_nat i)) [0..<length links]) else None)"

function locate_loop ::
  "size_t \<Rightarrow> bool \<Rightarrow> size_t \<Rightarrow> Data list \<Rightarrow> nat \<Rightarrow> size_t \<Rightarrow> size_t \<Rightarrow> int32 \<Rightarrow> DataDistribution list" where
  "locate_loop M get_all end_segment links i start_offset size_left destination_position =
     (if (get_all \<or> of_nat i \<le> end_segment) \<and> i < length links
      then let relative_offset = (if get_all then 0 else start_offset mod M);
               sz = (if M - relative_offset > size_left then size_left else M - relative_offset);
               source = (links ! i)\<lparr>d_position := relative_offset, d_data_size := sz\<rparr>;
               destination = (links ! i)\<lparr>d_position := scast destination_position, d_data_size := sz\<rparr>
           in \<lparr>dd_source_data = source, dd_destination_data = destination,
               dd_storage_index = d_storage_index source\<rparr> #
              locate_loop M get_all end_segment links (Suc i) (start_offset + sz) (size_left - sz)
                (destination_position + ucast sz)
      else [])"
  by pat_completeness auto
termination
  by (relation "measure (\<lambda>(M, g, e, links, i, s, l, d). length links - i)") auto

declare locate_loop.simps [simp del]

definition segment_request :: "size_t \<Rightarrow> Data \<Rightarrow> Metadata \<Rightarrow> DataDistribution list res" where
  "segment_request M request primary =
     (if M = 0 then Inl Undefined
      else case link_array (m_links primary) of
             None \<Rightarrow> Inl Undefined
           | Some links \<Rightarrow>
               let get_all = (d_data_size request = 0);
                   start_segment = d_position request div M;
                   end_segment = (d_position request + d_data_size request) div M;
                   i = sint (ucast start_segment :: int32)
               in Inr (if i < 0 then []
                       else locate_loop M get_all end_segment links (nat i)
                              (d_position request) (d_data_size request) 0))"

definition Locate ::
  "('r, 'm) env \<Rightarrow> ('r, 'm) world \<Rightarrow> Data \<Rightarrow> (DataDistribution list \<times> Metadata) res" where
  "Locate E w request =
     and_then (read_primary E w request) (\<lambda>primary.
     and_then (segment_request (MAX_OBJ_SIZE (w_conf w)) request primary) (\<lambda>distributions.
       Inr (distributions, primary)))"

section \<open>Storing metadata\<close>

text \<open>
  The two loops of \<open>Store\<close> over the distributions. An object that exists keeps the storage
  of a known segment; a new segment goes where the engine put it, under the object's name
  followed by the segment number.
\<close>

fun store_existing ::
  "size_t \<Rightarrow> DataDistribution list \<Rightarrow> Metadata \<Rightarrow> DataDistribution list \<times> Metadata \<times> bool" where
  "store_existing M [] primary = ([], primary, False)"
| "store_existing M (d # ds) primary =
     (let dst = dd_destination_data d;
          segment = d_position dst div M;
          relative_segment_offset = d_position dst mod M
      in case map_of (m_links primary) segment of
           None \<Rightarrow>
             let dst' = dst\<lparr>d_buffer := None, d_position := relative_segment_offset,
                            d_id := d_id dst @ nat_to_string (unat segment)\<rparr>;
                 (ds', primary', _) =
                   store_existing M ds (primary\<lparr>m_links := links_insert segment dst' (m_links primary)\<rparr>)
             in (d\<lparr>dd_destination_data := dst'\<rparr> # ds', primary', True)
         | Some link \<Rightarrow>
             let dst' = dst\<lparr>d_id := d_id link, d_position := relative_segment_offset,
                            d_storage_index := d_storage_index link\<rparr>;
                 (ds', primary', updated) = store_existing M ds primary
             in (d\<lparr>dd_destination_data := dst'\<rparr> # ds', primary', updated))"

fun store_fresh ::
  "size_t \<Rightarrow> DataDistribution list \<Rightarrow> Metadata \<Rightarrow> DataDistribution list \<times> Metadata" where
  "store_fresh M [] primary = ([], primary)"
| "store_fresh M (d # ds) primary =
     (let dst = dd_destination_data d;
          segment = d_position dst div M;
          relative_segment_offset = d_position dst mod M;
          dst' = dst\<lparr>d_position := relative_segment_offset,
                     d_id := d_id dst @ nat_to_string (unat segment)\<rparr>;
          (ds', primary') =
            store_fresh M ds (primary\<lparr>m_links :=
              links_insert segment (dst'\<lparr>d_buffer := None\<rparr>) (m_links primary)\<rparr>)
      in (d\<lparr>dd_destination_data := dst'\<rparr> # ds', primary'))"

text \<open>The record a metadata write sends: the packed bytes under the object's metadata key.\<close>

definition meta_data :: "string \<Rightarrow> uint16 \<Rightarrow> bytes \<Rightarrow> Data" where
  "meta_data key ix s =
     default_Data\<lparr>d_id := key, d_storage_index := ix, d_buffer := Some s,
                  d_data_size := of_nat (length s)\<rparr>"

definition pack_bytes :: "('r, 'm) env \<Rightarrow> Metadata \<Rightarrow> bytes res" where
  "pack_bytes E meta = and_then (pack_Metadata meta) (\<lambda>ob. Inr (e_pack E ob))"

definition write_primary ::
  "('r, 'm) env \<Rightarrow> ('r, 'm) world \<Rightarrow> string \<Rightarrow> Metadata \<Rightarrow> Data res \<times> ('r, 'm) world" where
  "write_primary E w key primary =
     (case pack_bytes E primary of
        Inl e \<Rightarrow> (Inl e, w)
      | Inr s \<Rightarrow>
          let original_metadata = meta_data key (m_storage_index primary) s
          in case Io_Write E w (m_storage_index primary) original_metadata original_metadata of
               (Inl e, w') \<Rightarrow> (Inl e, w')
             | (Inr original_metadata', w') \<Rightarrow> (Inr (original_metadata'\<lparr>d_buffer := None\<rparr>), w'))"

text \<open>The loop that writes the link record to every storage but the primary's.\<close>

fun write_links ::
  "('r, 'm) env \<Rightarrow> ('r, 'm) world \<Rightarrow> uint16 \<Rightarrow> Data \<Rightarrow> storage_solutions \<Rightarrow> unit res \<times> ('r, 'm) world" where
  "write_links E w primary_ix link_meta [] = (Inr (), w)"
| "write_links E w primary_ix link_meta ((ix, s) # sols) =
     (if ix = primary_ix then write_links E w primary_ix link_meta sols
      else let link_meta1 = link_meta\<lparr>d_storage_index := ix\<rparr>
           in case Io_Write E w ix link_meta1 link_meta1 of
                (Inl e, w') \<Rightarrow> (Inl e, w')
              | (Inr link_meta', w') \<Rightarrow> write_links E w' primary_ix link_meta' sols)"

definition link_metadata :: "Data \<Rightarrow> Metadata" where
  "link_metadata original_metadata =
     default_Metadata\<lparr>m_is_link := True, m_links := links_insert (- 1) original_metadata []\<rparr>"

definition Orchestrator_Store ::
  "('r, 'm) env \<Rightarrow> ('r, 'm) world \<Rightarrow> Data \<Rightarrow> DataDistribution list \<Rightarrow>
   DataDistribution list res \<times> ('r, 'm) world" where
  "Orchestrator_Store E w original_request distributions =
     (let M = MAX_OBJ_SIZE (w_conf w); key = meta_id original_request in
      case Locate E w original_request of
        Inr (_, primary) \<Rightarrow>
          (case store_existing M distributions primary of
             (distributions', primary', is_metadata_updated) \<Rightarrow>
               if is_metadata_updated
               then (case write_primary E w key primary' of
                       (Inl e, w') \<Rightarrow> (Inl e, w')
                     | (Inr _, w') \<Rightarrow> (Inr distributions', w'))
               else (Inr distributions', w))
      | Inl (Thrown e) \<Rightarrow>
          if M = 0 \<and> distributions \<noteq> [] then (Inl Undefined, w)
          else (case store_fresh M distributions
                       (default_Metadata\<lparr>m_is_link := False,
                          m_storage_index := d_storage_index original_request\<rparr>) of
                  (distributions', primary') \<Rightarrow>
                    (case write_primary E w key primary' of
                       (Inl e, w1) \<Rightarrow> (Inl e, w1)
                     | (Inr original_metadata, w1) \<Rightarrow>
                         (case pack_bytes E (link_metadata original_metadata) of
                            Inl e \<Rightarrow> (Inl e, w1)
                          | Inr s \<Rightarrow>
                              (case write_links E w1 (d_storage_index original_request)
                                      (meta_data key 0 s) (STORAGE_SOLUTIONS (w_conf w1)) of
                                 (Inl e, w2) \<Rightarrow> (Inl e, w2)
                               | (Inr _, w2) \<Rightarrow> (Inr distributions', w2)))))
      | Inl e \<Rightarrow> (Inl e, w))"

section \<open>Deleting metadata\<close>

fun delete_metadata ::
  "('r, 'm) env \<Rightarrow> ('r, 'm) world \<Rightarrow> string \<Rightarrow> storage_solutions \<Rightarrow> bool res \<times> ('r, 'm) world" where
  "delete_metadata E w key [] = (Inr True, w)"
| "delete_metadata E w key ((ix, s) # sols) =
     (case Io_Remove E w ix (default_Data\<lparr>d_id := key, d_storage_index := ix\<rparr>) of
        (Inl e, w') \<Rightarrow> (Inl e, w')
      | (Inr _, w') \<Rightarrow> delete_metadata E w' key sols)"

definition Orchestrator_Delete ::
  "('r, 'm) env \<Rightarrow> ('r, 'm) world \<Rightarrow> Data \<Rightarrow> bool res \<times> ('r, 'm) world" where
  "Orchestrator_Delete E w request =
     delete_metadata E w (meta_id request) (STORAGE_SOLUTIONS (w_conf w))"

section \<open>Requirements and the published state\<close>

text \<open>MessagePack as used here: at least one byte, and extra bytes after an object are ignored.\<close>

definition wire_ok :: "('r, 'm) env \<Rightarrow> bool" where
  "wire_ok E \<longleftrightarrow>
     (\<forall>ob. e_pack E ob \<noteq> []) \<and> (\<forall>ob extra. e_unpack E (e_pack E ob @ extra) = Inr ob)"

text \<open>One solution per client type: the storages do not share a key space.\<close>

definition separate :: "storage_solutions \<Rightarrow> bool" where
  "separate sols \<longleftrightarrow> distinct (map (\<lambda>e. map_option io_client_type (snd e)) sols)"

definition sols_of :: "('r, 'm) world \<Rightarrow> storage_solutions" where
  "sols_of w = STORAGE_SOLUTIONS (w_conf w)"

text \<open>Every client serves the key \<open>k\<close>, and its object under \<open>k\<close> and objects of \<open>n\<close> bytes fit.\<close>

definition key_ready :: "('r, 'm) env \<Rightarrow> ('r, 'm) world \<Rightarrow> string \<Rightarrow> nat \<Rightarrow> bool" where
  "key_ready E w k n \<longleftrightarrow>
     (\<forall>ix t. GetIOClient w ix = Inr t \<longrightarrow>
        client_up E t w k \<and> client_fits t w n \<and>
        client_fits t w (length (old_bytes (client_obj E t w k))))"

text \<open>
  The metadata of an object is \<^emph>\<open>published\<close>: the primary record at its index, and at every
  other index a link to it of the right size.
\<close>

definition holds_bytes :: "('r, 'm) env \<Rightarrow> ('r, 'm) world \<Rightarrow> uint16 \<Rightarrow> string \<Rightarrow> bytes \<Rightarrow> bool" where
  "holds_bytes E w ix k s \<longleftrightarrow>
     (\<exists>t extra. GetIOClient w ix = Inr t \<and> client_obj E t w k = Some (s @ extra))"

definition published :: "('r, 'm) env \<Rightarrow> ('r, 'm) world \<Rightarrow> string \<Rightarrow> Metadata \<Rightarrow> bool" where
  "published E w k primary \<longleftrightarrow>
     \<not> m_is_link primary \<and>
     (\<exists>s ls. pack_bytes E primary = Inr s \<and>
        pack_bytes E (link_metadata ((meta_data k (m_storage_index primary) s)\<lparr>d_buffer := None\<rparr>)) = Inr ls \<and>
        holds_bytes E w (m_storage_index primary) k s \<and>
        (\<forall>ix \<in> fst ` set (sols_of w). ix \<noteq> m_storage_index primary \<longrightarrow> holds_bytes E w ix k ls))"

text \<open>The packed primary record and the packed link to it have at most \<open>n\<close> bytes.\<close>

definition packs_within :: "('r, 'm) env \<Rightarrow> string \<Rightarrow> Metadata \<Rightarrow> nat \<Rightarrow> bool" where
  "packs_within E k primary n \<longleftrightarrow>
     (case pack_bytes E primary of
        Inl _ \<Rightarrow> True
      | Inr s \<Rightarrow>
          length s \<le> n \<and>
          (case pack_bytes E
                  (link_metadata ((meta_data k (m_storage_index primary) s)\<lparr>d_buffer := None\<rparr>)) of
             Inl _ \<Rightarrow> True
           | Inr ls \<Rightarrow> length ls \<le> n))"

text \<open>The primary record of a new object, before its segments are entered.\<close>

definition fresh_primary :: "Data \<Rightarrow> Metadata" where
  "fresh_primary request =
     default_Metadata\<lparr>m_is_link := False, m_storage_index := d_storage_index request\<rparr>"

text \<open>Two worlds with the same configuration whose clients are equally available.\<close>

definition serves_like :: "('r, 'm) env \<Rightarrow> ('r, 'm) world \<Rightarrow> ('r, 'm) world \<Rightarrow> bool" where
  "serves_like E w' w \<longleftrightarrow>
     w_conf w' = w_conf w \<and>
     (\<forall>t. client_up E t w' = client_up E t w \<and> client_fits t w' = client_fits t w)"

section \<open>Lemmas on writing whole objects\<close>

lemma serves_like_refl [simp]: "serves_like E w w"
  by (simp add: serves_like_def)

lemma serves_like_trans: "serves_like E w2 w1 \<Longrightarrow> serves_like E w1 w \<Longrightarrow> serves_like E w2 w"
  by (simp add: serves_like_def)

lemma serves_like_GetIOClient: "serves_like E w' w \<Longrightarrow> GetIOClient w' = GetIOClient w"
  by (simp add: serves_like_def GetIOClient_def fun_eq_iff)

lemma serves_like_sols: "serves_like E w' w \<Longrightarrow> sols_of w' = sols_of w"
  by (simp add: serves_like_def sols_of_def)

lemma meta_data_whole: "whole (meta_data k ix s) s"
  by (simp add: whole_def meta_data_def)

lemma meta_data_simps [simp]:
  "d_id (meta_data k ix s) = k" "d_position (meta_data k ix s) = 0"
  "(meta_data k ix s)\<lparr>d_storage_index := jx\<rparr> = meta_data k jx s"
  by (simp_all add: meta_data_def)

lemma Io_Write_whole:
  assumes "GetIOClient w ix = Inr t" "client_up E t w (d_id dst)" "whole src b" "d_position dst = 0"
    and "client_fits t w (length b)" "client_fits t w (length (old_bytes (client_obj E t w (d_id dst))))"
  obtains w' where "Io_Write E w ix src dst = (Inr src, w')" "serves_like E w' w"
    "client_obj E t w' = (client_obj E t w)(d_id dst \<mapsto>
        overlay 0 b (old_bytes (client_obj E t w (d_id dst))))"
    "\<And>t'. t' \<noteq> t \<Longrightarrow> client_obj E t' w' = client_obj E t' w"
proof -
  from client_store.wr_whole [OF assms(2-6)] obtain w' where
    w': "client_Write E t w src dst = (Inr src, w')"
    and obj: "client_obj E t w' = (client_obj E t w)(d_id dst \<mapsto>
        overlay 0 b (old_bytes (client_obj E t w (d_id dst))))"
    and frame: "client_up E t w' = client_up E t w" "client_fits t w' = client_fits t w"
    by blast
  have other: "client_obj E t' w' = client_obj E t' w \<and> client_up E t' w' = client_up E t' w \<and>
      client_fits t' w' = client_fits t' w" if "t' \<noteq> t" for t'
    using client_Write_frame [OF _ w'] that by auto
  have "w_conf w' = w_conf w" using client_Write_conf [of E t w src dst] w' by simp
  then have "serves_like E w' w"
    unfolding serves_like_def using frame other by metis
  moreover have "Io_Write E w ix src dst = (Inr src, w')"
    using assms(1) w' by (simp add: Io_Write_def)
  ultimately show ?thesis using that obj other by blast
qed

text \<open>A metadata write keeps the key ready and leaves its bytes at the front of the object.\<close>

lemma Io_Write_meta:
  assumes "GetIOClient w ix = Inr t" "key_ready E w k n" "length s \<le> n"
  obtains w' where "Io_Write E w ix (meta_data k ix s) (meta_data k ix s) = (Inr (meta_data k ix s), w')"
    "serves_like E w' w" "key_ready E w' k n" "\<exists>extra. client_obj E t w' k = Some (s @ extra)"
    "\<And>t'. t' \<noteq> t \<Longrightarrow> client_obj E t' w' = client_obj E t' w"
    "\<And>t' k'. k' \<noteq> k \<Longrightarrow> client_obj E t' w' k' = client_obj E t' w k'"
proof -
  let ?m = "meta_data k ix s"
  have ready: "client_up E t w k" "client_fits t w n" "client_fits t w (length (old_bytes (client_obj E t w k)))"
    using assms(1,2) by (auto simp: key_ready_def)
  have fits_s: "client_fits t w (length s)"
    using client_store.fits_mono [OF ready(2) assms(3)] .
  obtain w' where w': "Io_Write E w ix ?m ?m = (Inr ?m, w')" "serves_like E w' w"
    and obj: "client_obj E t w' = (client_obj E t w)(k \<mapsto> overlay 0 s (old_bytes (client_obj E t w k)))"
    and other: "\<And>t'. t' \<noteq> t \<Longrightarrow> client_obj E t' w' = client_obj E t' w"
    by (rule Io_Write_whole [of w ix t E ?m ?m s])
      (use assms(1) ready fits_s meta_data_whole in simp_all)
  have "client_fits t w (length (overlay 0 s (old_bytes (client_obj E t w k))))"
    using ready(3) fits_s by (simp add: length_overlay max_def)
  then have "client_fits t w' (length (old_bytes (client_obj E t w' k)))"
    using obj w'(2) by (simp add: serves_like_def)
  then have "key_ready E w' k n"
    using assms(2) other w'(2) serves_like_GetIOClient [OF w'(2)]
    unfolding key_ready_def serves_like_def by metis
  moreover have "client_obj E t w' k = Some (s @ drop (length s) (old_bytes (client_obj E t w k)))"
    using obj by (simp add: overlay_0)
  moreover have "client_obj E t' w' k' = client_obj E t' w k'" if "k' \<noteq> k" for t' k'
    using obj other [of t'] that by (cases "t' = t") simp_all
  ultimately show ?thesis using that w' other by blast
qed

section \<open>Lemmas on publishing\<close>

text \<open>
  The link loop: every storage but the primary's gets the link; a client that serves none
  of them keeps its objects.
\<close>

lemma write_links_published:
  assumes "key_ready E w k n" "length ls \<le> n"
    and "\<And>ix. ix \<in> fst ` set sols \<Longrightarrow> \<exists>t. GetIOClient w ix = Inr t"
  shows "\<exists>w'. write_links E w p (meta_data k jx ls) sols = (Inr (), w') \<and> serves_like E w' w \<and>
    key_ready E w' k n \<and>
    (\<forall>ix s. (ix, s) \<in> set sols \<longrightarrow> ix \<noteq> p \<longrightarrow> holds_bytes E w' ix k ls) \<and>
    (\<forall>t. (\<forall>ix s. (ix, s) \<in> set sols \<longrightarrow> ix \<noteq> p \<longrightarrow> GetIOClient w ix \<noteq> Inr t) \<longrightarrow>
       client_obj E t w' = client_obj E t w) \<and>
    (\<forall>t k'. k' \<noteq> k \<longrightarrow> client_obj E t w' k' = client_obj E t w k')"
  using assms
proof (induction sols arbitrary: w jx)
  case Nil
  then show ?case by simp
next
  case (Cons e sols)
  obtain ix s where e: "e = (ix, s)" by (cases e)
  show ?case
  proof (cases "ix = p")
    case True
    then show ?thesis using Cons.IH [of w jx] Cons.prems e by auto
  next
    case False
    obtain t where t: "GetIOClient w ix = Inr t" using Cons.prems(3) e by auto
    obtain w1 where w1: "Io_Write E w ix (meta_data k ix ls) (meta_data k ix ls) =
        (Inr (meta_data k ix ls), w1)"
      and like: "serves_like E w1 w" and ready: "key_ready E w1 k n"
      and held: "\<exists>extra. client_obj E t w1 k = Some (ls @ extra)"
      and other: "\<And>t'. t' \<noteq> t \<Longrightarrow> client_obj E t' w1 = client_obj E t' w"
      and keys: "\<And>t' k'. k' \<noteq> k \<Longrightarrow> client_obj E t' w1 k' = client_obj E t' w k'"
      by (rule Io_Write_meta [OF t Cons.prems(1,2)]) blast
    have get: "GetIOClient w1 = GetIOClient w" using like by (rule serves_like_GetIOClient)
    obtain w' where w': "write_links E w1 p (meta_data k ix ls) sols = (Inr (), w')"
      and like': "serves_like E w' w1" and ready': "key_ready E w' k n"
      and held': "\<forall>ix s. (ix, s) \<in> set sols \<longrightarrow> ix \<noteq> p \<longrightarrow> holds_bytes E w' ix k ls"
      and kept': "\<forall>t. (\<forall>ix s. (ix, s) \<in> set sols \<longrightarrow> ix \<noteq> p \<longrightarrow> GetIOClient w1 ix \<noteq> Inr t) \<longrightarrow>
          client_obj E t w' = client_obj E t w1"
      and keys': "\<forall>t k'. k' \<noteq> k \<longrightarrow> client_obj E t w' k' = client_obj E t w1 k'"
      using Cons.IH [of w1 ix] ready Cons.prems(2,3) get by auto
    have get': "GetIOClient w' = GetIOClient w" using like' get by (simp add: serves_like_GetIOClient)
    have "holds_bytes E w' ix k ls"
    proof (cases "\<exists>jx s. (jx, s) \<in> set sols \<and> jx \<noteq> p \<and> GetIOClient w jx = Inr t")
      case True
      then obtain jx s where "(jx, s) \<in> set sols" "jx \<noteq> p" "GetIOClient w jx = Inr t" by blast
      then show ?thesis using held' get' t unfolding holds_bytes_def by (metis sum.inject(2))
    next
      case False
      then have "client_obj E t w' = client_obj E t w1" using kept' get by metis
      then show ?thesis using held get' t by (auto simp: holds_bytes_def)
    qed
    moreover have "client_obj E t' w' = client_obj E t' w"
      if "\<forall>ix s. (ix, s) \<in> set (e # sols) \<longrightarrow> ix \<noteq> p \<longrightarrow> GetIOClient w ix \<noteq> Inr t'" for t'
    proof -
      have "client_obj E t' w' = client_obj E t' w1" using kept' that get by auto
      moreover have "t' \<noteq> t" using that e t False by auto
      ultimately show ?thesis using other by simp
    qed
    moreover have "write_links E w p (meta_data k jx ls) (e # sols) = (Inr (), w')"
      using e False w1 w' by simp
    ultimately show ?thesis
      using ready' held' keys keys' serves_like_trans [OF like' like] e by auto
  qed
qed

text \<open>Reading metadata that is held, whole or by its size.\<close>

lemma load_metadata_held:
  assumes "wire_ok E" "wf_Metadata meta" "pack_bytes E meta = Inr s"
    and "GetIOClient w ix = Inr t" "client_obj E t w (d_id src) = Some (s @ extra)"
    and "client_up E t w (d_id src)" "client_fits t w (length (s @ extra))"
    and "d_position src = 0" "d_data_size src = 0 \<or> d_data_size src = of_nat (length s)"
  shows "load_metadata E w ix src = Inr meta"
proof -
  obtain ob where ob: "pack_Metadata meta = Inr ob" "s = e_pack E ob"
    using assms(3) by (auto simp: pack_bytes_def and_then_Inr)
  have conv: "convert_Metadata ob = Inr meta" using assms(2) ob(1) by (rule convert_pack_Metadata)
  have s: "s \<noteq> []" and unp: "e_unpack E (s @ x) = Inr ob" for x
    using assms(1) ob(2) by (auto simp: wire_ok_def)
  have bound: "length (s @ extra) < 2 ^ 63" using client_store.fits_bound assms(7) by blast
  show ?thesis
  proof (cases "d_data_size src = 0")
    case True
    have "client_Read E t w src src =
        Inr (src\<lparr>d_buffer := Some (s @ extra), d_data_size := of_nat (length (s @ extra))\<rparr>)"
      using client_store.rd_whole assms(5-8) True by blast
    then show ?thesis
      using assms(4) bound unp conv
      by (simp add: load_metadata_def Io_Read_def mem_read_Some size_of_nat_add)
  next
    case False
    then have "d_data_size src = of_nat (length s)" using assms(9) by simp
    then have "client_Read E t w src src =
        Inr (src\<lparr>d_buffer := Some s, d_data_size := of_nat (length s)\<rparr>)"
      using client_store.rd_prefix [OF assms(6,5,7), of "length s" src] s assms(8) by simp
    then show ?thesis
      using assms(4) bound unp [of "[]"] conv
      by (simp add: load_metadata_def Io_Read_def mem_read_Some size_fits)
  qed
qed

text \<open>Published metadata is what \<open>read_primary\<close> finds, from every configured storage.\<close>

lemma wf_link_metadata: "d_buffer d = None \<Longrightarrow> wf_Metadata (link_metadata d)"
  by (simp add: link_metadata_def wf_Metadata_def links_insert_def wf_Data_def)

lemma held_load:
  assumes "wire_ok E" "key_ready E w k n" "holds_bytes E w ix k b" "pack_bytes E meta = Inr b" "wf_Metadata meta"
    and "d_id src = k" "d_position src = 0" "d_data_size src = 0 \<or> d_data_size src = of_nat (length b)"
  shows "load_metadata E w ix src = Inr meta"
proof -
  from assms(3) obtain t extra where t: "GetIOClient w ix = Inr t"
    "client_obj E t w k = Some (b @ extra)" unfolding holds_bytes_def by blast
  moreover have "client_up E t w k" "client_fits t w (length (b @ extra))"
    using assms(2) t unfolding key_ready_def by fastforce+
  ultimately show ?thesis
    using load_metadata_held [OF assms(1,5,4) t(1), of src extra] assms(6-8) by simp
qed

lemma published_read:
  assumes "wire_ok E" "wf_Metadata primary" "published E w (meta_id r) primary"
    and "key_ready E w (meta_id r) n" "d_storage_index r \<in> fst ` set (sols_of w)"
  shows "read_primary E w r = Inr primary"
proof -
  let ?k = "meta_id r" and ?p = "m_storage_index primary"
  let ?probe = "default_Data\<lparr>d_id := ?k, d_storage_index := d_storage_index r\<rparr>"
  from assms(3) obtain s ls where not_link: "\<not> m_is_link primary"
    and s: "pack_bytes E primary = Inr s"
    and ls: "pack_bytes E (link_metadata ((meta_data ?k ?p s)\<lparr>d_buffer := None\<rparr>)) = Inr ls"
    and prim: "holds_bytes E w ?p ?k s"
    and links: "\<forall>ix \<in> fst ` set (sols_of w). ix \<noteq> ?p \<longrightarrow> holds_bytes E w ix ?k ls"
    unfolding published_def by blast
  let ?link = "(meta_data ?k ?p s)\<lparr>d_buffer := None\<rparr>"
  note load = held_load [OF assms(1,4)]
  show ?thesis
  proof (cases "d_storage_index r = ?p")
    case True
    then have "load_metadata E w (d_storage_index r) ?probe = Inr primary"
      using load [OF prim s assms(2)] by simp
    then show ?thesis using not_link by (simp add: read_primary_def)
  next
    case False
    then have "holds_bytes E w (d_storage_index r) ?k ls" using links assms(5) by blast
    then have "load_metadata E w (d_storage_index r) ?probe = Inr (link_metadata ?link)"
      by (rule load [OF _ ls]) (simp_all add: wf_link_metadata)
    moreover have "load_metadata E w ?p ?link = Inr primary"
      by (rule load [OF prim s assms(2)]) (simp_all add: meta_data_def)
    ultimately show ?thesis
      by (simp add: read_primary_def link_metadata_def links_insert_def links_at_def meta_data_def)
  qed
qed

text \<open>The loops of \<open>Store\<close> keep metadata well formed and its header fields.\<close>

lemma store_fresh_wf:
  "wf_Metadata primary \<Longrightarrow> store_fresh M ds primary = (ds', primary') \<Longrightarrow>
   wf_Metadata primary' \<and> m_is_link primary' = m_is_link primary \<and>
   m_storage_index primary' = m_storage_index primary"
proof (induction ds arbitrary: primary ds' primary')
  case Nil
  then show ?case by simp
next
  case (Cons d ds)
  let ?dst = "dd_destination_data d"
  define link where "link = ?dst\<lparr>d_position := d_position ?dst mod M,
    d_id := d_id ?dst @ nat_to_string (unat (d_position ?dst div M)), d_buffer := None\<rparr>"
  let ?meta = "primary\<lparr>m_links := links_insert (d_position ?dst div M) link (m_links primary)\<rparr>"
  have "wf_Metadata ?meta"
    using Cons.prems(1) unfolding wf_Metadata_def
    by (auto intro: distinct_links_insert wf_links_insert simp: link_def wf_Data_def)
  moreover obtain ds1 where "store_fresh M ds ?meta = (ds1, primary')"
    using Cons.prems(2) by (auto simp: Let_def link_def split: prod.splits)
  ultimately show ?case using Cons.IH [of ?meta ds1 primary'] by simp
qed

lemma store_existing_wf:
  "wf_Metadata primary \<Longrightarrow> store_existing M ds primary = (ds', primary', u) \<Longrightarrow>
   wf_Metadata primary' \<and> m_is_link primary' = m_is_link primary \<and>
   m_storage_index primary' = m_storage_index primary \<and> (\<not> u \<longrightarrow> primary' = primary)"
proof (induction ds arbitrary: primary ds' primary' u)
  case Nil
  then show ?case by simp
next
  case (Cons d ds)
  let ?dst = "dd_destination_data d"
  show ?case
  proof (cases "map_of (m_links primary) (d_position ?dst div M)")
    case None
    define link where "link = ?dst\<lparr>d_buffer := None, d_position := d_position ?dst mod M,
      d_id := d_id ?dst @ nat_to_string (unat (d_position ?dst div M))\<rparr>"
    let ?meta = "primary\<lparr>m_links := links_insert (d_position ?dst div M) link (m_links primary)\<rparr>"
    have "wf_Metadata ?meta"
      using Cons.prems(1) unfolding wf_Metadata_def
      by (auto intro: distinct_links_insert wf_links_insert simp: link_def wf_Data_def)
    moreover obtain ds1 u1 where "store_existing M ds ?meta = (ds1, primary', u1)" "u"
      using Cons.prems(2) None by (auto simp: Let_def link_def split: prod.splits)
    ultimately show ?thesis using Cons.IH [of ?meta ds1 primary' u1] by simp
  next
    case (Some link)
    then obtain ds1 where "store_existing M ds primary = (ds1, primary', u)"
      using Cons.prems(2) by (auto simp: Let_def split: prod.splits)
    then show ?thesis using Cons.IH [of primary ds1 primary' u] Cons.prems(1) by simp
  qed
qed

lemma map_of_configured: "x \<in> fst ` set xs \<Longrightarrow> \<exists>s. map_of xs x = Some s"
  using map_of_eq_None_iff [of xs x] by (cases "map_of xs x") auto

lemma GetIOClient_configured:
  "wf_solutions (sols_of w) \<Longrightarrow> ix \<in> fst ` set (sols_of w) \<Longrightarrow> \<exists>t. GetIOClient w ix = Inr t"
proof -
  assume wf: "wf_solutions (sols_of w)" and "ix \<in> fst ` set (sols_of w)"
  then obtain s where s: "map_of (sols_of w) ix = Some s" using map_of_configured by metis
  with wf obtain sol where "s = Some sol" using wf_solutions_index(2) by blast
  with s show ?thesis by (simp add: GetIOClient_def sols_of_def)
qed

text \<open>With one solution per type, different indices reach different clients.\<close>

lemma separate_clients:
  assumes "wf_solutions (sols_of w)" "separate (sols_of w)"
    and "ix \<in> fst ` set (sols_of w)" "jx \<in> fst ` set (sols_of w)" "ix \<noteq> jx"
  shows "GetIOClient w ix \<noteq> GetIOClient w jx"
proof -
  let ?f = "\<lambda>e. map_option io_client_type (snd e)"
  have inj: "inj_on ?f (set (sols_of w))"
    using assms(2) by (simp add: separate_def distinct_map)
  have client: "\<exists>e \<in> set (sols_of w). fst e = x \<and> (\<exists>t. GetIOClient w x = Inr t \<and> ?f e = Some t)"
    if mem: "x \<in> fst ` set (sols_of w)" for x
  proof -
    obtain s where s: "map_of (sols_of w) x = Some s"
      using map_of_configured [OF mem] by blast
    with assms(1) obtain sol where "s = Some sol" using wf_solutions_index(2) by blast
    moreover have "(x, s) \<in> set (sols_of w)" using s by (rule map_of_SomeD)
    ultimately show ?thesis using s by (force simp: GetIOClient_def sols_of_def)
  qed
  show ?thesis
    using client [OF assms(3)] client [OF assms(4)] inj assms(5) unfolding inj_on_def
    by (metis sum.inject(2))
qed

text \<open>Storing an unknown object publishes its metadata.\<close>

lemma wf_packs: "wf_Metadata meta \<Longrightarrow> \<exists>s. pack_bytes E meta = Inr s"
  using pack_Metadata_wf [of meta] by (auto simp: pack_bytes_def)

lemma Orchestrator_Store_fresh:
  assumes "wire_ok E" "wf_solutions (sols_of w)" "separate (sols_of w)"
    and "Locate E w req = Inl (Thrown e)" "MAX_OBJ_SIZE (w_conf w) \<noteq> 0"
    and "d_storage_index req \<in> fst ` set (sols_of w)"
    and fresh: "store_fresh (MAX_OBJ_SIZE (w_conf w)) ds (fresh_primary req) = (ds', primary)"
    and ready: "key_ready E w (meta_id req) n" "packs_within E (meta_id req) primary n"
  shows "\<exists>w'. Orchestrator_Store E w req ds = (Inr ds', w') \<and> serves_like E w' w \<and>
    key_ready E w' (meta_id req) n \<and> published E w' (meta_id req) primary \<and>
    (\<forall>t k'. k' \<noteq> meta_id req \<longrightarrow> client_obj E t w' k' = client_obj E t w k')"
proof -
  let ?k = "meta_id req" and ?p = "d_storage_index req"
  have prim: "wf_Metadata primary" "\<not> m_is_link primary" "m_storage_index primary = ?p"
    using store_fresh_wf [OF _ fresh] by (simp_all add: fresh_primary_def wf_Metadata_def)
  obtain s where s: "pack_bytes E primary = Inr s" using wf_packs prim(1) by blast
  define link where "link = (meta_data ?k ?p s)\<lparr>d_buffer := None\<rparr>"
  obtain ls where ls: "pack_bytes E (link_metadata link) = Inr ls"
    using wf_packs wf_link_metadata [of link] by (auto simp: link_def)
  have small: "length s \<le> n" "length ls \<le> n"
    using ready(2) s ls prim(3) by (auto simp: packs_within_def link_def)
  obtain t where t: "GetIOClient w ?p = Inr t"
    using GetIOClient_configured assms(2,6) by blast
  obtain w1 where w1: "Io_Write E w ?p (meta_data ?k ?p s) (meta_data ?k ?p s) = (Inr (meta_data ?k ?p s), w1)"
    and like1: "serves_like E w1 w" and ready1: "key_ready E w1 ?k n"
    and held1: "\<exists>extra. client_obj E t w1 ?k = Some (s @ extra)"
    and keys1: "\<And>t k'. k' \<noteq> ?k \<Longrightarrow> client_obj E t w1 k' = client_obj E t w k'"
    by (rule Io_Write_meta [OF t ready(1) small(1)]) blast
  have get1: "GetIOClient w1 = GetIOClient w" and sols1: "sols_of w1 = sols_of w"
    using like1 by (rule serves_like_GetIOClient, rule serves_like_sols)
  have conf1: "\<exists>t. GetIOClient w1 ix = Inr t" if "ix \<in> fst ` set (sols_of w)" for ix
    using GetIOClient_configured [OF assms(2) that] get1 by simp
  obtain w2 where w2: "write_links E w1 ?p (meta_data ?k 0 ls) (sols_of w) = (Inr (), w2)"
    and like2: "serves_like E w2 w1" and ready2: "key_ready E w2 ?k n"
    and held2: "\<forall>ix s. (ix, s) \<in> set (sols_of w) \<longrightarrow> ix \<noteq> ?p \<longrightarrow> holds_bytes E w2 ix ?k ls"
    and kept2: "\<forall>t. (\<forall>ix s. (ix, s) \<in> set (sols_of w) \<longrightarrow> ix \<noteq> ?p \<longrightarrow> GetIOClient w1 ix \<noteq> Inr t) \<longrightarrow>
       client_obj E t w2 = client_obj E t w1"
    and keys2: "\<forall>t k'. k' \<noteq> ?k \<longrightarrow> client_obj E t w2 k' = client_obj E t w1 k'"
    using write_links_published [OF ready1 small(2) conf1, where p = ?p and jx = 0] by blast
  have get2: "GetIOClient w2 = GetIOClient w" and sols2: "sols_of w2 = sols_of w"
    using like2 get1 sols1 by (simp_all add: serves_like_GetIOClient serves_like_sols)
  have "GetIOClient w ix \<noteq> Inr t" if "(ix, s) \<in> set (sols_of w)" "ix \<noteq> ?p" for ix s
    using separate_clients [OF assms(2,3) _ assms(6)] that t by force
  then have "client_obj E t w2 = client_obj E t w1" using kept2 get1 by metis
  then have "holds_bytes E w2 ?p ?k s" using held1 get2 t by (auto simp: holds_bytes_def)
  moreover have "\<forall>ix \<in> fst ` set (sols_of w2). ix \<noteq> ?p \<longrightarrow> holds_bytes E w2 ix ?k ls"
    using held2 sols2 by auto
  ultimately have "published E w2 ?k primary"
    unfolding published_def using prim s ls by (auto simp: link_def)
  moreover have "Orchestrator_Store E w req ds = (Inr ds', w2)"
    using assms(4,5) fresh prim(3) s ls w1 w2 sols1
    by (simp add: Orchestrator_Store_def fresh_primary_def write_primary_def Let_def link_def
        sols_of_def)
  ultimately show ?thesis using ready2 serves_like_trans [OF like2 like1] keys1 keys2 by auto
qed

text \<open>Deleting the metadata removes it from every configured storage.\<close>

lemma delete_metadata_gone:
  assumes "\<And>ix. ix \<in> fst ` set sols \<Longrightarrow> \<exists>t. GetIOClient w ix = Inr t \<and> client_up E t w k"
  shows "\<exists>w'. delete_metadata E w k sols = (Inr True, w') \<and> serves_like E w' w \<and>
    (\<forall>ix s t. (ix, s) \<in> set sols \<longrightarrow> GetIOClient w ix = Inr t \<longrightarrow> client_obj E t w' k = None) \<and>
    (\<forall>t k'. client_obj E t w' k' = None \<and> k' = k \<or> client_obj E t w' k' = client_obj E t w k')"
  using assms
proof (induction sols arbitrary: w)
  case Nil
  then show ?case by simp
next
  case (Cons e sols)
  obtain ix s where e: "e = (ix, s)" by (cases e)
  let ?d = "default_Data\<lparr>d_id := k, d_storage_index := ix\<rparr>"
  obtain t where t: "GetIOClient w ix = Inr t" "client_up E t w k" using Cons.prems e by auto
  obtain w1 where w1: "client_Remove E t w ?d = (Inr True, w1)"
    and obj1: "client_obj E t w1 = (client_obj E t w)(k := None)"
    and frame: "client_up E t w1 = client_up E t w" "client_fits t w1 = client_fits t w"
    using client_store.rm_gone [of E t w ?d] t(2) by auto
  have other: "client_obj E t' w1 = client_obj E t' w \<and> client_up E t' w1 = client_up E t' w \<and>
      client_fits t' w1 = client_fits t' w" if "t' \<noteq> t" for t'
    using client_Remove_frame [OF _ w1] that by auto
  have "w_conf w1 = w_conf w" using client_Remove_conf [of E t w ?d] w1 by simp
  then have like1: "serves_like E w1 w" unfolding serves_like_def using frame other by metis
  have get1: "GetIOClient w1 = GetIOClient w" using like1 by (rule serves_like_GetIOClient)
  have prems1: "\<exists>t. GetIOClient w1 jx = Inr t \<and> client_up E t w1 k" if "jx \<in> fst ` set sols" for jx
    using Cons.prems [of jx] that like1 get1 by (auto simp: serves_like_def)
  from Cons.IH [of w1, OF prems1] obtain w' where
    w': "delete_metadata E w1 k sols = (Inr True, w')" and like': "serves_like E w' w1"
    and gone: "\<forall>ix s t. (ix, s) \<in> set sols \<longrightarrow> GetIOClient w1 ix = Inr t \<longrightarrow> client_obj E t w' k = None"
    and kept: "\<forall>t k'. client_obj E t w' k' = None \<and> k' = k \<or> client_obj E t w' k' = client_obj E t w1 k'"
    by blast
  have "client_obj E t w' k = None" using kept obj1 by (metis fun_upd_same)
  moreover have "client_obj E t' w' k' = None \<and> k' = k \<or> client_obj E t' w' k' = client_obj E t' w k'"
    for t' k'
    using kept [rule_format, of t' k'] obj1 other [of t'] by (cases "t' = t") (auto split: if_splits)
  moreover have "delete_metadata E w k (e # sols) = (Inr True, w')"
    using e t w1 w' by (simp add: Io_Remove_def)
  ultimately show ?case
    using gone get1 t e serves_like_trans [OF like' like1] by auto
qed

end
