(* ===== verification/Server.thy ===== *)
theory Server
  imports Metadata_Orchestrator
begin

text \<open>
  The request handlers of \<^verbatim>\<open>src/symbios/server/server.cpp\<close> and the client calls of
  \<^verbatim>\<open>src/symbios/client/client.cpp\<close>. \<open>Server_Store\<close> asks the distribution engine for the
  placement, publishes the metadata and writes the pieces; \<open>Server_Locate\<close> finds the pieces,
  reads each and joins them; \<open>Server_Size\<close> and \<open>Server_Delete\<close> walk over the pieces.

  A remote call packs its arguments and its result with MessagePack; a fault of the
  handler reaches the caller as rpclib's \<^verbatim>\<open>rpc_error\<close>. The servers share the backends;
  the model has one world for the server that takes the call.
\<close>

section \<open>Server handlers\<close>

fun write_pieces ::
  "('r, 'm) env \<Rightarrow> ('r, 'm) world \<Rightarrow> DataDistribution list \<Rightarrow> unit res \<times> ('r, 'm) world" where
  "write_pieces E w [] = (Inr (), w)"
| "write_pieces E w (d # ds) =
     (case Io_Write E w (d_storage_index (dd_destination_data d)) (dd_source_data d)
             (dd_destination_data d) of
        (Inl e, w') \<Rightarrow> (Inl e, w')
      | (Inr _, w') \<Rightarrow> write_pieces E w' ds)"

definition Server_Store ::
  "('r, 'm) env \<Rightarrow> ('r, 'm) world \<Rightarrow> Data \<Rightarrow> Data \<Rightarrow> int res \<times> ('r, 'm) world" where
  "Server_Store E w source destination =
     (case Distribute E w source destination of
        (Inl e, w1) \<Rightarrow> (Inl e, w1)
      | (Inr distributions, w1) \<Rightarrow>
          (case Orchestrator_Store E w1 destination distributions of
             (Inl e, w2) \<Rightarrow> (Inl e, w2)
           | (Inr distributions', w2) \<Rightarrow>
               (case write_pieces E w2 distributions' of
                  (Inl e, w3) \<Rightarrow> (Inl e, w3)
                | (Inr _, w3) \<Rightarrow> (Inr (uint (SERVER_COUNT (w_conf w3))), w3))))"

text \<open>The first loop of \<^verbatim>\<open>Server::Locate\<close>: the filled destinations and the 32-bit running size.\<close>

fun read_pieces ::
  "('r, 'm) env \<Rightarrow> ('r, 'm) world \<Rightarrow> DataDistribution list \<Rightarrow> int32 \<Rightarrow> (Data list \<times> int32) res" where
  "read_pieces E w [] total_size = Inr ([], total_size)"
| "read_pieces E w (d # ds) total_size =
     and_then (Io_Read E w (d_storage_index (dd_destination_data d)) (dd_source_data d)
                 (dd_destination_data d)) (\<lambda>dst.
     and_then (read_pieces E w ds (total_size + ucast (d_data_size dst))) (\<lambda>(dsts, total).
       Inr (dst # dsts, total)))"

text \<open>The second loop: the part of each piece from its position on, at the running offset.\<close>

fun join_pieces :: "Data list \<Rightarrow> size_t \<Rightarrow> bytes \<Rightarrow> bytes res" where
  "join_pieces [] start buf = Inr buf"
| "join_pieces (d # ds) start buf =
     (let n = d_data_size d - d_position d in
      case mem_read (unat (d_position d)) (unat n) (old_bytes (d_buffer d)) of
        None \<Rightarrow> Inl Undefined
      | Some piece \<Rightarrow>
          (case memcpy_at (unat start) piece buf of
             None \<Rightarrow> Inl Undefined
           | Some buf' \<Rightarrow> join_pieces ds (start + n) buf'))"

text \<open>A negative total makes \<^verbatim>\<open>malloc\<close> fail, and the copies go through a null pointer.\<close>

definition Server_Locate :: "('r, 'm) env \<Rightarrow> ('r, 'm) world \<Rightarrow> Data \<Rightarrow> Data \<Rightarrow> Data res" where
  "Server_Locate E w source destination =
     and_then (Locate E w source) (\<lambda>(distributions, primary).
     and_then (read_pieces E w distributions 0) (\<lambda>(pieces, total_size).
       if sint total_size < 0 then Inl Undefined
       else and_then (join_pieces pieces 0 (malloc (e_junk E) (nat (sint total_size)))) (\<lambda>buf.
              Inr (destination\<lparr>d_buffer := Some buf\<rparr>))))"

fun size_pieces ::
  "('r, 'm) env \<Rightarrow> ('r, 'm) world \<Rightarrow> DataDistribution list \<Rightarrow> int32 \<Rightarrow> int32 res" where
  "size_pieces E w [] total_size = Inr total_size"
| "size_pieces E w (d # ds) total_size =
     and_then (Io_Size E w (d_storage_index (dd_destination_data d)) (dd_destination_data d)) (\<lambda>n.
       size_pieces E w ds (total_size + ucast n))"

definition Server_Size :: "('r, 'm) env \<Rightarrow> ('r, 'm) world \<Rightarrow> Data \<Rightarrow> size_t res" where
  "Server_Size E w request =
     (case Locate E w request of
        Inl (Thrown e) \<Rightarrow> Inr 0
      | Inl e \<Rightarrow> Inl e
      | Inr (distributions, _) \<Rightarrow>
          and_then (size_pieces E w distributions 0) (\<lambda>total_size. Inr (scast total_size)))"

text \<open>\<^verbatim>\<open>status = status && Remove(...)\<close>: nothing is removed once the status is false.\<close>

fun remove_pieces ::
  "('r, 'm) env \<Rightarrow> ('r, 'm) world \<Rightarrow> DataDistribution list \<Rightarrow> bool \<Rightarrow> bool res \<times> ('r, 'm) world" where
  "remove_pieces E w [] status = (Inr status, w)"
| "remove_pieces E w (d # ds) status =
     (if \<not> status then remove_pieces E w ds False
      else case Io_Remove E w (d_storage_index (dd_destination_data d)) (dd_source_data d) of
             (Inl e, w') \<Rightarrow> (Inl e, w')
           | (Inr removed, w') \<Rightarrow> remove_pieces E w' ds removed)"

definition Server_Delete ::
  "('r, 'm) env \<Rightarrow> ('r, 'm) world \<Rightarrow> Data \<Rightarrow> bool res \<times> ('r, 'm) world" where
  "Server_Delete E w request =
     (case Locate E w request of
        Inl (Thrown e) \<Rightarrow> (Inr False, w)
      | Inl e \<Rightarrow> (Inl e, w)
      | Inr (distributions, _) \<Rightarrow>
          (case remove_pieces E w distributions True of
             (Inl e, w1) \<Rightarrow> (Inl e, w1)
           | (Inr status, w1) \<Rightarrow>
               if status then Orchestrator_Delete E w1 request else (Inr False, w1)))"

section \<open>Client calls\<close>

definition rpc_arg :: "Data \<Rightarrow> Data res" where
  "rpc_arg d = and_then (pack_Data d) (\<lambda>ob. convert_Data ob default_Data)"

definition rpc_result :: "'a res \<Rightarrow> 'a res" where
  "rpc_result r =
     (case r of
        Inl Undefined \<Rightarrow> Inl Undefined
      | Inl (Exit c) \<Rightarrow> Inl (Exit c)
      | Inl _ \<Rightarrow> Inl (Std_Exn ''rpc::rpc_error'')
      | Inr x \<Rightarrow> Inr x)"

text \<open>\<^verbatim>\<open>rand() % NUM_SERVERS\<close> picks the server; with no server it divides by zero.\<close>

definition pick_server :: "int \<Rightarrow> int \<Rightarrow> int res" where
  "pick_server random num_servers =
     (if num_servers = 0 then Inl Undefined else Inr (random mod num_servers))"

definition Client_StoreRequest ::
  "('r, 'm) env \<Rightarrow> ('r, 'm) world \<Rightarrow> int \<Rightarrow> int \<Rightarrow> Data \<Rightarrow> Data \<Rightarrow> int res \<times> ('r, 'm) world" where
  "Client_StoreRequest E w random num_servers source destination =
     (case pick_server random num_servers of
        Inl e \<Rightarrow> (Inl e, w)
      | Inr server \<Rightarrow>
          (case and_then (rpc_arg source) (\<lambda>s. and_then (rpc_arg destination) (\<lambda>d. Inr (s, d))) of
             Inl e \<Rightarrow> (Inl e, w)
           | Inr (s, d) \<Rightarrow>
               (case Server_Store E w s d of (r, w') \<Rightarrow> (rpc_result r, w'))))"

definition Client_LocateRequest ::
  "('r, 'm) env \<Rightarrow> ('r, 'm) world \<Rightarrow> int \<Rightarrow> int \<Rightarrow> Data \<Rightarrow> Data \<Rightarrow> Data res" where
  "Client_LocateRequest E w random num_servers source destination =
     and_then (pick_server random num_servers) (\<lambda>server.
     and_then (rpc_arg source) (\<lambda>s.
     and_then (rpc_arg destination) (\<lambda>d.
     and_then (rpc_result (Server_Locate E w s d)) (\<lambda>located.
     and_then (rpc_arg located) (\<lambda>ret.
       let n = unat (d_data_size ret);
           buf = (case d_buffer destination of None \<Rightarrow> malloc (e_junk E) n | Some b \<Rightarrow> b)
       in case mem_read 0 n (old_bytes (d_buffer ret)) of
            None \<Rightarrow> Inl Undefined
          | Some dat \<Rightarrow>
              (case memcpy_at 0 dat buf of
                 None \<Rightarrow> Inl Undefined
               | Some buf' \<Rightarrow> Inr (destination\<lparr>d_buffer := Some buf'\<rparr>)))))))"

definition Client_Delete ::
  "('r, 'm) env \<Rightarrow> ('r, 'm) world \<Rightarrow> int \<Rightarrow> int \<Rightarrow> Data \<Rightarrow> bool res \<times> ('r, 'm) world" where
  "Client_Delete E w random num_servers request =
     (case and_then (pick_server random num_servers) (\<lambda>server. rpc_arg request) of
        Inl e \<Rightarrow> (Inl e, w)
      | Inr d \<Rightarrow> (case Server_Delete E w d of (r, w') \<Rightarrow> (rpc_result r, w')))"

definition Client_Size ::
  "('r, 'm) env \<Rightarrow> ('r, 'm) world \<Rightarrow> int \<Rightarrow> int \<Rightarrow> Data \<Rightarrow> size_t res" where
  "Client_Size E w random num_servers request =
     and_then (pick_server random num_servers) (\<lambda>server.
     and_then (rpc_arg request) (\<lambda>d. rpc_result (Server_Size E w d)))"

section \<open>The abstract object\<close>

text \<open>
  \<open>stores E w id v n\<close>: the world holds an object \<open>id\<close> with content \<open>v\<close> in one segment. Its
  metadata is published, the segment is the object \<open>id0\<close> of one of the storages, and every
  client is ready for the two keys and for objects of \<open>n\<close> bytes.
\<close>

definition data_key :: "string \<Rightarrow> string" where
  "data_key i = i @ ''0''"

definition meta_key :: "string \<Rightarrow> string" where
  "meta_key i = i @ ''_meta''"

definition stores :: "('r, 'm) env \<Rightarrow> ('r, 'm) world \<Rightarrow> string \<Rightarrow> bytes \<Rightarrow> nat \<Rightarrow> bool" where
  "stores E w i v n \<longleftrightarrow>
     (\<exists>primary link t.
        published E w (meta_key i) primary \<and> wf_Metadata primary \<and>
        m_links primary = [(0, link)] \<and> d_id link = data_key i \<and>
        GetIOClient w (d_storage_index link) = Inr t \<and> client_obj E t w (data_key i) = Some v \<and>
        (\<forall>t'. t' \<noteq> t \<longrightarrow> client_obj E t' w (data_key i) = None)) \<and>
     key_ready E w (meta_key i) n \<and> key_ready E w (data_key i) n"

text \<open>\<open>absent E w id n\<close>: no storage knows the object, and its keys are ready.\<close>

definition absent :: "('r, 'm) env \<Rightarrow> ('r, 'm) world \<Rightarrow> string \<Rightarrow> nat \<Rightarrow> bool" where
  "absent E w i n \<longleftrightarrow>
     (\<forall>ix t. GetIOClient w ix = Inr t \<longrightarrow> client_obj E t w (meta_key i) = None) \<and>
     (\<forall>t. client_obj E t w (data_key i) = None) \<and>
     key_ready E w (meta_key i) n \<and> key_ready E w (data_key i) n"

text \<open>A system that can serve requests: solutions configured, one per type, a real policy.\<close>

definition system_ok :: "('r, 'm) env \<Rightarrow> ('r, 'm) world \<Rightarrow> bool" where
  "system_ok E w \<longleftrightarrow>
     wire_ok E \<and> wf_solutions (sols_of w) \<and> separate (sols_of w) \<and> sols_of w \<noteq> [] \<and>
     DATA_DISTRIBUTION_POLICY (w_conf w) \<noteq> DYNAMIC_PROGRAMMING_POLICY \<and>
     MAX_OBJ_SIZE (w_conf w) \<noteq> 0"

text \<open>The metadata of a new object whose one segment the engine places at \<open>sel\<close>.\<close>

definition fresh_link :: "Data \<Rightarrow> uint16 \<Rightarrow> Data" where
  "fresh_link dst sel =
     dst\<lparr>d_storage_index := sel, d_id := data_key (d_id dst), d_buffer := None, d_position := 0\<rparr>"

definition fresh_meta :: "Data \<Rightarrow> uint16 \<Rightarrow> Metadata" where
  "fresh_meta dst sel = (fresh_primary dst)\<lparr>m_links := [(0, fresh_link dst sel)]\<rparr>"

text \<open>The one piece of an object in one segment, for a request of \<open>m\<close> bytes.\<close>

definition one_piece :: "Data \<Rightarrow> nat \<Rightarrow> DataDistribution" where
  "one_piece link m =
     \<lparr>dd_source_data = link\<lparr>d_position := 0, d_data_size := of_nat m\<rparr>,
      dd_destination_data = link\<lparr>d_position := 0, d_data_size := of_nat m\<rparr>,
      dd_storage_index = d_storage_index link\<rparr>"

section \<open>Lemmas\<close>

lemma meta_id_key: "meta_id d = meta_key (d_id d)"
  by (simp add: meta_id_def meta_key_def)

lemma keys_differ [simp]: "data_key i \<noteq> meta_key j" "meta_key j \<noteq> data_key i"
proof -
  have "last (data_key i) \<noteq> last (meta_key j)" by (simp add: data_key_def meta_key_def)
  then show "data_key i \<noteq> meta_key j" by metis
  then show "meta_key j \<noteq> data_key i" by simp
qed

lemma nat_to_string_0 [simp]: "nat_to_string 0 = ''0''"
  by code_simp

text \<open>The call counters do not matter to the clients.\<close>

lemma counters_Read [simp]: "client_Read E t (w\<lparr>w_rand_calls := c, w_seq_calls := d\<rparr>) = client_Read E t w"
  by (cases t) (simp_all add: fun_eq_iff)

lemma counters_obj [simp]: "client_obj E t (w\<lparr>w_rand_calls := c, w_seq_calls := d\<rparr>) = client_obj E t w"
  by (cases t) simp_all

lemma counters_serve: "serves_like E (w\<lparr>w_rand_calls := c, w_seq_calls := d\<rparr>) w"
proof -
  have "client_up E t (w\<lparr>w_rand_calls := c, w_seq_calls := d\<rparr>) = client_up E t w \<and>
      client_fits t (w\<lparr>w_rand_calls := c, w_seq_calls := d\<rparr>) = client_fits t w" for t
    by (cases t) simp_all
  then show ?thesis by (simp add: serves_like_def)
qed

lemma counters_load [simp]:
  "load_metadata E (w\<lparr>w_rand_calls := c, w_seq_calls := d\<rparr>) = load_metadata E w"
  by (simp add: load_metadata_def Io_Read_def GetIOClient_def fun_eq_iff)

lemma counters_Locate [simp]: "Locate E (w\<lparr>w_rand_calls := c, w_seq_calls := d\<rparr>) = Locate E w"
  by (simp add: Locate_def read_primary_def Let_def fun_eq_iff cong: if_cong)

text \<open>Every policy but dynamic programming places a request on one configured storage.\<close>

lemma Distribute_places:
  assumes "wf_solutions (sols_of w)" "sols_of w \<noteq> []"
    and "DATA_DISTRIBUTION_POLICY (w_conf w) \<noteq> DYNAMIC_PROGRAMMING_POLICY"
  obtains sel c d where
    "Distribute E w src dst = (Inr [place src dst sel], w\<lparr>w_rand_calls := c, w_seq_calls := d\<rparr>)"
    "sel \<in> fst ` set (sols_of w)"
proof -
  let ?n = "length (sols_of w)"
  have n: "0 < ?n" using assms(2) by simp
  have idx: "\<exists>s. map_of (sols_of w) (of_nat i) = Some s \<and> of_nat i \<in> fst ` set (sols_of w)"
    if "i < ?n" for i
    using wf_solutions_lookup [OF assms(1) that] by (metis map_of_SomeD fst_conv imageI)
  have r: "e_rand E (w_rand_calls w) mod ?n < ?n" "unat (e_seq E (w_seq_calls w)) mod ?n < ?n"
    using n by simp_all
  show ?thesis
  proof (cases "DATA_DISTRIBUTION_POLICY (w_conf w)")
    case RANDOM_POLICY
    then show ?thesis
      using idx [OF r(1)] n that [where sel = "of_nat (e_rand E (w_rand_calls w) mod ?n)" and
        c = "Suc (w_rand_calls w)" and d = "w_seq_calls w"]
      by (auto simp: Distribute_def RandomDDE_Distribute_def Let_def touch_solution_def sols_of_def)
  next
    case ROUND_ROBIN_POLICY
    then show ?thesis
      using idx [OF r(2)] n that [where sel = "of_nat (unat (e_seq E (w_seq_calls w)) mod ?n)" and
        c = "w_rand_calls w" and d = "Suc (w_seq_calls w)"]
      by (auto simp: Distribute_def RoundRobinDDE_Distribute_def Let_def touch_solution_def sols_of_def)
  next
    case HEURISTICS_POLICY
    obtain maps where maps: "HeuristicsDDE (sols_of w) [] = Inr maps"
      using HeuristicsDDE_total assms(1) by (metis wf_solutions_def)
    let ?sel = "maps_first maps (heuristic_type (d_data_size dst))"
    have "?sel \<in> fst ` set (sols_of w)"
    proof (cases "map_of maps (heuristic_type (d_data_size dst))")
      case None
      then show ?thesis using idx [OF n] by (simp add: maps_first_def)
    next
      case (Some ix)
      then show ?thesis using HeuristicsDDE_sound [OF maps] by (force simp: maps_first_def)
    qed
    moreover from this have "touch_solution ?sel w = w"
      using map_of_configured touch_solution_id by (metis sols_of_def)
    ultimately show ?thesis
      using maps HEURISTICS_POLICY that [where sel = ?sel and c = "w_rand_calls w" and d = "w_seq_calls w"]
      by (simp add: Distribute_def HeuristicsDDE_Distribute_def Let_def sols_of_def)
  next
    case DYNAMIC_PROGRAMMING_POLICY
    then show ?thesis using assms(3) by simp
  qed
qed

lemma store_fresh_one:
  assumes "d_position dst = 0"
  shows "store_fresh M [place src dst sel] (fresh_primary dst) =
    ([(place src dst sel)\<lparr>dd_destination_data :=
        dst\<lparr>d_storage_index := sel, d_position := 0, d_id := data_key (d_id dst)\<rparr>\<rparr>], fresh_meta dst sel)"
  using assms
  by (simp add: place_def fresh_primary_def fresh_meta_def fresh_link_def links_insert_def data_key_def
      Let_def)

text \<open>Only the two keys of an object are touched.\<close>

definition untouched :: "('r, 'm) env \<Rightarrow> string \<Rightarrow> ('r, 'm) world \<Rightarrow> ('r, 'm) world \<Rightarrow> bool" where
  "untouched E i w' w \<longleftrightarrow>
     (\<forall>t k. k \<noteq> meta_key i \<longrightarrow> k \<noteq> data_key i \<longrightarrow> client_obj E t w' k = client_obj E t w k)"

lemma untouched_refl [simp]: "untouched E i w w"
  by (simp add: untouched_def)

text \<open>What the clients hold under one key decides what is published there.\<close>

lemma holds_bytes_frame:
  assumes "serves_like E w' w" "\<And>t. client_obj E t w' k = client_obj E t w k"
  shows "holds_bytes E w' ix k s = holds_bytes E w ix k s"
  using assms serves_like_GetIOClient [OF assms(1)] by (simp add: holds_bytes_def)

lemma published_frame:
  assumes "serves_like E w' w" "\<And>t. client_obj E t w' k = client_obj E t w k"
  shows "published E w' k primary = published E w k primary"
  using holds_bytes_frame [OF assms] serves_like_sols [OF assms(1)] by (simp add: published_def)

lemma key_ready_frame:
  assumes "serves_like E w' w" "\<And>t. client_obj E t w' k = client_obj E t w k"
  shows "key_ready E w' k n = key_ready E w k n"
  using assms serves_like_GetIOClient [OF assms(1)] by (simp add: key_ready_def serves_like_def)

lemma stores_meta_frame:
  assumes "serves_like E w' w" "\<And>t. client_obj E t w' (meta_key i) = client_obj E t w (meta_key i)"
    and "published E w (meta_key i) primary" "wf_Metadata primary" "m_links primary = [(0, link)]"
    and "d_id link = data_key i" "GetIOClient w (d_storage_index link) = Inr t"
    and "client_obj E t w' (data_key i) = Some v"
    and "\<And>t'. t' \<noteq> t \<Longrightarrow> client_obj E t' w' (data_key i) = None"
    and "key_ready E w (meta_key i) n" "key_ready E w' (data_key i) n"
  shows "stores E w' i v n"
  using assms published_frame [OF assms(1,2)] key_ready_frame [OF assms(1,2)]
    serves_like_GetIOClient [OF assms(1)]
  unfolding stores_def by metis

text \<open>Writing a whole object under a ready key, and the frame of the write.\<close>

lemma Io_Write_data:
  assumes "GetIOClient w ix = Inr t" "key_ready E w (d_id dst) n" "whole src b" "length b \<le> n"
    and "d_position dst = 0"
  obtains w' where "Io_Write E w ix src dst = (Inr src, w')" "serves_like E w' w"
    "client_obj E t w' (d_id dst) = Some (overlay 0 b (old_bytes (client_obj E t w (d_id dst))))"
    "key_ready E w' (d_id dst) n"
    "\<And>t' k'. k' \<noteq> d_id dst \<Longrightarrow> client_obj E t' w' k' = client_obj E t' w k'"
    "\<And>t'. t' \<noteq> t \<Longrightarrow> client_obj E t' w' = client_obj E t' w"
proof -
  let ?k = "d_id dst" and ?old = "old_bytes (client_obj E t w (d_id dst))"
  have ready: "client_up E t w ?k" "client_fits t w n" "client_fits t w (length ?old)"
    using assms(1,2) by (auto simp: key_ready_def)
  have fits_b: "client_fits t w (length b)" using client_store.fits_mono [OF ready(2) assms(4)] .
  obtain w' where w': "Io_Write E w ix src dst = (Inr src, w')" "serves_like E w' w"
    and obj: "client_obj E t w' = (client_obj E t w)(?k \<mapsto> overlay 0 b ?old)"
    and other: "\<And>t'. t' \<noteq> t \<Longrightarrow> client_obj E t' w' = client_obj E t' w"
    by (rule Io_Write_whole [OF assms(1) ready(1) assms(3,5) fits_b ready(3)]) blast
  have "client_fits t w' (length (old_bytes (client_obj E t w' ?k)))"
    using ready(3) fits_b obj w'(2) by (simp add: length_overlay max_def serves_like_def)
  then have "key_ready E w' ?k n"
    using assms(2) other w'(2) serves_like_GetIOClient [OF w'(2)]
    unfolding key_ready_def serves_like_def by metis
  moreover have "client_obj E t' w' k' = client_obj E t' w k'" if "k' \<noteq> ?k" for t' k'
    using obj other [of t'] that by (cases "t' = t") simp_all
  ultimately show ?thesis using that w' obj other by simp
qed

text \<open>Creating an object.\<close>

lemma Server_Store_publishes:
  assumes "system_ok E w" "whole src b" "d_position dst = 0" "length b \<le> n"
    and "d_storage_index dst \<in> fst ` set (sols_of w)" "Locate E w dst = Inl (Thrown e)"
    and "\<And>t. client_obj E t w (data_key (d_id dst)) = None"
    and "key_ready E w (meta_key (d_id dst)) n" "key_ready E w (data_key (d_id dst)) n"
    and "\<And>sel. sel \<in> fst ` set (sols_of w) \<Longrightarrow>
      packs_within E (meta_key (d_id dst)) (fresh_meta dst sel) n"
  shows "\<exists>w'. Server_Store E w src dst = (Inr (uint (SERVER_COUNT (w_conf w))), w') \<and>
    serves_like E w' w \<and> stores E w' (d_id dst) b n \<and> untouched E (d_id dst) w' w \<and>
    (\<exists>sel \<in> fst ` set (sols_of w). published E w' (meta_key (d_id dst)) (fresh_meta dst sel) \<and>
       fst (Distribute E w src dst) = Inr [place src dst sel] \<and>
       (\<exists>t. GetIOClient w sel = Inr t \<and> client_obj E t w' (data_key (d_id dst)) = Some b))"
proof -
  let ?i = "d_id dst" and ?M = "MAX_OBJ_SIZE (w_conf w)"
  have sys: "wire_ok E" "wf_solutions (sols_of w)" "separate (sols_of w)" "sols_of w \<noteq> []"
    "DATA_DISTRIBUTION_POLICY (w_conf w) \<noteq> DYNAMIC_PROGRAMMING_POLICY" "?M \<noteq> 0"
    using assms(1) by (simp_all add: system_ok_def)
  obtain sel c d where dist: "Distribute E w src dst =
      (Inr [place src dst sel], w\<lparr>w_rand_calls := c, w_seq_calls := d\<rparr>)"
    and sel: "sel \<in> fst ` set (sols_of w)"
    by (rule Distribute_places [OF sys(2,4,5), of E src dst])
  define w1 where "w1 = w\<lparr>w_rand_calls := c, w_seq_calls := d\<rparr>"
  have like1: "serves_like E w1 w" and obj1: "\<And>t. client_obj E t w1 = client_obj E t w"
    by (simp_all add: w1_def counters_serve)
  have sols1: "sols_of w1 = sols_of w" and conf1: "w_conf w1 = w_conf w"
    using serves_like_sols [OF like1] by (simp_all add: w1_def)
  let ?dst' = "dst\<lparr>d_storage_index := sel, d_position := 0, d_id := data_key ?i\<rparr>"
  have ready1: "key_ready E w1 (meta_id dst) n" "key_ready E w1 (data_key ?i) n"
    using key_ready_frame [OF like1] obj1 assms(8,9) by (simp_all add: meta_id_key)
  obtain w2 where store: "Orchestrator_Store E w1 dst [place src dst sel] =
      (Inr [(place src dst sel)\<lparr>dd_destination_data := ?dst'\<rparr>], w2)"
    and like2: "serves_like E w2 w1" and ready2: "key_ready E w2 (meta_key ?i) n"
    and pub: "published E w2 (meta_key ?i) (fresh_meta dst sel)"
    and keys2: "\<forall>t k'. k' \<noteq> meta_key ?i \<longrightarrow> client_obj E t w2 k' = client_obj E t w1 k'"
    using Orchestrator_Store_fresh [of E w1 dst e "[place src dst sel]" _ "fresh_meta dst sel" n]
      sys sols1 conf1 assms(5,6) assms(10) [OF sel] ready1(1) store_fresh_one [OF assms(3)]
    by (auto simp: w1_def meta_id_key)
  have like20: "serves_like E w2 w" using serves_like_trans [OF like2 like1] .
  have get2: "GetIOClient w2 = GetIOClient w" using like20 by (rule serves_like_GetIOClient)
  obtain t where t: "GetIOClient w2 sel = Inr t"
    using GetIOClient_configured [OF sys(2) sel] get2 by auto
  have data2: "client_obj E t' w2 (data_key ?i) = None" for t'
    using keys2 obj1 assms(7) by simp
  have "key_ready E w2 (d_id ?dst') n"
    using key_ready_frame [OF like2] keys2 ready1(2) by simp
  then obtain w3 where w3: "Io_Write E w2 sel src ?dst' = (Inr src, w3)"
    and like3: "serves_like E w3 w2" and obj3: "client_obj E t w3 (data_key ?i) = Some b"
    and ready3: "key_ready E w3 (data_key ?i) n"
    and keys3: "\<And>t' k'. k' \<noteq> data_key ?i \<Longrightarrow> client_obj E t' w3 k' = client_obj E t' w2 k'"
    and other3: "\<And>t'. t' \<noteq> t \<Longrightarrow> client_obj E t' w3 = client_obj E t' w2"
    by (rule Io_Write_data [OF t _ assms(2,4)]) (simp_all add: data2 overlay_0)
  have none3: "client_obj E t' w3 (data_key ?i) = None" if "t' \<noteq> t" for t'
    using other3 [OF that] data2 by simp
  have "stores E w3 ?i b n"
  proof (rule stores_meta_frame [OF like3 _ pub, where link = "fresh_link dst sel"])
    show "wf_Metadata (fresh_meta dst sel)"
      by (simp add: fresh_meta_def fresh_primary_def fresh_link_def wf_Metadata_def wf_Data_def)
  qed (use keys3 none3 t obj3 ready2 ready3 in \<open>simp_all add: fresh_meta_def fresh_link_def\<close>)
  moreover have "serves_like E w3 w" using serves_like_trans [OF like3 like20] .
  moreover have "Server_Store E w src dst = (Inr (uint (SERVER_COUNT (w_conf w))), w3)"
    using dist store w3 calculation(2)
    by (simp add: Server_Store_def w1_def [symmetric] place_def serves_like_def)
  moreover have "untouched E ?i w3 w" using keys3 keys2 obj1 by (simp add: untouched_def)
  moreover have "published E w3 (meta_key ?i) (fresh_meta dst sel)"
    using pub published_frame [OF like3] keys3 by simp
  ultimately show ?thesis using sel dist t get2 obj3 by (metis fst_conv)
qed

lemma Server_Store_creates:
  assumes "system_ok E w" "whole src b" "d_position dst = 0" "length b \<le> n"
    and "d_storage_index dst \<in> fst ` set (sols_of w)" "Locate E w dst = Inl (Thrown e)"
    and "\<And>t. client_obj E t w (data_key (d_id dst)) = None"
    and "key_ready E w (meta_key (d_id dst)) n" "key_ready E w (data_key (d_id dst)) n"
    and "\<And>sel. sel \<in> fst ` set (sols_of w) \<Longrightarrow>
      packs_within E (meta_key (d_id dst)) (fresh_meta dst sel) n"
  shows "\<exists>w'. Server_Store E w src dst = (Inr (uint (SERVER_COUNT (w_conf w))), w') \<and>
    serves_like E w' w \<and> stores E w' (d_id dst) b n \<and> untouched E (d_id dst) w' w"
  using Server_Store_publishes [OF assms] by blast

text \<open>Locating a stored object gives its one piece, from any configured storage.\<close>

lemma segment_request_one:
  assumes "M \<noteq> 0" "m_links primary = [(0, link)]" "d_position req = 0"
    and "d_data_size req = of_nat m" "of_nat m \<le> M"
  shows "segment_request M req primary = Inr [one_piece link m]"
proof -
  have arr: "link_array (m_links primary) = Some [link]"
    by (simp add: link_array_def assms(2) links_at_def)
  have sz: "M = of_nat m" if "\<not> of_nat m < M"
    using assms(5) that by simp
  have "locate_loop M g e [link] (Suc 0) so sl dp = []" for g e so sl dp
    by (subst locate_loop.simps) simp
  then have "locate_loop M (of_nat m = (0 :: size_t)) e [link] 0 0 (of_nat m) 0 = [one_piece link m]" for e
    using sz assms(1) by (subst locate_loop.simps) (simp add: Let_def one_piece_def word_gt_0)
  then show ?thesis
    using assms(1,3,4) arr by (simp add: segment_request_def Let_def)
qed

lemma stores_Locate:
  assumes "system_ok E w" "d_storage_index req \<in> fst ` set (sols_of w)" "d_position req = 0"
    and "stores E w (d_id req) v n"
    and "d_data_size req = of_nat m" "of_nat m \<le> MAX_OBJ_SIZE (w_conf w)"
  obtains primary link t where "Locate E w req = Inr ([one_piece link m], primary)"
    "published E w (meta_key (d_id req)) primary" "wf_Metadata primary" "m_links primary = [(0, link)]"
    "d_id link = data_key (d_id req)" "GetIOClient w (d_storage_index link) = Inr t"
    "client_obj E t w (data_key (d_id req)) = Some v"
    "\<And>t'. t' \<noteq> t \<Longrightarrow> client_obj E t' w (data_key (d_id req)) = None"
    "client_up E t w (data_key (d_id req))" "client_fits t w (length v)"
proof -
  let ?i = "d_id req"
  obtain primary link t where pub: "published E w (meta_key ?i) primary" "wf_Metadata primary"
    and links: "m_links primary = [(0, link)]" "d_id link = data_key ?i"
    and t: "GetIOClient w (d_storage_index link) = Inr t" "client_obj E t w (data_key ?i) = Some v"
    and none: "\<And>t'. t' \<noteq> t \<Longrightarrow> client_obj E t' w (data_key ?i) = None"
    and ready: "key_ready E w (meta_key ?i) n" "key_ready E w (data_key ?i) n"
    using assms(4) unfolding stores_def by blast
  have "read_primary E w req = Inr primary"
    using published_read [of E primary w req n] assms(1,2) pub ready
    by (simp add: system_ok_def meta_id_key)
  moreover have "segment_request (MAX_OBJ_SIZE (w_conf w)) req primary = Inr [one_piece link m]"
    using segment_request_one assms(1,3,5,6) links(1) by (simp add: system_ok_def)
  ultimately have "Locate E w req = Inr ([one_piece link m], primary)"
    by (simp add: Locate_def)
  moreover have "client_up E t w (data_key ?i)" "client_fits t w (length v)"
    using ready(2) t unfolding key_ready_def by fastforce+
  ultimately show ?thesis using that pub links t none by blast
qed

text \<open>Overwriting the front of a stored object: wherever the engine would place the data.\<close>

lemma Server_Store_updates:
  assumes "system_ok E w" "whole src b" "d_position dst = 0" "length b \<le> n"
    and "d_storage_index dst \<in> fst ` set (sols_of w)" "stores E w (d_id dst) v n"
    and "d_data_size dst \<le> MAX_OBJ_SIZE (w_conf w)"
  shows "\<exists>w'. Server_Store E w src dst = (Inr (uint (SERVER_COUNT (w_conf w))), w') \<and>
    serves_like E w' w \<and> stores E w' (d_id dst) (overlay 0 b v) n \<and> untouched E (d_id dst) w' w"
proof -
  let ?i = "d_id dst" and ?M = "MAX_OBJ_SIZE (w_conf w)"
  have sys: "wf_solutions (sols_of w)" "sols_of w \<noteq> []"
    "DATA_DISTRIBUTION_POLICY (w_conf w) \<noteq> DYNAMIC_PROGRAMMING_POLICY" "?M \<noteq> 0"
    using assms(1) by (simp_all add: system_ok_def)
  obtain sel c d where dist: "Distribute E w src dst =
      (Inr [place src dst sel], w\<lparr>w_rand_calls := c, w_seq_calls := d\<rparr>)"
    by (rule Distribute_places [OF sys(1-3), of E src dst])
  define w1 where "w1 = w\<lparr>w_rand_calls := c, w_seq_calls := d\<rparr>"
  have like1: "serves_like E w1 w" and obj1: "\<And>t. client_obj E t w1 = client_obj E t w"
    by (simp_all add: w1_def counters_serve)
  obtain primary link t where loc: "Locate E w dst = Inr ([one_piece link (unat (d_data_size dst))], primary)"
    and pub: "published E w (meta_key ?i) primary" "wf_Metadata primary"
    and links: "m_links primary = [(0, link)]" "d_id link = data_key ?i"
    and t: "GetIOClient w (d_storage_index link) = Inr t" "client_obj E t w (data_key ?i) = Some v"
    and none: "\<And>t'. t' \<noteq> t \<Longrightarrow> client_obj E t' w (data_key ?i) = None"
    by (rule stores_Locate [OF assms(1,5,3,6), of "unat (d_data_size dst)"]) (use assms(7) in simp_all)
  let ?dst' = "dst\<lparr>d_storage_index := d_storage_index link, d_id := data_key ?i, d_position := 0\<rparr>"
  have store: "Orchestrator_Store E w1 dst [place src dst sel] =
      (Inr [(place src dst sel)\<lparr>dd_destination_data := ?dst'\<rparr>], w1)"
    using loc links assms(3)
    by (simp add: Orchestrator_Store_def w1_def place_def Let_def)
  have ready: "key_ready E w (meta_key ?i) n" "key_ready E w1 (d_id ?dst') n"
    using assms(6) key_ready_frame [OF like1] obj1 by (simp_all add: stores_def)
  have t1: "GetIOClient w1 (d_storage_index link) = Inr t"
    using t(1) serves_like_GetIOClient [OF like1] by simp
  from ready(2) obtain w2 where w2: "Io_Write E w1 (d_storage_index link) src ?dst' = (Inr src, w2)"
    and like2: "serves_like E w2 w1"
    and obj2: "client_obj E t w2 (data_key ?i) = Some (overlay 0 b v)"
    and ready2: "key_ready E w2 (data_key ?i) n"
    and keys2: "\<And>t' k'. k' \<noteq> data_key ?i \<Longrightarrow> client_obj E t' w2 k' = client_obj E t' w1 k'"
    and other2: "\<And>t'. t' \<noteq> t \<Longrightarrow> client_obj E t' w2 = client_obj E t' w1"
    by (rule Io_Write_data [OF t1 _ assms(2,4)]) (simp_all add: obj1 t(2))
  have like: "serves_like E w2 w" using serves_like_trans [OF like2 like1] .
  have "stores E w2 ?i (overlay 0 b v) n"
    by (rule stores_meta_frame [OF like _ pub links t(1) obj2 _ ready(1) ready2])
      (simp_all add: keys2 obj1 other2 none)
  moreover have "Server_Store E w src dst = (Inr (uint (SERVER_COUNT (w_conf w))), w2)"
    using dist store w2 like
    by (simp add: Server_Store_def w1_def [symmetric] place_def serves_like_def)
  moreover have "untouched E ?i w2 w" using keys2 obj1 by (simp add: untouched_def)
  ultimately show ?thesis using like by blast
qed

text \<open>Reading a stored object back, whole or by a prefix.\<close>

lemma Server_Locate_reads:
  assumes "system_ok E w" "d_storage_index req \<in> fst ` set (sols_of w)" "d_position req = 0"
    and "stores E w (d_id req) v n" "length v < 2 ^ 31"
    and "d_data_size req = of_nat m" "m \<le> length v" "of_nat m \<le> MAX_OBJ_SIZE (w_conf w)"
  shows "Server_Locate E w req dst =
    Inr (dst\<lparr>d_buffer := Some (if m = 0 then v else take m v)\<rparr>)"
proof -
  obtain primary link t where loc: "Locate E w req = Inr ([one_piece link m], primary)"
    and link: "d_id link = data_key (d_id req)"
    and t: "GetIOClient w (d_storage_index link) = Inr t" "client_obj E t w (data_key (d_id req)) = Some v"
    and ready: "client_up E t w (data_key (d_id req))" "client_fits t w (length v)"
    by (rule stores_Locate [OF assms(1-4,6,8)]) blast
  let ?piece = "link\<lparr>d_position := 0, d_data_size := of_nat m\<rparr>"
  define r where "r = (if m = 0 then v else take m v)"
  have len: "length r < 2 ^ 31" "unat (of_nat (length r) :: size_t) = length r"
    using assms(5) by (auto simp: r_def size_fits)
  have "client_Read E t w ?piece ?piece =
      Inr (?piece\<lparr>d_buffer := Some r, d_data_size := of_nat (length r)\<rparr>)"
  proof (cases "m = 0")
    case True
    then show ?thesis
      using client_store.rd_whole [of E t w ?piece v ?piece] ready t(2) link by (simp add: r_def)
  next
    case False
    then show ?thesis
      using client_store.rd_prefix [of E t w ?piece v m ?piece] ready t(2) link assms(7)
      by (simp add: r_def)
  qed
  then have "read_pieces E w [one_piece link m] 0 =
      Inr ([?piece\<lparr>d_buffer := Some r, d_data_size := of_nat (length r)\<rparr>], ucast (of_nat (length r) :: size_t))"
    using t(1) by (simp add: one_piece_def Io_Read_def)
  moreover have "join_pieces [?piece\<lparr>d_buffer := Some r, d_data_size := of_nat (length r)\<rparr>] 0
      (malloc (e_junk E) (length r)) = Inr r"
    using len by (simp add: mem_read_Some memcpy_at_full Let_def)
  ultimately show ?thesis
    using loc sint_narrow_size [OF len(1)] by (simp add: Server_Locate_def r_def)
qed

text \<open>The size of a stored object.\<close>

lemma Server_Size_length:
  assumes "system_ok E w" "d_storage_index req \<in> fst ` set (sols_of w)" "d_position req = 0"
    and "stores E w (d_id req) v n" "length v < 2 ^ 31"
    and "d_data_size req \<le> MAX_OBJ_SIZE (w_conf w)"
  shows "Server_Size E w req = Inr (of_nat (length v))"
proof -
  let ?m = "unat (d_data_size req)"
  obtain primary link t where loc: "Locate E w req = Inr ([one_piece link ?m], primary)"
    and link: "d_id link = data_key (d_id req)"
    and t: "GetIOClient w (d_storage_index link) = Inr t" "client_obj E t w (data_key (d_id req)) = Some v"
    and ready: "client_up E t w (data_key (d_id req))" "client_fits t w (length v)"
    by (rule stores_Locate [OF assms(1-4), of ?m]) (use assms(6) in simp_all)
  let ?piece = "link\<lparr>d_position := 0, d_data_size := of_nat ?m\<rparr>"
  have "client_Size E t w ?piece = Inr (of_nat (length v))"
    using client_store.sz_length [of E t w ?piece] ready t(2) link by simp
  then have "size_pieces E w [one_piece link ?m] 0 = Inr (ucast (of_nat (length v) :: size_t))"
    using t(1) by (simp add: one_piece_def Io_Size_def)
  moreover have "scast (ucast (of_nat (length v) :: size_t) :: int32) = (of_nat (length v) :: size_t)"
    using sint_narrow_size [OF assms(5)] by (metis of_int_of_nat_eq of_int_sint)
  ultimately show ?thesis using loc by (simp add: Server_Size_def)
qed

text \<open>Removing the one piece of an object.\<close>

lemma remove_data:
  assumes "GetIOClient w ix = Inr t" "client_up E t w (d_id d)"
  obtains w' where "Io_Remove E w ix d = (Inr True, w')" "serves_like E w' w"
    "client_obj E t w' = (client_obj E t w)(d_id d := None)"
    "\<And>t'. t' \<noteq> t \<Longrightarrow> client_obj E t' w' = client_obj E t' w"
proof -
  obtain w' where w': "client_Remove E t w d = (Inr True, w')"
    and obj: "client_obj E t w' = (client_obj E t w)(d_id d := None)"
    and frame: "client_up E t w' = client_up E t w" "client_fits t w' = client_fits t w"
    using client_store.rm_gone [of E t w d] assms(2) by auto
  have other: "client_obj E t' w' = client_obj E t' w \<and> client_up E t' w' = client_up E t' w \<and>
      client_fits t' w' = client_fits t' w" if "t' \<noteq> t" for t'
    using client_Remove_frame [OF _ w'] that by auto
  have "w_conf w' = w_conf w" using w' by (metis client_Remove_conf snd_conv)
  then have "serves_like E w' w" unfolding serves_like_def using frame other by metis
  then show ?thesis using that w' obj other assms(1) by (simp add: Io_Remove_def)
qed

text \<open>A ready key stays ready when objects under it only disappear.\<close>

lemma key_ready_shrink:
  assumes "serves_like E w' w" "key_ready E w k n"
    and "\<And>t. client_obj E t w' k = None \<or> client_obj E t w' k = client_obj E t w k"
  shows "key_ready E w' k n"
  unfolding key_ready_def
proof (intro allI impI)
  fix ix t
  assume "GetIOClient w' ix = Inr t"
  then have "GetIOClient w ix = Inr t" using serves_like_GetIOClient [OF assms(1)] by simp
  then have ready: "client_up E t w k" "client_fits t w n"
    "client_fits t w (length (old_bytes (client_obj E t w k)))"
    using assms(2) by (auto simp: key_ready_def)
  have "client_fits t w 0" using client_store.fits_mono [OF ready(2)] by simp
  then have "client_fits t w (length (old_bytes (client_obj E t w' k)))"
    using assms(3) [of t] ready(3) by auto
  then show "client_up E t w' k \<and> client_fits t w' n \<and>
      client_fits t w' (length (old_bytes (client_obj E t w' k)))"
    using ready assms(1) by (simp add: serves_like_def)
qed

text \<open>Deleting a stored object leaves it absent.\<close>

lemma metadata_deleted:
  assumes "wf_solutions (sols_of w)" "key_ready E w k n"
  obtains w' where "delete_metadata E w k (sols_of w) = (Inr True, w')" "serves_like E w' w" "key_ready E w' k n"
    "\<And>ix t. GetIOClient w' ix = Inr t \<Longrightarrow> client_obj E t w' k = None"
    "\<And>t k'. k' \<noteq> k \<Longrightarrow> client_obj E t w' k' = client_obj E t w k'"
proof -
  have up: "\<exists>t. GetIOClient w ix = Inr t \<and> client_up E t w k" if "ix \<in> fst ` set (sols_of w)" for ix
    using GetIOClient_configured [OF assms(1) that] assms(2) by (auto simp: key_ready_def)
  obtain w' where w': "delete_metadata E w k (sols_of w) = (Inr True, w')" and like: "serves_like E w' w"
    and gone: "\<forall>ix s t. (ix, s) \<in> set (sols_of w) \<longrightarrow> GetIOClient w ix = Inr t \<longrightarrow> client_obj E t w' k = None"
    and kept: "\<forall>t k'. client_obj E t w' k' = None \<and> k' = k \<or> client_obj E t w' k' = client_obj E t w k'"
    using delete_metadata_gone [of "sols_of w" w E k, OF up] by blast
  have "client_obj E t w' k = None" if "GetIOClient w' ix = Inr t" for ix t
  proof -
    have ix: "GetIOClient w ix = Inr t" using that serves_like_GetIOClient [OF like] by simp
    then have "(ix, the (map_of (sols_of w) ix)) \<in> set (sols_of w)"
      by (auto simp: GetIOClient_def sols_of_def split: option.splits dest: map_of_SomeD)
    then show ?thesis using gone ix by metis
  qed
  moreover have "key_ready E w' k n" by (rule key_ready_shrink [OF like assms(2)]) (use kept in blast)
  moreover have "client_obj E t w' k' = client_obj E t w k'" if "k' \<noteq> k" for t k' using kept that by blast
  ultimately show ?thesis using that w' like by blast
qed

lemma Server_Delete_removes:
  assumes "system_ok E w" "d_storage_index req \<in> fst ` set (sols_of w)" "d_position req = 0"
    and "stores E w (d_id req) v n" "d_data_size req \<le> MAX_OBJ_SIZE (w_conf w)"
  shows "\<exists>w'. Server_Delete E w req = (Inr True, w') \<and> serves_like E w' w \<and>
    absent E w' (d_id req) n \<and> untouched E (d_id req) w' w"
proof -
  let ?i = "d_id req" and ?m = "unat (d_data_size req)"
  obtain primary link t where loc: "Locate E w req = Inr ([one_piece link ?m], primary)"
    and link: "d_id link = data_key ?i"
    and t: "GetIOClient w (d_storage_index link) = Inr t"
    and none: "\<And>t'. t' \<noteq> t \<Longrightarrow> client_obj E t' w (data_key ?i) = None"
    and up: "client_up E t w (data_key ?i)"
    by (rule stores_Locate [OF assms(1-4), of ?m]) (use assms(5) in simp_all)
  let ?piece = "link\<lparr>d_position := 0, d_data_size := of_nat ?m\<rparr>"
  have "client_up E t w (d_id ?piece)" using up link by simp
  from remove_data [OF t this] obtain w1
    where w1: "Io_Remove E w (d_storage_index link) ?piece = (Inr True, w1)"
    and like1: "serves_like E w1 w"
    and obj1: "client_obj E t w1 = (client_obj E t w)(data_key ?i := None)"
    and other1: "\<And>t'. t' \<noteq> t \<Longrightarrow> client_obj E t' w1 = client_obj E t' w"
    using link by auto
  have keys1: "client_obj E t' w1 k = client_obj E t' w k" if "k \<noteq> data_key ?i" for t' k
    using obj1 other1 that by (cases "t' = t") simp_all
  have data1: "client_obj E t' w1 (data_key ?i) = None" for t'
    using obj1 other1 none by (cases "t' = t") simp_all
  have ready: "key_ready E w (meta_key ?i) n" "key_ready E w (data_key ?i) n"
    using assms(4) by (simp_all add: stores_def)
  have sols1: "sols_of w1 = sols_of w" using like1 by (rule serves_like_sols)
  have wf: "wf_solutions (sols_of w1)" using assms(1) sols1 by (simp add: system_ok_def)
  have ready1: "key_ready E w1 (meta_key ?i) n" using key_ready_frame [OF like1] keys1 ready(1) by simp
  obtain w' where w': "delete_metadata E w1 (meta_key ?i) (sols_of w1) = (Inr True, w')" "serves_like E w' w1"
    "key_ready E w' (meta_key ?i) n" "\<And>ix t. GetIOClient w' ix = Inr t \<Longrightarrow> client_obj E t w' (meta_key ?i) = None"
    "\<And>t k. k \<noteq> meta_key ?i \<Longrightarrow> client_obj E t w' k = client_obj E t w1 k"
    by (rule metadata_deleted [OF wf ready1]) blast
  have like: "serves_like E w' w" using serves_like_trans [OF w'(2) like1] .
  have data: "client_obj E t' w' (data_key ?i) = None" for t' using w'(5) data1 by simp
  have "key_ready E w' (data_key ?i) n" by (rule key_ready_shrink [OF like ready(2)]) (simp add: data)
  then have "absent E w' ?i n" using data w'(3,4) by (simp add: absent_def)
  moreover have "Server_Delete E w req = (Inr True, w')"
    using loc w1 w'(1) sols1
    by (simp add: Server_Delete_def one_piece_def Orchestrator_Delete_def meta_id_key sols_of_def)
  moreover have "untouched E ?i w' w" using w'(5) keys1 by (simp add: untouched_def)
  ultimately show ?thesis using like by blast
qed

text \<open>Without metadata every request fails with an error of the table, and sizes are 0.\<close>

lemma Locate_absent:
  assumes "GetIOClient w (d_storage_index req) = Inr t" "client_up E t w (meta_key (d_id req))"
    and "client_obj E t w (meta_key (d_id req)) = None"
  shows "\<exists>e. Locate E w req = Inl (Thrown e)"
proof -
  let ?probe = "default_Data\<lparr>d_id := meta_id req, d_storage_index := d_storage_index req\<rparr>"
  obtain e where "client_Read E t w ?probe ?probe = Inl (Thrown e)"
    using client_store.rd_absent [of E t w ?probe] assms(2,3) by (auto simp: meta_id_key)
  then show ?thesis
    using assms(1) by (simp add: Locate_def read_primary_def load_metadata_def Io_Read_def)
qed

lemma absent_Locate:
  assumes "system_ok E w" "d_storage_index req \<in> fst ` set (sols_of w)" "absent E w (d_id req) n"
  obtains e where "Locate E w req = Inl (Thrown e)"
proof -
  have "wf_solutions (sols_of w)" using assms(1) by (simp add: system_ok_def)
  then obtain t where t: "GetIOClient w (d_storage_index req) = Inr t"
    using GetIOClient_configured assms(2) by blast
  have "client_up E t w (meta_key (d_id req))" "client_obj E t w (meta_key (d_id req)) = None"
    using assms(3) t by (auto simp: absent_def key_ready_def)
  then show ?thesis using Locate_absent [OF t] that by blast
qed

end
