(* ===== verification/Wire_Reference.thy ===== *)
theory Wire_Reference
  imports Server
begin

text \<open>
  A concrete environment for the witnesses: a self-delimiting encoding of MessagePack
  objects with the two laws of \<open>wire_ok\<close> (at least one byte; extra bytes after an object are
  ignored), a Redis server that is a map, a MongoDB collection that is a list of documents.
  It stands for the packages the sources call and shows that the requirements of the
  theorems can be met together; it is not the wire format of those packages.
\<close>

section \<open>A self-delimiting encoding\<close>

fun ref_pack :: "msgpack \<Rightarrow> bytes" where
  "ref_pack (MBool b) = (if b then ''T'' else ''F'')"
| "ref_pack (MInt i) = CHR ''I'' # int_to_string i @ '';''"
| "ref_pack (MStr s) = CHR ''S'' # nat_to_string (length s) @ CHR '';'' # s"
| "ref_pack (MArray xs) = CHR ''A'' # concat (map (\<lambda>x. CHR '','' # ref_pack x) xs) @ '';''"
| "ref_pack (MMap ps) =
     CHR ''M'' # concat (map (\<lambda>(a, b). CHR '','' # ref_pack a @ ref_pack b) ps) @ '';''"

text \<open>The text up to the next semicolon and what follows it.\<close>

definition field :: "bytes \<Rightarrow> bytes \<times> bytes" where
  "field s = (takeWhile (\<lambda>c. c \<noteq> CHR '';'') s, drop 1 (dropWhile (\<lambda>c. c \<noteq> CHR '';'') s))"

fun ref_parse :: "nat \<Rightarrow> bytes \<Rightarrow> (msgpack \<times> bytes) option"
  and ref_parse_seq :: "nat \<Rightarrow> bytes \<Rightarrow> (msgpack list \<times> bytes) option"
  and ref_parse_map :: "nat \<Rightarrow> bytes \<Rightarrow> ((msgpack \<times> msgpack) list \<times> bytes) option" where
  "ref_parse (Suc f) (c # s) =
     (if c = CHR ''T'' then Some (MBool True, s)
      else if c = CHR ''F'' then Some (MBool False, s)
      else if c = CHR ''I'' \<and> CHR '';'' \<in> set s then Some (MInt (decimal_prefix (fst (field s))), snd (field s))
      else if c = CHR ''S'' \<and> CHR '';'' \<in> set s
      then (let n = nat (decimal_prefix (fst (field s))); r = snd (field s)
            in if n \<le> length r then Some (MStr (take n r), drop n r) else None)
      else if c = CHR ''A''
      then (case ref_parse_seq f s of None \<Rightarrow> None | Some (xs, r) \<Rightarrow> Some (MArray xs, r))
      else if c = CHR ''M''
      then (case ref_parse_map f s of None \<Rightarrow> None | Some (ps, r) \<Rightarrow> Some (MMap ps, r))
      else None)"
| "ref_parse _ _ = None"
| "ref_parse_seq (Suc f) (c # s) =
     (if c = CHR '';'' then Some ([], s)
      else case ref_parse f s of
             None \<Rightarrow> None
           | Some (x, r) \<Rightarrow>
               (case ref_parse_seq f r of None \<Rightarrow> None | Some (xs, r') \<Rightarrow> Some (x # xs, r')))"
| "ref_parse_seq _ _ = None"
| "ref_parse_map (Suc f) (c # s) =
     (if c = CHR '';'' then Some ([], s)
      else case ref_parse f s of
             None \<Rightarrow> None
           | Some (a, r) \<Rightarrow>
               (case ref_parse f r of
                  None \<Rightarrow> None
                | Some (b, r') \<Rightarrow>
                    (case ref_parse_map f r' of
                       None \<Rightarrow> None
                     | Some (ps, r'') \<Rightarrow> Some ((a, b) # ps, r''))))"
| "ref_parse_map _ _ = None"

definition ref_unpack :: "bytes \<Rightarrow> string + msgpack" where
  "ref_unpack s =
     (case ref_parse (length s) s of
        None \<Rightarrow> Inl ''insufficient_bytes''
      | Some (m, _) \<Rightarrow> Inr m)"

section \<open>The concrete environment\<close>

definition ref_env ::
  "(nat \<Rightarrow> nat) \<Rightarrow> (string \<rightharpoonup> bytes, (string \<times> bytes) list) env" where
  "ref_env rnd =
     \<lparr>e_redis = map_redis, e_mongo = alist_mongo, e_junk = (\<lambda>i. CHR ''?''),
      e_pack = ref_pack, e_unpack = ref_unpack, e_rand = rnd, e_seq = of_nat\<rparr>"

definition ref_fs :: fs where
  "ref_fs = \<lparr>fs_files = Map.empty, fs_denied = (\<lambda>p. False), fs_room = 2 ^ 40, fs_max_io = 2 ^ 30\<rparr>"

definition ref_conf :: "DataDistributionPolicy \<Rightarrow> conf" where
  "ref_conf pol = ConfigurationManager\<lparr>DATA_DISTRIBUTION_POLICY := pol\<rparr>"

definition ref_world :: "DataDistributionPolicy \<Rightarrow> (string \<rightharpoonup> bytes, (string \<times> bytes) list) world" where
  "ref_world pol =
     \<lparr>w_conf = ref_conf pol, w_fs = ref_fs,
      w_redis = Map.empty, w_mongo = [], w_rand_calls = 0, w_seq_calls = 0\<rparr>"

section \<open>Lemmas\<close>

lemma semicolon_not_digit: "CHR '';'' \<notin> set (int_to_string i)"
proof -
  have "\<not> is_digit (CHR '';'')" by (simp add: is_digit_def)
  then show ?thesis using nat_to_string_digits by (auto simp: int_to_string_def)
qed

lemma field_number: "CHR '';'' \<notin> set s \<Longrightarrow> field (s @ CHR '';'' # r) = (s, r)"
  by (simp add: field_def takeWhile_append dropWhile_append)

lemma nat_to_string_int: "nat_to_string n = int_to_string (int n)"
  by (simp add: int_to_string_def)

lemma ref_pack_nonempty: "ref_pack m \<noteq> []"
  by (cases m) simp_all

lemma ref_parse_seq_pack:
  assumes "\<And>x f r. x \<in> set xs \<Longrightarrow> length (ref_pack x) \<le> f \<Longrightarrow> ref_parse f (ref_pack x @ r) = Some (x, r)"
  shows "length (concat (map (\<lambda>x. CHR '','' # ref_pack x) xs)) < f \<Longrightarrow>
    ref_parse_seq f (concat (map (\<lambda>x. CHR '','' # ref_pack x) xs) @ CHR '';'' # r) = Some (xs, r)"
  using assms
proof (induction xs arbitrary: f)
  case Nil
  then show ?case by (cases f) simp_all
next
  case (Cons x xs)
  from Cons.prems(1) obtain g where f: "f = Suc g" by (cases f) simp_all
  have x: "ref_parse g (ref_pack x @ r') = Some (x, r')" for r'
    using Cons.prems f by simp
  have "ref_parse_seq g (concat (map (\<lambda>x. CHR '','' # ref_pack x) xs) @ CHR '';'' # r) = Some (xs, r)"
    using Cons.IH [of g] Cons.prems f by simp
  then show ?case using f x by simp
qed

lemma ref_parse_map_pack:
  assumes "\<And>x f r. x \<in> fst ` set ps \<union> snd ` set ps \<Longrightarrow> length (ref_pack x) \<le> f \<Longrightarrow>
      ref_parse f (ref_pack x @ r) = Some (x, r)"
  shows "length (concat (map (\<lambda>(a, b). CHR '','' # ref_pack a @ ref_pack b) ps)) < f \<Longrightarrow>
    ref_parse_map f (concat (map (\<lambda>(a, b). CHR '','' # ref_pack a @ ref_pack b) ps) @ CHR '';'' # r) =
      Some (ps, r)"
  using assms
proof (induction ps arbitrary: f)
  case Nil
  then show ?case by (cases f) simp_all
next
  case (Cons p ps)
  obtain a b where p: "p = (a, b)" by (cases p)
  from Cons.prems(1) obtain g where f: "f = Suc g" by (cases f) simp_all
  have a: "ref_parse g (ref_pack a @ r') = Some (a, r')" for r'
    using Cons.prems(1) Cons.prems(2) [of a g r'] f p by simp
  have b: "ref_parse g (ref_pack b @ r') = Some (b, r')" for r'
    using Cons.prems(1) Cons.prems(2) [of b g r'] f p by simp
  have "ref_parse_map g (concat (map (\<lambda>(a, b). CHR '','' # ref_pack a @ ref_pack b) ps) @ CHR '';'' # r) =
      Some (ps, r)"
    using Cons.IH [of g] Cons.prems f p by simp
  then show ?case using f p a b by simp
qed

lemma ref_parse_pack: "length (ref_pack m) \<le> f \<Longrightarrow> ref_parse f (ref_pack m @ r) = Some (m, r)"
proof (induction m arbitrary: f r)
  case (MBool b)
  then show ?case by (cases f; cases b) simp_all
next
  case (MInt i)
  then show ?case
    using field_number [OF semicolon_not_digit [of i], of r] by (cases f) simp_all
next
  case (MStr s)
  then show ?case
    using field_number [OF semicolon_not_digit [of "int (length s)"], of "s @ r"]
    by (cases f) (simp_all add: nat_to_string_int Let_def)
next
  case (MArray xs)
  then obtain g where f: "f = Suc g" by (cases f) simp_all
  have "ref_parse_seq g (concat (map (\<lambda>x. CHR '','' # ref_pack x) xs) @ CHR '';'' # r) = Some (xs, r)"
    using MArray f by (intro ref_parse_seq_pack) simp_all
  then show ?case using f by simp
next
  case (MMap ps)
  then obtain g where f: "f = Suc g" by (cases f) simp_all
  have "ref_parse_map g (concat (map (\<lambda>(a, b). CHR '','' # ref_pack a @ ref_pack b) ps) @ CHR '';'' # r) =
      Some (ps, r)"
    using MMap f by (intro ref_parse_map_pack) fastforce+
  then show ?case using f by simp
qed

lemma ref_wire_ok: "wire_ok (ref_env rnd)"
  by (simp add: wire_ok_def ref_env_def ref_pack_nonempty ref_unpack_def ref_parse_pack)

lemma map_parts:
  assumes "x \<in> fst ` set ps \<union> snd ` set ps"
    and "\<And>q x. q \<in> set ps \<Longrightarrow> x \<in> Basic_BNFs.fsts q \<Longrightarrow> P x" "\<And>q x. q \<in> set ps \<Longrightarrow> x \<in> Basic_BNFs.snds q \<Longrightarrow> P x"
  shows "P x"
proof -
  obtain q where "q \<in> set ps" "x = fst q \<or> x = snd q" using assms(1) by blast
  then show ?thesis using assms(2,3) fsts.intros [of q] snds.intros [of q] by metis
qed

text \<open>An incomplete object is refused, whatever the fuel.\<close>

lemma ref_parse_seq_any:
  assumes "\<And>x f r. x \<in> set xs \<Longrightarrow> ref_parse f (ref_pack x @ r) \<in> {None, Some (x, r)}"
  shows "ref_parse_seq f (concat (map (\<lambda>x. CHR '','' # ref_pack x) xs) @ CHR '';'' # r) \<in> {None, Some (xs, r)}"
  using assms
proof (induction xs arbitrary: f)
  case Nil
  then show ?case by (cases f) simp_all
next
  case (Cons x xs)
  show ?case
  proof (cases f)
    case (Suc g)
    let ?r = "concat (map (\<lambda>x. CHR '','' # ref_pack x) xs) @ CHR '';'' # r"
    have x: "ref_parse g (ref_pack x @ ?r) \<in> {None, Some (x, ?r)}" by (rule Cons.prems) simp
    have "ref_parse_seq g ?r \<in> {None, Some (xs, r)}" by (rule Cons.IH) (rule Cons.prems, simp)
    then show ?thesis using Suc x by auto
  qed simp
qed

lemma ref_parse_map_any:
  assumes "\<And>x f r. x \<in> fst ` set ps \<union> snd ` set ps \<Longrightarrow> ref_parse f (ref_pack x @ r) \<in> {None, Some (x, r)}"
  shows "ref_parse_map f (concat (map (\<lambda>(a, b). CHR '','' # ref_pack a @ ref_pack b) ps) @ CHR '';'' # r) \<in>
    {None, Some (ps, r)}"
  using assms
proof (induction ps arbitrary: f)
  case Nil
  then show ?case by (cases f) simp_all
next
  case (Cons p ps)
  obtain a b where p: "p = (a, b)" by (cases p)
  show ?case
  proof (cases f)
    case (Suc g)
    let ?r = "concat (map (\<lambda>(a, b). CHR '','' # ref_pack a @ ref_pack b) ps) @ CHR '';'' # r"
    have a: "ref_parse g (ref_pack a @ ref_pack b @ ?r) \<in> {None, Some (a, ref_pack b @ ?r)}"
      by (rule Cons.prems) (simp add: p)
    have b: "ref_parse g (ref_pack b @ ?r) \<in> {None, Some (b, ?r)}" by (rule Cons.prems) (simp add: p)
    have "ref_parse_map g ?r \<in> {None, Some (ps, r)}" by (rule Cons.IH) (rule Cons.prems, auto)
    then show ?thesis using Suc p a b by auto
  qed simp
qed

lemma ref_parse_any: "ref_parse f (ref_pack m @ r) \<in> {None, Some (m, r)}"
proof (induction m arbitrary: f r)
  case (MBool b)
  then show ?case by (cases f; cases b) simp_all
next
  case (MInt i)
  then show ?case
    using field_number [OF semicolon_not_digit [of i], of r] by (cases f) simp_all
next
  case (MStr s)
  then show ?case
    using field_number [OF semicolon_not_digit [of "int (length s)"], of "s @ r"]
    by (cases f) (simp_all add: nat_to_string_int Let_def)
next
  case (MArray xs)
  then have "ref_parse_seq g (concat (map (\<lambda>x. CHR '','' # ref_pack x) xs) @ CHR '';'' # r) \<in>
      {None, Some (xs, r)}" for g
    by (rule ref_parse_seq_any)
  note seq = this
  show ?case
  proof (cases f)
    case (Suc g)
    then show ?thesis using seq [of g] by auto
  qed simp
next
  case (MMap ps)
  have "\<forall>g r'. ref_parse g (ref_pack x @ r') \<in> {None, Some (x, r')}" if "x \<in> fst ` set ps \<union> snd ` set ps" for x
    by (rule map_parts [OF that]) (simp_all add: MMap.IH del: insert_iff)
  then have "ref_parse_map g (concat (map (\<lambda>(a, b). CHR '','' # ref_pack a @ ref_pack b) ps) @ CHR '';'' # r) \<in>
      {None, Some (ps, r)}" for g
    by (intro ref_parse_map_any) simp
  note map = this
  show ?case
  proof (cases f)
    case (Suc g)
    then show ?thesis using map [of g] by auto
  qed simp
qed

lemma strict_prefix_append:
  "strict_prefix b (xs @ ys) \<Longrightarrow> strict_prefix b xs \<or> (\<exists>us. b = xs @ us \<and> strict_prefix us ys)"
  by (auto simp: strict_prefix_def prefix_append)

lemma strict_prefix_Cons_cases: "strict_prefix b (c # s) \<Longrightarrow> b = [] \<or> (\<exists>b'. b = c # b' \<and> strict_prefix b' s)"
  by (cases b) auto

lemma ref_parse_Nil [simp]: "ref_parse f [] = None" "ref_parse_seq f [] = None" "ref_parse_map f [] = None"
  by (cases f; simp)+

lemma ref_parse_seq_cut:
  assumes "\<And>x f c. x \<in> set xs \<Longrightarrow> strict_prefix c (ref_pack x) \<Longrightarrow> ref_parse f c = None"
    and "strict_prefix b (concat (map (\<lambda>x. CHR '','' # ref_pack x) xs) @ '';'')"
  shows "ref_parse_seq f b = None"
  using assms
proof (induction xs arbitrary: f b)
  case Nil
  then show ?case using strict_prefix_Cons_cases [of b "CHR '';''" "[]"] by auto
next
  case (Cons x xs)
  let ?r = "concat (map (\<lambda>x. CHR '','' # ref_pack x) xs) @ '';''"
  have item: "ref_parse g c = None" if "strict_prefix c (ref_pack x)" for g c
    by (rule Cons.prems(1) [OF _ that]) simp
  have rest: "ref_parse_seq g us = None" if "strict_prefix us ?r" for g us
    by (rule Cons.IH [OF _ that]) (rule Cons.prems(1), simp_all)
  show ?case
  proof (cases b; cases f)
    fix c b' g
    assume b: "b = c # b'" and f: "f = Suc g"
    then have c: "c = CHR '',''" and cut: "strict_prefix b' (ref_pack x @ ?r)" using Cons.prems(2) by auto
    from strict_prefix_append [OF cut] consider "strict_prefix b' (ref_pack x)"
      | u where "b' = ref_pack x @ u" "strict_prefix u ?r" by blast
    then show ?thesis
    proof cases
      case 1
      then show ?thesis using item b f c by simp
    next
      case (2 u)
      then show ?thesis using rest [of u g] ref_parse_any [of g x u] b f c by auto
    qed
  qed simp_all
qed

lemma ref_parse_map_cut:
  assumes "\<And>x f c. x \<in> fst ` set ps \<union> snd ` set ps \<Longrightarrow> strict_prefix c (ref_pack x) \<Longrightarrow> ref_parse f c = None"
    and "strict_prefix b (concat (map (\<lambda>(a, b). CHR '','' # ref_pack a @ ref_pack b) ps) @ '';'')"
  shows "ref_parse_map f b = None"
  using assms
proof (induction ps arbitrary: f b)
  case Nil
  then show ?case using strict_prefix_Cons_cases [of b "CHR '';''" "[]"] by auto
next
  case (Cons q ps)
  obtain k v where q: "q = (k, v)" by (cases q)
  let ?r = "concat (map (\<lambda>(a, b). CHR '','' # ref_pack a @ ref_pack b) ps) @ '';''"
  have item: "ref_parse g c = None" if "strict_prefix c (ref_pack k) \<or> strict_prefix c (ref_pack v)" for g c
    using Cons.prems(1) [of k c g] Cons.prems(1) [of v c g] that q by auto
  have rest: "ref_parse_map g us = None" if "strict_prefix us ?r" for g us
    by (rule Cons.IH [OF _ that]) (rule Cons.prems(1), auto)
  show ?case
  proof (cases b; cases f)
    fix c b' g
    assume b: "b = c # b'" and f: "f = Suc g"
    then have c: "c = CHR '',''" and cut: "strict_prefix b' (ref_pack k @ ref_pack v @ ?r)"
      using Cons.prems(2) q by auto
    then consider "strict_prefix b' (ref_pack k)"
      | u where "b' = ref_pack k @ u" "strict_prefix u (ref_pack v)"
      | u where "b' = ref_pack k @ ref_pack v @ u" "strict_prefix u ?r"
      using strict_prefix_append [of b' "ref_pack k" "ref_pack v @ ?r"] strict_prefix_append [of _ "ref_pack v" ?r] by blast
    then show ?thesis
    proof cases
      case 1
      then show ?thesis using item b f c by simp
    next
      case (2 u)
      then show ?thesis using item [of u g] ref_parse_any [of g k u] b f c by auto
    next
      case (3 u)
      then show ?thesis
        using rest [of u g] ref_parse_any [of g k "ref_pack v @ u"] ref_parse_any [of g v u] b f c by auto
    qed
  qed simp_all
qed

lemma strict_prefix_no_semicolon:
  assumes "CHR '';'' \<notin> set s" "strict_prefix b (s @ CHR '';'' # r)" "CHR '';'' \<in> set b"
  obtains r' where "b = s @ CHR '';'' # r'" "strict_prefix r' r"
proof -
  have "\<not> strict_prefix b s" using assms(1,3) set_mono_prefix [of b s] by (auto simp: strict_prefix_def)
  then obtain u where u: "b = s @ u" "strict_prefix u (CHR '';'' # r)" using strict_prefix_append [OF assms(2)] by blast
  moreover have "u \<noteq> []" using u(1) assms(1,3) by auto
  ultimately show ?thesis using strict_prefix_Cons_cases [OF u(2)] that by auto
qed

lemma ref_parse_cut: "strict_prefix b (ref_pack m) \<Longrightarrow> ref_parse f b = None"
proof (induction m arbitrary: f b)
  case (MBool v)
  then show ?case by (cases v) (auto dest!: strict_prefix_Cons_cases)
next
  case (MInt i)
  then consider "b = []" | b' where "b = CHR ''I'' # b'" "strict_prefix b' (int_to_string i @ CHR '';'' # [])"
    by (auto dest!: strict_prefix_Cons_cases)
  then show ?case
  proof cases
    case (2 b')
    then have "CHR '';'' \<notin> set b'" using strict_prefix_no_semicolon [OF semicolon_not_digit 2(2)] by auto
    then show ?thesis using 2 by (cases f) simp_all
  qed simp
next
  case (MStr s)
  then consider "b = []" | b' where "b = CHR ''S'' # b'" "strict_prefix b' (int_to_string (int (length s)) @ CHR '';'' # s)"
    by (auto dest!: strict_prefix_Cons_cases simp: nat_to_string_int)
  then show ?case
  proof cases
    case (2 b')
    show ?thesis
    proof (cases "CHR '';'' \<in> set b'")
      case True
      then obtain r' where "b' = int_to_string (int (length s)) @ CHR '';'' # r'" "strict_prefix r' s"
        using strict_prefix_no_semicolon [OF semicolon_not_digit 2(2)] by blast
      moreover from this(2) have "length r' < length s" by (rule prefix_length_less)
      ultimately show ?thesis
        using 2(1) field_number [OF semicolon_not_digit [of "int (length s)"], of r'] by (cases f) (simp_all add: Let_def)
    next
      case False
      then show ?thesis using 2 by (cases f) simp_all
    qed
  qed simp
next
  case (MArray xs)
  then consider "b = []" | b' where "b = CHR ''A'' # b'" "strict_prefix b' (concat (map (\<lambda>x. CHR '','' # ref_pack x) xs) @ '';'')"
    by (auto dest!: strict_prefix_Cons_cases)
  then show ?case
  proof cases
    case (2 b')
    have "ref_parse_seq g b' = None" for g by (rule ref_parse_seq_cut [OF _ 2(2)]) (rule MArray.IH)
    then show ?thesis using 2(1) by (cases f) simp_all
  qed simp
next
  case (MMap ps)
  then consider "b = []" | b' where "b = CHR ''M'' # b'"
      "strict_prefix b' (concat (map (\<lambda>(a, b). CHR '','' # ref_pack a @ ref_pack b) ps) @ '';'')"
    by (auto dest!: strict_prefix_Cons_cases)
  then show ?case
  proof cases
    case (2 b')
    have "\<forall>g c. strict_prefix c (ref_pack x) \<longrightarrow> ref_parse g c = None" if "x \<in> fst ` set ps \<union> snd ` set ps" for x
      by (rule map_parts [OF that]) (simp_all add: MMap.IH)
    then have "ref_parse_map g b' = None" for g by (intro ref_parse_map_cut [OF _ 2(2)]) simp
    then show ?thesis using 2(1) by (cases f) simp_all
  qed simp
qed

text \<open>The concrete system is ready for every short key.\<close>

lemma ref_world_obj [simp]: "client_obj (ref_env rnd) t (ref_world pol) = Map.empty"
  by (cases t) (simp_all add: ref_env_def ref_world_def ref_fs_def mongo_obj_def alist_mongo_def fun_eq_iff)

lemma ref_world_sols: "sols_of (ref_world pol) =
  [(0, Some (FileSS ''./'')), (1, Some (RedisSS ''127.0.0.1'' ''6379'')),
   (2, Some (MongoSS ''mongodb://localhost:27017'' ''mydb'' ''test''))]"
  by (simp add: sols_of_def ref_world_def ref_conf_def ConfigurationManager_def)

lemma ref_key_ready:
  assumes "length k \<le> 4096" "n \<le> 2 ^ 20"
  shows "key_ready (ref_env rnd) (ref_world pol) k n"
proof -
  have "client_up (ref_env rnd) t (ref_world pol) k \<and> client_fits t (ref_world pol) n \<and>
      client_fits t (ref_world pol) 0" for t
    using assms map_redis_ok alist_mongo_ok
    by (cases t) (simp_all add: ref_env_def ref_world_def ref_fs_def file_up_def file_fits_def
        redis_up_def redis_fits_def redis_max_def mongo_up_def mongo_fits_def mongo_max_def)
  then show ?thesis by (simp add: key_ready_def)
qed

lemma ref_wf_solutions: "wf_solutions (sols_of (ref_world pol))"
  by (simp add: ref_world_sols wf_solutions_def upt_conv_Cons)

lemma ref_separate: "separate (sols_of (ref_world pol))"
  by (simp add: ref_world_sols separate_def)

lemma ref_system_ok:
  "pol \<noteq> DYNAMIC_PROGRAMMING_POLICY \<Longrightarrow> system_ok (ref_env rnd) (ref_world pol)"
  using ref_wire_ok ref_wf_solutions [of pol] ref_separate [of pol]
  by (simp add: system_ok_def ref_world_sols)
    (simp add: ref_world_def ref_conf_def ConfigurationManager_def)

lemma ref_Locate_absent:
  assumes "length (d_id d) \<le> 4000" "d_storage_index d \<in> {0, 1, 2}"
  shows "\<exists>e. Locate (ref_env rnd) (ref_world pol) d = Inl (Thrown e)"
proof -
  obtain t where t: "GetIOClient (ref_world pol) (d_storage_index d) = Inr t"
    using GetIOClient_configured [OF ref_wf_solutions, of "d_storage_index d" pol] assms(2)
    by (auto simp: ref_world_sols)
  have "key_ready (ref_env rnd) (ref_world pol) (meta_key (d_id d)) 0"
    using assms(1) by (intro ref_key_ready) (simp_all add: meta_key_def)
  then show ?thesis using Locate_absent [OF t] t by (simp add: key_ready_def)
qed

end
