(* ===== verification/Object_Service.thy ===== *)
theory Object_Service
  imports Wire_Reference
begin

text \<open>
  What the handlers of the server promise for an object: a byte register. \<open>register_step\<close> is
  the specification, over the bytes of the object (\<open>None\<close> when there is no object);
  \<open>serve\<close> runs a request through the handlers of \<^verbatim>\<open>src/symbios/server/server.cpp\<close>. The locale
  \<open>simulation\<close> lifts one step of simulation to sequences of requests; \<open>byte_register\<close> is a
  simulation of the register and \<open>register_family\<close> one of a store of named registers that do
  not disturb each other. The server interprets both, whatever storages the requests are
  addressed through and whatever the placement policy picks.
\<close>

section \<open>The specification\<close>

datatype request = Put uint16 bytes | Get uint16 | Len uint16 | Del uint16

datatype answer = Stored | Content bytes | Missing | Length size_t | Deleted bool | Failed

fun register_step :: "bytes option \<Rightarrow> request \<Rightarrow> answer \<times> bytes option" where
  "register_step v (Put ix b) = (Stored, Some (overlay 0 b (old_bytes v)))"
| "register_step v (Get ix) = (case v of None \<Rightarrow> Missing | Some x \<Rightarrow> Content x, v)"
| "register_step v (Len ix) = (Length (of_nat (length (old_bytes v))), v)"
| "register_step v (Del ix) = (Deleted (v \<noteq> None), None)"

fun register_run :: "bytes option \<Rightarrow> request list \<Rightarrow> answer list \<times> bytes option" where
  "register_run v [] = ([], v)"
| "register_run v (q # qs) =
     (case register_step v q of
        (a, v') \<Rightarrow> (case register_run v' qs of (as, v'') \<Rightarrow> (a # as, v'')))"

section \<open>Simulations\<close>

text \<open>
  A system \<open>step\<close> that answers requests, a specification \<open>spec\<close> of it, the requests \<open>ok\<close> that may
  come in a state of the specification, and the relation between the states. One step of
  simulation gives the simulation of every admissible sequence of requests.
\<close>

fun service_run :: "('w \<Rightarrow> 'q \<Rightarrow> 'a \<times> 'w) \<Rightarrow> 'w \<Rightarrow> 'q list \<Rightarrow> 'a list \<times> 'w" where
  "service_run step w [] = ([], w)"
| "service_run step w (q # qs) =
     (case step w q of
        (a, w') \<Rightarrow> (case service_run step w' qs of (as, w'') \<Rightarrow> (a # as, w'')))"

fun run_ok :: "('v \<Rightarrow> 'q \<Rightarrow> 'a \<times> 'v) \<Rightarrow> ('v \<Rightarrow> 'q \<Rightarrow> bool) \<Rightarrow> 'v \<Rightarrow> 'q list \<Rightarrow> bool" where
  "run_ok spec ok v [] = True"
| "run_ok spec ok v (q # qs) \<longleftrightarrow> ok v q \<and> run_ok spec ok (snd (spec v q)) qs"

locale simulation =
  fixes step :: "'w \<Rightarrow> 'q \<Rightarrow> 'a \<times> 'w"
    and spec :: "'v \<Rightarrow> 'q \<Rightarrow> 'a \<times> 'v"
    and ok :: "'v \<Rightarrow> 'q \<Rightarrow> bool"
    and rel :: "'w \<Rightarrow> 'v \<Rightarrow> bool"
  assumes step_refines: "rel w v \<Longrightarrow> ok v q \<Longrightarrow>
    \<exists>w'. step w q = (fst (spec v q), w') \<and> rel w' (snd (spec v q))"
begin

lemma run_simulates:
  "rel w v \<Longrightarrow> run_ok spec ok v qs \<Longrightarrow>
   \<exists>w'. service_run step w qs = (fst (service_run spec v qs), w') \<and> rel w' (snd (service_run spec v qs))"
proof (induction qs arbitrary: w v)
  case Nil
  then show ?case by simp
next
  case (Cons q qs)
  then obtain w1 where w1: "step w q = (fst (spec v q), w1)" "rel w1 (snd (spec v q))"
    using step_refines by fastforce
  then obtain w2 where "service_run step w1 qs = (fst (service_run spec (snd (spec v q)) qs), w2)"
    "rel w2 (snd (service_run spec (snd (spec v q)) qs))"
    using Cons by fastforce
  then show ?case using w1(1) by (simp add: split_beta)
qed

end

subsection \<open>One register\<close>

lemma register_run_service: "register_run v qs = service_run register_step v qs"
  by (induction qs arbitrary: v) simp_all

lemma run_ok_static: "run_ok spec (\<lambda>_. adm) v qs \<longleftrightarrow> list_all adm qs"
  by (induction qs arbitrary: v) simp_all

locale byte_register =
  fixes step :: "'w \<Rightarrow> request \<Rightarrow> answer \<times> 'w"
    and admissible :: "request \<Rightarrow> bool"
    and rel :: "'w \<Rightarrow> bytes option \<Rightarrow> bool"
  assumes register_refines: "rel w v \<Longrightarrow> admissible q \<Longrightarrow>
    \<exists>w'. step w q = (fst (register_step v q), w') \<and> rel w' (snd (register_step v q))"

sublocale byte_register \<subseteq> simulation step register_step "\<lambda>_. admissible" rel
  by unfold_locales (rule register_refines)

context byte_register
begin

lemma run_refines:
  "rel w v \<Longrightarrow> list_all admissible qs \<Longrightarrow>
   \<exists>w'. service_run step w qs = (fst (register_run v qs), w') \<and> rel w' (snd (register_run v qs))"
  using run_simulates by (simp add: register_run_service run_ok_static)

end

subsection \<open>A store of named registers\<close>

text \<open>A request names the object it is for; the store has one register per name.\<close>

fun store_step :: "(string \<Rightarrow> bytes option) \<Rightarrow> string \<times> request \<Rightarrow> answer \<times> (string \<Rightarrow> bytes option)" where
  "store_step m (i, q) = (case register_step (m i) q of (a, v) \<Rightarrow> (a, m(i := v)))"

text \<open>Registers that do not disturb each other make up a store.\<close>

locale register_family =
  fixes step :: "string \<Rightarrow> 'w \<Rightarrow> request \<Rightarrow> answer \<times> 'w"
    and admissible :: "string \<Rightarrow> request \<Rightarrow> bool"
    and rel :: "string \<Rightarrow> 'w \<Rightarrow> bytes option \<Rightarrow> bool"
  assumes each: "byte_register (step i) (admissible i) (rel i)"
    and frame: "i \<noteq> j \<Longrightarrow> rel i w v \<Longrightarrow> rel j w u \<Longrightarrow> admissible i q \<Longrightarrow> rel j (snd (step i w q)) u"

sublocale register_family \<subseteq> family: simulation "\<lambda>w (i, q). step i w q" store_step
  "\<lambda>m (i, q). admissible i q" "\<lambda>w m. \<forall>i. rel i w (m i)"
proof unfold_locales
  fix w m and r :: "string \<times> request"
  assume rel: "\<forall>i. rel i w (m i)" and "case r of (i, q) \<Rightarrow> admissible i q"
  then obtain i q where r: "r = (i, q)" and adm: "admissible i q" by (cases r) auto
  obtain w' where w': "step i w q = (fst (register_step (m i) q), w')" "rel i w' (snd (register_step (m i) q))"
    using byte_register.register_refines [OF each] rel adm by blast
  moreover have "rel j w' (m j)" if "j \<noteq> i" for j
    using frame [of i j w "m i" "m j" q] rel adm that w'(1) by simp
  ultimately show "\<exists>w'. (case r of (i, q) \<Rightarrow> step i w q) = (fst (store_step m r), w') \<and>
      (\<forall>i. rel i w' (snd (store_step m r) i))"
    using r by (auto simp: split_beta)
qed

section \<open>The server's handlers as a service\<close>

definition put_source :: "string \<Rightarrow> bytes \<Rightarrow> Data" where
  "put_source i b =
     default_Data\<lparr>d_id := i, d_buffer := Some b, d_data_size := of_nat (length b)\<rparr>"

definition target :: "string \<Rightarrow> uint16 \<Rightarrow> nat \<Rightarrow> Data" where
  "target i ix n = default_Data\<lparr>d_id := i, d_storage_index := ix, d_data_size := of_nat n\<rparr>"

fun serve :: "('r, 'm) env \<Rightarrow> string \<Rightarrow> ('r, 'm) world \<Rightarrow> request \<Rightarrow> answer \<times> ('r, 'm) world" where
  "serve E i w (Put ix b) =
     (case Server_Store E w (put_source i b) (target i ix (length b)) of
        (Inr _, w') \<Rightarrow> (Stored, w')
      | (Inl _, w') \<Rightarrow> (Failed, w'))"
| "serve E i w (Get ix) =
     (case Server_Locate E w (target i ix 0) default_Data of
        Inr d \<Rightarrow> Content (old_bytes (d_buffer d))
      | Inl (Thrown _) \<Rightarrow> Missing
      | Inl _ \<Rightarrow> Failed, w)"
| "serve E i w (Len ix) =
     (case Server_Size E w (target i ix 0) of Inr n \<Rightarrow> Length n | Inl _ \<Rightarrow> Failed, w)"
| "serve E i w (Del ix) =
     (case Server_Delete E w (target i ix 0) of
        (Inr b, w') \<Rightarrow> (Deleted b, w')
      | (Inl _, w') \<Rightarrow> (Failed, w'))"

text \<open>
  Requests the theorem is about: addressed through a configured storage, and for a \<open>Put\<close>
  data that fits one segment and metadata of at most \<open>n\<close> bytes.
\<close>

fun admissible :: "('r, 'm) env \<Rightarrow> conf \<Rightarrow> string \<Rightarrow> nat \<Rightarrow> request \<Rightarrow> bool" where
  "admissible E c i n (Put ix b) \<longleftrightarrow>
     ix \<in> set (map fst (STORAGE_SOLUTIONS c)) \<and> length b \<le> n \<and> of_nat (length b) \<le> MAX_OBJ_SIZE c \<and>
     list_all (\<lambda>sel. packs_within E (meta_key i) (fresh_meta (target i ix (length b)) sel) n)
       (map fst (STORAGE_SOLUTIONS c))"
| "admissible E c i n (Get ix) \<longleftrightarrow> ix \<in> set (map fst (STORAGE_SOLUTIONS c))"
| "admissible E c i n (Len ix) \<longleftrightarrow> ix \<in> set (map fst (STORAGE_SOLUTIONS c))"
| "admissible E c i n (Del ix) \<longleftrightarrow> ix \<in> set (map fst (STORAGE_SOLUTIONS c))"

text \<open>The world holds the register's value.\<close>

definition represents ::
  "('r, 'm) env \<Rightarrow> conf \<Rightarrow> string \<Rightarrow> nat \<Rightarrow> ('r, 'm) world \<Rightarrow> bytes option \<Rightarrow> bool" where
  "represents E c i n w v \<longleftrightarrow>
     system_ok E w \<and> w_conf w = c \<and> n < 2 ^ 31 \<and>
     (case v of None \<Rightarrow> absent E w i n | Some x \<Rightarrow> stores E w i x n \<and> length x \<le> n)"

section \<open>Lemmas\<close>

lemma target_simps [simp]:
  "d_id (target i ix m) = i" "d_storage_index (target i ix m) = ix" "d_position (target i ix m) = 0"
  "d_data_size (target i ix m) = of_nat m"
  by (simp_all add: target_def)

lemma put_source_whole: "whole (put_source i b) b"
  by (simp add: whole_def put_source_def)

lemma system_ok_like: "serves_like E w' w \<Longrightarrow> system_ok E w \<Longrightarrow> system_ok E w'"
  by (simp add: system_ok_def serves_like_def sols_of_def)

lemma configured_sols: "w_conf w = c \<Longrightarrow> ix \<in> set (map fst (STORAGE_SOLUTIONS c)) \<longleftrightarrow>
  ix \<in> fst ` set (sols_of w)"
  by (simp add: sols_of_def)

lemma serve_Put:
  assumes "represents E c i n w v" "admissible E c i n (Put ix b)"
  shows "\<exists>w'. serve E i w (Put ix b) = (Stored, w') \<and>
    represents E c i n w' (Some (overlay 0 b (old_bytes v))) \<and> serves_like E w' w \<and> untouched E i w' w"
proof -
  have sys: "system_ok E w" "w_conf w = c" "n < 2 ^ 31" using assms(1) by (simp_all add: represents_def)
  have put: "ix \<in> fst ` set (sols_of w)" "length b \<le> n" "of_nat (length b) \<le> MAX_OBJ_SIZE (w_conf w)"
    "\<And>sel. sel \<in> fst ` set (sols_of w) \<Longrightarrow> packs_within E (meta_key i) (fresh_meta (target i ix (length b)) sel) n"
    using assms(2) sys(2) by (auto simp: sols_of_def list_all_iff)
  have "\<exists>w'. Server_Store E w (put_source i b) (target i ix (length b)) =
      (Inr (uint (SERVER_COUNT (w_conf w))), w') \<and> serves_like E w' w \<and>
      stores E w' i (overlay 0 b (old_bytes v)) n \<and> length (overlay 0 b (old_bytes v)) \<le> n \<and>
      untouched E i w' w"
  proof (cases v)
    case None
    then have abs: "absent E w i n" using assms(1) by (simp add: represents_def)
    obtain e where e: "Locate E w (target i ix (length b)) = Inl (Thrown e)"
      by (rule absent_Locate [OF sys(1), of "target i ix (length b)" n]) (use put abs in simp_all)
    show ?thesis
      using Server_Store_creates [OF sys(1) put_source_whole, of "target i ix (length b)" b n e i] put e abs
      by (simp add: absent_def None overlay_0)
  next
    case (Some x)
    then have "stores E w i x n" "length x \<le> n" using assms(1) by (simp_all add: represents_def)
    then show ?thesis
      using Server_Store_updates [OF sys(1) put_source_whole, of "target i ix (length b)" b n x i] put Some
      by (simp add: length_overlay)
  qed
  then obtain w' where "Server_Store E w (put_source i b) (target i ix (length b)) =
      (Inr (uint (SERVER_COUNT (w_conf w))), w')" and like: "serves_like E w' w"
    and new: "stores E w' i (overlay 0 b (old_bytes v)) n" "length (overlay 0 b (old_bytes v)) \<le> n"
    and rest: "untouched E i w' w"
    by blast
  moreover have "represents E c i n w' (Some (overlay 0 b (old_bytes v)))"
    using new sys system_ok_like [OF like] like by (simp add: represents_def serves_like_def)
  ultimately show ?thesis using like rest by simp
qed

lemma serve_Get:
  assumes "represents E c i n w v" "admissible E c i n (Get ix)"
  shows "serve E i w (Get ix) = (case v of None \<Rightarrow> Missing | Some x \<Rightarrow> Content x, w)"
proof -
  have sys: "system_ok E w" "w_conf w = c" "n < 2 ^ 31" using assms(1) by (simp_all add: represents_def)
  have ix: "ix \<in> fst ` set (sols_of w)" using assms(2) configured_sols [OF sys(2)] by simp
  show ?thesis
  proof (cases v)
    case None
    then have abs: "absent E w i n" using assms(1) by (simp add: represents_def)
    obtain e where "Locate E w (target i ix 0) = Inl (Thrown e)"
      by (rule absent_Locate [OF sys(1), of "target i ix 0" n]) (use ix abs in simp_all)
    then show ?thesis by (simp add: None Server_Locate_def)
  next
    case (Some x)
    then have st: "stores E w i x n" "length x < 2 ^ 31"
      using assms(1) sys(3) by (auto simp: represents_def)
    have "Server_Locate E w (target i ix 0) default_Data = Inr (default_Data\<lparr>d_buffer := Some x\<rparr>)"
      using Server_Locate_reads [OF sys(1), of "target i ix 0" x n 0] ix st by simp
    then show ?thesis by (simp add: Some)
  qed
qed

lemma serve_Len:
  assumes "represents E c i n w v" "admissible E c i n (Len ix)"
  shows "serve E i w (Len ix) = (Length (of_nat (length (old_bytes v))), w)"
proof -
  have sys: "system_ok E w" "w_conf w = c" "n < 2 ^ 31" using assms(1) by (simp_all add: represents_def)
  have ix: "ix \<in> fst ` set (sols_of w)" using assms(2) configured_sols [OF sys(2)] by simp
  show ?thesis
  proof (cases v)
    case None
    then have abs: "absent E w i n" using assms(1) by (simp add: represents_def)
    obtain e where "Locate E w (target i ix 0) = Inl (Thrown e)"
      by (rule absent_Locate [OF sys(1), of "target i ix 0" n]) (use ix abs in simp_all)
    then show ?thesis by (simp add: None Server_Size_def)
  next
    case (Some x)
    then have st: "stores E w i x n" "length x < 2 ^ 31"
      using assms(1) sys(3) by (auto simp: represents_def)
    have "Server_Size E w (target i ix 0) = Inr (of_nat (length x))"
      using Server_Size_length [OF sys(1), of "target i ix 0" x n] ix st by simp
    then show ?thesis by (simp add: Some)
  qed
qed

lemma serve_Del:
  assumes "represents E c i n w v" "admissible E c i n (Del ix)"
  shows "\<exists>w'. serve E i w (Del ix) = (Deleted (v \<noteq> None), w') \<and> represents E c i n w' None \<and>
    serves_like E w' w \<and> untouched E i w' w"
proof -
  have sys: "system_ok E w" "w_conf w = c" "n < 2 ^ 31" using assms(1) by (simp_all add: represents_def)
  have ix: "ix \<in> fst ` set (sols_of w)" using assms(2) configured_sols [OF sys(2)] by simp
  show ?thesis
  proof (cases v)
    case None
    then have abs: "absent E w i n" using assms(1) by (simp add: represents_def)
    obtain e where "Locate E w (target i ix 0) = Inl (Thrown e)"
      by (rule absent_Locate [OF sys(1), of "target i ix 0" n]) (use ix abs in simp_all)
    then show ?thesis using assms(1) by (simp add: None Server_Delete_def)
  next
    case (Some x)
    then have st: "stores E w i x n" using assms(1) by (simp add: represents_def)
    obtain w' where "Server_Delete E w (target i ix 0) = (Inr True, w')"
      and like: "serves_like E w' w" and abs: "absent E w' i n" and rest: "untouched E i w' w"
      using Server_Delete_removes [OF sys(1), of "target i ix 0" x n] ix st by auto
    moreover have "represents E c i n w' None"
      using abs sys system_ok_like [OF like] like by (simp add: represents_def serves_like_def)
    ultimately show ?thesis using like rest by (simp add: Some)
  qed
qed

text \<open>The objects of other names are not touched.\<close>

lemma keys_inject [simp]: "data_key i = data_key j \<longleftrightarrow> i = j" "meta_key i = meta_key j \<longleftrightarrow> i = j"
  by (simp_all add: data_key_def meta_key_def)

lemma untouched_keys:
  assumes "untouched E i w' w" "j \<noteq> i"
  shows "client_obj E t w' (meta_key j) = client_obj E t w (meta_key j)"
    "client_obj E t w' (data_key j) = client_obj E t w (data_key j)"
  using assms by (simp_all add: untouched_def)

lemma represents_frame:
  assumes "serves_like E w' w" "untouched E i w' w" "j \<noteq> i" "represents E c j n w v"
  shows "represents E c j n w' v"
proof -
  note keys = untouched_keys [OF assms(2,3)]
  have get: "GetIOClient w' = GetIOClient w" using assms(1) by (rule serves_like_GetIOClient)
  have "absent E w' j n \<longleftrightarrow> absent E w j n"
    using key_ready_frame [OF assms(1) keys(1)] key_ready_frame [OF assms(1) keys(2)]
    by (simp add: absent_def keys get)
  moreover have "stores E w' j x n \<longleftrightarrow> stores E w j x n" for x
    using key_ready_frame [OF assms(1) keys(1)] key_ready_frame [OF assms(1) keys(2)]
      published_frame [OF assms(1) keys(1)]
    by (simp add: stores_def keys get)
  ultimately show ?thesis
    using assms(4) system_ok_like [OF assms(1)] assms(1)
    by (auto simp: represents_def serves_like_def split: option.splits)
qed

lemma serve_frame:
  assumes "represents E c i n w v" "admissible E c i n q"
  shows "serves_like E (snd (serve E i w q)) w \<and> untouched E i (snd (serve E i w q)) w"
proof (cases q)
  case (Put ix b)
  then show ?thesis using serve_Put [of E c i n w v ix b] assms by auto
next
  case (Del ix)
  then show ?thesis using serve_Del [of E c i n w v ix] assms by auto
qed simp_all

section \<open>The server is a byte register\<close>

interpretation srv: byte_register "serve E i" "admissible E c i n" "represents E c i n"
proof
  fix w v q
  assume rel: "represents E c i n w v" and adm: "admissible E c i n q"
  show "\<exists>w'. serve E i w q = (fst (register_step v q), w') \<and>
      represents E c i n w' (snd (register_step v q))"
  proof (cases q)
    case (Put ix b)
    then show ?thesis using serve_Put [OF rel, of ix b] adm by auto
  next
    case (Get ix)
    then show ?thesis using serve_Get [OF rel, of ix] rel adm by simp
  next
    case (Len ix)
    then show ?thesis using serve_Len [OF rel, of ix] rel adm by simp
  next
    case (Del ix)
    then show ?thesis using serve_Del [OF rel, of ix] adm by auto
  qed
qed

text \<open>The objects whose names are in \<open>N\<close> are a store.\<close>

interpretation srvs: register_family "serve E" "\<lambda>i q. i \<in> N \<and> admissible E c i n q"
  "\<lambda>i w v. i \<in> N \<longrightarrow> represents E c i n w v"
proof (rule register_family.intro)
  fix i
  show "byte_register (serve E i) (\<lambda>q. i \<in> N \<and> admissible E c i n q) (\<lambda>w v. i \<in> N \<longrightarrow> represents E c i n w v)"
    using srv.register_refines by unfold_locales blast
next
  fix i j w v u q
  assume "i \<noteq> j" "i \<in> N \<longrightarrow> represents E c i n w v" "j \<in> N \<longrightarrow> represents E c j n w u"
    "i \<in> N \<and> admissible E c i n q"
  then show "j \<in> N \<longrightarrow> represents E c j n (snd (serve E i w q)) u"
    using serve_frame [of E c i n w v q] represents_frame [of E _ w i j c n u] by blast
qed

lemma ref_represents:
  assumes "length i \<le> 4000" "n \<le> 2 ^ 20" "pol \<noteq> DYNAMIC_PROGRAMMING_POLICY"
  shows "represents (ref_env rnd) (ref_conf pol) i n (ref_world pol) None"
proof -
  have "key_ready (ref_env rnd) (ref_world pol) (meta_key i) n"
    "key_ready (ref_env rnd) (ref_world pol) (data_key i) n"
    using assms by (intro ref_key_ready; simp add: meta_key_def data_key_def)+
  then show ?thesis
    using assms ref_system_ok [OF assms(3)]
    by (simp add: represents_def absent_def) (simp add: ref_world_def)
qed

end
