(* ===== verification/Tasks.thy ===== *)
theory Tasks
  imports Object_Service
begin

text \<open>
  The handlers of the server as threads. A server answers its clients with
  \<^verbatim>\<open>SERVER_RPC_THREADS\<close> threads (4 by default), and the servers of a deployment share the
  storages, so that handlers run concurrently. A \<open>task\<close> is a handler cut at its calls: it asks
  for one thing of the shared world and goes on with the answer. \<open>run_task\<close> runs one task alone and
  gives back the handlers of \<open>Server\<close> (\<open>run_session\<close>); \<open>pool_run\<close> interleaves the tasks of a pool
  in the order of a schedule.

  One step is a placement, a field of the configuration, a method of the file client, or one call
  of Redis or MongoDB: the reads, sizes and removals of those clients are one call, a write through
  Redis is a \<^verbatim>\<open>get\<close> and a \<^verbatim>\<open>set\<close>, a write through MongoDB a \<^verbatim>\<open>find_one\<close>, a \<^verbatim>\<open>delete_many\<close> and an
  \<^verbatim>\<open>insert_one\<close>. Nothing in the server excludes other threads between two steps.
\<close>

section \<open>Tasks\<close>

datatype 'a task =
    Done 'a
  | Ask_conf "conf \<Rightarrow> 'a task"
  | Ask_place Data Data "DataDistribution list res \<Rightarrow> 'a task"
  | Ask_client uint16 "IOClientType res \<Rightarrow> 'a task"
  | Ask_read uint16 Data Data "Data res \<Rightarrow> 'a task"
  | Ask_size uint16 Data "size_t res \<Rightarrow> 'a task"
  | Do_remove uint16 Data "bool res \<Rightarrow> 'a task"
  | Do_file Data Data "Data res \<Rightarrow> 'a task"
  | Ask_get string "string + bytes option \<Rightarrow> 'a task"
  | Do_set string bytes "string + bool \<Rightarrow> 'a task"
  | Ask_find string "Data res \<Rightarrow> 'a task"
  | Do_delete string "string + unit \<Rightarrow> 'a task"
  | Do_insert string bytes "string + unit option \<Rightarrow> 'a task"

primrec task_bind :: "'a task \<Rightarrow> ('a \<Rightarrow> 'b task) \<Rightarrow> 'b task" where
  "task_bind (Done x) g = g x"
| "task_bind (Ask_conf f) g = Ask_conf (\<lambda>c. task_bind (f c) g)"
| "task_bind (Ask_place src dst f) g = Ask_place src dst (\<lambda>r. task_bind (f r) g)"
| "task_bind (Ask_client ix f) g = Ask_client ix (\<lambda>r. task_bind (f r) g)"
| "task_bind (Ask_read ix src dst f) g = Ask_read ix src dst (\<lambda>r. task_bind (f r) g)"
| "task_bind (Ask_size ix src f) g = Ask_size ix src (\<lambda>r. task_bind (f r) g)"
| "task_bind (Do_remove ix src f) g = Do_remove ix src (\<lambda>r. task_bind (f r) g)"
| "task_bind (Do_file src dst f) g = Do_file src dst (\<lambda>r. task_bind (f r) g)"
| "task_bind (Ask_get k f) g = Ask_get k (\<lambda>r. task_bind (f r) g)"
| "task_bind (Do_set k v f) g = Do_set k v (\<lambda>r. task_bind (f r) g)"
| "task_bind (Ask_find k f) g = Ask_find k (\<lambda>r. task_bind (f r) g)"
| "task_bind (Do_delete k f) g = Do_delete k (\<lambda>r. task_bind (f r) g)"
| "task_bind (Do_insert k v f) g = Do_insert k v (\<lambda>r. task_bind (f r) g)"

text \<open>Going on with a result, or ending with its fault.\<close>

definition task_then :: "'a res task \<Rightarrow> ('a \<Rightarrow> 'b res task) \<Rightarrow> 'b res task" where
  "task_then t g = task_bind t (\<lambda>r. case r of Inl e \<Rightarrow> Done (Inl e) | Inr x \<Rightarrow> g x)"

text \<open>The calls of Redis and MongoDB, on their part of the world.\<close>

definition world_set ::
  "('r, 'm) env \<Rightarrow> ('r, 'm) world \<Rightarrow> string \<Rightarrow> bytes \<Rightarrow> (string + bool) \<times> ('r, 'm) world" where
  "world_set E w k v = (case redis_set (e_redis E) (w_redis w) k v of (r, s) \<Rightarrow> (r, w\<lparr>w_redis := s\<rparr>))"

definition world_find :: "('r, 'm) env \<Rightarrow> ('r, 'm) world \<Rightarrow> string \<Rightarrow> Data res" where
  "world_find E w k =
     MongoIOClient_Read (e_junk E) (e_mongo E) (w_mongo w) (default_Data\<lparr>d_id := k\<rparr>) (default_Data\<lparr>d_id := k\<rparr>)"

definition world_delete :: "('r, 'm) env \<Rightarrow> ('r, 'm) world \<Rightarrow> string \<Rightarrow> (string + unit) \<times> ('r, 'm) world" where
  "world_delete E w k = (case mongo_delete_many (e_mongo E) (w_mongo w) k of (r, s) \<Rightarrow> (r, w\<lparr>w_mongo := s\<rparr>))"

definition world_insert ::
  "('r, 'm) env \<Rightarrow> ('r, 'm) world \<Rightarrow> string \<Rightarrow> bytes \<Rightarrow> (string + unit option) \<times> ('r, 'm) world" where
  "world_insert E w k v =
     (case mongo_insert_one (e_mongo E) (w_mongo w) k v of
        (r, s) \<Rightarrow> (map_sum id (map_option (\<lambda>is_oid. ())) r, w\<lparr>w_mongo := s\<rparr>))"

fun task_step :: "('r, 'm) env \<Rightarrow> 'a task \<Rightarrow> ('r, 'm) world \<Rightarrow> 'a task \<times> ('r, 'm) world" where
  "task_step E (Done x) w = (Done x, w)"
| "task_step E (Ask_conf f) w = (f (w_conf w), w)"
| "task_step E (Ask_place src dst f) w = (case Distribute E w src dst of (r, w') \<Rightarrow> (f r, w'))"
| "task_step E (Ask_client ix f) w = (f (GetIOClient w ix), w)"
| "task_step E (Ask_read ix src dst f) w = (f (Io_Read E w ix src dst), w)"
| "task_step E (Ask_size ix src f) w = (f (Io_Size E w ix src), w)"
| "task_step E (Do_remove ix src f) w = (case Io_Remove E w ix src of (r, w') \<Rightarrow> (f r, w'))"
| "task_step E (Do_file src dst f) w = (case client_Write E FILE_IO w src dst of (r, w') \<Rightarrow> (f r, w'))"
| "task_step E (Ask_get k f) w = (f (redis_get (e_redis E) (w_redis w) k), w)"
| "task_step E (Do_set k v f) w = (case world_set E w k v of (r, w') \<Rightarrow> (f r, w'))"
| "task_step E (Ask_find k f) w = (f (world_find E w k), w)"
| "task_step E (Do_delete k f) w = (case world_delete E w k of (r, w') \<Rightarrow> (f r, w'))"
| "task_step E (Do_insert k v f) w = (case world_insert E w k v of (r, w') \<Rightarrow> (f r, w'))"

primrec run_task :: "('r, 'm) env \<Rightarrow> 'a task \<Rightarrow> ('r, 'm) world \<Rightarrow> 'a \<times> ('r, 'm) world" where
  "run_task E (Done x) w = (x, w)"
| "run_task E (Ask_conf f) w = run_task E (f (w_conf w)) w"
| "run_task E (Ask_place src dst f) w = (case Distribute E w src dst of (r, w') \<Rightarrow> run_task E (f r) w')"
| "run_task E (Ask_client ix f) w = run_task E (f (GetIOClient w ix)) w"
| "run_task E (Ask_read ix src dst f) w = run_task E (f (Io_Read E w ix src dst)) w"
| "run_task E (Ask_size ix src f) w = run_task E (f (Io_Size E w ix src)) w"
| "run_task E (Do_remove ix src f) w = (case Io_Remove E w ix src of (r, w') \<Rightarrow> run_task E (f r) w')"
| "run_task E (Do_file src dst f) w = (case client_Write E FILE_IO w src dst of (r, w') \<Rightarrow> run_task E (f r) w')"
| "run_task E (Ask_get k f) w = run_task E (f (redis_get (e_redis E) (w_redis w) k)) w"
| "run_task E (Do_set k v f) w = (case world_set E w k v of (r, w') \<Rightarrow> run_task E (f r) w')"
| "run_task E (Ask_find k f) w = run_task E (f (world_find E w k)) w"
| "run_task E (Do_delete k f) w = (case world_delete E w k of (r, w') \<Rightarrow> run_task E (f r) w')"
| "run_task E (Do_insert k v f) w = (case world_insert E w k v of (r, w') \<Rightarrow> run_task E (f r) w')"

text \<open>A pool of tasks; an entry of the schedule names the task that makes the next step.\<close>

fun pool_run ::
  "('r, 'm) env \<Rightarrow> nat list \<Rightarrow> 'a task list \<Rightarrow> ('r, 'm) world \<Rightarrow> 'a task list \<times> ('r, 'm) world" where
  "pool_run E [] ts w = (ts, w)"
| "pool_run E (i # sched) ts w =
     (if i < length ts
      then case task_step E (ts ! i) w of (t, w') \<Rightarrow> pool_run E sched (ts[i := t]) w'
      else pool_run E sched ts w)"

section \<open>Writing through a storage client\<close>

text \<open>\<^verbatim>\<open>RedisIOClient::Write\<close>: the old value is read, the new one set.\<close>

definition redis_put_task :: "string \<Rightarrow> bytes \<Rightarrow> Data \<Rightarrow> (Data res \<Rightarrow> 'a task) \<Rightarrow> 'a task" where
  "redis_put_task key v source f =
     Do_set key v (\<lambda>r. case r of
         Inl err \<Rightarrow> f (Inl (Thrown REDIS_SERVER_SIDE_FAILED))
       | Inr result \<Rightarrow> if \<not> result then f (Inl (Thrown WRITE_REDIS_DATA_FAILED)) else f (Inr source))"

definition redis_write_task :: "Data \<Rightarrow> Data \<Rightarrow> (Data res \<Rightarrow> 'a task) \<Rightarrow> 'a task" where
  "redis_write_task source destination f =
     Ask_get (d_id destination) (\<lambda>r. case r of
         Inl err \<Rightarrow> f (Inl (Thrown REDIS_SERVER_SIDE_FAILED))
       | Inr (Some old_value) \<Rightarrow>
           (case redis_new_value old_value source destination of
              None \<Rightarrow> f (Inl Undefined)
            | Some new_val \<Rightarrow> redis_put_task (d_id destination) new_val source f)
       | Inr None \<Rightarrow>
           (case mem_read (unat (d_position source)) (unat (d_data_size source)) (old_bytes (d_buffer source)) of
              None \<Rightarrow> f (Inl Undefined)
            | Some v \<Rightarrow> redis_put_task (d_id destination) v source f))"

text \<open>\<^verbatim>\<open>MongoIOClient::Write\<close>: the old document is read, deleted and the new one inserted.\<close>

definition mongo_insert_task :: "string \<Rightarrow> bytes \<Rightarrow> Data \<Rightarrow> (Data res \<Rightarrow> 'a task) \<Rightarrow> 'a task" where
  "mongo_insert_task key new_val source f =
     Do_insert key new_val (\<lambda>r. case r of
         Inl err \<Rightarrow> f (Inl (Std_Exn err))
       | Inr None \<Rightarrow> f (Inl Undefined)
       | Inr (Some _) \<Rightarrow> f (Inr source))"

definition mongo_write_task :: "Data \<Rightarrow> Data \<Rightarrow> (Data res \<Rightarrow> 'a task) \<Rightarrow> 'a task" where
  "mongo_write_task source destination f =
     Ask_find (d_id destination) (\<lambda>r. case r of
         Inl Undefined \<Rightarrow> f (Inl Undefined)
       | Inl _ \<Rightarrow>
           (case mem_read (unat (d_position source)) (unat (d_data_size source)) (old_bytes (d_buffer source)) of
              None \<Rightarrow> f (Inl Undefined)
            | Some new_val \<Rightarrow> mongo_insert_task (d_id destination) new_val source f)
       | Inr read_source \<Rightarrow>
           (case mongo_new_value read_source source destination of
              None \<Rightarrow> f (Inl Undefined)
            | Some new_val \<Rightarrow>
                Do_delete (d_id destination) (\<lambda>r. case r of
                    Inl err \<Rightarrow> f (Inl (Std_Exn err))
                  | Inr _ \<Rightarrow> mongo_insert_task (d_id destination) new_val (source\<lparr>d_position := 0\<rparr>) f)))"

text \<open>\<^verbatim>\<open>GetIOClient(ix)->Write(source, destination)\<close>, and what follows it.\<close>

definition write_task :: "uint16 \<Rightarrow> Data \<Rightarrow> Data \<Rightarrow> (Data res \<Rightarrow> 'a task) \<Rightarrow> 'a task" where
  "write_task ix source destination f =
     Ask_client ix (\<lambda>r. case r of
         Inl e \<Rightarrow> f (Inl e)
       | Inr FILE_IO \<Rightarrow> Do_file source destination f
       | Inr REDIS_IO \<Rightarrow> redis_write_task source destination f
       | Inr MONGO_IO \<Rightarrow> mongo_write_task source destination f)"

section \<open>The metadata orchestrator\<close>

definition unpack_metadata :: "('r, 'm) env \<Rightarrow> Data \<Rightarrow> Metadata res" where
  "unpack_metadata E d =
     (case mem_read 0 (unat (d_data_size d)) (old_bytes (d_buffer d)) of
        None \<Rightarrow> Inl Undefined
      | Some s \<Rightarrow>
          (case e_unpack E s of
             Inl err \<Rightarrow> Inl (Std_Exn err)
           | Inr ob \<Rightarrow> convert_Metadata ob))"

definition load_task :: "('r, 'm) env \<Rightarrow> uint16 \<Rightarrow> Data \<Rightarrow> Metadata res task" where
  "load_task E ix src = Ask_read ix src src (\<lambda>r. Done (and_then r (unpack_metadata E)))"

definition primary_task :: "('r, 'm) env \<Rightarrow> Data \<Rightarrow> Metadata res task" where
  "primary_task E request =
     task_then
       (load_task E (d_storage_index request)
          (default_Data\<lparr>d_id := meta_id request, d_storage_index := d_storage_index request\<rparr>))
       (\<lambda>metadata.
          if \<not> m_is_link metadata then Done (Inr metadata)
          else let original_metadata = links_at (m_links metadata) (- 1)
               in load_task E (d_storage_index original_metadata) original_metadata)"

definition locate_task :: "('r, 'm) env \<Rightarrow> Data \<Rightarrow> (DataDistribution list \<times> Metadata) res task" where
  "locate_task E request =
     task_then (primary_task E request) (\<lambda>primary.
       Ask_conf (\<lambda>c. Done (and_then (segment_request (MAX_OBJ_SIZE c) request primary) (\<lambda>distributions.
         Inr (distributions, primary)))))"

definition write_primary_task :: "('r, 'm) env \<Rightarrow> string \<Rightarrow> Metadata \<Rightarrow> Data res task" where
  "write_primary_task E key primary =
     (case pack_bytes E primary of
        Inl e \<Rightarrow> Done (Inl e)
      | Inr s \<Rightarrow>
          let original_metadata = meta_data key (m_storage_index primary) s
          in write_task (m_storage_index primary) original_metadata original_metadata (\<lambda>r.
               Done (and_then r (\<lambda>d. Inr (d\<lparr>d_buffer := None\<rparr>)))))"

fun write_links_task :: "uint16 \<Rightarrow> Data \<Rightarrow> storage_solutions \<Rightarrow> unit res task" where
  "write_links_task primary_ix link_meta [] = Done (Inr ())"
| "write_links_task primary_ix link_meta ((ix, s) # sols) =
     (if ix = primary_ix then write_links_task primary_ix link_meta sols
      else let link_meta1 = link_meta\<lparr>d_storage_index := ix\<rparr>
           in write_task ix link_meta1 link_meta1 (\<lambda>r.
                case r of
                  Inl e \<Rightarrow> Done (Inl e)
                | Inr link_meta' \<Rightarrow> write_links_task primary_ix link_meta' sols))"

text \<open>The two branches of \<^verbatim>\<open>MetadataOrchestrator::Store\<close>.\<close>

definition update_task ::
  "('r, 'm) env \<Rightarrow> size_t \<Rightarrow> string \<Rightarrow> DataDistribution list \<Rightarrow> Metadata \<Rightarrow> DataDistribution list res task" where
  "update_task E M key distributions primary =
     (case store_existing M distributions primary of
        (distributions', primary', is_metadata_updated) \<Rightarrow>
          if is_metadata_updated
          then task_then (write_primary_task E key primary') (\<lambda>_. Done (Inr distributions'))
          else Done (Inr distributions'))"

definition create_task ::
  "('r, 'm) env \<Rightarrow> size_t \<Rightarrow> string \<Rightarrow> Data \<Rightarrow> DataDistribution list \<Rightarrow> DataDistribution list res task" where
  "create_task E M key original_request distributions =
     (if M = 0 \<and> distributions \<noteq> [] then Done (Inl Undefined)
      else case store_fresh M distributions
                  (default_Metadata\<lparr>m_is_link := False,
                     m_storage_index := d_storage_index original_request\<rparr>) of
             (distributions', primary') \<Rightarrow>
               task_then (write_primary_task E key primary') (\<lambda>original_metadata.
               task_then (Done (pack_bytes E (link_metadata original_metadata))) (\<lambda>s.
               Ask_conf (\<lambda>c.
               task_then (write_links_task (d_storage_index original_request) (meta_data key 0 s)
                            (STORAGE_SOLUTIONS c)) (\<lambda>_.
               Done (Inr distributions'))))))"

definition orchestrator_store_task ::
  "('r, 'm) env \<Rightarrow> Data \<Rightarrow> DataDistribution list \<Rightarrow> DataDistribution list res task" where
  "orchestrator_store_task E original_request distributions =
     Ask_conf (\<lambda>c.
     task_bind (locate_task E original_request) (\<lambda>r.
       case r of
         Inr (_, primary) \<Rightarrow>
           update_task E (MAX_OBJ_SIZE c) (meta_id original_request) distributions primary
       | Inl (Thrown e) \<Rightarrow>
           create_task E (MAX_OBJ_SIZE c) (meta_id original_request) original_request distributions
       | Inl e \<Rightarrow> Done (Inl e)))"

fun delete_metadata_task :: "string \<Rightarrow> storage_solutions \<Rightarrow> bool res task" where
  "delete_metadata_task key [] = Done (Inr True)"
| "delete_metadata_task key ((ix, s) # sols) =
     Do_remove ix (default_Data\<lparr>d_id := key, d_storage_index := ix\<rparr>) (\<lambda>r.
       case r of Inl e \<Rightarrow> Done (Inl e) | Inr _ \<Rightarrow> delete_metadata_task key sols)"

section \<open>The server\<close>

fun write_pieces_task :: "DataDistribution list \<Rightarrow> unit res task" where
  "write_pieces_task [] = Done (Inr ())"
| "write_pieces_task (d # ds) =
     write_task (d_storage_index (dd_destination_data d)) (dd_source_data d) (dd_destination_data d) (\<lambda>r.
       case r of Inl e \<Rightarrow> Done (Inl e) | Inr _ \<Rightarrow> write_pieces_task ds)"

definition store_task :: "('r, 'm) env \<Rightarrow> Data \<Rightarrow> Data \<Rightarrow> int res task" where
  "store_task E source destination =
     Ask_place source destination (\<lambda>r.
     task_then (Done r) (\<lambda>distributions.
     task_then (orchestrator_store_task E destination distributions) (\<lambda>distributions'.
     task_then (write_pieces_task distributions') (\<lambda>_.
     Ask_conf (\<lambda>c. Done (Inr (uint (SERVER_COUNT c))))))))"

fun read_pieces_task :: "DataDistribution list \<Rightarrow> int32 \<Rightarrow> (Data list \<times> int32) res task" where
  "read_pieces_task [] total_size = Done (Inr ([], total_size))"
| "read_pieces_task (d # ds) total_size =
     Ask_read (d_storage_index (dd_destination_data d)) (dd_source_data d) (dd_destination_data d) (\<lambda>r.
     task_then (Done r) (\<lambda>dst.
     task_then (read_pieces_task ds (total_size + ucast (d_data_size dst))) (\<lambda>(dsts, tot).
     Done (Inr (dst # dsts, tot)))))"

definition server_locate_task :: "('r, 'm) env \<Rightarrow> Data \<Rightarrow> Data \<Rightarrow> Data res task" where
  "server_locate_task E source destination =
     task_then (locate_task E source) (\<lambda>(distributions, primary).
     task_then (read_pieces_task distributions 0) (\<lambda>(pieces, total_size).
     Done (if sint total_size < 0 then Inl Undefined
           else and_then (join_pieces pieces 0 (malloc (e_junk E) (nat (sint total_size)))) (\<lambda>buf.
                  Inr (destination\<lparr>d_buffer := Some buf\<rparr>)))))"

fun size_pieces_task :: "DataDistribution list \<Rightarrow> int32 \<Rightarrow> int32 res task" where
  "size_pieces_task [] total_size = Done (Inr total_size)"
| "size_pieces_task (d # ds) total_size =
     Ask_size (d_storage_index (dd_destination_data d)) (dd_destination_data d) (\<lambda>r.
       case r of Inl e \<Rightarrow> Done (Inl e) | Inr n \<Rightarrow> size_pieces_task ds (total_size + ucast n))"

definition server_size_task :: "('r, 'm) env \<Rightarrow> Data \<Rightarrow> size_t res task" where
  "server_size_task E request =
     task_bind (locate_task E request) (\<lambda>r.
       case r of
         Inl (Thrown e) \<Rightarrow> Done (Inr 0)
       | Inl e \<Rightarrow> Done (Inl e)
       | Inr (distributions, _) \<Rightarrow>
           task_then (size_pieces_task distributions 0) (\<lambda>total_size. Done (Inr (scast total_size))))"

fun remove_pieces_task :: "DataDistribution list \<Rightarrow> bool \<Rightarrow> bool res task" where
  "remove_pieces_task [] status = Done (Inr status)"
| "remove_pieces_task (d # ds) status =
     (if \<not> status then remove_pieces_task ds False
      else Do_remove (d_storage_index (dd_destination_data d)) (dd_source_data d) (\<lambda>r.
             case r of Inl e \<Rightarrow> Done (Inl e) | Inr removed \<Rightarrow> remove_pieces_task ds removed))"

definition server_delete_task :: "('r, 'm) env \<Rightarrow> Data \<Rightarrow> bool res task" where
  "server_delete_task E request =
     task_bind (locate_task E request) (\<lambda>r.
       case r of
         Inl (Thrown e) \<Rightarrow> Done (Inr False)
       | Inl e \<Rightarrow> Done (Inl e)
       | Inr (distributions, _) \<Rightarrow>
           task_then (remove_pieces_task distributions True) (\<lambda>status.
           if status then Ask_conf (\<lambda>c. delete_metadata_task (meta_id request) (STORAGE_SOLUTIONS c))
           else Done (Inr False)))"

section \<open>Sessions\<close>

text \<open>A request of a client to one object, and the requests a client makes one after the other.\<close>

fun serve_task :: "('r, 'm) env \<Rightarrow> string \<Rightarrow> request \<Rightarrow> answer task" where
  "serve_task E i (Put ix b) =
     task_bind (store_task E (put_source i b) (target i ix (length b)))
       (\<lambda>r. Done (case r of Inr _ \<Rightarrow> Stored | Inl _ \<Rightarrow> Failed))"
| "serve_task E i (Get ix) =
     task_bind (server_locate_task E (target i ix 0) default_Data)
       (\<lambda>r. Done (case r of Inr d \<Rightarrow> Content (old_bytes (d_buffer d)) | Inl (Thrown _) \<Rightarrow> Missing | Inl _ \<Rightarrow> Failed))"
| "serve_task E i (Len ix) =
     task_bind (server_size_task E (target i ix 0)) (\<lambda>r. Done (case r of Inr n \<Rightarrow> Length n | Inl _ \<Rightarrow> Failed))"
| "serve_task E i (Del ix) =
     task_bind (server_delete_task E (target i ix 0)) (\<lambda>r. Done (case r of Inr b \<Rightarrow> Deleted b | Inl _ \<Rightarrow> Failed))"

fun session :: "('r, 'm) env \<Rightarrow> (string \<times> request) list \<Rightarrow> answer list task" where
  "session E [] = Done []"
| "session E ((i, q) # qs) = task_bind (serve_task E i q) (\<lambda>a. task_bind (session E qs) (\<lambda>as. Done (a # as)))"

section \<open>Lemmas\<close>

lemma task_bind_Done [simp]: "task_bind t Done = t"
  by (induction t) simp_all

lemma task_bind_assoc [simp]: "task_bind (task_bind t f) g = task_bind t (\<lambda>x. task_bind (f x) g)"
  by (induction t) simp_all

lemma run_task_bind [simp]:
  "run_task E (task_bind t g) w = (case run_task E t w of (x, w') \<Rightarrow> run_task E (g x) w')"
  by (induction t arbitrary: w) (simp_all split: prod.splits)

lemma run_task_step: "run_task E (fst (task_step E t w)) (snd (task_step E t w)) = run_task E t w"
  by (cases t) (simp_all split: prod.splits)

lemma run_task_then:
  "run_task E (task_then t g) w =
     (case run_task E t w of (Inl e, w') \<Rightarrow> (Inl e, w') | (Inr x, w') \<Rightarrow> run_task E (g x) w')"
  by (simp add: task_then_def split: prod.splits sum.splits)

lemma task_then_Done [simp]:
  "task_then (Done (Inr x)) g = g x" "task_then (Done (Inl e)) g = Done (Inl e)"
  by (simp_all add: task_then_def)

lemma bind_write_task [simp]:
  "task_bind (write_task ix src dst f) g = write_task ix src dst (\<lambda>r. task_bind (f r) g)"
  by (simp add: write_task_def redis_write_task_def redis_put_task_def mongo_write_task_def mongo_insert_task_def
      fun_eq_iff split: sum.splits option.splits fault.splits IOClientType.splits)

lemma run_redis_write_task:
  "run_task E (redis_write_task src dst f) w =
     (case client_Write E REDIS_IO w src dst of (r, w') \<Rightarrow> run_task E (f r) w')"
  by (auto simp: redis_write_task_def redis_put_task_def RedisIOClient_Write_def redis_put_def world_set_def
      split: sum.splits option.splits prod.splits)

lemma run_mongo_write_task:
  "run_task E (mongo_write_task src dst f) w =
     (case client_Write E MONGO_IO w src dst of (r, w') \<Rightarrow> run_task E (f r) w')"
  by (auto simp: mongo_write_task_def mongo_insert_task_def MongoIOClient_Write_def mongo_insert_def world_find_def
      world_delete_def world_insert_def Let_def split: sum.splits option.splits prod.splits fault.splits)

lemma run_write_task [simp]:
  "run_task E (write_task ix src dst f) w = (case Io_Write E w ix src dst of (r, w') \<Rightarrow> run_task E (f r) w')"
  by (simp add: write_task_def Io_Write_def run_redis_write_task run_mongo_write_task
      split: sum.splits IOClientType.splits)

lemma run_load_task [simp]: "run_task E (load_task E ix src) w = (load_metadata E w ix src, w)"
  by (simp add: load_task_def load_metadata_def unpack_metadata_def [abs_def])

lemma run_primary_task [simp]: "run_task E (primary_task E r) w = (read_primary E w r, w)"
  by (auto simp: primary_task_def read_primary_def run_task_then and_then_def Let_def split: sum.splits)

lemma run_locate_task [simp]: "run_task E (locate_task E r) w = (Locate E w r, w)"
  by (simp add: locate_task_def Locate_def run_task_then and_then_def split: sum.splits)

lemma run_write_primary_task [simp]: "run_task E (write_primary_task E key m) w = write_primary E w key m"
  by (simp add: write_primary_task_def write_primary_def Let_def and_then_def split: sum.splits prod.splits)

lemma run_write_links_task [simp]: "run_task E (write_links_task p l sols) w = write_links E w p l sols"
  by (induction p l sols arbitrary: w rule: write_links_task.induct)
    (auto simp: Let_def split: sum.splits prod.splits)

lemma run_orchestrator_store_task [simp]:
  "run_task E (orchestrator_store_task E r ds) w = Orchestrator_Store E w r ds"
proof (cases "Locate E w r")
  case (Inl e)
  then show ?thesis
    by (cases e) (auto simp: orchestrator_store_task_def Orchestrator_Store_def create_task_def Let_def
        run_task_then task_then_def [of "Done _"] split: sum.splits prod.splits)
next
  case (Inr p)
  then show ?thesis
    by (auto simp: orchestrator_store_task_def Orchestrator_Store_def update_task_def Let_def run_task_then
        split: sum.splits prod.splits)
qed

lemma run_write_pieces_task [simp]: "run_task E (write_pieces_task ds) w = write_pieces E w ds"
  by (induction ds arbitrary: w) (auto split: sum.splits prod.splits)

lemma run_store_task [simp]: "run_task E (store_task E s d) w = Server_Store E w s d"
  by (auto simp: store_task_def Server_Store_def run_task_then split: sum.splits prod.splits)

lemma run_read_pieces_task [simp]: "run_task E (read_pieces_task ds n) w = (read_pieces E w ds n, w)"
  by (induction ds arbitrary: n) (auto simp: run_task_then and_then_def split: sum.splits prod.splits)

lemma run_server_locate_task [simp]: "run_task E (server_locate_task E s d) w = (Server_Locate E w s d, w)"
  by (auto simp: server_locate_task_def Server_Locate_def run_task_then and_then_def split: sum.splits prod.splits)

lemma run_size_pieces_task [simp]: "run_task E (size_pieces_task ds n) w = (size_pieces E w ds n, w)"
  by (induction ds arbitrary: n) (auto simp: and_then_def split: sum.splits)

lemma run_server_size_task [simp]: "run_task E (server_size_task E r) w = (Server_Size E w r, w)"
  by (auto simp: server_size_task_def Server_Size_def run_task_then and_then_def
      split: sum.splits prod.splits fault.splits)

lemma run_remove_pieces_task [simp]: "run_task E (remove_pieces_task ds b) w = remove_pieces E w ds b"
  by (induction ds arbitrary: w b) (auto split: sum.splits prod.splits)

lemma run_delete_metadata_task [simp]: "run_task E (delete_metadata_task k sols) w = delete_metadata E w k sols"
  by (induction k sols arbitrary: w rule: delete_metadata_task.induct) (auto split: sum.splits prod.splits)

lemma run_server_delete_task [simp]: "run_task E (server_delete_task E r) w = Server_Delete E w r"
  by (auto simp: server_delete_task_def Server_Delete_def Orchestrator_Delete_def run_task_then
      split: sum.splits prod.splits fault.splits)

lemma run_serve_task [simp]: "run_task E (serve_task E i q) w = serve E i w q"
  by (cases q) (auto split: sum.splits prod.splits fault.splits)

lemma run_session [simp]:
  "run_task E (session E qs) w = service_run (\<lambda>w (i, q). serve E i w q) w qs"
  by (induction E qs arbitrary: w rule: session.induct) (auto split: prod.splits)

end
