(* ===== verification/Isolation.thy ===== *)
theory Isolation
  imports Tasks
begin

text \<open>
  Handlers that work on different objects do not disturb each other, however their steps
  interleave. \<open>agree\<close> relates worlds in which the clients are equally available and hold the
  same under a set of keys. A task is \<open>safe\<close> for a set of keys when, whatever the other tasks
  do to the remaining keys between two of its steps, it changes its own keys only and ends in
  its postcondition. \<open>served\<close> tasks, whose calls are on keys of the set and within what the
  clients promise, are safe and end as they end alone (\<open>safe_run\<close>).
\<close>

section \<open>Worlds that agree on keys\<close>

definition agree :: "('r, 'm) env \<Rightarrow> string set \<Rightarrow> ('r, 'm) world \<Rightarrow> ('r, 'm) world \<Rightarrow> bool" where
  "agree E K w' w \<longleftrightarrow>
     serves_like E w' w \<and> (\<forall>t. \<forall>k \<in> K. client_obj E t w' k = client_obj E t w k)"

lemma agree_refl [simp]: "agree E K w w"
  by (simp add: agree_def)

lemma agree_trans: "agree E K w2 w1 \<Longrightarrow> agree E K w1 w \<Longrightarrow> agree E K w2 w"
  by (auto simp: agree_def intro: serves_like_trans)

lemma agree_mono: "agree E K w' w \<Longrightarrow> J \<subseteq> K \<Longrightarrow> agree E J w' w"
  by (auto simp: agree_def)

lemma agree_conf: "agree E K w' w \<Longrightarrow> w_conf w' = w_conf w"
  by (simp add: agree_def serves_like_def)

lemma agree_client: "agree E K w' w \<Longrightarrow> GetIOClient w' = GetIOClient w"
  unfolding agree_def by (blast intro: serves_like_GetIOClient)

lemma agree_serves:
  "agree E K w' w \<Longrightarrow> client_up E t w' = client_up E t w" "agree E K w' w \<Longrightarrow> client_fits t w' = client_fits t w"
  by (simp_all add: agree_def serves_like_def)

lemma agree_obj: "agree E K w' w \<Longrightarrow> k \<in> K \<Longrightarrow> client_obj E t w' k = client_obj E t w k"
  by (simp add: agree_def)

lemmas agree_simps = agree_conf agree_client agree_serves agree_obj

text \<open>The keys of an object decide what the world represents of it.\<close>

definition object_keys :: "string set \<Rightarrow> string set" where
  "object_keys N = meta_key ` N \<union> data_key ` N"

lemma object_keys_mem [simp]: "i \<in> N \<Longrightarrow> meta_key i \<in> object_keys N" "i \<in> N \<Longrightarrow> data_key i \<in> object_keys N"
  by (simp_all add: object_keys_def)

lemma object_keys_disjoint: "N \<inter> N' = {} \<Longrightarrow> object_keys N \<inter> object_keys N' = {}"
  by (auto simp: object_keys_def)

lemma represents_agree:
  assumes "represents E c i n w v" "agree E K w' w" "meta_key i \<in> K" "data_key i \<in> K"
  shows "represents E c i n w' v"
proof -
  have like: "serves_like E w' w" using assms(2) by (simp add: agree_def)
  have meta: "client_obj E t w' (meta_key i) = client_obj E t w (meta_key i)"
    and dat: "client_obj E t w' (data_key i) = client_obj E t w (data_key i)" for t
    using assms(2-4) by (simp_all add: agree_obj)
  have "absent E w' i n \<longleftrightarrow> absent E w i n"
    using key_ready_frame [OF like meta] key_ready_frame [OF like dat]
    by (simp add: absent_def meta dat agree_client [OF assms(2)])
  moreover have "stores E w' i x n \<longleftrightarrow> stores E w i x n" for x
    using key_ready_frame [OF like meta] key_ready_frame [OF like dat] published_frame [OF like meta]
    by (simp add: stores_def dat agree_client [OF assms(2)])
  ultimately show ?thesis
    using assms(1) system_ok_like [OF like] like
    by (auto simp: represents_def serves_like_def split: option.splits)
qed

section \<open>Calls that the clients serve\<close>

definition readable :: "('r, 'm) env \<Rightarrow> ('r, 'm) world \<Rightarrow> uint16 \<Rightarrow> Data \<Rightarrow> Data \<Rightarrow> bool" where
  "readable E w ix src dst \<longleftrightarrow>
     (\<exists>t. GetIOClient w ix = Inr t \<and> client_up E t w (d_id src) \<and> d_position src = 0 \<and> d_position dst = 0 \<and>
        (case client_obj E t w (d_id src) of
           None \<Rightarrow> True
         | Some v \<Rightarrow> client_fits t w (length v) \<and> unat (d_data_size src) \<le> length v))"

definition writable :: "('r, 'm) env \<Rightarrow> ('r, 'm) world \<Rightarrow> uint16 \<Rightarrow> Data \<Rightarrow> Data \<Rightarrow> bool" where
  "writable E w ix src dst \<longleftrightarrow>
     (\<exists>t b. GetIOClient w ix = Inr t \<and> client_up E t w (d_id dst) \<and> whole src b \<and> d_position dst = 0 \<and>
        client_fits t w (length b) \<and> client_fits t w (length (old_bytes (client_obj E t w (d_id dst)))))"

definition sizable :: "('r, 'm) env \<Rightarrow> ('r, 'm) world \<Rightarrow> uint16 \<Rightarrow> Data \<Rightarrow> bool" where
  "sizable E w ix src \<longleftrightarrow>
     (\<exists>t. GetIOClient w ix = Inr t \<and> client_up E t w (d_id src) \<and>
        client_fits t w (length (old_bytes (client_obj E t w (d_id src)))))"

definition removable :: "('r, 'm) env \<Rightarrow> ('r, 'm) world \<Rightarrow> uint16 \<Rightarrow> Data \<Rightarrow> bool" where
  "removable E w ix src \<longleftrightarrow> (\<exists>t. GetIOClient w ix = Inr t \<and> client_up E t w (d_id src))"

fun absent_code :: "IOClientType \<Rightarrow> ErrorCode" where
  "absent_code FILE_IO = OPEN_FILE_FAILED"
| "absent_code REDIS_IO = READ_REDIS_DATA_FAILED"
| "absent_code MONGO_IO = READ_MONGODB_DATA_FAILED"

lemma client_Read_absent:
  "client_up E t w (d_id src) \<Longrightarrow> client_obj E t w (d_id src) = None \<Longrightarrow>
   client_Read E t w src dst = Inl (Thrown (absent_code t))"
  by (cases t) (simp_all add: FileIOClient_Read_def posix_open_rdonly_def RedisIOClient_Read_def redis_up_def
      redis_ok_get mongo_up_def MongoIOClient_Read_absent)

lemma Io_Read_agree:
  assumes "readable E w ix src dst" "agree E K w' w" "d_id src \<in> K"
  shows "Io_Read E w' ix src dst = Io_Read E w ix src dst"
proof -
  obtain t where t: "GetIOClient w ix = Inr t" "client_up E t w (d_id src)" "d_position src = 0" "d_position dst = 0"
    and v: "\<And>v. client_obj E t w (d_id src) = Some v \<Longrightarrow> client_fits t w (length v) \<and> unat (d_data_size src) \<le> length v"
    using assms(1) by (auto simp: readable_def split: option.splits)
  note same = agree_simps [OF assms(2)] assms(3)
  have "client_Read E t w' src dst = client_Read E t w src dst"
  proof (cases "client_obj E t w (d_id src)")
    case None
    then show ?thesis using t(2) by (simp add: client_Read_absent same)
  next
    case (Some x)
    note x = this v [OF Some]
    show ?thesis
    proof (cases "d_data_size src = 0")
      case True
      then show ?thesis
        using client_store.rd_whole [of E t w src x dst] client_store.rd_whole [of E t w' src x dst] x t(2-4)
        by (simp add: same)
    next
      case False
      then have "0 < unat (d_data_size src)" by (simp add: unat_gt_0)
      then show ?thesis
        using client_store.rd_prefix [of E t w src x "unat (d_data_size src)" dst]
          client_store.rd_prefix [of E t w' src x "unat (d_data_size src)" dst] x t(2-4)
        by (simp add: same)
    qed
  qed
  then show ?thesis using t(1) by (simp add: Io_Read_def same)
qed

lemma Io_Size_agree:
  assumes "sizable E w ix src" "agree E K w' w" "d_id src \<in> K"
  shows "Io_Size E w' ix src = Io_Size E w ix src"
proof -
  note same = agree_simps [OF assms(2)] assms(3)
  obtain t where "GetIOClient w ix = Inr t" "client_up E t w (d_id src)"
    "client_fits t w (length (old_bytes (client_obj E t w (d_id src))))"
    using assms(1) by (auto simp: sizable_def)
  then show ?thesis
    using client_store.sz_length [of E t w src] client_store.sz_length [of E t w' src]
    by (simp add: Io_Size_def same)
qed

text \<open>A call that changes an object makes the same change in worlds that agree, and changes no other key.\<close>

lemma agree_update:
  assumes "agree E K w' w" "serves_like E v' w'" "serves_like E v w"
    and "client_obj E t v' = (client_obj E t w')(k := x)" "client_obj E t v = (client_obj E t w)(k := x)"
    and "\<And>u. u \<noteq> t \<Longrightarrow> client_obj E u v' = client_obj E u w'" "\<And>u. u \<noteq> t \<Longrightarrow> client_obj E u v = client_obj E u w"
    and "k \<in> K"
  shows "agree E K v' v" "agree E (- K) v' w'"
proof -
  have like: "serves_like E v' v" using assms(1-3) by (auto simp: agree_def serves_like_def)
  have "client_obj E u v' k' = client_obj E u v k'" if "k' \<in> K" for u k'
    using that assms(4-7) agree_obj [OF assms(1) that, of u] by (cases "u = t") auto
  then show "agree E K v' v" using like by (simp add: agree_def)
  have "client_obj E u v' k' = client_obj E u w' k'" if "k' \<in> - K" for u k'
    using that assms(4,6,8) by (cases "u = t") auto
  then show "agree E (- K) v' w'" using assms(2) by (simp add: agree_def)
qed

text \<open>The calls of Redis and MongoDB.\<close>

lemma serves_like_services [simp]:
  "serves_like E (w\<lparr>w_redis := s\<rparr>) w" "serves_like E (w\<lparr>w_mongo := z\<rparr>) w"
proof -
  have "client_up E t (w\<lparr>w_redis := s\<rparr>) = client_up E t w \<and> client_fits t (w\<lparr>w_redis := s\<rparr>) = client_fits t w \<and>
      client_up E t (w\<lparr>w_mongo := z\<rparr>) = client_up E t w \<and> client_fits t (w\<lparr>w_mongo := z\<rparr>) = client_fits t w" for t
    by (cases t) (simp_all add: fun_eq_iff redis_up_def mongo_up_def redis_fits_def mongo_fits_def)
  then show "serves_like E (w\<lparr>w_redis := s\<rparr>) w" "serves_like E (w\<lparr>w_mongo := z\<rparr>) w"
    by (simp_all add: serves_like_def)
qed

lemma world_set_ok:
  assumes "redis_ok (e_redis E)" "length v \<le> redis_max"
  obtains w' where "world_set E w k v = (Inr True, w')" "serves_like E w' w"
    "client_obj E REDIS_IO w' = (client_obj E REDIS_IO w)(k \<mapsto> v)"
    "\<And>t. t \<noteq> REDIS_IO \<Longrightarrow> client_obj E t w' = client_obj E t w"
proof -
  obtain s where "redis_set (e_redis E) (w_redis w) k v = (Inr True, s)"
    "redis_obj (e_redis E) s = (redis_obj (e_redis E) (w_redis w))(k \<mapsto> v)"
    using assms by (rule redis_ok_set)
  moreover have "client_obj E t (w\<lparr>w_redis := s\<rparr>) = client_obj E t w" if "t \<noteq> REDIS_IO" for t
    using that by (cases t) simp_all
  ultimately show ?thesis using that [of "w\<lparr>w_redis := s\<rparr>"] by (simp add: world_set_def)
qed

lemma mongo_other: "t \<noteq> MONGO_IO \<Longrightarrow> client_obj E t (w\<lparr>w_mongo := s\<rparr>) = client_obj E t w"
  by (cases t) simp_all

lemma world_delete_ok:
  assumes "mongo_ok (e_mongo E)"
  obtains w' where "world_delete E w k = (Inr (), w')" "serves_like E w' w"
    "client_obj E MONGO_IO w' = (client_obj E MONGO_IO w)(k := None)"
    "\<And>t. t \<noteq> MONGO_IO \<Longrightarrow> client_obj E t w' = client_obj E t w"
proof -
  obtain s where "mongo_delete_many (e_mongo E) (w_mongo w) k = (Inr (), s)"
    "mongo_obj (e_mongo E) s = (mongo_obj (e_mongo E) (w_mongo w))(k := None)"
    using assms by (rule mongo_ok_delete)
  then show ?thesis using that [of "w\<lparr>w_mongo := s\<rparr>"] by (simp add: world_delete_def mongo_other)
qed

lemma world_insert_ok:
  assumes "mongo_ok (e_mongo E)" "client_obj E MONGO_IO w k = None" "bson_fits k v"
  obtains w' where "world_insert E w k v = (Inr (Some ()), w')" "serves_like E w' w"
    "client_obj E MONGO_IO w' = (client_obj E MONGO_IO w)(k \<mapsto> v)"
    "\<And>t. t \<noteq> MONGO_IO \<Longrightarrow> client_obj E t w' = client_obj E t w"
proof -
  have "mongo_find_one (e_mongo E) (w_mongo w) k = Inr None" using assms(1,2) by (simp add: mongo_ok_find)
  then obtain b s where "mongo_insert_one (e_mongo E) (w_mongo w) k v = (Inr (Some b), s)"
    "mongo_find_one (e_mongo E) s = (mongo_find_one (e_mongo E) (w_mongo w))(k := Inr (Some v))"
    using assms unfolding mongo_ok_def by blast
  moreover from this(2) have "mongo_obj (e_mongo E) s = (mongo_obj (e_mongo E) (w_mongo w))(k \<mapsto> v)"
    by (simp add: mongo_obj_def fun_eq_iff)
  ultimately show ?thesis using that [of "w\<lparr>w_mongo := s\<rparr>"] by (simp add: world_insert_def mongo_other)
qed

lemma world_find_ok:
  assumes "mongo_ok (e_mongo E)" "\<And>v. client_obj E MONGO_IO w k = Some v \<Longrightarrow> length v < 2 ^ 63"
  shows "world_find E w k =
    (case client_obj E MONGO_IO w k of None \<Rightarrow> Inl (Thrown READ_MONGODB_DATA_FAILED) | Some v \<Rightarrow> Inr (mongo_doc v k))"
  using assms MongoIOClient_probe [OF assms(1), of "w_mongo w" k]
  by (auto simp: world_find_def MongoIOClient_Read_absent split: option.splits)

section \<open>Safe tasks\<close>

inductive safe ::
  "('r, 'm) env \<Rightarrow> string set \<Rightarrow> ('a \<Rightarrow> ('r, 'm) world \<Rightarrow> bool) \<Rightarrow> 'a task \<Rightarrow> ('r, 'm) world \<Rightarrow> bool"
  for E K Q where
  safe_done: "(\<And>w'. agree E K w' w \<Longrightarrow> Q x w') \<Longrightarrow> safe E K Q (Done x) w"
| safe_step: "(\<And>w'. agree E K w' w \<Longrightarrow>
     agree E (- K) (snd (task_step E t w')) w' \<and>
     safe E K Q (fst (task_step E t w')) (snd (task_step E t w'))) \<Longrightarrow> safe E K Q t w"

lemma safe_agree: "safe E K Q t w \<Longrightarrow> agree E K v w \<Longrightarrow> safe E K Q t v"
  by (erule safe.cases) (hypsubst, rule safe_done, blast intro: agree_trans, rule safe_step, blast intro: agree_trans)

lemma safe_Done: "safe E K Q (Done x) w \<Longrightarrow> Q x w"
proof (induction "Done x" w rule: safe.induct)
  case (safe_done w)
  then show ?case by simp
next
  case (safe_step w)
  then show ?case by force
qed

lemma safe_next:
  "safe E K Q t w \<Longrightarrow>
   agree E (- K) (snd (task_step E t w)) w \<and> safe E K Q (fst (task_step E t w)) (snd (task_step E t w))"
  by (erule safe.cases) (auto intro: safe_done)

lemma safe_weaken: "safe E K Q t w \<Longrightarrow> (\<And>x v. Q x v \<Longrightarrow> Q' x v) \<Longrightarrow> safe E K Q' t w"
  by (induction rule: safe.induct) (blast intro: safe.intros)+

fun is_done :: "'a task \<Rightarrow> bool" where
  "is_done (Done x) = True"
| "is_done t = False"

lemma is_done_iff: "is_done t \<longleftrightarrow> (\<exists>x. t = Done x)"
  by (cases t) simp_all

lemma task_step_bind:
  "\<not> is_done t \<Longrightarrow>
   task_step E (task_bind t g) w = (task_bind (fst (task_step E t w)) g, snd (task_step E t w))"
  by (cases t) (simp_all split: prod.splits)

lemma safe_bind:
  "safe E K P t w \<Longrightarrow> (\<And>x v. P x v \<Longrightarrow> safe E K Q (g x) v) \<Longrightarrow> safe E K Q (task_bind t g) w"
proof (induction rule: safe.induct)
  case (safe_done w x)
  then show ?case by (simp add: agree_refl)
next
  case (safe_step w t)
  show ?case
  proof (cases "is_done t")
    case True
    then obtain x where "t = Done x" by (auto simp: is_done_iff)
    then show ?thesis using safe_step by (metis agree_refl fst_conv snd_conv task_step.simps(1))
  next
    case False
    show ?thesis
      by (rule safe.safe_step) (use safe_step False in \<open>simp add: task_step_bind\<close>)
  qed
qed

section \<open>Steady calls\<close>

text \<open>
  A call is steady on keys when it answers the same in every world that agrees on them, makes
  the same change to them, and changes no other key.
\<close>

definition steady ::
  "('r, 'm) env \<Rightarrow> string set \<Rightarrow> (('r, 'm) world \<Rightarrow> 'x \<times> ('r, 'm) world) \<Rightarrow> ('r, 'm) world \<Rightarrow> bool" where
  "steady E K f w \<longleftrightarrow> (\<forall>w'. agree E K w' w \<longrightarrow>
     fst (f w') = fst (f w) \<and> agree E K (snd (f w')) (snd (f w)) \<and> agree E (- K) (snd (f w')) w')"

lemma steady_ask: "(\<And>w'. agree E K w' w \<Longrightarrow> g w' = g w) \<Longrightarrow> steady E K (\<lambda>w. (g w, w)) w"
  unfolding steady_def fst_conv snd_conv by (blast intro: agree_refl)

lemma steady_then: "steady E K f w \<Longrightarrow> steady E K (\<lambda>w. case f w of (r, w') \<Rightarrow> (h r, w')) w"
  unfolding steady_def split_beta fst_conv snd_conv by metis

lemma steadyD:
  assumes "steady E K f w" "agree E K w' w"
  shows "fst (f w') = fst (f w)" "agree E K (snd (f w')) (snd (f w))" "agree E (- K) (snd (f w')) w'"
  using assms unfolding steady_def by blast+

lemma steady_cong:
  assumes "steady E K f w" "\<And>w'. agree E K w' w \<Longrightarrow> g w' = f w'"
  shows "steady E K g w"
  unfolding steady_def using assms(2) [OF agree_refl] assms(2) steadyD [OF assms(1)] by metis

lemma steady_conf: "steady E K (\<lambda>w. (h (w_conf w), w)) w"
  by (rule steady_ask) (rule arg_cong [OF agree_conf])

lemma steady_client: "steady E K (\<lambda>w. (h (GetIOClient w ix), w)) w"
  by (rule steady_ask) (simp add: agree_client)

lemma steady_read: "readable E w ix src dst \<Longrightarrow> d_id src \<in> K \<Longrightarrow> steady E K (\<lambda>w. (h (Io_Read E w ix src dst), w)) w"
  by (rule steady_ask) (rule arg_cong [OF Io_Read_agree])

lemma steady_size: "sizable E w ix src \<Longrightarrow> d_id src \<in> K \<Longrightarrow> steady E K (\<lambda>w. (h (Io_Size E w ix src), w)) w"
  by (rule steady_ask) (rule arg_cong [OF Io_Size_agree])

text \<open>A call that sets one key of one client.\<close>

lemma steady_update:
  assumes "k \<in> K" "\<And>w'. agree E K w' w \<Longrightarrow>
    \<exists>v. f w' = (r, v) \<and> serves_like E v w' \<and> client_obj E t v = (client_obj E t w')(k := x) \<and>
      (\<forall>u. u \<noteq> t \<longrightarrow> client_obj E u v = client_obj E u w')"
  shows "steady E K f w"
  unfolding steady_def
proof (intro allI impI)
  fix w'
  assume w': "agree E K w' w"
  obtain v where v: "f w = (r, v)" "serves_like E v w" "client_obj E t v = (client_obj E t w)(k := x)"
    "\<And>u. u \<noteq> t \<Longrightarrow> client_obj E u v = client_obj E u w"
    using assms(2) [OF agree_refl] by blast
  obtain v' where v': "f w' = (r, v')" "serves_like E v' w'" "client_obj E t v' = (client_obj E t w')(k := x)"
    "\<And>u. u \<noteq> t \<Longrightarrow> client_obj E u v' = client_obj E u w'"
    using assms(2) [OF w'] by blast
  show "fst (f w') = fst (f w) \<and> agree E K (snd (f w')) (snd (f w)) \<and> agree E (- K) (snd (f w')) w'"
    using agree_update [OF w' v'(2) v(2) v'(3) v(3) v'(4) v(4) assms(1)] v(1) v'(1) by simp
qed

lemma steady_remove:
  assumes "removable E w ix src" "d_id src \<in> K"
  shows "steady E K (\<lambda>w. Io_Remove E w ix src) w"
proof -
  obtain t where t: "GetIOClient w ix = Inr t" "client_up E t w (d_id src)"
    using assms(1) by (auto simp: removable_def)
  show ?thesis
  proof (rule steady_update [OF assms(2)])
    fix w'
    assume w': "agree E K w' w"
    have "GetIOClient w' ix = Inr t" "client_up E t w' (d_id src)" using t by (simp_all add: agree_simps [OF w'])
    then show "\<exists>v. Io_Remove E w' ix src = (Inr True, v) \<and> serves_like E v w' \<and>
        client_obj E t v = (client_obj E t w')(d_id src := None) \<and>
        (\<forall>u. u \<noteq> t \<longrightarrow> client_obj E u v = client_obj E u w')"
      by (rule remove_data) blast
  qed
qed

lemma steady_write:
  assumes "writable E w ix src dst" "d_id dst \<in> K"
  shows "steady E K (\<lambda>w. Io_Write E w ix src dst) w"
proof -
  obtain t b where t: "GetIOClient w ix = Inr t" "client_up E t w (d_id dst)" "whole src b" "d_position dst = 0"
    "client_fits t w (length b)" "client_fits t w (length (old_bytes (client_obj E t w (d_id dst))))"
    using assms(1) by (auto simp: writable_def)
  show ?thesis
  proof (rule steady_update [OF assms(2)])
    fix w'
    assume w': "agree E K w' w"
    note same = agree_simps [OF w'] assms(2)
    have t': "GetIOClient w' ix = Inr t" "client_up E t w' (d_id dst)" "client_fits t w' (length b)"
      "client_fits t w' (length (old_bytes (client_obj E t w' (d_id dst))))"
      using t by (simp_all add: same)
    show "\<exists>v. Io_Write E w' ix src dst = (Inr src, v) \<and> serves_like E v w' \<and>
        client_obj E t v =
          (client_obj E t w')(d_id dst := Some (overlay 0 b (old_bytes (client_obj E t w (d_id dst))))) \<and>
        (\<forall>u. u \<noteq> t \<longrightarrow> client_obj E u v = client_obj E u w')"
      using Io_Write_whole [OF t'(1,2) t(3,4) t'(3,4)] by (simp add: same) blast
  qed
qed

lemma steady_get:
  assumes "redis_ok (e_redis E)" "k \<in> K"
  shows "steady E K (\<lambda>w. (h (redis_get (e_redis E) (w_redis w) k), w)) w"
proof (rule steady_ask)
  fix w'
  assume "agree E K w' w"
  then have "client_obj E REDIS_IO w' k = client_obj E REDIS_IO w k" using assms(2) by (rule agree_obj)
  then show "h (redis_get (e_redis E) (w_redis w') k) = h (redis_get (e_redis E) (w_redis w) k)"
    using assms(1) by (simp add: redis_ok_get)
qed

lemma steady_set:
  assumes "redis_ok (e_redis E)" "length v \<le> redis_max" "k \<in> K"
  shows "steady E K (\<lambda>w. world_set E w k v) w"
  by (rule steady_update [OF assms(3)]) (rule world_set_ok [OF assms(1,2)], blast)

lemma steady_find:
  assumes "mongo_ok (e_mongo E)" "\<And>v. client_obj E MONGO_IO w k = Some v \<Longrightarrow> length v < 2 ^ 63" "k \<in> K"
  shows "steady E K (\<lambda>w. (h (world_find E w k), w)) w"
proof (rule steady_ask)
  fix w'
  assume "agree E K w' w"
  then have "client_obj E MONGO_IO w' k = client_obj E MONGO_IO w k" using assms(3) by (rule agree_obj)
  then show "h (world_find E w' k) = h (world_find E w k)"
    using world_find_ok [OF assms(1,2)] world_find_ok [OF assms(1), of w' k] assms(2) by simp
qed

lemma steady_delete:
  assumes "mongo_ok (e_mongo E)" "k \<in> K"
  shows "steady E K (\<lambda>w. world_delete E w k) w"
  by (rule steady_update [OF assms(2)]) (rule world_delete_ok [OF assms(1)], blast)

lemma steady_insert:
  assumes "mongo_ok (e_mongo E)" "client_obj E MONGO_IO w k = None" "bson_fits k v" "k \<in> K"
  shows "steady E K (\<lambda>w. world_insert E w k v) w"
proof (rule steady_update [OF assms(4)])
  fix w'
  assume "agree E K w' w"
  then have "client_obj E MONGO_IO w' k = None" using agree_obj assms(2,4) by metis
  from world_insert_ok [OF assms(1) this assms(3)]
  show "\<exists>u. world_insert E w' k v = (Inr (Some ()), u) \<and> serves_like E u w' \<and>
      client_obj E MONGO_IO u = (client_obj E MONGO_IO w')(k := Some v) \<and>
      (\<forall>t. t \<noteq> MONGO_IO \<longrightarrow> client_obj E t u = client_obj E t w')"
    by blast
qed

section \<open>Served tasks\<close>

primrec served :: "('r, 'm) env \<Rightarrow> string set \<Rightarrow> 'a task \<Rightarrow> ('r, 'm) world \<Rightarrow> bool" where
  "served E K (Done x) w \<longleftrightarrow> True"
| "served E K (Ask_conf f) w \<longleftrightarrow> served E K (f (w_conf w)) w"
| "served E K (Ask_place src dst f) w \<longleftrightarrow> False"
| "served E K (Ask_client ix f) w \<longleftrightarrow> served E K (f (GetIOClient w ix)) w"
| "served E K (Ask_read ix src dst f) w \<longleftrightarrow>
     d_id src \<in> K \<and> readable E w ix src dst \<and> served E K (f (Io_Read E w ix src dst)) w"
| "served E K (Ask_size ix src f) w \<longleftrightarrow>
     d_id src \<in> K \<and> sizable E w ix src \<and> served E K (f (Io_Size E w ix src)) w"
| "served E K (Do_remove ix src f) w \<longleftrightarrow>
     d_id src \<in> K \<and> removable E w ix src \<and>
     (case Io_Remove E w ix src of (r, w') \<Rightarrow> served E K (f r) w')"
| "served E K (Do_file src dst f) w \<longleftrightarrow>
     d_id dst \<in> K \<and> (\<exists>ix. GetIOClient w ix = Inr FILE_IO \<and> writable E w ix src dst) \<and>
     (case client_Write E FILE_IO w src dst of (r, w') \<Rightarrow> served E K (f r) w')"
| "served E K (Ask_get k f) w \<longleftrightarrow>
     k \<in> K \<and> redis_ok (e_redis E) \<and> served E K (f (redis_get (e_redis E) (w_redis w) k)) w"
| "served E K (Do_set k v f) w \<longleftrightarrow>
     k \<in> K \<and> redis_ok (e_redis E) \<and> length v \<le> redis_max \<and>
     (case world_set E w k v of (r, w') \<Rightarrow> served E K (f r) w')"
| "served E K (Ask_find k f) w \<longleftrightarrow>
     k \<in> K \<and> mongo_ok (e_mongo E) \<and> (\<forall>v. client_obj E MONGO_IO w k = Some v \<longrightarrow> length v < 2 ^ 63) \<and>
     served E K (f (world_find E w k)) w"
| "served E K (Do_delete k f) w \<longleftrightarrow>
     k \<in> K \<and> mongo_ok (e_mongo E) \<and> (case world_delete E w k of (r, w') \<Rightarrow> served E K (f r) w')"
| "served E K (Do_insert k v f) w \<longleftrightarrow>
     k \<in> K \<and> mongo_ok (e_mongo E) \<and> client_obj E MONGO_IO w k = None \<and> bson_fits k v \<and>
     (case world_insert E w k v of (r, w') \<Rightarrow> served E K (f r) w')"

lemma served_bind [simp]:
  "served E K (task_bind t g) w \<longleftrightarrow>
     served E K t w \<and> served E K (g (fst (run_task E t w))) (snd (run_task E t w))"
  by (induction t arbitrary: w) (auto split: prod.splits)

lemma served_then:
  "served E K (task_then t g) w \<longleftrightarrow>
     served E K t w \<and>
     (case run_task E t w of (Inl e, w') \<Rightarrow> True | (Inr x, w') \<Rightarrow> served E K (g x) w')"
  by (simp add: task_then_def split: prod.splits sum.splits)

definition ends_as :: "('r, 'm) env \<Rightarrow> string set \<Rightarrow> 'a \<times> ('r, 'm) world \<Rightarrow> 'a \<Rightarrow> ('r, 'm) world \<Rightarrow> bool" where
  "ends_as E K r x w \<longleftrightarrow> x = fst r \<and> agree E K w (snd r)"

text \<open>A served task makes a steady step and is served after it.\<close>

lemma served_step:
  "served E K t w \<Longrightarrow> \<not> is_done t \<Longrightarrow>
   steady E K (task_step E t) w \<and> served E K (fst (task_step E t w)) (snd (task_step E t w))"
proof (cases t)
  case (Do_file src dst f)
  assume "served E K t w"
  with Do_file obtain ix where ix: "GetIOClient w ix = Inr FILE_IO" "writable E w ix src dst" "d_id dst \<in> K" by auto
  have "steady E K (\<lambda>w. client_Write E FILE_IO w src dst) w"
  proof (rule steady_cong [OF steady_write [OF ix(2,3)]])
    fix w'
    assume "agree E K w' w"
    then have "GetIOClient w' ix = Inr FILE_IO" using ix(1) by (simp add: agree_client)
    then show "client_Write E FILE_IO w' src dst = Io_Write E w' ix src dst"
      by (simp add: Io_Write_def del: client_Write.simps)
  qed
  then show ?thesis
    using Do_file \<open>served E K t w\<close> by (auto simp: task_step.simps [abs_def] steady_then split: prod.splits simp del: client_Write.simps)
qed (auto simp: task_step.simps [abs_def] steady_then steady_conf steady_client steady_read steady_size
    steady_remove steady_get steady_set steady_delete steady_insert intro!: steady_find split: prod.splits)

lemma task_step_induct:
  assumes "\<And>t. (\<And>w. \<not> is_done t \<Longrightarrow> P (fst (task_step E t w))) \<Longrightarrow> P t"
  shows "P t"
  by (induction t; rule assms; simp split: prod.splits)

text \<open>A served task ends as it ends alone.\<close>

lemma safe_run: "served E K t w \<Longrightarrow> safe E K (ends_as E K (run_task E t w)) t w"
proof (induction t arbitrary: w rule: task_step_induct [where E = E])
  case (1 t)
  show ?case
  proof (cases "is_done t")
    case True
    then show ?thesis by (auto simp: is_done_iff ends_as_def intro: safe_done)
  next
    case False
    note step = served_step [OF 1(2) False]
    show ?thesis
    proof (rule safe_step)
      fix w'
      assume w': "agree E K w' w"
      have "safe E K (ends_as E K (run_task E t w)) (fst (task_step E t w)) (snd (task_step E t w))"
        using 1(1) [OF False, of w "snd (task_step E t w)"] step by (simp add: run_task_step)
      then show "agree E (- K) (snd (task_step E t w')) w' \<and>
          safe E K (ends_as E K (run_task E t w)) (fst (task_step E t w')) (snd (task_step E t w'))"
        using steadyD [OF conjunct1 [OF step] w'] by (simp add: safe_agree)
    qed
  qed
qed


section \<open>A write is served\<close>

lemma served_file_write:
  "writable E w ix src dst \<Longrightarrow> GetIOClient w ix = Inr FILE_IO \<Longrightarrow> d_id dst \<in> K \<Longrightarrow>
   served E K (Do_file src dst Done) w"
  by (auto split: prod.splits)

lemma served_redis_put:
  assumes "redis_ok (e_redis E)" "length v \<le> redis_max" "k \<in> K"
  shows "served E K (redis_put_task k v src Done) w"
  using assms by (auto simp: redis_put_task_def split: prod.splits sum.splits)

lemma served_redis_write:
  assumes "redis_ok (e_redis E)" "whole src b" "d_position dst = 0" "length b \<le> redis_max"
    and "length (old_bytes (client_obj E REDIS_IO w (d_id dst))) \<le> redis_max" "d_id dst \<in> K"
  shows "served E K (redis_write_task src dst Done) w"
proof -
  have car: "carries src b" and bounds: "length b < 2 ^ 63"
    using assms(2,4) by (simp_all add: whole_carries redis_max_def)
  have old: "length old < 2 ^ 63" "length (overlay 0 b old) \<le> redis_max"
    if "client_obj E REDIS_IO w (d_id dst) = Some old" for old
    using that assms(4,5) by (simp_all add: redis_max_def length_overlay)
  show ?thesis
    using assms(1,3,4,6) car old redis_new_value_0 [OF car assms(3) _ bounds] served_redis_put [of E]
    by (auto simp: redis_write_task_def redis_ok_get carries_def split: option.splits)
qed

lemma served_mongo_insert:
  assumes "mongo_ok (e_mongo E)" "client_obj E MONGO_IO w k = None" "bson_fits k v" "k \<in> K"
  shows "served E K (mongo_insert_task k v src Done) w"
  using assms by (auto simp: mongo_insert_task_def split: prod.splits sum.splits option.splits)

lemma served_mongo_replace:
  assumes "mongo_ok (e_mongo E)" "bson_fits k v" "k \<in> K"
  shows "served E K (Do_delete k (\<lambda>r. case r of Inl err \<Rightarrow> Done (Inl (Std_Exn err))
    | Inr _ \<Rightarrow> mongo_insert_task k v src Done)) w"
proof -
  obtain w' where "world_delete E w k = (Inr (), w')" "client_obj E MONGO_IO w' = (client_obj E MONGO_IO w)(k := None)"
    using assms(1) by (rule world_delete_ok)
  then show ?thesis using assms served_mongo_insert [OF assms(1) _ assms(2,3), of w'] by simp
qed

lemma served_mongo_write:
  assumes "mongo_ok (e_mongo E)" "length (d_id dst) \<le> 4096" "whole src b" "d_position dst = 0"
    and "length b \<le> mongo_max" "length (old_bytes (client_obj E MONGO_IO w (d_id dst))) \<le> mongo_max" "d_id dst \<in> K"
  shows "served E K (mongo_write_task src dst Done) w"
proof -
  have car: "carries src b" and bounds: "length b < 2 ^ 63"
    using assms(3,5) by (simp_all add: whole_carries mongo_max_def)
  have old: "length old < 2 ^ 63" "bson_fits (d_id dst) (overlay 0 b old)"
    if "client_obj E MONGO_IO w (d_id dst) = Some old" for old
    using that assms(2,5,6) by (simp_all add: mongo_max_def bson_fits_def length_overlay)
  have new: "bson_fits (d_id dst) b" using assms(2,5) by (rule mongo_fits_bson)
  have find: "world_find E w (d_id dst) =
      (case client_obj E MONGO_IO w (d_id dst) of
         None \<Rightarrow> Inl (Thrown READ_MONGODB_DATA_FAILED) | Some v \<Rightarrow> Inr (mongo_doc v (d_id dst)))"
    by (rule world_find_ok [OF assms(1) old(1)])
  show ?thesis
  proof (cases "client_obj E MONGO_IO w (d_id dst)")
    case None
    then show ?thesis
      using assms(1,7) car find served_mongo_insert [OF assms(1) None new assms(7)]
      by (simp add: mongo_write_task_def carries_def)
  next
    case (Some v)
    then show ?thesis
      using assms(1,7) find old [OF Some] mongo_new_value_0 [OF car assms(4) _ bounds]
        served_mongo_replace [OF assms(1) old(2) [OF Some] assms(7)]
      by (simp add: mongo_write_task_def)
  qed
qed

lemma served_write_call:
  assumes "writable E w ix src dst" "d_id dst \<in> K"
  shows "served E K (write_task ix src dst Done) w"
proof -
  obtain t b where t: "GetIOClient w ix = Inr t" "client_up E t w (d_id dst)" "whole src b" "d_position dst = 0"
    "client_fits t w (length b)" "client_fits t w (length (old_bytes (client_obj E t w (d_id dst))))"
    using assms(1) by (auto simp: writable_def)
  show ?thesis
  proof (cases t)
    case FILE_IO
    then show ?thesis using served_file_write [OF assms(1)] t(1) assms(2) by (simp add: write_task_def)
  next
    case REDIS_IO
    then have "served E K (redis_write_task src dst Done) w"
      using t assms(2) by (intro served_redis_write) (simp_all add: redis_up_def redis_fits_def)
    then show ?thesis using t(1) REDIS_IO by (simp add: write_task_def)
  next
    case MONGO_IO
    then have "served E K (mongo_write_task src dst Done) w"
      using t assms(2) by (intro served_mongo_write) (simp_all add: mongo_up_def mongo_fits_def)
    then show ?thesis using t(1) MONGO_IO by (simp add: write_task_def)
  qed
qed

lemma served_write:
  assumes "writable E w ix src dst" "d_id dst \<in> K"
  shows "served E K (write_task ix src dst f) w \<longleftrightarrow>
    (case Io_Write E w ix src dst of (r, w') \<Rightarrow> served E K (f r) w')"
proof -
  have "write_task ix src dst f = task_bind (write_task ix src dst Done) f" by simp
  then show ?thesis using served_write_call [OF assms] by (simp del: bind_write_task split: prod.splits)
qed

end
