(* ===== verification/Handler_Isolation.thy ===== *)
theory Handler_Isolation
  imports Isolation
begin

text \<open>
  The tasks of the handlers are served (\<open>Isolation\<close>) for an object of one segment: every call they
  make is on the two keys of the object, and within what the storage clients promise. So a request
  ends as it ends alone, from a world that agrees on those keys (\<open>safe_serve\<close>), and a session gets
  the answers of the store of byte registers (\<open>safe_session\<close>).
\<close>

section \<open>The handlers are served\<close>

lemma readable_held:
  assumes "key_ready E w (d_id src) n" "holds_bytes E w ix (d_id src) b" "d_position src = 0" "d_position dst = 0"
    and "d_data_size src = 0 \<or> d_data_size src = of_nat (length b)"
  shows "readable E w ix src dst"
proof -
  obtain t extra where t: "GetIOClient w ix = Inr t" "client_obj E t w (d_id src) = Some (b @ extra)"
    using assms(2) by (auto simp: holds_bytes_def)
  moreover have "client_up E t w (d_id src)" "client_fits t w (length (b @ extra))"
    using assms(1) t unfolding key_ready_def by fastforce+
  moreover have "unat (d_data_size src) \<le> length (b @ extra)"
    using assms(5) by (auto simp: unat_of_nat intro: le_trans [OF mod_less_eq_dividend])
  ultimately show ?thesis using assms(3,4) by (simp add: readable_def)
qed

lemma writable_ready:
  assumes "GetIOClient w ix = Inr t" "key_ready E w (d_id dst) n" "whole src b" "length b \<le> n" "d_position dst = 0"
  shows "writable E w ix src dst"
proof -
  have "client_up E t w (d_id dst)" "client_fits t w n"
    "client_fits t w (length (old_bytes (client_obj E t w (d_id dst))))"
    using assms(1,2) by (auto simp: key_ready_def)
  moreover from this(2) have "client_fits t w (length b)" using assms(4) by (rule client_store.fits_mono)
  ultimately show ?thesis using assms by (auto simp: writable_def)
qed

lemma served_load: "served E K (load_task E ix src) w \<longleftrightarrow> d_id src \<in> K \<and> readable E w ix src src"
  by (simp add: load_task_def)

lemma served_primary_published:
  assumes "wire_ok E" "wf_Metadata primary" "published E w (meta_id r) primary"
    and "key_ready E w (meta_id r) n" "d_storage_index r \<in> fst ` set (sols_of w)" "meta_id r \<in> K"
  shows "served E K (primary_task E r) w"
proof -
  let ?k = "meta_id r" and ?p = "m_storage_index primary"
  let ?probe = "default_Data\<lparr>d_id := ?k, d_storage_index := d_storage_index r\<rparr>"
  from assms(3) obtain s ls where not_link: "\<not> m_is_link primary"
    and s: "pack_bytes E primary = Inr s"
    and ls: "pack_bytes E (link_metadata ((meta_data ?k ?p s)\<lparr>d_buffer := None\<rparr>)) = Inr ls"
    and prim: "holds_bytes E w ?p ?k s"
    and links: "\<forall>ix \<in> fst ` set (sols_of w). ix \<noteq> ?p \<longrightarrow> holds_bytes E w ix ?k ls"
    unfolding published_def by blast
  let ?link = "(meta_data ?k ?p s)\<lparr>d_buffer := None\<rparr>"
  have read: "readable E w ix ?probe ?probe" if "holds_bytes E w ix ?k b" for ix b
    using readable_held [of E w ?probe n ix b ?probe] assms(4) that by simp
  show ?thesis
  proof (cases "d_storage_index r = ?p")
    case True
    then have "load_metadata E w (d_storage_index r) ?probe = Inr primary"
      using held_load [OF assms(1,4) prim s assms(2)] by simp
    then show ?thesis
      using not_link read [OF prim] True assms(6) by (simp add: primary_task_def served_then served_load)
  next
    case False
    then have held: "holds_bytes E w (d_storage_index r) ?k ls" using links assms(5) by blast
    then have "load_metadata E w (d_storage_index r) ?probe = Inr (link_metadata ?link)"
      by (rule held_load [OF assms(1,4) _ ls]) (simp_all add: wf_link_metadata)
    moreover have "readable E w ?p ?link ?link"
      by (rule readable_held [where n = n and b = s]) (use assms(4) prim in \<open>simp_all add: meta_data_def\<close>)
    ultimately show ?thesis
      using read [OF held] assms(6)
      by (simp add: primary_task_def served_then served_load link_metadata_def links_insert_def links_at_def
          meta_data_def)
  qed
qed

lemma served_primary_absent:
  assumes "GetIOClient w (d_storage_index r) = Inr t" "client_up E t w (meta_id r)"
    and "client_obj E t w (meta_id r) = None" "meta_id r \<in> K"
  shows "served E K (primary_task E r) w"
proof -
  let ?probe = "default_Data\<lparr>d_id := meta_id r, d_storage_index := d_storage_index r\<rparr>"
  have "load_metadata E w (d_storage_index r) ?probe = Inl (Thrown (absent_code t))"
    using assms(1-3) by (simp add: load_metadata_def Io_Read_def client_Read_absent)
  then show ?thesis
    using assms by (simp add: primary_task_def served_then served_load readable_def)
qed

lemma served_locate: "served E K (locate_task E r) w \<longleftrightarrow> served E K (primary_task E r) w"
  by (simp add: locate_task_def served_then split: sum.splits)

text \<open>Looking up an object of the register.\<close>

lemma served_Locate:
  assumes "represents E c i n w v" "ix \<in> fst ` set (sols_of w)" "meta_key i \<in> K"
  shows "served E K (locate_task E (target i ix m)) w"
proof (cases v)
  case None
  have "wf_solutions (sols_of w)" "absent E w i n"
    using assms(1) None by (simp_all add: represents_def system_ok_def)
  moreover from this obtain t where "GetIOClient w ix = Inr t" using GetIOClient_configured assms(2) by blast
  ultimately show ?thesis
    using served_primary_absent [of w "target i ix m" t E K] assms(3)
    by (auto simp: served_locate absent_def key_ready_def meta_id_key)
next
  case (Some x)
  then obtain primary where "published E w (meta_key i) primary" "wf_Metadata primary" "key_ready E w (meta_key i) n"
    "wire_ok E"
    using assms(1) by (auto simp: represents_def system_ok_def stores_def)
  then show ?thesis
    using served_primary_published [of E primary w "target i ix m" n K] assms(2,3)
    by (simp add: served_locate meta_id_key)
qed

lemma served_write_links:
  assumes "key_ready E w k n" "length ls \<le> n" "k \<in> K"
    and "\<And>ix. ix \<in> fst ` set sols \<Longrightarrow> \<exists>t. GetIOClient w ix = Inr t"
  shows "served E K (write_links_task p (meta_data k jx ls) sols) w"
  using assms
proof (induction sols arbitrary: w jx)
  case Nil
  then show ?case by simp
next
  case (Cons e sols)
  obtain ix s where e: "e = (ix, s)" by (cases e)
  obtain t where t: "GetIOClient w ix = Inr t" using Cons.prems(4) e by auto
  obtain w1 where w1: "Io_Write E w ix (meta_data k ix ls) (meta_data k ix ls) = (Inr (meta_data k ix ls), w1)"
    "serves_like E w1 w" "key_ready E w1 k n"
    by (rule Io_Write_meta [OF t Cons.prems(1,2)]) blast
  have "writable E w ix (meta_data k ix ls) (meta_data k ix ls)"
    using writable_ready [OF t _ meta_data_whole] Cons.prems(1,2) by simp
  moreover have "served E K (write_links_task p (meta_data k ix ls) sols) w1"
    using Cons.IH [OF w1(3)] Cons.prems(2-4) serves_like_GetIOClient [OF w1(2)] by simp
  moreover have "served E K (write_links_task p (meta_data k jx ls) sols) w"
    using Cons.IH [OF Cons.prems(1)] Cons.prems(2-4) by simp
  ultimately show ?case using e w1(1) Cons.prems(3) by (simp add: Let_def served_write)
qed

lemma served_delete_metadata:
  assumes "\<And>ix. ix \<in> fst ` set sols \<Longrightarrow> \<exists>t. GetIOClient w ix = Inr t \<and> client_up E t w k" "k \<in> K"
  shows "served E K (delete_metadata_task k sols) w"
  using assms
proof (induction sols arbitrary: w)
  case Nil
  then show ?case by simp
next
  case (Cons e sols)
  obtain ix s where e: "e = (ix, s)" by (cases e)
  let ?d = "default_Data\<lparr>d_id := k, d_storage_index := ix\<rparr>"
  obtain t where t: "GetIOClient w ix = Inr t" "client_up E t w (d_id ?d)" using Cons.prems(1) e by auto
  obtain w1 where w1: "Io_Remove E w ix ?d = (Inr True, w1)" "serves_like E w1 w"
    by (rule remove_data [OF t]) blast
  have "served E K (delete_metadata_task k sols) w1"
  proof (rule Cons.IH)
    fix jx
    assume "jx \<in> fst ` set sols"
    then show "\<exists>t. GetIOClient w1 jx = Inr t \<and> client_up E t w1 k"
      using Cons.prems(1) [of jx] serves_like_GetIOClient [OF w1(2)] w1(2) by (auto simp: serves_like_def)
  qed (rule Cons.prems(2))
  then show ?case using e t w1(1) Cons.prems(2) by (auto simp: removable_def)
qed

text \<open>The pieces of an object of the register: the one segment under its data key.\<close>

lemma served_create:
  assumes "system_ok E w" "wf_Metadata primary" "m_storage_index primary \<in> fst ` set (sols_of w)"
    and "store_fresh (MAX_OBJ_SIZE (w_conf w)) ds (fresh_primary req) = (ds', primary)"
    and "key_ready E w (meta_id req) n" "packs_within E (meta_id req) primary n" "meta_id req \<in> K"
  shows "served E K (create_task E (MAX_OBJ_SIZE (w_conf w)) (meta_id req) req ds) w"
proof -
  let ?k = "meta_id req" and ?p = "m_storage_index primary"
  have conf: "\<exists>t. GetIOClient w ix = Inr t" if "ix \<in> fst ` set (sols_of w)" for ix
    using GetIOClient_configured [OF _ that] assms(1) by (simp add: system_ok_def)
  then obtain t where t: "GetIOClient w ?p = Inr t" using assms(3) by blast
  obtain s where s: "pack_bytes E primary = Inr s" using wf_packs assms(2) by blast
  let ?link = "(meta_data ?k ?p s)\<lparr>d_buffer := None\<rparr>"
  obtain ls where ls: "pack_bytes E (link_metadata ?link) = Inr ls"
    using wf_packs wf_link_metadata [of ?link] by auto
  have small: "length s \<le> n" "length ls \<le> n" using assms(6) s ls by (simp_all add: packs_within_def)
  obtain w1 where w1: "Io_Write E w ?p (meta_data ?k ?p s) (meta_data ?k ?p s) = (Inr (meta_data ?k ?p s), w1)"
    "serves_like E w1 w" "key_ready E w1 ?k n"
    by (rule Io_Write_meta [OF t assms(5) small(1)]) blast
  have "writable E w ?p (meta_data ?k ?p s) (meta_data ?k ?p s)"
    using writable_ready [OF t _ meta_data_whole] assms(5) small(1) by simp
  moreover have "served E K (write_links_task (d_storage_index req) (meta_data ?k 0 ls) (sols_of w)) w1"
    using served_write_links [OF w1(3) small(2) assms(7), of "sols_of w"] conf serves_like_GetIOClient [OF w1(2)]
    by simp
  moreover have "sols_of w1 = sols_of w" using w1(2) by (rule serves_like_sols)
  ultimately show ?thesis
    using assms(1,4,7) s ls w1(1)
    by (auto simp: create_task_def system_ok_def fresh_primary_def served_then served_write write_primary_task_def
        write_primary_def Let_def sols_of_def split: sum.splits prod.splits)
qed

lemma served_Store_fresh:
  assumes sys: "system_ok E w" and src: "whole src b" "length b \<le> n"
    and dst: "d_position dst = 0" "d_storage_index dst \<in> fst ` set (sols_of w)" "Locate E w dst = Inl (Thrown e)"
    and loc: "served E K (locate_task E dst) w" and sel: "sel \<in> fst ` set (sols_of w)"
    and ready: "key_ready E w (meta_key (d_id dst)) n" "key_ready E w (data_key (d_id dst)) n"
    and packs: "packs_within E (meta_key (d_id dst)) (fresh_meta dst sel) n"
    and K: "meta_key (d_id dst) \<in> K" "data_key (d_id dst) \<in> K"
  shows "served E K (task_then (orchestrator_store_task E dst [place src dst sel]) (\<lambda>ds.
    task_then (write_pieces_task ds) (\<lambda>_. Ask_conf (\<lambda>c. Done (Inr (uint (SERVER_COUNT c))))))) w"
proof -
  let ?i = "d_id dst"
  let ?dst' = "dst\<lparr>d_storage_index := sel, d_position := 0, d_id := data_key ?i\<rparr>"
  note fresh = store_fresh_one [OF dst(1), of "MAX_OBJ_SIZE (w_conf w)" src sel]
  obtain w2 where w2: "Orchestrator_Store E w dst [place src dst sel] =
      (Inr [(place src dst sel)\<lparr>dd_destination_data := ?dst'\<rparr>], w2)" "serves_like E w2 w"
    "\<forall>t k'. k' \<noteq> meta_key ?i \<longrightarrow> client_obj E t w2 k' = client_obj E t w k'"
    using Orchestrator_Store_fresh [of E w dst e "[place src dst sel]" _ "fresh_meta dst sel" n] sys dst ready
      packs fresh by (auto simp: system_ok_def meta_id_key)
  have "served E K (create_task E (MAX_OBJ_SIZE (w_conf w)) (meta_id dst) dst [place src dst sel]) w"
    using served_create [OF sys _ _ fresh] dst(2) ready(1) packs K(1)
    by (simp add: fresh_meta_def fresh_primary_def fresh_link_def wf_Metadata_def wf_Data_def meta_id_key)
  then have "served E K (orchestrator_store_task E dst [place src dst sel]) w"
    using loc dst(3) by (simp add: orchestrator_store_task_def)
  moreover obtain t where "GetIOClient w2 sel = Inr t"
    using GetIOClient_configured [OF _ sel] sys serves_like_GetIOClient [OF w2(2)] by (auto simp: system_ok_def)
  moreover have "key_ready E w2 (data_key ?i) n" using key_ready_frame [OF w2(2)] w2(3) ready(2) by simp
  ultimately show ?thesis
    using w2(1) K(2) writable_ready [of w2 sel t E ?dst' n src b] src
    by (simp add: served_then served_write place_def split: sum.splits prod.splits)
qed

lemma served_Store:
  assumes rep: "represents E c i n w v" and adm: "admissible E c i n (Put ix b)"
    and sel: "sel \<in> fst ` set (sols_of w)" and K: "meta_key i \<in> K" "data_key i \<in> K"
  defines "src \<equiv> put_source i b" and "dst \<equiv> target i ix (length b)"
  shows "served E K (task_then (orchestrator_store_task E dst [place src dst sel]) (\<lambda>ds.
    task_then (write_pieces_task ds) (\<lambda>_. Ask_conf (\<lambda>c. Done (Inr (uint (SERVER_COUNT c))))))) w"
proof -
  have sys: "system_ok E w" "w_conf w = c" using rep by (simp_all add: represents_def)
  have put: "ix \<in> fst ` set (sols_of w)" "length b \<le> n" "of_nat (length b) \<le> MAX_OBJ_SIZE (w_conf w)"
    "packs_within E (meta_key i) (fresh_meta dst sel) n"
    using adm sys(2) sel by (auto simp: sols_of_def list_all_iff dst_def)
  have src: "whole src b" by (simp add: src_def put_source_whole)
  have dst: "d_id dst = i" "d_storage_index dst = ix" "d_position dst = 0" "meta_id dst = meta_key i"
    by (simp_all add: dst_def meta_id_key)
  have loc: "served E K (locate_task E dst) w"
    using served_Locate [OF rep put(1) K(1)] by (simp add: dst_def)
  have ready: "key_ready E w (meta_key i) n" "key_ready E w (data_key i) n"
    using rep by (auto simp: represents_def absent_def stores_def split: option.splits)
  show ?thesis
  proof (cases v)
    case None
    then have abs: "absent E w i n" using rep by (simp add: represents_def)
    obtain e where e: "Locate E w dst = Inl (Thrown e)"
      by (rule absent_Locate [OF sys(1), of dst n]) (use put abs dst in simp_all)
    show ?thesis
      by (rule served_Store_fresh [OF sys(1) src put(2) dst(3) _ e loc sel]) (use dst put(1,4) ready K in simp_all)
  next
    case (Some x)
    then have st: "stores E w (d_id dst) x n" using rep by (simp add: represents_def dst)
    obtain primary link t where link: "Locate E w dst = Inr ([one_piece link (length b)], primary)"
      "m_links primary = [(0, link)]" "d_id link = data_key i" "GetIOClient w (d_storage_index link) = Inr t"
      by (rule stores_Locate [OF sys(1) _ dst(3) st, of "length b"]) (use put dst in \<open>simp_all add: dst_def\<close>)
    let ?dst' = "dst\<lparr>d_storage_index := d_storage_index link, d_id := data_key i, d_position := 0\<rparr>"
    have "Orchestrator_Store E w dst [place src dst sel] =
        (Inr [(place src dst sel)\<lparr>dd_destination_data := ?dst'\<rparr>], w)"
      using link dst by (simp add: Orchestrator_Store_def place_def Let_def)
    moreover have "served E K (update_task E (MAX_OBJ_SIZE (w_conf w)) (meta_id dst) [place src dst sel] primary) w"
      using link dst by (simp add: update_task_def place_def Let_def)
    moreover from this have "served E K (orchestrator_store_task E dst [place src dst sel]) w"
      using loc link by (simp add: orchestrator_store_task_def)
    ultimately show ?thesis
      using K(2) writable_ready [OF link(4), of E ?dst' n src b] src ready(2) put(2)
      by (simp add: served_then served_write place_def split: sum.splits prod.splits)
  qed
qed

lemma represents_Locate:
  assumes rep: "represents E c i n w v" and ix: "ix \<in> set (map fst (STORAGE_SOLUTIONS c))"
  obtains (missing) e where "Locate E w (target i ix 0) = Inl (Thrown e)"
    | (found) primary link t x where "Locate E w (target i ix 0) = Inr ([one_piece link 0], primary)"
      "d_id link = data_key i" "GetIOClient w (d_storage_index link) = Inr t"
      "client_obj E t w (data_key i) = Some x" "client_up E t w (data_key i)" "client_fits t w (length x)"
proof -
  have sys: "system_ok E w" and ix': "d_storage_index (target i ix 0) \<in> fst ` set (sols_of w)"
    using rep ix by (auto simp: represents_def sols_of_def)
  show ?thesis
  proof (cases v)
    case None
    then have "absent E w (d_id (target i ix 0)) n" using rep by (simp add: represents_def)
    then show ?thesis using absent_Locate [OF sys ix'] missing by blast
  next
    case (Some x)
    then have st: "stores E w (d_id (target i ix 0)) x n" using rep by (simp add: represents_def)
    show ?thesis
      by (rule stores_Locate [OF sys ix' _ st, of 0]) (use found in auto)
  qed
qed

lemma served_Get:
  assumes "represents E c i n w v" "admissible E c i n (Get ix)" "meta_key i \<in> K" "data_key i \<in> K"
  shows "served E K (serve_task E i (Get ix)) w"
proof -
  have ix: "ix \<in> set (map fst (STORAGE_SOLUTIONS c))" using assms(2) by simp
  have loc: "served E K (locate_task E (target i ix 0)) w"
    using served_Locate [OF assms(1) _ assms(3)] ix assms(1) by (simp add: represents_def sols_of_def)
  from assms(1) ix show ?thesis
  proof (cases rule: represents_Locate)
    case (missing e)
    then show ?thesis using loc by (simp add: server_locate_task_def served_then)
  next
    case (found primary link t x)
    let ?piece = "link\<lparr>d_position := 0, d_data_size := 0\<rparr>"
    have "readable E w (d_storage_index link) ?piece ?piece" using found by (simp add: readable_def)
    then show ?thesis
      using loc found(1,2) assms(4)
      by (auto simp: server_locate_task_def served_then one_piece_def split: sum.splits prod.splits)
  qed
qed

lemma served_Len:
  assumes "represents E c i n w v" "admissible E c i n (Len ix)" "meta_key i \<in> K" "data_key i \<in> K"
  shows "served E K (serve_task E i (Len ix)) w"
proof -
  have ix: "ix \<in> set (map fst (STORAGE_SOLUTIONS c))" using assms(2) by simp
  have loc: "served E K (locate_task E (target i ix 0)) w"
    using served_Locate [OF assms(1) _ assms(3)] ix assms(1) by (simp add: represents_def sols_of_def)
  from assms(1) ix show ?thesis
  proof (cases rule: represents_Locate)
    case (missing e)
    then show ?thesis using loc by (simp add: server_size_task_def)
  next
    case (found primary link t x)
    then have "sizable E w (d_storage_index link) (link\<lparr>d_position := 0, d_data_size := 0\<rparr>)"
      by (simp add: sizable_def)
    then show ?thesis
      using loc found(1,2) assms(4)
      by (auto simp: server_size_task_def served_then one_piece_def split: sum.splits prod.splits)
  qed
qed

lemma served_Del:
  assumes "represents E c i n w v" "admissible E c i n (Del ix)" "meta_key i \<in> K" "data_key i \<in> K"
  shows "served E K (serve_task E i (Del ix)) w"
proof -
  have ix: "ix \<in> set (map fst (STORAGE_SOLUTIONS c))" using assms(2) by simp
  have loc: "served E K (locate_task E (target i ix 0)) w"
    using served_Locate [OF assms(1) _ assms(3)] ix assms(1) by (simp add: represents_def sols_of_def)
  from assms(1) ix show ?thesis
  proof (cases rule: represents_Locate)
    case (missing e)
    then show ?thesis using loc by (simp add: server_delete_task_def)
  next
    case (found primary link t x)
    let ?piece = "link\<lparr>d_position := 0, d_data_size := 0\<rparr>"
    have up: "client_up E t w (d_id ?piece)" using found by simp
    obtain w1 where w1: "Io_Remove E w (d_storage_index link) ?piece = (Inr True, w1)" "serves_like E w1 w"
      by (rule remove_data [OF found(3) up]) blast
    have ready: "wf_solutions (sols_of w)" "key_ready E w (meta_key i) n"
      using assms(1) by (auto simp: represents_def system_ok_def absent_def stores_def split: option.splits)
    have "\<exists>t. GetIOClient w1 jx = Inr t \<and> client_up E t w1 (meta_key i)" if "jx \<in> fst ` set (sols_of w)" for jx
      using GetIOClient_configured [OF ready(1) that] ready(2) serves_like_GetIOClient [OF w1(2)] w1(2)
      by (auto simp: key_ready_def serves_like_def)
    then have "served E K (delete_metadata_task (meta_key i) (sols_of w)) w1"
      using assms(3) by (intro served_delete_metadata)
    moreover have "sols_of w1 = sols_of w" using w1(2) by (rule serves_like_sols)
    moreover have "removable E w (d_storage_index link) ?piece" using found(3) up by (simp add: removable_def)
    ultimately show ?thesis
      using loc found(1,2) assms(4) w1(1)
      by (simp add: server_delete_task_def served_then one_piece_def meta_id_key sols_of_def)
  qed
qed

section \<open>Requests and sessions are safe\<close>

text \<open>A request ends as it ends alone, from a world that agrees on the keys of its object.\<close>

lemma safe_serve:
  assumes "represents E c i n w v" "admissible E c i n q" "meta_key i \<in> K" "data_key i \<in> K"
  shows "safe E K (\<lambda>a w''. \<exists>w'. agree E K w' w \<and> ends_as E K (serve E i w' q) a w'') (serve_task E i q) w"
proof -
  have alone: ?thesis if "served E K (serve_task E i q) w"
    by (rule safe_weaken [OF safe_run [OF that]]) (auto intro: agree_refl)
  show ?thesis
  proof (cases q)
    case (Put ix b)
    let ?src = "put_source i b" and ?dst = "target i ix (length b)"
    have sys: "wf_solutions (sols_of w)" "sols_of w \<noteq> []"
      "DATA_DISTRIBUTION_POLICY (w_conf w) \<noteq> DYNAMIC_PROGRAMMING_POLICY"
      using assms(1) by (auto simp: represents_def system_ok_def)
    show ?thesis
    proof (rule safe_step)
      fix w'
      assume w': "agree E K w' w"
      have rep: "represents E c i n w' v" using represents_agree [OF assms(1) w' assms(3,4)] .
      have conf: "w_conf w' = w_conf w" using w' by (rule agree_conf)
      obtain sel x y where place: "Distribute E w' ?src ?dst =
          (Inr [place ?src ?dst sel], w'\<lparr>w_rand_calls := x, w_seq_calls := y\<rparr>)"
        and sel: "sel \<in> fst ` set (sols_of w')"
        by (rule Distribute_places [of w' E ?src ?dst]) (use sys conf in \<open>simp_all add: sols_of_def\<close>)
      define w1 where "w1 = w'\<lparr>w_rand_calls := x, w_seq_calls := y\<rparr>"
      have agr: "agree E J w1 w'" for J by (simp add: agree_def w1_def counters_serve)
      define t where "t = fst (task_step E (serve_task E i q) w')"
      have step: "task_step E (serve_task E i q) w' = (t, w1)"
        using place by (simp add: t_def Put store_task_def w1_def)
      have "represents E c i n w1 v" by (rule represents_agree [OF rep agr [of UNIV]]) simp_all
      then have "served E K t w1"
        using served_Store [of E c i n w1 v ix b sel K] assms(2-4) Put sel place
        by (simp add: t_def store_task_def w1_def sols_of_def)
      then have "safe E K (ends_as E K (run_task E t w1)) t w1" by (rule safe_run)
      moreover have "run_task E t w1 = serve E i w' q"
        using run_serve_task [of E i q w'] place by (simp add: t_def Put store_task_def w1_def del: run_serve_task)
      ultimately show "agree E (- K) (snd (task_step E (serve_task E i q) w')) w' \<and>
          safe E K (\<lambda>a w''. \<exists>w'. agree E K w' w \<and> ends_as E K (serve E i w' q) a w'')
            (fst (task_step E (serve_task E i q) w')) (snd (task_step E (serve_task E i q) w'))"
        using step agr w' by (auto elim: safe_weaken)
    qed
  next
    case (Get ix)
    then show ?thesis using alone served_Get [OF assms(1) _ assms(3,4)] assms(2) by blast
  next
    case (Len ix)
    then show ?thesis using alone served_Len [OF assms(1) _ assms(3,4)] assms(2) by blast
  next
    case (Del ix)
    then show ?thesis using alone served_Del [OF assms(1) _ assms(3,4)] assms(2) by blast
  qed
qed

text \<open>A session gets the answers of the store of registers it is for.\<close>

definition session_post ::
  "('r, 'm) env \<Rightarrow> conf \<Rightarrow> nat \<Rightarrow> string set \<Rightarrow> (string \<Rightarrow> bytes option) \<Rightarrow> (string \<times> request) list \<Rightarrow>
   answer list \<Rightarrow> ('r, 'm) world \<Rightarrow> bool" where
  "session_post E c n N m qs as w \<longleftrightarrow>
     as = fst (service_run store_step m qs) \<and>
     (\<forall>i \<in> N. represents E c i n w (snd (service_run store_step m qs) i))"

lemma safe_session:
  assumes "\<forall>i \<in> N. represents E c i n w (m i)" "list_all (\<lambda>(i, q). i \<in> N \<and> admissible E c i n q) qs"
  shows "safe E (object_keys N) (session_post E c n N m qs) (session E qs) w"
  using assms
proof (induction qs arbitrary: w m)
  case Nil
  have "\<forall>i \<in> N. represents E c i n w' (m i)" if "agree E (object_keys N) w' w" for w'
    using Nil.prems(1) represents_agree [OF _ that] by simp
  then show ?case by (auto simp: session_post_def intro: safe_done)
next
  case (Cons r qs)
  obtain i q where r: "r = (i, q)" by (cases r)
  let ?K = "object_keys N" and ?m = "snd (store_step m (i, q))"
  have i: "i \<in> N" "admissible E c i n q" using Cons.prems(2) r by simp_all
  show ?case
    unfolding r session.simps
  proof (rule safe_bind [OF safe_serve [where K = ?K]])
    show "represents E c i n w (m i)" "admissible E c i n q" "meta_key i \<in> ?K" "data_key i \<in> ?K"
      using Cons.prems(1) i by simp_all
  next
    fix a w2
    assume "\<exists>w'. agree E ?K w' w \<and> ends_as E ?K (serve E i w' q) a w2"
    then obtain w' where w': "agree E ?K w' w" "ends_as E ?K (serve E i w' q) a w2" by blast
    have "\<forall>j. j \<in> N \<longrightarrow> represents E c j n w' (m j)"
      using Cons.prems(1) represents_agree [OF _ w'(1)] by simp
    then obtain w1 where w1: "serve E i w' q = (fst (store_step m (i, q)), w1)"
      "\<forall>j. j \<in> N \<longrightarrow> represents E c j n w1 (?m j)"
      using srvs.family.step_refines [of N E c n w' m "(i, q)"] i by auto
    have a: "a = fst (store_step m (i, q))" and agr: "agree E ?K w2 w1"
      using w'(2) w1(1) by (simp_all add: ends_as_def)
    have "\<forall>j \<in> N. represents E c j n w2 (?m j)" using w1(2) represents_agree [OF _ agr] by simp
    moreover have "list_all (\<lambda>(i, q). i \<in> N \<and> admissible E c i n q) qs" using Cons.prems(2) by simp
    ultimately have "safe E ?K (session_post E c n N ?m qs) (session E qs) w2" by (rule Cons.IH)
    then show "safe E ?K (session_post E c n N m ((i, q) # qs))
        (task_bind (session E qs) (\<lambda>as. Done (a # as))) w2"
    proof (rule safe_bind)
      fix as v
      assume post: "session_post E c n N ?m qs as v"
      have "session_post E c n N m ((i, q) # qs) (a # as) v'" if "agree E ?K v' v" for v'
        using post a represents_agree [OF _ that] by (simp add: session_post_def split_beta del: store_step.simps)
      then show "safe E ?K (session_post E c n N m ((i, q) # qs)) (Done (a # as)) v" by (rule safe_done)
    qed
  qed
qed

end
