(* ===== verification/Concurrency.thy ===== *)
theory Concurrency
  imports Handler_Isolation
begin

text \<open>
  Pools of handlers. \<open>pool_safe\<close> is the invariant of a pool of tasks with disjoint keys, kept by
  every step (\<open>pool_safe_run\<close>); under a fair schedule a pool of tasks finishes (\<open>pool_finishes\<close>),
  since a step takes a task to a smaller one. Together: clients of different objects are isolated
  from each other.
\<close>

section \<open>Pools of safe tasks\<close>

definition pool_safe ::
  "('r, 'm) env \<Rightarrow> (nat \<Rightarrow> string set) \<Rightarrow> (nat \<Rightarrow> 'a \<Rightarrow> ('r, 'm) world \<Rightarrow> bool) \<Rightarrow> 'a task list \<Rightarrow>
   ('r, 'm) world \<Rightarrow> bool" where
  "pool_safe E K Q ts w \<longleftrightarrow> (\<forall>j < length ts. safe E (K j) (Q j) (ts ! j) w)"

definition apart :: "nat \<Rightarrow> (nat \<Rightarrow> string set) \<Rightarrow> bool" where
  "apart n K \<longleftrightarrow> (\<forall>i < n. \<forall>j < n. i \<noteq> j \<longrightarrow> K i \<inter> K j = {})"

lemma pool_safe_step:
  assumes "pool_safe E K Q ts w" "apart (length ts) K" "i < length ts"
  shows "pool_safe E K Q (ts[i := fst (task_step E (ts ! i) w)]) (snd (task_step E (ts ! i) w))"
  unfolding pool_safe_def
proof (intro allI impI)
  fix j
  assume j: "j < length (ts[i := fst (task_step E (ts ! i) w)])"
  have i: "agree E (- K i) (snd (task_step E (ts ! i) w)) w"
    "safe E (K i) (Q i) (fst (task_step E (ts ! i) w)) (snd (task_step E (ts ! i) w))"
    using safe_next [of E "K i" "Q i" "ts ! i" w] assms(1,3) by (simp_all add: pool_safe_def)
  show "safe E (K j) (Q j) (ts[i := fst (task_step E (ts ! i) w)] ! j) (snd (task_step E (ts ! i) w))"
  proof (cases "j = i")
    case True
    then show ?thesis using i(2) assms(3) by simp
  next
    case False
    then have "K j \<subseteq> - K i" using assms(2,3) j by (auto simp: apart_def)
    then have "agree E (K j) (snd (task_step E (ts ! i) w)) w" using i(1) by (rule agree_mono [rotated])
    moreover have "safe E (K j) (Q j) (ts ! j) w" using assms(1) j by (simp add: pool_safe_def)
    ultimately show ?thesis using False safe_agree by simp
  qed
qed

lemma pool_run_length [simp]: "length (fst (pool_run E sched ts w)) = length ts"
  by (induction E sched ts w rule: pool_run.induct) (simp_all split: prod.splits)

lemma pool_safe_run:
  "pool_safe E K Q ts w \<Longrightarrow> apart (length ts) K \<Longrightarrow> pool_run E sched ts w = (ts', w') \<Longrightarrow> pool_safe E K Q ts' w'"
proof (induction E sched ts w rule: pool_run.induct)
  case (1 E ts w)
  then show ?case by simp
next
  case (2 E i sched ts w)
  show ?case
  proof (cases "i < length ts")
    case True
    then show ?thesis
      using 2 pool_safe_step [OF 2(3,4) True] by (simp split: prod.splits)
  next
    case False
    then show ?thesis using 2 by simp
  qed
qed

section \<open>Fair schedules finish a pool\<close>

text \<open>Every task of the pool gets a step again and again.\<close>

definition fair :: "nat \<Rightarrow> (nat \<Rightarrow> nat) \<Rightarrow> bool" where
  "fair n sched \<longleftrightarrow> (\<forall>j < n. \<forall>k. \<exists>k' \<ge> k. sched k' = j)"

lemma fair_mod: "fair n (\<lambda>k. k mod n)"
  unfolding fair_def
proof (intro allI impI)
  fix j k
  assume "j < n"
  moreover from this have "k \<le> n * k + j" by (cases n) simp_all
  ultimately show "\<exists>k' \<ge> k. k' mod n = j" by (intro exI [of _ "n * k + j"]) simp
qed

definition pool_at ::
  "('r, 'm) env \<Rightarrow> (nat \<Rightarrow> nat) \<Rightarrow> 'a task list \<Rightarrow> ('r, 'm) world \<Rightarrow> nat \<Rightarrow> 'a task list \<times> ('r, 'm) world" where
  "pool_at E sched ts w k = pool_run E (map sched [0..<k]) ts w"

lemma pool_run_append:
  "pool_run E (xs @ ys) ts w = (case pool_run E xs ts w of (ts', w') \<Rightarrow> pool_run E ys ts' w')"
  by (induction E xs ts w rule: pool_run.induct) (simp_all split: prod.splits)

lemma pool_at_Suc:
  "pool_at E sched ts w (Suc k) = (case pool_at E sched ts w k of (ts', w') \<Rightarrow> pool_run E [sched k] ts' w')"
  by (simp add: pool_at_def pool_run_append)

lemma pool_at_length [simp]: "length (fst (pool_at E sched ts w k)) = length ts"
  by (simp add: pool_at_def)

lemma pool_at_other:
  "sched k \<noteq> j \<Longrightarrow> fst (pool_at E sched ts w (Suc k)) ! j = fst (pool_at E sched ts w k) ! j"
  by (simp add: pool_at_Suc split: prod.splits)

lemma pool_at_own:
  assumes "sched k = j" "j < length ts"
  shows "\<exists>v. fst (pool_at E sched ts w (Suc k)) ! j = fst (task_step E (fst (pool_at E sched ts w k) ! j) v)"
proof -
  obtain ts' w' where at: "pool_at E sched ts w k = (ts', w')" by (cases "pool_at E sched ts w k")
  then have "length ts' = length ts" using pool_at_length [of E sched ts w k] by simp
  then show ?thesis using assms at by (auto simp: pool_at_Suc split: prod.splits intro!: exI [of _ w'])
qed

lemma waits:
  assumes "k \<le> k'" "\<forall>l. k \<le> l \<and> l < k' \<longrightarrow> sched l \<noteq> j"
  shows "fst (pool_at E sched ts w k') ! j = fst (pool_at E sched ts w k) ! j"
  using assms by (induction k' rule: dec_induct) (simp_all add: pool_at_other)

lemma thread_finishes:
  assumes "fair (length ts) sched" "j < length ts"
  shows "\<exists>k' \<ge> k. is_done (fst (pool_at E sched ts w k') ! j)"
proof -
  have "\<forall>k. t = fst (pool_at E sched ts w k) ! j \<longrightarrow> (\<exists>k' \<ge> k. is_done (fst (pool_at E sched ts w k') ! j))" for t
  proof (induction t rule: task_step_induct [where E = E])
    case (1 t)
    show ?case
    proof (intro allI impI)
      fix k
      assume t: "t = fst (pool_at E sched ts w k) ! j"
      show "\<exists>k' \<ge> k. is_done (fst (pool_at E sched ts w k') ! j)"
      proof (cases "is_done t")
        case True
        then show ?thesis using t by blast
      next
        case False
        define k1 where "k1 = (LEAST k'. k \<le> k' \<and> sched k' = j)"
        have "\<exists>k'. k \<le> k' \<and> sched k' = j" using assms by (auto simp: fair_def)
        then have k1: "k \<le> k1" "sched k1 = j"
          unfolding k1_def by (metis (mono_tags, lifting) LeastI_ex)+
        have "\<forall>l. k \<le> l \<and> l < k1 \<longrightarrow> sched l \<noteq> j"
          unfolding k1_def using not_less_Least by blast
        then have "fst (pool_at E sched ts w k1) ! j = t" using waits [OF k1(1)] t by simp
        then obtain v where v: "fst (task_step E t v) = fst (pool_at E sched ts w (Suc k1)) ! j"
          using pool_at_own [where k = k1 and sched = sched, OF k1(2) assms(2), of E w] by metis
        from 1 [OF False, of v] v obtain k' where "Suc k1 \<le> k'" "is_done (fst (pool_at E sched ts w k') ! j)"
          by blast
        then show ?thesis using k1(1) by (meson Suc_leD order_trans)
      qed
    qed
  qed
  then show ?thesis by blast
qed

lemma done_stays:
  assumes "is_done (fst (pool_at E sched ts w k) ! j)" "j < length ts" "k \<le> k'"
  shows "is_done (fst (pool_at E sched ts w k') ! j)"
  using assms(3,1)
proof (induction k' rule: dec_induct)
  case (step l)
  then obtain x where "fst (pool_at E sched ts w l) ! j = Done x" by (auto simp: is_done_iff)
  then show ?case
    using pool_at_own [of sched l j ts E w] pool_at_other [of sched l j E ts w] assms(2)
    by (cases "sched l = j") auto
qed simp

lemma pool_finishes:
  assumes "fair (length ts) sched"
  shows "\<exists>k. \<forall>k' \<ge> k. list_all is_done (fst (pool_at E sched ts w k'))"
proof -
  have "\<exists>k. \<forall>k' \<ge> k. \<forall>j < n. is_done (fst (pool_at E sched ts w k') ! j)" if "n \<le> length ts" for n
    using that
  proof (induction n)
    case 0
    then show ?case by simp
  next
    case (Suc n)
    then obtain k where k: "\<forall>k' \<ge> k. \<forall>j < n. is_done (fst (pool_at E sched ts w k') ! j)" by auto
    obtain l where "is_done (fst (pool_at E sched ts w l) ! n)"
      using thread_finishes [OF assms, of n 0] Suc.prems by auto
    then have "\<forall>k' \<ge> l. is_done (fst (pool_at E sched ts w k') ! n)" 
      using done_stays [of E sched ts w l n] Suc.prems by simp
    then have "\<forall>k' \<ge> max k l. \<forall>j < Suc n. is_done (fst (pool_at E sched ts w k') ! j)"
      using k by (simp add: less_Suc_eq)
    then show ?case by blast
  qed
  from this [of "length ts"] show ?thesis by (simp add: list_all_length)
qed

section \<open>Concurrent sessions\<close>

lemma apart_keys: "apart n N \<Longrightarrow> apart n (\<lambda>j. object_keys (N j))"
  by (simp add: apart_def object_keys_disjoint)

text \<open>
  C3. Concurrent handlers. Clients that work on different objects, each making any sequence of
  admissible requests, are isolated from each other: under every fair interleaving of the steps
  of their handlers (the placement, each method of the file client, each call of Redis and
  MongoDB) all of them finish, each with exactly the answers of the store of byte registers it would get if
  it ran alone, and the world ends holding the final contents of all the objects.
\<close>

theorem concurrent_sessions_isolated:
  assumes "\<forall>qs \<in> set qss. list_all (\<lambda>(i, q). represents E c i n w (m i) \<and> admissible E c i n q) qs"
    and "apart (length qss) (\<lambda>j. fst ` set (qss ! j))"
    and "fair (length qss) sched"
  shows "\<exists>k. \<forall>k' \<ge> k. \<exists>w'.
    pool_run E (map sched [0..<k']) (map (session E) qss) w =
      (map (\<lambda>qs. Done (fst (service_run store_step m qs))) qss, w') \<and>
    (\<forall>qs \<in> set qss. \<forall>i \<in> fst ` set qs. represents E c i n w' (snd (service_run store_step m qs) i))"
proof -
  let ?ts = "map (session E) qss" and ?N = "\<lambda>j. fst ` set (qss ! j)"
  let ?Q = "\<lambda>j. session_post E c n (?N j) m (qss ! j)"
  have "safe E (object_keys (?N j)) (?Q j) (session E (qss ! j)) w" if "j < length qss" for j
  proof -
    have "list_all (\<lambda>(i, q). represents E c i n w (m i) \<and> admissible E c i n q) (qss ! j)"
      using assms(1) that by simp
    then show ?thesis by (intro safe_session) (force simp: list_all_iff)+
  qed
  then have pool: "pool_safe E (\<lambda>j. object_keys (?N j)) ?Q ?ts w" by (simp add: pool_safe_def)
  obtain k where k: "\<forall>k' \<ge> k. list_all is_done (fst (pool_at E sched ?ts w k'))"
    using pool_finishes [of ?ts sched E w] assms(3) by auto
  have "\<exists>w'. pool_run E (map sched [0..<k']) ?ts w =
      (map (\<lambda>qs. Done (fst (service_run store_step m qs))) qss, w') \<and>
    (\<forall>qs \<in> set qss. \<forall>i \<in> fst ` set qs. represents E c i n w' (snd (service_run store_step m qs) i))"
    if "k \<le> k'" for k'
  proof -
    obtain ts' w' where run: "pool_run E (map sched [0..<k']) ?ts w = (ts', w')" by fastforce
    then have len: "length ts' = length qss" using pool_run_length [of E "map sched [0..<k']" ?ts w] by simp
    have "pool_safe E (\<lambda>j. object_keys (?N j)) ?Q ts' w'"
      using pool_safe_run [OF pool _ run] apart_keys [OF assms(2)] by simp
    moreover have "list_all is_done ts'" using k that run by (auto simp: pool_at_def)
    ultimately have ends: "\<exists>as. ts' ! j = Done as \<and> ?Q j as w'" if "j < length qss" for j
      using that len safe_Done by (fastforce simp: pool_safe_def list_all_length is_done_iff)
    have "ts' = map (\<lambda>qs. Done (fst (service_run store_step m qs))) qss"
      by (rule nth_equalityI) (use len ends in \<open>auto simp: session_post_def\<close>)
    moreover have "\<forall>i \<in> fst ` set qs. represents E c i n w' (snd (service_run store_step m qs) i)"
      if "qs \<in> set qss" for qs
      using that ends unfolding session_post_def in_set_conv_nth by blast
    ultimately show ?thesis using run by simp
  qed
  then show ?thesis by blast
qed

theorem concurrent_sessions_isolated_witness:
  "\<exists>k. \<forall>k' \<ge> k.
     fst (pool_run (ref_env (\<lambda>k. k + 1)) (map (\<lambda>k. k mod 2) [0..<k'])
       (map (session (ref_env (\<lambda>k. k + 1)))
         [[(''x'', Put 0 ''hello''), (''x'', Put 2 ''HE''), (''x'', Get 1)],
          [(''y'', Put 1 ''other''), (''z'', Len 0), (''y'', Del 2), (''y'', Get 1)]])
       (ref_world ROUND_ROBIN_POLICY)) =
     [Done [Stored, Stored, Content ''HEllo''], Done [Stored, Length 0, Deleted True, Missing]]"
proof -
  let ?E = "ref_env (\<lambda>k. k + 1)" and ?w = "ref_world ROUND_ROBIN_POLICY" and ?c = "ref_conf ROUND_ROBIN_POLICY"
  let ?qss = "[[(''x'', Put 0 ''hello''), (''x'', Put 2 ''HE''), (''x'', Get 1)],
    [(''y'', Put 1 ''other''), (''z'', Len 0), (''y'', Del 2), (''y'', Get 1)]]"
  have "list_all (\<lambda>qs. list_all (\<lambda>(i, q). admissible ?E ?c i 1000 q) qs) ?qss" by code_simp
  moreover have "represents ?E ?c i 1000 ?w None" if "i \<in> {''x'', ''y'', ''z''}" for i
    using that by (auto intro!: ref_represents)
  ultimately have "\<forall>qs \<in> set ?qss. list_all (\<lambda>(i, q). represents ?E ?c i 1000 ?w ((\<lambda>i. None) i) \<and>
      admissible ?E ?c i 1000 q) qs"
    by simp
  moreover have "apart (length ?qss) (\<lambda>j. fst ` set (?qss ! j))"
    by (auto simp: apart_def less_Suc_eq numeral_2_eq_2)
  moreover have "fair (length ?qss) (\<lambda>k. k mod 2)" 
    using fair_mod [of 2] by (metis One_nat_def Suc_1 list.size(3,4) add_Suc_right add_0_right)
  ultimately have "\<exists>k. \<forall>k' \<ge> k. \<exists>w'.
    pool_run ?E (map (\<lambda>k. k mod 2) [0..<k']) (map (session ?E) ?qss) ?w =
      (map (\<lambda>qs. Done (fst (service_run store_step (\<lambda>i. None) qs))) ?qss, w') \<and>
    (\<forall>qs \<in> set ?qss. \<forall>i \<in> fst ` set qs.
      represents ?E ?c i 1000 w' (snd (service_run store_step (\<lambda>i. None) qs) i))"
    by (rule concurrent_sessions_isolated)
  then obtain k where "\<forall>k' \<ge> k. fst (pool_run ?E (map (\<lambda>k. k mod 2) [0..<k']) (map (session ?E) ?qss) ?w) =
      map (\<lambda>qs. Done (fst (service_run store_step (\<lambda>i. None) qs))) ?qss"
    by (metis fst_conv)
  moreover have "map (\<lambda>qs. Done (fst (service_run store_step (\<lambda>i. None) qs))) ?qss =
      [Done [Stored, Stored, Content ''HEllo''], Done [Stored, Length 0, Deleted True, Missing]]"
    by (simp add: overlay_0)
  ultimately show ?thesis by metis
qed

end
