(* ===== verification/Block_Object.thy ===== *)
theory Block_Object
  imports Object_Service
begin

text \<open>
  Objects of several segments. A write at position \<open>j * MAX_OBJ_SIZE\<close> goes to segment \<open>j\<close> of the
  object, which is an object \<open>id\<close>\<open>j\<close> of the storage the engine chose when the segment was
  created. The specification is a list of blocks: writing block \<open>j\<close> overlays it or, when
  \<open>j\<close> is the number of blocks, appends one; reading gives the blocks one after the other.

  The server refines it for requests through the storage that has the primary record
  (\<open>blocks_hold\<close>). Through the others it does not (theory \<open>Stale_Links\<close>).
\<close>

section \<open>The specification\<close>

datatype block_request = Put_block nat bytes | Get_blocks | Len_blocks | Del_blocks

fun block_step :: "bytes list \<Rightarrow> block_request \<Rightarrow> answer \<times> bytes list" where
  "block_step vs (Put_block j b) =
     (Stored, if j < length vs then vs[j := overlay 0 b (vs ! j)] else vs @ [b])"
| "block_step vs Get_blocks = (if vs = [] then Missing else Content (concat vs), vs)"
| "block_step vs Len_blocks = (Length (of_nat (length (concat vs))), vs)"
| "block_step vs Del_blocks = (Deleted (vs \<noteq> []), [])"

text \<open>
  A write goes to a block that exists or to the one after the last, of at most \<open>N\<close>; it has at
  most \<open>n\<close> bytes, and the object stays below 2 GiB, since the server adds the sizes in an \<^verbatim>\<open>int\<close>.
\<close>

fun block_ok :: "nat \<Rightarrow> nat \<Rightarrow> bytes list \<Rightarrow> block_request \<Rightarrow> bool" where
  "block_ok n N vs (Put_block j b) \<longleftrightarrow>
     j \<le> length vs \<and> j < N \<and> length b \<le> n \<and>
     length (concat (snd (block_step vs (Put_block j b)))) < 2 ^ 31"
| "block_ok n N vs _ \<longleftrightarrow> True"

section \<open>The server's handlers\<close>

definition block_target :: "string \<Rightarrow> uint16 \<Rightarrow> size_t \<Rightarrow> nat \<Rightarrow> nat \<Rightarrow> Data" where
  "block_target i p M j m = (target i p m)\<lparr>d_position := of_nat j * M\<rparr>"

fun serve_block ::
  "('r, 'm) env \<Rightarrow> string \<Rightarrow> uint16 \<Rightarrow> ('r, 'm) world \<Rightarrow> block_request \<Rightarrow> answer \<times> ('r, 'm) world" where
  "serve_block E i p w (Put_block j b) =
     (case Server_Store E w (put_source i b) (block_target i p (MAX_OBJ_SIZE (w_conf w)) j (length b)) of
        (Inr _, w') \<Rightarrow> (Stored, w')
      | (Inl _, w') \<Rightarrow> (Failed, w'))"
| "serve_block E i p w Get_blocks = serve E i w (Get p)"
| "serve_block E i p w Len_blocks = serve E i w (Len p)"
| "serve_block E i p w Del_blocks = serve E i w (Del p)"

section \<open>What the world holds\<close>

definition seg_key :: "string \<Rightarrow> nat \<Rightarrow> string" where
  "seg_key i j = i @ nat_to_string j"

text \<open>The record of an object whose segment \<open>j\<close> was created at \<open>sel j\<close> by a write of \<open>len j\<close> bytes.\<close>

definition seg_link :: "string \<Rightarrow> uint16 \<Rightarrow> size_t \<Rightarrow> nat \<Rightarrow> Data" where
  "seg_link i s l j = default_Data\<lparr>d_id := seg_key i j, d_storage_index := s, d_data_size := l\<rparr>"

definition seg_meta :: "string \<Rightarrow> uint16 \<Rightarrow> nat \<Rightarrow> (nat \<Rightarrow> uint16) \<Rightarrow> (nat \<Rightarrow> size_t) \<Rightarrow> Metadata" where
  "seg_meta i p k sel len =
     default_Metadata\<lparr>m_storage_index := p,
       m_links := map (\<lambda>j. (of_nat j, seg_link i (sel j) (len j) j)) [0..<k]\<rparr>"

text \<open>Segment \<open>j\<close> is the object of one client only.\<close>

definition seg_held ::
  "('r, 'm) env \<Rightarrow> ('r, 'm) world \<Rightarrow> string \<Rightarrow> uint16 \<Rightarrow> nat \<Rightarrow> bytes \<Rightarrow> bool" where
  "seg_held E w i ix j v \<longleftrightarrow>
     (\<exists>t. GetIOClient w ix = Inr t \<and> client_obj E t w (seg_key i j) = Some v \<and>
        (\<forall>t'. t' \<noteq> t \<longrightarrow> client_obj E t' w (seg_key i j) = None))"

definition blocks_ready :: "('r, 'm) env \<Rightarrow> ('r, 'm) world \<Rightarrow> string \<Rightarrow> nat \<Rightarrow> nat \<Rightarrow> bool" where
  "blocks_ready E w i n N \<longleftrightarrow>
     key_ready E w (meta_key i) n \<and> (\<forall>j < N. key_ready E w (seg_key i j) n)"

definition blocks_held ::
  "('r, 'm) env \<Rightarrow> ('r, 'm) world \<Rightarrow> string \<Rightarrow> uint16 \<Rightarrow> (nat \<Rightarrow> uint16) \<Rightarrow> (nat \<Rightarrow> size_t) \<Rightarrow> bytes list \<Rightarrow> bool" where
  "blocks_held E w i p sel len vs \<longleftrightarrow>
     (\<exists>s. pack_bytes E (seg_meta i p (length vs) sel len) = Inr s \<and> holds_bytes E w p (meta_key i) s) \<and>
     (\<forall>j < length vs. seg_held E w i (sel j) j (vs ! j))"

definition blocks_hold ::
  "('r, 'm) env \<Rightarrow> conf \<Rightarrow> string \<Rightarrow> uint16 \<Rightarrow> nat \<Rightarrow> nat \<Rightarrow> ('r, 'm) world \<Rightarrow> bytes list \<Rightarrow> bool" where
  "blocks_hold E c i p n N w vs \<longleftrightarrow>
     system_ok E w \<and> w_conf w = c \<and> p \<in> fst ` set (sols_of w) \<and> blocks_ready E w i n N \<and>
     N * unat (MAX_OBJ_SIZE c) < 2 ^ 64 \<and> N < 2 ^ 31 \<and> length vs \<le> N \<and> length (concat vs) < 2 ^ 31 \<and>
     (\<forall>k sel len. k \<le> N \<longrightarrow> packs_within E (meta_key i) (seg_meta i p k sel len) n) \<and>
     (\<forall>j t. length vs \<le> j \<longrightarrow> j < N \<longrightarrow> client_obj E t w (seg_key i j) = None) \<and>
     (if vs = [] then \<forall>ix t. GetIOClient w ix = Inr t \<longrightarrow> client_obj E t w (meta_key i) = None
      else \<exists>sel len. blocks_held E w i p sel len vs)"


section \<open>Lemmas\<close>

subsection \<open>Keys\<close>

lemma seg_key_0: "seg_key i 0 = data_key i"
  by (simp add: seg_key_def data_key_def)

lemma seg_key_inject [simp]: "seg_key i j = seg_key i k \<longleftrightarrow> j = k"
  by (simp add: seg_key_def nat_to_string_int)

lemma seg_key_not_meta [simp]: "seg_key i j \<noteq> meta_key k" "meta_key k \<noteq> seg_key i j"
proof -
  have "is_digit (last (seg_key i j))"
    using nat_to_string_digits [of j] by (simp add: seg_key_def)
  moreover have "\<not> is_digit (last (meta_key k))" by (simp add: meta_key_def is_digit_def)
  ultimately show "seg_key i j \<noteq> meta_key k" by metis
  then show "meta_key k \<noteq> seg_key i j" by simp
qed

subsection \<open>The record\<close>

lemma seg_meta_fields [simp]:
  "m_is_link (seg_meta i p k sel len) = False" "m_storage_index (seg_meta i p k sel len) = p"
  "m_links (seg_meta i p k sel len) = map (\<lambda>j. (of_nat j, seg_link i (sel j) (len j) j)) [0..<k]"
  by (simp_all add: seg_meta_def)

lemma seg_link_fields [simp]:
  "d_id (seg_link i s l j) = seg_key i j" "d_position (seg_link i s l j) = 0"
  "d_buffer (seg_link i s l j) = None" "d_data_size (seg_link i s l j) = l"
  "d_storage_index (seg_link i s l j) = s"
  by (simp_all add: seg_link_def)

lemma of_nat_eq_size: "j < 2 ^ 64 \<Longrightarrow> k < 2 ^ 64 \<Longrightarrow> (of_nat j :: size_t) = of_nat k \<longleftrightarrow> j = k"
  by (metis size_fits)

lemma map_of_segments:
  assumes "k < 2 ^ 64" "j < 2 ^ 64"
  shows "map_of (map (\<lambda>j. (of_nat j :: int64, f j)) [0..<k]) (of_nat j) = (if j < k then Some (f j) else None)"
  using assms(1)
proof (induction k)
  case (Suc k)
  then show ?case using assms(2) by (auto simp: map_add_def of_nat_eq_size less_Suc_eq)
qed simp

lemma sint_segment: "j < 2 ^ 63 \<Longrightarrow> sint (of_nat j :: int64) = int j"
  by (simp add: signed_of_nat signed_take_bit_int_eq_self)

lemma seg_meta_wf: "k < 2 ^ 64 \<Longrightarrow> wf_Metadata (seg_meta i p k sel len)"
  by (auto simp: wf_Metadata_def wf_Data_def distinct_map inj_on_def list_all_iff of_nat_eq_size)

lemma link_array_segments:
  assumes "k < 2 ^ 31"
  shows "link_array (m_links (seg_meta i p k sel len)) = Some (map (\<lambda>j. seg_link i (sel j) (len j) j) [0..<k])"
proof -
  have "list_all (\<lambda>(l, d). 0 \<le> sint l \<and> sint l < int k) (m_links (seg_meta i p k sel len))"
    using assms by (auto simp: list_all_iff sint_segment)
  moreover have "links_at (m_links (seg_meta i p k sel len)) (of_nat j) = seg_link i (sel j) (len j) j"
    if "j < k" for j
    using that assms by (simp add: links_at_def map_of_segments)
  ultimately show ?thesis by (simp add: link_array_def)
qed

lemma blocks_primary:
  assumes "wire_ok E" "pack_bytes E (seg_meta i p k sel len) = Inr s" "holds_bytes E w p (meta_key i) s"
    and "key_ready E w (meta_key i) n" "k < 2 ^ 64" "d_id r = i" "d_storage_index r = p"
  shows "read_primary E w r = Inr (seg_meta i p k sel len)"
proof -
  obtain t extra where t: "GetIOClient w p = Inr t" "client_obj E t w (meta_key i) = Some (s @ extra)"
    using assms(3) by (auto simp: holds_bytes_def)
  moreover have "client_up E t w (meta_key i)" "client_fits t w (length (s @ extra))"
    using assms(4) t unfolding key_ready_def by fastforce+
  ultimately have "load_metadata E w p (default_Data\<lparr>d_id := meta_key i, d_storage_index := p\<rparr>) =
      Inr (seg_meta i p k sel len)"
    using load_metadata_held [OF assms(1) seg_meta_wf [OF assms(5)] assms(2) t(1)] by simp
  then show ?thesis using assms(6,7) by (simp add: read_primary_def meta_id_key)
qed

subsection \<open>Whole requests\<close>

lemma locate_loop_all:
  assumes "M \<noteq> 0"
  shows "locate_loop M True e links i 0 0 0 = map (\<lambda>l. one_piece l 0) (drop i links)"
proof (induction "length links - i" arbitrary: i)
  case 0
  then show ?case by (subst locate_loop.simps) simp
next
  case (Suc d)
  then have i: "i < length links" by simp
  then have "drop i links = links ! i # drop (Suc i) links" by (rule Cons_nth_drop_Suc [symmetric])
  moreover have "locate_loop M True e links (Suc i) 0 0 0 = map (\<lambda>l. one_piece l 0) (drop (Suc i) links)"
    using Suc by (intro Suc.hyps(1)) simp
  ultimately show ?case
    using i assms by (subst locate_loop.simps) (simp add: Let_def one_piece_def word_gt_0)
qed

lemma segment_request_total:
  assumes "M \<noteq> 0" "k < 2 ^ 31"
  shows "\<exists>ds. segment_request M r (seg_meta i p k sel len) = Inr ds"
  using assms link_array_segments [of k i p sel len] by (simp add: segment_request_def Let_def)

lemma segment_request_all:
  assumes "M \<noteq> 0" "k < 2 ^ 31" "d_position r = 0" "d_data_size r = 0"
  shows "segment_request M r (seg_meta i p k sel len) =
    Inr (map (\<lambda>j. one_piece (seg_link i (sel j) (len j) j) 0) [0..<k])"
  using assms link_array_segments [of k i p sel len]
  by (simp add: segment_request_def Let_def locate_loop_all map_map comp_def)


text \<open>Reading, measuring and removing the pieces of a list of segments.\<close>

lemma ucast_of_nat: "ucast (of_nat n :: size_t) = (of_nat n :: int32)"
  by (simp add: word_unat_eq_iff unsigned_ucast_eq unsigned_of_nat)

definition whole_piece :: "string \<Rightarrow> uint16 \<Rightarrow> size_t \<Rightarrow> nat \<Rightarrow> bytes \<Rightarrow> Data" where
  "whole_piece i s l j v =
     (seg_link i s l j)\<lparr>d_position := 0, d_data_size := of_nat (length v), d_buffer := Some v\<rparr>"

lemma seg_held_client:
  assumes "seg_held E w i ix j v" "key_ready E w (seg_key i j) n"
  obtains t where "GetIOClient w ix = Inr t" "client_obj E t w (seg_key i j) = Some v"
    "client_up E t w (seg_key i j)" "client_fits t w (length v)"
    "\<And>t'. t' \<noteq> t \<Longrightarrow> client_obj E t' w (seg_key i j) = None"
proof -
  obtain t where t: "GetIOClient w ix = Inr t" "client_obj E t w (seg_key i j) = Some v"
    "\<And>t'. t' \<noteq> t \<Longrightarrow> client_obj E t' w (seg_key i j) = None"
    using assms(1) by (auto simp: seg_held_def)
  moreover have "client_up E t w (seg_key i j)" "client_fits t w (length v)"
    using assms(2) t unfolding key_ready_def by fastforce+
  ultimately show ?thesis using that by blast
qed

lemma read_pieces_blocks:
  assumes "\<And>j. j \<in> set js \<Longrightarrow> seg_held E w i (sel j) j (vs j) \<and> key_ready E w (seg_key i j) n"
  shows "read_pieces E w (map (\<lambda>j. one_piece (seg_link i (sel j) (len j) j) 0) js) tot =
    Inr (map (\<lambda>j. whole_piece i (sel j) (len j) j (vs j)) js,
         tot + of_nat (sum_list (map (\<lambda>j. length (vs j)) js)))"
  using assms
proof (induction js arbitrary: tot)
  case Nil
  then show ?case by simp
next
  case (Cons j js)
  let ?piece = "(seg_link i (sel j) (len j) j)\<lparr>d_position := 0, d_data_size := 0\<rparr>"
  have held: "seg_held E w i (sel j) j (vs j)" "key_ready E w (seg_key i j) n" using Cons.prems by simp_all
  obtain t where t: "GetIOClient w (sel j) = Inr t" "client_obj E t w (seg_key i j) = Some (vs j)"
    "client_up E t w (seg_key i j)" "client_fits t w (length (vs j))"
    by (rule seg_held_client [OF held])
  have "client_Read E t w ?piece ?piece = Inr (whole_piece i (sel j) (len j) j (vs j))"
    using client_store.rd_whole [of E t w ?piece "vs j" ?piece] t by (simp add: whole_piece_def)
  then have "Io_Read E w (sel j) ?piece ?piece = Inr (whole_piece i (sel j) (len j) j (vs j))"
    using t(1) by (simp add: Io_Read_def)
  then show ?case
    using Cons by (simp add: one_piece_def whole_piece_def ucast_of_nat add.assoc)
qed

lemma join_blocks:
  assumes "\<And>j. j \<in> set js \<Longrightarrow> length (vs j) < 2 ^ 31"
    and "length buf = start + sum_list (map (\<lambda>j. length (vs j)) js)" "length buf < 2 ^ 31"
  shows "join_pieces (map (\<lambda>j. whole_piece i (sel j) (len j) j (vs j)) js) (of_nat start) buf =
    Inr (take start buf @ concat (map vs js))"
  using assms
proof (induction js arbitrary: start buf)
  case Nil
  then show ?case by simp
next
  case (Cons j js)
  let ?v = "vs j"
  have v: "unat (of_nat (length ?v) :: size_t) = length ?v" "unat (of_nat start :: size_t) = start"
    using Cons.prems by (simp_all add: size_fits)
  have copy: "memcpy_at start ?v buf = Some (take start buf @ ?v @ drop (start + length ?v) buf)"
    using Cons.prems(2) by (intro memcpy_at_Some) simp
  have "join_pieces (map (\<lambda>j. whole_piece i (sel j) (len j) j (vs j)) js) (of_nat (start + length ?v))
      (take start buf @ ?v @ drop (start + length ?v) buf) =
    Inr (take (start + length ?v) (take start buf @ ?v @ drop (start + length ?v) buf) @ concat (map vs js))"
    using Cons.prems by (intro Cons.IH) simp_all
  then show ?case
    using v copy Cons.prems(2) by (simp add: whole_piece_def mem_read_Some Let_def)
qed

lemma size_pieces_blocks:
  assumes "\<And>j. j \<in> set js \<Longrightarrow> seg_held E w i (sel j) j (vs j) \<and> key_ready E w (seg_key i j) n"
  shows "size_pieces E w (map (\<lambda>j. one_piece (seg_link i (sel j) (len j) j) 0) js) tot =
    Inr (tot + of_nat (sum_list (map (\<lambda>j. length (vs j)) js)))"
  using assms
proof (induction js arbitrary: tot)
  case Nil
  then show ?case by simp
next
  case (Cons j js)
  let ?piece = "(seg_link i (sel j) (len j) j)\<lparr>d_position := 0, d_data_size := 0\<rparr>"
  have held: "seg_held E w i (sel j) j (vs j)" "key_ready E w (seg_key i j) n" using Cons.prems by simp_all
  obtain t where t: "GetIOClient w (sel j) = Inr t" "client_obj E t w (seg_key i j) = Some (vs j)"
    "client_up E t w (seg_key i j)" "client_fits t w (length (vs j))"
    by (rule seg_held_client [OF held])
  have "client_Size E t w ?piece = Inr (of_nat (length (vs j)))"
    using client_store.sz_length [of E t w ?piece] t by simp
  then have "Io_Size E w (sel j) ?piece = Inr (of_nat (length (vs j)))"
    using t(1) by (simp add: Io_Size_def)
  then show ?case using Cons by (simp add: one_piece_def ucast_of_nat add.assoc)
qed

lemma remove_pieces_blocks:
  assumes "\<And>j. j \<in> set js \<Longrightarrow> seg_held E w i (sel j) j (vs j) \<and> key_ready E w (seg_key i j) n" "distinct js"
  shows "\<exists>w'. remove_pieces E w (map (\<lambda>j. one_piece (seg_link i (sel j) (len j) j) 0) js) True = (Inr True, w') \<and>
    serves_like E w' w \<and> (\<forall>j \<in> set js. \<forall>t. client_obj E t w' (seg_key i j) = None) \<and>
    (\<forall>t k. k \<notin> seg_key i ` set js \<longrightarrow> client_obj E t w' k = client_obj E t w k)"
  using assms
proof (induction js arbitrary: w)
  case Nil
  then show ?case by simp
next
  case (Cons j js)
  let ?piece = "(seg_link i (sel j) (len j) j)\<lparr>d_position := 0, d_data_size := 0\<rparr>"
  have held: "seg_held E w i (sel j) j (vs j)" "key_ready E w (seg_key i j) n" using Cons.prems by simp_all
  obtain t where t: "GetIOClient w (sel j) = Inr t" "client_up E t w (seg_key i j)"
    "\<And>t'. t' \<noteq> t \<Longrightarrow> client_obj E t' w (seg_key i j) = None"
    by (rule seg_held_client [OF held]) blast
  have "client_up E t w (d_id ?piece)" using t(2) by simp
  from remove_data [OF t(1) this] obtain w1 where w1: "Io_Remove E w (sel j) ?piece = (Inr True, w1)"
    and like1: "serves_like E w1 w" and obj1: "client_obj E t w1 = (client_obj E t w)(seg_key i j := None)"
    and other1: "\<And>t'. t' \<noteq> t \<Longrightarrow> client_obj E t' w1 = client_obj E t' w" by auto
  have get1: "GetIOClient w1 = GetIOClient w" using like1 by (rule serves_like_GetIOClient)
  have kept: "client_obj E t' w1 k = client_obj E t' w k" if "k \<noteq> seg_key i j" for t' k
    using obj1 other1 [of t'] that by (cases "t' = t") simp_all
  have gone: "client_obj E t' w1 (seg_key i j) = None" for t'
    using obj1 other1 [of t'] t(3) by (cases "t' = t") simp_all
  have "seg_held E w1 i (sel l) l (vs l) \<and> key_ready E w1 (seg_key i l) n" if "l \<in> set js" for l
  proof -
    have same: "client_obj E t' w1 (seg_key i l) = client_obj E t' w (seg_key i l)" for t'
      using that Cons.prems(2) kept [of "seg_key i l" t'] by auto
    show ?thesis
      using that Cons.prems(1) [of l] key_ready_frame [OF like1 same] by (simp add: seg_held_def get1 same)
  qed
  from Cons.IH [OF this] Cons.prems(2) obtain w' where
    w': "remove_pieces E w1 (map (\<lambda>j. one_piece (seg_link i (sel j) (len j) j) 0) js) True = (Inr True, w')"
    and like': "serves_like E w' w1"
    and gone': "\<And>l t. l \<in> set js \<Longrightarrow> client_obj E t w' (seg_key i l) = None"
    and kept': "\<And>t k. k \<notin> seg_key i ` set js \<Longrightarrow> client_obj E t w' k = client_obj E t w1 k"
    by auto
  have "seg_key i j \<notin> seg_key i ` set js" using Cons.prems(2) by auto
  then have "client_obj E t' w' (seg_key i j) = None" for t' using kept' gone by simp
  moreover have "remove_pieces E w (map (\<lambda>j. one_piece (seg_link i (sel j) (len j) j) 0) (j # js)) True = (Inr True, w')"
    using w1 w' by (simp add: one_piece_def)
  ultimately show ?case
    using serves_like_trans [OF like' like1] gone' kept' kept by auto
qed


subsection \<open>Reading, measuring, deleting\<close>

lemma blocks_holdD:
  assumes "blocks_hold E c i p n N w vs"
  shows "system_ok E w" "w_conf w = c" "p \<in> fst ` set (sols_of w)" "blocks_ready E w i n N"
    "N * unat (MAX_OBJ_SIZE c) < 2 ^ 64" "N < 2 ^ 31" "length vs \<le> N" "length (concat vs) < 2 ^ 31"
    "MAX_OBJ_SIZE c \<noteq> 0" "wire_ok E" "wf_solutions (sols_of w)"
  using assms by (auto simp: blocks_hold_def system_ok_def)

lemma blocks_readyD:
  assumes "blocks_ready E w i n N"
  shows "key_ready E w (meta_key i) n" "j < N \<Longrightarrow> key_ready E w (seg_key i j) n"
  using assms by (simp_all add: blocks_ready_def)

lemma blocks_read_primary:
  assumes "blocks_hold E c i p n N w vs" "vs \<noteq> []" "blocks_held E w i p sel len vs"
    and "d_id r = i" "d_storage_index r = p"
  shows "read_primary E w r = Inr (seg_meta i p (length vs) sel len)"
proof -
  note b = blocks_holdD [OF assms(1)]
  obtain s where "pack_bytes E (seg_meta i p (length vs) sel len) = Inr s" "holds_bytes E w p (meta_key i) s"
    using assms(3) by (auto simp: blocks_held_def)
  moreover have "length vs < 2 ^ 64" using b(6,7) by simp
  ultimately show ?thesis using blocks_primary b(10) blocks_readyD(1) [OF b(4)] assms(4,5) by blast
qed

lemma blocks_Locate_all:
  assumes "blocks_hold E c i p n N w vs" "vs \<noteq> []" "blocks_held E w i p sel len vs"
  shows "Locate E w (target i p 0) =
    Inr (map (\<lambda>j. one_piece (seg_link i (sel j) (len j) j) 0) [0..<length vs], seg_meta i p (length vs) sel len)"
proof -
  note b = blocks_holdD [OF assms(1)]
  have "length vs < 2 ^ 31" using b(6,7) by simp
  then show ?thesis
    using blocks_read_primary [OF assms, of "target i p 0"] b(2,9)
      segment_request_all [of "MAX_OBJ_SIZE c" "length vs" "target i p 0" i p sel len]
    by (simp add: Locate_def)
qed

lemma blocks_pieces:
  assumes "blocks_hold E c i p n N w vs" "blocks_held E w i p sel len vs" "j \<in> set [0..<length vs]"
  shows "seg_held E w i (sel j) j (vs ! j) \<and> key_ready E w (seg_key i j) n"
  using assms blocks_holdD(4,7) [OF assms(1)] by (auto simp: blocks_held_def blocks_ready_def)

lemma sum_blocks: "sum_list (map (\<lambda>j. length (vs ! j)) [0..<length vs]) = length (concat vs)"
proof -
  have "map (\<lambda>j. length (vs ! j)) [0..<length vs] = map length vs"
    by (rule nth_equalityI) simp_all
  then show ?thesis by (simp add: length_concat)
qed

lemma concat_blocks: "concat (map ((!) vs) [0..<length vs]) = concat vs"
  by (simp add: map_nth)

lemma block_length: "j < length vs \<Longrightarrow> length (vs ! j) \<le> length (concat vs)"
  by (simp add: length_concat member_le_sum_list)

lemma blocks_Get:
  assumes "blocks_hold E c i p n N w vs" "vs \<noteq> []"
  shows "serve E i w (Get p) = (Content (concat vs), w)"
proof -
  note b = blocks_holdD [OF assms(1)]
  obtain sel len where held: "blocks_held E w i p sel len vs" using assms by (auto simp: blocks_hold_def)
  let ?js = "[0..<length vs]" and ?n = "length (concat vs)"
  have tot: "sint (of_nat ?n :: int32) = int ?n"
    using sint_narrow_size [OF b(8)] by (simp add: ucast_of_nat)
  have "read_pieces E w (map (\<lambda>j. one_piece (seg_link i (sel j) (len j) j) 0) ?js) 0 =
      Inr (map (\<lambda>j. whole_piece i (sel j) (len j) j (vs ! j)) ?js, of_nat ?n)"
    using read_pieces_blocks [where js = ?js and vs = "(!) vs" and tot = 0 and len = len, OF blocks_pieces [OF assms(1) held]]
    by (simp add: sum_blocks)
  moreover have small: "length (vs ! j) < 2 ^ 31" if "j \<in> set ?js" for j
    using that block_length [of j vs] b(8) by simp
  have "join_pieces (map (\<lambda>j. whole_piece i (sel j) (len j) j (vs ! j)) ?js) 0 (malloc (e_junk E) ?n) =
      Inr (concat vs)"
    using join_blocks [where js = ?js and vs = "(!) vs" and start = 0 and buf = "malloc (e_junk E) ?n" and i = i
        and sel = sel and len = len, OF small] b(8)
    by (simp add: sum_blocks concat_blocks)
  ultimately show ?thesis
    using blocks_Locate_all [OF assms held] tot by (simp add: Server_Locate_def)
qed

lemma blocks_Len:
  assumes "blocks_hold E c i p n N w vs" "vs \<noteq> []"
  shows "serve E i w (Len p) = (Length (of_nat (length (concat vs))), w)"
proof -
  note b = blocks_holdD [OF assms(1)]
  obtain sel len where held: "blocks_held E w i p sel len vs" using assms by (auto simp: blocks_hold_def)
  let ?js = "[0..<length vs]" and ?n = "length (concat vs)"
  have "size_pieces E w (map (\<lambda>j. one_piece (seg_link i (sel j) (len j) j) 0) ?js) 0 = Inr (of_nat ?n)"
    using size_pieces_blocks [where js = ?js and vs = "(!) vs" and tot = 0 and len = len, OF blocks_pieces [OF assms(1) held]]
    by (simp add: sum_blocks)
  moreover have "scast (of_nat ?n :: int32) = (of_nat ?n :: size_t)"
    using sint_narrow_size [OF b(8)] by (metis of_int_of_nat_eq of_int_sint ucast_of_nat)
  ultimately show ?thesis using blocks_Locate_all [OF assms held] by (simp add: Server_Size_def)
qed

lemma blocks_absent:
  assumes "blocks_hold E c i p n N w []" "d_id r = i" "d_storage_index r = p"
  obtains e where "Locate E w r = Inl (Thrown e)"
proof -
  note b = blocks_holdD [OF assms(1)]
  obtain t where t: "GetIOClient w p = Inr t" using GetIOClient_configured [OF b(11,3)] by blast
  have "client_up E t w (meta_key i)" using blocks_readyD(1) [OF b(4)] t by (auto simp: key_ready_def)
  moreover have "client_obj E t w (meta_key i) = None" using assms(1) t by (auto simp: blocks_hold_def)
  ultimately show ?thesis using Locate_absent [of w r t E] assms(2,3) t that by auto
qed


lemma seg_held_frame:
  assumes "serves_like E w' w" "\<And>t. client_obj E t w' (seg_key i j) = client_obj E t w (seg_key i j)"
  shows "seg_held E w' i ix j v = seg_held E w i ix j v"
  using assms(2) serves_like_GetIOClient [OF assms(1)] by (simp add: seg_held_def)

text \<open>A new state of the same system.\<close>

lemma blocks_hold_next:
  assumes "blocks_hold E c i p n N w vs" "serves_like E w' w" "blocks_ready E w' i n N"
    and "length vs' \<le> N" "length (concat vs') < 2 ^ 31"
    and "\<And>j t. length vs' \<le> j \<Longrightarrow> j < N \<Longrightarrow> client_obj E t w' (seg_key i j) = None"
    and "if vs' = [] then \<forall>ix t. GetIOClient w' ix = Inr t \<longrightarrow> client_obj E t w' (meta_key i) = None
      else \<exists>sel len. blocks_held E w' i p sel len vs'"
  shows "blocks_hold E c i p n N w' vs'"
  using assms system_ok_like [OF assms(2)] serves_like_sols [OF assms(2)]
  unfolding blocks_hold_def serves_like_def by simp

lemma blocks_Del:
  assumes "blocks_hold E c i p n N w vs" "vs \<noteq> []"
  shows "\<exists>w'. serve E i w (Del p) = (Deleted True, w') \<and> blocks_hold E c i p n N w' []"
proof -
  note b = blocks_holdD [OF assms(1)]
  obtain sel len where held: "blocks_held E w i p sel len vs" using assms by (auto simp: blocks_hold_def)
  let ?js = "[0..<length vs]"
  obtain w1 where w1: "remove_pieces E w (map (\<lambda>j. one_piece (seg_link i (sel j) (len j) j) 0) ?js) True = (Inr True, w1)"
    and like1: "serves_like E w1 w" and gone1: "\<forall>j \<in> set ?js. \<forall>t. client_obj E t w1 (seg_key i j) = None"
    and kept1: "\<forall>t k. k \<notin> seg_key i ` set ?js \<longrightarrow> client_obj E t w1 k = client_obj E t w k"
    using remove_pieces_blocks [where js = ?js and vs = "(!) vs" and len = len, OF blocks_pieces [OF assms(1) held]] by auto
  have sols1: "sols_of w1 = sols_of w" using like1 by (rule serves_like_sols)
  have shrink1: "client_obj E t w1 k = None \<or> client_obj E t w1 k = client_obj E t w k" for t k
    using gone1 kept1 by (cases "k \<in> seg_key i ` set ?js") auto
  have wf1: "wf_solutions (sols_of w1)" using b(11) sols1 by simp
  have ready1: "key_ready E w1 (meta_key i) n"
    by (rule key_ready_shrink [OF like1 blocks_readyD(1) [OF b(4)] shrink1])
  obtain w' where w': "delete_metadata E w1 (meta_key i) (sols_of w1) = (Inr True, w')" "serves_like E w' w1"
    "key_ready E w' (meta_key i) n" and meta: "\<And>ix t. GetIOClient w' ix = Inr t \<Longrightarrow> client_obj E t w' (meta_key i) = None"
    and keys: "\<And>t k. k \<noteq> meta_key i \<Longrightarrow> client_obj E t w' k = client_obj E t w1 k"
    by (rule metadata_deleted [OF wf1 ready1]) blast
  have like: "serves_like E w' w" using serves_like_trans [OF w'(2) like1] .
  have segs: "client_obj E t w' (seg_key i j) = None" if "j < N" for j t
  proof (cases "j < length vs")
    case True
    then show ?thesis using gone1 keys by simp
  next
    case False
    then have "client_obj E t w (seg_key i j) = None" using assms(1) that by (auto simp: blocks_hold_def)
    then show ?thesis using keys shrink1 [of t "seg_key i j"] by simp
  qed
  have "key_ready E w' (seg_key i j) n" if "j < N" for j
    by (rule key_ready_shrink [OF like blocks_readyD(2) [OF b(4) that]]) (simp add: segs [OF that])
  then have ready': "blocks_ready E w' i n N" using w'(3) by (simp add: blocks_ready_def)
  have "blocks_hold E c i p n N w' []"
    by (rule blocks_hold_next [OF assms(1) like ready']) (use segs meta in auto)
  moreover have "serve E i w (Del p) = (Deleted True, w')"
    using blocks_Locate_all [OF assms held] w1 w'(1) sols1
    by (simp add: Server_Delete_def Orchestrator_Delete_def meta_id_key sols_of_def)
  ultimately show ?thesis by blast
qed

subsection \<open>Writing a block\<close>

lemma block_position:
  assumes "j < N" "N * unat M < 2 ^ 64" "M \<noteq> 0"
  shows "(of_nat j * M :: size_t) div M = of_nat j" "(of_nat j * M :: size_t) mod M = 0"
    "unat (of_nat j :: size_t) = j"
proof -
  have M: "0 < unat M" using assms(3) by (simp add: unat_gt_0)
  have le: "j * unat M < 2 ^ 64" using assms(1,2) by (meson le_less_trans less_imp_le mult_le_mono1)
  have "j \<le> j * unat M" using M by simp
  then show j: "unat (of_nat j :: size_t) = j" using le by (intro size_fits) linarith
  have pos: "unat (of_nat j * M) = j * unat M"
    using le by (simp add: unat_word_ariths j)
  show "(of_nat j * M) div M = of_nat j"
    by (rule word_unat_eq_iff [THEN iffD2]) (use M pos j in \<open>simp add: unat_div\<close>)
  show "(of_nat j * M) mod M = 0"
    by (rule word_unat_eq_iff [THEN iffD2]) (use M pos in \<open>simp add: unat_mod\<close>)
qed

lemma block_target_fields [simp]:
  "d_id (block_target i p M j m) = i" "d_storage_index (block_target i p M j m) = p"
  "d_position (block_target i p M j m) = of_nat j * M" "d_data_size (block_target i p M j m) = of_nat m"
  "d_buffer (block_target i p M j m) = None"
  by (simp_all add: block_target_def target_def)

text \<open>The destination of the data of block \<open>j\<close> at the storage \<open>s\<close>.\<close>

lemma block_target_link:
  "(block_target i p M j m)\<lparr>d_storage_index := s, d_buffer := None, d_position := 0, d_id := seg_key i j\<rparr> =
   seg_link i s (of_nat m) j"
  by (simp add: block_target_def target_def seg_link_def)


lemma store_existing_known:
  assumes "j < k" "k \<le> N" "j < N" "N * unat M < 2 ^ 64" "M \<noteq> 0" "N < 2 ^ 31"
  shows "store_existing M [place src (block_target i p M j m) s] (seg_meta i p k sel len) =
    ([(place src (block_target i p M j m) s)\<lparr>dd_destination_data := seg_link i (sel j) (of_nat m) j\<rparr>],
     seg_meta i p k sel len, False)"
proof -
  have "map_of (m_links (seg_meta i p k sel len)) (of_nat j) = Some (seg_link i (sel j) (len j) j)"
    using assms map_of_segments [of k j] by simp
  then show ?thesis
    using block_position [OF assms(3-5)]
    by (simp add: place_def Let_def block_target_def target_def seg_link_def)
qed

lemma seg_meta_Suc:
  assumes "k < 2 ^ 63"
  shows "(seg_meta i p k sel len)\<lparr>m_links := links_insert (of_nat k) (seg_link i s l k) (m_links (seg_meta i p k sel len))\<rparr> =
    seg_meta i p (Suc k) (sel(k := s)) (len(k := l))"
proof -
  have "map_of (m_links (seg_meta i p k sel len)) (of_nat k) = None"
    using assms map_of_segments [of k k] by simp
  then show ?thesis by (simp add: seg_meta_def links_insert_def)
qed

lemma store_existing_new:
  assumes "k < N" "N * unat M < 2 ^ 64" "M \<noteq> 0" "N < 2 ^ 31"
  shows "store_existing M [place src (block_target i p M k m) s] (seg_meta i p k sel len) =
    ([(place src (block_target i p M k m) s)\<lparr>dd_destination_data := seg_link i s (of_nat m) k\<rparr>],
     seg_meta i p (Suc k) (sel(k := s)) (len(k := of_nat m)), True)"
proof -
  note pos = block_position [OF assms(1-3)]
  have "map_of (m_links (seg_meta i p k sel len)) (of_nat k) = None"
    using assms map_of_segments [of k k] by simp
  moreover have "(block_target i p M k m)\<lparr>d_storage_index := s, d_buffer := None, d_position := 0,
      d_id := i @ nat_to_string k\<rparr> = seg_link i s (of_nat m) k"
    using block_target_link [where j = k] by (simp add: seg_key_def)
  moreover note seg_meta_Suc [of k]
  ultimately show ?thesis using pos assms(1,4) by (simp add: place_def Let_def)
qed

lemma store_fresh_block:
  "store_fresh M [place src (block_target i p M 0 m) s] (fresh_primary (block_target i p M 0 m)) =
    ([(place src (block_target i p M 0 m) s)\<lparr>dd_destination_data := seg_link i s (of_nat m) 0\<rparr>],
     seg_meta i p 1 (\<lambda>_. s) (\<lambda>_. of_nat m))"
  by (simp add: place_def fresh_primary_def seg_meta_def Let_def links_insert_def)
     (simp add: block_target_def target_def seg_link_def seg_key_def)

text \<open>
  What the orchestrator leaves in \<open>w1\<close> before the data of block \<open>j\<close> is written: the primary
  record has \<open>k\<close> segments, and the segments are those of \<open>w\<close>.
\<close>

definition entered ::
  "('r, 'm) env \<Rightarrow> string \<Rightarrow> uint16 \<Rightarrow> nat \<Rightarrow> nat \<Rightarrow> ('r, 'm) world \<Rightarrow> bytes list \<Rightarrow> nat \<Rightarrow> nat \<Rightarrow>
   (nat \<Rightarrow> uint16) \<Rightarrow> (nat \<Rightarrow> size_t) \<Rightarrow> ('r, 'm) world \<Rightarrow> bool" where
  "entered E i p n N w vs j k sel len w1 \<longleftrightarrow>
     serves_like E w1 w \<and> blocks_ready E w1 i n N \<and>
     (\<exists>s. pack_bytes E (seg_meta i p k sel len) = Inr s \<and> holds_bytes E w1 p (meta_key i) s) \<and>
     (\<forall>t l. client_obj E t w1 (seg_key i l) = client_obj E t w (seg_key i l)) \<and>
     (\<forall>l < length vs. seg_held E w i (sel l) l (vs ! l)) \<and> sel j \<in> fst ` set (sols_of w)"

text \<open>
  Writing the data once the record is in place: \<open>w1\<close> is the world after the orchestrator, with
  a record for the blocks \<open>vs'\<close> and the segments of \<open>w\<close>.
\<close>

text \<open>What a storage holds of a block before it is written, and what the write makes of it.\<close>

lemma old_block:
  assumes held: "\<And>l. l < length vs \<Longrightarrow> seg_held E w i (sel l) l (vs ! l)"
    and unused: "\<And>t l. length vs \<le> l \<Longrightarrow> l < N \<Longrightarrow> client_obj E t w (seg_key i l) = None"
    and j: "j \<le> length vs" "j < N" and t: "GetIOClient w (sel j) = Inr t"
  shows "t' \<noteq> t \<Longrightarrow> client_obj E t' w (seg_key i j) = None"
    "overlay 0 b (old_bytes (client_obj E t w (seg_key i j))) = snd (block_step vs (Put_block j b)) ! j"
proof -
  consider (old) "j < length vs" "client_obj E t w (seg_key i j) = Some (vs ! j)"
      "\<And>t'. t' \<noteq> t \<Longrightarrow> client_obj E t' w (seg_key i j) = None"
    | (new) "j = length vs" "\<And>t'. client_obj E t' w (seg_key i j) = None"
    using j held [of j] unused t by (cases "j < length vs") (auto simp: seg_held_def)
  then show "t' \<noteq> t \<Longrightarrow> client_obj E t' w (seg_key i j) = None"
    "overlay 0 b (old_bytes (client_obj E t w (seg_key i j))) = snd (block_step vs (Put_block j b)) ! j"
    by (cases; simp add: overlay_0)+
qed

lemma blocks_ready_change:
  assumes "blocks_ready E w i n N" "serves_like E w' w" "key_ready E w' (seg_key i j) n"
    and keys: "\<And>t k. k \<noteq> seg_key i j \<Longrightarrow> client_obj E t w' k = client_obj E t w k"
  shows "blocks_ready E w' i n N"
  unfolding blocks_ready_def
proof (intro conjI allI impI)
  show "key_ready E w' (meta_key i) n"
    using key_ready_frame [OF assms(2), of "meta_key i"] keys blocks_readyD(1) [OF assms(1)] by simp
  fix l assume "l < N"
  then show "key_ready E w' (seg_key i l) n"
    using key_ready_frame [OF assms(2), of "seg_key i l"] keys [of "seg_key i l"] assms(3) blocks_readyD(2) [OF assms(1)]
    by (cases "l = j") simp_all
qed

lemma write_block:
  assumes hold: "blocks_hold E c i p n N w vs" and ok: "block_ok n N vs (Put_block j b)"
    and vs': "vs' = snd (block_step vs (Put_block j b))"
    and entered: "entered E i p n N w vs j (length vs') sel len w1"
  shows "\<exists>w2. Io_Write E w1 (sel j) (put_source i b) (seg_link i (sel j) l j) = (Inr (put_source i b), w2) \<and>
    serves_like E w2 w \<and> blocks_hold E c i p n N w2 vs' \<and> blocks_held E w2 i p sel len vs' \<and>
    (\<forall>t. client_obj E t w2 (meta_key i) = client_obj E t w1 (meta_key i))"
proof -
  note b = blocks_holdD [OF hold]
  obtain s where like: "serves_like E w1 w" and ready: "blocks_ready E w1 i n N"
    and meta: "pack_bytes E (seg_meta i p (length vs') sel len) = Inr s" "holds_bytes E w1 p (meta_key i) s"
    and segs: "\<And>t l. client_obj E t w1 (seg_key i l) = client_obj E t w (seg_key i l)"
    and held: "\<And>l. l < length vs \<Longrightarrow> seg_held E w i (sel l) l (vs ! l)"
    and conf: "sel j \<in> fst ` set (sols_of w)"
    using entered by (auto simp: entered_def)
  have j: "j \<le> length vs" "j < N" "length b \<le> n" using ok by simp_all
  have get1: "GetIOClient w1 = GetIOClient w" using like by (rule serves_like_GetIOClient)
  obtain t where t: "GetIOClient w1 (sel j) = Inr t"
    using GetIOClient_configured [OF b(11) conf] get1 by auto
  have unused: "client_obj E t' w (seg_key i l) = None" if "length vs \<le> l" "l < N" for t' l
    using hold that by (auto simp: blocks_hold_def)
  have "GetIOClient w (sel j) = Inr t" using t get1 by simp
  then have old: "\<And>t'. t' \<noteq> t \<Longrightarrow> client_obj E t' w (seg_key i j) = None"
    "overlay 0 b (old_bytes (client_obj E t w (seg_key i j))) = vs' ! j"
    using old_block [of vs E w i sel N j t] held unused j(1,2) vs' by blast+
  have jl: "j < length vs'" using j vs' by auto
  have "key_ready E w1 (d_id (seg_link i (sel j) l j)) n" using blocks_readyD(2) [OF ready j(2)] by simp
  then obtain w2 where w2: "Io_Write E w1 (sel j) (put_source i b) (seg_link i (sel j) l j) = (Inr (put_source i b), w2)"
    and like2: "serves_like E w2 w1"
    and obj2: "client_obj E t w2 (seg_key i j) = Some (vs' ! j)"
    and ready2: "key_ready E w2 (seg_key i j) n"
    and keys2: "\<And>t' k'. k' \<noteq> seg_key i j \<Longrightarrow> client_obj E t' w2 k' = client_obj E t' w1 k'"
    and other2: "\<And>t'. t' \<noteq> t \<Longrightarrow> client_obj E t' w2 = client_obj E t' w1"
    by (rule Io_Write_data [OF t _ put_source_whole [of i] j(3)]) (use segs old(2) in simp_all)
  have likew: "serves_like E w2 w" using serves_like_trans [OF like2 like] .
  have ready': "blocks_ready E w2 i n N" by (rule blocks_ready_change [OF ready like2 ready2 keys2])
  have seg2: "seg_held E w2 i (sel l) l (vs' ! l)" if "l < length vs'" for l
  proof (cases "l = j")
    case True
    have "client_obj E t' w2 (seg_key i j) = None" if "t' \<noteq> t" for t'
      using other2 [OF that] segs old(1) [OF that] by simp
    then show ?thesis using True obj2 t serves_like_GetIOClient [OF like2] by (auto simp: seg_held_def)
  next
    case False
    then have "l < length vs" "vs' ! l = vs ! l" using that vs' j by (auto simp: nth_append split: if_splits)
    then show ?thesis
      using held seg_held_frame [OF likew, of i l] keys2 [of "seg_key i l"] segs False by simp
  qed
  have "holds_bytes E w2 p (meta_key i) s"
    using meta(2) holds_bytes_frame [OF like2] keys2 [of "meta_key i"] by simp
  then have held2: "blocks_held E w2 i p sel len vs'" using meta(1) seg2 by (auto simp: blocks_held_def)
  moreover have "vs' \<noteq> []" using jl by auto
  moreover have "client_obj E t' w2 (seg_key i l) = None" if "length vs' \<le> l" "l < N" for l t'
    using that jl keys2 [of "seg_key i l" t'] segs unused [of l t'] vs' by (auto split: if_splits)
  moreover have "length vs' \<le> N" using j b(7) vs' by auto
  moreover have "length (concat vs') < 2 ^ 31" using ok vs' by simp
  ultimately have "blocks_hold E c i p n N w2 vs'"
    by (intro blocks_hold_next [OF hold likew ready']) auto
  then show ?thesis using w2 likew held2 keys2 by simp
qed


lemma counters_key: "key_ready E (w\<lparr>w_rand_calls := c, w_seq_calls := d\<rparr>) k n = key_ready E w k n"
  by (rule key_ready_frame [OF counters_serve]) simp

lemma counters_ready:
  "blocks_ready E (w\<lparr>w_rand_calls := c, w_seq_calls := d\<rparr>) i n N = blocks_ready E w i n N"
  by (simp add: blocks_ready_def counters_key)

lemma counters_blocks:
  "blocks_hold E cf i p n N (w\<lparr>w_rand_calls := c, w_seq_calls := d\<rparr>) vs = blocks_hold E cf i p n N w vs"
proof -
  note like = counters_serve [where E = E and w = w and c = c and d = d]
  have "system_ok E (w\<lparr>w_rand_calls := c, w_seq_calls := d\<rparr>) = system_ok E w"
    by (simp add: system_ok_def sols_of_def)
  then show ?thesis
    using serves_like_GetIOClient [OF like] serves_like_sols [OF like] counters_ready [where E = E and w = w and c = c and d = d]
    by (simp add: blocks_hold_def blocks_held_def seg_held_def holds_bytes_def cong: if_cong)
qed

text \<open>What the orchestrator does for a block: the first of an object, one that exists, a new one.\<close>

lemma store_first:
  assumes hold: "blocks_hold E c i p n N w []" and ok: "block_ok n N [] (Put_block j b)"
    and sel': "s' \<in> fst ` set (sols_of w)" and dst: "dst = block_target i p (MAX_OBJ_SIZE c) j (length b)"
    and l: "l = of_nat (length b)"
  shows "\<exists>w1. Orchestrator_Store E w dst [place src dst s'] =
      (Inr [(place src dst s')\<lparr>dd_destination_data := seg_link i s' l j\<rparr>], w1) \<and>
    entered E i p n N w [] j 1 (\<lambda>_. s') (\<lambda>_. l) w1 \<and>
    published E w1 (meta_key i) (seg_meta i p 1 (\<lambda>_. s') (\<lambda>_. l))"
proof -
  note b = blocks_holdD [OF hold]
  have j: "j = 0" "j < N" "length b \<le> n" using ok by simp_all
  let ?m = "seg_meta i p 1 (\<lambda>_. s') (\<lambda>_. l)"
  have packs: "packs_within E (meta_key i) ?m n" using hold j(2) by (simp add: blocks_hold_def)
  have sys: "separate (sols_of w)" using b(1) by (simp add: system_ok_def)
  obtain e where e: "Locate E w dst = Inl (Thrown e)"
    by (rule blocks_absent [of E c i p n N w dst]) (use hold dst in simp_all)
  obtain w1 where w1: "Orchestrator_Store E w dst [place src dst s'] =
      (Inr [(place src dst s')\<lparr>dd_destination_data := seg_link i s' l 0\<rparr>], w1)"
    and like: "serves_like E w1 w" and ready: "key_ready E w1 (meta_key i) n"
    and pub: "published E w1 (meta_key i) ?m"
    and keys: "\<forall>t k'. k' \<noteq> meta_key i \<longrightarrow> client_obj E t w1 k' = client_obj E t w k'"
    using Orchestrator_Store_fresh [of E w dst e "[place src dst s']" _ ?m n]
      b e sys dst j packs l store_fresh_block [of "MAX_OBJ_SIZE c" src i p "length b" s'] blocks_readyD(1) [OF b(4)]
    by (auto simp: meta_id_key)
  have "blocks_ready E w1 i n N"
    using ready key_ready_frame [OF like] keys b(4) by (simp add: blocks_ready_def)
  moreover obtain s where "pack_bytes E ?m = Inr s" "holds_bytes E w1 p (meta_key i) s"
    using pub by (auto simp: published_def)
  ultimately show ?thesis using w1 pub like keys j(1) sel' by (simp add: entered_def)
qed

lemma blocks_Locate:
  assumes hold: "blocks_hold E c i p n N w vs" and "vs \<noteq> []" "blocks_held E w i p sel len vs"
    and "d_id dst = i" "d_storage_index dst = p"
  shows "\<exists>ds. Locate E w dst = Inr (ds, seg_meta i p (length vs) sel len)"
proof -
  note b = blocks_holdD [OF hold]
  have "length vs < 2 ^ 31" using b(6,7) by simp
  then show ?thesis
    using blocks_read_primary [OF hold assms(2,3), of dst] segment_request_total [OF b(9), of "length vs" dst i p sel len]
      b(2) assms(4,5) by (auto simp: Locate_def)
qed

lemma store_known:
  assumes hold: "blocks_hold E c i p n N w vs" and ok: "block_ok n N vs (Put_block j b)" and j: "j < length vs"
    and held: "blocks_held E w i p sel len vs"
    and dst: "dst = block_target i p (MAX_OBJ_SIZE c) j (length b)"
  shows "Orchestrator_Store E w dst [place src dst s'] =
      (Inr [(place src dst s')\<lparr>dd_destination_data := seg_link i (sel j) (of_nat (length b)) j\<rparr>], w) \<and>
    entered E i p n N w vs j (length vs) sel len w"
proof -
  note b = blocks_holdD [OF hold]
  obtain t where "GetIOClient w (sel j) = Inr t" using held j by (auto simp: blocks_held_def seg_held_def)
  then have "sel j \<in> fst ` set (sols_of w)"
    by (force simp: GetIOClient_def sols_of_def split: option.splits dest: map_of_SomeD)
  moreover have "vs \<noteq> []" using j by auto
  then obtain ds where "Locate E w dst = Inr (ds, seg_meta i p (length vs) sel len)"
    using blocks_Locate [OF hold _ held, of dst] dst by auto
  moreover have "j < N" using ok by simp
  ultimately show ?thesis
    using held b(2,4) dst store_existing_known [OF j b(7) _ b(5,9,6), of src i p "length b" s' sel len]
    by (simp add: Orchestrator_Store_def Let_def entered_def blocks_held_def)
qed

lemma store_new:
  assumes hold: "blocks_hold E c i p n N w vs" and ok: "block_ok n N vs (Put_block (length vs) b)"
    and "vs \<noteq> []" and held: "blocks_held E w i p sel len vs" and sel': "s' \<in> fst ` set (sols_of w)"
    and dst: "dst = block_target i p (MAX_OBJ_SIZE c) (length vs) (length b)" and l: "l = of_nat (length b)"
  shows "\<exists>w1. Orchestrator_Store E w dst [place src dst s'] =
      (Inr [(place src dst s')\<lparr>dd_destination_data := seg_link i s' l (length vs)\<rparr>], w1) \<and>
    entered E i p n N w vs (length vs) (Suc (length vs)) (sel(length vs := s')) (len(length vs := l)) w1 \<and>
    (\<forall>t. GetIOClient w p \<noteq> Inr t \<longrightarrow> client_obj E t w1 = client_obj E t w)"
proof -
  note b = blocks_holdD [OF hold]
  let ?k = "length vs" and ?sel = "sel(length vs := s')" and ?len = "len(length vs := l)"
  let ?m = "seg_meta i p (Suc ?k) ?sel ?len"
  have j: "?k < N" "length b \<le> n" using ok by simp_all
  have Suc: "Suc ?k \<le> N" "Suc ?k < 2 ^ 64" using j(1) b(6) by simp_all
  obtain ds where loc: "Locate E w dst = Inr (ds, seg_meta i p ?k sel len)"
    using blocks_Locate [OF hold assms(3) held, of dst] dst by auto
  obtain s1 where s1: "pack_bytes E ?m = Inr s1" using wf_packs [OF seg_meta_wf [OF Suc(2)]] by blast
  have "packs_within E (meta_key i) ?m n" using hold Suc(1) by (simp add: blocks_hold_def)
  then have fits: "length s1 \<le> n" using s1 by (simp add: packs_within_def)
  obtain t where t: "GetIOClient w p = Inr t" using GetIOClient_configured [OF b(11,3)] by blast
  obtain w1 where w1: "Io_Write E w p (meta_data (meta_key i) p s1) (meta_data (meta_key i) p s1) =
      (Inr (meta_data (meta_key i) p s1), w1)"
    and like: "serves_like E w1 w" and ready: "key_ready E w1 (meta_key i) n"
    and held1: "\<exists>extra. client_obj E t w1 (meta_key i) = Some (s1 @ extra)"
    and other: "\<And>t'. t' \<noteq> t \<Longrightarrow> client_obj E t' w1 = client_obj E t' w"
    and keys: "\<And>t' k'. k' \<noteq> meta_key i \<Longrightarrow> client_obj E t' w1 k' = client_obj E t' w k'"
    by (rule Io_Write_meta [OF t blocks_readyD(1) [OF b(4)] fits]) blast
  have "blocks_ready E w1 i n N"
    using ready key_ready_frame [OF like] keys b(4) by (simp add: blocks_ready_def)
  moreover have "holds_bytes E w1 p (meta_key i) s1"
    using held1 t serves_like_GetIOClient [OF like] by (auto simp: holds_bytes_def)
  moreover have "Orchestrator_Store E w dst [place src dst s'] =
      (Inr [(place src dst s')\<lparr>dd_destination_data := seg_link i s' l ?k\<rparr>], w1)"
    using loc b(2) dst w1 s1 store_existing_new [of ?k N "MAX_OBJ_SIZE c" src i p "length b" s' sel len] b(5,6,9) j(1) l
    by (simp add: Orchestrator_Store_def write_primary_def Let_def meta_id_key)
  ultimately show ?thesis
    using like keys sel' s1 held other t by (auto simp: entered_def blocks_held_def)
qed

lemma store_block:
  assumes hold: "blocks_hold E c i p n N w vs" and ok: "block_ok n N vs (Put_block j b)"
    and sel': "s' \<in> fst ` set (sols_of w)"
    and dst: "dst = block_target i p (MAX_OBJ_SIZE c) j (length b)"
  shows "\<exists>w1 sel len. Orchestrator_Store E w dst [place src dst s'] =
      (Inr [(place src dst s')\<lparr>dd_destination_data := seg_link i (sel j) (of_nat (length b)) j\<rparr>], w1) \<and>
    entered E i p n N w vs j (length (snd (block_step vs (Put_block j b)))) sel len w1"
proof (cases "vs = []")
  case True
  then obtain w1 where "Orchestrator_Store E w dst [place src dst s'] =
      (Inr [(place src dst s')\<lparr>dd_destination_data := seg_link i s' (of_nat (length b)) j\<rparr>], w1)"
    "entered E i p n N w [] j 1 (\<lambda>_. s') (\<lambda>_. of_nat (length b)) w1"
    using store_first [of E c i p n N w j b s' dst _ src] hold ok sel' dst by blast
  then show ?thesis
    using True by (intro exI [of _ w1] exI [of _ "\<lambda>_. s'"] exI [of _ "\<lambda>_. of_nat (length b)"]) simp
next
  case False
  then obtain sel len where held: "blocks_held E w i p sel len vs" using hold by (auto simp: blocks_hold_def)
  show ?thesis
  proof (cases "j < length vs")
    case True
    then show ?thesis using store_known [OF hold ok True held dst, of src s'] by force
  next
    case new: False
    then have j: "j = length vs" using ok by simp
    let ?l = "of_nat (length b) :: size_t"
    obtain w1 where "Orchestrator_Store E w dst [place src dst s'] =
        (Inr [(place src dst s')\<lparr>dd_destination_data := seg_link i s' ?l j\<rparr>], w1)"
      "entered E i p n N w vs j (Suc (length vs)) (sel(j := s')) (len(j := ?l)) w1"
      using store_new [OF hold _ False held sel' _ refl, of b dst src] ok dst j by blast
    then show ?thesis
      using j by (intro exI [of _ w1] exI [of _ "sel(j := s')"] exI [of _ "len(j := ?l)"]) simp
  qed
qed

text \<open>A block is placed, its segment entered, and its bytes written.\<close>

lemma place_block:
  assumes hold: "blocks_hold E c i p n N w vs"
    and dst: "dst = block_target i p (MAX_OBJ_SIZE c) j (length b)"
  obtains s' w0 where "Distribute E w (put_source i b) dst = (Inr [place (put_source i b) dst s'], w0)"
    "s' \<in> fst ` set (sols_of w0)" "\<And>vs. blocks_hold E c i p n N w0 vs = blocks_hold E c i p n N w vs"
    "\<And>vs sel len. blocks_held E w0 i p sel len vs = blocks_held E w i p sel len vs"
    "serves_like E w0 w" "\<And>t. client_obj E t w0 = client_obj E t w"
proof -
  note h = blocks_holdD [OF hold]
  have sys: "sols_of w \<noteq> []" "DATA_DISTRIBUTION_POLICY (w_conf w) \<noteq> DYNAMIC_PROGRAMMING_POLICY"
    using h(1) by (simp_all add: system_ok_def)
  obtain s' cr cs where dist: "Distribute E w (put_source i b) dst =
      (Inr [place (put_source i b) dst s'], w\<lparr>w_rand_calls := cr, w_seq_calls := cs\<rparr>)"
    and s': "s' \<in> fst ` set (sols_of w)"
    by (rule Distribute_places [OF h(11) sys, of E "put_source i b" dst])
  note like = counters_serve [where E = E and w = w and c = cr and d = cs]
  show thesis
    by (rule that [OF dist])
      (use s' like serves_like_GetIOClient [OF like] in
        \<open>simp_all add: counters_blocks sols_of_def blocks_held_def holds_bytes_def seg_held_def\<close>)
qed

lemma serve_Put_block:
  assumes "Distribute E w (put_source i b) dst = (Inr [place (put_source i b) dst s'], w0)"
    and "Orchestrator_Store E w0 dst [place (put_source i b) dst s'] =
      (Inr [(place (put_source i b) dst s')\<lparr>dd_destination_data := seg_link i s (of_nat (length b)) j\<rparr>], w1)"
    and "Io_Write E w1 s (put_source i b) (seg_link i s (of_nat (length b)) j) = (Inr (put_source i b), w2)"
    and "dst = block_target i p (MAX_OBJ_SIZE (w_conf w)) j (length b)"
  shows "serve_block E i p w (Put_block j b) = (Stored, w2)"
proof -
  have "Server_Store E w (put_source i b) dst = (Inr (uint (SERVER_COUNT (w_conf w2))), w2)"
    using assms(1-3) by (simp add: Server_Store_def place_def)
  then show ?thesis using assms(4) by simp
qed

lemma blocks_Put:
  assumes hold: "blocks_hold E c i p n N w vs" and ok: "block_ok n N vs (Put_block j b)"
  shows "\<exists>w'. serve_block E i p w (Put_block j b) = (Stored, w') \<and>
    blocks_hold E c i p n N w' (snd (block_step vs (Put_block j b)))"
proof -
  define dst where "dst = block_target i p (MAX_OBJ_SIZE c) j (length b)"
  obtain s' w0 where dist: "Distribute E w (put_source i b) dst = (Inr [place (put_source i b) dst s'], w0)"
    and s': "s' \<in> fst ` set (sols_of w0)" and "blocks_hold E c i p n N w0 vs"
    using place_block [OF hold dst_def] hold by metis
  then obtain w1 sel len where
    store: "Orchestrator_Store E w0 dst [place (put_source i b) dst s'] =
       (Inr [(place (put_source i b) dst s')\<lparr>dd_destination_data := seg_link i (sel j) (of_nat (length b)) j\<rparr>], w1)"
    and w1: "entered E i p n N w0 vs j (length (snd (block_step vs (Put_block j b)))) sel len w1"
    and hold0: "blocks_hold E c i p n N w0 vs"
    using store_block [OF _ ok _ dst_def] by metis
  then obtain w2 where "Io_Write E w1 (sel j) (put_source i b) (seg_link i (sel j) (of_nat (length b)) j) =
      (Inr (put_source i b), w2)" "blocks_hold E c i p n N w2 (snd (block_step vs (Put_block j b)))"
    using write_block [OF hold0 ok refl w1] by blast
  then show ?thesis
    using serve_Put_block [OF dist store] dst_def blocks_holdD(2) [OF hold] by blast
qed

section \<open>The server is a list of blocks\<close>

interpretation blks: simulation "serve_block E i p" block_step "block_ok n N" "blocks_hold E c i p n N"
proof
  fix w vs q
  assume hold: "blocks_hold E c i p n N w vs" and ok: "block_ok n N vs q"
  have absent: "\<exists>e. Locate E w (target i p 0) = Inl (Thrown e)" if "vs = []"
    by (rule blocks_absent [of E c i p n N w "target i p 0"]) (use hold that in auto)
  show "\<exists>w'. serve_block E i p w q = (fst (block_step vs q), w') \<and> blocks_hold E c i p n N w' (snd (block_step vs q))"
  proof (cases q)
    case (Put_block j b)
    then show ?thesis using blocks_Put [OF hold, of j b] ok by simp
  next
    case Get_blocks
    then have "serve_block E i p w q = (fst (block_step vs q), w)"
      using blocks_Get [OF hold] absent by (cases "vs = []") (auto simp: Server_Locate_def)
    then show ?thesis using hold Get_blocks by simp
  next
    case Len_blocks
    then have "serve_block E i p w q = (fst (block_step vs q), w)"
      using blocks_Len [OF hold] absent by (cases "vs = []") (auto simp: Server_Size_def)
    then show ?thesis using hold Len_blocks by simp
  next
    case Del_blocks
    show ?thesis
    proof (cases "vs = []")
      case True
      then have "serve_block E i p w q = (Deleted False, w)"
        using absent Del_blocks by (auto simp: Server_Delete_def)
      then show ?thesis using hold True Del_blocks by simp
    next
      case False
      then show ?thesis using blocks_Del [OF hold False] Del_blocks by simp
    qed
  qed
qed


section \<open>The concrete system\<close>

text \<open>How long the reference encoding of a record can be.\<close>

lemma length_ref_int:
  assumes "- (2 ^ 63) \<le> i" "i < 2 ^ 64"
  shows "length (ref_pack (MInt i)) \<le> 23"
proof (cases "i < 0")
  case True
  have "nat (- i) < 10 ^ Suc 19" using assms by simp
  from length_nat_to_string_bound [OF this] show ?thesis using True by (simp add: int_to_string_def)
next
  case False
  have "nat i < 10 ^ Suc 19" using assms by simp
  from length_nat_to_string_bound [OF this] show ?thesis using False by (simp add: int_to_string_def)
qed

lemma length_ref_uint: "LENGTH('a::len) \<le> 64 \<Longrightarrow> length (ref_pack (MInt (uint (x :: 'a word)))) \<le> 23"
proof (rule length_ref_int)
  assume "LENGTH('a) \<le> 64"
  then have "(2 :: int) ^ LENGTH('a) \<le> 2 ^ 64" by (intro power_increasing) simp_all
  then show "uint x < 2 ^ 64" using unsigned_less [of x, where ?'a = int] by linarith
  show "- (2 ^ 63) \<le> uint x" using unsigned_greater_eq [of x, where ?'a = int] by (rule order_trans [rotated]) simp
qed

lemma length_ref_sint: "length (ref_pack (MInt (sint (x :: int64)))) \<le> 23"
  using sint_ge [of x] less_trans [OF sint_lt [of x], of "2 ^ 64"] by (intro length_ref_int) simp_all

lemma length_ref_str: "length s < 10 ^ 20 \<Longrightarrow> length (ref_pack (MStr s)) \<le> length s + 22"
  using length_nat_to_string_bound [of "length s" 19] by simp

lemma length_ref_data:
  assumes "d_buffer d = None" "length (d_id d) < 10 ^ 20" "pack_Data d = Inr ob"
  shows "length (ref_pack ob) \<le> length (d_id d) + 120"
proof -
  have "length (ref_pack (MInt (uint (d_position d)))) \<le> 23" "length (ref_pack (MInt (uint (d_data_size d)))) \<le> 23"
    "length (ref_pack (MInt (uint (d_storage_index d)))) \<le> 23"
    by (rule length_ref_uint; simp)+
  moreover have "length (ref_pack (MStr (d_id d))) \<le> length (d_id d) + 22"
    "length (ref_pack (MStr '''')) \<le> 22"
    using length_ref_str [OF assms(2)] length_ref_str [of "''''"] by simp_all
  ultimately show ?thesis using assms(1,3) by (auto simp: pack_Data_def simp del: ref_pack.simps(2,3))
qed

lemma length_ref_links:
  assumes "\<forall>d \<in> snd ` set ls. d_buffer d = None \<and> length (d_id d) \<le> L" "L < 10 ^ 20"
    and "pack_links ls = Inr obs"
  shows "length (concat (map (\<lambda>(a, b). CHR '','' # ref_pack a @ ref_pack b) obs)) \<le> length ls * (L + 144)"
  using assms
proof (induction ls arbitrary: obs rule: pack_links.induct)
  case (2 k d ls)
  then obtain od ols where o: "pack_Data d = Inr od" "pack_links ls = Inr ols" "obs = (MInt (sint k), od) # ols"
    by (auto split: sum.splits)
  have "length (ref_pack od) \<le> L + 120"
    using length_ref_data [of d od] "2.prems"(1,2) o by force
  moreover have "length (concat (map (\<lambda>(a, b). CHR '','' # ref_pack a @ ref_pack b) ols)) \<le> length ls * (L + 144)"
    using "2.prems" o by (intro "2.IH" [OF o(1)]) auto
  ultimately show ?case using o(3) length_ref_sint [of k] by (simp del: ref_pack.simps)
qed simp

lemma length_ref_meta:
  assumes "\<forall>d \<in> snd ` set (m_links m). d_buffer d = None \<and> length (d_id d) \<le> L" "L < 10 ^ 20"
    and "pack_bytes (ref_env rnd) m = Inr s"
  shows "length s \<le> length (m_links m) * (L + 144) + 31"
proof -
  obtain obs where obs: "pack_links (m_links m) = Inr obs"
    and s: "s = ref_pack (MArray [MBool (m_is_link m), MMap obs, MInt (uint (m_storage_index m))])"
    using assms(3) by (auto simp: pack_bytes_def pack_Metadata_def and_then_Inr ref_env_def split: sum.splits)
  have "length (ref_pack (MInt (uint (m_storage_index m)))) \<le> 23" by (rule length_ref_uint) simp
  then show ?thesis using length_ref_links [OF assms(1,2) obs] s by (simp del: ref_pack.simps(2,3))
qed

lemma ref_packs_within:
  assumes "k \<le> N" "N < 10 ^ 18" "length i \<le> 4000" "N * (length i + 180) + length i + 200 \<le> n"
  shows "packs_within (ref_env rnd) (meta_key i) (seg_meta i p k sel len) n"
proof -
  have "length (seg_key i j) \<le> length i + 20" if "j < k" for j
    using length_nat_to_string_bound [of j 19] that assms(1,2) by (simp add: seg_key_def)
  then have "length s \<le> k * (length i + 164) + 31"
    if "pack_bytes (ref_env rnd) (seg_meta i p k sel len) = Inr s" for s
    using that length_ref_meta [of "seg_meta i p k sel len" "length i + 20" rnd s] assms(3)
    by (simp add: image_image add.commute)
  moreover have "k * (length i + 164) \<le> N * (length i + 180)" using assms(1) by (intro mult_mono) simp_all
  moreover have "length ls \<le> length i + 5 + 144 + 31"
    if "pack_bytes (ref_env rnd) (link_metadata ((meta_data (meta_key i) p s)\<lparr>d_buffer := None\<rparr>)) = Inr ls" for s ls
    using that length_ref_meta [of "link_metadata ((meta_data (meta_key i) p s)\<lparr>d_buffer := None\<rparr>)" "length i + 5" rnd ls] assms(3)
    by (auto simp: link_metadata_def meta_data_def meta_key_def links_insert_def)
  ultimately show ?thesis using assms(4) by (fastforce simp: packs_within_def split: sum.splits)
qed

lemma ref_blocks:
  assumes "length i \<le> 4000" "N \<le> 100" "N * (length i + 180) + length i + 200 \<le> n" "n \<le> 2 ^ 20"
    and "p \<in> {0, 1, 2}" "pol \<noteq> DYNAMIC_PROGRAMMING_POLICY"
  shows "blocks_hold (ref_env rnd) (ref_conf pol) i p n N (ref_world pol) []"
proof -
  have "length (seg_key i j) \<le> 4096" if "j < N" for j
    using length_nat_to_string_bound [of j 19] that assms(1,2) by (simp add: seg_key_def)
  then have "blocks_ready (ref_env rnd) (ref_world pol) i n N"
    using assms(1,4) ref_key_ready by (simp add: blocks_ready_def meta_key_def)
  moreover have "p \<in> fst ` set (sols_of (ref_world pol))" using assms(5) by (simp add: ref_world_sols)
  moreover have "packs_within (ref_env rnd) (meta_key i) (seg_meta i p k sel len) n" if "k \<le> N" for k sel len
    using assms by (intro ref_packs_within [OF that]) simp_all
  moreover have "unat (MAX_OBJ_SIZE (ref_conf pol)) = 2 * 1024 * 1024" "w_conf (ref_world pol) = ref_conf pol"
    by (simp_all add: ref_conf_def ConfigurationManager_def ref_world_def)
  ultimately show ?thesis using ref_system_ok [OF assms(6)] assms(2) by (simp add: blocks_hold_def)
qed


section \<open>Properties\<close>



end
