(* ===== verification/Stale_Links.thy ===== *)
theory Stale_Links
  imports Block_Object
begin

text \<open>
  Where the metadata of an object of several segments goes wrong. A new segment rewrites the
  primary record and leaves the links to it as they are, with the size of the old record
  (\<open>links_go_stale\<close>, on top of the steps of \<open>Block_Object\<close>); and the key of a segment, the name of
  the object followed by the segment number, can be the key of a segment of another object.
\<close>

section \<open>A new segment makes the links stale\<close>

text \<open>
  Two more facts about MessagePack: an incomplete object is refused, and a record with one
  more link is longer.
\<close>

definition wire_cut :: "('r, 'm) env \<Rightarrow> bool" where
  "wire_cut E \<longleftrightarrow> (\<forall>ob b. strict_prefix b (e_pack E ob) \<longrightarrow> (\<exists>err. e_unpack E b = Inl err))"

definition wire_grows :: "('r, 'm) env \<Rightarrow> bool" where
  "wire_grows E \<longleftrightarrow> (\<forall>a ps q b.
     length (e_pack E (MArray [a, MMap ps, b])) < length (e_pack E (MArray [a, MMap (ps @ [q]), b])))"

lemma pack_links_append: "pack_links (ls @ [(k, d)]) = Inr obs \<Longrightarrow>
  \<exists>os q. pack_links ls = Inr os \<and> obs = os @ [q]"
proof (induction ls arbitrary: obs)
  case (Cons l ls)
  obtain k' d' where l: "l = (k', d')" by (cases l)
  then obtain od ols where "pack_Data d' = Inr od" "pack_links (ls @ [(k, d)]) = Inr ols" "obs = (MInt (sint k'), od) # ols"
    using Cons.prems by (auto split: sum.splits)
  then show ?case using Cons.IH [of ols] l by auto
qed (auto split: sum.splits)

lemma seg_meta_grows:
  assumes "wire_grows E" "pack_bytes E (seg_meta i p k sel len) = Inr s"
    and "pack_bytes E (seg_meta i p (Suc k) (sel(k := s')) (len(k := l))) = Inr s1"
  shows "length s < length s1"
proof -
  let ?m = "seg_meta i p (Suc k) (sel(k := s')) (len(k := l))"
  have links: "m_links ?m = m_links (seg_meta i p k sel len) @ [(of_nat k, seg_link i s' l k)]"
    by simp
  obtain obs where obs: "pack_links (m_links ?m) = Inr obs"
    "s1 = e_pack E (MArray [MBool False, MMap obs, MInt (uint p)])"
    using assms(3) by (auto simp: pack_bytes_def pack_Metadata_def and_then_Inr simp del: seg_meta_fields(3) split: sum.splits)
  obtain os q where "pack_links (m_links (seg_meta i p k sel len)) = Inr os" "obs = os @ [q]"
    using pack_links_append [of "m_links (seg_meta i p k sel len)"] obs(1) unfolding links by blast
  moreover from this have "s = e_pack E (MArray [MBool False, MMap os, MInt (uint p)])"
    using assms(2) by (simp add: pack_bytes_def pack_Metadata_def and_then_Inr del: seg_meta_fields(3))
  ultimately show ?thesis using obs(2) assms(1) unfolding wire_grows_def by blast
qed

text \<open>Loading fewer bytes than the record has.\<close>

lemma load_metadata_cut:
  assumes "wire_cut E" "pack_bytes E meta = Inr s"
    and "GetIOClient w ix = Inr t" "client_obj E t w (d_id src) = Some (s @ extra)"
    and "client_up E t w (d_id src)" "client_fits t w (length (s @ extra))"
    and "d_position src = 0" "d_data_size src = of_nat k" "0 < k" "k < length s"
  shows "\<exists>err. load_metadata E w ix src = Inl (Std_Exn err)"
proof -
  have bound: "length (s @ extra) < 2 ^ 63" using client_store.fits_bound assms(6) by blast
  obtain ob where "s = e_pack E ob" using assms(2) by (auto simp: pack_bytes_def and_then_Inr)
  moreover have "strict_prefix (take k s) s"
    using assms(10) take_is_prefix [of k s] by (auto simp: strict_prefix_def dest: arg_cong [of _ _ length])
  ultimately obtain err where err: "e_unpack E (take k s) = Inl err"
    using assms(1) unfolding wire_cut_def by blast
  have "client_Read E t w src src = Inr (src\<lparr>d_buffer := Some (take k s), d_data_size := of_nat k\<rparr>)"
    using client_store.rd_prefix [OF assms(5,4,6,8,9) _ assms(7,7)] assms(10) by simp
  then show ?thesis
    using assms(3,10) bound err by (simp add: load_metadata_def Io_Read_def mem_read_Some size_fits)
qed

lemma stale_link:
  assumes wire: "wire_ok E" "wire_cut E" and pack: "pack_bytes E meta = Inr s"
    and prim: "holds_bytes E w p (meta_key i) s" and link: "holds_bytes E w q (meta_key i) ls"
    and ls: "pack_bytes E (link_metadata ((meta_data (meta_key i) p s0)\<lparr>d_buffer := None\<rparr>)) = Inr ls"
    and cut: "0 < length s0" "length s0 < length s" and ready: "key_ready E w (meta_key i) n"
    and r: "d_id r = i" "d_storage_index r = q"
  shows "\<exists>err. read_primary E w r = Inl (Std_Exn err)"
proof -
  let ?k = "meta_key i" and ?link = "(meta_data (meta_key i) p s0)\<lparr>d_buffer := None\<rparr>"
  have held: "\<exists>t extra. GetIOClient w ix = Inr t \<and> client_obj E t w ?k = Some (b @ extra) \<and>
      client_up E t w ?k \<and> client_fits t w (length (b @ extra))" if "holds_bytes E w ix ?k b" for ix b
    using that ready unfolding holds_bytes_def key_ready_def by fastforce
  obtain t x where t: "GetIOClient w q = Inr t" "client_obj E t w ?k = Some (ls @ x)"
    "client_up E t w ?k" "client_fits t w (length (ls @ x))" using held [OF link] by blast
  have first: "load_metadata E w q (default_Data\<lparr>d_id := ?k, d_storage_index := q\<rparr>) = Inr (link_metadata ?link)"
    using load_metadata_held [OF wire(1) wf_link_metadata ls t(1), of _ x] t(2-4) by simp
  obtain u y where u: "GetIOClient w p = Inr u" "client_obj E u w ?k = Some (s @ y)"
    "client_up E u w ?k" "client_fits u w (length (s @ y))" using held [OF prim] by blast
  have "\<exists>err. load_metadata E w p ?link = Inl (Std_Exn err)"
    using load_metadata_cut [OF wire(2) pack u(1), of ?link y "length s0"] u(2-4) cut by (simp add: meta_data_def)
  then show ?thesis
    using first r by (auto simp: read_primary_def meta_id_key link_metadata_def links_insert_def links_at_def meta_data_def)
qed

text \<open>The first block publishes the record; a further one rewrites it in the primary storage only.\<close>

lemma first_block:
  assumes hold: "blocks_hold E c i p n N w []" and ok: "block_ok n N [] (Put_block 0 b)"
  shows "\<exists>w' sel len. serve_block E i p w (Put_block 0 b) = (Stored, w') \<and> blocks_hold E c i p n N w' [b] \<and>
    blocks_held E w' i p sel len [b] \<and> published E w' (meta_key i) (seg_meta i p 1 sel len)"
proof -
  define dst where "dst = block_target i p (MAX_OBJ_SIZE c) 0 (length b)"
  obtain s' w0 where dist: "Distribute E w (put_source i b) dst = (Inr [place (put_source i b) dst s'], w0)"
    and s': "s' \<in> fst ` set (sols_of w0)" and hold0: "blocks_hold E c i p n N w0 []"
    using place_block [OF hold dst_def] hold by metis
  obtain w1 where store: "Orchestrator_Store E w0 dst [place (put_source i b) dst s'] =
      (Inr [(place (put_source i b) dst s')\<lparr>dd_destination_data := seg_link i s' (of_nat (length b)) 0\<rparr>], w1)"
    and w1: "entered E i p n N w0 [] 0 1 (\<lambda>_. s') (\<lambda>_. of_nat (length b)) w1"
    and pub: "published E w1 (meta_key i) (seg_meta i p 1 (\<lambda>_. s') (\<lambda>_. of_nat (length b)))"
    using store_first [OF hold0 ok s' dst_def refl] by blast
  obtain w2 where w2: "Io_Write E w1 s' (put_source i b) (seg_link i s' (of_nat (length b)) 0) = (Inr (put_source i b), w2)"
    "serves_like E w2 w0" "blocks_hold E c i p n N w2 [b]"
    "blocks_held E w2 i p (\<lambda>_. s') (\<lambda>_. of_nat (length b)) [b]"
    and keys: "\<And>t. client_obj E t w2 (meta_key i) = client_obj E t w1 (meta_key i)"
    using write_block [OF hold0 ok, of "[b]" "\<lambda>_. s'"] w1 by fastforce
  have "serves_like E w2 w1" using w1 w2(2) by (simp add: entered_def serves_like_def)
  then have "published E w2 (meta_key i) (seg_meta i p 1 (\<lambda>_. s') (\<lambda>_. of_nat (length b)))"
    using pub published_frame keys by metis
  then show ?thesis
    using serve_Put_block [OF dist store w2(1), of p] dst_def blocks_holdD(2) [OF hold] w2(3,4) by blast
qed

lemma further_block:
  assumes hold: "blocks_hold E c i p n N w vs" and ok: "block_ok n N vs (Put_block (length vs) b)"
    and vs: "vs \<noteq> []" and held: "blocks_held E w i p sel len vs"
  shows "\<exists>w' s l. serve_block E i p w (Put_block (length vs) b) = (Stored, w') \<and> serves_like E w' w \<and>
    blocks_hold E c i p n N w' (vs @ [b]) \<and>
    blocks_held E w' i p (sel(length vs := s)) (len(length vs := l)) (vs @ [b]) \<and>
    (\<forall>t. GetIOClient w p \<noteq> Inr t \<longrightarrow> client_obj E t w' (meta_key i) = client_obj E t w (meta_key i))"
proof -
  let ?k = "length vs" and ?l = "of_nat (length b) :: size_t"
  define dst where "dst = block_target i p (MAX_OBJ_SIZE c) ?k (length b)"
  obtain s' w0 where dist: "Distribute E w (put_source i b) dst = (Inr [place (put_source i b) dst s'], w0)"
    and s': "s' \<in> fst ` set (sols_of w0)" and hold0: "blocks_hold E c i p n N w0 vs"
    and held0: "blocks_held E w0 i p sel len vs" and w0: "serves_like E w0 w" "\<And>t. client_obj E t w0 = client_obj E t w"
    using place_block [OF hold dst_def] hold held by metis
  obtain w1 where store: "Orchestrator_Store E w0 dst [place (put_source i b) dst s'] =
      (Inr [(place (put_source i b) dst s')\<lparr>dd_destination_data := seg_link i s' ?l ?k\<rparr>], w1)"
    and w1: "entered E i p n N w0 vs ?k (Suc ?k) (sel(?k := s')) (len(?k := ?l)) w1"
    and other: "\<forall>t. GetIOClient w0 p \<noteq> Inr t \<longrightarrow> client_obj E t w1 = client_obj E t w0"
    using store_new [OF hold0 ok vs held0 s' dst_def refl] by blast
  obtain w2 where w2: "Io_Write E w1 s' (put_source i b) (seg_link i s' ?l ?k) = (Inr (put_source i b), w2)"
    "serves_like E w2 w0" "blocks_hold E c i p n N w2 (vs @ [b])"
    "blocks_held E w2 i p (sel(?k := s')) (len(?k := ?l)) (vs @ [b])"
    and keys: "\<And>t. client_obj E t w2 (meta_key i) = client_obj E t w1 (meta_key i)"
    using write_block [OF hold0 ok, of "vs @ [b]" "sel(?k := s')"] w1 by fastforce
  have "\<forall>t. GetIOClient w p \<noteq> Inr t \<longrightarrow> client_obj E t w2 (meta_key i) = client_obj E t w (meta_key i)"
    using keys other w0 serves_like_GetIOClient [OF w0(1)] by simp
  then show ?thesis
    using serve_Put_block [OF dist store w2(1), of p] dst_def blocks_holdD(2) [OF hold] w2(2-4)
      serves_like_trans [OF w2(2) w0(1)] by blast
qed

lemma links_go_stale:
  assumes hold: "blocks_hold E c i p n N w [b0]" and ok: "block_ok n N [b0] (Put_block 1 b1)"
    and held: "blocks_held E w i p sel len [b0]" and pub: "published E w (meta_key i) (seg_meta i p 1 sel len)"
    and wire: "wire_cut E" "wire_grows E" and q: "q \<in> fst ` set (sols_of w)" "q \<noteq> p"
  shows "\<exists>w'. serve_block E i p w (Put_block 1 b1) = (Stored, w') \<and> blocks_hold E c i p n N w' [b0, b1] \<and>
    (\<forall>r. d_id r = i \<longrightarrow> d_storage_index r = q \<longrightarrow> (\<exists>err. Locate E w' r = Inl (Std_Exn err)))"
proof -
  note b = blocks_holdD [OF hold]
  obtain w' s l where w': "serve_block E i p w (Put_block 1 b1) = (Stored, w')" "serves_like E w' w"
    "blocks_hold E c i p n N w' [b0, b1]"
    "blocks_held E w' i p (sel(1 := s)) (len(1 := l)) [b0, b1]"
    and same: "\<And>t. GetIOClient w p \<noteq> Inr t \<Longrightarrow> client_obj E t w' (meta_key i) = client_obj E t w (meta_key i)"
    using further_block [OF hold _ _ held, of b1] ok by auto
  obtain s0 ls where s0: "pack_bytes E (seg_meta i p 1 sel len) = Inr s0"
    and ls: "pack_bytes E (link_metadata ((meta_data (meta_key i) p s0)\<lparr>d_buffer := None\<rparr>)) = Inr ls"
    and links: "holds_bytes E w q (meta_key i) ls"
    using pub q by (auto simp: published_def simp del: seg_meta_fields(3))
  obtain s1 where s1: "pack_bytes E (seg_meta i p 2 (sel(1 := s)) (len(1 := l))) = Inr s1"
    "holds_bytes E w' p (meta_key i) s1"
    using w'(4) by (auto simp: blocks_held_def numeral_2_eq_2)
  have sys: "wire_ok E" "separate (sols_of w)" using b(1) by (simp_all add: system_ok_def)
  have "s0 \<noteq> []" using s0 sys(1) by (auto simp: pack_bytes_def and_then_Inr wire_ok_def)
  moreover have "length s0 < length s1"
    using seg_meta_grows [OF wire(2), of i p 1 sel len s0 s l s1] s0 s1(1) by (simp add: numeral_2_eq_2)
  moreover have "holds_bytes E w' q (meta_key i) ls"
    using links same serves_like_GetIOClient [OF w'(2)] separate_clients [OF b(11) sys(2) q(1) b(3) q(2)]
    by (auto simp: holds_bytes_def)
  ultimately have "\<exists>err. read_primary E w' r = Inl (Std_Exn err)" if "d_id r = i" "d_storage_index r = q" for r
    using stale_link [OF sys(1) wire(1) s1 _ ls _ _ blocks_readyD(1) [OF blocks_holdD(4) [OF w'(3)]] that] by simp
  then show ?thesis using w'(1,3) by (fastforce simp: Locate_def)
qed


lemma store_unreadable:
  assumes "system_ok E w" "Locate E w (target i q (length b)) = Inl (Std_Exn err)"
  shows "fst (serve E i w (Put q b)) = Failed"
proof -
  have sys: "wf_solutions (sols_of w)" "sols_of w \<noteq> []" "DATA_DISTRIBUTION_POLICY (w_conf w) \<noteq> DYNAMIC_PROGRAMMING_POLICY"
    using assms(1) by (simp_all add: system_ok_def)
  obtain s' cr cs where "Distribute E w (put_source i b) (target i q (length b)) =
      (Inr [place (put_source i b) (target i q (length b)) s'], w\<lparr>w_rand_calls := cr, w_seq_calls := cs\<rparr>)"
    by (rule Distribute_places [OF sys, of E "put_source i b" "target i q (length b)"])
  then show ?thesis using assms(2) by (simp add: Server_Store_def Orchestrator_Store_def)
qed

lemma ref_wire_cut: "wire_cut (ref_env rnd)"
  by (simp add: wire_cut_def ref_env_def ref_unpack_def ref_parse_cut)

lemma ref_wire_grows: "wire_grows (ref_env rnd)"
  by (simp add: wire_grows_def ref_env_def ref_pack_nonempty)

section \<open>Properties\<close>

text \<open>
  C8. Links to a grown object are stale. Writing the second segment of an object through the
  storage \<open>p\<close> of its primary record rewrites that record only. The links in the other storages
  keep the size the record had, so every request through such a storage reads a part of
  the record, which MessagePack refuses: reads, sizes, deletions and writes all end in the
  exception of the unpacker, which no handler catches. Through \<open>p\<close> the object is intact.
\<close>

theorem second_segment_breaks_links:
  assumes "blocks_hold E c i p n N w []" and "run_ok block_step (block_ok n N) [] [Put_block 0 b0, Put_block 1 b1]"
    and "wire_cut E" "wire_grows E" and "q \<in> fst ` set (STORAGE_SOLUTIONS c)" "q \<noteq> p"
  shows "\<exists>w'. service_run (serve_block E i p) w [Put_block 0 b0, Put_block 1 b1] = ([Stored, Stored], w') \<and>
    serve_block E i p w' Get_blocks = (Content (b0 @ b1), w') \<and>
    serve E i w' (Get q) = (Failed, w') \<and> serve E i w' (Len q) = (Failed, w') \<and>
    serve E i w' (Del q) = (Failed, w') \<and> fst (serve E i w' (Put q b)) = Failed"
proof -
  obtain w1 sel len where w1: "serve_block E i p w (Put_block 0 b0) = (Stored, w1)" "blocks_hold E c i p n N w1 [b0]"
    "blocks_held E w1 i p sel len [b0]" "published E w1 (meta_key i) (seg_meta i p 1 sel len)"
    using first_block [OF assms(1), of b0] assms(2) by auto
  have q: "q \<in> fst ` set (sols_of w1)" using blocks_holdD(2) [OF w1(2)] assms(5) by (simp add: sols_of_def)
  obtain w2 where w2: "serve_block E i p w1 (Put_block 1 b1) = (Stored, w2)" "blocks_hold E c i p n N w2 [b0, b1]"
    and bad: "\<And>r. d_id r = i \<Longrightarrow> d_storage_index r = q \<Longrightarrow> \<exists>err. Locate E w2 r = Inl (Std_Exn err)"
    using links_go_stale [OF w1(2) _ w1(3,4) assms(3,4) q assms(6), of b1] assms(2) by auto
  obtain err where err: "Locate E w2 (target i q 0) = Inl (Std_Exn err)" using bad [of "target i q 0"] by auto
  have "fst (serve E i w2 (Put q b)) = Failed"
    using bad [of "target i q (length b)"] store_unreadable [OF blocks_holdD(1) [OF w2(2)]] by auto
  moreover have "serve_block E i p w2 Get_blocks = (Content (b0 @ b1), w2)" using blocks_Get [OF w2(2)] by simp
  ultimately show ?thesis
    using w1(1) w2(1) err by (simp add: Server_Locate_def Server_Size_def Server_Delete_def)
qed


theorem second_segment_breaks_links_witness:
  "\<exists>w'. service_run (serve_block (ref_env (\<lambda>k. 0)) ''obj'' 0) (ref_world RANDOM_POLICY)
      [Put_block 0 ''ab'', Put_block 1 ''cd''] = ([Stored, Stored], w') \<and>
    serve_block (ref_env (\<lambda>k. 0)) ''obj'' 0 w' Get_blocks = (Content ''abcd'', w') \<and>
    serve (ref_env (\<lambda>k. 0)) ''obj'' w' (Get 1) = (Failed, w') \<and> serve (ref_env (\<lambda>k. 0)) ''obj'' w' (Len 1) = (Failed, w') \<and>
    serve (ref_env (\<lambda>k. 0)) ''obj'' w' (Del 1) = (Failed, w') \<and>
    fst (serve (ref_env (\<lambda>k. 0)) ''obj'' w' (Put 1 ''x'')) = Failed"
proof -
  have "blocks_hold (ref_env (\<lambda>k. 0)) (ref_conf RANDOM_POLICY) ''obj'' 0 1000 4 (ref_world RANDOM_POLICY) []"
    by (rule ref_blocks) simp_all
  from second_segment_breaks_links [OF this _ ref_wire_cut ref_wire_grows, of "''ab''" "''cd''" 1 "''x''"]
  show ?thesis by (simp add: ref_conf_def ConfigurationManager_def)
qed

text \<open>
  Keys of segments are not unique. The orchestrator names segment \<open>10 * a + d\<close> of the object
  \<open>i\<close> and segment \<open>d\<close> of the object whose name is \<open>i\<close> followed by the digits of \<open>a\<close> by the same
  key, whether the objects are new or not, so that the two objects share that data.
\<close>

theorem segment_keys_collide:
  assumes "0 < a" "d < 10" "M \<noteq> 0" "unat (x div M) = 10 * a + d" "unat (y div M) = d"
    and "map_of (m_links m) (x div M) = None"
  shows "\<exists>d1 d2 m1 m2. store_existing M [place src (default_Data\<lparr>d_id := i, d_position := x\<rparr>) s] m = ([d1], m1, True) \<and>
    store_fresh M [place src' (default_Data\<lparr>d_id := i @ nat_to_string a, d_position := y\<rparr>) s] m' = ([d2], m2) \<and>
    d_id (dd_destination_data d1) = d_id (dd_destination_data d2) \<and>
    d_storage_index (dd_destination_data d1) = d_storage_index (dd_destination_data d2)"
proof -
  have "nat_to_string (10 * a + d) = nat_to_string a @ nat_to_string d"
    using assms(1,2) by (simp add: nat_to_string.simps [of "10 * a + d"] nat_to_string.simps [of d])
  then show ?thesis using assms(4-6) by (simp add: place_def Let_def)
qed

theorem segment_keys_collide_witness:
  "\<exists>d1 d2 m1 m2. store_existing 4 [place default_Data (default_Data\<lparr>d_id := ''f'', d_position := 40\<rparr>) 0] default_Metadata =
      ([d1], m1, True) \<and>
    store_fresh 4 [place default_Data (default_Data\<lparr>d_id := ''f1'', d_position := 0\<rparr>) 0] default_Metadata = ([d2], m2) \<and>
    d_id (dd_destination_data d1) = d_id (dd_destination_data d2) \<and>
    d_storage_index (dd_destination_data d1) = d_storage_index (dd_destination_data d2)"
proof -
  have name: "''f'' @ nat_to_string 1 = ''f1''" by (simp add: decimal_eval)
  show ?thesis
    by (rule segment_keys_collide [where i = "''f''" and a = 1 and d = 0, unfolded name]) (simp_all add: default_Metadata_def)
qed

end
