(* ===== verification/Races.thy ===== *)
theory Races
  imports Concurrency Stale_Links
begin

text \<open>
  Handlers of the same object do disturb each other: nothing makes the two halves of a creation,
  the primary record and the links, one step. When a second client creates the object through
  another storage between the two, each record is overwritten by a link to the other, and no
  request finds the object again, although both clients were told that their data is stored.
\<close>

section \<open>Running alone\<close>

text \<open>A task that makes steps while the others wait.\<close>

inductive leads :: "('r, 'm) env \<Rightarrow> 'a task \<Rightarrow> ('r, 'm) world \<Rightarrow> 'a task \<Rightarrow> ('r, 'm) world \<Rightarrow> bool" for E where
  leads_refl: "leads E t w t w"
| leads_step: "leads E (fst (task_step E t w)) (snd (task_step E t w)) t' w' \<Longrightarrow> leads E t w t' w'"

lemma leads_pool:
  "leads E t w t' w' \<Longrightarrow> j < length ts \<Longrightarrow> ts ! j = t \<Longrightarrow>
   \<exists>k. pool_run E (replicate k j) ts w = (ts[j := t'], w')"
proof (induction arbitrary: ts rule: leads.induct)
  case (leads_refl t w)
  then show ?case by (intro exI [of _ 0]) auto
next
  case (leads_step t w t' w')
  obtain t1 w1 where step: "task_step E t w = (t1, w1)" by fastforce
  obtain k where "pool_run E (replicate k j) (ts[j := t1]) w1 = (ts[j := t'], w')"
    using leads_step.IH [of "ts[j := t1]"] leads_step.prems step by auto
  then show ?case using leads_step.prems step by (intro exI [of _ "Suc k"]) simp
qed

lemma leads_bind: "leads E t w t' w' \<Longrightarrow> leads E (task_bind t g) w (task_bind t' g) w'"
proof (induction rule: leads.induct)
  case (leads_refl t w)
  show ?case by (rule leads.leads_refl)
next
  case (leads_step t w t' w')
  show ?case
  proof (cases "is_done t")
    case True
    then show ?thesis using leads_step.IH by (auto simp: is_done_iff)
  next
    case False
    then show ?thesis using leads_step.IH by - (rule leads.leads_step, simp add: task_step_bind)
  qed
qed

lemma leads_run: "leads E t w (Done (fst (run_task E t w))) (snd (run_task E t w))"
proof (induction t arbitrary: w rule: task_step_induct [where E = E])
  case (1 t)
  show ?case
  proof (cases "is_done t")
    case True
    then show ?thesis by (auto simp: is_done_iff intro: leads_refl)
  next
    case False
    from 1 [OF False, of w "snd (task_step E t w)"] show ?thesis
      by - (rule leads_step, simp add: run_task_step)
  qed
qed

lemma leads_trans: "leads E t w t1 w1 \<Longrightarrow> leads E t1 w1 t2 w2 \<Longrightarrow> leads E t w t2 w2"
  by (induction rule: leads.induct) (auto intro: leads_step)

lemma leads_write:
  assumes "Io_Write E w ix src dst = (r, w1)" "leads E (f r) w1 t' w'"
  shows "leads E (write_task ix src dst f) w t' w'"
proof -
  have "leads E (task_bind (write_task ix src dst Done) f) w (f r) w1"
    using leads_bind [OF leads_run [of E "write_task ix src dst Done" w], of f] assms(1)
    by (simp del: bind_write_task)
  then show ?thesis using assms(2) leads_trans by fastforce
qed

text \<open>The first of two tasks is interrupted by the second, which runs to its end.\<close>

lemma preempted:
  assumes "leads E ta w ta' w1" "leads E tb w1 (Done b) w2" "leads E ta' w2 (Done a) w3"
  shows "\<exists>sched. pool_run E sched [ta, tb] w = ([Done a, Done b], w3)"
proof -
  obtain k1 where k1: "pool_run E (replicate k1 0) [ta, tb] w = ([ta', tb], w1)"
    using leads_pool [OF assms(1), of 0 "[ta, tb]"] by auto
  obtain k2 where k2: "pool_run E (replicate k2 1) [ta', tb] w1 = ([ta', Done b], w2)"
    using leads_pool [OF assms(2), of 1 "[ta', tb]"] by auto
  obtain k3 where k3: "pool_run E (replicate k3 0) [ta', Done b] w2 = ([Done a, Done b], w3)"
    using leads_pool [OF assms(3), of 0 "[ta', Done b]"] by auto
  have "pool_run E (replicate k1 0 @ replicate k2 1 @ replicate k3 0) [ta, tb] w = ([Done a, Done b], w3)"
    using k1 k2 k3 by (simp add: pool_run_append)
  then show ?thesis by blast
qed

section \<open>Objects only grow while nothing is removed\<close>

definition grown :: "('r, 'm) env \<Rightarrow> ('r, 'm) world \<Rightarrow> ('r, 'm) world \<Rightarrow> bool" where
  "grown E w' w \<longleftrightarrow>
     (\<forall>t k. length (old_bytes (client_obj E t w k)) \<le> length (old_bytes (client_obj E t w' k)))"

lemma grown_refl [simp]: "grown E w w"
  by (simp add: grown_def)

lemma grown_trans: "grown E w2 w1 \<Longrightarrow> grown E w1 w \<Longrightarrow> grown E w2 w"
  unfolding grown_def using le_trans by blast

lemma grown_counters: "grown E (w\<lparr>w_rand_calls := c, w_seq_calls := d\<rparr>) w"
  by (simp add: grown_def)

lemma grown_holds:
  assumes "grown E w' w" "serves_like E w' w" "holds_bytes E w ix k s" "GetIOClient w' ix = Inr t"
  shows "length s \<le> length (old_bytes (client_obj E t w' k))"
proof -
  obtain x where "client_obj E t w k = Some (s @ x)"
    using assms(3,4) serves_like_GetIOClient [OF assms(2)] by (auto simp: holds_bytes_def)
  then have "length s \<le> length (old_bytes (client_obj E t w k))" by simp
  then show ?thesis using assms(1) le_trans unfolding grown_def by blast
qed

lemma Io_Write_grows:
  assumes "writable E w ix src dst"
  shows "\<exists>w'. Io_Write E w ix src dst = (Inr src, w') \<and> grown E w' w"
proof -
  obtain t b where t: "GetIOClient w ix = Inr t" "client_up E t w (d_id dst)" "whole src b" "d_position dst = 0"
    "client_fits t w (length b)" "client_fits t w (length (old_bytes (client_obj E t w (d_id dst))))"
    using assms by (auto simp: writable_def)
  obtain v where v: "Io_Write E w ix src dst = (Inr src, v)"
    "client_obj E t v = (client_obj E t w)(d_id dst \<mapsto> overlay 0 b (old_bytes (client_obj E t w (d_id dst))))"
    "\<And>u. u \<noteq> t \<Longrightarrow> client_obj E u v = client_obj E u w"
    by (rule Io_Write_whole [OF t]) blast
  have "length (old_bytes (client_obj E u w k)) \<le> length (old_bytes (client_obj E u v k))" for u k
    using v(2,3) by (cases "u = t") (simp_all add: length_overlay)
  then show ?thesis using v(1) by (auto simp: grown_def)
qed

lemma write_links_grows:
  assumes "key_ready E w k n" "length ls \<le> n" "\<And>ix. ix \<in> fst ` set sols \<Longrightarrow> \<exists>t. GetIOClient w ix = Inr t"
  shows "grown E (snd (write_links E w p (meta_data k jx ls) sols)) w"
  using assms
proof (induction sols arbitrary: w jx)
  case Nil
  then show ?case by simp
next
  case (Cons e sols)
  obtain ix s where e: "e = (ix, s)" by (cases e)
  let ?m = "meta_data k ix ls"
  obtain t where t: "GetIOClient w ix = Inr t" using Cons.prems(3) e by auto
  obtain w1 where w1: "Io_Write E w ix ?m ?m = (Inr ?m, w1)" "serves_like E w1 w" "key_ready E w1 k n"
    by (rule Io_Write_meta [OF t Cons.prems(1,2)]) blast
  have "grown E w1 w"
    using Io_Write_grows [OF writable_ready [OF t _ meta_data_whole [of k ix ls]], of E ?m n] Cons.prems(1,2) w1(1)
    by auto
  moreover have "grown E (snd (write_links E w1 p ?m sols)) w1"
    using Cons.IH [OF w1(3)] Cons.prems(2,3) serves_like_GetIOClient [OF w1(2)] by simp
  moreover have "grown E (snd (write_links E w p (meta_data k jx ls) sols)) w"
    using Cons.IH [OF Cons.prems(1)] Cons.prems(2,3) by simp
  ultimately show ?case using e w1(1) grown_trans by (auto simp: Let_def)
qed

lemma Orchestrator_Store_grows:
  assumes sys: "system_ok E w" and loc: "Locate E w req = Inl (Thrown e)"
    and req: "d_storage_index req \<in> fst ` set (sols_of w)" "key_ready E w (meta_id req) n"
    and fresh: "store_fresh (MAX_OBJ_SIZE (w_conf w)) ds (fresh_primary req) = (ds', primary)"
    and packs: "packs_within E (meta_id req) primary n"
  shows "grown E (snd (Orchestrator_Store E w req ds)) w"
proof -
  let ?k = "meta_id req" and ?p = "d_storage_index req"
  have prim: "wf_Metadata primary" "m_storage_index primary = ?p"
    using store_fresh_wf [OF _ fresh] by (simp_all add: fresh_primary_def wf_Metadata_def)
  have conf: "\<exists>t. GetIOClient w ix = Inr t" if "ix \<in> fst ` set (sols_of w)" for ix
    using GetIOClient_configured [OF _ that] sys by (simp add: system_ok_def)
  then obtain t where t: "GetIOClient w ?p = Inr t" using req(1) by blast
  obtain s where s: "pack_bytes E primary = Inr s" using wf_packs prim(1) by blast
  let ?m = "meta_data ?k ?p s"
  obtain ls where ls: "pack_bytes E (link_metadata (?m\<lparr>d_buffer := None\<rparr>)) = Inr ls"
    using wf_packs wf_link_metadata [of "?m\<lparr>d_buffer := None\<rparr>"] by auto
  have small: "length s \<le> n" "length ls \<le> n" using packs s ls prim(2) by (simp_all add: packs_within_def)
  obtain w1 where w1: "Io_Write E w ?p ?m ?m = (Inr ?m, w1)" "serves_like E w1 w" "key_ready E w1 ?k n"
    by (rule Io_Write_meta [OF t req(2) small(1)]) blast
  have "grown E w1 w"
    using Io_Write_grows [OF writable_ready [OF t _ meta_data_whole [of ?k ?p s]], of E ?m n] req(2) small(1) w1(1)
    by auto
  moreover have "grown E (snd (write_links E w1 ?p (meta_data ?k 0 ls) (sols_of w))) w1"
    using write_links_grows [OF w1(3) small(2)] conf serves_like_GetIOClient [OF w1(2)] by simp
  moreover have "snd (Orchestrator_Store E w req ds) = snd (write_links E w1 ?p (meta_data ?k 0 ls) (sols_of w))"
    using loc fresh s ls w1(1) prim(2) serves_like_sols [OF w1(2)] sys
    by (auto simp: Orchestrator_Store_def fresh_primary_def system_ok_def write_primary_def Let_def sols_of_def
        split: sum.splits prod.splits)
  ultimately show ?thesis using grown_trans by metis
qed

lemma Server_Store_grows:
  assumes sys: "system_ok E w" and src: "whole src b" "length b \<le> n"
    and dst: "d_position dst = 0" "d_storage_index dst \<in> fst ` set (sols_of w)" "Locate E w dst = Inl (Thrown e)"
    and ready: "key_ready E w (meta_key (d_id dst)) n" "key_ready E w (data_key (d_id dst)) n"
    and packs: "\<And>sel. sel \<in> fst ` set (sols_of w) \<Longrightarrow> packs_within E (meta_key (d_id dst)) (fresh_meta dst sel) n"
  shows "grown E (snd (Server_Store E w src dst)) w"
proof -
  let ?i = "d_id dst"
  have sys': "wf_solutions (sols_of w)" "sols_of w \<noteq> []"
    "DATA_DISTRIBUTION_POLICY (w_conf w) \<noteq> DYNAMIC_PROGRAMMING_POLICY"
    using sys by (simp_all add: system_ok_def)
  obtain sel x z where dist: "Distribute E w src dst =
      (Inr [place src dst sel], w\<lparr>w_rand_calls := x, w_seq_calls := z\<rparr>)" and sel: "sel \<in> fst ` set (sols_of w)"
    by (rule Distribute_places [OF sys', of E src dst])
  define w0 where "w0 = w\<lparr>w_rand_calls := x, w_seq_calls := z\<rparr>"
  have like0: "serves_like E w0 w" and obj0: "\<And>t. client_obj E t w0 = client_obj E t w"
    and loc0: "Locate E w0 dst = Inl (Thrown e)"
    using dst(3) by (simp_all add: w0_def counters_serve)
  have sols0: "sols_of w0 = sols_of w" using like0 by (rule serves_like_sols)
  have sys0: "system_ok E w0" using like0 sys by (rule system_ok_like)
  have ready0: "key_ready E w0 (meta_id dst) n" "key_ready E w0 (data_key ?i) n"
    using key_ready_frame [OF like0] obj0 ready by (simp_all add: meta_id_key)
  note fresh = store_fresh_one [OF dst(1), of "MAX_OBJ_SIZE (w_conf w0)" src sel]
  let ?dst' = "dst\<lparr>d_storage_index := sel, d_position := 0, d_id := data_key ?i\<rparr>"
  have grown1: "grown E (snd (Orchestrator_Store E w0 dst [place src dst sel])) w0"
    using Orchestrator_Store_grows [OF sys0 loc0 _ ready0(1) fresh] dst(2) sols0 packs [OF sel]
    by (simp add: meta_id_key)
  obtain w2 where w2: "Orchestrator_Store E w0 dst [place src dst sel] =
      (Inr [(place src dst sel)\<lparr>dd_destination_data := ?dst'\<rparr>], w2)" "serves_like E w2 w0"
    "\<forall>t k'. k' \<noteq> meta_key ?i \<longrightarrow> client_obj E t w2 k' = client_obj E t w0 k'"
    using Orchestrator_Store_fresh [of E w0 dst e "[place src dst sel]" _ "fresh_meta dst sel" n] sys0 loc0 dst(2)
      ready0(1) sols0 packs [OF sel] fresh by (auto simp: system_ok_def meta_id_key)
  have "\<exists>t. GetIOClient w2 sel = Inr t"
    using GetIOClient_configured [OF sys'(1) sel] serves_like_GetIOClient [OF serves_like_trans [OF w2(2) like0]] by simp
  then obtain t where t: "GetIOClient w2 sel = Inr t" by blast
  have "key_ready E w2 (d_id ?dst') n" using key_ready_frame [OF w2(2)] w2(3) ready0(2) by simp
  from Io_Write_grows [OF writable_ready [OF t this src]]
  obtain w3 where w3: "Io_Write E w2 sel src ?dst' = (Inr src, w3)" "grown E w3 w2" by auto
  have "snd (Server_Store E w src dst) = w3"
    using dist w2(1) w3(1) by (simp add: Server_Store_def w0_def [symmetric] place_def)
  then show ?thesis
    using grown_trans [OF grown_trans [OF w3(2) grown1 [unfolded w2(1) snd_conv]], where w = w] grown_counters
    by (auto simp: w0_def)
qed

section \<open>A link to a link\<close>

text \<open>Loading a record with a size between its own and that of its object.\<close>

lemma load_metadata_prefix:
  assumes "wire_ok E" "wf_Metadata meta" "pack_bytes E meta = Inr s"
    and "GetIOClient w ix = Inr t" "client_obj E t w (d_id src) = Some (s @ extra)"
    and "client_up E t w (d_id src)" "client_fits t w (length (s @ extra))"
    and "d_position src = 0" "d_data_size src = of_nat m" "length s \<le> m" "m \<le> length (s @ extra)"
  shows "load_metadata E w ix src = Inr meta"
proof -
  obtain ob where ob: "pack_Metadata meta = Inr ob" "s = e_pack E ob"
    using assms(3) by (auto simp: pack_bytes_def and_then_Inr)
  have conv: "convert_Metadata ob = Inr meta" using assms(2) ob(1) by (rule convert_pack_Metadata)
  have s: "s \<noteq> []" and unp: "e_unpack E (s @ x) = Inr ob" for x
    using assms(1) ob(2) by (auto simp: wire_ok_def)
  have bound: "length (s @ extra) < 2 ^ 63" using client_store.fits_bound assms(7) by blast
  have "0 < m" using s assms(10) by (cases m) auto
  then have "client_Read E t w src src = Inr (src\<lparr>d_buffer := Some (take m (s @ extra)), d_data_size := of_nat m\<rparr>)"
    using client_store.rd_prefix [OF assms(6,5,7,9) _ assms(11,8,8)] by blast
  moreover have "take m (s @ extra) = s @ take (m - length s) extra" using assms(10) by simp
  ultimately show ?thesis
    using assms(4,10,11) bound unp conv
    by (simp add: load_metadata_def Io_Read_def mem_read_Some size_fits min_def)
qed

text \<open>A link whose primary storage holds a link again does not lead to an object.\<close>

lemma link_to_link:
  assumes wire: "wire_ok E" "wire_cut E" and ready: "key_ready E w (meta_id r) n"
    and first: "holds_bytes E w (d_storage_index r) (meta_id r) ls"
    and ls: "pack_bytes E (link_metadata ((meta_data (meta_id r) p s)\<lparr>d_buffer := None\<rparr>)) = Inr ls"
    and p: "GetIOClient w p = Inr t" "client_obj E t w (meta_id r) = Some (ls' @ extra)"
    and ls': "pack_bytes E (link_metadata d) = Inr ls'" "d_buffer d = None"
    and len: "s \<noteq> []" "length s \<le> length (ls' @ extra)"
  shows "\<exists>f. Locate E w r = Inl f \<and> (\<forall>e. f \<noteq> Thrown e)"
proof -
  let ?k = "meta_id r" and ?link = "(meta_data (meta_id r) p s)\<lparr>d_buffer := None\<rparr>"
  let ?probe = "default_Data\<lparr>d_id := ?k, d_storage_index := d_storage_index r\<rparr>"
  have load: "load_metadata E w (d_storage_index r) ?probe = Inr (link_metadata ?link)"
    by (rule held_load [OF wire(1) ready first ls]) (simp_all add: wf_link_metadata)
  then have prim: "read_primary E w r = load_metadata E w p ?link"
    by (simp add: read_primary_def link_metadata_def links_insert_def links_at_def meta_data_def)
  have up: "client_up E t w ?k" "client_fits t w (length (ls' @ extra))"
    using ready p unfolding key_ready_def by fastforce+
  have link: "d_id ?link = ?k" "d_position ?link = 0" "d_data_size ?link = of_nat (length s)"
    by (simp_all add: meta_data_def)
  show ?thesis
  proof (cases "length s < length ls'")
    case True
    then have "\<exists>err. load_metadata E w p ?link = Inl (Std_Exn err)"
      using load_metadata_cut [OF wire(2) ls'(1) p(1), of ?link extra "length s"] p(2) up link len(1) by simp
    then show ?thesis using prim by (auto simp: Locate_def)
  next
    case False
    then have "load_metadata E w p ?link = Inr (link_metadata d)"
      using load_metadata_prefix [OF wire(1) wf_link_metadata [OF ls'(2)] ls'(1) p(1), of ?link extra "length s"]
        p(2) up link len(2) by simp
    then show ?thesis
      using prim by (simp add: Locate_def segment_request_def link_metadata_def links_insert_def link_array_def)
  qed
qed

fun request_storage :: "request \<Rightarrow> uint16" where
  "request_storage (Put ix b) = ix"
| "request_storage (Get ix) = ix"
| "request_storage (Len ix) = ix"
| "request_storage (Del ix) = ix"

lemma unlocated_fails:
  assumes "system_ok E w"
    and "\<And>m. \<exists>f. Locate E w (target i (request_storage q) m) = Inl f \<and> (\<forall>e. f \<noteq> Thrown e)"
  shows "fst (serve E i w q) = Failed"
proof -
  have bad: "\<exists>f. Locate E w (target i (request_storage q) m) = Inl f \<and> (\<forall>e. f \<noteq> Thrown e)" for m
    using assms(2) .
  show ?thesis
  proof (cases q)
    case (Put ix b)
    have sys: "wf_solutions (sols_of w)" "sols_of w \<noteq> []"
      "DATA_DISTRIBUTION_POLICY (w_conf w) \<noteq> DYNAMIC_PROGRAMMING_POLICY"
      using assms(1) by (simp_all add: system_ok_def)
    obtain s' x y where "Distribute E w (put_source i b) (target i ix (length b)) =
        (Inr [place (put_source i b) (target i ix (length b)) s'], w\<lparr>w_rand_calls := x, w_seq_calls := y\<rparr>)"
      by (rule Distribute_places [OF sys, of E "put_source i b" "target i ix (length b)"])
    moreover obtain f where f: "Locate E w (target i ix (length b)) = Inl f" "\<forall>e. f \<noteq> Thrown e"
      using bad Put by auto
    ultimately show ?thesis
      using Put by (cases f) (simp_all add: Server_Store_def Orchestrator_Store_def)
  next
    case (Get ix)
    then obtain f where "Locate E w (target i ix 0) = Inl f" "\<forall>e. f \<noteq> Thrown e" using bad by fastforce
    then show ?thesis using Get by (cases f) (simp_all add: Server_Locate_def)
  next
    case (Len ix)
    then obtain f where "Locate E w (target i ix 0) = Inl f" "\<forall>e. f \<noteq> Thrown e" using bad by fastforce
    then show ?thesis using Len by (cases f) (simp_all add: Server_Size_def)
  next
    case (Del ix)
    then obtain f where "Locate E w (target i ix 0) = Inl f" "\<forall>e. f \<noteq> Thrown e" using bad by fastforce
    then show ?thesis using Del by (cases f) (simp_all add: Server_Delete_def)
  qed
qed

section \<open>The race\<close>

text \<open>A creation after the primary record is written: the links and the data are still to come.\<close>

definition put_rest :: "uint16 \<Rightarrow> string \<Rightarrow> bytes \<Rightarrow> DataDistribution \<Rightarrow> answer task" where
  "put_rest a k ls d =
     Ask_conf (\<lambda>c. task_bind
       (task_then
          (task_then (write_links_task a (meta_data k 0 ls) (STORAGE_SOLUTIONS c)) (\<lambda>_. Done (Inr [d])))
          (\<lambda>ds. task_then (write_pieces_task ds) (\<lambda>_. Ask_conf (\<lambda>c. Done (Inr (uint (SERVER_COUNT c)))))))
       (\<lambda>r. Done (case r of Inr _ \<Rightarrow> Stored | Inl _ \<Rightarrow> Failed)))"

definition fresh_piece :: "string \<Rightarrow> uint16 \<Rightarrow> bytes \<Rightarrow> uint16 \<Rightarrow> DataDistribution" where
  "fresh_piece i a x sel =
     (place (put_source i x) (target i a (length x)) sel)\<lparr>dd_destination_data :=
        (target i a (length x))\<lparr>d_storage_index := sel, d_position := 0, d_id := data_key i\<rparr>\<rparr>"

text \<open>The records of a creation, and their sizes.\<close>

lemma creation_packs:
  assumes "admissible E c i n (Put a x)" "sel \<in> fst ` set (STORAGE_SOLUTIONS c)"
  obtains s ls where "pack_bytes E (fresh_meta (target i a (length x)) sel) = Inr s"
    "pack_bytes E (link_metadata ((meta_data (meta_key i) a s)\<lparr>d_buffer := None\<rparr>)) = Inr ls"
    "length s \<le> n" "length ls \<le> n"
proof -
  let ?m = "fresh_meta (target i a (length x)) sel"
  have "wf_Metadata ?m" by (simp add: fresh_meta_def fresh_primary_def fresh_link_def wf_Metadata_def wf_Data_def)
  then obtain s where s: "pack_bytes E ?m = Inr s" using wf_packs by blast
  let ?link = "(meta_data (meta_key i) a s)\<lparr>d_buffer := None\<rparr>"
  obtain ls where ls: "pack_bytes E (link_metadata ?link) = Inr ls"
    using wf_packs wf_link_metadata [of ?link] by auto
  have "packs_within E (meta_key i) ?m n" using assms by (auto simp: list_all_iff)
  then show ?thesis using that s ls by (simp add: packs_within_def fresh_meta_def fresh_primary_def)
qed

text \<open>The record that is written first.\<close>

lemma first_record:
  assumes t: "GetIOClient w a = Inr t" and ready: "key_ready E w k n" and none: "client_obj E t w k = None"
    and small: "length s \<le> n"
  obtains w' where "Io_Write E w a (meta_data k a s) (meta_data k a s) = (Inr (meta_data k a s), w')"
    "serves_like E w' w" "client_obj E t w' = (client_obj E t w)(k \<mapsto> s)"
    "\<And>t'. t' \<noteq> t \<Longrightarrow> client_obj E t' w' = client_obj E t' w" "key_ready E w' k n"
proof -
  have up: "client_up E t w (d_id (meta_data k a s))" "client_fits t w n"
    "client_fits t w (length (old_bytes (client_obj E t w (d_id (meta_data k a s)))))"
    using ready t by (auto simp: key_ready_def)
  obtain w1 where w1: "Io_Write E w a (meta_data k a s) (meta_data k a s) = (Inr (meta_data k a s), w1)"
    "serves_like E w1 w" "client_obj E t w1 = (client_obj E t w)(k \<mapsto> overlay 0 s [])"
    "\<And>t'. t' \<noteq> t \<Longrightarrow> client_obj E t' w1 = client_obj E t' w"
    by (rule Io_Write_whole [OF t up(1) meta_data_whole [of k a s] _ client_store.fits_mono [OF up(2) small] up(3)])
      (use none in simp_all)
  obtain w1' where "Io_Write E w a (meta_data k a s) (meta_data k a s) = (Inr (meta_data k a s), w1')"
    "key_ready E w1' k n"
    by (rule Io_Write_meta [OF t ready small]) blast
  then show ?thesis using that w1 by (simp add: overlay_0)
qed

lemma first_half:
  assumes rep: "represents E c i n w None" and adm: "admissible E c i n (Put a x)"
  obtains w1 sel s ls t where
    "leads E (serve_task E i (Put a x)) w (put_rest a (meta_key i) ls (fresh_piece i a x sel)) w1"
    "serves_like E w1 w" "sel \<in> fst ` set (sols_of w)"
    "pack_bytes E (fresh_meta (target i a (length x)) sel) = Inr s"
    "pack_bytes E (link_metadata ((meta_data (meta_key i) a s)\<lparr>d_buffer := None\<rparr>)) = Inr ls"
    "length ls \<le> n" "key_ready E w1 (meta_key i) n"
    "GetIOClient w a = Inr t" "client_obj E t w1 (meta_key i) = Some s"
    "\<And>t'. t' \<noteq> t \<Longrightarrow> client_obj E t' w1 = client_obj E t' w"
    "\<And>t' k'. k' \<noteq> meta_key i \<Longrightarrow> client_obj E t' w1 k' = client_obj E t' w k'"
proof -
  let ?src = "put_source i x" and ?dst = "target i a (length x)" and ?k = "meta_key i"
  have sys: "system_ok E w" "w_conf w = c" and abs: "absent E w i n" using rep by (simp_all add: represents_def)
  have sys': "wf_solutions (sols_of w)" "sols_of w \<noteq> []"
    "DATA_DISTRIBUTION_POLICY (w_conf w) \<noteq> DYNAMIC_PROGRAMMING_POLICY" "MAX_OBJ_SIZE (w_conf w) \<noteq> 0"
    using sys(1) by (simp_all add: system_ok_def)
  have a: "a \<in> fst ` set (sols_of w)" using adm sys(2) by (simp add: sols_of_def)
  obtain sel cx cy where dist: "Distribute E w ?src ?dst =
      (Inr [place ?src ?dst sel], w\<lparr>w_rand_calls := cx, w_seq_calls := cy\<rparr>)" and sel: "sel \<in> fst ` set (sols_of w)"
    by (rule Distribute_places [OF sys'(1-3), of E ?src ?dst])
  define w0 where "w0 = w\<lparr>w_rand_calls := cx, w_seq_calls := cy\<rparr>"
  have like0: "serves_like E w0 w" and obj0: "\<And>t. client_obj E t w0 = client_obj E t w"
    by (simp_all add: w0_def counters_serve)
  obtain t where t: "GetIOClient w a = Inr t" using GetIOClient_configured [OF sys'(1) a] by blast
  have t0: "GetIOClient w0 a = Inr t" using t serves_like_GetIOClient [OF like0] by simp
  have ready: "key_ready E w0 ?k n" using abs key_ready_frame [OF like0] obj0 by (simp add: absent_def)
  have none: "client_obj E t w0 ?k = None" using abs t obj0 by (auto simp: absent_def)
  obtain s ls where s: "pack_bytes E (fresh_meta ?dst sel) = Inr s"
    and ls: "pack_bytes E (link_metadata ((meta_data ?k a s)\<lparr>d_buffer := None\<rparr>)) = Inr ls"
    and small: "length s \<le> n" "length ls \<le> n"
    by (rule creation_packs [OF adm, of sel]) (use sel sys(2) in \<open>simp_all add: sols_of_def\<close>)
  obtain w1 where w1: "Io_Write E w0 a (meta_data ?k a s) (meta_data ?k a s) = (Inr (meta_data ?k a s), w1)"
    "serves_like E w1 w0" and obj1: "client_obj E t w1 = (client_obj E t w0)(?k \<mapsto> s)"
    and other1: "\<And>t'. t' \<noteq> t \<Longrightarrow> client_obj E t' w1 = client_obj E t' w0" and ready1: "key_ready E w1 ?k n"
    by (rule first_record [OF t0 ready none small(1)]) blast
  have held: "client_obj E t w1 ?k = Some s" using obj1 by simp
  have up: "client_up E t w0 ?k" using ready t0 by (simp add: key_ready_def)
  have read: "Io_Read E w0 a (default_Data\<lparr>d_id := ?k, d_storage_index := a\<rparr>)
      (default_Data\<lparr>d_id := ?k, d_storage_index := a\<rparr>) = Inl (Thrown (absent_code t))"
    using t0 none up by (simp add: Io_Read_def client_Read_absent)
  have conf0: "w_conf w0 = w_conf w" "m_storage_index (fresh_meta ?dst sel) = a"
    by (simp_all add: w0_def fresh_meta_def fresh_primary_def)
  have "leads E (serve_task E i (Put a x)) w (put_rest a ?k ls (fresh_piece i a x sel)) w1"
    apply (rule leads_step, rule leads_step, rule leads_step)
    using dist read s sys'(4) conf0 store_fresh_one [of ?dst "MAX_OBJ_SIZE (w_conf w)" ?src sel]
    apply (simp add: w0_def [symmetric] store_task_def orchestrator_store_task_def locate_task_def primary_task_def
        load_task_def task_then_def meta_id_key create_task_def fresh_primary_def write_primary_task_def Let_def)
    apply (rule leads_write [OF w1(1)])
    apply (simp add: ls put_rest_def fresh_piece_def task_then_def leads_refl)
    done
  moreover have "serves_like E w1 w" using serves_like_trans [OF w1(2) like0] .
  moreover have "client_obj E t' w1 k' = client_obj E t' w k'" if "k' \<noteq> ?k" for t' k'
    using obj1 other1 [of t'] obj0 that by (cases "t' = t") simp_all
  ultimately show ?thesis using that sel s ls small(2) ready1 t held other1 obj0 by simp
qed

text \<open>The second client creates the object in between, and does not see the first one's record.\<close>

lemma second_creation:
  assumes sys: "system_ok E w" and adm: "admissible E (w_conf w) i n (Put b y)"
    and none: "\<And>t. GetIOClient w b = Inr t \<Longrightarrow> client_obj E t w (meta_key i) = None"
    and dat: "\<And>t. client_obj E t w (data_key i) = None"
    and ready: "key_ready E w (meta_key i) n" "key_ready E w (data_key i) n"
  obtains w' sel where "serve E i w (Put b y) = (Stored, w')" "serves_like E w' w" "stores E w' i y n"
    "published E w' (meta_key i) (fresh_meta (target i b (length y)) sel)" "grown E w' w"
proof -
  let ?src = "put_source i y" and ?dst = "target i b (length y)"
  have sys': "wf_solutions (sols_of w)" "sols_of w \<noteq> []"
    "DATA_DISTRIBUTION_POLICY (w_conf w) \<noteq> DYNAMIC_PROGRAMMING_POLICY"
    using sys by (simp_all add: system_ok_def)
  have b: "b \<in> fst ` set (sols_of w)" and len: "length y \<le> n"
    and packs: "packs_within E (meta_key i) (fresh_meta ?dst sel) n" if "sel \<in> fst ` set (sols_of w)" for sel
    using adm that by (auto simp: sols_of_def list_all_iff)
  have b: "b \<in> fst ` set (sols_of w)" and len: "length y \<le> n" using adm by (auto simp: sols_of_def)
  obtain t where t: "GetIOClient w b = Inr t" using GetIOClient_configured [OF sys'(1) b] by blast
  have up: "client_up E t w (meta_key i)" using ready(1) t by (simp add: key_ready_def)
  obtain e where e: "Locate E w ?dst = Inl (Thrown e)"
    using Locate_absent [of w ?dst t E] t up none by auto
  obtain w' sel where w': "Server_Store E w ?src ?dst = (Inr (uint (SERVER_COUNT (w_conf w))), w')"
    "serves_like E w' w" "stores E w' i y n" "published E w' (meta_key i) (fresh_meta ?dst sel)"
    using Server_Store_publishes [OF sys put_source_whole, of ?dst y n e i] len b e dat ready packs by auto
  have "grown E w' w"
    using Server_Store_grows [OF sys put_source_whole, of y n ?dst e i] len b e ready packs w'(1) by simp
  then show ?thesis using that w' by simp
qed

text \<open>The first client goes on: its links replace the records, its data follows.\<close>

lemma second_half:
  assumes sys: "system_ok E w" and ready: "key_ready E w (meta_key i) n" "key_ready E w (data_key i) n"
    and ls: "length ls \<le> n" and x: "length x \<le> n" and a: "a \<in> fst ` set (sols_of w)"
    and sel: "sel \<in> fst ` set (sols_of w)"
  obtains w' where "run_task E (put_rest a (meta_key i) ls (fresh_piece i a x sel)) w = (Stored, w')"
    "serves_like E w' w" "key_ready E w' (meta_key i) n" "grown E w' w"
    "\<forall>ix \<in> fst ` set (sols_of w). ix \<noteq> a \<longrightarrow> holds_bytes E w' ix (meta_key i) ls"
    "\<And>t. GetIOClient w a = Inr t \<Longrightarrow> client_obj E t w' (meta_key i) = client_obj E t w (meta_key i)"
proof -
  let ?k = "meta_key i"
  have sys': "wf_solutions (sols_of w)" "separate (sols_of w)" using sys by (simp_all add: system_ok_def)
  have conf: "\<exists>t. GetIOClient w ix = Inr t" if "ix \<in> fst ` set (sols_of w)" for ix
    using GetIOClient_configured [OF sys'(1) that] .
  obtain w1 where w1: "write_links E w a (meta_data ?k 0 ls) (sols_of w) = (Inr (), w1)" "serves_like E w1 w"
    "key_ready E w1 ?k n"
    and held1: "\<forall>ix s. (ix, s) \<in> set (sols_of w) \<longrightarrow> ix \<noteq> a \<longrightarrow> holds_bytes E w1 ix ?k ls"
    and kept1: "\<forall>t. (\<forall>ix s. (ix, s) \<in> set (sols_of w) \<longrightarrow> ix \<noteq> a \<longrightarrow> GetIOClient w ix \<noteq> Inr t) \<longrightarrow>
       client_obj E t w1 = client_obj E t w"
    and keys1: "\<forall>t k'. k' \<noteq> ?k \<longrightarrow> client_obj E t w1 k' = client_obj E t w k'"
    using write_links_published [OF ready(1) ls conf, where p = a and jx = 0] by blast
  have grown1: "grown E w1 w" using write_links_grows [OF ready(1) ls conf, of "sols_of w" a 0] w1(1) by simp
  let ?dst = "(target i a (length x))\<lparr>d_storage_index := sel, d_position := 0, d_id := data_key i\<rparr>"
  obtain t where t: "GetIOClient w1 sel = Inr t" using conf [OF sel] serves_like_GetIOClient [OF w1(2)] by auto
  have ready1: "key_ready E w1 (d_id ?dst) n" using key_ready_frame [OF w1(2)] keys1 ready(2) by simp
  obtain w2 where w2: "Io_Write E w1 sel (put_source i x) ?dst = (Inr (put_source i x), w2)" "serves_like E w2 w1"
    "\<And>t' k'. k' \<noteq> d_id ?dst \<Longrightarrow> client_obj E t' w2 k' = client_obj E t' w1 k'"
    by (rule Io_Write_data [OF t ready1 put_source_whole [of i x] x]) simp_all
  have grown2: "grown E w2 w1"
    using Io_Write_grows [OF writable_ready [OF t ready1 put_source_whole [of i x] x]] w2(1) by auto
  have meta2: "client_obj E t' w2 ?k = client_obj E t' w1 ?k" for t' by (rule w2(3)) simp
  have "run_task E (put_rest a ?k ls (fresh_piece i a x sel)) w = (Stored, w2)"
    using w1(1) w2(1) by (simp add: put_rest_def fresh_piece_def place_def run_task_then sols_of_def)
  moreover have "client_obj E t w2 ?k = client_obj E t w ?k" if "GetIOClient w a = Inr t" for t
  proof -
    have "GetIOClient w ix \<noteq> Inr t" if "(ix, s) \<in> set (sols_of w)" "ix \<noteq> a" for ix s
      using separate_clients [OF sys' _ a] that \<open>GetIOClient w a = Inr t\<close> by force
    then have "client_obj E t w1 = client_obj E t w" using kept1 by blast
    then show ?thesis using meta2 by simp
  qed
  moreover have "\<forall>ix \<in> fst ` set (sols_of w). ix \<noteq> a \<longrightarrow> holds_bytes E w2 ix ?k ls"
    using held1 holds_bytes_frame [OF w2(2) meta2] by auto
  moreover have "key_ready E w2 ?k n" using key_ready_frame [OF w2(2) meta2] w1(3) by simp
  ultimately show ?thesis
    using that serves_like_trans [OF w2(2) w1(2)] grown_trans [OF grown2 grown1] by blast
qed

lemma pack_bytes_nonempty: "wire_ok E \<Longrightarrow> pack_bytes E meta = Inr s \<Longrightarrow> s \<noteq> []"
  by (auto simp: pack_bytes_def and_then_Inr wire_ok_def)

text \<open>A storage whose record is a link, to a storage that holds a link again.\<close>

definition bad_link :: "('r, 'm) env \<Rightarrow> ('r, 'm) world \<Rightarrow> string \<Rightarrow> uint16 \<Rightarrow> bool" where
  "bad_link E w k ix \<longleftrightarrow>
     (\<exists>p s ls d ls' t x.
        holds_bytes E w ix k ls \<and> s \<noteq> [] \<and> d_buffer d = None \<and>
        pack_bytes E (link_metadata ((meta_data k p s)\<lparr>d_buffer := None\<rparr>)) = Inr ls \<and>
        pack_bytes E (link_metadata d) = Inr ls' \<and>
        GetIOClient w p = Inr t \<and> client_obj E t w k = Some (ls' @ x) \<and> length s \<le> length (ls' @ x))"

lemma bad_linkI:
  assumes "holds_bytes E w ix k ls" "pack_bytes E (link_metadata ((meta_data k p s)\<lparr>d_buffer := None\<rparr>)) = Inr ls"
    and "holds_bytes E w p k ls'" "pack_bytes E (link_metadata d) = Inr ls'" "d_buffer d = None" "s \<noteq> []"
    and "\<And>t. GetIOClient w p = Inr t \<Longrightarrow> length s \<le> length (old_bytes (client_obj E t w k))"
  shows "bad_link E w k ix"
proof -
  obtain t x where "GetIOClient w p = Inr t" "client_obj E t w k = Some (ls' @ x)"
    using assms(3) by (auto simp: holds_bytes_def)
  moreover from this have "length s \<le> length (ls' @ x)" using assms(7) by fastforce
  ultimately show ?thesis
    unfolding bad_link_def using assms(1,2,4-6)
    by (intro exI [of _ p] exI [of _ s] exI [of _ ls] exI [of _ d] exI [of _ ls'] exI [of _ t] exI [of _ x]) simp
qed

lemma bad_link_unlocatable:
  assumes "bad_link E w (meta_id r) (d_storage_index r)" "system_ok E w" "wire_cut E" "key_ready E w (meta_id r) n"
  shows "\<exists>f. Locate E w r = Inl f \<and> (\<forall>e. f \<noteq> Thrown e)"
proof -
  have wire: "wire_ok E" using assms(2) by (simp add: system_ok_def)
  from assms(1) show ?thesis
    unfolding bad_link_def
    by (elim exE conjE) (rule link_to_link [OF wire assms(3,4)])
qed

text \<open>The second creation between the two halves of the first.\<close>

lemma second_between:
  assumes rep: "represents E c i n w None" and ab: "a \<noteq> b" and adm: "admissible E c i n (Put b y)"
    and a: "a \<in> fst ` set (sols_of w)" and like: "serves_like E w1 w" and ready: "key_ready E w1 (meta_key i) n"
    and t: "GetIOClient w a = Inr t" and other: "\<And>t'. t' \<noteq> t \<Longrightarrow> client_obj E t' w1 = client_obj E t' w"
    and keys: "\<And>t' k'. k' \<noteq> meta_key i \<Longrightarrow> client_obj E t' w1 k' = client_obj E t' w k'"
  obtains w2 s ls where "leads E (serve_task E i (Put b y)) w1 (Done Stored) w2" "serves_like E w2 w1"
    "key_ready E w2 (meta_key i) n" "key_ready E w2 (data_key i) n" "grown E w2 w1" "s \<noteq> []"
    "pack_bytes E (link_metadata ((meta_data (meta_key i) b s)\<lparr>d_buffer := None\<rparr>)) = Inr ls"
    "holds_bytes E w2 b (meta_key i) s" "holds_bytes E w2 a (meta_key i) ls"
proof -
  let ?k = "meta_key i" and ?tb = "serve_task E i (Put b y)"
  have sys: "system_ok E w" "w_conf w = c" and abs: "absent E w i n" using rep by (simp_all add: represents_def)
  have sys': "wire_ok E" "wf_solutions (sols_of w)" "separate (sols_of w)" using sys(1) by (simp_all add: system_ok_def)
  have b: "b \<in> fst ` set (sols_of w)" using adm sys(2) by (simp add: sols_of_def)
  have get1: "GetIOClient w1 = GetIOClient w" and conf1: "w_conf w1 = c"
    using serves_like_GetIOClient [OF like] like sys(2) by (simp_all add: serves_like_def)
  have "GetIOClient w a \<noteq> GetIOClient w b" using separate_clients [OF sys'(2,3) a b ab] .
  then have none: "client_obj E t' w1 ?k = None" if "GetIOClient w1 b = Inr t'" for t'
    using that t get1 other [of t'] abs by (auto simp: absent_def)
  have dat: "client_obj E t' w1 (data_key i) = None" for t' using keys abs by (simp add: absent_def)
  have data1: "key_ready E w1 (data_key i) n" using key_ready_frame [OF like] keys abs by (simp add: absent_def)
  obtain w2 sel where run: "serve E i w1 (Put b y) = (Stored, w2)" and like2: "serves_like E w2 w1"
    and st2: "stores E w2 i y n" and pub: "published E w2 ?k (fresh_meta (target i b (length y)) sel)"
    and grown: "grown E w2 w1"
    by (rule second_creation [OF system_ok_like [OF like sys(1)] _ none dat ready data1, of b y])
      (use adm conf1 in simp_all)
  have "sols_of w2 = sols_of w" using serves_like_sols [OF serves_like_trans [OF like2 like]] .
  moreover have "m_storage_index (fresh_meta (target i b (length y)) sel) = b"
    by (simp add: fresh_meta_def fresh_primary_def)
  ultimately obtain s ls where s: "pack_bytes E (fresh_meta (target i b (length y)) sel) = Inr s"
    "pack_bytes E (link_metadata ((meta_data ?k b s)\<lparr>d_buffer := None\<rparr>)) = Inr ls"
    "holds_bytes E w2 b ?k s" "holds_bytes E w2 a ?k ls"
    using pub a ab by (auto simp: published_def)
  have "run_task E ?tb w1 = (Stored, w2)" using run run_serve_task by metis
  then have "leads E ?tb w1 (Done Stored) w2" using leads_run [of E ?tb w1] by (simp del: serve_task.simps)
  then show ?thesis
    using that like2 grown s pack_bytes_nonempty [OF sys'(1) s(1)] st2 by (simp add: stores_def)
qed

text \<open>The records after both creations: at the first storage a link to the second, elsewhere one to the first.\<close>

lemma crossed_links:
  assumes ab: "a \<noteq> b" "b \<in> fst ` set (sols_of w)"
    and ls: "pack_bytes E (link_metadata ((meta_data k a s)\<lparr>d_buffer := None\<rparr>)) = Inr ls" "s \<noteq> []"
    and ls': "pack_bytes E (link_metadata ((meta_data k b s')\<lparr>d_buffer := None\<rparr>)) = Inr ls'" "s' \<noteq> []"
    and at_a: "holds_bytes E w a k ls'"
    and others: "\<forall>ix \<in> fst ` set (sols_of w). ix \<noteq> a \<longrightarrow> holds_bytes E w ix k ls"
    and len: "\<And>t. GetIOClient w a = Inr t \<Longrightarrow> length s \<le> length (old_bytes (client_obj E t w k))"
      "\<And>t. GetIOClient w b = Inr t \<Longrightarrow> length s' \<le> length (old_bytes (client_obj E t w k))"
  shows "\<forall>ix \<in> fst ` set (sols_of w). bad_link E w k ix"
proof
  fix ix
  assume ix: "ix \<in> fst ` set (sols_of w)"
  have at_b: "holds_bytes E w b k ls" using others ab by auto
  show "bad_link E w k ix"
  proof (cases "ix = a")
    case True
    show ?thesis by (rule bad_linkI [OF _ ls'(1) at_b ls(1) _ ls'(2) len(2)]) (use True at_a in simp_all)
  next
    case False
    then have "holds_bytes E w ix k ls" using others ix by blast
    then show ?thesis by (rule bad_linkI [OF _ ls(1) at_a ls'(1) _ ls(2) len(1)]) simp_all
  qed
qed

lemma creations_cross:
  assumes rep: "represents E c i n w None" and ab: "a \<noteq> b"
    and adm: "admissible E c i n (Put a x)" "admissible E c i n (Put b y)"
  shows "\<exists>sched w'. pool_run E sched [serve_task E i (Put a x), serve_task E i (Put b y)] w =
      ([Done Stored, Done Stored], w') \<and>
    serves_like E w' w \<and> key_ready E w' (meta_key i) n \<and>
    (\<forall>ix \<in> fst ` set (sols_of w). bad_link E w' (meta_key i) ix)"
proof -
  let ?k = "meta_key i" and ?tb = "serve_task E i (Put b y)"
  have sys: "system_ok E w" "w_conf w = c" and abs: "absent E w i n" using rep by (simp_all add: represents_def)
  have ix: "a \<in> fst ` set (sols_of w)" "b \<in> fst ` set (sols_of w)" "length x \<le> n"
    using adm sys(2) by (simp_all add: sols_of_def)
  obtain w1 sel s ls t where run1: "leads E (serve_task E i (Put a x)) w (put_rest a ?k ls (fresh_piece i a x sel)) w1"
    and like1: "serves_like E w1 w" and sel: "sel \<in> fst ` set (sols_of w)"
    and s: "pack_bytes E (fresh_meta (target i a (length x)) sel) = Inr s"
    and ls: "pack_bytes E (link_metadata ((meta_data ?k a s)\<lparr>d_buffer := None\<rparr>)) = Inr ls" "length ls \<le> n"
    and ready1: "key_ready E w1 ?k n" and t: "GetIOClient w a = Inr t" "client_obj E t w1 ?k = Some s"
    and other1: "\<And>t'. t' \<noteq> t \<Longrightarrow> client_obj E t' w1 = client_obj E t' w"
    and keys1: "\<And>t' k'. k' \<noteq> ?k \<Longrightarrow> client_obj E t' w1 k' = client_obj E t' w k'"
    by (rule first_half [OF rep adm(1)]) blast
  obtain w2 s' ls' where run2: "leads E ?tb w1 (Done Stored) w2" and like2: "serves_like E w2 w1"
    and ready2: "key_ready E w2 ?k n" "key_ready E w2 (data_key i) n" and grown2: "grown E w2 w1"
    and s': "s' \<noteq> []" and ls': "pack_bytes E (link_metadata ((meta_data ?k b s')\<lparr>d_buffer := None\<rparr>)) = Inr ls'"
    and held2: "holds_bytes E w2 b ?k s'" "holds_bytes E w2 a ?k ls'"
    by (rule second_between [OF rep ab adm(2) ix(1) like1 ready1 t(1) other1 keys1])
  have like20: "serves_like E w2 w" using serves_like_trans [OF like2 like1] .
  have sols2: "sols_of w2 = sols_of w" using serves_like_sols [OF like20] .
  obtain w3 where run3: "run_task E (put_rest a ?k ls (fresh_piece i a x sel)) w2 = (Stored, w3)"
    and like3: "serves_like E w3 w2" and ready3: "key_ready E w3 ?k n" and grown3: "grown E w3 w2"
    and held3: "\<forall>ix \<in> fst ` set (sols_of w2). ix \<noteq> a \<longrightarrow> holds_bytes E w3 ix ?k ls"
    and kept3: "\<And>t. GetIOClient w2 a = Inr t \<Longrightarrow> client_obj E t w3 ?k = client_obj E t w2 ?k"
    by (rule second_half [OF system_ok_like [OF like20 sys(1)] ready2 ls(2) ix(3), of a sel])
      (use ix(1) sel sols2 in simp_all)
  have like30: "serves_like E w3 w" using serves_like_trans [OF like3 like20] .
  have get1: "GetIOClient w1 = GetIOClient w" and get3: "GetIOClient w3 = GetIOClient w2"
    using serves_like_GetIOClient [OF like1] serves_like_GetIOClient [OF like3] .
  have at_a: "holds_bytes E w3 a ?k ls'" using held2(2) kept3 get3 by (auto simp: holds_bytes_def)
  have held1: "holds_bytes E w1 a ?k s" using t get1 by (simp add: holds_bytes_def)
  have "s \<noteq> []" using pack_bytes_nonempty [OF _ s] sys(1) by (simp add: system_ok_def)
  then have "\<forall>ix \<in> fst ` set (sols_of w3). bad_link E w3 ?k ix"
    using crossed_links [OF ab _ ls(1) _ ls' s' at_a _
        grown_holds [OF grown_trans [OF grown3 grown2] serves_like_trans [OF like3 like2] held1]
        grown_holds [OF grown3 like3 held2(1)]] held3 ix(2) sols2 serves_like_sols [OF like30] by simp
  moreover have "leads E (put_rest a ?k ls (fresh_piece i a x sel)) w2 (Done Stored) w3"
    using leads_run [of E "put_rest a ?k ls (fresh_piece i a x sel)" w2] run3 by simp
  ultimately show ?thesis
    using preempted [OF run1 run2] like30 ready3 serves_like_sols [OF like30] by metis
qed

text \<open>
  C9. Concurrent creations lose the object. Two clients store the same new object through two
  different storages. There is an interleaving of their handlers after which both have been told
  that the data is stored, and from then on no request for the object is served, whatever it asks
  for and through whichever storage it is made. The records of the object are links to each other:
  a lookup takes the second link for the primary record, and ends in the exception of the unpacker
  or in an access outside the array of segments.
\<close>

theorem concurrent_creations_lose_object:
  assumes "represents E c i n w None" "a \<noteq> b" "wire_cut E"
    and "admissible E c i n (Put a x)" "admissible E c i n (Put b y)"
  shows "\<exists>sched w'. pool_run E sched [serve_task E i (Put a x), serve_task E i (Put b y)] w =
      ([Done Stored, Done Stored], w') \<and>
    (\<forall>q. request_storage q \<in> fst ` set (STORAGE_SOLUTIONS c) \<longrightarrow> fst (serve E i w' q) = Failed)"
proof -
  obtain sched w' where run: "pool_run E sched [serve_task E i (Put a x), serve_task E i (Put b y)] w =
      ([Done Stored, Done Stored], w')"
    and w': "serves_like E w' w" "key_ready E w' (meta_key i) n" "\<forall>ix \<in> fst ` set (sols_of w). bad_link E w' (meta_key i) ix"
    using creations_cross [OF assms(1,2,4,5)] by blast
  have sys: "system_ok E w'" and sols: "sols_of w' = STORAGE_SOLUTIONS c"
    using assms(1) system_ok_like [OF w'(1)] serves_like_sols [OF w'(1)]
    by (auto simp: represents_def sols_of_def)
  have bad: "bad_link E w' (meta_key i) ix" if "ix \<in> fst ` set (STORAGE_SOLUTIONS c)" for ix
    using w'(3) that sols serves_like_sols [OF w'(1)] by metis
  have "fst (serve E i w' q) = Failed" if "request_storage q \<in> fst ` set (STORAGE_SOLUTIONS c)" for q
  proof (rule unlocated_fails [OF sys])
    show "\<exists>f. Locate E w' (target i (request_storage q) m) = Inl f \<and> (\<forall>e. f \<noteq> Thrown e)" for m
      by (rule bad_link_unlocatable [OF _ sys assms(3)])
        (use w'(2) bad that sols in \<open>simp_all add: meta_id_key\<close>)
  qed
  then show ?thesis using run by blast
qed

theorem concurrent_creations_lose_object_witness:
  "\<exists>sched w'. pool_run (ref_env (\<lambda>k. k)) sched
      [serve_task (ref_env (\<lambda>k. k)) ''x'' (Put 0 ''left''), serve_task (ref_env (\<lambda>k. k)) ''x'' (Put 1 ''right'')]
      (ref_world RANDOM_POLICY) = ([Done Stored, Done Stored], w') \<and>
    fst (serve (ref_env (\<lambda>k. k)) ''x'' w' (Get 0)) = Failed \<and>
    fst (serve (ref_env (\<lambda>k. k)) ''x'' w' (Len 2)) = Failed \<and>
    fst (serve (ref_env (\<lambda>k. k)) ''x'' w' (Del 1)) = Failed \<and>
    fst (serve (ref_env (\<lambda>k. k)) ''x'' w' (Put 1 ''again'')) = Failed"
proof -
  let ?E = "ref_env (\<lambda>k. k)" and ?c = "ref_conf RANDOM_POLICY"
  have adm: "admissible ?E ?c ''x'' 1000 (Put 0 ''left'')" "admissible ?E ?c ''x'' 1000 (Put 1 ''right'')"
    by code_simp+
  have "represents ?E ?c ''x'' 1000 (ref_world RANDOM_POLICY) None" by (rule ref_represents) simp_all
  from concurrent_creations_lose_object [OF this _ ref_wire_cut adm] obtain sched w' where
    run: "pool_run ?E sched [serve_task ?E ''x'' (Put 0 ''left''), serve_task ?E ''x'' (Put 1 ''right'')]
      (ref_world RANDOM_POLICY) = ([Done Stored, Done Stored], w')"
    and bad: "\<forall>q. request_storage q \<in> fst ` set (STORAGE_SOLUTIONS ?c) \<longrightarrow> fst (serve ?E ''x'' w' q) = Failed"
    by auto
  have "fst ` set (STORAGE_SOLUTIONS ?c) = {0, 1, 2}" by (simp add: ref_conf_def ConfigurationManager_def)
  then show ?thesis
    using run bad [rule_format, of "Get 0"] bad [rule_format, of "Len 2"] bad [rule_format, of "Del 1"]
      bad [rule_format, of "Put 1 ''again''"] by auto
qed

end
