(* ===== verification/Linearization.thy ===== *)
theory Linearization
  imports Concurrency
begin

text \<open>
  Handlers of objects that exist and are not deleted; those that are overwritten have their data in
  Redis, and at most one client overwrites each. Each of them has one step that matters, the \<^verbatim>\<open>set\<close> of an update or the
  \<^verbatim>\<open>get\<close> of a read or size, because the metadata does not change and nobody else changes the value
  an update has read. So whatever the handlers of a pool do at the same time, on the same objects or
  on others, they answer as if their requests had run one after the other, in the order of those
  steps. \<open>lin W t m qs F\<close> says that a task, the only one that overwrites the objects \<open>W\<close> (now with the
  contents \<open>m\<close>), still has to commit the requests \<open>qs\<close>, one per such step and each with the answer of
  the store at that moment, and ends with the value of \<open>F\<close> for the answers.

  Neither restriction can be dropped: \<open>concurrent_updates_lose_write\<close> and \<open>mongo_update_hides\<close> are
  interleavings of two updates of one object, and of a read with an update of data in MongoDB.
\<close>

section \<open>Stores with fixed metadata\<close>

definition kept ::
  "('r, 'm) env \<Rightarrow> ('r, 'm) world \<Rightarrow> string \<Rightarrow> nat \<Rightarrow> Metadata \<times> Data \<Rightarrow> bytes \<Rightarrow> bool" where
  "kept E w i n p v \<longleftrightarrow>
     published E w (meta_key i) (fst p) \<and> wf_Metadata (fst p) \<and> m_links (fst p) = [(0, snd p)] \<and>
     d_id (snd p) = data_key i \<and>
     (\<exists>t. GetIOClient w (d_storage_index (snd p)) = Inr t \<and> client_obj E t w (data_key i) = Some v \<and>
        (\<forall>t'. t' \<noteq> t \<longrightarrow> client_obj E t' w (data_key i) = None)) \<and>
     key_ready E w (meta_key i) n \<and> key_ready E w (data_key i) n"

definition store_at ::
  "('r, 'm) env \<Rightarrow> conf \<Rightarrow> nat \<Rightarrow> string set \<Rightarrow> (string \<Rightarrow> Metadata \<times> Data) \<Rightarrow> ('r, 'm) world \<Rightarrow>
   (string \<Rightarrow> bytes option) \<Rightarrow> bool" where
  "store_at E c n N P w m \<longleftrightarrow>
     system_ok E w \<and> w_conf w = c \<and> n < 2 ^ 31 \<and>
     (\<forall>i \<in> N. \<exists>v. m i = Some v \<and> length v \<le> n \<and> kept E w i n (P i) v)"

lemma stores_kept: "stores E w i v n \<longleftrightarrow> (\<exists>p. kept E w i n p v)"
  by (auto simp: stores_def kept_def)

lemma kept_frame:
  assumes "serves_like E w' w" "\<And>t. client_obj E t w' (meta_key i) = client_obj E t w (meta_key i)"
    and "\<And>t. client_obj E t w' (data_key i) = client_obj E t w (data_key i)"
  shows "kept E w' i n p v \<longleftrightarrow> kept E w i n p v"
  using published_frame [OF assms(1,2)] key_ready_frame [OF assms(1,2)] key_ready_frame [OF assms(1,3)] assms(3)
    serves_like_GetIOClient [OF assms(1)]
  by (simp add: kept_def del: client_obj.simps)

lemma store_at_intro:
  assumes "\<forall>i \<in> N. represents E c i n w (m i) \<and> m i \<noteq> None" "N \<noteq> {}"
  obtains P where "store_at E c n N P w m"
proof -
  have "\<forall>i \<in> N. \<exists>p. \<exists>v. m i = Some v \<and> length v \<le> n \<and> kept E w i n p v"
    using assms(1) by (auto simp: represents_def stores_kept)
  then obtain P where P: "\<forall>i \<in> N. \<exists>v. m i = Some v \<and> length v \<le> n \<and> kept E w i n (P i) v"
    using bchoice by metis
  then show ?thesis using that assms by (auto simp: store_at_def represents_def)
qed

lemma store_atD:
  assumes "store_at E c n N P w m" "i \<in> N"
  obtains v where "m i = Some v" "length v \<le> n" "kept E w i n (P i) v" "system_ok E w" "w_conf w = c" "n < 2 ^ 31"
  using assms by (auto simp: store_at_def)

lemma store_at_represents:
  assumes "store_at E c n N P w m" "i \<in> N"
  shows "represents E c i n w (m i)"
proof -
  from assms obtain v where "m i = Some v" "length v \<le> n" "kept E w i n (P i) v" "system_ok E w" "w_conf w = c"
    "n < 2 ^ 31" by (rule store_atD)
  moreover from this have "stores E w i v n" using stores_kept by blast
  ultimately show ?thesis by (simp add: represents_def)
qed

lemma store_at_counters:
  assumes "store_at E c n N P w m"
  shows "store_at E c n N P (w\<lparr>w_rand_calls := x, w_seq_calls := y\<rparr>) m"
  using assms kept_frame [OF counters_serve, where w = w] system_ok_like [OF counters_serve, of E w]
  by (simp add: store_at_def)

text \<open>The storage of an object's data does not change, and its client is the one that holds it.\<close>

lemma kept_client:
  assumes "kept E w i n p v" "client_obj E t w (data_key i) \<noteq> None"
  shows "GetIOClient w (d_storage_index (snd p)) = Inr t"
proof -
  obtain t' where "GetIOClient w (d_storage_index (snd p)) = Inr t'" "\<forall>u. u \<noteq> t' \<longrightarrow> client_obj E u w (data_key i) = None"
    using assms(1) by (auto simp: kept_def)
  moreover from this(2) have "t = t'" using assms(2) by (cases "t = t'") simp_all
  ultimately show ?thesis by simp
qed

lemma store_at_client:
  assumes "store_at E c n N P w m" "store_at E c n N P w' m'"
  shows "GetIOClient w' = GetIOClient w"
proof -
  have "w_conf w' = w_conf w" using assms unfolding store_at_def by metis
  then show ?thesis by (simp add: GetIOClient_def fun_eq_iff)
qed

lemma kept_obj:
  assumes "kept E w i n p v" "GetIOClient w (d_storage_index (snd p)) = Inr t"
  shows "client_obj E t w (data_key i) = Some v" "\<And>t'. t' \<noteq> t \<Longrightarrow> client_obj E t' w (data_key i) = None"
    "client_up E t w (data_key i)" "client_fits t w n"
  using assms unfolding kept_def key_ready_def by (elim conjE exE; force)+

text \<open>A change of the data of one object, in its storage.\<close>

lemma store_at_change:
  assumes st: "store_at E c n N P w m" and i: "i \<in> N" and x: "length x \<le> n"
    and t: "GetIOClient w (d_storage_index (snd (P i))) = Inr t" and like: "serves_like E w' w"
    and obj: "client_obj E t w' = (client_obj E t w)(data_key i \<mapsto> x)"
    and rest: "\<And>t'. t' \<noteq> t \<Longrightarrow> client_obj E t' w' = client_obj E t' w"
  shows "store_at E c n N P w' (m(i \<mapsto> x))"
proof -
  from st i obtain v where k: "kept E w i n (P i) v" by (rule store_atD)
  have other: "client_obj E u w' k' = client_obj E u w k'" if "k' \<noteq> data_key i" for u k'
    using obj rest that by (cases "u = t") simp_all
  have ready: "key_ready E w (data_key i) n" using k by (simp add: kept_def)
  have "key_ready E w' (data_key i) n"
    unfolding key_ready_def
  proof (intro allI impI)
    fix ix u
    assume "GetIOClient w' ix = Inr u"
    then have "client_up E u w (data_key i)" "client_fits u w n"
      "client_fits u w (length (old_bytes (client_obj E u w (data_key i))))"
      using ready serves_like_GetIOClient [OF like] by (auto simp: key_ready_def)
    moreover from this(2) have "client_fits u w (length x)" using x by (rule client_store.fits_mono)
    ultimately show "client_up E u w' (data_key i) \<and> client_fits u w' n \<and>
        client_fits u w' (length (old_bytes (client_obj E u w' (data_key i))))"
      using like obj rest by (cases "u = t") (simp_all add: serves_like_def)
  qed
  moreover have "client_obj E t w' (data_key i) = Some x" "\<forall>t'. t' \<noteq> t \<longrightarrow> client_obj E t' w' (data_key i) = None"
    using kept_obj(2) [OF k t] obj rest by simp_all
  ultimately have "kept E w' i n (P i) x"
    using k t published_frame [OF like, of "meta_key i"] key_ready_frame [OF like, of "meta_key i"]
      serves_like_GetIOClient [OF like] other by (simp add: kept_def)
  moreover have "kept E w' j n (P j) u \<longleftrightarrow> kept E w j n (P j) u" if "j \<noteq> i" for j u
    by (rule kept_frame [OF like]) (use other that in simp_all)
  ultimately show ?thesis
    using st x system_ok_like [OF like] like by (auto simp: store_at_def serves_like_def)
qed

text \<open>The one \<^verbatim>\<open>set\<close> of an update.\<close>

lemma kept_redis:
  assumes "kept E w i n p v" "GetIOClient w (d_storage_index (snd p)) = Inr REDIS_IO"
  shows "redis_ok (e_redis E)" "n \<le> redis_max" "redis_get (e_redis E) (w_redis w) (data_key i) = Inr (Some v)"
proof -
  show ok: "redis_ok (e_redis E)" "n \<le> redis_max"
    using kept_obj(3,4) [OF assms] by (simp_all add: redis_up_def redis_fits_def)
  show "redis_get (e_redis E) (w_redis w) (data_key i) = Inr (Some v)"
    using kept_obj(1) [OF assms] by (simp add: redis_ok_get [OF ok(1)])
qed

lemma store_at_set:
  assumes st: "store_at E c n N P w m" and i: "i \<in> N" and x: "length x \<le> n"
    and red: "GetIOClient w (d_storage_index (snd (P i))) = Inr REDIS_IO"
  obtains w' where "world_set E w (data_key i) x = (Inr True, w')" "store_at E c n N P w' (m(i \<mapsto> x))"
proof -
  from st i obtain v where k: "kept E w i n (P i) v" by (rule store_atD)
  have max: "length x \<le> redis_max" using x kept_redis(2) [OF k red] by simp
  obtain w' where w': "world_set E w (data_key i) x = (Inr True, w')" "serves_like E w' w"
    "client_obj E REDIS_IO w' = (client_obj E REDIS_IO w)(data_key i \<mapsto> x)"
    "\<And>t. t \<noteq> REDIS_IO \<Longrightarrow> client_obj E t w' = client_obj E t w"
    by (rule world_set_ok [OF kept_redis(1) [OF k red] max, of w "data_key i"]) blast
  show ?thesis using that [OF w'(1) store_at_change [OF st i x red w'(2-4)]] .
qed

section \<open>Linearizable tasks\<close>

text \<open>Tasks that leave the store alone and end with a certain result.\<close>

inductive quiet ::
  "('r, 'm) env \<Rightarrow> conf \<Rightarrow> nat \<Rightarrow> string set \<Rightarrow> (string \<Rightarrow> Metadata \<times> Data) \<Rightarrow> ('a \<Rightarrow> bool) \<Rightarrow> 'a task \<Rightarrow> bool"
  for E c n N P Q where
  quiet_done: "Q x \<Longrightarrow> quiet E c n N P Q (Done x)"
| quiet_step: "(\<And>w m. store_at E c n N P w m \<Longrightarrow>
     store_at E c n N P (snd (task_step E t w)) m \<and> quiet E c n N P Q (fst (task_step E t w))) \<Longrightarrow>
   \<not> is_done t \<Longrightarrow> quiet E c n N P Q t"

inductive lin ::
  "('r, 'm) env \<Rightarrow> conf \<Rightarrow> nat \<Rightarrow> string set \<Rightarrow> (string \<Rightarrow> Metadata \<times> Data) \<Rightarrow> string set \<Rightarrow>
   'a task \<Rightarrow> (string \<Rightarrow> bytes option) \<Rightarrow> (string \<times> request) list \<Rightarrow> (answer list \<Rightarrow> 'a) \<Rightarrow> bool"
  for E c n N P W where
  lin_done: "lin E c n N P W (Done (F [])) m [] F"
| lin_step: "(\<And>w m'. store_at E c n N P w m' \<Longrightarrow> \<forall>i \<in> W. m' i = m i \<Longrightarrow>
     (store_at E c n N P (snd (task_step E t w)) m' \<and> lin E c n N P W (fst (task_step E t w)) m qs F) \<or>
     (\<exists>r qs'. qs = r # qs' \<and> store_at E c n N P (snd (task_step E t w)) (snd (store_step m' r)) \<and>
        (\<forall>i. i \<notin> W \<longrightarrow> snd (store_step m' r) i = m' i) \<and>
        lin E c n N P W (fst (task_step E t w)) (snd (store_step m' r)) qs'
          (\<lambda>as. F (fst (store_step m' r) # as)))) \<Longrightarrow>
   \<not> is_done t \<Longrightarrow> lin E c n N P W t m qs F"

inductive_cases lin_DoneE: "lin E c n N P W (Done x) m qs F"

lemma lin_Done: "lin E c n N P W (Done x) m qs F \<Longrightarrow> qs = [] \<and> x = F []"
  by (erule lin_DoneE) simp_all

lemma lin_next:
  assumes "lin E c n N P W t m qs F" "store_at E c n N P w m" "\<not> is_done t"
  shows "(store_at E c n N P (snd (task_step E t w)) m \<and> lin E c n N P W (fst (task_step E t w)) m qs F) \<or>
     (\<exists>r qs'. qs = r # qs' \<and> store_at E c n N P (snd (task_step E t w)) (snd (store_step m r)) \<and>
        (\<forall>i. i \<notin> W \<longrightarrow> snd (store_step m r) i = m i) \<and>
        lin E c n N P W (fst (task_step E t w)) (snd (store_step m r)) qs'
          (\<lambda>as. F (fst (store_step m r) # as)))"
  using assms(1) by cases (use assms(2,3) in simp_all)

text \<open>The task knows the contents of its own objects only.\<close>

lemma lin_agree:
  assumes "lin E c n N P W t m qs F" "\<forall>i \<in> W. m' i = m i"
  shows "lin E c n N P W t m' qs F"
  using assms
proof (induction rule: lin.induct)
  case (lin_done F m)
  show ?case by (rule lin.lin_done)
next
  case (lin_step m t qs F)
  show ?case
  proof (rule lin.lin_step [OF _ lin_step(2)], goal_cases)
    case (1 w m1)
    then have "\<forall>i \<in> W. m1 i = m i" using lin_step.prems by simp
    then show ?case using lin_step(1) [OF 1(1)] lin_step.prems by blast
  qed
qed

lemma is_done_bind: "\<not> is_done t \<Longrightarrow> \<not> is_done (task_bind t g)"
  by (cases t) simp_all

lemma lin_quiet:
  "quiet E c n N P Q t \<Longrightarrow> (\<And>x. Q x \<Longrightarrow> lin E c n N P W (g x) m qs F) \<Longrightarrow> lin E c n N P W (task_bind t g) m qs F"
proof (induction rule: quiet.induct)
  case (quiet_done x)
  then show ?case by simp
next
  case (quiet_step t)
  show ?case
    by (rule lin_step) (use quiet_step in \<open>simp_all add: task_step_bind is_done_bind\<close>)
qed

lemma lin_map: "lin E c n N P W t m qs F \<Longrightarrow> lin E c n N P W (task_bind t (\<lambda>x. Done (h x))) m qs (\<lambda>as. h (F as))"
proof (induction rule: lin.induct)
  case (lin_done F m)
  then show ?case using lin.lin_done [where F = "\<lambda>as. h (F as)"] by simp
next
  case (lin_step m t qs F)
  show ?case
  proof (rule lin.lin_step, goal_cases)
    case (1 w m')
    from lin_step(1) [OF this] show ?case
      using lin_step(2) by (simp add: task_step_bind) blast
  qed (use lin_step(2) in \<open>simp add: is_done_bind\<close>)
qed

lemma lin_commit:
  assumes "\<And>w m'. store_at E c n N P w m' \<Longrightarrow> \<forall>i \<in> W. m' i = m i \<Longrightarrow>
      \<exists>t' w'. task_step E t w = (t', w') \<and> store_at E c n N P w' (snd (store_step m' r)) \<and>
        (\<forall>i. i \<notin> W \<longrightarrow> snd (store_step m' r) i = m' i) \<and>
        lin E c n N P W t' (snd (store_step m' r)) qs (\<lambda>as. F (fst (store_step m' r) # as))"
    and "\<not> is_done t"
  shows "lin E c n N P W t m (r # qs) F"
proof (rule lin_step [OF _ assms(2)], goal_cases)
  case (1 w m')
  then show ?case using assms(1) [OF 1] by force
qed

lemma quiet_bind:
  "quiet E c n N P Q t \<Longrightarrow> (\<And>x. Q x \<Longrightarrow> quiet E c n N P Q' (g x)) \<Longrightarrow> quiet E c n N P Q' (task_bind t g)"
proof (induction rule: quiet.induct)
  case (quiet_done x)
  then show ?case by simp
next
  case (quiet_step t)
  show ?case
    by (rule quiet.quiet_step) (use quiet_step in \<open>simp_all add: task_step_bind is_done_bind\<close>)
qed

lemma quiet_then:
  assumes "quiet E c n N P (\<lambda>r. r = Inr x) t" "quiet E c n N P Q (g x)"
  shows "quiet E c n N P Q (task_then t g)"
  unfolding task_then_def by (rule quiet_bind [OF assms(1)]) (simp add: assms(2))

lemma quiet_conf:
  assumes "\<And>d. d = c \<Longrightarrow> quiet E c n N P Q (f d)"
  shows "quiet E c n N P Q (Ask_conf f)"
  by (rule quiet_step) (use assms in \<open>simp_all add: store_at_def\<close>)

lemma quiet_load:
  assumes "\<And>w m. store_at E c n N P w m \<Longrightarrow> load_metadata E w ix src = x"
  shows "quiet E c n N P (\<lambda>r. r = x) (load_task E ix src)"
proof (rule quiet_step)
  fix w m
  assume st: "store_at E c n N P w m"
  have "run_task E (load_task E ix src) w = (x, w)" using assms [OF st] by simp
  then have "fst (task_step E (load_task E ix src) w) = Done x" by (simp add: load_task_def)
  then show "store_at E c n N P (snd (task_step E (load_task E ix src) w)) m \<and>
      quiet E c n N P (\<lambda>r. r = x) (fst (task_step E (load_task E ix src) w))"
    using st by (simp add: quiet_done load_task_def)
qed (simp add: load_task_def)

section \<open>The handlers\<close>

lemma quiet_primary:
  assumes st: "store_at E c n N P w0 m0" and i: "i \<in> N" and ix: "ix \<in> fst ` set (STORAGE_SOLUTIONS c)"
  shows "quiet E c n N P (\<lambda>r. r = Inr (fst (P i))) (primary_task E (target i ix k))"
proof -
  let ?k = "meta_key i" and ?meta = "fst (P i)" and ?p = "m_storage_index (fst (P i))"
  let ?probe = "default_Data\<lparr>d_id := ?k, d_storage_index := ix\<rparr>"
  from st i obtain v where "kept E w0 i n (P i) v" by (rule store_atD)
  then have wf: "wf_Metadata ?meta" "\<not> m_is_link ?meta" by (simp_all add: kept_def published_def)
  obtain s where s: "pack_bytes E ?meta = Inr s" using wf_packs wf(1) by blast
  let ?link = "(meta_data ?k ?p s)\<lparr>d_buffer := None\<rparr>"
  obtain ls where ls: "pack_bytes E (link_metadata ?link) = Inr ls"
    using wf_packs wf_link_metadata [of ?link] by auto
  have held: "wire_ok E" "key_ready E w ?k n" "holds_bytes E w ?p ?k s"
    "jx \<in> fst ` set (STORAGE_SOLUTIONS c) \<Longrightarrow> jx \<noteq> ?p \<Longrightarrow> holds_bytes E w jx ?k ls"
    if "store_at E c n N P w m" for w m jx
  proof -
    from that i obtain v where v: "kept E w i n (P i) v" "system_ok E w" "w_conf w = c" by (rule store_atD)
    then have pub: "published E w ?k ?meta" and ready: "key_ready E w ?k n" by (simp_all add: kept_def)
    show "wire_ok E" "key_ready E w ?k n" using v(2) ready by (simp_all add: system_ok_def)
    show "holds_bytes E w ?p ?k s" "jx \<in> fst ` set (STORAGE_SOLUTIONS c) \<Longrightarrow> jx \<noteq> ?p \<Longrightarrow> holds_bytes E w jx ?k ls"
      using pub s ls v(3) by (auto simp: published_def sols_of_def)
  qed
  have load: "quiet E c n N P (\<lambda>r. r = Inr ?meta) (load_task E ?p src)"
    if "d_id src = ?k" "d_position src = 0" "d_data_size src = 0 \<or> d_data_size src = of_nat (length s)" for src
    by (rule quiet_load) (use held_load [OF held(1,2,3) s wf(1) that] in blast)
  show ?thesis
  proof (cases "ix = ?p")
    case True
    have "quiet E c n N P (\<lambda>r. r = Inr ?meta) (load_task E ?p (default_Data\<lparr>d_id := ?k, d_storage_index := ?p\<rparr>))"
      by (rule load) simp_all
    then show ?thesis
      unfolding primary_task_def True
      by (intro quiet_then [where x = ?meta]) (use wf(2) in \<open>simp_all add: meta_id_key quiet_done\<close>)
  next
    case False
    have first: "quiet E c n N P (\<lambda>r. r = Inr (link_metadata ?link)) (load_task E ix ?probe)"
      by (rule quiet_load)
        (use held_load [OF held(1,2,4) ls] ix False in \<open>simp add: wf_link_metadata\<close>)
    have "quiet E c n N P (\<lambda>r. r = Inr ?meta) (load_task E ?p ?link)" by (rule load) (simp_all add: meta_data_def)
    then show ?thesis
      unfolding primary_task_def
      by (intro quiet_then [where x = "link_metadata ?link"]) (use first in \<open>simp_all add: meta_id_key link_metadata_def links_insert_def links_at_def
          meta_data_def\<close>)
  qed
qed

lemma quiet_locate:
  assumes st: "store_at E c n N P w0 m0" and i: "i \<in> N" and ix: "ix \<in> fst ` set (STORAGE_SOLUTIONS c)"
    and k: "of_nat k \<le> MAX_OBJ_SIZE c"
  shows "quiet E c n N P (\<lambda>r. r = Inr ([one_piece (snd (P i)) k], fst (P i))) (locate_task E (target i ix k))"
proof -
  from st i obtain v where "kept E w0 i n (P i) v" "system_ok E w0" "w_conf w0 = c" by (rule store_atD)
  then have "segment_request (MAX_OBJ_SIZE c) (target i ix k) (fst (P i)) = Inr [one_piece (snd (P i)) k]"
    using segment_request_one [of "MAX_OBJ_SIZE c" "fst (P i)" "snd (P i)" "target i ix k" k] k
    by (auto simp: kept_def system_ok_def)
  then show ?thesis
    unfolding locate_task_def
    by (intro quiet_then [OF quiet_primary [OF st i ix]] quiet_conf) (simp add: quiet_done)
qed

text \<open>An update changes no metadata.\<close>

lemma quiet_update:
  assumes st: "store_at E c n N P w0 m0" and i: "i \<in> N" and ix: "ix \<in> fst ` set (STORAGE_SOLUTIONS c)"
    and k: "of_nat k \<le> MAX_OBJ_SIZE c"
  shows "quiet E c n N P
    (\<lambda>r. r = Inr [(place src (target i ix k) sel)\<lparr>dd_destination_data := (target i ix k)\<lparr>d_id := data_key i,
        d_position := 0, d_storage_index := d_storage_index (snd (P i))\<rparr>\<rparr>])
    (orchestrator_store_task E (target i ix k) [place src (target i ix k) sel])"
proof -
  from st i obtain v where "kept E w0 i n (P i) v" by (rule store_atD)
  then have links: "m_links (fst (P i)) = [(0, snd (P i))]" "d_id (snd (P i)) = data_key i"
    by (simp_all add: kept_def)
  show ?thesis
    unfolding orchestrator_store_task_def
    by (intro quiet_conf quiet_bind [OF quiet_locate [OF st i ix k]])
      (use links in \<open>simp add: update_task_def place_def Let_def quiet_done\<close>)
qed

lemma lin_write:
  assumes st: "store_at E c n N P w0 m0" and red: "GetIOClient w0 (d_storage_index (snd (P i))) = Inr REDIS_IO"
    and i: "i \<in> N" "i \<in> W" and src: "whole src b" "length b \<le> n" and dst: "d_id dst = data_key i" "d_position dst = 0"
    and rest: "\<And>m. lin E c n N P W (f (Inr src)) m qs (\<lambda>as. F (Stored # as))"
  shows "lin E c n N P W (write_task (d_storage_index (snd (P i))) src dst f) m ((i, Put ix b) # qs) F"
proof -
  have client: "GetIOClient w (d_storage_index (snd (P i))) = Inr REDIS_IO" if "store_at E c n N P w m" for w m
    using store_at_client [OF st that] red by simp
  have set: "lin E c n N P W (redis_put_task (data_key i) (overlay 0 b v) src f) m ((i, Put ix b) # qs) F"
    if v: "m i = Some v" "length v \<le> n" for v
  proof (rule lin_commit, goal_cases)
    case (1 w m')
    have "length (overlay 0 b v) \<le> n" using v(2) src(2) by (simp add: length_overlay)
    from store_at_set [OF 1(1) i(1) this client [OF 1(1)]] obtain w' where
      "world_set E w (data_key i) (overlay 0 b v) = (Inr True, w')" "store_at E c n N P w' (m'(i \<mapsto> overlay 0 b v))" .
    moreover have "m' i = Some v" using 1(2) i(2) v(1) by simp
    ultimately show ?case using rest i(2) by (auto simp: redis_put_task_def)
  qed (simp add: redis_put_task_def)
  have get: "lin E c n N P W (redis_write_task src dst f) m ((i, Put ix b) # qs) F"
  proof (rule lin_step, goal_cases)
    case (1 w m')
    from 1(1) i(1) obtain v where v: "m' i = Some v" "length v \<le> n" "kept E w i n (P i) v" "n < 2 ^ 31"
      by (rule store_atD)
    then have bounds: "length v < 2 ^ 63" "length b < 2 ^ 63" using src(2) by simp_all
    then have "redis_new_value v src dst = Some (overlay 0 b v)"
      using redis_new_value_0 [OF whole_carries [OF src(1)] dst(2)] by blast
    moreover have "m i = Some v" using v(1) 1(2) i(2) by simp
    ultimately show ?case
      using set [OF _ v(2)] 1(1) kept_redis(3) [OF v(3) client [OF 1(1)]] dst(1) by (simp add: redis_write_task_def)
  qed (simp add: redis_write_task_def)
  show ?thesis
  proof (rule lin_step, goal_cases)
    case (1 w m')
    then show ?case using get client [OF 1(1)] by (simp add: write_task_def)
  qed (simp add: write_task_def)
qed

lemma lin_Put:
  assumes st: "store_at E c n N P w0 m0" and red: "GetIOClient w0 (d_storage_index (snd (P i))) = Inr REDIS_IO"
    and i: "i \<in> N" "i \<in> W" and adm: "admissible E c i n (Put ix b)"
    and rest: "\<And>m. lin E c n N P W (g Stored) m qs (\<lambda>as. F (Stored # as))"
  shows "lin E c n N P W (task_bind (serve_task E i (Put ix b)) g) m ((i, Put ix b) # qs) F"
proof -
  let ?src = "put_source i b" and ?dst = "target i ix (length b)"
  let ?dst' = "?dst\<lparr>d_id := data_key i, d_position := 0, d_storage_index := d_storage_index (snd (P i))\<rparr>"
  have ix: "ix \<in> fst ` set (STORAGE_SOLUTIONS c)" and len: "length b \<le> n" "of_nat (length b) \<le> MAX_OBJ_SIZE c"
    using adm by simp_all
  let ?wrap = "\<lambda>r :: int res. g (case r of Inr _ \<Rightarrow> Stored | Inl _ \<Rightarrow> Failed)"
  let ?fin = "\<lambda>_ :: unit. Ask_conf (\<lambda>c. Done (Inr (uint (SERVER_COUNT c)) :: int res))"
  have "quiet E c n N P (\<lambda>r. \<exists>z. r = Inr z) (?fin ())" by (intro quiet_conf) (simp add: quiet_done)
  then have fin: "lin E c n N P W (task_bind (?fin ()) ?wrap) m qs (\<lambda>as. F (Stored # as))" for m
    by (rule lin_quiet) (use rest in auto)
  have commit: "lin E c n N P W (task_bind (task_then
      (write_pieces_task [(place ?src ?dst sel)\<lparr>dd_destination_data := ?dst'\<rparr>]) ?fin) ?wrap) m ((i, Put ix b) # qs) F"
    for sel
  proof -
    have "lin E c n N P W (write_task (d_storage_index (snd (P i))) ?src ?dst' f) m ((i, Put ix b) # qs) F"
      if "f (Inr ?src) = task_bind (?fin ()) ?wrap" for f
      by (rule lin_write [OF st red i put_source_whole len(1)]) (use fin that in simp_all)
    then show ?thesis by (simp add: place_def task_then_def)
  qed
  have tail: "lin E c n N P W (task_bind (task_then (orchestrator_store_task E ?dst [place ?src ?dst sel]) (\<lambda>ds.
      task_then (write_pieces_task ds) ?fin)) ?wrap) m ((i, Put ix b) # qs) F" for sel
    unfolding task_then_def [of "orchestrator_store_task _ _ _"] task_bind_assoc
    by (rule lin_quiet [OF quiet_update [OF st i(1) ix len(2)]]) (use commit in simp)
  show ?thesis
  proof (rule lin_step, goal_cases)
    case (1 w m')
    then have "wf_solutions (sols_of w)" "sols_of w \<noteq> []"
      "DATA_DISTRIBUTION_POLICY (w_conf w) \<noteq> DYNAMIC_PROGRAMMING_POLICY"
      by (auto simp: store_at_def system_ok_def)
    then obtain sel x y where "Distribute E w ?src ?dst =
        (Inr [place ?src ?dst sel], w\<lparr>w_rand_calls := x, w_seq_calls := y\<rparr>)"
      by (rule Distribute_places [of w E ?src ?dst])
    then show ?case
      using tail [of sel] store_at_counters [OF 1(1)] by (simp add: store_task_def)
  qed (simp add: store_task_def)
qed

text \<open>The one read of a lookup: what follows it is the answer.\<close>

lemma lin_answer:
  assumes quiet: "quiet E c n N P (\<lambda>r. r = x) t" and last: "\<And>w. \<exists>a. task_step E (f x) w = (Done a, w)"
    and nd: "\<not> is_done (f x)"
    and ans: "\<And>w m. store_at E c n N P w m \<Longrightarrow> run_task E (f x) w = (fst (store_step m r), w) \<and> snd (store_step m r) = m"
    and rest: "\<And>a m. lin E c n N P W (g a) m qs (\<lambda>as. F (a # as))"
  shows "lin E c n N P W (task_bind (task_bind t f) g) m (r # qs) F"
  unfolding task_bind_assoc
proof (rule lin_quiet [OF quiet], simp, rule lin_commit, goal_cases)
  case (1 w m')
  obtain a where a: "task_step E (f x) w = (Done a, w)" using last by blast
  then have "a = fst (store_step m' r)" using run_task_step [of E "f x" w] ans [OF 1(1)] by simp
  then show ?case
    using 1(1) a ans [OF 1(1)] rest nd by (auto simp: task_step_bind)
qed (simp add: nd is_done_bind)

lemma quiet_run:
  "quiet E c n N P Q t \<Longrightarrow> store_at E c n N P w m \<Longrightarrow> Q (fst (run_task E t w))"
proof (induction arbitrary: w rule: quiet.induct)
  case (quiet_done x)
  then show ?case by simp
next
  case (quiet_step t)
  then show ?case using run_task_step [of E t w] by metis
qed

lemma located:
  assumes "store_at E c n N P w m" "i \<in> N" "ix \<in> fst ` set (STORAGE_SOLUTIONS c)"
  shows "Locate E w (target i ix 0) = Inr ([one_piece (snd (P i)) 0], fst (P i))"
  using quiet_run [OF quiet_locate [OF assms, of 0] assms(1)] by simp

text \<open>What a read and a size do after the object is located.\<close>

definition get_rest :: "('r, 'm) env \<Rightarrow> (DataDistribution list \<times> Metadata) res \<Rightarrow> answer task" where
  "get_rest E r =
     task_bind
       (task_then (Done r) (\<lambda>(distributions, primary).
        task_then (read_pieces_task distributions 0) (\<lambda>(pieces, total_size).
        Done (if sint total_size < 0 then Inl Undefined
              else and_then (join_pieces pieces 0 (malloc (e_junk E) (nat (sint total_size)))) (\<lambda>buf.
                     Inr (default_Data\<lparr>d_buffer := Some buf\<rparr>))))))
       (\<lambda>r. Done (case r of Inr d \<Rightarrow> Content (old_bytes (d_buffer d)) | Inl (Thrown _) \<Rightarrow> Missing | Inl _ \<Rightarrow> Failed))"

definition len_rest :: "(DataDistribution list \<times> Metadata) res \<Rightarrow> answer task" where
  "len_rest r =
     task_bind
       (case r of
          Inl (Thrown e) \<Rightarrow> Done (Inr 0)
        | Inl e \<Rightarrow> Done (Inl e)
        | Inr (distributions, _) \<Rightarrow>
            task_then (size_pieces_task distributions 0) (\<lambda>total_size. Done (Inr (scast total_size))))
       (\<lambda>r. Done (case r of Inr k \<Rightarrow> Length k | Inl _ \<Rightarrow> Failed))"

lemma serve_task_rest:
  "serve_task E i (Get ix) = task_bind (locate_task E (target i ix 0)) (get_rest E)"
  "serve_task E i (Len ix) = task_bind (locate_task E (target i ix 0)) len_rest"
  unfolding serve_task.simps server_locate_task_def server_size_task_def get_rest_def [abs_def] len_rest_def [abs_def]
    task_then_def task_bind_assoc task_bind.simps(1)
  by (rule refl)+

lemma rest_steps:
  "\<exists>a. task_step E (get_rest E (Inr ([one_piece l 0], p))) w = (Done a, w)" "\<not> is_done (get_rest E (Inr ([one_piece l 0], p)))"
  "\<exists>a. task_step E (len_rest (Inr ([one_piece l 0], p))) w = (Done a, w)" "\<not> is_done (len_rest (Inr ([one_piece l 0], p)))"
  by (auto simp: get_rest_def len_rest_def task_then_def split: sum.splits prod.splits)

lemma lin_Get:
  assumes st: "store_at E c n N P w0 m0" and i: "i \<in> N" and adm: "admissible E c i n (Get ix)"
    and rest: "\<And>a m. lin E c n N P W (g a) m qs (\<lambda>as. F (a # as))"
  shows "lin E c n N P W (task_bind (serve_task E i (Get ix)) g) m ((i, Get ix) # qs) F"
proof -
  have ix: "ix \<in> fst ` set (STORAGE_SOLUTIONS c)" using adm by simp
  let ?x = "Inr ([one_piece (snd (P i)) 0], fst (P i)) :: (DataDistribution list \<times> Metadata) res"
  show ?thesis
    unfolding serve_task_rest
  proof (rule lin_answer [where f = "get_rest E" and x = ?x])
    fix w m
    assume w: "store_at E c n N P w m"
    have "run_task E (get_rest E ?x) w = serve E i w (Get ix)"
      using run_serve_task [of E i "Get ix" w] located [OF w i ix] unfolding serve_task_rest by simp
    then show "run_task E (get_rest E ?x) w = (fst (store_step m (i, Get ix)), w) \<and> snd (store_step m (i, Get ix)) = m"
      using serve_Get [OF store_at_represents [OF w i] adm] by simp
  qed (use quiet_locate [OF st i ix, of 0] rest in \<open>simp_all add: rest_steps\<close>)
qed

lemma lin_Len:
  assumes st: "store_at E c n N P w0 m0" and i: "i \<in> N" and adm: "admissible E c i n (Len ix)"
    and rest: "\<And>a m. lin E c n N P W (g a) m qs (\<lambda>as. F (a # as))"
  shows "lin E c n N P W (task_bind (serve_task E i (Len ix)) g) m ((i, Len ix) # qs) F"
proof -
  have ix: "ix \<in> fst ` set (STORAGE_SOLUTIONS c)" using adm by simp
  let ?x = "Inr ([one_piece (snd (P i)) 0], fst (P i)) :: (DataDistribution list \<times> Metadata) res"
  show ?thesis
    unfolding serve_task_rest
  proof (rule lin_answer [where f = len_rest and x = ?x])
    fix w m
    assume w: "store_at E c n N P w m"
    have "run_task E (len_rest ?x) w = serve E i w (Len ix)"
      using run_serve_task [of E i "Len ix" w] located [OF w i ix] unfolding serve_task_rest by simp
    then show "run_task E (len_rest ?x) w = (fst (store_step m (i, Len ix)), w) \<and> snd (store_step m (i, Len ix)) = m"
      using serve_Len [OF store_at_represents [OF w i] adm] by simp
  qed (use quiet_locate [OF st i ix, of 0] rest in \<open>simp_all add: rest_steps\<close>)
qed

fun deletes :: "request \<Rightarrow> bool" where
  "deletes (Del ix) = True"
| "deletes q = False"

text \<open>The objects a session overwrites.\<close>

fun overwritten :: "(string \<times> request) list \<Rightarrow> string set" where
  "overwritten [] = {}"
| "overwritten ((i, Put ix b) # qs) = insert i (overwritten qs)"
| "overwritten (r # qs) = overwritten qs"

lemma overwritten_names: "overwritten qs \<subseteq> fst ` set qs"
  by (induction qs rule: overwritten.induct) auto

lemma lin_session:
  assumes "store_at E c n N P w0 m0" "\<And>i. i \<in> W \<Longrightarrow> GetIOClient w0 (d_storage_index (snd (P i))) = Inr REDIS_IO"
  shows "list_all (\<lambda>(i, q). i \<in> N \<and> admissible E c i n q \<and> \<not> deletes q) qs \<Longrightarrow> overwritten qs \<subseteq> W \<Longrightarrow>
    lin E c n N P W (session E qs) m qs (\<lambda>as. as)"
proof (induction qs arbitrary: m)
  case Nil
  show ?case using lin_done [where F = "\<lambda>as. as"] by simp
next
  case (Cons r qs)
  obtain i q where r: "r = (i, q)" by (cases r)
  have i: "i \<in> N" "admissible E c i n q" "\<not> deletes q" using Cons.prems r by simp_all
  have put: "i \<in> W" if "q = Put ix b" for ix b using Cons.prems(2) r that by simp
  have "overwritten qs \<subseteq> W" using Cons.prems(2) r by (cases q) auto
  then have "lin E c n N P W (session E qs) m qs (\<lambda>as. as)" for m using Cons by simp
  then have rest: "lin E c n N P W (task_bind (session E qs) (\<lambda>as. Done (a # as))) m qs (\<lambda>as. a # as)" for a m
    by (rule lin_map)
  show ?case
  proof (cases q)
    case (Put ix b)
    show ?thesis unfolding r session.simps Put
      by (rule lin_Put [OF assms(1) assms(2) [OF put [OF Put]] i(1) put [OF Put]]) (use i(2) Put rest in simp_all)
  next
    case (Get ix)
    show ?thesis unfolding r session.simps Get
      by (rule lin_Get [OF assms(1) i(1)]) (use i(2) Get rest in simp_all)
  next
    case (Len ix)
    show ?thesis unfolding r session.simps Len
      by (rule lin_Len [OF assms(1) i(1)]) (use i(2) Len rest in simp_all)
  next
    case (Del ix)
    then show ?thesis using i(3) by simp
  qed
qed

section \<open>Histories of a pool\<close>

text \<open>A history is the requests in the order they commit, each with the number of its session.\<close>

type_synonym history = "(nat \<times> string \<times> request) list"

definition own :: "nat \<Rightarrow> history \<Rightarrow> (string \<times> request) list" where
  "own j h = map snd (filter (\<lambda>e. fst e = j) h)"

definition history_run :: "(string \<Rightarrow> bytes option) \<Rightarrow> history \<Rightarrow> answer list \<times> (string \<Rightarrow> bytes option)" where
  "history_run m h = service_run store_step m (map snd h)"

definition own_answers :: "nat \<Rightarrow> history \<Rightarrow> answer list \<Rightarrow> answer list" where
  "own_answers j h as = map snd (filter (\<lambda>e. fst e = j) (zip (map fst h) as))"

lemma service_run_append:
  "service_run step w (xs @ ys) =
     (case service_run step w xs of (as, w') \<Rightarrow> (case service_run step w' ys of (bs, w'') \<Rightarrow> (as @ bs, w'')))"
  by (induction xs arbitrary: w) (simp_all split: prod.splits)

lemma service_run_length [simp]: "length (fst (service_run step w xs)) = length xs"
  by (induction xs arbitrary: w) (simp_all add: split_beta)

lemma history_run_snoc:
  "history_run m (h @ [(j, r)]) =
     (fst (history_run m h) @ [fst (store_step (snd (history_run m h)) r)], snd (store_step (snd (history_run m h)) r))"
  by (simp add: history_run_def service_run_append split_beta del: store_step.simps)

lemma own_snoc: "own j (h @ [(k, r)]) = (if k = j then own j h @ [r] else own j h)"
  by (simp add: own_def)

lemma own_answers_snoc:
  "length as = length h \<Longrightarrow>
   own_answers j (h @ [(k, r)]) (as @ [a]) = (if k = j then own_answers j h as @ [a] else own_answers j h as)"
  by (simp add: own_answers_def)

definition pool_lin ::
  "('r, 'm) env \<Rightarrow> conf \<Rightarrow> nat \<Rightarrow> string set \<Rightarrow> (string \<Rightarrow> Metadata \<times> Data) \<Rightarrow> (string \<times> request) list list \<Rightarrow>
   (string \<Rightarrow> bytes option) \<Rightarrow> history \<Rightarrow> answer list task list \<Rightarrow> ('r, 'm) world \<Rightarrow> bool" where
  "pool_lin E c n N P qss m h ts w \<longleftrightarrow>
     length ts = length qss \<and> store_at E c n N P w (snd (history_run m h)) \<and> (\<forall>e \<in> set h. fst e < length qss) \<and>
     (\<forall>j < length qss. \<exists>rest. qss ! j = own j h @ rest \<and>
        lin E c n N P (overwritten (qss ! j)) (ts ! j) (snd (history_run m h)) rest
          (\<lambda>as. own_answers j h (fst (history_run m h)) @ as))"

lemma pool_lin_commit:
  assumes inv: "pool_lin E c n N P qss m h ts w" and i: "i < length qss" "qss ! i = own i h @ r # rest"
    and apart: "apart (length qss) (\<lambda>j. overwritten (qss ! j))"
    and step: "store_at E c n N P w' (snd (store_step (snd (history_run m h)) r))"
      "\<forall>k. k \<notin> overwritten (qss ! i) \<longrightarrow> snd (store_step (snd (history_run m h)) r) k = snd (history_run m h) k"
      "lin E c n N P (overwritten (qss ! i)) t' (snd (store_step (snd (history_run m h)) r)) rest
        (\<lambda>as. own_answers i h (fst (history_run m h)) @ (fst (store_step (snd (history_run m h)) r) # as))"
  shows "pool_lin E c n N P qss m (h @ [(i, r)]) (ts[i := t']) w'"
proof -
  let ?m = "snd (history_run m h)" and ?as = "fst (history_run m h)" and ?h = "h @ [(i, r)]"
  have len: "length ?as = length h" "length ts = length qss" using inv by (simp_all add: history_run_def pool_lin_def)
  have "\<exists>rest. qss ! j = own j ?h @ rest \<and> lin E c n N P (overwritten (qss ! j)) (ts[i := t'] ! j)
      (snd (history_run m ?h)) rest (\<lambda>as. own_answers j ?h (fst (history_run m ?h)) @ as)" if j: "j < length qss" for j
  proof (cases "j = i")
    case True
    then show ?thesis
      using i step(3) len
      by (intro exI [of _ rest]) (simp add: history_run_snoc own_snoc own_answers_snoc del: store_step.simps)
  next
    case False
    obtain rs where rs: "qss ! j = own j h @ rs"
      "lin E c n N P (overwritten (qss ! j)) (ts ! j) ?m rs (\<lambda>as. own_answers j h ?as @ as)"
      using inv j by (auto simp: pool_lin_def)
    have "overwritten (qss ! i) \<inter> overwritten (qss ! j) = {}" using apart i(1) j False by (auto simp: apart_def)
    then have "\<forall>k \<in> overwritten (qss ! j). snd (store_step ?m r) k = ?m k" using step(2) by blast
    from lin_agree [OF rs(2) this] show ?thesis
      using rs(1) False len
      by (intro exI [of _ rs]) (simp add: history_run_snoc own_snoc own_answers_snoc del: store_step.simps)
  qed
  then show ?thesis
    using inv i(1) step(1) len(2) by (auto simp: pool_lin_def history_run_snoc simp del: store_step.simps)
qed

lemma pool_lin_step:
  assumes inv: "pool_lin E c n N P qss m h ts w" and i: "i < length ts"
    and apart: "apart (length qss) (\<lambda>j. overwritten (qss ! j))"
  shows "\<exists>h'. pool_lin E c n N P qss m h' (ts[i := fst (task_step E (ts ! i) w)]) (snd (task_step E (ts ! i) w))"
proof (cases "is_done (ts ! i)")
  case True
  then obtain x where "ts ! i = Done x" by (auto simp: is_done_iff)
  moreover from this have "ts[i := Done x] = ts" by (metis list_update_id)
  ultimately show ?thesis using inv by auto
next
  case False
  let ?m = "snd (history_run m h)" and ?as = "fst (history_run m h)" and ?W = "overwritten (qss ! i)"
  obtain t' w' where step: "task_step E (ts ! i) w = (t', w')" by fastforce
  have i': "i < length qss" using inv i by (simp add: pool_lin_def)
  obtain rest where rest: "qss ! i = own i h @ rest"
    "lin E c n N P ?W (ts ! i) ?m rest (\<lambda>as. own_answers i h ?as @ as)"
    using inv i' by (auto simp: pool_lin_def)
  have st: "store_at E c n N P w ?m" using inv by (simp add: pool_lin_def)
  from lin_next [OF rest(2) st False] step consider
      (silent) "store_at E c n N P w' ?m" "lin E c n N P ?W t' ?m rest (\<lambda>as. own_answers i h ?as @ as)"
    | (commit) r rest' where "rest = r # rest'" "store_at E c n N P w' (snd (store_step ?m r))"
      "\<forall>k. k \<notin> ?W \<longrightarrow> snd (store_step ?m r) k = ?m k"
      "lin E c n N P ?W t' (snd (store_step ?m r)) rest' (\<lambda>as. own_answers i h ?as @ (fst (store_step ?m r) # as))"
    by (auto simp del: store_step.simps)
  then show ?thesis
  proof cases
    case silent
    then have "pool_lin E c n N P qss m h (ts[i := t']) w'"
      using inv rest(1) i by (auto simp: pool_lin_def nth_list_update)
    then show ?thesis using step by auto
  next
    case (commit r rest')
    then show ?thesis using pool_lin_commit [OF inv i' _ apart commit(2-4)] rest(1) step by auto
  qed
qed

lemma pool_lin_run:
  "pool_lin E c n N P qss m h ts w \<Longrightarrow> apart (length qss) (\<lambda>j. overwritten (qss ! j)) \<Longrightarrow>
   pool_run E sched ts w = (ts', w') \<Longrightarrow> \<exists>h'. pool_lin E c n N P qss m h' ts' w'"
proof (induction E sched ts w arbitrary: h rule: pool_run.induct)
  case (1 E ts w)
  then show ?case by auto
next
  case (2 E i sched ts w)
  show ?case
  proof (cases "i < length ts")
    case True
    obtain t v where step: "task_step E (ts ! i) w = (t, v)" by fastforce
    obtain h' where "pool_lin E c n N P qss m h' (ts[i := t]) v"
      using pool_lin_step [OF 2(3) True 2(4)] step by auto
    then show ?thesis using 2(1) [OF True step [symmetric]] 2(4,5) True step by auto
  next
    case False
    then show ?thesis using 2(2) [OF False 2(3,4)] 2(5) by simp
  qed
qed

text \<open>A new object's data goes where it is placed.\<close>

lemma created_at:
  assumes rep: "represents E c i n w None" and adm: "admissible E c i n (Put ix b)"
    and sel: "fst (Distribute E w (put_source i b) (target i ix (length b))) =
      Inr [place (put_source i b) (target i ix (length b)) sel]" "GetIOClient w sel = Inr t"
  shows "represents E c i n (snd (serve E i w (Put ix b))) (Some b)"
    "client_obj E t (snd (serve E i w (Put ix b))) (data_key i) = Some b"
proof -
  let ?dst = "target i ix (length b)"
  have sys: "system_ok E w" "w_conf w = c" and abs: "absent E w i n" using rep by (simp_all add: represents_def)
  have ix: "d_storage_index ?dst \<in> fst ` set (sols_of w)" and len: "length b \<le> n"
    using adm sys(2) by (simp_all add: sols_of_def)
  have packs: "packs_within E (meta_key i) (fresh_meta ?dst s) n" if "s \<in> fst ` set (sols_of w)" for s
    using adm that sys(2) by (auto simp: sols_of_def list_all_iff)
  obtain e where e: "Locate E w ?dst = Inl (Thrown e)"
    by (rule absent_Locate [OF sys(1) ix, of n]) (use abs in simp_all)
  obtain w' s' t' where w': "Server_Store E w (put_source i b) ?dst = (Inr (uint (SERVER_COUNT (w_conf w))), w')"
    "fst (Distribute E w (put_source i b) ?dst) = Inr [place (put_source i b) ?dst s']"
    "GetIOClient w s' = Inr t'" "client_obj E t' w' (data_key i) = Some b"
    using Server_Store_publishes [OF sys(1) put_source_whole [of i b] _ len ix e] abs packs
    by (fastforce simp: absent_def)
  have "Data.d_storage_index (dd_destination_data (place (put_source i b) ?dst s')) =
      Data.d_storage_index (dd_destination_data (place (put_source i b) ?dst sel))"
    using w'(2) sel(1) by simp
  then have "s' = sel" by (simp add: place_def)
  then have "client_obj E t w' (data_key i) = Some b" using w'(3,4) sel(2) by simp
  then show "client_obj E t (snd (serve E i w (Put ix b))) (data_key i) = Some b" using w'(1) by simp
  show "represents E c i n (snd (serve E i w (Put ix b))) (Some b)"
    using serve_Put [OF rep adm] by (metis overlay_0 old_bytes_simps(1) snd_conv drop_Nil append_Nil2)
qed

text \<open>The reference system with one object in Redis.\<close>

definition redis_world :: "(string \<rightharpoonup> bytes, (string \<times> bytes) list) world" where
  "redis_world = snd (serve (ref_env (\<lambda>k. k + 1)) ''x'' (ref_world RANDOM_POLICY) (Put 0 ''hello''))"

lemma redis_world:
  "represents (ref_env (\<lambda>k. k + 1)) (ref_conf RANDOM_POLICY) ''x'' 1000 redis_world (Some ''hello'')"
  "client_obj (ref_env (\<lambda>k. k + 1)) REDIS_IO redis_world (data_key ''x'') = Some ''hello''"
proof -
  let ?E = "ref_env (\<lambda>k. k + 1)" and ?c = "ref_conf RANDOM_POLICY" and ?w = "ref_world RANDOM_POLICY"
  have rep: "represents ?E ?c ''x'' 1000 ?w None" by (rule ref_represents) simp_all
  have adm: "admissible ?E ?c ''x'' 1000 (Put 0 ''hello'')" by code_simp
  have sel: "fst (Distribute ?E ?w src dst) = Inr [place src dst 1]" for src dst
    by (simp add: Distribute_def RandomDDE_Distribute_def Let_def touch_solution_def ref_env_def ref_world_def
        ref_conf_def ConfigurationManager_def)
  have "GetIOClient ?w 1 = Inr REDIS_IO"
    by (simp add: GetIOClient_def ref_world_def ref_conf_def ConfigurationManager_def)
  note created = created_at [OF rep adm sel this]
  show "represents ?E ?c ''x'' 1000 redis_world (Some ''hello'')"
    "client_obj ?E REDIS_IO redis_world (data_key ''x'') = Some ''hello''"
    unfolding redis_world_def using created by blast+
qed



end
