(* ===== verification/Lost_Updates.thy ===== *)
theory Lost_Updates
  imports Races Linearization
begin

text \<open>
  Two interleavings that show why the conditions of \<open>Linearization\<close> are there. The Redis client
  updates an object with a \<^verbatim>\<open>get\<close> and a \<^verbatim>\<open>set\<close>: of two updates at the same time one is lost, although both
  clients are told that their data is stored. The MongoDB client deletes the old document before it
  inserts the new one: a reader in between is told that the object does not exist.
\<close>

section \<open>An update up to its write\<close>

lemma quiet_world:
  "quiet E c n N P Q t \<Longrightarrow> store_at E c n N P w m \<Longrightarrow> store_at E c n N P (snd (run_task E t w)) m"
proof (induction arbitrary: w rule: quiet.induct)
  case (quiet_done x)
  then show ?case by simp
next
  case (quiet_step t)
  then show ?case using run_task_step [of E t w] by metis
qed

lemma quiet_leads:
  assumes "quiet E c n N P (\<lambda>r. r = x) t" "store_at E c n N P w m"
  obtains w' where "leads E (task_bind t g) w (g x) w'" "store_at E c n N P w' m"
proof -
  have "fst (run_task E t w) = x" using quiet_run [OF assms] .
  then show ?thesis using that leads_bind [OF leads_run [of E t w], of g] quiet_world [OF assms] by simp
qed

definition update_target ::
  "(string \<Rightarrow> Metadata \<times> Data) \<Rightarrow> string \<Rightarrow> uint16 \<Rightarrow> bytes \<Rightarrow> Data" where
  "update_target P i ix b = (target i ix (length b))\<lparr>d_id := data_key i, d_position := 0,
     d_storage_index := d_storage_index (snd (P i))\<rparr>"

definition update_done :: "bytes \<Rightarrow> string \<Rightarrow> (Data res \<Rightarrow> answer task) \<Rightarrow> bool" where
  "update_done b i f \<longleftrightarrow> f (Inr (put_source i b)) = Ask_conf (\<lambda>c. Done Stored)"

lemma update_called:
  assumes st: "store_at E c n N P w m" and i: "i \<in> N" and adm: "admissible E c i n (Put ix b)"
  obtains w1 f where "leads E (serve_task E i (Put ix b)) w
      (write_task (d_storage_index (snd (P i))) (put_source i b) (update_target P i ix b) f) w1"
    "store_at E c n N P w1 m" "update_done b i f"
proof -
  let ?src = "put_source i b" and ?dst = "target i ix (length b)"
  have ix: "ix \<in> fst ` set (STORAGE_SOLUTIONS c)" and len: "of_nat (length b) \<le> MAX_OBJ_SIZE c"
    using adm by simp_all
  have "wf_solutions (sols_of w)" "sols_of w \<noteq> []" "DATA_DISTRIBUTION_POLICY (w_conf w) \<noteq> DYNAMIC_PROGRAMMING_POLICY"
    using st by (auto simp: store_at_def system_ok_def)
  then obtain sel x y where dist: "Distribute E w ?src ?dst =
      (Inr [place ?src ?dst sel], w\<lparr>w_rand_calls := x, w_seq_calls := y\<rparr>)"
    by (rule Distribute_places [of w E ?src ?dst])
  let ?fin = "\<lambda>_ :: unit. Ask_conf (\<lambda>c. Done (Inr (uint (SERVER_COUNT c)) :: int res))"
  let ?wrap = "\<lambda>r :: int res. Done (case r of Inr _ \<Rightarrow> Stored | Inl _ \<Rightarrow> Failed)"
  let ?g = "\<lambda>r. task_bind (case r of Inl e \<Rightarrow> Done (Inl e) | Inr ds \<Rightarrow> task_then (write_pieces_task ds) ?fin) ?wrap"
  let ?f = "\<lambda>r :: Data res. task_bind (case r of Inl e \<Rightarrow> Done (Inl e) | Inr _ \<Rightarrow> ?fin ()) ?wrap"
  obtain w1 where w1: "leads E (task_bind (orchestrator_store_task E ?dst [place ?src ?dst sel]) ?g)
      (w\<lparr>w_rand_calls := x, w_seq_calls := y\<rparr>)
      (?g (Inr [(place ?src ?dst sel)\<lparr>dd_destination_data := update_target P i ix b\<rparr>])) w1" "store_at E c n N P w1 m"
    unfolding update_target_def
    by (rule quiet_leads [OF quiet_update [OF st i ix len, where src = ?src and sel = sel]
          store_at_counters [OF st, where x = x and y = y], where g = ?g])
  have "?g (Inr [(place ?src ?dst sel)\<lparr>dd_destination_data := update_target P i ix b\<rparr>]) =
      write_task (d_storage_index (snd (P i))) ?src (update_target P i ix b) ?f"
  proof -
    have "(\<lambda>r. task_bind (case r of Inl e \<Rightarrow> Done (Inl e) | Inr _ \<Rightarrow> Done (Inr ())) (\<lambda>r. task_bind (case r of
        Inl e \<Rightarrow> Done (Inl e) | Inr u \<Rightarrow> ?fin u) ?wrap)) = ?f"
      by (auto simp: fun_eq_iff split: sum.splits)
    then show ?thesis by (simp add: place_def update_target_def task_then_def)
  qed
  moreover have "leads E (serve_task E i (Put ix b)) w
      (?g (Inr [(place ?src ?dst sel)\<lparr>dd_destination_data := update_target P i ix b\<rparr>])) w1"
    by (rule leads_step) (use w1(1) [unfolded task_then_def] dist in \<open>simp add: store_task_def task_then_def\<close>)
  moreover have "update_done b i ?f" by (simp add: update_done_def)
  ultimately show ?thesis using that w1(2) by simp
qed

lemma update_finished: "update_done b i f \<Longrightarrow> leads E (f (Inr (put_source i b))) w (Done Stored) w"
  by (rule leads_step) (simp add: update_done_def leads_refl)

section \<open>Two updates through Redis\<close>

text \<open>The old value is read; the new one is still to be set.\<close>

lemma redis_update_half:
  assumes st: "store_at E c n N P w m" and i: "i \<in> N" "m i = Some v" and adm: "admissible E c i n (Put ix b)"
    and red: "GetIOClient w (d_storage_index (snd (P i))) = Inr REDIS_IO"
  obtains w1 f where
    "leads E (serve_task E i (Put ix b)) w (redis_put_task (data_key i) (overlay 0 b v) (put_source i b) f) w1"
    "store_at E c n N P w1 m" "update_done b i f"
proof -
  let ?dst = "update_target P i ix b"
  obtain w1 f where w1: "leads E (serve_task E i (Put ix b)) w
      (write_task (d_storage_index (snd (P i))) (put_source i b) ?dst f) w1"
    "store_at E c n N P w1 m" "update_done b i f"
    by (rule update_called [OF st i(1) adm])
  have client: "GetIOClient w1 (d_storage_index (snd (P i))) = Inr REDIS_IO"
    using store_at_client [OF st w1(2)] red by simp
  from w1(2) i(1) obtain u where u: "m i = Some u" "length u \<le> n" "kept E w1 i n (P i) u" "n < 2 ^ 31"
    by (rule store_atD)
  have "length b \<le> n" using adm by simp
  then have "redis_new_value v (put_source i b) ?dst = Some (overlay 0 b v)"
    using u i(2) redis_new_value_0 [OF whole_carries [OF put_source_whole [of i b]], of ?dst v]
    by (simp add: update_target_def)
  then have "leads E (write_task (d_storage_index (snd (P i))) (put_source i b) ?dst f) w1
      (redis_put_task (data_key i) (overlay 0 b v) (put_source i b) f) w1"
    using client kept_redis(3) [OF u(3) client] u(1) i(2)
    by - (rule leads_step, rule leads_step,
        simp add: write_task_def redis_write_task_def update_target_def leads_refl)
  then show ?thesis using that w1 leads_trans by blast
qed

lemma redis_update_rest:
  assumes "store_at E c n N P w m" "i \<in> N" "length x \<le> n" "update_done b i f"
    and "GetIOClient w (d_storage_index (snd (P i))) = Inr REDIS_IO"
  obtains w' where "leads E (redis_put_task (data_key i) x (put_source i b) f) w (Done Stored) w'"
    "store_at E c n N P w' (m(i \<mapsto> x))"
proof -
  obtain w' where w': "world_set E w (data_key i) x = (Inr True, w')" "store_at E c n N P w' (m(i \<mapsto> x))"
    by (rule store_at_set [OF assms(1-3,5)])
  then have "leads E (redis_put_task (data_key i) x (put_source i b) f) w (Done Stored) w'"
    using update_finished [OF assms(4), of E w'] by - (rule leads_step, simp add: redis_put_task_def)
  then show ?thesis using that w'(2) by blast
qed

text \<open>
  Lost update. Two clients overwrite the front of the same object, whose data is in Redis. There is an
  interleaving after which both have been told that the data is stored and the object is the old one
  with the first client's bytes only: the second client's bytes are gone, also those that the first
  client did not write.
\<close>

theorem concurrent_updates_lose_write:
  assumes rep: "represents E c i n w (Some v)" and red: "client_obj E REDIS_IO w (data_key i) \<noteq> None"
    and adm: "admissible E c i n (Put ix a)" "admissible E c i n (Put jx b)"
  shows "\<exists>sched w'. pool_run E sched [serve_task E i (Put ix a), serve_task E i (Put jx b)] w =
      ([Done Stored, Done Stored], w') \<and> represents E c i n w' (Some (overlay 0 a v))"
proof -
  let ?ta = "serve_task E i (Put ix a)" and ?tb = "serve_task E i (Put jx b)" and ?m = "\<lambda>j. Some v"
  obtain P where st: "store_at E c n {i} P w ?m" by (rule store_at_intro [of "{i}" E c n w ?m]) (use rep in auto)
  then obtain u where "kept E w i n (P i) u" by (rule store_atD [where i = i]) auto
  then have client: "GetIOClient w (d_storage_index (snd (P i))) = Inr REDIS_IO" using red by (rule kept_client)
  have same: "GetIOClient w' (d_storage_index (snd (P i))) = Inr REDIS_IO" if "store_at E c n {i} P w' m'" for w' m'
    using store_at_client [OF st that] client by simp
  have len: "length v \<le> n" "length a \<le> n" "length b \<le> n" using rep adm by (simp_all add: represents_def)
  obtain w1 f where a1: "leads E ?ta w (redis_put_task (data_key i) (overlay 0 a v) (put_source i a) f) w1"
    "store_at E c n {i} P w1 ?m" "update_done a i f"
    by (rule redis_update_half [OF st _ _ adm(1) client]) auto
  let ?ta' = "redis_put_task (data_key i) (overlay 0 a v) (put_source i a) f"
  obtain w2 g where b1: "leads E ?tb w1 (redis_put_task (data_key i) (overlay 0 b v) (put_source i b) g) w2"
    "store_at E c n {i} P w2 ?m" "update_done b i g"
    by (rule redis_update_half [OF a1(2) _ _ adm(2) same [OF a1(2)]]) auto
  obtain w3 where b2: "leads E (redis_put_task (data_key i) (overlay 0 b v) (put_source i b) g) w2 (Done Stored) w3"
    "store_at E c n {i} P w3 (?m(i \<mapsto> overlay 0 b v))"
    by (rule redis_update_rest [OF b1(2) _ _ b1(3) same [OF b1(2)], where x = "overlay 0 b v"]) (use len in \<open>auto simp: length_overlay\<close>)
  obtain w4 where a2: "leads E ?ta' w3 (Done Stored) w4"
    "store_at E c n {i} P w4 (?m(i \<mapsto> overlay 0 b v, i \<mapsto> overlay 0 a v))"
    by (rule redis_update_rest [OF b2(2) _ _ a1(3) same [OF b2(2)], where x = "overlay 0 a v"]) (use len in \<open>auto simp: length_overlay\<close>)
  have "\<exists>sched. pool_run E sched [?ta, ?tb] w = ([Done Stored, Done Stored], w4)"
    by (rule preempted [OF a1(1) leads_trans [OF b1(1) b2(1)] a2(1)])
  moreover have "represents E c i n w4 (Some (overlay 0 a v))"
    using store_at_represents [OF a2(2), of i] by simp
  ultimately show ?thesis by blast
qed

theorem concurrent_updates_lose_write_witness:
  "\<exists>sched w'. pool_run (ref_env (\<lambda>k. k + 1)) sched
      [serve_task (ref_env (\<lambda>k. k + 1)) ''x'' (Put 0 ''HE''), serve_task (ref_env (\<lambda>k. k + 1)) ''x'' (Put 2 ''world'')]
      redis_world = ([Done Stored, Done Stored], w') \<and>
    represents (ref_env (\<lambda>k. k + 1)) (ref_conf RANDOM_POLICY) ''x'' 1000 w' (Some ''HEllo'')"
proof -
  let ?E = "ref_env (\<lambda>k. k + 1)" and ?c = "ref_conf RANDOM_POLICY"
  have adm: "admissible ?E ?c ''x'' 1000 (Put 0 ''HE'')" "admissible ?E ?c ''x'' 1000 (Put 2 ''world'')"
    by code_simp+
  have "client_obj ?E REDIS_IO redis_world (data_key ''x'') \<noteq> None"
    using redis_world(2) by (simp del: client_obj.simps)
  from concurrent_updates_lose_write [OF redis_world(1) this adm] show ?thesis by (simp add: overlay_0)
qed


section \<open>A read during an update through MongoDB\<close>

text \<open>The old document is deleted; the new one is still to be inserted.\<close>

definition hidden ::
  "('r, 'm) env \<Rightarrow> string \<Rightarrow> ('r, 'm) world \<Rightarrow> ('r, 'm) world \<Rightarrow> bool" where
  "hidden E i w' w \<longleftrightarrow>
     serves_like E w' w \<and> client_obj E MONGO_IO w' = (client_obj E MONGO_IO w)(data_key i := None) \<and>
     (\<forall>t. t \<noteq> MONGO_IO \<longrightarrow> client_obj E t w' = client_obj E t w)"

lemma kept_mongo:
  assumes "kept E w i n p v" "GetIOClient w (d_storage_index (snd p)) = Inr MONGO_IO"
  shows "mongo_ok (e_mongo E)" "n \<le> mongo_max" "length (data_key i) \<le> 4096"
  using kept_obj(3,4) [OF assms] by (simp_all add: mongo_up_def mongo_fits_def)

lemma mongo_update_half:
  assumes st: "store_at E c n N P w m" and i: "i \<in> N" "m i = Some v" and adm: "admissible E c i n (Put ix b)"
    and mon: "GetIOClient w (d_storage_index (snd (P i))) = Inr MONGO_IO"
  obtains w1 w2 f where
    "leads E (serve_task E i (Put ix b)) w (mongo_insert_task (data_key i) (overlay 0 b v) (put_source i b) f) w2"
    "store_at E c n N P w1 m" "hidden E i w2 w1" "update_done b i f"
proof -
  let ?dst = "update_target P i ix b"
  obtain w1 f where w1: "leads E (serve_task E i (Put ix b)) w
      (write_task (d_storage_index (snd (P i))) (put_source i b) ?dst f) w1"
    "store_at E c n N P w1 m" "update_done b i f"
    by (rule update_called [OF st i(1) adm])
  have client: "GetIOClient w1 (d_storage_index (snd (P i))) = Inr MONGO_IO"
    using store_at_client [OF st w1(2)] mon by simp
  from w1(2) i(1) obtain u where u: "m i = Some u" "length u \<le> n" "kept E w1 i n (P i) u" "n < 2 ^ 31"
    by (rule store_atD)
  note ok = kept_mongo [OF u(3) client]
  have uv: "u = v" and obj: "client_obj E MONGO_IO w1 (data_key i) = Some v"
    using u(1) i(2) kept_obj(1) [OF u(3) client] by simp_all
  then have "world_find E w1 (data_key i) = Inr (mongo_doc v (data_key i))"
    using world_find_ok [OF ok(1), of w1 "data_key i"] u(2,4) by simp
  moreover have "length b \<le> n" using adm by simp
  then have "mongo_new_value (mongo_doc v (data_key i)) (put_source i b) ?dst = Some (overlay 0 b v)"
    using u(2,4) uv mongo_new_value_0 [OF whole_carries [OF put_source_whole [of i b]], of ?dst v]
    by (simp add: update_target_def)
  moreover obtain w2 where w2: "world_delete E w1 (data_key i) = (Inr (), w2)" "serves_like E w2 w1"
    "client_obj E MONGO_IO w2 = (client_obj E MONGO_IO w1)(data_key i := None)"
    "\<And>t. t \<noteq> MONGO_IO \<Longrightarrow> client_obj E t w2 = client_obj E t w1"
    by (rule world_delete_ok [OF ok(1), of w1 "data_key i"]) blast
  moreover have "(put_source i b)\<lparr>d_position := 0\<rparr> = put_source i b"
    using put_source_whole [of i b] by (simp add: whole_def)
  ultimately have "leads E (write_task (d_storage_index (snd (P i))) (put_source i b) ?dst f) w1
      (mongo_insert_task (data_key i) (overlay 0 b v) (put_source i b) f) w2"
    using client
    by - (rule leads_step, rule leads_step, rule leads_step,
        simp add: write_task_def mongo_write_task_def update_target_def leads_refl)
  moreover have "hidden E i w2 w1" using w2 by (simp add: hidden_def del: client_obj.simps)
  ultimately show ?thesis using that w1 leads_trans by blast
qed

lemma hidden_Get:
  assumes st: "store_at E c n N P w m" and i: "i \<in> N" and adm: "admissible E c i n (Get ix)"
    and mon: "GetIOClient w (d_storage_index (snd (P i))) = Inr MONGO_IO" and hid: "hidden E i w' w"
  shows "serve E i w' (Get ix) = (Missing, w')"
proof -
  let ?meta = "fst (P i)" and ?link = "snd (P i)" and ?r = "target i ix 0"
  have like: "serves_like E w' w" using hid by (simp add: hidden_def)
  have meta: "client_obj E t w' (meta_key i) = client_obj E t w (meta_key i)" for t
    using hid by (cases "t = MONGO_IO") (simp_all add: hidden_def del: client_obj.simps)
  from st i obtain v where k: "kept E w i n (P i) v" "system_ok E w" "w_conf w = c" by (rule store_atD)
  then have wf: "wf_Metadata ?meta" "m_links ?meta = [(0, ?link)]" "d_id ?link = data_key i"
    and pub: "published E w' (meta_key i) ?meta" "key_ready E w' (meta_key i) n"
    using published_frame [OF like meta] key_ready_frame [OF like meta] by (simp_all add: kept_def)
  have sys: "system_ok E w'" and conf: "w_conf w' = c" "GetIOClient w' = GetIOClient w"
    using system_ok_like [OF like k(2)] serves_like_GetIOClient [OF like] like k(3) by (simp_all add: serves_like_def)
  have ix: "ix \<in> fst ` set (sols_of w')" using adm conf(1) by (simp add: sols_of_def)
  have "read_primary E w' ?r = Inr ?meta"
    using published_read [of E ?meta w' ?r n] sys wf(1) pub ix by (simp add: system_ok_def meta_id_key)
  moreover have "segment_request (MAX_OBJ_SIZE c) ?r ?meta = Inr [one_piece ?link 0]"
    using segment_request_one [of "MAX_OBJ_SIZE c" ?meta ?link ?r 0] wf(2) sys conf(1) by (simp add: system_ok_def)
  ultimately have loc: "Locate E w' ?r = Inr ([one_piece ?link 0], ?meta)" using conf(1) by (simp add: Locate_def)
  let ?piece = "?link\<lparr>d_position := 0, d_data_size := 0\<rparr>"
  have "client_up E MONGO_IO w' (data_key i)" "client_obj E MONGO_IO w' (data_key i) = None"
    using kept_obj(3) [OF k(1) mon] like hid
    by (simp_all add: serves_like_def hidden_def del: client_obj.simps client_up.simps)
  then have "Io_Read E w' (d_storage_index ?link) ?piece ?piece = Inl (Thrown READ_MONGODB_DATA_FAILED)"
    using client_Read_absent [of E MONGO_IO w' ?piece ?piece] mon conf(2) wf(3)
    by (simp add: Io_Read_def del: client_obj.simps client_up.simps client_Read.simps)
  then show ?thesis using loc by (simp add: Server_Locate_def one_piece_def)
qed

lemma mongo_update_rest:
  assumes st: "store_at E c n N P w m" and i: "i \<in> N" and x: "length x \<le> n" and f: "update_done b i f"
    and mon: "GetIOClient w (d_storage_index (snd (P i))) = Inr MONGO_IO" and hid: "hidden E i w' w"
  obtains w'' where "leads E (mongo_insert_task (data_key i) x (put_source i b) f) w' (Done Stored) w''"
    "store_at E c n N P w'' (m(i \<mapsto> x))"
proof -
  from st i obtain v where "kept E w i n (P i) v" by (rule store_atD)
  note ok = kept_mongo [OF this mon]
  have "client_obj E MONGO_IO w' (data_key i) = None" using hid by (simp add: hidden_def del: client_obj.simps)
  moreover have "bson_fits (data_key i) x" using ok(2,3) x by (intro mongo_fits_bson) simp_all
  ultimately obtain w'' where w'': "world_insert E w' (data_key i) x = (Inr (Some ()), w'')" "serves_like E w'' w'"
    "client_obj E MONGO_IO w'' = (client_obj E MONGO_IO w')(data_key i \<mapsto> x)"
    "\<And>t. t \<noteq> MONGO_IO \<Longrightarrow> client_obj E t w'' = client_obj E t w'"
    by (rule world_insert_ok [OF ok(1)]) blast
  have "store_at E c n N P w'' (m(i \<mapsto> x))"
    by (rule store_at_change [OF st i x mon])
      (use hid w'' serves_like_trans in \<open>auto simp: hidden_def simp del: client_obj.simps\<close>)
  moreover have "leads E (mongo_insert_task (data_key i) x (put_source i b) f) w' (Done Stored) w''"
    using update_finished [OF f, of E w''] w''(1) by - (rule leads_step, simp add: mongo_insert_task_def)
  ultimately show ?thesis using that by blast
qed

text \<open>
  A client that reads an object in MongoDB while another client updates it can be told that the
  object does not exist, although it existed before and exists after.
\<close>

theorem mongo_update_hides:
  assumes rep: "represents E c i n w (Some v)" and mon: "client_obj E MONGO_IO w (data_key i) \<noteq> None"
    and adm: "admissible E c i n (Put ix b)" "admissible E c i n (Get jx)"
  shows "\<exists>sched w'. pool_run E sched [serve_task E i (Put ix b), serve_task E i (Get jx)] w =
      ([Done Stored, Done Missing], w') \<and> represents E c i n w' (Some (overlay 0 b v))"
proof -
  let ?ta = "serve_task E i (Put ix b)" and ?tb = "serve_task E i (Get jx)" and ?m = "\<lambda>j. Some v"
  obtain P where st: "store_at E c n {i} P w ?m" by (rule store_at_intro [of "{i}" E c n w ?m]) (use rep in auto)
  then obtain u where "kept E w i n (P i) u" by (rule store_atD [where i = i]) auto
  then have client: "GetIOClient w (d_storage_index (snd (P i))) = Inr MONGO_IO" using mon by (rule kept_client)
  have len: "length (overlay 0 b v) \<le> n" using rep adm by (simp add: represents_def length_overlay)
  obtain w1 w2 f where a1: "leads E ?ta w (mongo_insert_task (data_key i) (overlay 0 b v) (put_source i b) f) w2"
    "store_at E c n {i} P w1 ?m" "hidden E i w2 w1" "update_done b i f"
    by (rule mongo_update_half [OF st _ _ adm(1) client]) auto
  let ?ta' = "mongo_insert_task (data_key i) (overlay 0 b v) (put_source i b) f"
  have client1: "GetIOClient w1 (d_storage_index (snd (P i))) = Inr MONGO_IO"
    using store_at_client [OF st a1(2)] client by simp
  have "run_task E ?tb w2 = (Missing, w2)" using hidden_Get [OF a1(2) _ adm(2) client1 a1(3)] run_serve_task by auto
  then have b: "leads E ?tb w2 (Done Missing) w2" using leads_run [of E ?tb w2] by (simp del: serve_task.simps)
  obtain w3 where a2: "leads E ?ta' w2 (Done Stored) w3" "store_at E c n {i} P w3 (?m(i \<mapsto> overlay 0 b v))"
    by (rule mongo_update_rest [OF a1(2) _ len a1(4) client1 a1(3)]) auto
  have "\<exists>sched. pool_run E sched [?ta, ?tb] w = ([Done Stored, Done Missing], w3)"
    by (rule preempted [OF a1(1) b a2(1)])
  moreover have "represents E c i n w3 (Some (overlay 0 b v))" using store_at_represents [OF a2(2), of i] by simp
  ultimately show ?thesis by blast
qed

end
