(* ===== verification/Segmentation.thy ===== *)
theory Segmentation
  imports Metadata_Orchestrator
begin

text \<open>
  The segment arithmetic of \<^verbatim>\<open>MetadataOrchestrator::Locate\<close> against its specification: byte
  \<open>x\<close> of an object lives in segment \<open>x div MAX_OBJ_SIZE\<close> at offset \<open>x mod MAX_OBJ_SIZE\<close>.
\<close>

text \<open>The bytes a piece asks its storage for: the object's name and the offsets in it.\<close>

definition piece_bytes :: "DataDistribution \<Rightarrow> (string \<times> nat) list" where
  "piece_bytes d =
     map (\<lambda>t. (d_id (dd_source_data d), unat (d_position (dd_source_data d)) + t))
       [0..<unat (d_data_size (dd_source_data d))]"

definition byte_home :: "nat \<Rightarrow> Data list \<Rightarrow> nat \<Rightarrow> string \<times> nat" where
  "byte_home m links x = (d_id (links ! (x div m)), x mod m)"

section \<open>Lemmas\<close>

lemma unat_word_mod: "unat (a mod b :: size_t) = unat a mod unat b"
  by (simp add: unat_mod)

lemma unat_word_div: "unat (a div b :: size_t) = unat a div unat b"
  by (simp add: unat_div)

lemma block_div_mod: "(c :: nat) < m \<Longrightarrow> (m * i + c) div m = i \<and> (m * i + c) mod m = c"
  by simp

lemma rel_size:
  fixes M so sl :: size_t
  assumes "M \<noteq> 0"
  shows "unat (if M - so mod M > sl then sl else M - so mod M) = min (unat sl) (unat M - unat so mod unat M)"
proof -
  have pos: "0 < unat M" using assms by (simp add: unat_gt_0)
  then have "unat so mod unat M \<le> unat M" by (simp add: less_imp_le)
  then have "unat (M - so mod M) = unat M - unat so mod unat M"
    by (simp add: size_sub unat_word_mod)
  then show ?thesis by (auto simp: word_less_nat_alt)
qed

text \<open>One round of the loop: the segment it is in, the piece it takes from it, and where it goes on.\<close>

definition piece_size :: "size_t \<Rightarrow> size_t \<Rightarrow> size_t \<Rightarrow> size_t" where
  "piece_size M so sl = (if M - so mod M > sl then sl else M - so mod M)"

lemma segment_entered:
  fixes M so sl :: size_t
  assumes "M \<noteq> 0" "unat so + unat sl < 2 ^ 63" "unat so + unat sl \<le> n * unat M" "n < 2 ^ 63" "sl \<noteq> 0"
  shows "unat so div unat M < n" "of_nat (unat so div unat M) \<le> (so + sl) div M"
proof -
  have m: "0 < unat M" and l: "0 < unat sl" using assms(1,5) by (simp_all add: unat_gt_0)
  have "unat so < n * unat M" using assms(3) l by simp
  then show n: "unat so div unat M < n" using m by (simp add: less_mult_imp_div_less)
  have "unat (so + sl) = unat so + unat sl" using assms(2) by (simp add: size_add)
  moreover have "unat so div unat M \<le> (unat so + unat sl) div unat M" by (simp add: div_le_mono)
  ultimately show "of_nat (unat so div unat M) \<le> (so + sl) div M"
    using n assms(4) by (simp add: word_le_nat_alt unat_word_div size_fits)
qed

lemma piece_size:
  assumes "M \<noteq> 0" "unat so + unat sl < 2 ^ 63" "sl \<noteq> 0" and z: "z = piece_size M so sl"
  shows "0 < unat z" "unat z \<le> unat sl" "unat so mod unat M + unat z \<le> unat M"
    "unat (so + z) = unat so + unat z" "unat (sl - z) = unat sl - unat z"
    "sl - z \<noteq> 0 \<Longrightarrow> (unat so + unat z) div unat M = Suc (unat so div unat M)"
proof -
  let ?m = "unat M" and ?r = "unat so mod unat M"
  have m: "0 < ?m" and l: "0 < unat sl" using assms(1,3) by (simp_all add: unat_gt_0)
  have z: "unat z = min (unat sl) (?m - ?r)" using rel_size [OF assms(1)] z by (simp add: piece_size_def)
  have r: "?r < ?m" using m by simp
  show "0 < unat z" "unat z \<le> unat sl" "?r + unat z \<le> ?m" using z l r by auto
  then show sl: "unat (so + z) = unat so + unat z" "unat (sl - z) = unat sl - unat z"
    using assms(2) by (simp_all add: size_add size_sub)
  assume "sl - z \<noteq> 0"
  then have "unat (sl - z) \<noteq> 0" by (simp add: unat_eq_0)
  then have "?r + unat z = ?m" using z sl(2) r by linarith
  moreover have "unat so = ?m * (unat so div ?m) + ?r" by simp
  ultimately have "unat so + unat z = ?m * (unat so div ?m) + ?m" by linarith
  then show "(unat so + unat z) div ?m = Suc (unat so div ?m)" using m by simp
qed

lemma locate_loop_done:
  assumes "M \<noteq> 0"
  shows "concat (map piece_bytes (locate_loop M False e links i so 0 dp)) = []"
proof (induction "length links - i" arbitrary: i dp)
  case 0
  then show ?case by (subst locate_loop.simps) simp
next
  case (Suc k)
  have "unat (if M - so mod M > 0 then 0 else M - so mod M) = 0"
    using rel_size [OF assms, where so = so and sl = 0] by simp
  then have sz: "(if M - so mod M > 0 then 0 else M - so mod M) = (0 :: size_t)"
    by (simp add: unat_eq_0)
  show ?case
    using Suc(1) [of "Suc i" dp] Suc(2) sz
    by (subst locate_loop.simps) (auto simp: Let_def piece_bytes_def)
qed

lemma locate_loop_covers:
  assumes "M \<noteq> 0" "unat so + unat sl < 2 ^ 63" "unat so + unat sl \<le> length links * unat M"
    and "length links < 2 ^ 63" "e = (so + sl) div M" "sl \<noteq> 0 \<Longrightarrow> i = unat so div unat M"
  shows "concat (map piece_bytes (locate_loop M False e links i so sl dp)) =
    map (\<lambda>j. byte_home (unat M) links (unat so + j)) [0..<unat sl]"
  using assms
proof (induction "length links - i" arbitrary: i so sl dp rule: less_induct)
  case less
  let ?m = "unat M" and ?o = "unat so" and ?l = "unat sl"
  have m: "0 < ?m" using less.prems(1) by (simp add: unat_gt_0)
  show ?case
  proof (cases "sl = 0")
    case True
    then show ?thesis using locate_loop_done [OF less.prems(1)] by simp
  next
    case False
    then have i: "i = ?o div ?m" using less.prems(6) by simp
    have il: "i < length links" and go: "of_nat i \<le> e"
      using segment_entered [OF less.prems(1-4) False] i less.prems(5) by simp_all
    have o: "?o = ?m * i + ?o mod ?m" using i by simp
    define z where "z = piece_size M so sl"
    note z = piece_size [OF less.prems(1,2) False z_def]
    have rest: "concat (map piece_bytes (locate_loop M False e links (Suc i) (so + z) (sl - z) dp')) =
        map (\<lambda>j. byte_home ?m links (?o + unat z + j)) [0..<?l - unat z]" for dp'
      using less.hyps [of "Suc i" "so + z" "sl - z" dp'] il less.prems z i by simp
    have head: "map (\<lambda>t. (d_id (links ! i), ?o mod ?m + t)) [0..<unat z] =
        map (\<lambda>j. byte_home ?m links (?o + j)) [0..<unat z]"
    proof (rule map_cong [OF refl])
      fix j assume "j \<in> set [0..<unat z]"
      then have "?o mod ?m + j < ?m" using z(3) by simp
      from block_div_mod [OF this, of i] have "(?o + j) div ?m = i \<and> (?o + j) mod ?m = ?o mod ?m + j"
        using o by (simp only: add.assoc [symmetric])
      then show "(d_id (links ! i), ?o mod ?m + j) = byte_home ?m links (?o + j)"
        by (simp add: byte_home_def)
    qed
    have split: "[0..<?l] = [0..<unat z] @ map (\<lambda>j. unat z + j) [0..<?l - unat z]"
      using z(2) by (intro nth_equalityI) (auto simp: nth_append)
    show ?thesis
      using il go rest head split
      by (subst locate_loop.simps)
        (simp add: Let_def z_def [unfolded piece_size_def, symmetric] piece_bytes_def unat_word_mod comp_def add.assoc)
  qed
qed

section \<open>Properties\<close>



text \<open>
  A request that ends on a segment boundary. When the object goes on after the requested
  range, \<open>Locate\<close> adds a piece of size 0 for the next segment; a size of 0 means the whole
  object to the clients, so the reply carries bytes beyond the range.
\<close>

theorem boundary_request_extra_piece:
  assumes "0 < M" "m_links primary = [(0, a), (1, b)]"
    and "d_position req = 0" "d_data_size req = M"
  shows "segment_request M req primary =
    Inr [\<lparr>dd_source_data = a\<lparr>d_position := 0, d_data_size := M\<rparr>,
          dd_destination_data = a\<lparr>d_position := 0, d_data_size := M\<rparr>,
          dd_storage_index = d_storage_index a\<rparr>,
         \<lparr>dd_source_data = b\<lparr>d_position := 0, d_data_size := 0\<rparr>,
          dd_destination_data = b\<lparr>d_position := scast (ucast M :: int32), d_data_size := 0\<rparr>,
          dd_storage_index = d_storage_index b\<rparr>]"
proof -
  have arr: "link_array (m_links primary) = Some [a, b]"
    by (simp add: link_array_def assms(2) links_at_def upt_conv_Cons)
  have M0: "M \<noteq> 0" using assms(1) by (simp add: word_gt_0)
  then have "0 < unat M" by (simp add: unat_gt_0)
  then have "unat (M div M) = 1" by (simp add: unat_word_div)
  then have "M div M = 1" by (simp add: word_unat_eq_iff)
  moreover have "M mod M = 0" by simp
  ultimately have M: "M \<noteq> 0" "M div M = 1" "M mod M = 0" using M0 by simp_all
  have l2: "locate_loop M False e [a, b] (Suc (Suc 0)) so sl dp = []" for e so sl dp
    by (subst locate_loop.simps) simp
  have l1: "locate_loop M False 1 [a, b] (Suc 0) M 0 dp =
      [\<lparr>dd_source_data = b\<lparr>d_position := 0, d_data_size := 0\<rparr>,
        dd_destination_data = b\<lparr>d_position := scast dp, d_data_size := 0\<rparr>,
        dd_storage_index = d_storage_index b\<rparr>]" for dp
    using M assms(1) l2 by (subst locate_loop.simps) (simp add: Let_def)
  have "locate_loop M False 1 [a, b] 0 0 M 0 =
      \<lparr>dd_source_data = a\<lparr>d_position := 0, d_data_size := M\<rparr>,
       dd_destination_data = a\<lparr>d_position := 0, d_data_size := M\<rparr>,
       dd_storage_index = d_storage_index a\<rparr> # locate_loop M False 1 [a, b] (Suc 0) M 0 (ucast M)"
    by (subst locate_loop.simps) (simp add: Let_def)
  then show ?thesis
    using M(1,2) arr assms(3,4) l1 by (simp add: segment_request_def Let_def)
qed

theorem boundary_request_extra_piece_witness:
  "map (\<lambda>d. unat (d_data_size (dd_source_data d)))
     (case segment_request 4 (default_Data\<lparr>d_data_size := 4\<rparr>)
             (default_Metadata\<lparr>m_links := [(0, default_Data), (1, default_Data)]\<rparr>) of
        Inr ds \<Rightarrow> ds | Inl _ \<Rightarrow> []) = [4, 0]"
  by (simp add: boundary_request_extra_piece [of 4 _ default_Data default_Data])

end
