(* ===== verification/Range_Read.thy ===== *)
theory Range_Read
  imports Block_Object Segmentation
begin

text \<open>
  Reading a range of an object of several segments. The orchestrator cuts the range into pieces,
  the server reads each piece into a buffer of its own, with room for the pieces before it, and
  copies the pieces one after the other. When the segments are files the reply starts with the
  bytes of the range (\<open>server_reads_range\<close>); the Redis and MongoDB clients do not leave that room.
\<close>

section \<open>Pieces that are in files\<close>

definition bytes_asked :: "DataDistribution \<Rightarrow> nat" where
  "bytes_asked d = unat (d_data_size (dd_source_data d))"

text \<open>A piece of a file, at the position \<open>q\<close> of the range.\<close>

definition file_piece :: "('r, 'm) world \<Rightarrow> nat \<Rightarrow> DataDistribution \<Rightarrow> bool" where
  "file_piece w q d \<longleftrightarrow>
     (\<exists>v. fs_files (w_fs w) (d_id (dd_source_data d)) = Some v \<and> \<not> fs_denied (w_fs w) (d_id (dd_source_data d)) \<and>
        length v < 2 ^ 63 \<and> length v \<le> fs_max_io (w_fs w) \<and>
        unat (d_position (dd_source_data d)) + bytes_asked d \<le> length v) \<and>
     0 < bytes_asked d \<and> d_position (dd_destination_data d) = of_nat q \<and>
     GetIOClient w (d_storage_index (dd_destination_data d)) = Inr FILE_IO"

fun file_pieces :: "('r, 'm) world \<Rightarrow> nat \<Rightarrow> DataDistribution list \<Rightarrow> bool" where
  "file_pieces w q [] \<longleftrightarrow> True"
| "file_pieces w q (d # ds) \<longleftrightarrow> file_piece w q d \<and> file_pieces w (q + bytes_asked d) ds"

definition piece_data :: "('r, 'm) world \<Rightarrow> DataDistribution \<Rightarrow> bytes" where
  "piece_data w d =
     slice (unat (d_position (dd_source_data d))) (bytes_asked d)
       (old_bytes (fs_files (w_fs w) (d_id (dd_source_data d))))"

text \<open>The sizes the first loop of \<^verbatim>\<open>Server::Locate\<close> adds: each piece with the room before it.\<close>

fun read_total :: "nat \<Rightarrow> DataDistribution list \<Rightarrow> nat" where
  "read_total q [] = 0"
| "read_total q (d # ds) = q + bytes_asked d + read_total (q + bytes_asked d) ds"

abbreviation sizes :: "DataDistribution list \<Rightarrow> nat" where
  "sizes ds \<equiv> sum_list (map bytes_asked ds)"

section \<open>Lemmas\<close>

lemma piece_data_length: "file_piece w q d \<Longrightarrow> length (piece_data w d) = bytes_asked d"
  by (auto simp: file_piece_def piece_data_def slice_def)

lemma sizes_le_total: "sizes ds \<le> read_total q ds"
proof (induction ds arbitrary: q)
  case (Cons d ds)
  show ?case using Cons.IH [of "q + bytes_asked d"] by simp
qed simp

lemma read_total_bound: "read_total q ds \<le> length ds * (q + sizes ds)"
proof (induction ds arbitrary: q)
  case (Cons d ds)
  show ?case using Cons.IH [of "q + bytes_asked d"] by (simp add: add.assoc)
qed simp

lemma read_file_piece:
  assumes "file_piece w q d" "q + bytes_asked d < 2 ^ 63"
  shows "\<exists>pad. length pad = q \<and>
    Io_Read E w (d_storage_index (dd_destination_data d)) (dd_source_data d) (dd_destination_data d) =
      Inr ((dd_destination_data d)\<lparr>d_buffer := Some (pad @ piece_data w d), d_data_size := of_nat (q + bytes_asked d)\<rparr>)"
proof -
  let ?s = "dd_source_data d" and ?t = "dd_destination_data d" and ?n = "bytes_asked d"
  obtain v where v: "fs_files (w_fs w) (d_id ?s) = Some v" "\<not> fs_denied (w_fs w) (d_id ?s)" "length v < 2 ^ 63"
    "length v \<le> fs_max_io (w_fs w)" "unat (d_position ?s) + ?n \<le> length v"
    and d: "0 < ?n" "d_position ?t = of_nat q" "GetIOClient w (d_storage_index ?t) = Inr FILE_IO"
    using assms(1) by (auto simp: file_piece_def)
  have q: "unat (d_position ?t) = q" using d(2) assms(2) by (simp add: size_fits)
  have "d_data_size ?s = of_nat ?n" by (simp add: bytes_asked_def)
  then obtain pad where "length pad = q" "FileIOClient_Read (e_junk E) (w_fs w) ?s ?t =
      Inr (?t\<lparr>d_buffer := Some (pad @ slice (unat (d_position ?s)) ?n v), d_data_size := d_position ?t + of_nat ?n\<rparr>)"
    using FileIOClient_Read_slice [OF v(2,1,5,3), of ?t "e_junk E"] v(4,5) d(1) q assms(2) by auto
  then show ?thesis using d(2,3) v(1) by (auto simp: Io_Read_def piece_data_def)
qed

lemma read_join_files:
  assumes "file_pieces w q ds" "q + sizes ds < 2 ^ 63"
  shows "\<exists>ps. read_pieces E w ds tot = Inr (ps, tot + of_nat (read_total q ds)) \<and>
    (\<forall>start buf. start + sizes ds \<le> length buf \<longrightarrow> length buf < 2 ^ 63 \<longrightarrow>
       join_pieces ps (of_nat start) buf =
         Inr (take start buf @ concat (map (piece_data w) ds) @ drop (start + sizes ds) buf))"
  using assms
proof (induction ds arbitrary: q tot)
  case Nil
  then show ?case by simp
next
  case (Cons d ds)
  let ?n = "bytes_asked d"
  have d: "file_piece w q d" and small: "q + ?n < 2 ^ 63" using Cons.prems by simp_all
  obtain pad where pad: "length pad = q" and io: "Io_Read E w (d_storage_index (dd_destination_data d))
      (dd_source_data d) (dd_destination_data d) =
      Inr ((dd_destination_data d)\<lparr>d_buffer := Some (pad @ piece_data w d), d_data_size := of_nat (q + ?n)\<rparr>)"
    using read_file_piece [OF d small] by blast
  have acc: "ucast (of_nat (q + ?n) :: size_t) = (of_nat (q + ?n) :: int32)" by (rule ucast_of_nat)
  obtain ps where ps: "read_pieces E w ds (tot + of_nat (q + ?n)) =
      Inr (ps, tot + of_nat (q + ?n) + of_nat (read_total (q + ?n) ds))"
    and join: "\<And>start buf. start + sizes ds \<le> length buf \<Longrightarrow> length buf < 2 ^ 63 \<Longrightarrow>
      join_pieces ps (of_nat start) buf =
        Inr (take start buf @ concat (map (piece_data w) ds) @ drop (start + sizes ds) buf)"
    using Cons.IH [of "q + ?n" "tot + of_nat (q + ?n)"] Cons.prems by (auto simp: add.assoc)
  let ?p = "(dd_destination_data d)\<lparr>d_buffer := Some (pad @ piece_data w d), d_data_size := of_nat (q + ?n)\<rparr>"
  have pos: "d_position (dd_destination_data d) = of_nat q" using d by (simp add: file_piece_def)
  have n: "unat (of_nat (q + ?n) - of_nat q :: size_t) = ?n" "unat (of_nat q :: size_t) = q"
    using small by (simp_all add: size_sub size_fits)
  have len: "length (piece_data w d) = ?n" by (rule piece_data_length [OF d])
  have "join_pieces (?p # ps) (of_nat start) buf =
      Inr (take start buf @ concat (map (piece_data w) (d # ds)) @ drop (start + sizes (d # ds)) buf)"
    if room: "start + sizes (d # ds) \<le> length buf" "length buf < 2 ^ 63" for start buf
  proof -
    let ?buf = "take start buf @ piece_data w d @ drop (start + ?n) buf"
    have start: "unat (of_nat start :: size_t) = start" using room by (simp add: size_fits)
    have "join_pieces ps (of_nat (start + ?n)) ?buf =
        Inr (take (start + ?n) ?buf @ concat (map (piece_data w) ds) @ drop (start + ?n + sizes ds) ?buf)"
      using room len by (intro join) simp_all
    then show ?thesis
      using n pos pad len start room
      by (simp add: Let_def mem_read_Some slice_def memcpy_at_Some ac_simps)
  qed
  then show ?case using io acc ps by (simp add: add.assoc)
qed

text \<open>The pieces of a range whose segments are files.\<close>

lemma length_locate_loop: "length (locate_loop M g e links i so sl dp) \<le> length links - i"
proof (induction "length links - i" arbitrary: i so sl dp)
  case 0
  then show ?case by (subst locate_loop.simps) simp
next
  case (Suc k)
  then have "length (locate_loop M g e links (Suc i) so sl dp) \<le> length links - Suc i" for so sl dp by simp
  moreover have "Suc (length links - Suc i) \<le> length links - i" using Suc.hyps(2) by simp
  ultimately have "Suc (length (locate_loop M g e links (Suc i) so sl dp)) \<le> length links - i" for so sl dp
    by (meson Suc_le_mono le_trans)
  then show ?case by (subst locate_loop.simps) (simp add: Let_def)
qed

lemma scast_of_nat_32: "q < 2 ^ 31 \<Longrightarrow> scast (of_nat q :: int32) = (of_nat q :: size_t)"
  by (simp add: scast_eq signed_of_nat signed_take_bit_int_eq_self)

text \<open>The loop ends after the last piece, and a piece lies inside its segment.\<close>

lemma last_piece:
  assumes "M \<noteq> 0" "unat so + unat sl < 2 ^ 63" "n < 2 ^ 63"
    and "(unat so + unat sl) mod unat M \<noteq> 0 \<or> (unat so + unat sl) div unat M = n"
    and "sl \<noteq> 0" "z = piece_size M so sl" "sl - z = 0"
  shows "\<not> (of_nat (Suc (unat so div unat M)) \<le> (so + sl) div M \<and> Suc (unat so div unat M) < n)"
proof
  let ?m = "unat M" and ?o = "unat so" and ?l = "unat sl" and ?i = "unat so div unat M"
  note z = piece_size [OF assms(1,2,5,6)]
  assume more: "of_nat (Suc ?i) \<le> (so + sl) div M \<and> Suc ?i < n"
  have m: "0 < ?m" using assms(1) by (simp add: unat_gt_0)
  have "unat (so + sl) = ?o + ?l" using assms(2) by (simp add: size_add)
  moreover have "unat (of_nat (Suc ?i) :: size_t) = Suc ?i" using more assms(3) by (intro size_fits) simp
  ultimately have "Suc ?i \<le> (?o + ?l) div ?m"
    using more by (simp add: word_le_nat_alt unat_word_div del: of_nat_Suc)
  then have "?m * Suc ?i \<le> ?o + ?l" using m
    by (metis mult_le_mono2 order_trans times_div_less_eq_dividend)
  have "unat z = ?l" using assms(7) z(2,5) by simp
  then have "?o mod ?m + ?l \<le> ?m" using z(3) by simp
  moreover have "?o = ?m * ?i + ?o mod ?m" by simp
  ultimately have "?o + ?l \<le> ?m * ?i + ?m" by linarith
  with \<open>?m * Suc ?i \<le> ?o + ?l\<close> have "?o + ?l = ?m * Suc ?i" by simp
  then show False using assms(4) more m by simp
qed

lemma piece_inside:
  assumes "0 < z" "z \<le> l" "o' mod m + z \<le> m" "\<And>x. x < o' + l \<Longrightarrow> x mod m < f (x div m)"
  shows "o' mod m + z \<le> (f (o' div m) :: nat)"
proof -
  let ?x = "o' + z - 1"
  have lt: "o' mod m + (z - 1) < m" using assms(1,3) by simp
  have "?x = m * (o' div m) + (o' mod m + (z - 1))" using div_mult_mod_eq [of o' m] assms(1) by (simp add: mult.commute)
  then have "?x div m = o' div m" "?x mod m = o' mod m + (z - 1)" using block_div_mod [OF lt, of "o' div m"] by simp_all
  moreover have "?x < o' + l" using assms(1,2) by simp
  ultimately show ?thesis using assms(4) [of ?x] assms(1) by simp
qed

lemma locate_loop_files:
  assumes "M \<noteq> 0" "unat so + unat sl < 2 ^ 63" "unat so + unat sl \<le> length links * unat M"
    and "length links < 2 ^ 63" "e = (so + sl) div M" "sl \<noteq> 0 \<Longrightarrow> i = unat so div unat M"
    and "sl = 0 \<Longrightarrow> \<not> (of_nat i \<le> e \<and> i < length links)"
    and "(unat so + unat sl) mod unat M \<noteq> 0 \<or> (unat so + unat sl) div unat M = length links"
    and "dp = of_nat q" "q + unat sl < 2 ^ 31"
    and links: "\<And>k. k < length links \<Longrightarrow> GetIOClient w (d_storage_index (links ! k)) = Inr FILE_IO \<and>
      fs_files (w_fs w) (d_id (links ! k)) = Some (vs k) \<and> \<not> fs_denied (w_fs w) (d_id (links ! k)) \<and>
      length (vs k) < 2 ^ 63 \<and> length (vs k) \<le> fs_max_io (w_fs w)"
    and bytes: "\<And>x. x < unat so + unat sl \<Longrightarrow> x mod unat M < length (vs (x div unat M))"
  shows "file_pieces w q (locate_loop M False e links i so sl dp) \<and>
    sizes (locate_loop M False e links i so sl dp) = unat sl"
  using assms(1-10) bytes
proof (induction "length links - i" arbitrary: i so sl dp q rule: less_induct)
  case less
  let ?m = "unat M" and ?o = "unat so" and ?l = "unat sl"
  have m: "0 < ?m" using less.prems(1) by (simp add: unat_gt_0)
  show ?case
  proof (cases "sl = 0")
    case True
    then show ?thesis using less.prems(7) by (subst (1 2) locate_loop.simps) auto
  next
    case False
    then have i: "i = ?o div ?m" using less.prems(6) by simp
    have il: "i < length links" and go: "of_nat i \<le> e"
      using segment_entered [OF less.prems(1-4) False] i less.prems(5) by simp_all
    define z where "z = piece_size M so sl"
    note z = piece_size [OF less.prems(1,2) False z_def]
    have same: "so + z + (sl - z) = so + sl" by simp
    have stop: "\<not> (of_nat (Suc i) \<le> e \<and> Suc i < length links)" if "sl - z = 0"
      using last_piece [OF less.prems(1,2,4,8) False z_def that] i less.prems(5) by simp
    have rest: "file_pieces w (q + unat z) (locate_loop M False e links (Suc i) (so + z) (sl - z) (of_nat (q + unat z))) \<and>
        sizes (locate_loop M False e links (Suc i) (so + z) (sl - z) (of_nat (q + unat z))) = unat (sl - z)"
      using less.hyps [of "Suc i" "so + z" "sl - z" "of_nat (q + unat z)" "q + unat z"] il less.prems z i stop same
      by simp
    have "?o mod ?m + unat z \<le> length (vs i)"
      using piece_inside [OF z(1-3), where f = "\<lambda>k. length (vs k)"] less.prems(11) i by simp
    then have first: "file_piece w q \<lparr>dd_source_data = (links ! i)\<lparr>d_position := so mod M, d_data_size := z\<rparr>,
        dd_destination_data = (links ! i)\<lparr>d_position := scast dp, d_data_size := z\<rparr>,
        dd_storage_index = d_storage_index (links ! i)\<rparr>"
      using links [OF il] z(1) less.prems(9,10) by (simp add: file_piece_def bytes_asked_def unat_word_mod scast_of_nat_32)
    have dp': "dp + ucast z = of_nat (q + unat z)"
      using less.prems(9) ucast_of_nat [of "unat z"] by simp
    show ?thesis
      using il go first rest dp' z(2,5)
      by (subst (1 2) locate_loop.simps) (simp add: Let_def z_def [unfolded piece_size_def, symmetric] bytes_asked_def)
  qed
qed


text \<open>The bytes of an object whose blocks are full but for the last.\<close>

definition full_blocks :: "nat \<Rightarrow> bytes list \<Rightarrow> bool" where
  "full_blocks m vs \<longleftrightarrow>
     (\<forall>j < length vs. length (vs ! j) \<le> m \<and> (Suc j < length vs \<longrightarrow> length (vs ! j) = m))"

lemma full_blocks_Cons:
  "full_blocks m (v # vs) \<longleftrightarrow> length v \<le> m \<and> (vs \<noteq> [] \<longrightarrow> length v = m) \<and> full_blocks m vs"
  by (auto simp: full_blocks_def nth_Cons split: nat.splits)

lemma nth_blocks:
  assumes "full_blocks m vs" "x < length (concat vs)" "0 < m"
  shows "x div m < length vs \<and> x mod m < length (vs ! (x div m)) \<and> concat vs ! x = vs ! (x div m) ! (x mod m)"
  using assms
proof (induction vs arbitrary: x)
  case (Cons v vs)
  show ?case
  proof (cases "x < length v")
    case True
    then have "x < m" using Cons.prems(1) by (simp add: full_blocks_Cons)
    then show ?thesis using True by (simp add: nth_append)
  next
    case False
    then have "vs \<noteq> []" using Cons.prems(2) by auto
    then have v: "length v = m" and vs: "full_blocks m vs" using Cons.prems(1) by (simp_all add: full_blocks_Cons)
    have "x - m < length (concat vs)" using False Cons.prems(2) v by simp
    moreover have "x div m = Suc ((x - m) div m)" "x mod m = (x - m) mod m"
      using False v assms(3) by (simp_all add: le_div_geq le_mod_geq)
    ultimately show ?thesis using Cons.IH [OF vs, of "x - m"] False v assms(3) by (simp add: nth_append)
  qed
qed simp

lemma full_blocks_length:
  assumes "full_blocks m vs"
  shows "length (concat vs) \<le> length vs * m"
proof -
  have "sum_list (map length vs) \<le> length vs * m"
    using assms by (induction vs) (auto simp: full_blocks_Cons)
  then show ?thesis by (simp add: length_concat)
qed

lemma piece_data_bytes:
  assumes "file_piece w q d"
  shows "piece_data w d = map (\<lambda>(k, x). old_bytes (fs_files (w_fs w) k) ! x) (piece_bytes d)"
  using assms
  by (auto simp: file_piece_def piece_data_def piece_bytes_def bytes_asked_def slice_def intro!: nth_equalityI)

lemma pieces_data_bytes:
  assumes "file_pieces w q ds"
  shows "concat (map (piece_data w) ds) =
    map (\<lambda>(k, x). old_bytes (fs_files (w_fs w) k) ! x) (concat (map piece_bytes ds))"
  using assms by (induction ds arbitrary: q) (auto simp: piece_data_bytes)


section \<open>Properties\<close>

definition range_target :: "string \<Rightarrow> uint16 \<Rightarrow> nat \<Rightarrow> nat \<Rightarrow> Data" where
  "range_target i p a m = (target i p m)\<lparr>d_position := of_nat a\<rparr>"

lemma blocks_file:
  assumes "blocks_hold E c i p n N w vs" "blocks_held E w i p sel len vs"
    and "fs_files (w_fs w) (seg_key i j) = Some (vs ! j)" "j < length vs"
  shows "GetIOClient w (sel j) = Inr FILE_IO" "\<not> fs_denied (w_fs w) (seg_key i j)"
    "length (vs ! j) < 2 ^ 63" "length (vs ! j) \<le> fs_max_io (w_fs w)"
proof -
  have held: "seg_held E w i (sel j) j (vs ! j)" and ready: "key_ready E w (seg_key i j) n"
    using blocks_pieces [OF assms(1,2)] assms(4) by simp_all
  then obtain t where t: "GetIOClient w (sel j) = Inr t" "\<And>t'. t' \<noteq> t \<Longrightarrow> client_obj E t' w (seg_key i j) = None"
    by (auto simp: seg_held_def)
  then have "t = FILE_IO" using assms(3) t(2) [of FILE_IO] by auto
  then show "GetIOClient w (sel j) = Inr FILE_IO" using t(1) by simp
  then have "client_up E FILE_IO w (seg_key i j)" "client_fits FILE_IO w (length (vs ! j))"
    using ready assms(3) unfolding key_ready_def by fastforce+
  then show "\<not> fs_denied (w_fs w) (seg_key i j)" "length (vs ! j) < 2 ^ 63" "length (vs ! j) \<le> fs_max_io (w_fs w)"
    by (simp_all add: file_up_def file_fits_def)
qed


lemma blocks_Locate_range:
  assumes "blocks_hold E c i p n N w vs" "blocks_held E w i p sel len vs"
    and "\<forall>j < length vs. fs_files (w_fs w) (seg_key i j) = Some (vs ! j)"
    and "M = MAX_OBJ_SIZE c" "full_blocks (unat M) vs" "0 < m" "a + m \<le> length (concat vs)"
    and "(a + m) mod unat M \<noteq> 0 \<or> a + m = length vs * unat M"
  shows "\<exists>ds. Locate E w (range_target i p a m) = Inr (ds, seg_meta i p (length vs) sel len) \<and>
    file_pieces w 0 ds \<and> sizes ds = m \<and> length ds \<le> length vs \<and>
    concat (map (piece_data w) ds) = slice a m (concat vs)"
proof -
  note b = blocks_holdD [OF assms(1)]
  let ?m = "unat M" and ?k = "length vs" and ?so = "of_nat a :: size_t" and ?sl = "of_nat m :: size_t"
  let ?links = "map (\<lambda>j. seg_link i (sel j) (len j) j) [0..<?k]"
  have M: "M \<noteq> 0" and m0: "0 < ?m" using b(9) assms(4) by (simp_all add: unat_gt_0)
  have ne: "vs \<noteq> []" using assms(6,7) by auto
  have u: "unat ?so = a" "unat ?sl = m" using assms(6,7) b(8) by (simp_all add: size_fits)
  have sl: "?sl \<noteq> 0" using u(2) assms(6) by auto
  have k: "?k < 2 ^ 31" using b(6,7) by simp
  have inside: "a + m \<le> ?k * ?m" using full_blocks_length [OF assms(5)] assms(7) by simp
  then have "a < ?k * ?m" using assms(6) by simp
  then have "a div ?m < ?k" by (rule less_mult_imp_div_less)
  then have seg: "sint (ucast (?so div M) :: int32) = int (a div ?m)"
    using sint_narrow_size [of "a div ?m"] size_of_unat [OF unat_word_div [of ?so M]] u k by simp
  define ds where "ds = locate_loop M False ((?so + ?sl) div M) ?links (a div ?m) ?so ?sl 0"
  have "Locate E w (range_target i p a m) = Inr (ds, seg_meta i p ?k sel len)"
    using blocks_read_primary [OF assms(1) ne assms(2), of "range_target i p a m"] b(2) assms(4) M sl seg
      link_array_segments [OF k, of i p sel len]
    by (simp add: Locate_def segment_request_def range_target_def target_def Let_def ds_def)
  moreover have files: "file_pieces w 0 ds \<and> sizes ds = unat ?sl"
    unfolding ds_def
  proof (rule locate_loop_files [where vs = "(!) vs"])
    show "(unat ?so + unat ?sl) mod ?m \<noteq> 0 \<or> (unat ?so + unat ?sl) div ?m = length ?links"
      using assms(8) m0 u by auto
    show "x mod ?m < length (vs ! (x div ?m))" if "x < unat ?so + unat ?sl" for x
      using nth_blocks [OF assms(5), of x] that assms(7) u m0 by simp
    show "GetIOClient w (d_storage_index (?links ! j)) = Inr FILE_IO \<and>
        fs_files (w_fs w) (d_id (?links ! j)) = Some (vs ! j) \<and> \<not> fs_denied (w_fs w) (d_id (?links ! j)) \<and>
        length (vs ! j) < 2 ^ 63 \<and> length (vs ! j) \<le> fs_max_io (w_fs w)" if "j < length ?links" for j
      using that blocks_file [OF assms(1,2), of j] assms(3) by (simp add: seg_link_def)
  qed (use M u sl inside assms(7) b(8) k in simp_all)
  moreover have "length ds \<le> ?k"
    using length_locate_loop [of M False "(?so + ?sl) div M" ?links "a div ?m" ?so ?sl 0] by (simp add: ds_def)
  moreover have "concat (map (piece_data w) ds) = slice a m (concat vs)"
  proof -
    have "concat (map piece_bytes ds) = map (\<lambda>j. byte_home ?m ?links (unat ?so + j)) [0..<unat ?sl]"
      unfolding ds_def using M u inside assms(7) b(8) k by (intro locate_loop_covers) simp_all
    then have "concat (map (piece_data w) ds) = map (\<lambda>j. vs ! ((a + j) div ?m) ! ((a + j) mod ?m)) [0..<m]"
      using pieces_data_bytes [OF conjunct1 [OF files]] u assms(3,5,7) nth_blocks [OF assms(5)] m0
      by (simp add: byte_home_def seg_link_def)
    moreover have "vs ! ((a + j) div ?m) ! ((a + j) mod ?m) = concat vs ! (a + j)" if "j < m" for j
      using nth_blocks [OF assms(5), of "a + j"] that assms(7) m0 by simp
    ultimately show ?thesis using assms(7) by (intro nth_equalityI) (simp_all add: slice_def)
  qed
  ultimately show ?thesis using u(2) by auto
qed


text \<open>
  C5. Reading a range. From a world that holds the blocks of an object in files, all of
  \<open>MAX_OBJ_SIZE\<close> bytes but the last, a read of the bytes \<open>a, \<dots>, a + m - 1\<close>, over any number of
  segments, replies with exactly these bytes in order, followed by at most \<open>m\<close> unspecified bytes
  for each further segment. The range must not end on a boundary between two segments.
\<close>

theorem server_reads_range:
  assumes "blocks_hold E c i p n N w vs"
    and "\<forall>j < length vs. fs_files (w_fs w) (seg_key i j) = Some (vs ! j)"
    and "full_blocks (unat (MAX_OBJ_SIZE c)) vs" "0 < m" "a + m \<le> length (concat vs)"
    and "(a + m) mod unat (MAX_OBJ_SIZE c) \<noteq> 0 \<or> a + m = length vs * unat (MAX_OBJ_SIZE c)"
    and "length vs * m < 2 ^ 31"
  shows "\<exists>extra. Server_Locate E w (range_target i p a m) dst =
      Inr (dst\<lparr>d_buffer := Some (slice a m (concat vs) @ extra)\<rparr>) \<and> length extra \<le> (length vs - 1) * m"
proof -
  have "vs \<noteq> []" using assms(4,5) by auto
  then obtain sel len where held: "blocks_held E w i p sel len vs" using assms(1) by (auto simp: blocks_hold_def)
  from blocks_Locate_range [OF assms(1) held assms(2) refl assms(3-6)] obtain ds where
    loc: "Locate E w (range_target i p a m) = Inr (ds, seg_meta i p (length vs) sel len)"
    and files: "file_pieces w 0 ds" and ds: "sizes ds = m" "length ds \<le> length vs"
    and data: "concat (map (piece_data w) ds) = slice a m (concat vs)"
    by blast
  let ?t = "read_total 0 ds"
  have "?t \<le> length vs * m"
    using read_total_bound [of 0 ds] ds by (simp add: order_trans [OF _ mult_le_mono1])
  then have t: "?t < 2 ^ 31" "m \<le> ?t" "?t - m \<le> (length vs - 1) * m"
    using assms(7) sizes_le_total [of ds 0] ds(1) by (simp_all add: diff_mult_distrib)
  obtain ps where ps: "read_pieces E w ds 0 = Inr (ps, of_nat ?t)"
    and join: "\<And>start buf. start + sizes ds \<le> length buf \<Longrightarrow> length buf < 2 ^ 63 \<Longrightarrow>
      join_pieces ps (of_nat start) buf =
        Inr (take start buf @ concat (map (piece_data w) ds) @ drop (start + sizes ds) buf)"
    using read_join_files [OF files, of E 0] t ds(1) by auto
  have "sint (of_nat ?t :: int32) = int ?t"
    using sint_narrow_size [OF t(1)] by (simp add: ucast_of_nat)
  moreover have "join_pieces ps 0 (malloc (e_junk E) ?t) = Inr (slice a m (concat vs) @ drop m (malloc (e_junk E) ?t))"
    using join [of 0 "malloc (e_junk E) ?t"] t ds(1) data by simp
  ultimately show ?thesis
    using loc ps t(3) by (intro exI [of _ "drop m (malloc (e_junk E) ?t)"]) (simp add: Server_Locate_def)
qed


text \<open>A world with segments of at most 4 bytes, whose storage 0 holds \<open>obj\<close> in three files.\<close>

definition range_world :: "bytes \<Rightarrow> (string \<rightharpoonup> bytes, (string \<times> bytes) list) world" where
  "range_world s =
     (ref_world RANDOM_POLICY)\<lparr>w_conf := (ref_conf RANDOM_POLICY)\<lparr>MAX_OBJ_SIZE := 4\<rparr>,
       w_fs := ref_fs\<lparr>fs_files := [meta_key ''obj'' \<mapsto> s, seg_key ''obj'' 0 \<mapsto> ''abcd'',
         seg_key ''obj'' 1 \<mapsto> ''efgh'', seg_key ''obj'' 2 \<mapsto> ''ij'']\<rparr>\<rparr>"

lemma range_world_obj:
  "client_obj (ref_env rnd) FILE_IO (range_world s) = [meta_key ''obj'' \<mapsto> s, seg_key ''obj'' 0 \<mapsto> ''abcd'',
     seg_key ''obj'' 1 \<mapsto> ''efgh'', seg_key ''obj'' 2 \<mapsto> ''ij'']"
  "t \<noteq> FILE_IO \<Longrightarrow> client_obj (ref_env rnd) t (range_world s) = Map.empty"
  by (simp add: range_world_def)
    (use ref_world_obj [of rnd t RANDOM_POLICY] in \<open>cases t; simp add: range_world_def del: ref_world_obj\<close>)

lemma range_world_system:
  "sols_of (range_world s) = sols_of (ref_world RANDOM_POLICY)"
  "GetIOClient (range_world s) = GetIOClient (ref_world RANDOM_POLICY)"
  "GetIOClient (range_world s) 0 = Inr FILE_IO"
  "system_ok (ref_env rnd) (range_world s)"
  using ref_system_ok [of RANDOM_POLICY rnd]
  by (simp_all add: range_world_def sols_of_def system_ok_def GetIOClient_def fun_eq_iff)
    (simp_all add: ref_world_def ref_conf_def ConfigurationManager_def)

lemma range_world_ready:
  assumes "length k \<le> 4096" "length s \<le> 1000"
  shows "key_ready (ref_env rnd) (range_world s) k 1000"
proof -
  have "client_up (ref_env rnd) t (range_world s) k \<and> client_fits t (range_world s) m" if "m \<le> 1000" for t m
    using that assms(1) map_redis_ok alist_mongo_ok
    by (cases t) (simp_all add: range_world_def ref_env_def ref_world_def ref_fs_def file_up_def file_fits_def
        redis_up_def redis_fits_def redis_max_def mongo_up_def mongo_fits_def mongo_max_def)
  moreover have "length (old_bytes (client_obj (ref_env rnd) t (range_world s) k)) \<le> 1000" for t
    using assms(2) range_world_obj(1) [of rnd s] range_world_obj(2) [of t rnd s]
    by (cases "t = FILE_IO") (simp_all add: fun_upd_def)
  ultimately show ?thesis unfolding key_ready_def by blast
qed

lemma range_world_holds:
  obtains s where "blocks_hold (ref_env rnd) ((ref_conf RANDOM_POLICY)\<lparr>MAX_OBJ_SIZE := 4\<rparr>) ''obj'' 0 1000 3
    (range_world s) [''abcd'', ''efgh'', ''ij'']"
proof -
  let ?E = "ref_env rnd" and ?vs = "[''abcd'', ''efgh'', ''ij'']"
  let ?m = "seg_meta ''obj'' 0 3 (\<lambda>j. 0) (\<lambda>j. 0)"
  have packs: "packs_within ?E (meta_key ''obj'') (seg_meta ''obj'' 0 k sel len) 1000" if "k \<le> 3" for k sel len
    using that by (intro ref_packs_within [where N = 3]) simp_all
  obtain s where s: "pack_bytes ?E ?m = Inr s" using wf_packs [OF seg_meta_wf [of 3]] by fastforce
  then have len: "length s \<le> 1000" using packs [of 3 "\<lambda>j. 0" "\<lambda>j. 0"] by (simp add: packs_within_def split: sum.splits)
  let ?w = "range_world s"
  have held: "seg_held ?E ?w ''obj'' 0 j (?vs ! j)" if "j < 3" for j
  proof -
    have "j = 0 \<or> j = 1 \<or> j = 2" using that by linarith
    then have "client_obj ?E FILE_IO ?w (seg_key ''obj'' j) = Some (?vs ! j)"
      unfolding range_world_obj(1) by auto
    then show ?thesis using range_world_system(3) range_world_obj(2) by (auto simp: seg_held_def)
  qed
  have "client_obj ?E FILE_IO ?w (meta_key ''obj'') = Some (s @ [])" unfolding range_world_obj(1) by simp
  then have "holds_bytes ?E ?w 0 (meta_key ''obj'') s"
    using range_world_system(3) unfolding holds_bytes_def by blast
  then have "blocks_held ?E ?w ''obj'' 0 (\<lambda>j. 0) (\<lambda>j. 0) ?vs"
    using s held by (simp add: blocks_held_def numeral_3_eq_3)
  moreover have "blocks_ready ?E ?w ''obj'' 1000 3"
  proof -
    have "length (seg_key ''obj'' j) \<le> 4096" if "j < 3" for j
      using length_nat_to_string_bound [of j 19] that by (simp add: seg_key_def)
    then show ?thesis using len range_world_ready by (simp add: blocks_ready_def meta_key_def)
  qed
  ultimately have "blocks_hold ?E ((ref_conf RANDOM_POLICY)\<lparr>MAX_OBJ_SIZE := 4\<rparr>) ''obj'' 0 1000 3 ?w ?vs"
    using range_world_system(1,4) packs by (auto simp: blocks_hold_def ref_world_sols) (simp_all add: range_world_def)
  then show ?thesis by (rule that)
qed

theorem server_reads_range_witness:
  "\<exists>s extra. Server_Locate (ref_env (\<lambda>k. 0)) (range_world s) (range_target ''obj'' 0 2 7) default_Data =
     Inr (default_Data\<lparr>d_buffer := Some (''cdefghi'' @ extra)\<rparr>) \<and> length extra \<le> 14"
proof -
  obtain s where hold: "blocks_hold (ref_env (\<lambda>k. 0)) ((ref_conf RANDOM_POLICY)\<lparr>MAX_OBJ_SIZE := 4\<rparr>) ''obj'' 0 1000 3
      (range_world s) [''abcd'', ''efgh'', ''ij'']"
    by (rule range_world_holds)
  have "fs_files (w_fs (range_world s)) (seg_key ''obj'' j) = Some ([''abcd'', ''efgh'', ''ij''] ! j)" if "j < 3" for j
  proof -
    have "j = 0 \<or> j = 1 \<or> j = 2" using that by linarith
    then show ?thesis using range_world_obj(1) [of "\<lambda>k. 0" s] by auto
  qed
  then show ?thesis
    using server_reads_range [OF hold, of 7 2 default_Data]
    by (auto simp: full_blocks_Cons full_blocks_def [of _ "[]"] slice_def)
qed


text \<open>
  Segments in Redis. The client puts the bytes of a piece at the start of its buffer, without room
  for the pieces before it. For a piece of fewer bytes than the range has before it, the copy of
  the server then starts beyond the end of that buffer.
\<close>

theorem redis_piece_breaks_range:
  assumes "GetIOClient w (d_storage_index (dd_destination_data d)) = Inr REDIS_IO" "redis_ok (e_redis E)"
    and "redis_obj (e_redis E) (w_redis w) (d_id (dd_source_data d)) = Some v" "length v < 2 ^ 63"
    and "0 < bytes_asked d" "unat (d_position (dd_source_data d)) + bytes_asked d \<le> length v"
    and "bytes_asked d < unat (d_position (dd_destination_data d))"
  shows "\<exists>dst. Io_Read E w (d_storage_index (dd_destination_data d)) (dd_source_data d) (dd_destination_data d) = Inr dst \<and>
    join_pieces (dst # ds) start buf = Inl Undefined"
proof -
  have "d_data_size (dd_source_data d) = of_nat (bytes_asked d)" by (simp add: bytes_asked_def)
  from RedisIOClient_Read_slice [OF assms(2-4) this assms(5,6)] show ?thesis
    using assms(1,6,7) by (simp add: Io_Read_def Let_def mem_read_def slice_def)
qed

end
