(* ===== verification/Posix_Shim.thy ===== *)
theory Posix_Shim
  imports Wire_Reference
begin

text \<open>
  The stdio interposition layer: \<^verbatim>\<open>include/symbios/client/posix.h\<close> and
  \<^verbatim>\<open>src/symbios/client/posix.cpp\<close>. \<^verbatim>\<open>fopen\<close>, \<^verbatim>\<open>fclose\<close>, \<^verbatim>\<open>fseek\<close>, \<^verbatim>\<open>fread\<close> and \<^verbatim>\<open>fwrite\<close> serve
  files below the mount point of a file storage through the Symbios client and hand every
  other file to the C library (\<open>Real\<close>).

  A \<^verbatim>\<open>FILE*\<close> is a number; the one \<^verbatim>\<open>fmemopen\<close> returns is an argument of \<open>fopen_shim\<close>. The
  state is the table of tracked streams and the world behind the client; \<open>net\<close> holds what a
  client call needs besides (the environment, the value of \<^verbatim>\<open>rand()\<close>, the number of servers).
\<close>

section \<open>State\<close>

record PosixStat =
  ps_filename :: string
  ps_file_pointer :: size_t
  ps_file_size :: size_t
  ps_mode :: string
  ps_storage_index :: uint16

definition default_PosixStat :: PosixStat where
  "default_PosixStat =
     \<lparr>ps_filename = '''', ps_file_pointer = 0, ps_file_size = 0, ps_mode = '''', ps_storage_index = 0\<rparr>"

type_synonym stream_table = "nat \<Rightarrow> PosixStat option"

record ('r, 'm) net =
  n_env :: "('r, 'm) env"
  n_rand :: int
  n_servers :: int

datatype 'a shim = Real | Handled 'a

section \<open>The table of streams\<close>

definition isFileDescriptorTracked :: "stream_table \<Rightarrow> nat \<Rightarrow> bool" where
  "isFileDescriptorTracked tab fh \<longleftrightarrow> tab fh \<noteq> None"

definition UpdateOnClose :: "stream_table \<Rightarrow> nat \<Rightarrow> bool \<times> stream_table" where
  "UpdateOnClose tab fh = (case tab fh of Some _ \<Rightarrow> (True, tab(fh := None)) | None \<Rightarrow> (False, tab))"

definition GetStat :: "stream_table \<Rightarrow> nat \<Rightarrow> bool \<times> PosixStat" where
  "GetStat tab fh = (case tab fh of Some st \<Rightarrow> (True, st) | None \<Rightarrow> (False, default_PosixStat))"

text \<open>\<^verbatim>\<open>insert_or_assign(fh, stat).second\<close>: whether the entry is new.\<close>

definition UpdateStat :: "stream_table \<Rightarrow> nat \<Rightarrow> PosixStat \<Rightarrow> bool \<times> stream_table" where
  "UpdateStat tab fh st = (tab fh = None, tab(fh \<mapsto> st))"

definition is_append :: "string \<Rightarrow> bool" where
  "is_append mode \<longleftrightarrow> mode = ''a+'' \<or> mode = ''a''"

text \<open>The origins: \<^verbatim>\<open>SEEK_SET\<close>, \<^verbatim>\<open>SEEK_CUR\<close>, \<^verbatim>\<open>SEEK_END\<close>.\<close>

definition UpdateOnSeek :: "stream_table \<Rightarrow> nat \<Rightarrow> int64 \<Rightarrow> int \<Rightarrow> int32 \<times> stream_table" where
  "UpdateOnSeek tab fh offset origin =
     (case tab fh of
        None \<Rightarrow> (- 1, tab)
      | Some st \<Rightarrow>
          if is_append (ps_mode st) then (ucast (ps_file_size st), tab)
          else (0, tab(fh \<mapsto>
                 (if origin = 1 then st\<lparr>ps_file_pointer := ps_file_pointer st + offset\<rparr>
                  else if origin = 0 then st\<lparr>ps_file_pointer := offset\<rparr>
                  else if origin = 2 then st\<lparr>ps_file_pointer := ps_file_size st - offset\<rparr>
                  else st))))"

definition UpdateOnOpen ::
  "('r, 'm) net \<Rightarrow> ('r, 'm) world \<Rightarrow> stream_table \<Rightarrow> nat \<Rightarrow> PosixStat \<Rightarrow>
   bool res \<times> stream_table \<times> ('r, 'm) world" where
  "UpdateOnOpen N w tab fh stat =
     (let tab1 = tab(fh := None);
          source = default_Data\<lparr>d_id := ps_filename stat, d_storage_index := ps_storage_index stat\<rparr>;
          st1 = (if ps_mode stat \<in> {''w'', ''w+'', ''r'', ''r+''}
                 then stat\<lparr>ps_file_pointer := 0\<rparr> else stat)
      in case Client_Size (n_env N) w (n_rand N) (n_servers N) source of
           Inl e \<Rightarrow> (Inl e, tab1, w)
         | Inr sz \<Rightarrow>
             let st2 = st1\<lparr>ps_file_size := sz\<rparr> in
             (case (if ps_mode stat = ''w+''
                    then (case Client_Delete (n_env N) w (n_rand N) (n_servers N) source of
                            (Inl e, w') \<Rightarrow> (Inl e, w')
                          | (Inr _, w') \<Rightarrow> (Inr (st2\<lparr>ps_file_size := 0\<rparr>), w'))
                    else (Inr st2, w)) of
                (Inl e, w') \<Rightarrow> (Inl e, tab1, w')
              | (Inr st3, w') \<Rightarrow>
                  let st4 = (if is_append (ps_mode st3)
                             then st3\<lparr>ps_file_pointer := ps_file_size st3\<rparr> else st3);
                      (fresh, tab2) = UpdateStat tab1 fh st4
                  in (Inr fresh, tab2, w')))"

section \<open>The interposed functions\<close>

text \<open>The first file storage, in the order of the configuration, whose mount is a prefix.\<close>

fun fopen_target :: "storage_solutions \<Rightarrow> string \<Rightarrow> uint16 option res" where
  "fopen_target [] filename = Inr None"
| "fopen_target ((ix, sol) # sols) filename =
     (case sol of
        None \<Rightarrow> Inl Undefined
      | Some s \<Rightarrow>
          if io_client_type s = FILE_IO \<and> prefix (end_point s) filename then Inr (Some ix)
          else fopen_target sols filename)"

definition fopen_shim ::
  "('r, 'm) net \<Rightarrow> ('r, 'm) world \<Rightarrow> stream_table \<Rightarrow> nat \<Rightarrow> string \<Rightarrow> string \<Rightarrow>
   nat shim res \<times> stream_table \<times> ('r, 'm) world" where
  "fopen_shim N w tab fh filename mode =
     (if prefix (CONFIGURATION_FILE (w_conf w)) filename then (Inr Real, tab, w)
      else case fopen_target (STORAGE_SOLUTIONS (w_conf w)) filename of
             Inl e \<Rightarrow> (Inl e, tab, w)
           | Inr None \<Rightarrow> (Inr Real, tab, w)
           | Inr (Some ix) \<Rightarrow>
               (case UpdateOnOpen N w tab fh
                       (default_PosixStat\<lparr>ps_filename := filename, ps_mode := mode,
                                          ps_storage_index := ix\<rparr>) of
                  (Inl e, tab', w') \<Rightarrow> (Inl e, tab', w')
                | (Inr _, tab', w') \<Rightarrow> (Inr (Handled fh), tab', w')))"

definition fclose_shim :: "stream_table \<Rightarrow> nat \<Rightarrow> int shim \<times> stream_table" where
  "fclose_shim tab stream =
     (if isFileDescriptorTracked tab stream
      then (case UpdateOnClose tab stream of (_, tab') \<Rightarrow> (Handled 0, tab'))
      else (Real, tab))"

definition fseek_shim :: "stream_table \<Rightarrow> nat \<Rightarrow> int64 \<Rightarrow> int \<Rightarrow> int32 shim \<times> stream_table" where
  "fseek_shim tab stream offset origin =
     (if isFileDescriptorTracked tab stream
      then (case UpdateOnSeek tab stream offset origin of (r, tab') \<Rightarrow> (Handled r, tab'))
      else (Real, tab))"

text \<open>
  A handled read returns the number of bytes and the bytes copied to the caller's memory;
  the returned -1 is the largest \<^verbatim>\<open>size_t\<close>. The client call may throw.
\<close>

definition fread_shim ::
  "('r, 'm) net \<Rightarrow> ('r, 'm) world \<Rightarrow> stream_table \<Rightarrow> size_t \<Rightarrow> size_t \<Rightarrow> nat \<Rightarrow>
   (size_t \<times> bytes) shim res" where
  "fread_shim N w tab sz cnt stream =
     (if isFileDescriptorTracked tab stream
      then let data_size = sz * cnt; (found, st) = GetStat tab stream in
           if \<not> found then Inr (Handled (0, []))
           else if ps_file_size st < ps_file_pointer st + data_size then Inr (Handled (- 1, []))
           else let source = default_Data\<lparr>d_id := ps_filename st, d_position := ps_file_pointer st,
                                          d_data_size := data_size\<rparr>;
                    destination = source\<lparr>d_position := 0\<rparr>
                in and_then (Client_LocateRequest (n_env N) w (n_rand N) (n_servers N) source destination)
                     (\<lambda>dst. if d_data_size dst \<noteq> data_size then Inr (Handled (d_data_size dst, []))
                            else case mem_read 0 (unat (d_data_size dst)) (old_bytes (d_buffer dst)) of
                                   None \<Rightarrow> Inl Undefined
                                 | Some b \<Rightarrow> Inr (Handled (d_data_size dst, b)))
      else Inr Real)"

definition fwrite_shim ::
  "('r, 'm) net \<Rightarrow> ('r, 'm) world \<Rightarrow> stream_table \<Rightarrow> bytes \<Rightarrow> size_t \<Rightarrow> size_t \<Rightarrow> nat \<Rightarrow>
   size_t shim res \<times> stream_table \<times> ('r, 'm) world" where
  "fwrite_shim N w tab ptr sz cnt stream =
     (if isFileDescriptorTracked tab stream
      then let data_size = sz * cnt; (found, st) = GetStat tab stream in
           if \<not> found then (Inr (Handled 0), tab, w)
           else if ps_file_size st < ps_file_pointer st + data_size then (Inr (Handled (- 1)), tab, w)
           else case mem_read 0 (unat data_size) ptr of
                  None \<Rightarrow> (Inl Undefined, tab, w)
                | Some b \<Rightarrow>
                    let destination = default_Data\<lparr>d_id := ps_filename st,
                                        d_position := ps_file_pointer st, d_data_size := data_size\<rparr>;
                        source = destination\<lparr>d_position := 0, d_buffer := Some b\<rparr>
                    in (case Client_StoreRequest (n_env N) w (n_rand N) (n_servers N) source destination of
                          (Inl e, w') \<Rightarrow> (Inl e, tab, w')
                        | (Inr _, w') \<Rightarrow>
                            let tab' = (if data_size + ps_file_pointer st > ps_file_size st
                                        then snd (UpdateStat tab stream
                                               (st\<lparr>ps_file_size := data_size + ps_file_pointer st\<rparr>))
                                        else tab)
                            in (Inr (Handled data_size), tab', w'))
      else (Inr Real, tab, w))"

section \<open>Runs\<close>

text \<open>The states a program can reach by calling the interposed functions.\<close>

inductive shim_step ::
  "('r, 'm) net \<Rightarrow> stream_table \<times> ('r, 'm) world \<Rightarrow> stream_table \<times> ('r, 'm) world \<Rightarrow> bool" for N where
  step_open: "fopen_shim N w tab fh filename mode = (r, tab', w') \<Longrightarrow> shim_step N (tab, w) (tab', w')"
| step_close: "fclose_shim tab fh = (r, tab') \<Longrightarrow> shim_step N (tab, w) (tab', w)"
| step_seek: "fseek_shim tab fh offset origin = (r, tab') \<Longrightarrow> shim_step N (tab, w) (tab', w)"
| step_read: "fread_shim N w tab sz cnt fh = r \<Longrightarrow> shim_step N (tab, w) (tab, w)"
| step_write: "fwrite_shim N w tab ptr sz cnt fh = (r, tab', w') \<Longrightarrow> shim_step N (tab, w) (tab', w')"

inductive shim_reach ::
  "('r, 'm) net \<Rightarrow> ('r, 'm) world \<Rightarrow> stream_table \<times> ('r, 'm) world \<Rightarrow> bool" for N w0 where
  reach_start: "shim_reach N w0 (\<lambda>fh. None, w0)"
| reach_step: "shim_reach N w0 s \<Longrightarrow> shim_step N s s' \<Longrightarrow> shim_reach N w0 s'"

inductive_cases shim_stepE: "shim_step N s s'"

text \<open>A stream opened for appending points at the end of its file.\<close>

definition append_at_end :: "stream_table \<Rightarrow> bool" where
  "append_at_end tab \<longleftrightarrow>
     (\<forall>fh st. tab fh = Some st \<longrightarrow> is_append (ps_mode st) \<longrightarrow> ps_file_pointer st = ps_file_size st)"

text \<open>A stream on the object \<open>./f\<close>, and a client of the concrete system.\<close>

definition ex_net :: "(string \<rightharpoonup> bytes, (string \<times> bytes) list) net" where
  "ex_net = \<lparr>n_env = ref_env (\<lambda>k. 1), n_rand = 0, n_servers = 1\<rparr>"

definition ex_stat :: "string \<Rightarrow> size_t \<Rightarrow> PosixStat" where
  "ex_stat mode sz = default_PosixStat\<lparr>ps_filename := ''./f'', ps_mode := mode, ps_file_size := sz\<rparr>"

section \<open>Lemmas\<close>

text \<open>The second size test of \<^verbatim>\<open>fwrite\<close> repeats the first one, which has failed.\<close>

lemma fwrite_shim_table: "fwrite_shim N w tab ptr sz cnt fh = (r, tab', w') \<Longrightarrow> tab' = tab"
  by (auto simp: fwrite_shim_def Let_def GetStat_def add.commute isFileDescriptorTracked_def
      split: if_splits option.splits prod.splits sum.splits)

lemma UpdateOnOpen_table:
  assumes "UpdateOnOpen N w tab fh st = (r, tab', w')"
  shows "tab' = tab(fh := None) \<or>
    (\<exists>st'. tab' = tab(fh \<mapsto> st') \<and> ps_mode st' = ps_mode st \<and>
       (is_append (ps_mode st') \<longrightarrow> ps_file_pointer st' = ps_file_size st'))"
  using assms
  by (auto simp: UpdateOnOpen_def Let_def UpdateStat_def split: if_splits prod.splits sum.splits)

lemma append_at_end_upd:
  "append_at_end tab \<Longrightarrow> (is_append (ps_mode st) \<longrightarrow> ps_file_pointer st = ps_file_size st) \<Longrightarrow>
   append_at_end (tab(fh \<mapsto> st))"
  by (auto simp: append_at_end_def)

lemma append_at_end_del: "append_at_end tab \<Longrightarrow> append_at_end (tab(fh := None))"
  by (auto simp: append_at_end_def)

lemma fopen_shim_append:
  assumes "fopen_shim N w tab fh filename mode = (r, tab', w')" "append_at_end tab"
  shows "append_at_end tab'"
  using assms UpdateOnOpen_table append_at_end_upd append_at_end_del
  by (fastforce simp: fopen_shim_def split: if_splits sum.splits option.splits prod.splits)

lemma fseek_shim_append:
  assumes "fseek_shim tab fh offset origin = (r, tab')" "append_at_end tab"
  shows "append_at_end tab'"
proof (cases "tab fh")
  case None
  then show ?thesis using assms by (simp add: fseek_shim_def isFileDescriptorTracked_def)
next
  case (Some st)
  then show ?thesis
    using assms
    by (auto simp: fseek_shim_def isFileDescriptorTracked_def UpdateOnSeek_def split: if_splits
        intro!: append_at_end_upd)
qed

lemma shim_step_append: "shim_step N s s' \<Longrightarrow> append_at_end (fst s) \<Longrightarrow> append_at_end (fst s')"
proof (induction rule: shim_step.induct)
  case (step_open w tab fh filename mode r tab' w')
  then show ?case using fopen_shim_append by fastforce
next
  case (step_close tab fh r tab' w)
  then show ?case
    by (auto simp: fclose_shim_def UpdateOnClose_def append_at_end_def
        split: if_splits option.splits prod.splits)
next
  case (step_seek tab fh offset origin r tab' w)
  then show ?case using fseek_shim_append by fastforce
next
  case (step_read w tab sz cnt fh r)
  then show ?case by simp
next
  case (step_write w tab ptr sz cnt fh r tab' w')
  then show ?case using fwrite_shim_table by fastforce
qed

lemma shim_reach_append: "shim_reach N w0 s \<Longrightarrow> append_at_end (fst s)"
  by (induction rule: shim_reach.induct) (auto simp: append_at_end_def dest: shim_step_append)

text \<open>Client calls with packable arguments are the server's handlers.\<close>

lemma rpc_arg_wf: "wf_Data d \<Longrightarrow> rpc_arg d = Inr d"
  using pack_Data_wf [of d] convert_pack_Data [of d] by (auto simp: rpc_arg_def and_then_def split: sum.splits)

lemma Client_StoreRequest_serves:
  assumes "servers \<noteq> 0" "wf_Data src" "wf_Data dst" "Server_Store E w src dst = (Inr k, w')"
  shows "Client_StoreRequest E w rnd servers src dst = (Inr k, w')"
  using assms by (simp add: Client_StoreRequest_def pick_server_def rpc_arg_wf rpc_result_def)

lemma Client_LocateRequest_serves:
  assumes "servers \<noteq> 0" "wf_Data src" "wf_Data dst" "d_buffer dst = None"
    and "Server_Locate E w src dst = Inr (dst\<lparr>d_buffer := Some b\<rparr>)"
    and "b \<noteq> []" "length b = unat (d_data_size dst)"
  shows "Client_LocateRequest E w rnd servers src dst = Inr (dst\<lparr>d_buffer := Some b\<rparr>)"
proof -
  have "wf_Data (dst\<lparr>d_buffer := Some b\<rparr>)" using assms(6,7) by (simp add: wf_Data_def)
  then show ?thesis
    using assms
    by (simp add: Client_LocateRequest_def pick_server_def rpc_arg_wf rpc_result_def Let_def
        mem_read_def memcpy_at_full)
qed

section \<open>Properties\<close>



text \<open>
  No write extends a file. Whatever the stream, \<^verbatim>\<open>fwrite\<close> leaves the table of streams
  unchanged, and a write past the recorded size returns -1 and sends nothing: the branch
  that would record a larger size is never taken.
\<close>

theorem posix_fwrite_never_extends:
  assumes "fwrite_shim N w tab ptr sz cnt fh = (r, tab', w')"
  shows "tab' = tab \<and>
    (\<forall>st. tab fh = Some st \<longrightarrow> ps_file_size st < ps_file_pointer st + sz * cnt \<longrightarrow>
       r = Inr (Handled (- 1)) \<and> w' = w)"
  using assms fwrite_shim_table [OF assms]
  by (auto simp: fwrite_shim_def Let_def GetStat_def isFileDescriptorTracked_def)

theorem posix_fwrite_never_extends_witness:
  "fwrite_shim ex_net (ref_world RANDOM_POLICY) [7 \<mapsto> ex_stat ''w+'' 0] ''x'' 1 1 7 =
     (Inr (Handled (- 1)), [7 \<mapsto> ex_stat ''w+'' 0], ref_world RANDOM_POLICY)"
proof -
  obtain r tab' w' where call: "fwrite_shim ex_net (ref_world RANDOM_POLICY) [7 \<mapsto> ex_stat ''w+'' 0] ''x'' 1 1 7 =
      (r, tab', w')" by (metis prod_cases3)
  show ?thesis
    using posix_fwrite_never_extends [OF call] call by (simp add: ex_stat_def default_PosixStat_def)
qed

text \<open>
  C34. Appending. In every state a program can reach by calling the interposed functions, a
  stream opened for appending points at the recorded end of its file; every non-empty
  append is therefore refused with -1.
\<close>

theorem posix_append_refused:
  assumes "shim_reach N w0 (tab, w)" "tab fh = Some st" "is_append (ps_mode st)"
    and "sz * cnt \<noteq> 0" "unat (ps_file_size st) + unat (sz * cnt) < 2 ^ 64"
  shows "ps_file_pointer st = ps_file_size st \<and>
    fwrite_shim N w tab ptr sz cnt fh = (Inr (Handled (- 1)), tab, w)"
proof -
  have ptr: "ps_file_pointer st = ps_file_size st"
    using shim_reach_append [OF assms(1)] assms(2,3) by (simp add: append_at_end_def)
  have "0 < unat (sz * cnt)" using assms(4) by (simp add: unat_gt_0)
  then have "ps_file_size st < ps_file_pointer st + sz * cnt"
    using ptr assms(5) by (simp add: word_less_nat_alt size_add)
  then show ?thesis
    using ptr assms(2) by (simp add: fwrite_shim_def isFileDescriptorTracked_def GetStat_def Let_def)
qed

theorem posix_append_refused_witness:
  "\<exists>tab st. shim_reach ex_net (ref_world RANDOM_POLICY) (tab, ref_world RANDOM_POLICY) \<and>
     tab 7 = Some st \<and> is_append (ps_mode st) \<and>
     fwrite_shim ex_net (ref_world RANDOM_POLICY) tab ''x'' 1 1 7 =
       (Inr (Handled (- 1)), tab, ref_world RANDOM_POLICY)"
proof -
  let ?w = "ref_world RANDOM_POLICY" and ?tab = "[7 \<mapsto> ex_stat ''a'' 0]"
  let ?d = "default_Data\<lparr>d_id := ''./f'', d_storage_index := 0\<rparr>"
  obtain e where e: "Locate (ref_env (\<lambda>k. 1)) ?w ?d = Inl (Thrown e)"
    using ref_Locate_absent [of ?d] by auto
  have wf: "wf_Data ?d" by (simp add: wf_Data_def)
  have "Client_Size (n_env ex_net) ?w (n_rand ex_net) (n_servers ex_net) ?d = Inr 0"
    using e wf by (simp add: Client_Size_def ex_net_def pick_server_def rpc_arg_wf rpc_result_def
        Server_Size_def)
  moreover have "fopen_target (sols_of ?w) ''./f'' = Inr (Some 0)"
    by (simp add: ref_world_sols)
  moreover have "\<not> prefix (CONFIGURATION_FILE (w_conf ?w)) ''./f''"
    by (simp add: ref_world_def ref_conf_def ConfigurationManager_def)
  ultimately have "fopen_shim ex_net ?w (\<lambda>fh. None) 7 ''./f'' ''a'' = (Inr (Handled 7), ?tab, ?w)"
    by (simp add: fopen_shim_def sols_of_def UpdateOnOpen_def Let_def UpdateStat_def is_append_def
        ex_stat_def default_PosixStat_def fun_eq_iff)
  then have reach: "shim_reach ex_net ?w (?tab, ?w)"
    by (intro reach_step [OF reach_start] step_open)
  have "fwrite_shim ex_net ?w ?tab ''x'' 1 1 7 = (Inr (Handled (- 1)), ?tab, ?w)"
    using posix_append_refused [OF reach, of 7 "ex_stat ''a'' 0" 1 1 "''x''"]
    by (simp add: ex_stat_def default_PosixStat_def is_append_def)
  then show ?thesis using reach by (auto simp: ex_stat_def default_PosixStat_def is_append_def)
qed

end
