(* ===== verification/Client_Laws.thy ===== *)
theory Client_Laws
  imports File_Io Redis_Io Mongo_Io
begin

text \<open>
  What the three storage clients have in common and where they differ. The object store
  contract covers writes at position 0; here are the positioned ones: the file client
  writes the reference overlay and reads every range back, the Redis and the MongoDB client
  store one and the same function of the old value, the position and the data, which is
  not the overlay when the write reaches the end of the object.
\<close>

section \<open>The value a Redis or MongoDB write stores\<close>

definition stored_value :: "bytes option \<Rightarrow> nat \<Rightarrow> bytes \<Rightarrow> bytes" where
  "stored_value old pos dat =
     (case old of
        None \<Rightarrow> dat
      | Some v \<Rightarrow>
          if pos + length dat < length v \<or> pos = 0 then overlay pos dat v
          else if length v < pos then v @ zeros (pos - length v) @ dat
          else take (pos - 1) v @ zeros 1 @ dat)"

lemma length_stored_value:
  "length (stored_value old pos dat) \<le> max (length (old_bytes old)) (pos + length dat)"
  by (auto simp: stored_value_def length_overlay split: option.splits)

lemma redis_new_value_stored:
  assumes "carries src dat" "length v < 2 ^ 63" "unat (d_position dst) + length dat < 2 ^ 63"
  shows "redis_new_value v src dst = Some (stored_value (Some v) (unat (d_position dst)) dat)"
proof -
  let ?pos = "unat (d_position dst)"
  consider "?pos = 0" | "?pos + length dat < length v" | "length v \<le> ?pos + length dat" "0 < ?pos"
    by fastforce
  then show ?thesis
  proof cases
    case 1
    then have "d_position dst = 0" by (simp add: unat_eq_0)
    then show ?thesis using redis_new_value_0 [of src dat dst v] assms by (simp add: stored_value_def)
  next
    case 2
    then show ?thesis using redis_new_value_inside [OF assms(1) 2 assms(2)] by (simp add: stored_value_def)
  next
    case 3
    then show ?thesis
      using redis_new_value_tail [OF assms(1) 3(1) assms(2,3)]
      by (auto simp: stored_value_def Let_def)
  qed
qed

text \<open>The two clients compute the new value alike.\<close>

lemma mongo_new_value_redis:
  assumes "length v < 2 ^ 63"
  shows "mongo_new_value (mongo_doc v k) src dst = redis_new_value v src dst"
proof -
  let ?pos = "d_position dst" and ?size = "of_nat (length v) :: size_t"
  let ?kept = "if ?pos > ?size then ?size else ?pos - 1"
  have size: "unat ?size = length v" using assms by (simp add: size_fits)
  have read_c_str: "mem_read 0 n (c_str v) = mem_read 0 n v" if "n \<le> length v" for n
    using that by (simp add: mem_read_def c_str_def)
  have "unat ?kept \<le> length v" if "?pos > 0"
  proof (cases "?pos > ?size")
    case True
    then show ?thesis using size by simp
  next
    case False
    then have "unat ?pos \<le> length v" using size by (simp add: word_less_nat_alt)
    moreover have "1 \<le> unat ?pos" using that by (simp add: word_less_nat_alt Suc_le_eq)
    then have "unat (?pos - 1) = unat ?pos - 1" by (simp add: size_sub)
    ultimately show ?thesis using False by simp
  qed
  then have "mem_read 0 (unat ?kept) (c_str v) = mem_read 0 (unat ?kept) v" if "?pos > 0"
    using that read_c_str by blast
  then have head: "(if ?pos > 0 then case mem_read 0 (unat ?kept) (c_str v) of None \<Rightarrow> None
      | Some head \<Rightarrow> memcpy_at 0 head new_val else Some new_val) =
    (if ?pos > 0 then case mem_read 0 (unat ?kept) v of None \<Rightarrow> None
      | Some head \<Rightarrow> memcpy_at 0 head new_val else Some new_val)" for new_val
    by simp
  have all: "mem_read 0 (unat ?size) v = Some v" using size by (simp add: mem_read_def)
  have doc: "d_buffer (mongo_doc v k) = Some v" "d_data_size (mongo_doc v k) = ?size"
    by (simp_all add: mongo_doc_def)
  show ?thesis
    unfolding mongo_new_value_def redis_new_value_def Let_def doc old_bytes_simps head all
      option.case
    by (rule refl)
qed

section \<open>What the clients' writes do\<close>

lemma redis_write_stored:
  assumes "redis_ok R" "carries src dat" "length (old_bytes (redis_obj R r (d_id dst))) \<le> redis_max"
    and "unat (d_position dst) + length dat \<le> redis_max"
  shows "\<exists>r'. RedisIOClient_Write R r src dst = (Inr src, r') \<and>
    redis_obj R r' = (redis_obj R r)
      (d_id dst \<mapsto> stored_value (redis_obj R r (d_id dst)) (unat (d_position dst)) dat)"
proof (rule RedisIOClient_Write_stores)
  let ?old = "redis_obj R r (d_id dst)" and ?pos = "unat (d_position dst)"
  show "redis_value ?old src dst dat = Some (stored_value ?old ?pos dat)"
  proof (cases ?old)
    case None
    then show ?thesis by (simp add: redis_value_def stored_value_def)
  next
    case (Some v)
    then have "redis_new_value v src dst = Some (stored_value (Some v) ?pos dat)"
      using assms by (intro redis_new_value_stored) (auto simp: redis_max_def)
    then show ?thesis using Some by (simp add: redis_value_def)
  qed
  show "length (stored_value ?old ?pos dat) \<le> redis_max"
    using length_stored_value [of ?old ?pos dat] assms(3,4) by linarith
qed (use assms in auto)

lemma mongo_write_stored:
  assumes "mongo_ok M" "carries src dat" "length (old_bytes (mongo_obj M m (d_id dst))) \<le> mongo_max"
    and "unat (d_position dst) + length dat \<le> mongo_max" "length (d_id dst) \<le> 4096"
  shows "\<exists>src' m'. MongoIOClient_Write junk M m src dst = (Inr src', m') \<and>
    mongo_obj M m' = (mongo_obj M m)
      (d_id dst \<mapsto> stored_value (mongo_obj M m (d_id dst)) (unat (d_position dst)) dat)"
proof (cases "mongo_obj M m (d_id dst)")
  case None
  have "bson_fits (d_id dst) dat" using assms by (intro mongo_fits_bson) auto
  then have "\<exists>m'. MongoIOClient_Write junk M m src dst = (Inr src, m') \<and>
      mongo_obj M m' = (mongo_obj M m)(d_id dst \<mapsto> dat)"
    by (rule MongoIOClient_Write_fresh [OF assms(1) None assms(2)])
  then show ?thesis using None by (auto simp: stored_value_def)
next
  case (Some v)
  let ?pos = "unat (d_position dst)"
  have v: "length v < 2 ^ 63" "?pos + length dat < 2 ^ 63"
    using assms(3,4) Some by (auto simp: mongo_max_def)
  then have new: "mongo_new_value (mongo_doc v (d_id dst)) src dst = Some (stored_value (Some v) ?pos dat)"
    using redis_new_value_stored [OF assms(2), of v dst] by (simp add: mongo_new_value_redis)
  have "bson_fits (d_id dst) (stored_value (Some v) ?pos dat)"
    using length_stored_value [of "Some v" ?pos dat] assms(3-5) Some
    by (intro mongo_fits_bson) auto
  then have "\<exists>m'. MongoIOClient_Write junk M m src dst = (Inr (src\<lparr>d_position := 0\<rparr>), m') \<and>
      mongo_obj M m' = (mongo_obj M m)(d_id dst \<mapsto> stored_value (Some v) ?pos dat)"
    by (rule MongoIOClient_Write_replaces [OF assms(1) Some v(1) new])
  then show ?thesis using Some by auto
qed

lemma file_write_overlay:
  assumes "\<not> fs_denied fs (d_id dst)" "whole src dat" "dat \<noteq> []"
    and "unat (d_position dst) + length dat \<le> fs_room fs" "unat (d_position dst) + length dat < 2 ^ 63"
  shows "FileIOClient_Write fs src dst =
    (Inr src, fs\<lparr>fs_files := (fs_files fs)(d_id dst \<mapsto>
       overlay (unat (d_position dst)) dat (old_bytes (fs_files fs (d_id dst))))\<rparr>)"
proof -
  have "unat (of_nat (length dat) :: size_t) = length dat" using assms(5) by (simp add: size_fits)
  then show ?thesis
    using FileIOClient_Write_overlay [of fs dst src dat dat] assms by (simp add: whole_def)
qed

text \<open>When the overlay and the value Redis and MongoDB store are the same.\<close>

lemma stored_value_overlay:
  assumes "dat \<noteq> []"
  shows "stored_value (Some v) pos dat = overlay pos dat v \<longleftrightarrow>
    pos = 0 \<or> length v < pos \<or> pos + length dat < length v \<or> v ! (pos - 1) = CHR 0x00"
proof -
  consider "pos = 0 \<or> pos + length dat < length v" | "length v < pos"
    | "0 < pos" "pos \<le> length v" "length v \<le> pos + length dat"
    by fastforce
  then show ?thesis
  proof cases
    case 1
    then show ?thesis by (auto simp: stored_value_def)
  next
    case 2
    then show ?thesis by (simp add: stored_value_def overlay_def)
  next
    case 3
    then have "take pos v = take (pos - 1) v @ [v ! (pos - 1)]"
      by (metis Suc_diff_1 Suc_le_lessD take_Suc_conv_app_nth)
    then show ?thesis using 3 by (auto simp: stored_value_def overlay_def zeros_def)
  qed
qed


section \<open>Properties\<close>

text \<open>
  C14. A positioned write through the file client followed by a read of the same range
  returns the bytes written, whatever the file held before and also when the write starts
  behind its end; the bytes of the file outside the range are kept, a gap is zero.
\<close>

theorem file_write_then_read:
  assumes "\<not> fs_denied fs (d_id dst)" "whole src dat" "dat \<noteq> []"
    and "unat (d_position dst) + length dat \<le> fs_room fs" "length dat \<le> fs_max_io fs"
    and "max (length (old_bytes (fs_files fs (d_id dst)))) (unat (d_position dst) + length dat) < 2 ^ 63"
    and "d_id s = d_id dst" "d_position s = d_position dst" "d_data_size s = d_data_size src"
    and "d_position d = 0"
  shows "\<exists>fs'. FileIOClient_Write fs src dst = (Inr src, fs') \<and>
    FileIOClient_Read junk fs' s d =
      Inr (d\<lparr>d_buffer := Some dat, d_data_size := of_nat (length dat)\<rparr>) \<and>
    fs_files fs' = (fs_files fs)(d_id dst \<mapsto>
      overlay (unat (d_position dst)) dat (old_bytes (fs_files fs (d_id dst))))"
proof -
  let ?old = "old_bytes (fs_files fs (d_id dst))" and ?pos = "unat (d_position dst)"
  let ?fs' = "fs\<lparr>fs_files := (fs_files fs)(d_id dst \<mapsto> overlay ?pos dat ?old)\<rparr>"
  have wr: "FileIOClient_Write fs src dst = (Inr src, ?fs')"
    using assms by (intro file_write_overlay) auto
  obtain pad where "length pad = unat (d_position d)"
    "FileIOClient_Read junk ?fs' s d =
      Inr (d\<lparr>d_buffer := Some (pad @ slice (unat (d_position s)) (length dat) (overlay ?pos dat ?old)),
             d_data_size := d_position d + of_nat (length dat)\<rparr>)"
    using FileIOClient_Read_slice [of ?fs' s "overlay ?pos dat ?old" "length dat" d junk] assms
    by (auto simp: length_overlay whole_def)
  then have "FileIOClient_Read junk ?fs' s d =
      Inr (d\<lparr>d_buffer := Some dat, d_data_size := of_nat (length dat)\<rparr>)"
    using assms(8,10) by (simp add: slice_overlay_same)
  then show ?thesis using wr by auto
qed

theorem file_write_then_read_witness:
  "let src = default_Data\<lparr>d_buffer := Some ''xyz'', d_data_size := 3\<rparr>;
       dst = default_Data\<lparr>d_id := ''/f'', d_position := 4\<rparr>;
       s = default_Data\<lparr>d_id := ''/f'', d_position := 4, d_data_size := 3\<rparr>;
       fs = \<lparr>fs_files = [''/f'' \<mapsto> ''ab''], fs_denied = (\<lambda>_. False), fs_room = 100, fs_max_io = 100\<rparr>
   in \<exists>fs'. FileIOClient_Write fs src dst = (Inr src, fs') \<and>
        FileIOClient_Read (\<lambda>_. CHR 0x00) fs' s default_Data =
          Inr (default_Data\<lparr>d_buffer := Some ''xyz'', d_data_size := 3\<rparr>) \<and>
        fs_files fs' ''/f'' = Some (''ab'' @ zeros 2 @ ''xyz'')"
  using file_write_then_read [of
      "\<lparr>fs_files = [''/f'' \<mapsto> ''ab''], fs_denied = (\<lambda>_. False), fs_room = 100, fs_max_io = 100\<rparr>"
      "default_Data\<lparr>d_id := ''/f'', d_position := 4\<rparr>"
      "default_Data\<lparr>d_buffer := Some ''xyz'', d_data_size := 3\<rparr>" "''xyz''"
      "default_Data\<lparr>d_id := ''/f'', d_position := 4, d_data_size := 3\<rparr>" default_Data "\<lambda>_. CHR 0x00"]
  by (auto simp: whole_def overlay_def)

text \<open>
  C15. The Redis client stores, for every position, length and old value, exactly
  \<open>stored_value\<close>: new objects ignore the position, writes inside the old value are the
  overlay, writes that reach the end keep the bytes before the position except the last
  one of them, which becomes a zero byte.
\<close>

theorem redis_write_stores:
  assumes "redis_ok R" "carries src dat" "length (old_bytes (redis_obj R r (d_id dst))) \<le> redis_max"
    and "unat (d_position dst) + length dat \<le> redis_max"
  shows "\<exists>r'. RedisIOClient_Write R r src dst = (Inr src, r') \<and>
    redis_obj R r' = (redis_obj R r)
      (d_id dst \<mapsto> stored_value (redis_obj R r (d_id dst)) (unat (d_position dst)) dat)"
  using assms by (rule redis_write_stored)

theorem redis_write_stores_witness:
  "\<exists>r'. RedisIOClient_Write map_redis [''k'' \<mapsto> ''abcd'']
          (default_Data\<lparr>d_buffer := Some ''xyz'', d_data_size := 3\<rparr>)
          (default_Data\<lparr>d_id := ''k'', d_position := 2\<rparr>) =
        (Inr (default_Data\<lparr>d_buffer := Some ''xyz'', d_data_size := 3\<rparr>), r') \<and>
      r' ''k'' = Some (''a'' @ zeros 1 @ ''xyz'')"
  using redis_write_stores [of map_redis "default_Data\<lparr>d_buffer := Some ''xyz'', d_data_size := 3\<rparr>" "''xyz''"
      "[''k'' \<mapsto> ''abcd'']" "default_Data\<lparr>d_id := ''k'', d_position := 2\<rparr>"]
  by (auto simp: map_redis_ok carries_def mem_read_def redis_max_def stored_value_def)

text \<open>
  C16. The Redis and the MongoDB client are equivalent: from the same old value, the same
  write is accepted by both and leaves both with the same value.
\<close>

theorem redis_mongo_writes_equivalent:
  assumes "redis_ok R" "mongo_ok M" "carries src dat" "redis_obj R r (d_id dst) = mongo_obj M m (d_id dst)"
    and "length (old_bytes (mongo_obj M m (d_id dst))) \<le> mongo_max"
    and "unat (d_position dst) + length dat \<le> mongo_max" "length (d_id dst) \<le> 4096"
  shows "\<exists>s1 r' s2 m'. RedisIOClient_Write R r src dst = (Inr s1, r') \<and>
    MongoIOClient_Write junk M m src dst = (Inr s2, m') \<and>
    redis_obj R r' (d_id dst) = mongo_obj M m' (d_id dst)"
proof -
  obtain r' where "RedisIOClient_Write R r src dst = (Inr src, r')"
    "redis_obj R r' (d_id dst) =
      Some (stored_value (mongo_obj M m (d_id dst)) (unat (d_position dst)) dat)"
    using redis_write_stored [of R src dat r dst] assms
    by (auto simp: redis_max_def mongo_max_def)
  moreover obtain s2 m' where "MongoIOClient_Write junk M m src dst = (Inr s2, m')"
    "mongo_obj M m' (d_id dst) =
      Some (stored_value (mongo_obj M m (d_id dst)) (unat (d_position dst)) dat)"
    using mongo_write_stored [of M src dat m dst junk] assms by auto
  ultimately show ?thesis by auto
qed

theorem redis_mongo_writes_equivalent_witness:
  "\<exists>s1 r' s2 m'. RedisIOClient_Write map_redis [''k'' \<mapsto> ''abcd'']
          (default_Data\<lparr>d_buffer := Some ''xyz'', d_data_size := 3\<rparr>)
          (default_Data\<lparr>d_id := ''k'', d_position := 2\<rparr>) = (Inr s1, r') \<and>
      MongoIOClient_Write (\<lambda>_. CHR 0x00) alist_mongo [(''k'', ''abcd'')]
          (default_Data\<lparr>d_buffer := Some ''xyz'', d_data_size := 3\<rparr>)
          (default_Data\<lparr>d_id := ''k'', d_position := 2\<rparr>) = (Inr s2, m') \<and>
      redis_obj map_redis r' ''k'' = mongo_obj alist_mongo m' ''k''"
proof -
  have "mongo_obj alist_mongo [(''k'', ''abcd'')] ''k'' = Some ''abcd''"
    by (simp add: mongo_obj_def alist_mongo_def)
  then show ?thesis
    using redis_mongo_writes_equivalent [OF map_redis_ok alist_mongo_ok,
        of "default_Data\<lparr>d_buffer := Some ''xyz'', d_data_size := 3\<rparr>" "''xyz''"
        "[''k'' \<mapsto> ''abcd'']" "default_Data\<lparr>d_id := ''k'', d_position := 2\<rparr>"
        "[(''k'', ''abcd'')]" "\<lambda>_. CHR 0x00"]
    by (simp add: carries_def mem_read_def mongo_max_def)
qed

text \<open>
  C17. The Redis and the file client leave the same bytes after the same non-empty write over
  the same old value iff the write starts at 0 or behind the end, or stays inside the old
  value, or the byte before its position happens to be zero.
\<close>

theorem redis_file_writes_agree:
  assumes "redis_ok R" "\<not> fs_denied fs (d_id dst)" "whole src dat" "dat \<noteq> []"
    and "redis_obj R r (d_id dst) = Some v" "fs_files fs (d_id dst) = Some v" "length v \<le> redis_max"
    and "unat (d_position dst) + length dat \<le> min redis_max (fs_room fs)"
  shows "redis_obj R (snd (RedisIOClient_Write R r src dst)) (d_id dst) =
      fs_files (snd (FileIOClient_Write fs src dst)) (d_id dst) \<longleftrightarrow>
    unat (d_position dst) = 0 \<or> length v < unat (d_position dst) \<or>
    unat (d_position dst) + length dat < length v \<or> v ! (unat (d_position dst) - 1) = CHR 0x00"
proof -
  let ?pos = "unat (d_position dst)"
  have small: "?pos + length dat < 2 ^ 63" using assms(8) by (auto simp: redis_max_def)
  have "carries src dat" using assms(3) small by (intro whole_carries) auto
  then have "redis_obj R (snd (RedisIOClient_Write R r src dst)) (d_id dst) =
      Some (stored_value (Some v) ?pos dat)"
    using redis_write_stored [of R src dat r dst] assms by auto
  moreover have "fs_files (snd (FileIOClient_Write fs src dst)) (d_id dst) = Some (overlay ?pos dat v)"
    using file_write_overlay [of fs dst src dat] assms small by auto
  ultimately show ?thesis by (simp add: stored_value_overlay [OF assms(4)])
qed

theorem redis_file_writes_agree_witness:
  "redis_obj map_redis (snd (RedisIOClient_Write map_redis [''k'' \<mapsto> ''abcd'']
      (default_Data\<lparr>d_buffer := Some ''xyz'', d_data_size := 3\<rparr>)
      (default_Data\<lparr>d_id := ''k'', d_position := 2\<rparr>))) ''k'' \<noteq>
   fs_files (snd (FileIOClient_Write
      \<lparr>fs_files = [''k'' \<mapsto> ''abcd''], fs_denied = (\<lambda>_. False), fs_room = 100, fs_max_io = 100\<rparr>
      (default_Data\<lparr>d_buffer := Some ''xyz'', d_data_size := 3\<rparr>)
      (default_Data\<lparr>d_id := ''k'', d_position := 2\<rparr>))) ''k''"
  using redis_file_writes_agree [OF map_redis_ok,
      of "\<lparr>fs_files = [''k'' \<mapsto> ''abcd''], fs_denied = (\<lambda>_. False), fs_room = 100, fs_max_io = 100\<rparr>"
      "default_Data\<lparr>d_id := ''k'', d_position := 2\<rparr>"
      "default_Data\<lparr>d_buffer := Some ''xyz'', d_data_size := 3\<rparr>" "''xyz''" "[''k'' \<mapsto> ''abcd'']" "''abcd''"]
  by (simp add: whole_def redis_max_def)

end
