(* ===== verification/Serializers.thy ===== *)
theory Serializers
  imports Error_Codes
begin

text \<open>
  \<^verbatim>\<open>src/symbios/storage_cost_predictor/serializers.h\<close>: the fixed-size buffers the cost
  predictor packs its model rows into and reads them from. An \<^verbatim>\<open>int\<close> and a \<^verbatim>\<open>size_t\<close> are words,
  a \<^verbatim>\<open>float\<close> is its 32-bit pattern; \<^verbatim>\<open>memcpy\<close> of a value stores its bytes least significant
  first (the little-endian targets the program is built for). \<^verbatim>\<open>ParseFloat\<close> lacks a return
  statement on its success path; its result, which no caller uses, is not modelled.
\<close>

section \<open>Bytes of a value\<close>

fun le_bytes :: "nat \<Rightarrow> nat \<Rightarrow> bytes" where
  "le_bytes 0 x = []"
| "le_bytes (Suc k) x = char_of (x mod 256) # le_bytes k (x div 256)"

fun le_value :: "bytes \<Rightarrow> nat" where
  "le_value [] = 0"
| "le_value (c # cs) = of_char c + 256 * le_value cs"

section \<open>BinarySerializer\<close>

record BinarySerializer =
  bs_data :: bytes
  bs_off :: size_t
  bs_size :: size_t

definition mk_BinarySerializer :: "(nat \<Rightarrow> char) \<Rightarrow> size_t \<Rightarrow> BinarySerializer" where
  "mk_BinarySerializer junk buf_size =
     \<lparr>bs_data = malloc junk (unat buf_size), bs_off = 0, bs_size = buf_size\<rparr>"

text \<open>The common body of the three writers; \<open>Inl\<close> when \<^verbatim>\<open>memcpy\<close> would leave the buffer.\<close>

definition write_raw :: "nat \<Rightarrow> nat \<Rightarrow> BinarySerializer \<Rightarrow> (bool \<times> BinarySerializer) res" where
  "write_raw k x s =
     (if bs_off s + of_nat k > bs_size s then Inr (False, s)
      else case memcpy_at (unat (bs_off s)) (le_bytes k x) (bs_data s) of
             None \<Rightarrow> Inl Undefined
           | Some d \<Rightarrow> Inr (True, s\<lparr>bs_data := d, bs_off := bs_off s + of_nat k\<rparr>))"

definition WriteInt :: "int32 \<Rightarrow> BinarySerializer \<Rightarrow> (bool \<times> BinarySerializer) res" where
  "WriteInt num s = write_raw 4 (unat num) s"

definition WriteUlong :: "size_t \<Rightarrow> BinarySerializer \<Rightarrow> (bool \<times> BinarySerializer) res" where
  "WriteUlong num s = write_raw 8 (unat num) s"

definition WriteFloat :: "int32 \<Rightarrow> BinarySerializer \<Rightarrow> (bool \<times> BinarySerializer) res" where
  "WriteFloat num s = write_raw 4 (unat num) s"

section \<open>BinaryDeserializer\<close>

record BinaryDeserializer =
  bd_data :: bytes
  bd_off :: size_t
  bd_size :: size_t

definition mk_BinaryDeserializer :: "(nat \<Rightarrow> char) \<Rightarrow> size_t \<Rightarrow> BinaryDeserializer" where
  "mk_BinaryDeserializer junk buf_size =
     \<lparr>bd_data = malloc junk (unat buf_size), bd_off = 0, bd_size = buf_size\<rparr>"

text \<open>The common body of the readers; \<open>None\<close> is the returned \<^verbatim>\<open>false\<close>, with nothing stored.\<close>

definition parse_raw :: "nat \<Rightarrow> BinaryDeserializer \<Rightarrow> (nat option \<times> BinaryDeserializer) res" where
  "parse_raw k d =
     (if bd_off d + of_nat k > bd_size d then Inr (None, d)
      else case mem_read (unat (bd_off d)) k (bd_data d) of
             None \<Rightarrow> Inl Undefined
           | Some b \<Rightarrow> Inr (Some (le_value b), d\<lparr>bd_off := bd_off d + of_nat k\<rparr>))"

definition ParseInt :: "BinaryDeserializer \<Rightarrow> (int32 option \<times> BinaryDeserializer) res" where
  "ParseInt d = and_then (parse_raw 4 d) (\<lambda>(v, d'). Inr (map_option of_nat v, d'))"

definition ParseUlong :: "BinaryDeserializer \<Rightarrow> (size_t option \<times> BinaryDeserializer) res" where
  "ParseUlong d = and_then (parse_raw 8 d) (\<lambda>(v, d'). Inr (map_option of_nat v, d'))"

definition ParseFloat :: "BinaryDeserializer \<Rightarrow> (int32 option \<times> BinaryDeserializer) res" where
  "ParseFloat d = and_then (parse_raw 4 d) (\<lambda>(v, d'). Inr (map_option of_nat v, d'))"

section \<open>Sequences of fields\<close>

datatype field_value = FInt int32 | FUlong size_t | FFloat int32

fun field_size :: "field_value \<Rightarrow> nat" where
  "field_size (FInt _) = 4"
| "field_size (FUlong _) = 8"
| "field_size (FFloat _) = 4"

fun write_field :: "field_value \<Rightarrow> BinarySerializer \<Rightarrow> (bool \<times> BinarySerializer) res" where
  "write_field (FInt x) s = WriteInt x s"
| "write_field (FUlong x) s = WriteUlong x s"
| "write_field (FFloat x) s = WriteFloat x s"

fun write_fields :: "field_value list \<Rightarrow> BinarySerializer \<Rightarrow> (bool list \<times> BinarySerializer) res" where
  "write_fields [] s = Inr ([], s)"
| "write_fields (v # vs) s =
     and_then (write_field v s) (\<lambda>(ok, s1).
     and_then (write_fields vs s1) (\<lambda>(oks, s2). Inr (ok # oks, s2)))"

text \<open>Reading back a field of the kind of \<open>v\<close>.\<close>

fun parse_like :: "field_value \<Rightarrow> BinaryDeserializer \<Rightarrow> (field_value option \<times> BinaryDeserializer) res" where
  "parse_like (FInt _) d = and_then (ParseInt d) (\<lambda>(x, d'). Inr (map_option FInt x, d'))"
| "parse_like (FUlong _) d = and_then (ParseUlong d) (\<lambda>(x, d'). Inr (map_option FUlong x, d'))"
| "parse_like (FFloat _) d = and_then (ParseFloat d) (\<lambda>(x, d'). Inr (map_option FFloat x, d'))"

fun parse_likes :: "field_value list \<Rightarrow> BinaryDeserializer \<Rightarrow> (field_value option list \<times> BinaryDeserializer) res" where
  "parse_likes [] d = Inr ([], d)"
| "parse_likes (v # vs) d =
     and_then (parse_like v d) (\<lambda>(x, d1).
     and_then (parse_likes vs d1) (\<lambda>(xs, d2). Inr (x # xs, d2)))"

fun field_bytes :: "field_value \<Rightarrow> bytes" where
  "field_bytes (FInt x) = le_bytes 4 (unat x)"
| "field_bytes (FUlong x) = le_bytes 8 (unat x)"
| "field_bytes (FFloat x) = le_bytes 4 (unat x)"

text \<open>The offset never passes the buffer and the buffer keeps its length.\<close>

definition wf_serializer :: "BinarySerializer \<Rightarrow> bool" where
  "wf_serializer s \<longleftrightarrow> length (bs_data s) = unat (bs_size s) \<and> bs_off s \<le> bs_size s \<and>
     unat (bs_size s) < 2 ^ 63"

section \<open>Lemmas\<close>

lemma length_le_bytes [simp]: "length (le_bytes k x) = k"
  by (induction k arbitrary: x) simp_all

lemma le_value_bytes: "le_value (le_bytes k x) = x mod 256 ^ k"
proof (induction k arbitrary: x)
  case 0
  then show ?case by simp
next
  case (Suc k)
  have "x mod 256 ^ Suc k = x mod 256 + 256 * (x div 256 mod 256 ^ k)"
    by (simp add: mod_mult2_eq)
  then show ?case using Suc by simp
qed

lemma field_bytes_size [simp]: "length (field_bytes v) = field_size v"
  by (cases v) simp_all

lemma write_raw_ok:
  assumes "wf_serializer s" "unat (bs_off s) + k \<le> unat (bs_size s)" "k \<le> 8"
  shows "write_raw k x s = Inr (True, s\<lparr>bs_data := take (unat (bs_off s)) (bs_data s) @ le_bytes k x @
      drop (unat (bs_off s) + k) (bs_data s), bs_off := bs_off s + of_nat k\<rparr>)"
proof -
  have "unat (bs_off s + of_nat k) = unat (bs_off s) + k"
    using assms by (simp add: wf_serializer_def size_add size_fits)
  then have "\<not> bs_off s + of_nat k > bs_size s" using assms(2) by (simp add: word_less_nat_alt)
  then show ?thesis using assms by (simp add: write_raw_def memcpy_at_def wf_serializer_def)
qed

lemma write_field_ok:
  assumes "wf_serializer s" "unat (bs_off s) + field_size v \<le> unat (bs_size s)"
  shows "write_field v s = Inr (True, s\<lparr>bs_data := take (unat (bs_off s)) (bs_data s) @ field_bytes v @
      drop (unat (bs_off s) + field_size v) (bs_data s), bs_off := bs_off s + of_nat (field_size v)\<rparr>)"
  using assms by (cases v) (simp_all add: WriteInt_def WriteUlong_def WriteFloat_def write_raw_ok)

lemma write_field_full:
  assumes "wf_serializer s" "unat (bs_size s) < unat (bs_off s) + field_size v"
  shows "write_field v s = Inr (False, s)"
proof -
  have "field_size v \<le> 8" by (cases v) simp_all
  then have "unat (bs_off s + of_nat (field_size v)) = unat (bs_off s) + field_size v"
    using assms(1) by (simp add: wf_serializer_def size_add size_fits word_le_nat_alt)
  then have "bs_off s + of_nat (field_size v) > bs_size s" using assms(2) by (simp add: word_less_nat_alt)
  then show ?thesis
    by (cases v) (simp_all add: WriteInt_def WriteUlong_def WriteFloat_def write_raw_def)
qed

text \<open>Writing a sequence that fits: the bytes follow each other from the old offset on.\<close>

lemma write_fields_ok:
  assumes "wf_serializer s" "unat (bs_off s) + sum_list (map field_size vs) \<le> unat (bs_size s)"
  shows "\<exists>s'. write_fields vs s = Inr (replicate (length vs) True, s') \<and> wf_serializer s' \<and>
    bs_size s' = bs_size s \<and> unat (bs_off s') = unat (bs_off s) + sum_list (map field_size vs) \<and>
    take (unat (bs_off s')) (bs_data s') =
      take (unat (bs_off s)) (bs_data s) @ concat (map field_bytes vs)"
  using assms
proof (induction vs arbitrary: s)
  case Nil
  then show ?case by simp
next
  case (Cons v vs)
  let ?o = "unat (bs_off s)"
  define s1 where "s1 = s\<lparr>bs_data := take ?o (bs_data s) @ field_bytes v @
      drop (?o + field_size v) (bs_data s), bs_off := bs_off s + of_nat (field_size v)\<rparr>"
  have v: "write_field v s = Inr (True, s1)"
    using write_field_ok [OF Cons.prems(1)] Cons.prems(2) by (simp add: s1_def)
  have "field_size v \<le> 8" by (cases v) simp_all
  then have off1: "unat (bs_off s1) = ?o + field_size v"
    using Cons.prems by (simp add: s1_def wf_serializer_def size_add size_fits)
  have wf1: "wf_serializer s1"
    using Cons.prems off1 by (auto simp: s1_def wf_serializer_def word_le_nat_alt)
  have pre1: "take (unat (bs_off s1)) (bs_data s1) = take ?o (bs_data s) @ field_bytes v"
    using off1 Cons.prems by (simp add: s1_def wf_serializer_def)
  obtain s' where "write_fields vs s1 = Inr (replicate (length vs) True, s')" "wf_serializer s'"
    "bs_size s' = bs_size s" "unat (bs_off s') = unat (bs_off s1) + sum_list (map field_size vs)"
    "take (unat (bs_off s')) (bs_data s') =
      take (unat (bs_off s1)) (bs_data s1) @ concat (map field_bytes vs)"
    using Cons.IH [OF wf1] Cons.prems(2) off1 by (auto simp: s1_def)
  then show ?case using v off1 pre1 by simp
qed

lemma parse_like_bytes:
  assumes "mem_read (unat (bd_off d)) (field_size v) (bd_data d) = Some (field_bytes v)"
    and "unat (bd_off d) + field_size v \<le> unat (bd_size d)" "unat (bd_size d) < 2 ^ 63"
  shows "parse_like v d = Inr (Some v, d\<lparr>bd_off := bd_off d + of_nat (field_size v)\<rparr>)"
proof -
  have "field_size v \<le> 8" by (cases v) simp_all
  then have "unat (bd_off d + of_nat (field_size v)) = unat (bd_off d) + field_size v"
    using assms(2,3) by (simp add: size_add size_fits)
  then have fits: "\<not> bd_off d + of_nat (field_size v) > bd_size d"
    using assms(2) by (simp add: word_less_nat_alt)
  have val4: "le_value (le_bytes 4 (unat (x :: int32))) = unat x" for x
    using unsigned_less [of x, where 'a = nat] by (simp add: le_value_bytes)
  have val8: "le_value (le_bytes 8 (unat (x :: size_t))) = unat x" for x
    by (simp add: le_value_bytes)
  show ?thesis
    using assms(1) fits
    by (cases v) (simp_all add: ParseInt_def ParseUlong_def ParseFloat_def parse_raw_def val4 val8)
qed

lemma parse_likes_bytes:
  assumes "take (sum_list (map field_size vs)) (drop (unat (bd_off d)) (bd_data d)) = concat (map field_bytes vs)"
    and "unat (bd_off d) + sum_list (map field_size vs) \<le> unat (bd_size d)"
    and "length (bd_data d) = unat (bd_size d)" "unat (bd_size d) < 2 ^ 63"
  shows "\<exists>d'. parse_likes vs d = Inr (map Some vs, d')"
  using assms
proof (induction vs arbitrary: d)
  case Nil
  then show ?case by simp
next
  case (Cons v vs)
  let ?o = "unat (bd_off d)" and ?k = "field_size v" and ?n = "sum_list (map field_size vs)"
  have split: "take ?k (drop ?o (bd_data d)) = field_bytes v"
    "take ?n (drop (?o + ?k) (bd_data d)) = concat (map field_bytes vs)"
    using Cons.prems(1,2,3)
    by (auto simp: take_add append_eq_append_conv add.commute)
  have "mem_read ?o ?k (bd_data d) = Some (field_bytes v)"
    using split(1) Cons.prems(2,3) by (simp add: mem_read_def slice_def)
  then have v: "parse_like v d = Inr (Some v, d\<lparr>bd_off := bd_off d + of_nat ?k\<rparr>)"
    using parse_like_bytes Cons.prems(2,4) by simp
  have "?k \<le> 8" by (cases v) simp_all
  then have off1: "unat (bd_off d + of_nat ?k) = ?o + ?k"
    using Cons.prems(2,4) by (simp add: size_add size_fits)
  obtain d' where "parse_likes vs (d\<lparr>bd_off := bd_off d + of_nat ?k\<rparr>) = Inr (map Some vs, d')"
    using Cons.IH [of "d\<lparr>bd_off := bd_off d + of_nat ?k\<rparr>"] split(2) off1 Cons.prems(2-4) by auto
  then show ?case using v by simp
qed

text \<open>Any sequence: what does not fit is refused.\<close>

lemma write_fields_total:
  assumes "wf_serializer s"
  shows "\<exists>oks s'. write_fields vs s = Inr (oks, s') \<and> wf_serializer s' \<and> bs_size s' = bs_size s \<and>
    length oks = length vs \<and> bs_off s \<le> bs_off s'"
  using assms
proof (induction vs arbitrary: s)
  case Nil
  then show ?case by simp
next
  case (Cons v vs)
  have "\<exists>ok s1. write_field v s = Inr (ok, s1) \<and> wf_serializer s1 \<and> bs_size s1 = bs_size s \<and>
      bs_off s \<le> bs_off s1"
  proof (cases "unat (bs_off s) + field_size v \<le> unat (bs_size s)")
    case True
    have "sum_list (map field_size [v]) = field_size v" by simp
    then show ?thesis
      using write_fields_ok [OF Cons.prems, of "[v]"] True write_field_ok [OF Cons.prems True]
      by (auto simp: word_le_nat_alt)
  next
    case False
    then show ?thesis using write_field_full [OF Cons.prems] Cons.prems by auto
  qed
  then obtain ok s1 where "write_field v s = Inr (ok, s1)" "wf_serializer s1" "bs_size s1 = bs_size s"
    "bs_off s \<le> bs_off s1" by blast
  moreover from Cons.IH [OF this(2)] obtain oks s' where "write_fields vs s1 = Inr (oks, s')"
    "wf_serializer s'" "bs_size s' = bs_size s1" "length oks = length vs" "bs_off s1 \<le> bs_off s'"
    by blast
  ultimately show ?case by (auto intro: order_trans)
qed

section \<open>Properties\<close>





end
