(* ===== verification/Double_Buffer.thy ===== *)
theory Double_Buffer
  imports Error_Codes "HOL-Library.Multiset"
begin

text \<open>
  \<^verbatim>\<open>src/symbios/storage_cost_predictor/double_buffer.h\<close>: two lists, each with a lock. A list
  index is a Boolean (\<^verbatim>\<open>!tid\<close> is negation). The operations are given twice: as functions on
  the lists (\<open>push\<close> with the locks other threads hold as an argument), and as the steps of
  concurrent threads, where \<open>pop\<close> is two steps, because the code looks at the size of a list
  before it takes the lock.
\<close>

section \<open>The operations\<close>

type_synonym 'a dbuf = "bool \<Rightarrow> 'a list"

definition db_empty :: "'a dbuf" where
  "db_empty = (\<lambda>tid. [])"

definition db_append :: "bool \<Rightarrow> 'a \<Rightarrow> 'a dbuf \<Rightarrow> 'a dbuf" where
  "db_append tid obj b = b(tid := b tid @ [obj])"

text \<open>After the two \<^verbatim>\<open>try_lock\<close> attempts the index is back at its start, and the thread waits.\<close>

definition push :: "(bool \<Rightarrow> bool) \<Rightarrow> bool \<Rightarrow> 'a \<Rightarrow> 'a dbuf \<Rightarrow> 'a dbuf" where
  "push held tid obj b =
     (if \<not> held tid then db_append tid obj b
      else if \<not> held (\<not> tid) then db_append (\<not> tid) obj b
      else db_append tid obj b)"

definition pop :: "bool \<Rightarrow> 'a dbuf \<Rightarrow> ('a \<times> 'a dbuf) option" where
  "pop tid b =
     (if b tid \<noteq> [] then Some (hd (b tid), b(tid := tl (b tid)))
      else if b (\<not> tid) \<noteq> [] then Some (hd (b (\<not> tid)), b(\<not> tid := tl (b (\<not> tid))))
      else None)"

definition pop_sync :: "'a dbuf \<Rightarrow> ('a \<times> 'a dbuf) option" where
  "pop_sync b =
     (if b False \<noteq> [] then Some (hd (b False), b(False := tl (b False)))
      else if b True \<noteq> [] then Some (hd (b True), b(True := tl (b True)))
      else None)"

definition db_size :: "'a dbuf \<Rightarrow> nat" where
  "db_size b = length (b False) + length (b True)"

lemma pop_size: "pop tid b = Some (x, b') \<Longrightarrow> db_size b' < db_size b"
  by (cases tid) (auto simp: pop_def db_size_def split: if_splits)

text \<open>\<^verbatim>\<open>while (pop(tid, obj)) ...\<close>\<close>

function drain :: "bool \<Rightarrow> 'a dbuf \<Rightarrow> 'a list" where
  "drain tid b = (case pop tid b of None \<Rightarrow> [] | Some (x, b') \<Rightarrow> x # drain tid b')"
  by pat_completeness auto
termination
  by (relation "measure (\<lambda>(tid, b). db_size b)") (auto dest: pop_size)

declare drain.simps [simp del]

section \<open>Concurrent threads\<close>

text \<open>
  A consumer has seen a list non-empty (\<open>Ready\<close>) and is about to lock it and take its first
  element. \<open>db_fault\<close> records that a consumer took the first element of an empty list, which
  is undefined. \<open>db_pushed\<close> and \<open>db_popped\<close> log the elements.
\<close>

datatype consumer = Idle | Ready bool

record 'a dbstate =
  db_lists :: "'a dbuf"
  db_pc :: "nat \<Rightarrow> consumer"
  db_fault :: bool
  db_pushed :: "'a multiset"
  db_popped :: "'a multiset"

definition db_init :: "'a dbstate" where
  "db_init = \<lparr>db_lists = db_empty, db_pc = (\<lambda>c. Idle), db_fault = False, db_pushed = {#}, db_popped = {#}\<rparr>"

inductive db_step :: "nat set \<Rightarrow> 'a dbstate \<Rightarrow> 'a dbstate \<Rightarrow> bool" for C where
  step_push: "db_step C s (s\<lparr>db_lists := push held tid x (db_lists s),
                            db_pushed := add_mset x (db_pushed s)\<rparr>)"
| step_check: "c \<in> C \<Longrightarrow> db_pc s c = Idle \<Longrightarrow> db_lists s tid \<noteq> [] \<Longrightarrow>
    db_step C s (s\<lparr>db_pc := (db_pc s)(c := Ready tid)\<rparr>)"
| step_take: "c \<in> C \<Longrightarrow> db_pc s c = Ready tid \<Longrightarrow> db_lists s tid = x # xs \<Longrightarrow>
    db_step C s (s\<lparr>db_lists := (db_lists s)(tid := xs), db_pc := (db_pc s)(c := Idle),
                   db_popped := add_mset x (db_popped s)\<rparr>)"
| step_fault: "c \<in> C \<Longrightarrow> db_pc s c = Ready tid \<Longrightarrow> db_lists s tid = [] \<Longrightarrow>
    db_step C s (s\<lparr>db_fault := True\<rparr>)"

inductive db_reach :: "nat set \<Rightarrow> 'a dbstate \<Rightarrow> bool" for C where
  db_reach_init: "db_reach C db_init"
| db_reach_step: "db_reach C s \<Longrightarrow> db_step C s s' \<Longrightarrow> db_reach C s'"

definition db_inv :: "nat \<Rightarrow> 'a dbstate \<Rightarrow> bool" where
  "db_inv c s \<longleftrightarrow>
     \<not> db_fault s \<and> (\<forall>c'. c' \<noteq> c \<longrightarrow> db_pc s c' = Idle) \<and>
     (\<forall>tid. db_pc s c = Ready tid \<longrightarrow> db_lists s tid \<noteq> []) \<and>
     db_pushed s = db_popped s + mset (db_lists s False) + mset (db_lists s True)"

section \<open>Lemmas\<close>

lemma push_lists: "push held tid x b = db_append tid x b \<or> push held tid x b = db_append (\<not> tid) x b"
  by (auto simp: push_def)

lemma push_mset:
  "mset (push held tid x b False) + mset (push held tid x b True) = add_mset x (mset (b False) + mset (b True))"
  by (cases tid) (auto simp: push_def db_append_def)

text \<open>An undisturbed \<^verbatim>\<open>pop\<close> is a check followed by a take.\<close>

lemma pop_two_steps:
  assumes "pop tid (db_lists s) = Some (x, b)" "c \<in> C" "db_pc s c = Idle"
  shows "\<exists>t s'. db_step C s s' \<and> db_pc s' c = Ready t \<and>
    db_step C s' (s\<lparr>db_lists := b, db_popped := add_mset x (db_popped s)\<rparr>)"
proof -
  obtain t xs where t: "db_lists s t = x # xs" "b = (db_lists s)(t := xs)"
  proof (cases "db_lists s tid = []")
    case True
    with assms(1) that [of "\<not> tid" "tl (db_lists s (\<not> tid))"] show thesis by (auto simp: pop_def split: if_splits)
  next
    case False
    with assms(1) that [of tid "tl (db_lists s tid)"] show thesis by (auto simp: pop_def)
  qed
  let ?s = "s\<lparr>db_pc := (db_pc s)(c := Ready t)\<rparr>"
  have "db_step C s ?s" using t(1) assms by (intro step_check) simp_all
  moreover have "db_step C ?s (s\<lparr>db_lists := b, db_popped := add_mset x (db_popped s)\<rparr>)"
    using step_take [of c C ?s t x xs] t assms by (simp add: fun_upd_idem)
  ultimately show ?thesis by (intro exI conjI) (assumption, simp, assumption)
qed

lemma push_nonempty: "b t \<noteq> [] \<Longrightarrow> push held tid x b t \<noteq> []"
  by (auto simp: push_def db_append_def)

lemma drain_order: "drain tid b = b tid @ b (\<not> tid)"
proof (induction "db_size b" arbitrary: b rule: less_induct)
  case less
  show ?case
  proof (cases "pop tid b")
    case None
    then show ?thesis by (subst drain.simps) (auto simp: pop_def split: if_splits)
  next
    case (Some r)
    obtain x b' where r: "r = (x, b')" by (cases r)
    with Some have "db_size b' < db_size b" by (simp add: pop_size)
    then have "drain tid b' = b' tid @ b' (\<not> tid)" by (rule less)
    then have "drain tid b = x # b' tid @ b' (\<not> tid)"
      using Some r by (subst drain.simps) simp
    also have "\<dots> = b tid @ b (\<not> tid)"
      using Some r by (auto simp: pop_def split: if_splits)
    finally show ?thesis .
  qed
qed

lemma db_step_inv: "db_step {c} s s' \<Longrightarrow> db_inv c s \<Longrightarrow> db_inv c s'"
proof (induction rule: db_step.induct)
  case (step_push s x held tid)
  then show ?case
    using push_mset [of held tid x "db_lists s"] push_nonempty [of "db_lists s"]
    by (auto simp: db_inv_def add.assoc)
next
  case (step_check c' s tid)
  then show ?case by (auto simp: db_inv_def)
next
  case (step_take c' s tid x xs)
  then show ?case by (cases tid) (auto simp: db_inv_def)
next
  case (step_fault c' s tid)
  then show ?case by (auto simp: db_inv_def)
qed

lemma db_reach_inv: "db_reach {c} s \<Longrightarrow> db_inv c s"
proof (induction rule: db_reach.induct)
  case db_reach_init
  then show ?case by (simp add: db_inv_def db_init_def db_empty_def)
next
  case (db_reach_step s s')
  then show ?case by (blast intro: db_step_inv)
qed

section \<open>Properties\<close>

text \<open>
  C20. One consumer. With any number of producers and a single consumer, the buffer never
  takes from an empty list, and nothing is lost or invented: the elements pushed are the
  elements popped and those still in the two lists.
\<close>

theorem double_buffer_one_consumer:
  assumes "db_reach {c} s"
  shows "\<not> db_fault s \<and>
    db_pushed s = db_popped s + mset (db_lists s False) + mset (db_lists s True)"
  using db_reach_inv [OF assms] by (simp add: db_inv_def)

theorem double_buffer_one_consumer_witness:
  "\<exists>s. db_reach {0} s \<and> db_pushed s = {#7 :: nat#} \<and> \<not> db_fault s \<and>
     db_pushed s = db_popped s + mset (db_lists s False) + mset (db_lists s True)"
proof -
  have reach: "db_reach {0} (db_init\<lparr>db_lists := push (\<lambda>t. False) False 7 (db_lists db_init),
      db_pushed := add_mset (7 :: nat) (db_pushed db_init)\<rparr>)" (is "db_reach _ ?s")
    by (rule db_reach_step [OF db_reach_init step_push])
  have "db_pushed ?s = {#7#}" by (simp add: db_init_def)
  then show ?thesis using double_buffer_one_consumer [OF reach] reach by blast
qed

text \<open>
  C21. Two consumers. The size test comes before the lock: with two consumers a run exists
  that takes the first element of an empty list.
\<close>

theorem double_buffer_two_consumers_race:
  "\<exists>s :: nat dbstate. db_reach {0, 1} s \<and> db_fault s"
proof -
  define s1 :: "nat dbstate" where "s1 = db_init\<lparr>db_lists := push (\<lambda>t. False) False 7 (db_lists db_init),
      db_pushed := add_mset 7 (db_pushed db_init)\<rparr>"
  define s2 where "s2 = s1\<lparr>db_pc := (db_pc s1)(0 := Ready False)\<rparr>"
  define s3 where "s3 = s2\<lparr>db_pc := (db_pc s2)(1 := Ready False)\<rparr>"
  define s4 where "s4 = s3\<lparr>db_lists := (db_lists s3)(False := []), db_pc := (db_pc s3)(0 := Idle),
      db_popped := add_mset 7 (db_popped s3)\<rparr>"
  have l1: "db_lists s1 False = [7]" "db_pc s1 = (\<lambda>c. Idle)"
    by (simp_all add: s1_def db_init_def push_def db_append_def db_empty_def)
  have "db_reach {0, 1} s1" unfolding s1_def by (rule db_reach_step [OF db_reach_init step_push])
  moreover have "db_step {0, 1} s1 s2" unfolding s2_def using l1 by (intro step_check) simp_all
  moreover have "db_step {0, 1} s2 s3" unfolding s3_def using l1 by (intro step_check) (simp_all add: s2_def)
  moreover have "db_step {0, 1} s3 s4" unfolding s4_def
    using l1 by (intro step_take) (simp_all add: s3_def s2_def)
  moreover have "db_step {0, 1} s4 (s4\<lparr>db_fault := True\<rparr>)"
    by (rule step_fault [where c = 1 and tid = False]) (simp_all add: s4_def s3_def)
  ultimately have "db_reach {0, 1} (s4\<lparr>db_fault := True\<rparr>)" by (meson db_reach_step)
  then show ?thesis by (intro exI [of _ "s4\<lparr>db_fault := True\<rparr>"]) simp
qed

end
