(* ===== verification/Cost_Predictor.thy ===== *)
theory Cost_Predictor
  imports Serializers Double_Buffer
begin

text \<open>
  \<^verbatim>\<open>src/symbios/storage_cost_predictor/storage_cost_predictor.h\<close>: a linear model of the
  bandwidth per storage configuration (\<^verbatim>\<open>LinRegModel\<close>) and the predictor that keeps the
  models, loads and saves their coefficients and counts the feedback of a window.

  The arithmetic on \<^verbatim>\<open>double\<close> and the conversions to and from \<^verbatim>\<open>float\<close> are the record \<open>flops\<close>;
  dlib's least-squares solver is the parameter \<open>solve\<close>. The feedback queue is filled by the
  main thread and emptied by the worker; the operations are modelled one at a time, with no
  lock held by another thread. The threads are in \<open>Predictor_Process\<close>.
\<close>

section \<open>Linear models\<close>

record 'd flops =
  f_zero :: 'd
  f_add :: "'d \<Rightarrow> 'd \<Rightarrow> 'd"
  f_mul :: "'d \<Rightarrow> 'd \<Rightarrow> 'd"
  f_half :: "'d \<Rightarrow> 'd"
  f_of_int :: "int \<Rightarrow> 'd"
  f_of_float :: "int32 \<Rightarrow> 'd"
  f_to_float :: "'d \<Rightarrow> int32"

type_synonym 'd triple = "'d \<times> 'd \<times> 'd"

text \<open>An observation: the inputs (processes, bytes read, bytes written) and the bandwidth.\<close>

type_synonym 'd observation = "'d triple \<times> 'd"

record 'd LinRegModel =
  lr_dataset :: "'d observation dbuf"
  lr_coeffs_q :: "'d triple dbuf"
  lr_coeffs :: "bool \<Rightarrow> 'd triple"
  lr_buffer :: bool

definition mk_LinRegModel :: "'d flops \<Rightarrow> 'd LinRegModel" where
  "mk_LinRegModel F =
     \<lparr>lr_dataset = db_empty, lr_coeffs_q = db_empty,
      lr_coeffs = (\<lambda>b. (f_zero F, f_zero F, f_zero F)), lr_buffer = False\<rparr>"

definition no_lock :: "bool \<Rightarrow> bool" where
  "no_lock tid = False"

text \<open>
  The residual dlib is given: the square of the distance between the bandwidth and the linear
  form. \<open>sub\<close> is the subtraction of doubles.
\<close>

definition Residual :: "'d flops \<Rightarrow> ('d \<Rightarrow> 'd \<Rightarrow> 'd) \<Rightarrow> 'd observation \<Rightarrow> 'd triple \<Rightarrow> 'd" where
  "Residual F sub data params =
     (case (data, params) of
        (((x0, x1, x2), y), (p0, p1, p2)) \<Rightarrow>
          let s = f_add F (f_add F (f_add F (f_zero F) (f_mul F p0 x0)) (f_mul F p1 x1)) (f_mul F p2 x2)
          in f_mul F (sub y s) (sub y s))"

definition GetWindow :: "'d LinRegModel \<Rightarrow> 'd observation list \<times> 'd LinRegModel" where
  "GetWindow m = (drain True (lr_dataset m), m\<lparr>lr_dataset := db_empty\<rparr>)"

definition average :: "'d flops \<Rightarrow> 'd triple \<Rightarrow> 'd triple \<Rightarrow> 'd triple" where
  "average F old new =
     (case (old, new) of
        ((a, b, c), (x, y, z)) \<Rightarrow> (f_half F (f_add F a x), f_half F (f_add F b y), f_half F (f_add F c z)))"

definition UpdateCoeffs :: "'d flops \<Rightarrow> 'd triple \<Rightarrow> bool \<Rightarrow> 'd LinRegModel \<Rightarrow> 'd LinRegModel" where
  "UpdateCoeffs F coeffs required m =
     (let buffer = (\<not> lr_buffer m)
      in m\<lparr>lr_coeffs := (lr_coeffs m)(buffer := average F (lr_coeffs m buffer) coeffs),
           lr_coeffs_q := (if required then push no_lock True coeffs (lr_coeffs_q m) else lr_coeffs_q m),
           lr_buffer := buffer\<rparr>)"

definition UpdateCoeffs_of :: "'d flops \<Rightarrow> 'd \<Rightarrow> 'd \<Rightarrow> 'd \<Rightarrow> 'd LinRegModel \<Rightarrow> 'd LinRegModel" where
  "UpdateCoeffs_of F nprocs_coeff tot_read_coeff tot_write_coeff m =
     UpdateCoeffs F (nprocs_coeff, tot_read_coeff, tot_write_coeff) False m"

definition Fit_model :: "'d flops \<Rightarrow> ('d observation list \<Rightarrow> 'd triple) \<Rightarrow> 'd LinRegModel \<Rightarrow> 'd LinRegModel" where
  "Fit_model F solve m =
     (case GetWindow m of
        (datavec, m1) \<Rightarrow> if datavec \<noteq> [] then UpdateCoeffs F (solve datavec) True m1 else m1)"

definition Feedback_model :: "'d \<Rightarrow> 'd \<Rightarrow> 'd \<Rightarrow> 'd \<Rightarrow> 'd LinRegModel \<Rightarrow> 'd LinRegModel" where
  "Feedback_model bw nprocs read_bytes write_bytes m =
     m\<lparr>lr_dataset := push no_lock False ((nprocs, read_bytes, write_bytes), bw) (lr_dataset m)\<rparr>"

definition Predict_model :: "'d flops \<Rightarrow> 'd \<Rightarrow> 'd \<Rightarrow> 'd \<Rightarrow> 'd LinRegModel \<Rightarrow> 'd" where
  "Predict_model F nprocs read_bytes write_bytes m =
     (case lr_coeffs m (lr_buffer m) of
        (a, b, c) \<Rightarrow>
          f_add F (f_add F (f_mul F a nprocs) (f_mul F b read_bytes)) (f_mul F c write_bytes))"

section \<open>The predictor\<close>

record 'd predictor =
  sp_nprocs :: int
  sp_commit :: bool
  sp_window_size :: size_t
  sp_window_tick :: size_t
  sp_models :: "(int32 \<times> 'd LinRegModel) list"
  sp_configs :: "int32 list"

definition mk_StorageCostPredictor :: "'d predictor" where
  "mk_StorageCostPredictor =
     \<lparr>sp_nprocs = 1, sp_commit = True, sp_window_size = 256, sp_window_tick = 0,
      sp_models = [], sp_configs = []\<rparr>"

definition SetWindowSize :: "size_t \<Rightarrow> 'd predictor \<Rightarrow> 'd predictor" where
  "SetWindowSize window_size sp = sp\<lparr>sp_window_size := window_size\<rparr>"

definition EnableMetricStorage :: "bool \<Rightarrow> 'd predictor \<Rightarrow> 'd predictor" where
  "EnableMetricStorage commit_metrics sp = sp\<lparr>sp_commit := commit_metrics\<rparr>"

text \<open>\<^verbatim>\<open>storage_models_[conf]\<close>: a fresh model is inserted for a new configuration.\<close>

definition model_at :: "'d flops \<Rightarrow> int32 \<Rightarrow> 'd predictor \<Rightarrow> 'd LinRegModel" where
  "model_at F conf sp =
     (case map_of (sp_models sp) conf of None \<Rightarrow> mk_LinRegModel F | Some m \<Rightarrow> m)"

fun alist_set :: "int32 \<Rightarrow> 'd LinRegModel \<Rightarrow> (int32 \<times> 'd LinRegModel) list \<Rightarrow> (int32 \<times> 'd LinRegModel) list" where
  "alist_set k m [] = [(k, m)]"
| "alist_set k m ((k', m') # ms) = (if k' = k then (k, m) # ms else (k', m') # alist_set k m ms)"

definition set_model :: "int32 \<Rightarrow> 'd LinRegModel \<Rightarrow> 'd predictor \<Rightarrow> 'd predictor" where
  "set_model conf m sp = sp\<lparr>sp_models := alist_set conf m (sp_models sp)\<rparr>"

text \<open>A row that is not all in the buffer leaves its variables uninitialised.\<close>

definition ParseModelRow ::
  "'d flops \<Rightarrow> BinaryDeserializer \<Rightarrow> 'd predictor \<Rightarrow> (BinaryDeserializer \<times> 'd predictor) res" where
  "ParseModelRow F d sp =
     and_then (ParseFloat d) (\<lambda>(a, d1).
     and_then (ParseFloat d1) (\<lambda>(b, d2).
     and_then (ParseFloat d2) (\<lambda>(c, d3).
     and_then (ParseInt d3) (\<lambda>(k, d4).
       case (a, b, c, k) of
         (Some x, Some y, Some z, Some conf) \<Rightarrow>
           let sp1 = (if map_of (sp_models sp) conf = None
                      then sp\<lparr>sp_configs := sp_configs sp @ [conf]\<rparr> else sp);
               m = UpdateCoeffs_of F (f_of_float F x) (f_of_float F y) (f_of_float F z)
                     (model_at F conf sp1)
           in Inr (d4, set_model conf m sp1)
       | _ \<Rightarrow> Inl Undefined))))"

definition RECORD_SIZE :: nat where
  "RECORD_SIZE = 3 * 4 + 4"

text \<open>
  The loop of \<^verbatim>\<open>LoadModelCSV_part\<close>: every \<^verbatim>\<open>fread\<close> stores its bytes at the start of the
  deserializer's buffer; the offset the rows are parsed from is not reset.
\<close>

function load_rows ::
  "'d flops \<Rightarrow> BinaryDeserializer \<Rightarrow> bytes \<Rightarrow> 'd predictor \<Rightarrow> 'd predictor res" where
  "load_rows F d rest sp =
     (let chunk = take RECORD_SIZE rest in
      if chunk = [] then Inr sp
      else case memcpy_at 0 chunk (bd_data d) of
             None \<Rightarrow> Inl Undefined
           | Some dat \<Rightarrow>
               if length chunk div RECORD_SIZE = 1
               then and_then (ParseModelRow F (d\<lparr>bd_data := dat\<rparr>) sp) (\<lambda>(d', sp').
                      load_rows F d' (drop RECORD_SIZE rest) sp')
               else load_rows F (d\<lparr>bd_data := dat\<rparr>) (drop RECORD_SIZE rest) sp)"
  by pat_completeness auto
termination
  by (relation "measure (\<lambda>(F, d, rest, sp). length rest)") (auto simp: RECORD_SIZE_def)

declare load_rows.simps [simp del]

definition MB :: size_t where "MB = push_bit 20 1"

definition buffer_size :: size_t where
  "buffer_size = 2 * MB"

definition LoadModelCSV_part ::
  "'d flops \<Rightarrow> (nat \<Rightarrow> char) \<Rightarrow> bytes option \<Rightarrow> bool \<Rightarrow> 'd predictor \<Rightarrow> (bool \<times> 'd predictor) res" where
  "LoadModelCSV_part F junk file required sp =
     (case file of
        None \<Rightarrow> if required then Inl (Thrown_Int 1) else Inr (False, sp)
      | Some content \<Rightarrow>
          and_then (load_rows F (mk_BinaryDeserializer junk buffer_size) content sp) (\<lambda>sp'.
            Inr (True, sp')))"

text \<open>\<^verbatim>\<open>LoadModelCSV\<close>: the parts of all processes (\<open>parts\<close>), then the common file.\<close>

fun load_parts ::
  "'d flops \<Rightarrow> (nat \<Rightarrow> char) \<Rightarrow> bytes option list \<Rightarrow> 'd predictor \<Rightarrow> 'd predictor res" where
  "load_parts F junk [] sp = Inr sp"
| "load_parts F junk (part # parts) sp =
     and_then (LoadModelCSV_part F junk part False sp) (\<lambda>(ok, sp'). load_parts F junk parts sp')"

definition LoadModelCSV ::
  "'d flops \<Rightarrow> (nat \<Rightarrow> char) \<Rightarrow> bool \<Rightarrow> bytes option list \<Rightarrow> bytes option \<Rightarrow> 'd predictor \<Rightarrow> 'd predictor res" where
  "LoadModelCSV F junk own_file_opens parts common sp =
     (if \<not> own_file_opens then Inl (Thrown_Int 1)
      else and_then (load_parts F junk parts sp) (\<lambda>sp1.
           and_then (LoadModelCSV_part F junk common True sp1) (\<lambda>(ok, sp2). Inr sp2)))"

text \<open>The rows of one model: the queue is emptied list 0 first; refused fields are ignored.\<close>

definition row_fields :: "'d flops \<Rightarrow> int32 \<Rightarrow> 'd triple \<Rightarrow> field_value list" where
  "row_fields F conf t =
     (case t of (a, b, c) \<Rightarrow>
        [FFloat (f_to_float F a), FFloat (f_to_float F b), FFloat (f_to_float F c), FInt conf])"

fun save_models ::
  "'d flops \<Rightarrow> int32 list \<Rightarrow> BinarySerializer \<Rightarrow> 'd predictor \<Rightarrow> (BinarySerializer \<times> 'd predictor) res" where
  "save_models F [] s sp = Inr (s, sp)"
| "save_models F (conf # confs) s sp =
     (let m = model_at F conf sp;
          sp1 = set_model conf (m\<lparr>lr_coeffs_q := db_empty\<rparr>) sp
      in and_then (write_fields (concat (map (row_fields F conf) (drain False (lr_coeffs_q m)))) s)
           (\<lambda>(oks, s'). save_models F confs s' sp1))"

text \<open>\<open>written\<close> is what \<^verbatim>\<open>fwrite\<close> returns for the serialized bytes.\<close>

definition SaveCSV :: "bool \<Rightarrow> (nat \<Rightarrow> nat) \<Rightarrow> bytes \<Rightarrow> unit res" where
  "SaveCSV file_open written serial =
     (if \<not> file_open then Inl (Thrown_Int 1)
      else if written (length serial) < length serial then Inl (Thrown_Int 1) else Inr ())"

definition SaveModelCSV ::
  "'d flops \<Rightarrow> (nat \<Rightarrow> char) \<Rightarrow> bool \<Rightarrow> (nat \<Rightarrow> nat) \<Rightarrow> 'd predictor \<Rightarrow> (bytes \<times> 'd predictor) res" where
  "SaveModelCSV F junk file_open written sp =
     and_then (save_models F (sp_configs sp) (mk_BinarySerializer junk buffer_size) sp) (\<lambda>(s, sp').
       let serial = take (unat (bs_off s)) (bs_data s)
       in and_then (SaveCSV file_open written serial) (\<lambda>_. Inr (serial, sp')))"

definition CommitMetrics ::
  "'d flops \<Rightarrow> (nat \<Rightarrow> char) \<Rightarrow> bool \<Rightarrow> (nat \<Rightarrow> nat) \<Rightarrow> 'd predictor \<Rightarrow> (bytes \<times> 'd predictor) res" where
  "CommitMetrics F junk file_open written sp =
     (if \<not> sp_commit sp then Inr ([], sp) else SaveModelCSV F junk file_open written sp)"

fun fit_models ::
  "'d flops \<Rightarrow> ('d observation list \<Rightarrow> 'd triple) \<Rightarrow> int32 list \<Rightarrow> 'd predictor \<Rightarrow> 'd predictor" where
  "fit_models F solve [] sp = sp"
| "fit_models F solve (conf # confs) sp =
     fit_models F solve confs (set_model conf (Fit_model F solve (model_at F conf sp)) sp)"

definition Fit :: "'d flops \<Rightarrow> ('d observation list \<Rightarrow> 'd triple) \<Rightarrow> 'd predictor \<Rightarrow> 'd predictor" where
  "Fit F solve sp = fit_models F solve (sp_configs sp) sp"

definition Feedback :: "'d flops \<Rightarrow> 'd \<Rightarrow> 'd \<Rightarrow> 'd \<Rightarrow> int32 \<Rightarrow> 'd predictor \<Rightarrow> 'd predictor" where
  "Feedback F bw_measured read_bytes write_bytes storage_index sp =
     (let sp1 = set_model storage_index
                  (Feedback_model bw_measured (f_of_int F (sp_nprocs sp)) write_bytes read_bytes
                     (model_at F storage_index sp)) sp
      in sp1\<lparr>sp_window_tick := sp_window_tick sp1 + 1\<rparr>)"

definition Predict :: "'d flops \<Rightarrow> 'd \<Rightarrow> 'd \<Rightarrow> int32 \<Rightarrow> 'd predictor \<Rightarrow> 'd \<times> 'd predictor" where
  "Predict F read_bytes write_bytes storage_index sp =
     (let m = model_at F storage_index sp
      in (Predict_model F (f_of_int F (sp_nprocs sp)) read_bytes write_bytes m,
          set_model storage_index m sp))"

section \<open>Lemmas\<close>

lemma map_of_alist_set: "map_of (alist_set k m ms) k' = (if k' = k then Some m else map_of ms k')"
  by (induction ms rule: alist_set.induct) auto

lemma model_at_set: "model_at F k (set_model k' m sp) = (if k = k' then m else model_at F k sp)"
  by (simp add: model_at_def set_model_def map_of_alist_set)

section \<open>What loading reads\<close>

text \<open>
  Two deserializers that are past the first record and agree on everything after it.
\<close>

definition alike :: "BinaryDeserializer \<Rightarrow> BinaryDeserializer \<Rightarrow> bool" where
  "alike d d' \<longleftrightarrow>
     bd_off d = bd_off d' \<and> bd_size d = bd_size d' \<and> length (bd_data d) = length (bd_data d') \<and>
     drop RECORD_SIZE (bd_data d) = drop RECORD_SIZE (bd_data d') \<and>
     RECORD_SIZE \<le> unat (bd_off d) \<and> unat (bd_off d) \<le> unat (bd_size d) \<and> unat (bd_size d) < 2 ^ 62"

lemma alikeD:
  assumes "alike d d'"
  shows "bd_off d = bd_off d'" "bd_size d = bd_size d'" "length (bd_data d) = length (bd_data d')"
    "drop RECORD_SIZE (bd_data d) = drop RECORD_SIZE (bd_data d')" "RECORD_SIZE \<le> unat (bd_off d')"
    "unat (bd_off d') \<le> unat (bd_size d')" "unat (bd_size d') < 2 ^ 62"
  using assms by (auto simp: alike_def)

lemma slice_drop_cong:
  "drop m s = drop m t \<Longrightarrow> m \<le> off \<Longrightarrow> slice off k s = slice off k t"
  unfolding slice_def by (metis drop_drop le_add_diff_inverse2)

lemma parse_raw_cases:
  assumes "unat (bd_off d) \<le> unat (bd_size d)" "unat (bd_size d) < 2 ^ 62" "k \<le> 8"
  shows "parse_raw k d =
    (if unat (bd_off d) + k > unat (bd_size d) then Inr (None, d)
     else if unat (bd_off d) + k \<le> length (bd_data d)
     then Inr (Some (le_value (slice (unat (bd_off d)) k (bd_data d))), d\<lparr>bd_off := bd_off d + of_nat k\<rparr>)
     else Inl Undefined)"
    "unat (bd_off d + of_nat k) = unat (bd_off d) + k"
proof -
  have k: "unat (of_nat k :: size_t) = k" using assms(3) by (intro size_fits) simp
  show off: "unat (bd_off d + of_nat k) = unat (bd_off d) + k"
    using assms k size_add [of "bd_off d" "of_nat k"] by simp
  show "parse_raw k d =
    (if unat (bd_off d) + k > unat (bd_size d) then Inr (None, d)
     else if unat (bd_off d) + k \<le> length (bd_data d)
     then Inr (Some (le_value (slice (unat (bd_off d)) k (bd_data d))), d\<lparr>bd_off := bd_off d + of_nat k\<rparr>)
     else Inl Undefined)"
    by (simp add: parse_raw_def word_less_nat_alt off mem_read_def)
qed

lemma parse_raw_alike:
  assumes "alike d d'" "k \<le> 8"
  shows "(\<exists>e. parse_raw k d = Inl e \<and> parse_raw k d' = Inl e) \<or>
         (\<exists>v e e'. parse_raw k d = Inr (v, e) \<and> parse_raw k d' = Inr (v, e') \<and> alike e e')"
proof -
  note d = alikeD [OF assms(1)]
  have "slice (unat (bd_off d)) k (bd_data d) = slice (unat (bd_off d)) k (bd_data d')"
    using d by (intro slice_drop_cong [of RECORD_SIZE]) auto
  moreover have "bd_off d = bd_off d'" "bd_size d = bd_size d'" "length (bd_data d) = length (bd_data d')"
    using d by simp_all
  moreover note parse_raw_cases [of d k] parse_raw_cases [of d' k]
  moreover have "alike (d\<lparr>bd_off := bd_off d + of_nat k\<rparr>) (d'\<lparr>bd_off := bd_off d' + of_nat k\<rparr>)"
    if "unat (bd_off d) + k \<le> unat (bd_size d)"
    using that d parse_raw_cases(2) [of d k] assms(2) by (simp add: alike_def)
  ultimately show ?thesis
    using d assms by (cases "unat (bd_off d) + k > unat (bd_size d)") simp_all
qed

lemma ParseFloat_alike:
  assumes "alike d d'"
  shows "(\<exists>e. ParseFloat d = Inl e \<and> ParseFloat d' = Inl e) \<or>
         (\<exists>v e e'. ParseFloat d = Inr (v, e) \<and> ParseFloat d' = Inr (v, e') \<and> alike e e')"
  using parse_raw_alike [OF assms, of 4] unfolding ParseFloat_def by auto

lemma ParseInt_alike:
  assumes "alike d d'"
  shows "(\<exists>e. ParseInt d = Inl e \<and> ParseInt d' = Inl e) \<or>
         (\<exists>v e e'. ParseInt d = Inr (v, e) \<and> ParseInt d' = Inr (v, e') \<and> alike e e')"
  using parse_raw_alike [OF assms, of 4] unfolding ParseInt_def by auto

lemma ParseModelRow_alike:
  assumes "alike d d'"
  shows "(\<exists>e. ParseModelRow F d sp = Inl e \<and> ParseModelRow F d' sp = Inl e) \<or>
         (\<exists>sp' e e'. ParseModelRow F d sp = Inr (e, sp') \<and> ParseModelRow F d' sp = Inr (e', sp') \<and> alike e e')"
proof -
  consider e where "ParseFloat d = Inl e" "ParseFloat d' = Inl e"
    | a e e' where "ParseFloat d = Inr (a, e)" "ParseFloat d' = Inr (a, e')" "alike e e'"
    using ParseFloat_alike [OF assms] by blast
  then show ?thesis
  proof cases
    case 1
    then show ?thesis by (simp add: ParseModelRow_def)
  next
    case (2 a e1 e1')
    note p1 = 2
    from ParseFloat_alike [OF 2(3)] show ?thesis
    proof (elim disjE exE conjE)
      fix b e2 e2' assume p2: "ParseFloat e1 = Inr (b, e2)" "ParseFloat e1' = Inr (b, e2')" "alike e2 e2'"
      from ParseFloat_alike [OF p2(3)] show ?thesis
      proof (elim disjE exE conjE)
        fix c e3 e3' assume p3: "ParseFloat e2 = Inr (c, e3)" "ParseFloat e2' = Inr (c, e3')" "alike e3 e3'"
        from ParseInt_alike [OF p3(3)] show ?thesis
          using p1 p2 p3 by (auto simp: ParseModelRow_def Let_def split: option.splits)
      qed (use p1 p2 in \<open>simp add: ParseModelRow_def\<close>)
    qed (use p1 in \<open>simp add: ParseModelRow_def\<close>)
  qed
qed

text \<open>A parsed row moves the offset by the size of a record.\<close>

lemma ParseModelRow_offset:
  assumes "ParseModelRow F d sp = Inr (d', sp')"
  shows "bd_off d' = bd_off d + 16 \<and> bd_size d' = bd_size d \<and> bd_data d' = bd_data d"
proof -
  have raw: "bd_off e' = bd_off e + 4 \<and> bd_size e' = bd_size e \<and> bd_data e' = bd_data e"
    if "ParseFloat e = Inr (Some v, e') \<or> ParseInt e = Inr (Some v, e')" for e e' v
    using that
    by (auto simp: ParseFloat_def ParseInt_def and_then_Inr parse_raw_def split: if_splits option.splits)
  obtain x y z k d1 d2 d3 where "ParseFloat d = Inr (Some x, d1)" "ParseFloat d1 = Inr (Some y, d2)"
    "ParseFloat d2 = Inr (Some z, d3)" "ParseInt d3 = Inr (Some k, d')"
  proof -
    obtain a d1 b d2 c d3 k d4 where p: "ParseFloat d = Inr (a, d1)" "ParseFloat d1 = Inr (b, d2)"
      "ParseFloat d2 = Inr (c, d3)" "ParseInt d3 = Inr (k, d4)"
      using assms by (auto simp: ParseModelRow_def and_then_Inr)
    with assms that show thesis
      by (cases a; cases b; cases c; cases k) (auto simp: ParseModelRow_def Let_def)
  qed
  then show ?thesis using raw [of d x d1] raw [of d1 y d2] raw [of d2 z d3] raw [of d3 k d'] by simp
qed

lemma memcpy_first_record:
  assumes "length chunk \<le> RECORD_SIZE" "memcpy_at 0 chunk data = Some dat"
  shows "length dat = length data" "drop RECORD_SIZE dat = drop RECORD_SIZE data"
  using assms by (auto simp: memcpy_at_def split: if_splits)

text \<open>Past the first record, the content of the file no longer matters, only its length.\<close>

lemma load_rows_alike:
  "alike d d' \<Longrightarrow> length rest = length rest' \<Longrightarrow> load_rows F d rest sp = load_rows F d' rest' sp"
proof (induction "length rest" arbitrary: d d' rest rest' sp rule: less_induct)
  case less
  let ?c = "take RECORD_SIZE rest" and ?c' = "take RECORD_SIZE rest'"
  note d = alikeD [OF less.prems(1)]
  have len: "length ?c = length ?c'" using less.prems(2) by simp
  show ?case
  proof (cases "rest = []")
    case True
    then show ?thesis using less.prems(2) by (simp add: load_rows.simps)
  next
    case False
    then have shorter: "length (drop RECORD_SIZE rest) < length rest" by (simp add: RECORD_SIZE_def)
    have nonempty: "?c \<noteq> []" "?c' \<noteq> []" using False less.prems(2) by (auto simp: RECORD_SIZE_def)
    show ?thesis
    proof (cases "memcpy_at 0 ?c (bd_data d)")
      case None
      then have "memcpy_at 0 ?c' (bd_data d') = None" using d len by (simp add: memcpy_at_def split: if_splits)
      with None show ?thesis using nonempty by (simp add: load_rows.simps [of F d] load_rows.simps [of F d'])
    next
      case (Some dat)
      then obtain dat' where dat': "memcpy_at 0 ?c' (bd_data d') = Some dat'"
        using d len by (auto simp: memcpy_at_def split: if_splits)
      have al: "alike (d\<lparr>bd_data := dat\<rparr>) (d'\<lparr>bd_data := dat'\<rparr>)"
        using d memcpy_first_record [OF _ Some] memcpy_first_record [OF _ dat'] by (auto simp: alike_def)
      have rec: "alike e e' \<Longrightarrow> load_rows F e (drop RECORD_SIZE rest) s = load_rows F e' (drop RECORD_SIZE rest') s" for e e' s
        using less.hyps [OF shorter] less.prems(2) by simp
      show ?thesis
        using ParseModelRow_alike [OF al, of F sp] nonempty Some dat' rec [OF al] len rec
        by (auto simp: load_rows.simps [of F d] load_rows.simps [of F d'] Let_def)
    qed
  qed
qed

section \<open>Properties\<close>

text \<open>
  Of a file of coefficients only the first row counts: two files of the same length with the
  same first 16 bytes load the same models, because the offset the rows are parsed from is
  never reset while every row is read to the start of the buffer.
\<close>

theorem predictor_loads_first_row_only:
  assumes "take 16 f = take 16 g" "length f = length g"
  shows "LoadModelCSV_part F junk (Some f) required sp = LoadModelCSV_part F junk (Some g) required sp"
proof -
  let ?d = "mk_BinaryDeserializer junk buffer_size"
  have rs: "RECORD_SIZE = 16" by (simp add: RECORD_SIZE_def)
  have "load_rows F ?d f sp = load_rows F ?d g sp"
  proof (cases "length f < 16")
    case True
    then show ?thesis using assms by simp
  next
    case False
    have after: "load_rows F d' (drop 16 f) sp' = load_rows F d' (drop 16 g) sp'"
      if dat: "memcpy_at 0 (take 16 f) (bd_data ?d) = Some dat"
        and row: "ParseModelRow F (?d\<lparr>bd_data := dat\<rparr>) sp = Inr (d', sp')" for dat d' sp'
    proof (rule load_rows_alike)
      show "alike d' d'"
        using ParseModelRow_offset [OF row]
        by (simp add: alike_def rs mk_BinaryDeserializer_def buffer_size_def MB_def)
    qed (simp add: assms(2))
    show ?thesis
      using False assms after
      by (subst (1 2) load_rows.simps)
         (auto simp: rs Let_def and_then_def split: option.splits sum.splits)
  qed
  then show ?thesis by (simp add: LoadModelCSV_part_def)
qed

text \<open>
  Over a field the residual of an observation is zero exactly for the coefficients that
  predict it. Near such coefficients it is the square of the error, not the error: the sum of
  squares dlib minimises is a sum of fourth powers.
\<close>

definition field_flops :: "('d :: field) flops" where
  "field_flops = \<lparr>f_zero = 0, f_add = (+), f_mul = (*), f_half = (\<lambda>x. x / 2), f_of_int = of_int,
     f_of_float = (\<lambda>x. of_int (sint x)), f_to_float = (\<lambda>x. 0)\<rparr>"

theorem residual_zero_iff_predicts:
  assumes "lr_coeffs m (lr_buffer m) = params"
  shows "Residual field_flops (-) ((x0, x1, x2), y) params = (y - Predict_model field_flops x0 x1 x2 m) ^ 2 \<and>
    (Residual field_flops (-) ((x0, x1, x2), y) params = 0 \<longleftrightarrow> Predict_model field_flops x0 x1 x2 m = y)"
proof -
  obtain a b c where p: "params = (a, b, c)" by (cases params)
  have "Predict_model field_flops x0 x1 x2 m = a * x0 + b * x1 + c * x2"
    using assms p by (simp add: Predict_model_def field_flops_def)
  then show ?thesis using p by (auto simp: Residual_def field_flops_def power2_eq_square Let_def)
qed

definition ref_flops :: "int flops" where
  "ref_flops = \<lparr>f_zero = 0, f_add = (+), f_mul = (*), f_half = (\<lambda>x. x div 2), f_of_int = (\<lambda>i. i),
                f_of_float = (\<lambda>w. sint w), f_to_float = (\<lambda>i. word_of_int i)\<rparr>"

theorem predictor_loads_first_row_only_witness:
  "LoadModelCSV_part ref_flops (\<lambda>_. CHR 0x00) (Some (replicate 16 (CHR 0x01) @ replicate 16 (CHR 0x02))) True mk_StorageCostPredictor =
   LoadModelCSV_part ref_flops (\<lambda>_. CHR 0x00) (Some (replicate 16 (CHR 0x01) @ replicate 16 (CHR 0x03))) True mk_StorageCostPredictor"
  by (rule predictor_loads_first_row_only) simp_all

text \<open>
  Feedback is recorded with the bytes read and written exchanged: the observation of a model
  with an empty window is (processes, written, read), while a prediction multiplies the
  coefficients with (processes, read, written).
\<close>

theorem predictor_feedback_exchanges:
  assumes "lr_dataset (model_at F k sp) = db_empty"
  shows "fst (GetWindow (model_at F k (Feedback F bw rb wb k sp))) =
           [((f_of_int F (sp_nprocs sp), wb, rb), bw)] \<and>
         fst (Predict F rb wb k sp) =
           (case lr_coeffs (model_at F k sp) (lr_buffer (model_at F k sp)) of
              (a, b, c) \<Rightarrow> f_add F (f_add F (f_mul F a (f_of_int F (sp_nprocs sp))) (f_mul F b rb)) (f_mul F c wb))"
proof -
  have m: "model_at F k (Feedback F bw rb wb k sp) =
      Feedback_model bw (f_of_int F (sp_nprocs sp)) wb rb (model_at F k sp)"
    by (simp add: Feedback_def Let_def model_at_def set_model_def map_of_alist_set)
  have "drain True (push no_lock False x db_empty) = [x]" for x :: "'a observation"
    by (simp add: drain_order push_def no_lock_def db_append_def db_empty_def)
  then show ?thesis
    using assms unfolding m by (simp add: GetWindow_def Feedback_model_def Predict_def Predict_model_def Let_def)
qed

theorem predictor_feedback_exchanges_witness:
  "fst (GetWindow (model_at ref_flops 4 (Feedback ref_flops 100 30 20 4 mk_StorageCostPredictor))) = [((1, 20, 30), 100)]"
  using predictor_feedback_exchanges [of ref_flops 4 mk_StorageCostPredictor 100 30 20]
  by (simp add: model_at_def mk_StorageCostPredictor_def mk_LinRegModel_def ref_flops_def)

end
