(* ===== verification/Predictor_Process.thy ===== *)
theory Predictor_Process
  imports Cost_Predictor File_Io
begin

text \<open>
  The life of a \<^verbatim>\<open>StorageCostPredictor\<close>: \<^verbatim>\<open>Init\<close> loads the models and starts the worker, the main
  thread calls \<^verbatim>\<open>Feedback\<close> and \<^verbatim>\<open>Predict\<close> while the worker fits and saves (\<^verbatim>\<open>Run\<close>), \<^verbatim>\<open>Finalize\<close>
  stops the worker, joins it and closes the file.

  The two threads are the steps of \<open>pstep\<close>. The worker's turn is cut where it reads or resets
  the window count, so that feedback may arrive between fitting, saving and the reset. The file
  is a stream that writes through at once; what a short write leaves behind is not modelled,
  nor are the models a failed load has changed. An exception in the worker ends the process.
\<close>

section \<open>State\<close>

datatype wphase = W_none | W_body | W_fitted | W_committed | W_wait | W_leave | W_last | W_done | W_joined

datatype mphase = M_free | M_finalizing | M_closed | M_left fault

record 'd pproc =
  pp_sp :: "'d predictor"
  pp_rank :: int
  pp_path :: string
  pp_file :: "nat option"
  pp_fs :: fs
  pp_told :: bool
  pp_worker :: wphase
  pp_main :: mphase
  pp_dead :: "fault option"

text \<open>A constructed predictor; \<open>pp_file\<close> is the position in \<^verbatim>\<open>model_file_\<close>, \<open>None\<close> for no open file.\<close>

definition mk_pproc :: "fs \<Rightarrow> 'd pproc" where
  "mk_pproc fs =
     \<lparr>pp_sp = mk_StorageCostPredictor, pp_rank = 0, pp_path = [], pp_file = None, pp_fs = fs,
      pp_told = False, pp_worker = W_none, pp_main = M_free, pp_dead = None\<rparr>"

section \<open>Init\<close>

text \<open>\<^verbatim>\<open>fopen\<close> with \<^verbatim>\<open>r+\<close>, and with \<^verbatim>\<open>w\<close> when that fails.\<close>

definition open_model :: "string \<Rightarrow> fs \<Rightarrow> nat option \<times> fs" where
  "open_model path fs =
     (case posix_open_rdonly fs path of
        Some _ \<Rightarrow> (Some 0, fs)
      | None \<Rightarrow>
          if fs_denied fs path then (None, fs)
          else (Some 0, fs\<lparr>fs_files := (fs_files fs)(path \<mapsto> [])\<rparr>))"

definition Predictor_Init ::
  "'d flops \<Rightarrow> (nat \<Rightarrow> char) \<Rightarrow> int \<Rightarrow> int \<Rightarrow> string \<Rightarrow> 'd pproc \<Rightarrow> unit res \<times> 'd pproc" where
  "Predictor_Init F junk rank nprocs path p =
     (let (model_file, fs) = open_model (path @ int_to_string rank) (pp_fs p);
          sp = (pp_sp p)\<lparr>sp_nprocs := nprocs\<rparr>;
          p1 = p\<lparr>pp_rank := rank, pp_path := path, pp_file := model_file, pp_fs := fs, pp_sp := sp\<rparr>;
          parts = map (\<lambda>i. posix_open_rdonly fs (path @ nat_to_string i)) [0..<nat nprocs]
      in case LoadModelCSV F junk (model_file \<noteq> None) parts (posix_open_rdonly fs path) sp of
           Inl e \<Rightarrow> (Inl e, p1)
         | Inr sp' \<Rightarrow>
             if pp_worker p \<noteq> W_none
             then (Inl (Std_Exn ''future_already_retrieved''), p1\<lparr>pp_sp := sp'\<rparr>)
             else (Inr (), p1\<lparr>pp_sp := sp', pp_worker := W_body\<rparr>))"

section \<open>The worker\<close>

text \<open>\<^verbatim>\<open>CommitMetrics\<close> on the open file: the rows go to the position of the stream.\<close>

definition commit_file ::
  "'d flops \<Rightarrow> (nat \<Rightarrow> char) \<Rightarrow> wphase \<Rightarrow> 'd pproc \<Rightarrow> 'd pproc" where
  "commit_file F junk after p =
     (let own = pp_path p @ int_to_string (pp_rank p);
          pos = (case pp_file p of None \<Rightarrow> 0 | Some i \<Rightarrow> i);
          content = old_bytes (fs_files (pp_fs p) own)
      in case CommitMetrics F junk (pp_file p \<noteq> None) (\<lambda>n. min n (fs_room (pp_fs p) - pos)) (pp_sp p) of
           Inl e \<Rightarrow> p\<lparr>pp_dead := Some e\<rparr>
         | Inr (serial, sp') \<Rightarrow>
             if serial = [] then p\<lparr>pp_sp := sp', pp_worker := after\<rparr>
             else p\<lparr>pp_sp := sp', pp_worker := after, pp_file := Some (pos + length serial),
                    pp_fs := (pp_fs p)\<lparr>fs_files := (fs_files (pp_fs p))(own \<mapsto> overlay pos serial content)\<rparr>\<rparr>)"

definition window_full :: "'d predictor \<Rightarrow> bool" where
  "window_full sp \<longleftrightarrow> sp_window_size sp \<le> sp_window_tick sp"

text \<open>\<^verbatim>\<open>Run\<close>, one step: the loop body, the wait for the promise, and what follows the loop.\<close>

fun worker_step ::
  "'d flops \<Rightarrow> ('d observation list \<Rightarrow> 'd triple) \<Rightarrow> (nat \<Rightarrow> char) \<Rightarrow> wphase \<Rightarrow> 'd pproc \<Rightarrow> 'd pproc" where
  "worker_step F solve junk W_body p =
     (if window_full (pp_sp p) then p\<lparr>pp_sp := Fit F solve (pp_sp p), pp_worker := W_fitted\<rparr>
      else p\<lparr>pp_worker := W_wait\<rparr>)"
| "worker_step F solve junk W_fitted p = commit_file F junk W_committed p"
| "worker_step F solve junk W_committed p =
     p\<lparr>pp_sp := (pp_sp p)\<lparr>sp_window_tick := 0\<rparr>, pp_worker := W_wait\<rparr>"
| "worker_step F solve junk W_wait p = p\<lparr>pp_worker := (if pp_told p then W_leave else W_body)\<rparr>"
| "worker_step F solve junk W_leave p =
     (if window_full (pp_sp p) then p\<lparr>pp_sp := Fit F solve (pp_sp p), pp_worker := W_last\<rparr>
      else p\<lparr>pp_worker := W_last\<rparr>)"
| "worker_step F solve junk W_last p = commit_file F junk W_done p"
| "worker_step F solve junk _ p = p"

definition working :: "wphase \<Rightarrow> bool" where
  "working ph \<longleftrightarrow> ph \<notin> {W_none, W_done, W_joined}"

section \<open>Finalize\<close>

text \<open>Up to the \<^verbatim>\<open>join\<close>; joining when no worker was ever started throws.\<close>

definition Finalize_tell :: "'d pproc \<Rightarrow> 'd pproc" where
  "Finalize_tell p =
     (if pp_told p then p\<lparr>pp_main := M_left (Std_Exn ''promise_already_satisfied'')\<rparr>
      else if pp_worker p = W_none
      then p\<lparr>pp_told := True, pp_main := M_left (Std_Exn ''system_error: join'')\<rparr>
      else p\<lparr>pp_told := True, pp_main := M_finalizing\<rparr>)"

definition Finalize_join :: "'d pproc \<Rightarrow> 'd pproc" where
  "Finalize_join p = p\<lparr>pp_worker := W_joined, pp_file := None, pp_main := M_closed\<rparr>"

section \<open>Steps\<close>

text \<open>The main thread may go on to use the predictor after \<^verbatim>\<open>Finalize\<close>.\<close>

definition main_acts :: "'d pproc \<Rightarrow> bool" where
  "main_acts p \<longleftrightarrow> pp_main p \<in> {M_free, M_closed} \<and> pp_dead p = None"

inductive pstep ::
  "'d flops \<Rightarrow> ('d observation list \<Rightarrow> 'd triple) \<Rightarrow> (nat \<Rightarrow> char) \<Rightarrow> 'd pproc \<Rightarrow> 'd pproc \<Rightarrow> bool"
  for F solve junk where
  feedback: "main_acts p \<Longrightarrow>
    pstep F solve junk p (p\<lparr>pp_sp := Feedback F bw rb wb k (pp_sp p)\<rparr>)"
| predict: "main_acts p \<Longrightarrow>
    pstep F solve junk p (p\<lparr>pp_sp := snd (Predict F rb wb k (pp_sp p))\<rparr>)"
| set_window: "main_acts p \<Longrightarrow>
    pstep F solve junk p (p\<lparr>pp_sp := SetWindowSize n (pp_sp p)\<rparr>)"
| set_commit: "main_acts p \<Longrightarrow>
    pstep F solve junk p (p\<lparr>pp_sp := EnableMetricStorage b (pp_sp p)\<rparr>)"
| tell: "main_acts p \<Longrightarrow> pstep F solve junk p (Finalize_tell p)"
| join: "pp_main p = M_finalizing \<Longrightarrow> pp_dead p = None \<Longrightarrow> pp_worker p = W_done \<Longrightarrow>
    pstep F solve junk p (Finalize_join p)"
| work: "working (pp_worker p) \<Longrightarrow> pp_dead p = None \<Longrightarrow>
    pstep F solve junk p (worker_step F solve junk (pp_worker p) p)"

inductive preach ::
  "'d flops \<Rightarrow> ('d observation list \<Rightarrow> 'd triple) \<Rightarrow> (nat \<Rightarrow> char) \<Rightarrow> 'd pproc \<Rightarrow> 'd pproc \<Rightarrow> bool"
  for F solve junk p0 where
  preach_init: "preach F solve junk p0 p0"
| preach_step: "preach F solve junk p0 p \<Longrightarrow> pstep F solve junk p p' \<Longrightarrow> preach F solve junk p0 p'"

inductive_cases pstepE: "pstep F solve junk p p'"

section \<open>Lemmas\<close>

lemma preach_trans: "preach F solve junk q r \<Longrightarrow> preach F solve junk p q \<Longrightarrow> preach F solve junk p r"
  by (induction rule: preach.induct) (auto intro: preach_step)

subsection \<open>What a load leaves\<close>

definition only_configured :: "'d predictor \<Rightarrow> bool" where
  "only_configured sp \<longleftrightarrow> (\<forall>k. map_of (sp_models sp) k \<noteq> None \<longrightarrow> k \<in> set (sp_configs sp))"

lemma ParseModelRow_configured:
  assumes "ParseModelRow F d sp = Inr (d', sp')" "only_configured sp"
  shows "only_configured sp'"
proof -
  obtain a d1 b d2 c d3 k d4 where p: "ParseFloat d = Inr (a, d1)" "ParseFloat d1 = Inr (b, d2)"
    "ParseFloat d2 = Inr (c, d3)" "ParseInt d3 = Inr (k, d4)"
    using assms(1) by (auto simp: ParseModelRow_def and_then_Inr)
  with assms show ?thesis
    by (cases a; cases b; cases c; cases k)
       (auto simp: ParseModelRow_def Let_def only_configured_def set_model_def map_of_alist_set
             split: if_splits)
qed

lemma load_rows_configured: "load_rows F d rest sp = Inr sp' \<Longrightarrow> only_configured sp \<Longrightarrow> only_configured sp'"
proof (induction F d rest sp arbitrary: sp' rule: load_rows.induct)
  case (1 F d rest sp)
  show ?case
  proof (cases "take RECORD_SIZE rest = []")
    case True
    then show ?thesis using 1 by (simp add: load_rows.simps [of F d])
  next
    case False
    then obtain dat where dat: "memcpy_at 0 (take RECORD_SIZE rest) (bd_data d) = Some dat"
      using 1(3) by (auto simp: load_rows.simps [of F d] Let_def split: option.splits)
    show ?thesis
    proof (cases "length (take RECORD_SIZE rest) div RECORD_SIZE = 1")
      case True
      then obtain d' sp1 where row: "ParseModelRow F (d\<lparr>bd_data := dat\<rparr>) sp = Inr (d', sp1)"
        and more: "load_rows F d' (drop RECORD_SIZE rest) sp1 = Inr sp'"
        using 1(3) False dat by (auto simp: load_rows.simps [of F d] Let_def and_then_Inr)
      show ?thesis
        by (rule 1(1) [OF refl False dat True more]) (rule ParseModelRow_configured [OF row 1(4)])
    next
      case short: False
      then show ?thesis
        using 1(2) [OF refl False dat short] 1(3,4) False dat by (simp add: load_rows.simps [of F d] Let_def)
    qed
  qed
qed

lemma load_part_configured:
  "LoadModelCSV_part F junk f required sp = Inr (ok, sp') \<Longrightarrow> only_configured sp \<Longrightarrow> only_configured sp'"
  by (auto simp: LoadModelCSV_part_def and_then_Inr intro: load_rows_configured split: option.splits if_splits)

lemma load_parts_configured:
  "load_parts F junk parts sp = Inr sp' \<Longrightarrow> only_configured sp \<Longrightarrow> only_configured sp'"
  by (induction parts arbitrary: sp) (auto simp: and_then_Inr dest: load_part_configured)

lemma LoadModelCSV_configured:
  assumes "LoadModelCSV F junk own parts common sp = Inr sp'" "only_configured sp"
  shows "only_configured sp'"
  using assms
  by (auto simp: LoadModelCSV_def and_then_Inr intro: load_part_configured load_parts_configured split: if_splits)


subsection \<open>Models the worker does not visit\<close>

lemma sp_configs_set: "sp_configs (set_model k m sp) = sp_configs sp"
  by (simp add: set_model_def)

lemma fit_models_configs [simp]: "sp_configs (fit_models F solve confs sp) = sp_configs sp"
  by (induction confs arbitrary: sp) (simp_all add: sp_configs_set)

lemma fit_models_other: "k \<notin> set confs \<Longrightarrow> model_at F k (fit_models F solve confs sp) = model_at F k sp"
  by (induction confs arbitrary: sp) (simp_all add: model_at_set)

lemma save_models_other:
  "save_models F confs s sp = Inr (s', sp') \<Longrightarrow> k \<notin> set confs \<Longrightarrow>
   sp_configs sp' = sp_configs sp \<and> model_at F k sp' = model_at F k sp"
proof (induction confs arbitrary: s sp)
  case (Cons c confs)
  then obtain s1 where "save_models F confs s1 (set_model c ((model_at F c sp)\<lparr>lr_coeffs_q := db_empty\<rparr>) sp) =
      Inr (s', sp')"
    by (auto simp: Let_def and_then_Inr)
  from Cons.IH [OF this] Cons.prems(2) show ?case by (simp add: model_at_set sp_configs_set)
qed simp

lemma CommitMetrics_other:
  "CommitMetrics F junk opened written sp = Inr (serial, sp') \<Longrightarrow> k \<notin> set (sp_configs sp) \<Longrightarrow>
   sp_configs sp' = sp_configs sp \<and> model_at F k sp' = model_at F k sp"
  by (auto simp: CommitMetrics_def SaveModelCSV_def Let_def and_then_Inr dest: save_models_other split: if_splits)

lemma model_at_fields [simp]:
  "model_at F k (sp\<lparr>sp_window_tick := n\<rparr>) = model_at F k sp"
  "model_at F k (sp\<lparr>sp_window_size := n\<rparr>) = model_at F k sp"
  "model_at F k (sp\<lparr>sp_commit := b\<rparr>) = model_at F k sp"
  "model_at F k (sp\<lparr>sp_nprocs := i\<rparr>) = model_at F k sp"
  "model_at F k (sp\<lparr>sp_configs := ks\<rparr>) = model_at F k sp"
  by (simp_all add: model_at_def)

text \<open>A storage that is not in the list keeps the coefficients of a new model and saves none.\<close>

definition untrained :: "'d flops \<Rightarrow> int32 \<Rightarrow> 'd predictor \<Rightarrow> bool" where
  "untrained F k sp \<longleftrightarrow>
     k \<notin> set (sp_configs sp) \<and> lr_coeffs (model_at F k sp) = (\<lambda>b. (f_zero F, f_zero F, f_zero F)) \<and>
     lr_coeffs_q (model_at F k sp) = db_empty"

lemma untrained_transfer:
  "untrained F k sp \<Longrightarrow> sp_configs sp' = sp_configs sp \<Longrightarrow> model_at F k sp' = model_at F k sp \<Longrightarrow>
   untrained F k sp'"
  by (simp add: untrained_def)

lemma untrained_Feedback: "untrained F k sp \<Longrightarrow> untrained F k (Feedback F bw rb wb i sp)"
  by (auto simp: untrained_def Feedback_def Let_def model_at_set Feedback_model_def sp_configs_set)

lemma untrained_Predict: "untrained F k sp \<Longrightarrow> untrained F k (snd (Predict F rb wb i sp))"
  by (auto simp: untrained_def Predict_def Let_def model_at_set sp_configs_set)

lemma untrained_Fit: "untrained F k sp \<Longrightarrow> untrained F k (Fit F solve sp)"
  by (simp add: Fit_def fit_models_other untrained_def)

lemma untrained_commit:
  assumes "untrained F k (pp_sp p)"
  shows "untrained F k (pp_sp (commit_file F junk after p))"
proof (cases "CommitMetrics F junk (pp_file p \<noteq> None)
    (\<lambda>n. min n (fs_room (pp_fs p) - (case pp_file p of None \<Rightarrow> 0 | Some i \<Rightarrow> i))) (pp_sp p)")
  case (Inl e)
  then show ?thesis using assms by (simp add: commit_file_def)
next
  case (Inr r)
  obtain serial sp' where r: "r = (serial, sp')" by (cases r)
  have "sp_configs sp' = sp_configs (pp_sp p) \<and> model_at F k sp' = model_at F k (pp_sp p)"
    using Inr assms unfolding r by (intro CommitMetrics_other) (simp_all add: untrained_def)
  then have "untrained F k sp'" using assms by (auto intro: untrained_transfer)
  then show ?thesis using Inr r by (simp add: commit_file_def Let_def)
qed

lemma untrained_worker:
  "untrained F k (pp_sp p) \<Longrightarrow> untrained F k (pp_sp (worker_step F solve junk ph p))"
  by (cases ph) (simp_all add: untrained_Fit untrained_commit untrained_transfer)

lemma untrained_pstep:
  "pstep F solve junk p p' \<Longrightarrow> untrained F k (pp_sp p) \<Longrightarrow> untrained F k (pp_sp p')"
  by (erule pstepE)
     (simp_all add: untrained_Feedback untrained_Predict untrained_worker untrained_transfer
        SetWindowSize_def EnableMetricStorage_def Finalize_tell_def Finalize_join_def)

lemma untrained_preach:
  "preach F solve junk p0 p \<Longrightarrow> untrained F k (pp_sp p0) \<Longrightarrow> untrained F k (pp_sp p)"
  by (induction rule: preach.induct) (auto intro: untrained_pstep)

lemma Predictor_Init_loads:
  assumes "Predictor_Init F junk rank nprocs path p = (Inr (), p0)"
  shows "\<exists>parts common. LoadModelCSV F junk True parts common ((pp_sp p)\<lparr>sp_nprocs := nprocs\<rparr>) = Inr (pp_sp p0)"
    and "pp_worker p0 = W_body" "pp_file p0 = Some 0" "pp_told p0 = pp_told p" "pp_main p0 = pp_main p"
    "pp_dead p0 = pp_dead p" "pp_path p0 = path" "pp_rank p0 = rank"
proof -
  obtain f fs where o: "open_model (path @ int_to_string rank) (pp_fs p) = (f, fs)" by fastforce
  let ?L = "LoadModelCSV F junk (f \<noteq> None) (map (\<lambda>i. posix_open_rdonly fs (path @ nat_to_string i)) [0..<nat nprocs])
      (posix_open_rdonly fs path) ((pp_sp p)\<lparr>sp_nprocs := nprocs\<rparr>)"
  obtain sp' where L: "?L = Inr sp'" and p0: "p0 = p\<lparr>pp_rank := rank, pp_path := path, pp_file := f,
      pp_fs := fs, pp_sp := sp', pp_worker := W_body\<rparr>"
    using assms by (auto simp: Predictor_Init_def o Let_def split: sum.splits if_splits)
  have f: "f \<noteq> None" using L by (auto simp: LoadModelCSV_def split: if_splits)
  then have "f = Some 0" using o by (auto simp: open_model_def split: option.splits if_splits)
  then show "pp_file p0 = Some 0" by (simp add: p0)
  show "\<exists>parts common. LoadModelCSV F junk True parts common ((pp_sp p)\<lparr>sp_nprocs := nprocs\<rparr>) = Inr (pp_sp p0)"
    using L f by (simp add: p0) blast
qed (use assms in \<open>auto simp: Predictor_Init_def Let_def split: prod.splits sum.splits if_splits\<close>)

lemma Init_untrained:
  assumes "Predictor_Init F junk rank nprocs path (mk_pproc fs) = (Inr (), p0)"
    and "k \<notin> set (sp_configs (pp_sp p0))"
  shows "untrained F k (pp_sp p0)"
proof -
  have "only_configured ((pp_sp (mk_pproc fs))\<lparr>sp_nprocs := nprocs\<rparr>)"
    by (simp add: only_configured_def mk_pproc_def mk_StorageCostPredictor_def)
  then have "only_configured (pp_sp p0)"
    using Predictor_Init_loads(1) [OF assms(1)] LoadModelCSV_configured by blast
  then have "model_at F k (pp_sp p0) = mk_LinRegModel F"
    using assms(2) by (auto simp: only_configured_def model_at_def split: option.splits)
  then show ?thesis using assms(2) by (simp add: untrained_def mk_LinRegModel_def)
qed


subsection \<open>Fitting a window\<close>

text \<open>Feedback (bandwidth, bytes read, bytes written) on one storage, in the order it is given.\<close>

fun feedback_all :: "'d flops \<Rightarrow> int32 \<Rightarrow> ('d \<times> 'd \<times> 'd) list \<Rightarrow> 'd predictor \<Rightarrow> 'd predictor" where
  "feedback_all F k [] sp = sp"
| "feedback_all F k ((bw, rb, wb) # obs) sp = feedback_all F k obs (Feedback F bw rb wb k sp)"

definition observed :: "'d flops \<Rightarrow> int \<Rightarrow> ('d \<times> 'd \<times> 'd) list \<Rightarrow> 'd observation list" where
  "observed F nprocs obs = map (\<lambda>(bw, rb, wb). ((f_of_int F nprocs, wb, rb), bw)) obs"

lemma Feedback_model_at:
  "model_at F k (Feedback F bw rb wb k sp) =
     (model_at F k sp)\<lparr>lr_dataset := db_append False ((f_of_int F (sp_nprocs sp), wb, rb), bw)
        (lr_dataset (model_at F k sp))\<rparr>"
  by (simp add: Feedback_def Let_def model_at_set Feedback_model_def push_def no_lock_def)

lemma Feedback_fields:
  "sp_nprocs (Feedback F bw rb wb k sp) = sp_nprocs sp" "sp_configs (Feedback F bw rb wb k sp) = sp_configs sp"
  "sp_window_size (Feedback F bw rb wb k sp) = sp_window_size sp"
  "sp_window_tick (Feedback F bw rb wb k sp) = sp_window_tick sp + 1"
  by (simp_all add: Feedback_def Let_def set_model_def)

lemma feedback_all_fields:
  "sp_nprocs (feedback_all F k obs sp) = sp_nprocs sp \<and> sp_configs (feedback_all F k obs sp) = sp_configs sp \<and>
   sp_window_size (feedback_all F k obs sp) = sp_window_size sp \<and>
   sp_window_tick (feedback_all F k obs sp) = sp_window_tick sp + of_nat (length obs)"
  by (induction F k obs sp rule: feedback_all.induct) (simp_all add: Feedback_fields add.assoc)

lemma feedback_all_model:
  "model_at F k (feedback_all F k obs sp) =
     (model_at F k sp)\<lparr>lr_dataset := (lr_dataset (model_at F k sp))
        (False := lr_dataset (model_at F k sp) False @ observed F (sp_nprocs sp) obs)\<rparr>"
  by (induction F k obs sp rule: feedback_all.induct)
     (simp_all add: observed_def Feedback_model_at Feedback_fields db_append_def cong: if_cong)

lemma Fit_model_twice: "Fit_model F solve (Fit_model F solve m) = Fit_model F solve m"
proof -
  have d: "drain True (db_empty :: 'a observation dbuf) = []" by (simp add: drain_order db_empty_def)
  have "lr_dataset (Fit_model F solve m) = db_empty"
    by (simp add: Fit_model_def GetWindow_def UpdateCoeffs_def Let_def)
  then show ?thesis
    by (simp add: Fit_model_def [of F solve "Fit_model F solve m"] GetWindow_def d)
qed

lemma fit_models_visited:
  "k \<in> set confs \<Longrightarrow> model_at F k (fit_models F solve confs sp) = Fit_model F solve (model_at F k sp)"
proof (induction confs arbitrary: sp)
  case (Cons c confs)
  then show ?case
    by (cases "k \<in> set confs"; cases "k = c") (auto simp: model_at_set Fit_model_twice fit_models_other)
qed simp

lemma Fit_model_window:
  assumes "drain True (lr_dataset m) = w" "w \<noteq> []"
  shows "lr_dataset (Fit_model F solve m) = db_empty"
    "lr_coeffs (Fit_model F solve m) (lr_buffer (Fit_model F solve m)) =
       average F (lr_coeffs m (\<not> lr_buffer m)) (solve w)"
  using assms by (simp_all add: Fit_model_def GetWindow_def UpdateCoeffs_def Let_def)

subsection \<open>Saving succeeds while the file has room\<close>

lemma save_models_total:
  "wf_serializer s \<Longrightarrow> \<exists>s' sp'. save_models F confs s sp = Inr (s', sp') \<and> wf_serializer s' \<and> bs_size s' = bs_size s"
proof (induction confs arbitrary: s sp)
  case (Cons c confs)
  let ?vs = "concat (map (row_fields F c) (drain False (lr_coeffs_q (model_at F c sp))))"
  obtain oks s1 where "write_fields ?vs s = Inr (oks, s1)" "wf_serializer s1" "bs_size s1 = bs_size s"
    using write_fields_total [OF Cons.prems] by blast
  with Cons.IH [OF this(2)] show ?case by (simp add: Let_def)
qed simp

lemma CommitMetrics_total:
  assumes "\<And>n. n \<le> 2097152 \<Longrightarrow> written n = n"
  shows "\<exists>serial sp'. CommitMetrics F junk True written sp = Inr (serial, sp') \<and> length serial \<le> 2097152"
proof -
  have size: "unat buffer_size = 2097152" by (simp add: buffer_size_def MB_def)
  have "wf_serializer (mk_BinarySerializer junk buffer_size)"
    using size by (simp add: wf_serializer_def mk_BinarySerializer_def)
  then obtain s sp' where s: "save_models F (sp_configs sp) (mk_BinarySerializer junk buffer_size) sp = Inr (s, sp')"
    "wf_serializer s" "bs_size s = buffer_size"
    using save_models_total by (force simp: mk_BinarySerializer_def)
  then have "length (take (unat (bs_off s)) (bs_data s)) \<le> 2097152"
    using size by (simp add: wf_serializer_def)
  with assms s(1) show ?thesis
    by (auto simp: CommitMetrics_def SaveModelCSV_def SaveCSV_def Let_def)
qed

lemma commit_file_ok:
  assumes "pp_file p = Some i" "i + 2097152 \<le> fs_room (pp_fs p)"
  shows "\<exists>sp' i' files. commit_file F junk after p =
    p\<lparr>pp_sp := sp', pp_worker := after, pp_file := Some i', pp_fs := (pp_fs p)\<lparr>fs_files := files\<rparr>\<rparr> \<and>
    i' \<le> i + 2097152"
proof -
  obtain serial sp' where c: "CommitMetrics F junk True (\<lambda>n. min n (fs_room (pp_fs p) - i)) (pp_sp p) = Inr (serial, sp')"
    "length serial \<le> 2097152"
    using CommitMetrics_total [of "\<lambda>n. min n (fs_room (pp_fs p) - i)" F junk "pp_sp p"] assms(2) by auto
  let ?own = "pp_path p @ int_to_string (pp_rank p)"
  show ?thesis
  proof (cases "serial = []")
    case True
    have "commit_file F junk after p = p\<lparr>pp_sp := sp', pp_worker := after, pp_file := Some i,
        pp_fs := (pp_fs p)\<lparr>fs_files := fs_files (pp_fs p)\<rparr>\<rparr>"
      using c(1) True assms(1) by (simp add: commit_file_def)
    then show ?thesis by (intro exI conjI) (assumption, simp)
  next
    case False
    have "commit_file F junk after p = p\<lparr>pp_sp := sp', pp_worker := after, pp_file := Some (i + length serial),
        pp_fs := (pp_fs p)\<lparr>fs_files := (fs_files (pp_fs p))
          (?own \<mapsto> overlay i serial (old_bytes (fs_files (pp_fs p) ?own)))\<rparr>\<rparr>"
      using c(1) False assms(1) by (simp add: commit_file_def Let_def)
    then show ?thesis using c(2) by (intro exI conjI) (assumption, linarith)
  qed
qed


subsection \<open>Stopping\<close>

definition process_inv :: "'d pproc \<Rightarrow> bool" where
  "process_inv p \<longleftrightarrow>
     (case pp_main p of
        M_free \<Rightarrow> \<not> pp_told p \<and> pp_worker p \<in> {W_body, W_fitted, W_committed, W_wait} \<and> pp_file p \<noteq> None
      | M_finalizing \<Rightarrow> pp_told p \<and> pp_worker p \<notin> {W_none, W_joined} \<and> pp_file p \<noteq> None
      | _ \<Rightarrow> pp_told p \<and> pp_worker p = W_joined)"

lemma commit_file_keeps:
  "pp_main (commit_file F junk after p) = pp_main p" "pp_told (commit_file F junk after p) = pp_told p"
  "pp_worker (commit_file F junk after p) \<in> {after, pp_worker p}"
  "pp_file p = None \<or> pp_file (commit_file F junk after p) \<noteq> None"
  by (auto simp: commit_file_def Let_def split: sum.splits)

lemma process_inv_sp [simp]: "process_inv (p\<lparr>pp_sp := sp\<rparr>) = process_inv p"
  by (cases "pp_main p") (simp_all add: process_inv_def)

lemma commit_file_inv:
  assumes "process_inv p" "pp_worker p \<noteq> W_none" "pp_worker p \<noteq> W_joined"
    and "after = W_committed \<or> after = W_done \<and> pp_told p"
  shows "process_inv (commit_file F junk after p)"
  using assms commit_file_keeps(1-3) [of F junk after p] commit_file_keeps(4) [of p F junk after]
  by (cases "pp_main p") (auto simp: process_inv_def)

lemma process_inv_worker:
  assumes "process_inv p" "pp_worker p \<notin> {W_none, W_joined}" "ph \<notin> {W_none, W_joined}"
    and "pp_told p \<or> ph \<in> {W_body, W_fitted, W_committed, W_wait}"
  shows "process_inv (p\<lparr>pp_worker := ph\<rparr>)"
  using assms by (cases "pp_main p") (auto simp: process_inv_def)

lemma process_inv_told: "process_inv p \<Longrightarrow> pp_worker p \<in> {W_leave, W_last} \<Longrightarrow> pp_told p"
  by (cases "pp_main p") (auto simp: process_inv_def)

lemma worker_step_inv:
  assumes "process_inv p" "working (pp_worker p)"
  shows "process_inv (worker_step F solve junk (pp_worker p) p)"
  using assms process_inv_worker [OF assms(1)] commit_file_inv [OF assms(1)] process_inv_told [OF assms(1)]
    process_inv_worker [where p = "p\<lparr>pp_sp := sp\<rparr>" for sp]
  by (cases "pp_worker p") (simp_all add: working_def)

lemma pstep_inv:
  assumes "pstep F solve junk p p'" "process_inv p"
  shows "process_inv p'"
  using assms(1)
proof cases
  case work
  then show ?thesis using worker_step_inv assms(2) by blast
next
  case tell
  then show ?thesis using assms(2) by (auto simp: process_inv_def Finalize_tell_def main_acts_def)
next
  case join
  then show ?thesis using assms(2) by (auto simp: process_inv_def Finalize_join_def)
qed (use assms(2) in simp_all)

lemma preach_inv: "preach F solve junk p0 p \<Longrightarrow> process_inv p0 \<Longrightarrow> process_inv p"
  by (induction rule: preach.induct) (auto intro: pstep_inv)

lemma Init_inv:
  assumes "Predictor_Init F junk rank nprocs path (mk_pproc fs) = (Inr (), p0)"
  shows "process_inv p0"
  using Predictor_Init_loads [OF assms] by (simp add: process_inv_def mk_pproc_def)

text \<open>The main thread waits in \<^verbatim>\<open>Finalize\<close>, and the file has room for \<open>n\<close> more bytes.\<close>

definition closing :: "nat \<Rightarrow> 'd pproc \<Rightarrow> bool" where
  "closing n p \<longleftrightarrow> pp_main p = M_finalizing \<and> pp_told p \<and> pp_dead p = None \<and>
     (\<exists>i. pp_file p = Some i \<and> i + n \<le> fs_room (pp_fs p))"

definition can_close :: "'d flops \<Rightarrow> ('d observation list \<Rightarrow> 'd triple) \<Rightarrow> (nat \<Rightarrow> char) \<Rightarrow> 'd pproc \<Rightarrow> bool" where
  "can_close F solve junk p \<longleftrightarrow>
     (\<exists>p'. preach F solve junk p p' \<and> pp_main p' = M_closed \<and> pp_worker p' = W_joined \<and> pp_dead p' = None)"

lemma closing_fields [simp]:
  "closing n (p\<lparr>pp_sp := sp\<rparr>) = closing n p" "closing n (p\<lparr>pp_worker := ph\<rparr>) = closing n p"
  by (simp_all add: closing_def)

lemma can_close_step: "pstep F solve junk p p' \<Longrightarrow> can_close F solve junk p' \<Longrightarrow> can_close F solve junk p"
  unfolding can_close_def using preach_trans [OF _ preach_step [OF preach_init]] by blast

lemma can_close_work:
  assumes "working (pp_worker p)" "closing n p" "can_close F solve junk (worker_step F solve junk (pp_worker p) p)"
  shows "can_close F solve junk p"
proof -
  have "pp_dead p = None" using assms(2) by (simp add: closing_def)
  from can_close_step [OF work [OF assms(1) this] assms(3)] show ?thesis .
qed

lemma closing_commit:
  assumes "closing (n + 2097152) p"
  shows "closing n (commit_file F junk after p) \<and> pp_worker (commit_file F junk after p) = after"
proof -
  obtain i where i: "pp_file p = Some i" "i + (n + 2097152) \<le> fs_room (pp_fs p)"
    using assms by (auto simp: closing_def)
  then obtain sp' i' files where "commit_file F junk after p =
      p\<lparr>pp_sp := sp', pp_worker := after, pp_file := Some i', pp_fs := (pp_fs p)\<lparr>fs_files := files\<rparr>\<rparr>"
    "i' \<le> i + 2097152"
    using commit_file_ok [of p i F junk after] by auto
  then show ?thesis using assms i by (simp add: closing_def)
qed

lemma close_done: "closing n p \<Longrightarrow> pp_worker p = W_done \<Longrightarrow> can_close F solve junk p"
  using preach_step [OF preach_init join, of p F solve junk]
  by (auto simp: can_close_def closing_def Finalize_join_def)

lemma close_last:
  assumes "closing 2097152 p" "pp_worker p = W_last"
  shows "can_close F solve junk p"
  using closing_commit [of 0 p F junk W_done] assms
  by (intro can_close_work [OF _ assms(1)]) (auto simp: working_def intro: close_done)

lemma close_leave:
  assumes "closing 2097152 p" "pp_worker p = W_leave"
  shows "can_close F solve junk p"
  using assms by (intro can_close_work [OF _ assms(1)]) (simp_all add: working_def close_last)

lemma close_wait:
  assumes "closing 2097152 p" "pp_worker p = W_wait"
  shows "can_close F solve junk p"
proof (rule can_close_work [OF _ assms(1)])
  have "pp_told p" using assms(1) by (simp add: closing_def)
  then show "can_close F solve junk (worker_step F solve junk (pp_worker p) p)"
    using assms by (simp add: close_leave)
qed (simp add: assms(2) working_def)

lemma close_committed:
  assumes "closing 2097152 p" "pp_worker p = W_committed"
  shows "can_close F solve junk p"
  using assms by (intro can_close_work [OF _ assms(1)]) (simp_all add: working_def close_wait)

lemma close_fitted:
  assumes "closing 4194304 p" "pp_worker p = W_fitted"
  shows "can_close F solve junk p"
  using assms closing_commit [of 2097152 p F junk W_committed]
  by (intro can_close_work [OF _ assms(1)]) (simp_all add: working_def close_committed)

lemma close_body:
  assumes "closing 4194304 p" "pp_worker p \<in> {W_body, W_fitted, W_committed, W_wait}"
  shows "can_close F solve junk p"
proof -
  have less: "closing 2097152 p" using assms(1) by (auto simp: closing_def)
  then have "can_close F solve junk p" if "pp_worker p = W_body"
    using that assms(1)
    by (intro can_close_work [OF _ assms(1)]) (simp_all add: working_def close_fitted close_wait)
  then show ?thesis using assms less by (auto intro: close_fitted close_committed close_wait)
qed


lemma fit_models_nprocs: "sp_nprocs (fit_models F solve confs sp) = sp_nprocs sp"
  by (induction confs arbitrary: sp) (simp_all add: set_model_def)

lemma pstep_closed:
  assumes "pstep F solve junk p p'" "pp_main p = M_closed \<longrightarrow> pp_file p = None" "process_inv p"
  shows "pp_main p' = M_closed \<longrightarrow> pp_file p' = None"
  using assms(1)
proof cases
  case work
  then have "pp_main p \<noteq> M_closed" using assms(3) by (auto simp: process_inv_def working_def)
  then have "pp_main p' \<noteq> M_closed"
    using work(1) commit_file_keeps(1) [of F junk _ p] by (cases "pp_worker p") simp_all
  then show ?thesis by simp
qed (use assms(2) in \<open>auto simp: Finalize_tell_def Finalize_join_def\<close>)

lemma closed_file:
  "preach F solve junk p0 p \<Longrightarrow> process_inv p0 \<and> pp_main p0 = M_free \<Longrightarrow> pp_main p = M_closed \<Longrightarrow> pp_file p = None"
proof (induction rule: preach.induct)
  case (preach_step p p')
  then show ?case using pstep_closed preach_inv by blast
qed simp

lemma Init_open:
  assumes "Predictor_Init F junk rank nprocs path (mk_pproc fs) = (Inr (), p0)"
  shows "process_inv p0 \<and> pp_main p0 = M_free"
  using Init_inv [OF assms] Predictor_Init_loads(5) [OF assms] by (simp add: mk_pproc_def)

section \<open>Properties\<close>

text \<open>A file system with an empty common file of models, for the witnesses.\<close>

definition model_fs :: fs where
  "model_fs = \<lparr>fs_files = [''m'' \<mapsto> []], fs_denied = (\<lambda>_. False), fs_room = 100000000, fs_max_io = 100\<rparr>"

lemma new_model: "model_at F k mk_StorageCostPredictor = mk_LinRegModel F"
  by (simp add: model_at_def mk_StorageCostPredictor_def)

lemma load_empty: "LoadModelCSV_part F junk (Some []) required sp = Inr (True, sp)"
  by (simp add: LoadModelCSV_part_def load_rows.simps)

lemma model_fs_init:
  "\<exists>fs'. Predictor_Init F junk 0 1 ''m'' (mk_pproc model_fs) =
     (Inr (), (mk_pproc model_fs)\<lparr>pp_path := ''m'', pp_file := Some 0, pp_fs := fs', pp_worker := W_body\<rparr>) \<and>
   fs_room fs' = 100000000"
  by (simp add: Predictor_Init_def open_model_def model_fs_def posix_open_rdonly_def LoadModelCSV_def load_empty
      mk_pproc_def mk_StorageCostPredictor_def decimal_eval)

text \<open>
  C26. A storage that is in none of the files \<^verbatim>\<open>Init\<close> loads is never trained: whatever feedback it
  gets and however the threads interleave, its coefficients are never fitted, and every
  prediction for it is made with the zeros of a new model. \<^verbatim>\<open>Feedback\<close> creates the model and does
  not add the storage to the list the worker walks over.
\<close>

theorem predictor_new_storage_untrained:
  assumes "Predictor_Init F junk rank nprocs path (mk_pproc fs) = (Inr (), p0)"
    and "k \<notin> set (sp_configs (pp_sp p0))" "preach F solve junk p0 p"
  shows "k \<notin> set (sp_configs (pp_sp p)) \<and>
    fst (Predict F rb wb k (pp_sp p)) =
      f_add F (f_add F (f_mul F (f_zero F) (f_of_int F (sp_nprocs (pp_sp p)))) (f_mul F (f_zero F) rb))
        (f_mul F (f_zero F) wb)"
  using untrained_preach [OF assms(3) Init_untrained [OF assms(1,2)]]
  by (simp add: untrained_def Predict_def Predict_model_def Let_def)

theorem predictor_new_storage_untrained_witness:
  "\<exists>p. preach ref_flops (\<lambda>w. (7, 7, 7)) (\<lambda>_. CHR 0x00) (snd (Predictor_Init ref_flops (\<lambda>_. CHR 0x00) 0 1 ''m'' (mk_pproc model_fs))) p \<and>
     lr_dataset (model_at ref_flops 4 (pp_sp p)) False = [((1, 20, 30), 100)] \<and>
     fst (Predict ref_flops 30 20 4 (pp_sp p)) = 0"
proof -
  let ?z = "\<lambda>_ :: nat. CHR 0x00"
  obtain p0 where p0: "Predictor_Init ref_flops ?z 0 1 ''m'' (mk_pproc model_fs) = (Inr (), p0)"
    "pp_sp p0 = mk_StorageCostPredictor" "pp_main p0 = M_free" "pp_dead p0 = None"
    using model_fs_init [of ref_flops ?z] by (auto simp: mk_pproc_def)
  let ?p = "p0\<lparr>pp_sp := Feedback ref_flops 100 30 20 4 (pp_sp p0)\<rparr>"
  have reach: "preach ref_flops (\<lambda>w. (7, 7, 7)) ?z p0 ?p"
    by (rule preach_step [OF preach_init feedback]) (simp add: main_acts_def p0)
  have "4 \<notin> set (sp_configs (pp_sp p0))" by (simp add: p0 mk_StorageCostPredictor_def)
  from predictor_new_storage_untrained [OF p0(1) this reach, of 30 20]
  have "fst (Predict ref_flops 30 20 4 (pp_sp ?p)) = 0" by (simp add: ref_flops_def)
  moreover have "lr_dataset (model_at ref_flops 4 (pp_sp ?p)) False = [((1, 20, 30), 100)]"
    by (simp add: p0 Feedback_model_at new_model db_append_def mk_LinRegModel_def db_empty_def)
       (simp add: mk_StorageCostPredictor_def ref_flops_def)
  ultimately show ?thesis using reach p0(1) by (intro exI [of _ ?p]) simp
qed

text \<open>
  C25. A storage of the list is trained: once a window of feedback has arrived, the worker's next
  turn solves for exactly the observations of the window, in their order, leaves none behind,
  and from then on predictions are made with the mean of the solution and the coefficients of
  the buffer that was not in use. The bytes read and written of an observation are exchanged.
\<close>

theorem predictor_fits_window:
  assumes "k \<in> set (sp_configs sp)" "lr_dataset (model_at F k sp) = db_empty" "sp_window_tick sp = 0"
    and "obs \<noteq> []" "unat (sp_window_size sp) \<le> length obs" "length obs < 2 ^ 64"
    and "pp_worker p = W_body" "pp_sp p = feedback_all F k obs sp"
    and "p' = worker_step F solve junk (pp_worker p) p"
  shows "pp_worker p' = W_fitted \<and> lr_dataset (model_at F k (pp_sp p')) = db_empty \<and>
    fst (Predict F rb wb k (pp_sp p')) =
      (case average F (lr_coeffs (model_at F k sp) (\<not> lr_buffer (model_at F k sp))) (solve (observed F (sp_nprocs sp) obs)) of
         (a, b, c) \<Rightarrow> f_add F (f_add F (f_mul F a (f_of_int F (sp_nprocs sp))) (f_mul F b rb)) (f_mul F c wb))"
proof -
  let ?m = "model_at F k (pp_sp p)" and ?w = "observed F (sp_nprocs sp) obs"
  have fields: "sp_nprocs (pp_sp p) = sp_nprocs sp" "sp_configs (pp_sp p) = sp_configs sp"
    "sp_window_size (pp_sp p) = sp_window_size sp" "sp_window_tick (pp_sp p) = of_nat (length obs)"
    using feedback_all_fields [of F k obs sp] assms(3,8) by simp_all
  have "window_full (pp_sp p)"
    using assms(5,6) by (simp add: window_full_def fields word_le_nat_alt size_fits)
  then have p': "p' = p\<lparr>pp_sp := Fit F solve (pp_sp p), pp_worker := W_fitted\<rparr>"
    using assms(7,9) by simp
  have m: "?m = (model_at F k sp)\<lparr>lr_dataset := db_empty(False := ?w)\<rparr>"
    using feedback_all_model [of F k obs sp] assms(2,8) by (simp add: db_empty_def)
  have "model_at F k (pp_sp p') = Fit_model F solve ?m"
    using assms(1) by (simp add: p' Fit_def fit_models_visited fields)
  moreover have "drain True (lr_dataset ?m) = ?w" by (simp add: m drain_order db_empty_def)
  moreover have "?w \<noteq> []" using assms(4) by (simp add: observed_def)
  moreover have "sp_nprocs (pp_sp p') = sp_nprocs sp"
    by (simp add: p' Fit_def fit_models_nprocs fields)
  ultimately show ?thesis
    using Fit_model_window [of ?m ?w F solve] by (simp add: p' m Predict_def Predict_model_def Let_def)
qed

theorem predictor_fits_window_witness:
  "fst (Predict ref_flops 10 10 4 (pp_sp (worker_step ref_flops (\<lambda>w. (0, 2 * int (length w), 2)) (\<lambda>_. CHR 0x00) W_body
     ((mk_pproc model_fs)\<lparr>pp_worker := W_body, pp_sp := feedback_all ref_flops 4 [(100, 30, 20), (50, 10, 10)]
        (mk_StorageCostPredictor\<lparr>sp_configs := [4], sp_window_size := 2\<rparr>)\<rparr>)))) = 30"
proof -
  let ?sp = "mk_StorageCostPredictor\<lparr>sp_configs := [4], sp_window_size := 2\<rparr> :: int predictor"
  let ?obs = "[(100, 30, 20), (50, 10, 10)] :: (int \<times> int \<times> int) list" and ?z = "\<lambda>_ :: nat. CHR 0x00"
  let ?solve = "\<lambda>w :: int observation list. (0, 2 * int (length w), 2)"
  let ?p = "(mk_pproc model_fs)\<lparr>pp_worker := W_body, pp_sp := feedback_all ref_flops 4 ?obs ?sp\<rparr>"
  have sp: "sp_nprocs ?sp = 1" "sp_window_tick ?sp = 0" by (simp_all add: mk_StorageCostPredictor_def)
  have "fst (Predict ref_flops 10 10 4 (pp_sp (worker_step ref_flops ?solve ?z (pp_worker ?p) ?p))) =
      (case average ref_flops (lr_coeffs (model_at ref_flops 4 ?sp) (\<not> lr_buffer (model_at ref_flops 4 ?sp)))
         (?solve (observed ref_flops (sp_nprocs ?sp) ?obs)) of
         (a, b, c) \<Rightarrow> f_add ref_flops (f_add ref_flops (f_mul ref_flops a (f_of_int ref_flops (sp_nprocs ?sp)))
            (f_mul ref_flops b 10)) (f_mul ref_flops c 10))"
    by (rule predictor_fits_window [where obs = ?obs and p = ?p and junk = ?z and solve = ?solve, THEN conjunct2, THEN conjunct2])
       (simp_all add: sp [simplified] new_model mk_LinRegModel_def)
  then show ?thesis by (simp add: sp [simplified] new_model mk_LinRegModel_def observed_def average_def ref_flops_def)
qed

text \<open>
  C27. Liveness. \<^verbatim>\<open>Finalize\<close> ends: wherever the worker stands when the main thread calls it, the
  worker finishes its turn, saves for a last time and is joined, and the file is closed, if the
  file has room for two more buffers of rows.
\<close>

theorem predictor_finalize_ends:
  assumes "Predictor_Init F junk rank nprocs path (mk_pproc fs) = (Inr (), p0)"
    and "preach F solve junk p0 p" "pp_main p = M_free" "pp_dead p = None"
    and "case pp_file p of None \<Rightarrow> False | Some i \<Rightarrow> i + 2 * unat buffer_size \<le> fs_room (pp_fs p)"
  shows "\<exists>p'. preach F solve junk p0 p' \<and> preach F solve junk (Finalize_tell p) p' \<and>
    pp_main p' = M_closed \<and> pp_worker p' = W_joined \<and> pp_file p' = None \<and> pp_dead p' = None"
proof -
  have inv: "\<not> pp_told p" "pp_worker p \<in> {W_body, W_fitted, W_committed, W_wait}"
    using preach_inv [OF assms(2) Init_inv [OF assms(1)]] assms(3) by (auto simp: process_inv_def)
  have tell: "pstep F solve junk p (Finalize_tell p)" by (rule pstep.tell) (simp add: main_acts_def assms(3,4))
  have told: "Finalize_tell p = p\<lparr>pp_told := True, pp_main := M_finalizing\<rparr>"
    using inv by (auto simp: Finalize_tell_def)
  have "closing 4194304 (Finalize_tell p)"
    using assms(4,5) by (auto simp: told closing_def buffer_size_def MB_def split: option.splits)
  then have "can_close F solve junk (Finalize_tell p)"
    by (rule close_body) (use inv(2) told in simp)
  then obtain p' where p': "preach F solve junk (Finalize_tell p) p'" "pp_main p' = M_closed"
    "pp_worker p' = W_joined" "pp_dead p' = None"
    by (auto simp: can_close_def)
  have "preach F solve junk p0 p'" using p'(1) preach_step [OF assms(2) tell] by (rule preach_trans)
  moreover have "pp_file p' = None" by (rule closed_file [OF calculation Init_open [OF assms(1)] p'(2)])
  ultimately show ?thesis using p' by blast
qed

theorem predictor_finalize_ends_witness:
  "\<exists>p'. preach ref_flops (\<lambda>w. (7, 7, 7)) (\<lambda>_. CHR 0x00)
      (snd (Predictor_Init ref_flops (\<lambda>_. CHR 0x00) 0 1 ''m'' (mk_pproc model_fs))) p' \<and>
     pp_main p' = M_closed \<and> pp_worker p' = W_joined \<and> pp_file p' = None"
proof -
  let ?z = "\<lambda>_ :: nat. CHR 0x00"
  obtain p0 where p0: "Predictor_Init ref_flops ?z 0 1 ''m'' (mk_pproc model_fs) = (Inr (), p0)"
    "pp_main p0 = M_free" "pp_dead p0 = None" "pp_file p0 = Some 0" "fs_room (pp_fs p0) = 100000000"
    using model_fs_init [of ref_flops ?z] by (auto simp: mk_pproc_def)
  show ?thesis
    using predictor_finalize_ends [OF p0(1) preach_init p0(2,3), of "\<lambda>w. (7, 7, 7)"] p0
    by (auto simp: buffer_size_def MB_def)
qed

end
