(* ===== verification/C_Program.thy ===== *)
theory C_Program
  imports Error_Codes
begin

text \<open>
  What the programs under \<^verbatim>\<open>src/old\<close> share: a small state-and-error monad for C functions,
  the C library calls they make (\<^verbatim>\<open>sprintf\<close> and \<^verbatim>\<open>strcat\<close> into buffers of a fixed size,
  \<^verbatim>\<open>fgets\<close>, \<^verbatim>\<open>rand\<close>), and the interfaces of the two packages they link: hiredis-vip
  (\<open>hircluster\<close>) and libmongoc (\<open>mongoc\<close>). The servers behind the packages are abstract
  states; \<open>hircluster_ok\<close> and \<open>mongoc_ok\<close> state what the programs rely on.

  A C string is the list of its characters before the terminating NUL. Writing past the end
  of a buffer and reading through a null pointer are \<open>Undefined\<close>. Text written to
  \<^verbatim>\<open>stdout\<close> and \<^verbatim>\<open>stderr\<close> is collected in one list, oldest first.
\<close>

section \<open>The state of a process\<close>

text \<open>
  A file is its content and its extended attributes. The sequence of \<^verbatim>\<open>rand\<close> is a function
  of the seed and of the number of calls since it was set.
\<close>

type_synonym xfile = "bytes \<times> (string \<Rightarrow> bytes option)"

record ('h, 'm) cworld =
  cw_redis :: 'h
  cw_mongo :: 'm
  cw_files :: "string \<Rightarrow> xfile option"
  cw_out :: "string list"
  cw_seed :: int
  cw_calls :: nat

type_synonym ('w, 'a) cprog = "'w \<Rightarrow> 'a res \<times> 'w"
type_synonym rand_fun = "int \<Rightarrow> nat \<Rightarrow> int"

definition creturn :: "'a \<Rightarrow> ('w, 'a) cprog" where
  "creturn x w = (Inr x, w)"

definition cfail :: "fault \<Rightarrow> ('w, 'a) cprog" where
  "cfail e w = (Inl e, w)"

definition clift :: "'a res \<Rightarrow> ('w, 'a) cprog" where
  "clift r w = (r, w)"

definition cbind :: "('w, 'a) cprog \<Rightarrow> ('a \<Rightarrow> ('w, 'b) cprog) \<Rightarrow> ('w, 'b) cprog" where
  "cbind p f w = (case p w of (Inl e, w') \<Rightarrow> (Inl e, w') | (Inr x, w') \<Rightarrow> f x w')"

text \<open>Programs with a loop that might not end: \<open>None\<close> is not returning.\<close>

type_synonym ('w, 'a) oprog = "'w \<Rightarrow> ('a res \<times> 'w) option"

definition ototal :: "('w, 'a) cprog \<Rightarrow> ('w, 'a) oprog" where
  "ototal p w = Some (p w)"

definition obind :: "('w, 'a) oprog \<Rightarrow> ('a \<Rightarrow> ('w, 'b) oprog) \<Rightarrow> ('w, 'b) oprog" where
  "obind p f w =
     (case p w of
        None \<Rightarrow> None
      | Some (Inl e, w') \<Rightarrow> Some (Inl e, w')
      | Some (Inr x, w') \<Rightarrow> f x w')"

text \<open>A \<^verbatim>\<open>for\<close> loop over \<open>i, \<dots>, i + n - 1\<close>.\<close>

fun cfor :: "nat \<Rightarrow> nat \<Rightarrow> (nat \<Rightarrow> ('w, unit) cprog) \<Rightarrow> ('w, unit) cprog" where
  "cfor i 0 body = creturn ()"
| "cfor i (Suc n) body = cbind (body i) (\<lambda>_. cfor (Suc i) n body)"

definition cprint :: "string \<Rightarrow> (('h, 'm) cworld, unit) cprog" where
  "cprint s w = (Inr (), w\<lparr>cw_out := cw_out w @ [s]\<rparr>)"

definition srand :: "int \<Rightarrow> (('h, 'm) cworld, unit) cprog" where
  "srand seed w = (Inr (), w\<lparr>cw_seed := seed, cw_calls := 0\<rparr>)"

definition crand :: "rand_fun \<Rightarrow> (('h, 'm) cworld, int) cprog" where
  "crand rnd w = (Inr (rnd (cw_seed w) (cw_calls w)), w\<lparr>cw_calls := Suc (cw_calls w)\<rparr>)"

text \<open>\<^verbatim>\<open>rand\<close> returns a number between 0 and \<^verbatim>\<open>RAND_MAX\<close>.\<close>

definition rand_ok :: "rand_fun \<Rightarrow> bool" where
  "rand_ok rnd \<longleftrightarrow> (\<forall>seed n. 0 \<le> rnd seed n \<and> rnd seed n < 2 ^ 31)"

text \<open>Signed arithmetic that leaves the range of \<^verbatim>\<open>int\<close> is undefined.\<close>

definition int_ok :: "int \<Rightarrow> int res" where
  "int_ok i = (if - (2 ^ 31) \<le> i \<and> i < 2 ^ 31 then Inr i else Inl Undefined)"

section \<open>C library calls\<close>

text \<open>The C string at an address where the bytes \<open>s\<close> and then a NUL are stored.\<close>

definition cstr :: "bytes \<Rightarrow> string" where
  "cstr s = takeWhile (\<lambda>c. c \<noteq> CHR 0x00) s"

text \<open>\<^verbatim>\<open>sprintf(buf, ...)\<close> with the text \<open>s\<close>, for a buffer of \<open>cap\<close> bytes; \<^verbatim>\<open>strcat\<close> likewise.\<close>

definition sprintf_to :: "nat \<Rightarrow> string \<Rightarrow> string res" where
  "sprintf_to cap s = (if length s < cap then Inr s else Inl Undefined)"

definition strcat_to :: "nat \<Rightarrow> string \<Rightarrow> string \<Rightarrow> string res" where
  "strcat_to cap s t = sprintf_to cap (s @ t)"

text \<open>\<^verbatim>\<open>%d\<close> of an \<^verbatim>\<open>int\<close>; of a 64-bit argument, of which it reads the low half; and \<^verbatim>\<open>%02d\<close>.\<close>

definition show_d :: "int \<Rightarrow> string" where
  "show_d i = int_to_string i"

definition show_d64 :: "64 word \<Rightarrow> string" where
  "show_d64 x = int_to_string (sint (ucast x :: int32))"

definition show_02d :: "nat \<Rightarrow> string" where
  "show_02d n = (if n < 10 then CHR ''0'' # nat_to_string n else nat_to_string n)"

text \<open>The C string in a buffer, and \<^verbatim>\<open>strcpy(buf + off, s)\<close>.\<close>

definition string_in :: "bytes \<Rightarrow> string res" where
  "string_in buf =
     (if CHR 0x00 \<in> set buf then Inr (takeWhile (\<lambda>c. c \<noteq> CHR 0x00) buf) else Inl Undefined)"

definition strcpy_at :: "nat \<Rightarrow> string \<Rightarrow> bytes \<Rightarrow> bytes res" where
  "strcpy_at off s buf =
     (case memcpy_at off (s @ [CHR 0x00]) buf of None \<Rightarrow> Inl Undefined | Some b \<Rightarrow> Inr b)"

text \<open>One \<^verbatim>\<open>fgets(line, cap, f)\<close> on the rest of a file: the line and what is left of it.\<close>

fun fgets_go :: "nat \<Rightarrow> string \<Rightarrow> string \<times> string" where
  "fgets_go 0 s = ([], s)"
| "fgets_go (Suc n) [] = ([], [])"
| "fgets_go (Suc n) (c # s) =
     (if c = CHR ''\<newline>'' then ([c], s) else case fgets_go n s of (l, r) \<Rightarrow> (c # l, r))"

definition fgets :: "nat \<Rightarrow> string \<Rightarrow> (string \<times> string) option" where
  "fgets cap s = (if s = [] then None else Some (fgets_go (cap - 1) s))"

lemma fgets_go_length: "s \<noteq> [] \<Longrightarrow> fgets_go (Suc n) s = (l, r) \<Longrightarrow> length r < length s"
proof (induction n arbitrary: s l r)
  case 0
  then show ?case by (cases s) (auto split: if_splits)
next
  case (Suc n)
  then obtain c t where s: "s = c # t" by (cases s) auto
  show ?case
  proof (cases "c = CHR ''\<newline>'' \<or> t = []")
    case True
    then show ?thesis using Suc.prems(2) s by (auto split: if_splits)
  next
    case False
    obtain l' r' where go: "fgets_go (Suc n) t = (l', r')" by fastforce
    with Suc.IH [of t l' r'] False have "length r' < length t" by simp
    then show ?thesis using Suc.prems(2) s go False by (auto split: prod.splits)
  qed
qed

lemma fgets_shorter: "fgets cap s = Some (l, r) \<Longrightarrow> 1 < cap \<Longrightarrow> length r < length s"
  by (cases "cap - 1") (auto simp: fgets_def split: if_splits dest: fgets_go_length)

section \<open>hiredis-vip\<close>

text \<open>
  A reply: the null pointer, an object whose \<^verbatim>\<open>str\<close> is null (a nil reply, with \<^verbatim>\<open>len\<close> 0), or
  an object with a string of \<^verbatim>\<open>len\<close> bytes. \<open>hc_connect\<close> is the error text left in the
  context by \<^verbatim>\<open>redisClusterConnect2\<close> for a node list.
\<close>

datatype redis_reply = NullReply | NilReply | Reply bytes

record 'h hircluster =
  hc_connect :: "string \<Rightarrow> string option"
  hc_set :: "string \<Rightarrow> bytes \<Rightarrow> 'h \<Rightarrow> redis_reply \<times> 'h"
  hc_get :: "string \<Rightarrow> 'h \<Rightarrow> redis_reply"

text \<open>
  A cluster in a state \<open>up\<close> stores every value of at most 512 MiB, the limit Redis
  documents, under its key and nothing else.
\<close>

definition hircluster_ok :: "'h hircluster \<Rightarrow> ('h \<Rightarrow> bool) \<Rightarrow> bool" where
  "hircluster_ok H up \<longleftrightarrow>
     (\<forall>h k v. up h \<and> length v \<le> 512 * 1024 * 1024 \<longrightarrow>
        (\<exists>h'. hc_set H k v h = (Reply ''OK'', h') \<and> up h' \<and>
              (\<forall>k'. hc_get H k' h' = (if k' = k then Reply v else hc_get H k' h))))"

section \<open>libmongoc\<close>

text \<open>
  A document is its list of string fields; \<open>mc_insert\<close> returns the error message of a
  refused insertion, \<open>mc_find\<close> the documents with a given \<^verbatim>\<open>_id\<close>. \<open>mc_connect\<close> tells for a
  URI whether it parses, gives a client, and answers a ping.
\<close>

type_synonym document = "(string \<times> bytes) list"

record 'm mongoc =
  mc_connect :: "string \<Rightarrow> bool \<times> bool \<times> bool"
  mc_insert :: "document \<Rightarrow> 'm \<Rightarrow> string option \<times> 'm"
  mc_find :: "string \<Rightarrow> 'm \<Rightarrow> document list"
  mc_drop :: "'m \<Rightarrow> string option \<times> 'm"

text \<open>
  A collection in a state \<open>up\<close> takes a document with a new \<^verbatim>\<open>_id\<close> and at most 16 MiB, the
  limit MongoDB documents; 1 KiB is left here for the field names and the encoding.
\<close>

definition mongoc_ok :: "'m mongoc \<Rightarrow> ('m \<Rightarrow> bool) \<Rightarrow> bool" where
  "mongoc_ok M up \<longleftrightarrow>
     (\<forall>m i k v. up m \<and> mc_find M i m = [] \<and>
                length i + length k + length v \<le> 16 * 1024 * 1024 - 1024 \<longrightarrow>
        (\<exists>m'. mc_insert M [(''_id'', i), (k, v)] m = (None, m') \<and> up m' \<and>
              (\<forall>j. mc_find M j m' =
                     (if j = i then [[(''_id'', i), (k, v)]] else mc_find M j m))))"

section \<open>Lemmas\<close>

lemma cbind_Inr: "p w = (Inr x, w') \<Longrightarrow> cbind p f w = f x w'"
  by (simp add: cbind_def)

lemma cbind_Inl: "p w = (Inl e, w') \<Longrightarrow> cbind p f w = (Inl e, w')"
  by (simp add: cbind_def)

lemma obind_Inr: "p w = Some (Inr x, w') \<Longrightarrow> obind p f w = f x w'"
  by (simp add: obind_def)

lemma obind_total: "p w = (Inr x, w') \<Longrightarrow> obind (ototal p) f w = f x w'"
  by (simp add: obind_def ototal_def)

lemma cbind_simps [simp]:
  "cbind (creturn x) f = f x" "cbind (cfail e) f = cfail e"
  "cbind (clift (Inr x)) f = f x" "cbind (clift (Inl e)) f = cfail e"
  by (auto simp: cbind_def creturn_def cfail_def clift_def)

lemma cbind_result:
  "cbind p f w = (Inr y, w'') \<longleftrightarrow> (\<exists>x w'. p w = (Inr x, w') \<and> f x w' = (Inr y, w''))"
  by (auto simp: cbind_def split: prod.splits sum.splits)

text \<open>Loops by an invariant: the body succeeds and carries the invariant to the next index.\<close>

lemma cfor_invariant:
  assumes "I i w"
    and "\<And>j w. i \<le> j \<Longrightarrow> j < i + n \<Longrightarrow> I j w \<Longrightarrow> \<exists>w'. body j w = (Inr (), w') \<and> I (Suc j) w'"
  shows "\<exists>w'. cfor i n body w = (Inr (), w') \<and> I (i + n) w'"
  using assms
proof (induction n arbitrary: i w)
  case 0
  then show ?case by (simp add: creturn_def)
next
  case (Suc n)
  from Suc.prems(2) [of i w] Suc.prems(1) obtain w1 where
    b: "body i w = (Inr (), w1)" and I: "I (Suc i) w1" by auto
  from Suc.IH [of "Suc i" w1] I Suc.prems(2) obtain w2 where
    "cfor (Suc i) n body w1 = (Inr (), w2)" "I (Suc i + n) w2" by auto
  with b show ?case by (auto simp: cbind_Inr)
qed

lemma takeWhile_until:
  "d \<notin> set a \<Longrightarrow> takeWhile (\<lambda>c. c \<noteq> d) a = a" "d \<notin> set a \<Longrightarrow> dropWhile (\<lambda>c. c \<noteq> d) a = []"
  by (induction a) auto

lemma cstr_id: "CHR 0x00 \<notin> set s \<Longrightarrow> cstr s = s"
  by (auto simp: cstr_def takeWhile_eq_all_conv)

lemma cstr_append_NUL: "CHR 0x00 \<notin> set s \<Longrightarrow> cstr (s @ CHR 0x00 # t) = s"
  by (induction s) (auto simp: cstr_def)

lemma no_NUL_cstr: "CHR 0x00 \<notin> set (cstr s)"
  by (auto simp: cstr_def dest: set_takeWhileD)

lemma sprintf_to_fits: "length s < cap \<Longrightarrow> sprintf_to cap s = Inr s"
  by (simp add: sprintf_to_def)

lemma strcat_to_fits: "length s + length t < cap \<Longrightarrow> strcat_to cap s t = Inr (s @ t)"
  by (simp add: strcat_to_def sprintf_to_def)

lemma string_in_terminated: "CHR 0x00 \<notin> set s \<Longrightarrow> string_in (s @ CHR 0x00 # rest) = Inr s"
  by (induction s) (auto simp: string_in_def split: if_splits)

lemma strcpy_at_start:
  "length s < length buf \<Longrightarrow> strcpy_at 0 s buf = Inr (s @ CHR 0x00 # drop (Suc (length s)) buf)"
  by (simp add: strcpy_at_def memcpy_at_def)

lemma strcpy_string_in:
  "length s < length buf \<Longrightarrow> CHR 0x00 \<notin> set s \<Longrightarrow>
   and_then (strcpy_at 0 s buf) string_in = Inr s"
  by (simp add: strcpy_at_start string_in_terminated)

lemma fgets_go_line:
  "CHR ''\<newline>'' \<notin> set l \<Longrightarrow> length l < n \<Longrightarrow>
   fgets_go n (l @ CHR ''\<newline>'' # rest) = (l @ [CHR ''\<newline>''], rest)"
proof (induction l arbitrary: n)
  case Nil
  then show ?case by (cases n) auto
next
  case (Cons c l)
  then show ?case by (cases n) auto
qed

lemma fgets_line:
  "CHR ''\<newline>'' \<notin> set l \<Longrightarrow> length l + 1 < n \<Longrightarrow>
   fgets n (l @ CHR ''\<newline>'' # rest) = Some (l @ [CHR ''\<newline>''], rest)"
  by (simp add: fgets_def fgets_go_line)

lemma takeWhile_digits_append:
  "\<not> is_digit c \<Longrightarrow> takeWhile is_digit (nat_to_string n @ c # r) = nat_to_string n"
  using nat_to_string_digits [of n] by (subst takeWhile_append2) auto

lemma decimal_prefix_append:
  assumes "\<not> is_digit c"
  shows "decimal_prefix (int_to_string i @ c # r) = i"
proof -
  obtain d t where dt: "nat_to_string (nat \<bar>i\<bar>) = d # t" "is_digit d" using nat_to_string_Cons by blast
  have tw: "takeWhile is_digit (nat_to_string (nat \<bar>i\<bar>) @ c # r) = nat_to_string (nat \<bar>i\<bar>)"
    using assms by (rule takeWhile_digits_append)
  have m: "\<not> is_space (CHR ''-'')" by (simp add: is_space_def)
  show ?thesis
  proof (cases "i < 0")
    case True
    then show ?thesis
      using tw m by (simp add: int_to_string_def decimal_prefix_def)
  next
    case False
    then have "dropWhile is_space (int_to_string i @ c # r) = nat_to_string (nat \<bar>i\<bar>) @ c # r"
      using dt by (simp add: int_to_string_def is_digit_not_space)
    then show ?thesis
      using False dt tw is_digit_not_sign [OF dt(2)] digits_val_nat_to_string [of "nat \<bar>i\<bar>"]
      unfolding decimal_prefix_def by simp
  qed
qed

lemma atoi_append:
  assumes "- (2 ^ 31) \<le> i" "i < 2 ^ 31" "\<not> is_digit c"
  shows "atoi (int_to_string i @ c # r) = i"
proof -
  have "atol (int_to_string i @ c # r) = i"
    using assms by (simp add: atol_def decimal_prefix_append)
  then show ?thesis using assms by (simp add: atoi_def sint_word_of_int_32)
qed

lemma no_char_in_int_to_string: "\<not> is_digit c \<Longrightarrow> c \<noteq> CHR ''-'' \<Longrightarrow> c \<notin> set (int_to_string i)"
  using nat_to_string_digits by (auto simp: int_to_string_def)

lemma length_int_to_string_bound:
  assumes "- (2 ^ 31) \<le> i" "i < 2 ^ 31"
  shows "length (int_to_string i) \<le> 11"
proof (cases "i < 0")
  case True
  have "nat (- i) < 10 ^ Suc 9" using assms by simp
  from length_nat_to_string_bound [OF this] show ?thesis using True by (simp add: int_to_string_def)
next
  case False
  have "nat i < 10 ^ Suc 9" using assms by simp
  from length_nat_to_string_bound [OF this] show ?thesis using False by (simp add: int_to_string_def)
qed

lemma sint_int32_range: "- (2 ^ 31) \<le> sint (w :: int32)" "sint (w :: int32) < 2 ^ 31"
  using sint_greater_eq [of w] sint_less [of w] by simp_all

lemma length_show_d64: "length (show_d64 x) \<le> 11"
  unfolding show_d64_def by (rule length_int_to_string_bound) (rule sint_int32_range)+

text \<open>Joining fields with a character that is in none of them is injective.\<close>

lemma last_field_inject:
  assumes "c \<notin> set x" "c \<notin> set y" "a @ c # x = b @ c # y"
  shows "a = b \<and> x = y"
proof -
  have "rev x @ c # rev a = rev y @ c # rev b"
    using arg_cong [OF assms(3), of rev] by simp
  moreover have "takeWhile (\<lambda>d. d \<noteq> c) (rev x @ c # rev a) = rev x"
    using assms(1) by (subst takeWhile_append2) auto
  moreover have "takeWhile (\<lambda>d. d \<noteq> c) (rev y @ c # rev b) = rev y"
    using assms(2) by (subst takeWhile_append2) auto
  ultimately have "rev x = rev y" by metis
  then show ?thesis using assms(3) by simp
qed

end
