(* ===== verification/Shadow_Link.thy ===== *)
theory Shadow_Link
  imports C_Program
begin

text \<open>
  The shadow links of \<^verbatim>\<open>src/old/internal_component/shadow_link\<close>: the metadata record and its
  text form (\<^verbatim>\<open>common.c\<close>), and its storage in Redis (\<^verbatim>\<open>io_redis.c\<close>). The MongoDB side is in
  \<open>Shadow_Link_Mongo\<close>, the test drivers in \<open>Link_Tests\<close>.

  \<^verbatim>\<open>DEBUG\<close> is 0 in the sources, so \<^verbatim>\<open>debug_print\<close> of levels 1 to 3 prints nothing.
\<close>

section \<open>common.c\<close>

text \<open>
  A pointer to text: null, live, or to a stack buffer of a function that has returned.
\<close>

datatype cptr = Null | Live string | Dangling

record symbios_metadata =
  primary :: bool
  data_id :: cptr
  target_stor :: int
  server :: cptr
  port :: int
  offset :: size_t

definition UNKNOWN :: int where "UNKNOWN = -1"
definition PFS1 :: int where "PFS1 = 0"
definition PFS2 :: int where "PFS2 = 1"
definition REDIS :: int where "REDIS = 2"
definition MONGO :: int where "MONGO = 3"

definition charset :: string where
  "charset = ''abcdefghijklmnopqrstuvwxyzABCDEFGHIJKLMNOPQRSTUVWXYZ0123456789,.-#'' @ [CHR 0x27] @ ''?!''"

text \<open>
  \<open>randchars\<close> is the loop of \<^verbatim>\<open>randstring\<close>. For a negative length \<^verbatim>\<open>malloc\<close> is asked for more
  than it can give and returns null, except that for -1 it is asked for nothing and the
  terminator is stored before the block.
\<close>

fun randchars :: "rand_fun \<Rightarrow> string \<Rightarrow> nat \<Rightarrow> (('h, 'm) cworld, string) cprog" where
  "randchars rnd chars 0 = creturn []"
| "randchars rnd chars (Suc n) =
     cbind (crand rnd) (\<lambda>r.
     cbind (randchars rnd chars n) (\<lambda>s. creturn (chars ! nat (r mod int (length chars)) # s)))"

definition randstring_from ::
  "string \<Rightarrow> rand_fun \<Rightarrow> int \<Rightarrow> (('h, 'm) cworld, string option) cprog" where
  "randstring_from chars rnd len =
     (if len = 0 \<or> len < -1 then creturn None
      else if len = -1 then cfail Undefined
      else cbind (randchars rnd chars (nat len)) (\<lambda>s. creturn (Some s)))"

definition randstring :: "rand_fun \<Rightarrow> int \<Rightarrow> (('h, 'm) cworld, string option) cprog" where
  "randstring = randstring_from charset"

text \<open>The block \<^verbatim>\<open>genstring\<close> returns: every byte is \<^verbatim>\<open>'A'\<close>, the last one too.\<close>

definition genstring :: "int \<Rightarrow> bytes option" where
  "genstring len =
     (if len = 0 \<or> len < -1 then None else Some (replicate (nat (len + 1)) (CHR ''A'')))"

definition SERDE_MD_SEP :: char where "SERDE_MD_SEP = CHR ''#''"

definition strcat_ptr :: "nat \<Rightarrow> string \<Rightarrow> cptr \<Rightarrow> string res" where
  "strcat_ptr cap s p = (case p of Live t \<Rightarrow> strcat_to cap s t | _ \<Rightarrow> Inl Undefined)"

definition serialize_metadata :: "symbios_metadata \<Rightarrow> string res" where
  "serialize_metadata metadata =
     and_then (strcat_ptr 1024 [] (data_id metadata)) (\<lambda>s.
     and_then (strcat_to 1024 s [SERDE_MD_SEP]) (\<lambda>s.
     and_then (strcat_to 1024 s (if primary metadata then ''1'' else ''0'')) (\<lambda>s.
     and_then (strcat_to 1024 s [SERDE_MD_SEP]) (\<lambda>s.
     and_then (strcat_to 1024 s (show_d (target_stor metadata))) (\<lambda>s.
     and_then (strcat_to 1024 s [SERDE_MD_SEP]) (\<lambda>s.
     and_then (if server metadata \<noteq> Null then strcat_ptr 1024 s (server metadata) else Inr s) (\<lambda>s.
     and_then (strcat_to 1024 s [SERDE_MD_SEP]) (\<lambda>s.
     and_then (strcat_to 1024 s (show_d (port metadata))) (\<lambda>s.
     and_then (strcat_to 1024 s [SERDE_MD_SEP]) (\<lambda>s.
     and_then (strcat_to 1024 s (show_d64 (offset metadata))) (\<lambda>s.
     strcat_to 1024 s [SERDE_MD_SEP])))))))))))"

text \<open>
  The tokens are taken by \<^verbatim>\<open>strtok\<close>; \<^verbatim>\<open>atoi\<close> of a null token is undefined. A token is the
  piece of text at its address, live as long as the text is.
\<close>

definition tok_num :: "string option \<Rightarrow> int res" where
  "tok_num t = (case t of None \<Rightarrow> Inl Undefined | Some s \<Rightarrow> Inr (atoi s))"

definition tok_ptr :: "string option \<Rightarrow> cptr" where
  "tok_ptr t = (case t of None \<Rightarrow> Null | Some s \<Rightarrow> Live s)"

definition next_tok :: "char \<Rightarrow> string \<Rightarrow> string option \<times> string" where
  "next_tok d s = (case strtok d s of None \<Rightarrow> (None, []) | Some (t, rest) \<Rightarrow> (Some t, rest))"

definition deserialize_metadata :: "string \<Rightarrow> symbios_metadata res" where
  "deserialize_metadata metadata_str =
     (let (t0, r0) = next_tok SERDE_MD_SEP metadata_str;
          (t1, r1) = next_tok SERDE_MD_SEP r0
      in and_then (tok_num t1) (\<lambda>prim.
         if prim \<noteq> 0
         then Inr \<lparr>primary = True, data_id = tok_ptr t0, target_stor = -1, server = Null,
                   port = -1, offset = -1\<rparr>
         else let (t2, r2) = next_tok SERDE_MD_SEP r1;
                  (t3, r3) = next_tok SERDE_MD_SEP r2;
                  (t4, r4) = next_tok SERDE_MD_SEP r3;
                  (t5, r5) = next_tok SERDE_MD_SEP r4
              in and_then (tok_num t2) (\<lambda>stor.
                 and_then (tok_num t4) (\<lambda>prt.
                 and_then (if stor = PFS1 \<or> stor = PFS2 then tok_num t5 else Inr (-1)) (\<lambda>off.
                 Inr \<lparr>primary = False, data_id = tok_ptr t0, target_stor = stor,
                      server = tok_ptr t3, port = prt, offset = word_of_int off\<rparr>)))))"

section \<open>io_redis.c: the connection\<close>

definition REDIS_HOST_BASE :: string where "REDIS_HOST_BASE = ''ares-stor-''"
definition REDIS_PORT_BASE :: nat where "REDIS_PORT_BASE = 7000"

text \<open>
  The loop shared by the versions of \<^verbatim>\<open>genNodeList\<close>: \<open>left\<close> hosts from index \<open>i\<close> on, with
  the first host number \<open>start\<close>; \<open>cap\<close> is the size of the caller's buffer.
\<close>

fun node_list :: "nat \<Rightarrow> nat \<Rightarrow> nat \<Rightarrow> nat \<Rightarrow> string \<Rightarrow> string res" where
  "node_list cap start i 0 nodelist = Inr nodelist"
| "node_list cap start i (Suc left) nodelist =
     and_then (sprintf_to 32 (REDIS_HOST_BASE @ show_02d (start + i) @ '':'' @
                              nat_to_string (REDIS_PORT_BASE + i))) (\<lambda>tmp.
     and_then (strcat_to cap nodelist tmp) (\<lambda>nodelist.
     and_then (if left \<noteq> 0 then strcat_to cap nodelist '','' else Inr nodelist) (\<lambda>nodelist.
     node_list cap start (Suc i) left nodelist)))"

definition REDIS_HOST_START :: nat where "REDIS_HOST_START = 1"
definition REDIS_HOST_COUNT :: nat where "REDIS_HOST_COUNT = 4"

definition genNodeList :: "string \<Rightarrow> string res" where
  "genNodeList nodelist = node_list 2048 REDIS_HOST_START 0 REDIS_HOST_COUNT nodelist"

text \<open>The lines of a host file; the last character of each is overwritten.\<close>

function hostfile_nodes :: "nat \<Rightarrow> string \<Rightarrow> string \<Rightarrow> string res" where
  "hostfile_nodes i rest nodelist =
     (case fgets 128 rest of
        None \<Rightarrow> Inr nodelist
      | Some (line, rest') \<Rightarrow>
          if cstr line = [] then Inl Undefined
          else and_then (sprintf_to 128 (butlast (cstr line) @ '':'' @
                                         nat_to_string (REDIS_PORT_BASE + i) @ '','')) (\<lambda>tmp.
               and_then (strcat_to 2048 nodelist tmp) (\<lambda>nodelist.
               hostfile_nodes (Suc i) rest' nodelist)))"
  by pat_completeness auto
termination
  by (relation "measure (\<lambda>(i, rest, nodelist). length rest)") (auto dest: fgets_shorter)

declare hostfile_nodes.simps [simp del]

definition genNodeListFromHostfile :: "string option \<Rightarrow> (('h, 'm) cworld, string) cprog" where
  "genNodeListFromHostfile hostfile w =
     (case hostfile of
        None \<Rightarrow> cbind (cprint ''Invalid Redis hostfile'') (\<lambda>_. cfail (Exit (-1))) w
      | Some name \<Rightarrow>
          (case cw_files w name of
             None \<Rightarrow> cbind (cprint (''Fail to open hostfile '' @ name)) (\<lambda>_. cfail (Exit (-1))) w
           | Some (content, attrs) \<Rightarrow>
               clift (and_then (hostfile_nodes 0 content []) (\<lambda>nodelist.
                 if nodelist = [] then Inl Undefined else Inr (butlast nodelist))) w))"

text \<open>\<^verbatim>\<open>redisClusterConnect2\<close> and the test of the context's error.\<close>

definition connect_nodes :: "'h hircluster \<Rightarrow> string \<Rightarrow> (('h, 'm) cworld, int) cprog" where
  "connect_nodes H nodelist =
     (case hc_connect H nodelist of
        Some errstr \<Rightarrow> cbind (cprint (''Error: '' @ errstr)) (\<lambda>_. creturn (-1))
      | None \<Rightarrow> creturn 0)"

definition connectToRedisServer :: "'h hircluster \<Rightarrow> (('h, 'm) cworld, int) cprog" where
  "connectToRedisServer H = cbind (clift (genNodeList [])) (connect_nodes H)"

definition connectToRedisServerWithHostfile ::
  "'h hircluster \<Rightarrow> string option \<Rightarrow> (('h, 'm) cworld, int) cprog" where
  "connectToRedisServerWithHostfile H hostfile =
     cbind (genNodeListFromHostfile hostfile) (connect_nodes H)"

section \<open>io_redis.c: values\<close>

text \<open>A \<^verbatim>\<open>SET\<close> whose reply must read \<^verbatim>\<open>OK\<close>; otherwise \<open>msg\<close> is printed.\<close>

definition redis_set_checked ::
  "'h hircluster \<Rightarrow> string \<Rightarrow> string \<Rightarrow> bytes \<Rightarrow> (('h, 'm) cworld, unit) cprog" where
  "redis_set_checked H msg key_str value w =
     (case hc_set H key_str value (cw_redis w) of
        (reply, h') \<Rightarrow>
          let w' = w\<lparr>cw_redis := h'\<rparr>
          in case reply of
               Reply s \<Rightarrow> if cstr s \<noteq> ''OK'' then cprint msg w' else (Inr (), w')
             | _ \<Rightarrow> (Inl Undefined, w'))"

definition write_redis ::
  "'h hircluster \<Rightarrow> string \<Rightarrow> string \<Rightarrow> (('h, 'm) cworld, unit) cprog" where
  "write_redis H key_str value =
     redis_set_checked H ''Something is wrong in write'' key_str value"

definition write_redis_sized ::
  "'h hircluster \<Rightarrow> string \<Rightarrow> bytes \<Rightarrow> int \<Rightarrow> (('h, 'm) cworld, unit) cprog" where
  "write_redis_sized H key_str value len =
     (if len < 0 then cfail Undefined
      else case mem_read 0 (nat len) value of
             None \<Rightarrow> cfail Undefined
           | Some v \<Rightarrow> redis_set_checked H ''Something is wrong in write'' key_str v)"

text \<open>\<^verbatim>\<open>read_redis\<close> assigns to its parameter, which the caller does not see.\<close>

definition read_redis :: "'h hircluster \<Rightarrow> string \<Rightarrow> (('h, 'm) cworld, unit) cprog" where
  "read_redis H key_str w =
     (case hc_get H key_str (cw_redis w) of
        NullReply \<Rightarrow> cbind (cprint ''Something is wrong in read'') (\<lambda>_. cfail Undefined) w
      | NilReply \<Rightarrow> cfail Undefined w
      | Reply s \<Rightarrow> cprint (''res: '' @ cstr s) w)"

definition read_redis_sized ::
  "'h hircluster \<Rightarrow> string \<Rightarrow> bytes \<Rightarrow> int \<Rightarrow> (('h, 'm) cworld, bytes) cprog" where
  "read_redis_sized H key_str value len w =
     (case hc_get H key_str (cw_redis w) of
        NullReply \<Rightarrow> cbind (cprint ''Something is wrong in read'') (\<lambda>_. cfail Undefined) w
      | NilReply \<Rightarrow> cfail Undefined w
      | Reply s \<Rightarrow> clift (strcpy_at 0 (cstr s) value) w)"

definition create_symbios_metadata_redis ::
  "'h hircluster \<Rightarrow> symbios_metadata \<Rightarrow> (('h, 'm) cworld, unit) cprog" where
  "create_symbios_metadata_redis H metadata =
     cbind (clift (serialize_metadata metadata)) (\<lambda>metadata_str.
       case data_id metadata of
         Live key \<Rightarrow>
           write_redis_sized H key (metadata_str @ [CHR 0x00]) (int (length metadata_str))
       | _ \<Rightarrow> cfail Undefined)"

text \<open>The tokens of the answer point into the local buffer of the query.\<close>

definition dangle :: "cptr \<Rightarrow> cptr" where
  "dangle p = (case p of Live s \<Rightarrow> Dangling | _ \<Rightarrow> p)"

definition query_symbios_metadata_by_id_redis ::
  "(nat \<Rightarrow> char) \<Rightarrow> 'h hircluster \<Rightarrow> string \<Rightarrow> (('h, 'm) cworld, symbios_metadata) cprog" where
  "query_symbios_metadata_by_id_redis junk H key =
     cbind (read_redis_sized H key (malloc junk 1024) 1024) (\<lambda>metadata_str.
     cbind (clift (and_then (string_in metadata_str) deserialize_metadata)) (\<lambda>metadata.
     creturn (metadata\<lparr>data_id := dangle (data_id metadata), server := dangle (server metadata)\<rparr>)))"

section \<open>The text form\<close>

definition ptr_text :: "cptr \<Rightarrow> string" where
  "ptr_text p = (case p of Live s \<Rightarrow> s | _ \<Rightarrow> [])"

definition metadata_text :: "symbios_metadata \<Rightarrow> string" where
  "metadata_text m =
     ptr_text (data_id m) @ SERDE_MD_SEP # (if primary m then ''1'' else ''0'') @
     SERDE_MD_SEP # show_d (target_stor m) @ SERDE_MD_SEP # ptr_text (server m) @
     SERDE_MD_SEP # show_d (port m) @ SERDE_MD_SEP # show_d64 (offset m) @ [SERDE_MD_SEP]"

text \<open>A name that can be a field: not empty, without the separator and without NUL.\<close>

definition field_name :: "string \<Rightarrow> bool" where
  "field_name s \<longleftrightarrow> s \<noteq> [] \<and> SERDE_MD_SEP \<notin> set s \<and> CHR 0x00 \<notin> set s"

definition in_int32 :: "int \<Rightarrow> bool" where
  "in_int32 i \<longleftrightarrow> - (2 ^ 31) \<le> i \<and> i < 2 ^ 31"

lemma strcat_to_Inr: "strcat_to cap s t = (if length s + length t < cap then Inr (s @ t) else Inl Undefined)"
  by (simp add: strcat_to_def sprintf_to_def)

lemma serialize_metadata_text:
  assumes "data_id m = Live d" "server m \<noteq> Dangling" "length (metadata_text m) < 1024"
  shows "serialize_metadata m = Inr (metadata_text m)"
  using assms
  by (cases "server m")
     (simp_all add: serialize_metadata_def metadata_text_def ptr_text_def strcat_ptr_def strcat_to_Inr)

lemma sep_not_in_number: "SERDE_MD_SEP \<notin> set (int_to_string i)" "CHR 0x00 \<notin> set (int_to_string i)"
  by (rule no_char_in_int_to_string; simp add: SERDE_MD_SEP_def is_digit_def)+

lemma next_tok_field:
  "a \<noteq> [] \<Longrightarrow> SERDE_MD_SEP \<notin> set a \<Longrightarrow>
   next_tok SERDE_MD_SEP (a @ SERDE_MD_SEP # rest) = (Some a, rest)"
  by (simp add: next_tok_def strtok_token)

lemma next_tok_number:
  "next_tok SERDE_MD_SEP (show_d i @ SERDE_MD_SEP # rest) = (Some (show_d i), rest)"
  "next_tok SERDE_MD_SEP (show_d64 x @ SERDE_MD_SEP # rest) = (Some (show_d64 x), rest)"
  by (simp_all add: next_tok_field sep_not_in_number show_d_def show_d64_def)

lemma next_tok_flag:
  "next_tok SERDE_MD_SEP (CHR ''1'' # SERDE_MD_SEP # rest) = (Some ''1'', rest)"
  "next_tok SERDE_MD_SEP (CHR ''0'' # SERDE_MD_SEP # rest) = (Some ''0'', rest)"
  using next_tok_field [of "''1''" rest] next_tok_field [of "''0''" rest]
  by (simp_all add: SERDE_MD_SEP_def)

lemma next_tok_skip: "next_tok d (d # rest) = next_tok d rest"
  by (simp add: next_tok_def strtok_skip)

lemma atoi_flag: "atoi ''1'' = 1" "atoi ''0'' = 0"
  by code_simp+

lemma atoi_show_d: "in_int32 i \<Longrightarrow> atoi (show_d i) = i"
  by (simp add: show_d_def in_int32_def atoi_int_to_string)

lemma atoi_show_d64: "atoi (show_d64 x) = sint (ucast x :: int32)"
  unfolding show_d64_def by (rule atoi_int_to_string) (rule sint_int32_range)+

lemma deserialize_primary:
  assumes "data_id m = Live d" "field_name d" "primary m"
  shows "deserialize_metadata (metadata_text m) =
    Inr \<lparr>primary = True, data_id = Live d, target_stor = -1, server = Null, port = -1, offset = -1\<rparr>"
  using assms
  by (simp add: deserialize_metadata_def metadata_text_def ptr_text_def field_name_def
      next_tok_field next_tok_flag atoi_flag tok_num_def tok_ptr_def)

lemma deserialize_shadow:
  assumes "data_id m = Live d" "field_name d" "\<not> primary m" "server m = Live v" "field_name v"
    and "in_int32 (target_stor m)" "in_int32 (port m)"
  shows "deserialize_metadata (metadata_text m) =
    Inr (m\<lparr>offset := (if target_stor m = PFS1 \<or> target_stor m = PFS2
                       then word_of_int (sint (ucast (offset m) :: int32)) else -1)\<rparr>)"
  using assms
  by (cases m) (simp add: deserialize_metadata_def metadata_text_def ptr_text_def field_name_def
      next_tok_field next_tok_flag next_tok_number atoi_flag atoi_show_d atoi_show_d64
      tok_num_def tok_ptr_def)

text \<open>Without a server the tokens move up by one, and the last one is missing.\<close>

lemma deserialize_no_server:
  assumes "data_id m = Live d" "field_name d" "\<not> primary m" "server m = Null"
    and "in_int32 (target_stor m)"
  shows "deserialize_metadata (metadata_text m) =
    (if target_stor m = PFS1 \<or> target_stor m = PFS2 then Inl Undefined
     else Inr \<lparr>primary = False, data_id = Live d, target_stor = target_stor m,
               server = Live (show_d (port m)), port = sint (ucast (offset m) :: int32),
               offset = -1\<rparr>)"
  using assms
  by (simp add: deserialize_metadata_def metadata_text_def ptr_text_def field_name_def
      next_tok_field next_tok_flag next_tok_number next_tok_skip atoi_flag atoi_show_d atoi_show_d64
      tok_num_def tok_ptr_def) (simp add: next_tok_def)

lemma low_half_identity:
  assumes "unat x < 2 ^ 31"
  shows "word_of_int (sint (ucast x :: int32)) = (x :: size_t)"
  using sint_narrow_size [OF assms] by simp

section \<open>Storing and querying\<close>

lemma hircluster_set:
  assumes "hircluster_ok H up" "up h" "length v \<le> 512 * 1024 * 1024"
  obtains h' where "hc_set H k v h = (Reply ''OK'', h')" "up h'"
    "\<And>k'. hc_get H k' h' = (if k' = k then Reply v else hc_get H k' h)"
  using assms unfolding hircluster_ok_def by blast

lemma redis_set_checked_ok:
  assumes "hircluster_ok H up" "up (cw_redis w)" "length v \<le> 512 * 1024 * 1024"
  obtains h' where "redis_set_checked H msg k v w = (Inr (), w\<lparr>cw_redis := h'\<rparr>)" "up h'"
    "\<And>k'. hc_get H k' h' = (if k' = k then Reply v else hc_get H k' (cw_redis w))"
proof -
  obtain h' where h': "hc_set H k v (cw_redis w) = (Reply ''OK'', h')" "up h'"
    "\<And>k'. hc_get H k' h' = (if k' = k then Reply v else hc_get H k' (cw_redis w))"
    by (rule hircluster_set [OF assms(1,2,3)]) blast
  have "redis_set_checked H msg k v w = (Inr (), w\<lparr>cw_redis := h'\<rparr>)"
    using h'(1) by (simp add: redis_set_checked_def cstr_id)
  with h' that show thesis by blast
qed

text \<open>What a record must be for its text to fit and to come back.\<close>

definition storable :: "symbios_metadata \<Rightarrow> bool" where
  "storable m \<longleftrightarrow>
     (case data_id m of Live d \<Rightarrow> field_name d | _ \<Rightarrow> False) \<and>
     (if primary m then server m = Null
      else (case server m of Live v \<Rightarrow> field_name v | _ \<Rightarrow> False)) \<and>
     in_int32 (target_stor m) \<and> in_int32 (port m) \<and>
     length (metadata_text m) < 1024"

lemma storableE:
  assumes "storable m"
  obtains d where "data_id m = Live d" "field_name d" "server m \<noteq> Dangling"
    "length (metadata_text m) < 1024" "in_int32 (target_stor m)" "in_int32 (port m)"
  using assms by (auto simp: storable_def split: cptr.splits if_splits)

lemma metadata_text_no_NUL: "storable m \<Longrightarrow> CHR 0x00 \<notin> set (metadata_text m)"
  by (auto simp: storable_def metadata_text_def ptr_text_def field_name_def show_d_def show_d64_def
      sep_not_in_number SERDE_MD_SEP_def split: cptr.splits if_splits)

text \<open>The record a query finds for a stored record.\<close>

definition queried :: "symbios_metadata \<Rightarrow> symbios_metadata" where
  "queried m =
     (if primary m
      then \<lparr>primary = True, data_id = Dangling, target_stor = -1, server = Null, port = -1, offset = -1\<rparr>
      else m\<lparr>data_id := Dangling, server := Dangling,
             offset := (if target_stor m = PFS1 \<or> target_stor m = PFS2
                        then word_of_int (sint (ucast (offset m) :: int32)) else -1)\<rparr>)"

lemma deserialize_storable:
  assumes "storable m"
  obtains m' where "deserialize_metadata (metadata_text m) = Inr m'"
    "m'\<lparr>data_id := dangle (data_id m'), server := dangle (server m')\<rparr> = queried m"
proof (cases "primary m")
  case True
  then show ?thesis
    using assms that by (auto simp: storable_def queried_def dangle_def deserialize_primary split: cptr.splits)
next
  case False
  then show ?thesis
    using assms that
    by (auto simp: storable_def queried_def dangle_def deserialize_shadow split: cptr.splits if_splits)
qed

lemma create_redis_ok:
  assumes "hircluster_ok H up" "up (cw_redis w)" "storable m" "data_id m = Live d"
  obtains h' where "create_symbios_metadata_redis H m w = (Inr (), w\<lparr>cw_redis := h'\<rparr>)" "up h'"
    "\<And>k. hc_get H k h' = (if k = d then Reply (metadata_text m) else hc_get H k (cw_redis w))"
proof -
  have len: "length (metadata_text m) < 1024" and dang: "server m \<noteq> Dangling"
    using assms(3) by (auto elim: storableE)
  have "length (metadata_text m) \<le> 512 * 1024 * 1024" using len by simp
  from redis_set_checked_ok [OF assms(1,2) this, where k = d] obtain h' where
    h': "redis_set_checked H ''Something is wrong in write'' d (metadata_text m) w = (Inr (), w\<lparr>cw_redis := h'\<rparr>)"
    "up h'" "\<And>k. hc_get H k h' = (if k = d then Reply (metadata_text m) else hc_get H k (cw_redis w))"
    by metis
  have "create_symbios_metadata_redis H m w = (Inr (), w\<lparr>cw_redis := h'\<rparr>)"
    using h'(1) assms(4) len dang
    by (simp add: create_symbios_metadata_redis_def serialize_metadata_text write_redis_sized_def
        mem_read_def)
  with h' that show thesis by blast
qed

lemma query_redis_ok:
  assumes "hc_get H k (cw_redis w) = Reply (metadata_text m)" "storable m"
  shows "query_symbios_metadata_by_id_redis junk H k w = (Inr (queried m), w)"
proof -
  have nul: "CHR 0x00 \<notin> set (metadata_text m)" and len: "length (metadata_text m) < 1024"
    using assms(2) by (auto simp: metadata_text_no_NUL elim: storableE)
  have buf: "and_then (strcpy_at 0 (metadata_text m) (malloc junk 1024)) string_in = Inr (metadata_text m)"
    using nul len by (intro strcpy_string_in) simp_all
  obtain m' where m': "deserialize_metadata (metadata_text m) = Inr m'"
    "m'\<lparr>data_id := dangle (data_id m'), server := dangle (server m')\<rparr> = queried m"
    using assms(2) by (rule deserialize_storable)
  obtain b where "strcpy_at 0 (metadata_text m) (malloc junk 1024) = Inr b" "string_in b = Inr (metadata_text m)"
    using buf by (auto simp: and_then_Inr)
  then show ?thesis
    using assms(1) nul m'
    by (simp add: query_symbios_metadata_by_id_redis_def read_redis_sized_def cbind_def clift_def
        creturn_def cstr_id)
qed

section \<open>Host files\<close>

definition host_entry :: "nat \<Rightarrow> string \<Rightarrow> string" where
  "host_entry i h = h @ '':'' @ nat_to_string (REDIS_PORT_BASE + i) @ '',''"

fun host_entries :: "nat \<Rightarrow> string list \<Rightarrow> string" where
  "host_entries i [] = []"
| "host_entries i (h # hs) = host_entry i h @ host_entries (Suc i) hs"

definition host_line :: "string \<Rightarrow> string" where
  "host_line h = h @ [CHR ''\<newline>'']"

definition host_name :: "string \<Rightarrow> bool" where
  "host_name h \<longleftrightarrow> CHR ''\<newline>'' \<notin> set h \<and> CHR 0x00 \<notin> set h \<and> length h \<le> 120"

lemma length_host_entry: "i < 2048 \<Longrightarrow> length (host_entry i h) \<le> length h + 6"
  using length_nat_to_string_bound [of "7000 + i" 3] by (simp add: host_entry_def REDIS_PORT_BASE_def)

lemma hostfile_nodes_lines:
  "\<forall>h\<in>set hosts. host_name h \<Longrightarrow> i + length hosts \<le> 2048 \<Longrightarrow>
   length nodelist + length (host_entries i hosts) < 2048 \<Longrightarrow>
   hostfile_nodes i (concat (map host_line hosts)) nodelist = Inr (nodelist @ host_entries i hosts)"
proof (induction hosts arbitrary: i nodelist)
  case Nil
  then show ?case by (simp add: hostfile_nodes.simps fgets_def)
next
  case (Cons h hosts)
  let ?rest = "concat (map host_line hosts)"
  have h: "CHR ''\<newline>'' \<notin> set h" "CHR 0x00 \<notin> set h" "length h \<le> 120"
    using Cons.prems(1) by (simp_all add: host_name_def)
  have line: "fgets 128 (concat (map host_line (h # hosts))) = Some (h @ [CHR ''\<newline>''], ?rest)"
    using fgets_line [OF h(1), of 128 ?rest] h(3) by (simp add: host_line_def [of h])
  have c: "cstr (h @ [CHR ''\<newline>'']) = h @ [CHR ''\<newline>'']" using h(2) by (intro cstr_id) auto
  have tmp: "sprintf_to 128 (host_entry i h) = Inr (host_entry i h)"
    using length_host_entry [of i h] Cons.prems(2) h(3) by (intro sprintf_to_fits) simp
  have cat: "strcat_to 2048 nodelist (host_entry i h) = Inr (nodelist @ host_entry i h)"
    using Cons.prems(3) by (intro strcat_to_fits) simp
  have "hostfile_nodes i (concat (map host_line (h # hosts))) nodelist =
        hostfile_nodes (Suc i) ?rest (nodelist @ host_entry i h)"
    using tmp cat line by (subst hostfile_nodes.simps) (simp add: c host_entry_def)
  also have "\<dots> = Inr (nodelist @ host_entry i h @ host_entries (Suc i) hosts)"
    using Cons.IH [of "Suc i" "nodelist @ host_entry i h"] Cons.prems by simp
  finally show ?case by simp
qed

section \<open>A cluster for the examples\<close>

definition ref_hircluster :: "(string \<Rightarrow> bytes option) hircluster" where
  "ref_hircluster =
     \<lparr>hc_connect = \<lambda>nodes. None,
      hc_set = \<lambda>k v h. (Reply ''OK'', h(k := Some v)),
      hc_get = \<lambda>k h. (case h k of None \<Rightarrow> NilReply | Some v \<Rightarrow> Reply v)\<rparr>"

lemma ref_hircluster_ok: "hircluster_ok ref_hircluster (\<lambda>h. True)"
  by (auto simp: hircluster_ok_def ref_hircluster_def)

definition ref_cworld :: "'h \<Rightarrow> 'm \<Rightarrow> ('h, 'm) cworld" where
  "ref_cworld h m =
     \<lparr>cw_redis = h, cw_mongo = m, cw_files = (\<lambda>_. None), cw_out = [], cw_seed = 1, cw_calls = 0\<rparr>"

definition ref_metadata :: symbios_metadata where
  "ref_metadata =
     \<lparr>primary = False, data_id = Live ''test_0_17_0'', target_stor = PFS1,
      server = Live ''ares-stor-15'', port = 3334, offset = 16384\<rparr>"

lemma ref_metadata_storable: "storable ref_metadata"
  by (simp add: storable_def ref_metadata_def field_name_def SERDE_MD_SEP_def in_int32_def PFS1_def
      metadata_text_def ptr_text_def show_d_def show_d64_def decimal_eval)

section \<open>Properties\<close>

text \<open>
  C35. A shadow record whose names are free of the separator, that points into a parallel file
  system and whose offset is below 2 GiB survives \<^verbatim>\<open>serialize_metadata\<close> followed by
  \<^verbatim>\<open>deserialize_metadata\<close> unchanged.
\<close>

theorem link_text_round_trip:
  assumes "storable m" "\<not> primary m" "target_stor m = PFS1 \<or> target_stor m = PFS2"
    and "unat (offset m) < 2 ^ 31"
  shows "and_then (serialize_metadata m) deserialize_metadata = Inr m"
proof -
  obtain d where d: "data_id m = Live d" "field_name d" "server m \<noteq> Dangling"
    "length (metadata_text m) < 1024" "in_int32 (target_stor m)" "in_int32 (port m)"
    using assms(1) by (rule storableE)
  obtain v where v: "server m = Live v" "field_name v"
    using assms(1,2) by (auto simp: storable_def split: cptr.splits)
  have "deserialize_metadata (metadata_text m) = Inr m"
    using deserialize_shadow [OF d(1,2) assms(2) v d(5,6)] assms(3) low_half_identity [OF assms(4)]
    by auto
  then show ?thesis using d by (simp add: serialize_metadata_text)
qed

theorem link_text_round_trip_witness:
  "and_then (serialize_metadata ref_metadata) deserialize_metadata = Inr ref_metadata"
  using link_text_round_trip [OF ref_metadata_storable] by (simp add: ref_metadata_def)

text \<open>
  A shadow record without a server is written with an empty field that \<^verbatim>\<open>strtok\<close> skips: the
  fields after it move up. For a link into a parallel file system the offset is then missing
  and \<^verbatim>\<open>atoi\<close> is called on a null pointer; for the other targets the port is taken for the
  server's name and the offset for the port.
\<close>

theorem link_without_server_misread:
  assumes "data_id m = Live d" "field_name d" "\<not> primary m" "server m = Null"
    and "in_int32 (target_stor m)" "length (metadata_text m) < 1024"
  shows "and_then (serialize_metadata m) deserialize_metadata =
    (if target_stor m = PFS1 \<or> target_stor m = PFS2 then Inl Undefined
     else Inr \<lparr>primary = False, data_id = Live d, target_stor = target_stor m,
               server = Live (show_d (port m)), port = sint (ucast (offset m) :: int32),
               offset = -1\<rparr>)"
  using assms by (simp add: serialize_metadata_text deserialize_no_server)

theorem link_without_server_misread_witness:
  "and_then (serialize_metadata (ref_metadata\<lparr>server := Null\<rparr>)) deserialize_metadata = Inl Undefined"
proof -
  have "length (metadata_text (ref_metadata\<lparr>server := Null\<rparr>)) < 1024"
    by (simp add: ref_metadata_def PFS1_def metadata_text_def ptr_text_def show_d_def show_d64_def
        decimal_eval)
  moreover have "field_name ''test_0_17_0''" by (simp add: field_name_def SERDE_MD_SEP_def)
  ultimately show ?thesis
    using link_without_server_misread [of "ref_metadata\<lparr>server := Null\<rparr>" "''test_0_17_0''"]
    by (simp add: ref_metadata_def PFS1_def in_int32_def)
qed

text \<open>
  For a host file of terminated lines the node list names every host once, in order, the
  \<open>i\<close>-th with port \<open>7000 + i\<close>, separated by commas and without a trailing one.
\<close>

theorem hostfile_node_list:
  assumes "cw_files w name = Some (concat (map host_line hosts), attrs)" "hosts \<noteq> []"
    and "\<forall>h\<in>set hosts. host_name h" "length (host_entries 0 hosts) < 2048"
    and "length hosts \<le> 2048"
  shows "genNodeListFromHostfile (Some name) w = (Inr (butlast (host_entries 0 hosts)), w)"
proof -
  have "host_entries 0 hosts \<noteq> []" using assms(2) by (cases hosts) (simp_all add: host_entry_def)
  moreover have "hostfile_nodes 0 (concat (map host_line hosts)) [] = Inr (host_entries 0 hosts)"
    using hostfile_nodes_lines [OF assms(3), of 0 "[]"] assms(4,5) by simp
  ultimately show ?thesis
    using assms(1) by (simp add: genNodeListFromHostfile_def clift_def)
qed

theorem hostfile_node_list_witness:
  "genNodeListFromHostfile (Some ''hosts'')
     ((ref_cworld () ())\<lparr>cw_files := (\<lambda>_. Some (''a'' @ [CHR ''\<newline>''] @ ''b'' @ [CHR ''\<newline>''], \<lambda>_. None))\<rparr>) =
   (Inr ''a:7000,b:7001'',
    (ref_cworld () ())\<lparr>cw_files := (\<lambda>_. Some (''a'' @ [CHR ''\<newline>''] @ ''b'' @ [CHR ''\<newline>''], \<lambda>_. None))\<rparr>)"
proof -
  have e: "host_entries 0 [''a'', ''b''] = ''a:7000,b:7001,''"
    by (simp add: host_entry_def REDIS_PORT_BASE_def decimal_eval)
  show ?thesis
    using hostfile_node_list [of "(ref_cworld () ())\<lparr>cw_files := (\<lambda>_. Some (''a'' @ [CHR ''\<newline>''] @ ''b'' @ [CHR ''\<newline>''], \<lambda>_. None))\<rparr>"
        "''hosts''" "[''a'', ''b'']" "\<lambda>_. None"]
    unfolding e by (simp add: host_line_def host_name_def)
qed

end
