(* ===== verification/Shadow_Link_Mongo.thy ===== *)
theory Shadow_Link_Mongo
  imports Shadow_Link
begin

text \<open>
  \<^verbatim>\<open>src/old/internal_component/shadow_link/io_mongo.c\<close>: the connection, and values stored as
  MongoDB documents, split into sub-documents of 8 MiB when they are longer.

  In \<^verbatim>\<open>connectToMongoDBServerWithURI\<close> the variable \<^verbatim>\<open>insert\<close> is destroyed without having been
  set, and the successful path returns no value: \<open>harmless\<close> tells whether the stray pointer
  does no harm and \<open>junk_ret\<close> is what the caller then finds.
\<close>

section \<open>The connection\<close>

definition MONGODB_HOST :: string where "MONGODB_HOST = ''ares-comp-25-40g''"
definition MONGODB_PORT :: nat where "MONGODB_PORT = 27017"

definition mongo_uri :: "string \<Rightarrow> string res" where
  "mongo_uri host = sprintf_to 1024 (''mongodb://'' @ host @ '':'' @ nat_to_string MONGODB_PORT)"

definition connectToMongoDBServerWithURI ::
  "'m mongoc \<Rightarrow> bool \<Rightarrow> int \<Rightarrow> string \<Rightarrow> (('h, 'm) cworld, int) cprog" where
  "connectToMongoDBServerWithURI M harmless junk_ret uri_string =
     (case mc_connect M uri_string of
        (uri, client, ping) \<Rightarrow>
          if \<not> uri then cbind (cprint (''failed to parse URI: '' @ uri_string)) (\<lambda>_. creturn 1)
          else if \<not> client then creturn 1
          else if \<not> ping then cbind (cprint ''ping failed'') (\<lambda>_. creturn 1)
          else if \<not> harmless then cfail Undefined
          else creturn junk_ret)"

definition connectToMongoDBServer ::
  "'m mongoc \<Rightarrow> bool \<Rightarrow> int \<Rightarrow> (('h, 'm) cworld, int) cprog" where
  "connectToMongoDBServer M harmless junk_ret =
     cbind (clift (mongo_uri MONGODB_HOST)) (connectToMongoDBServerWithURI M harmless junk_ret)"

definition connectToMongoDBServerMPI ::
  "'m mongoc \<Rightarrow> bool \<Rightarrow> int \<Rightarrow> string \<Rightarrow> (('h, 'm) cworld, int) cprog" where
  "connectToMongoDBServerMPI M harmless junk_ret hostname =
     cbind (clift (mongo_uri hostname)) (connectToMongoDBServerWithURI M harmless junk_ret)"

definition cleanMongoDB :: "'m mongoc \<Rightarrow> (('h, 'm) cworld, unit) cprog" where
  "cleanMongoDB M w =
     (case mc_drop M (cw_mongo w) of
        (Some msg, m') \<Rightarrow> cprint msg (w\<lparr>cw_mongo := m'\<rparr>)
      | (None, m') \<Rightarrow> (Inr (), w\<lparr>cw_mongo := m'\<rparr>))"

section \<open>Values\<close>

definition MAX_DOC_SIZE :: int where "MAX_DOC_SIZE = 8 * 1024 * 1024"

definition mongo_insert_doc :: "'m mongoc \<Rightarrow> document \<Rightarrow> (('h, 'm) cworld, unit) cprog" where
  "mongo_insert_doc M doc w =
     (case mc_insert M doc (cw_mongo w) of
        (Some msg, m') \<Rightarrow> cprint msg (w\<lparr>cw_mongo := m'\<rparr>)
      | (None, m') \<Rightarrow> (Inr (), w\<lparr>cw_mongo := m'\<rparr>))"

definition write_mongo ::
  "rand_fun \<Rightarrow> 'm mongoc \<Rightarrow> int \<Rightarrow> string \<Rightarrow> (('h, 'm) cworld, unit) cprog" where
  "write_mongo rnd M process_id key_str =
     cbind (crand rnd) (\<lambda>r.
     cbind (clift (sprintf_to 30 (key_str @ show_d process_id @ show_d r))) (\<lambda>id.
     mongo_insert_doc M [(''_id'', id), (key_str, ''mongodb'')]))"

text \<open>One document with \<open>len\<close> bytes at \<open>buf + off\<close> as the field named like its \<^verbatim>\<open>_id\<close>.\<close>

definition insert_value ::
  "'m mongoc \<Rightarrow> string \<Rightarrow> bytes \<Rightarrow> int \<Rightarrow> int \<Rightarrow> (('h, 'm) cworld, unit) cprog" where
  "insert_value M key buf off len =
     (if len < 0 \<or> off < 0 then cfail Undefined
      else case mem_read (nat off) (nat len) buf of
             None \<Rightarrow> cfail Undefined
           | Some v \<Rightarrow> mongo_insert_doc M [(''_id'', key), (key, v)])"

definition sub_key :: "string \<Rightarrow> nat \<Rightarrow> string res" where
  "sub_key key_str count = sprintf_to 1024 (key_str @ ''_'' @ nat_to_string count)"

text \<open>The loop over the sub-documents; \<open>None\<close> would be a loop that never ends.\<close>

partial_function (option) write_chunks ::
  "'m mongoc \<Rightarrow> string \<Rightarrow> bytes \<Rightarrow> int \<Rightarrow> nat \<Rightarrow> int \<Rightarrow> int \<Rightarrow> ('h, 'm) cworld \<Rightarrow>
   (unit res \<times> ('h, 'm) cworld) option" where
  "write_chunks M key_str buf len count finished_length sub_length w =
     (if finished_length < len
      then (case cbind (clift (sub_key key_str count)) (\<lambda>sub_key_str.
                   insert_value M sub_key_str buf finished_length sub_length) w of
              (Inl e, w') \<Rightarrow> Some (Inl e, w')
            | (Inr _, w') \<Rightarrow>
                (case and_then (int_ok (finished_length + sub_length)) (\<lambda>finished_length.
                      and_then (int_ok (finished_length + MAX_DOC_SIZE)) (\<lambda>reach.
                      Inr (finished_length,
                           if reach > len then len mod MAX_DOC_SIZE else sub_length))) of
                   Inl e \<Rightarrow> Some (Inl e, w')
                 | Inr next_piece \<Rightarrow>
                     write_chunks M key_str buf len (Suc count) (fst next_piece) (snd next_piece) w'))
      else Some (Inr (), w))"

definition write_mongo_sized ::
  "'m mongoc \<Rightarrow> string \<Rightarrow> bytes \<Rightarrow> int \<Rightarrow> ('h, 'm) cworld \<Rightarrow> (unit res \<times> ('h, 'm) cworld) option" where
  "write_mongo_sized M key_str buf len w =
     (if len > MAX_DOC_SIZE then write_chunks M key_str buf len 0 0 MAX_DOC_SIZE w
      else Some (insert_value M key_str buf 0 len w))"

text \<open>
  Reading: for every document found, the field named like the key is copied as a C string to
  \<open>buf + off\<close>.
\<close>

fun copy_fields :: "string \<Rightarrow> document list \<Rightarrow> nat \<Rightarrow> bytes \<Rightarrow> bytes res" where
  "copy_fields key [] off buf = Inr buf"
| "copy_fields key (doc # docs) off buf =
     (case map_of doc key of
        None \<Rightarrow> copy_fields key docs off buf
      | Some v \<Rightarrow> and_then (strcpy_at off (cstr v) buf) (copy_fields key docs off))"

fun read_chunks ::
  "'m mongoc \<Rightarrow> string \<Rightarrow> nat \<Rightarrow> nat \<Rightarrow> nat \<Rightarrow> bytes \<Rightarrow> (('h, 'm) cworld, bytes) cprog" where
  "read_chunks M key_str i 0 off buf = creturn buf"
| "read_chunks M key_str i (Suc left) off buf =
     cbind (clift (sub_key key_str i)) (\<lambda>sub_key_str.
     cbind (\<lambda>w. clift (copy_fields sub_key_str (mc_find M sub_key_str (cw_mongo w)) off buf) w) (\<lambda>buf'.
     read_chunks M key_str (Suc i) left (off + nat MAX_DOC_SIZE) buf'))"

text \<open>\<^verbatim>\<open>ceil((double) length / MAX_DOC_SIZE)\<close> is exact for an \<^verbatim>\<open>int\<close> and a power of two.\<close>

definition read_mongo_sized ::
  "'m mongoc \<Rightarrow> string \<Rightarrow> bytes \<Rightarrow> int \<Rightarrow> (('h, 'm) cworld, bytes) cprog" where
  "read_mongo_sized M key_str buf len w =
     (if len > MAX_DOC_SIZE
      then read_chunks M key_str 0 (nat ((len + MAX_DOC_SIZE - 1) div MAX_DOC_SIZE)) 0 buf w
      else clift (copy_fields key_str (mc_find M key_str (cw_mongo w)) 0 buf) w)"

section \<open>Metadata\<close>

definition create_symbios_metadata_mongo ::
  "'m mongoc \<Rightarrow> symbios_metadata \<Rightarrow> ('h, 'm) cworld \<Rightarrow> (unit res \<times> ('h, 'm) cworld) option" where
  "create_symbios_metadata_mongo M metadata w =
     (case (serialize_metadata metadata, data_id metadata) of
        (Inr metadata_str, Live key) \<Rightarrow>
          write_mongo_sized M key (metadata_str @ [CHR 0x00]) (int (length metadata_str) + 1) w
      | _ \<Rightarrow> Some (Inl Undefined, w))"

definition query_symbios_metadata_by_id_mongo ::
  "(nat \<Rightarrow> char) \<Rightarrow> 'm mongoc \<Rightarrow> string \<Rightarrow> (('h, 'm) cworld, symbios_metadata) cprog" where
  "query_symbios_metadata_by_id_mongo junk M key =
     cbind (read_mongo_sized M key (malloc junk 1024) 1024) (\<lambda>metadata_str.
     cbind (clift (and_then (string_in metadata_str) deserialize_metadata)) (\<lambda>metadata.
     creturn (metadata\<lparr>data_id := dangle (data_id metadata), server := dangle (server metadata)\<rparr>)))"

section \<open>Writing in pieces\<close>

abbreviation piece_size :: nat where "piece_size \<equiv> 8388608"

lemma MAX_DOC_SIZE_eq: "MAX_DOC_SIZE = int piece_size"
  by (simp add: MAX_DOC_SIZE_def)

text \<open>Number, key and content of the pieces of the first \<open>L\<close> bytes of a buffer.\<close>

definition pieces :: "nat \<Rightarrow> nat" where
  "pieces L = (L + piece_size - 1) div piece_size"

definition piece_key :: "string \<Rightarrow> nat \<Rightarrow> string" where
  "piece_key key i = key @ ''_'' @ nat_to_string i"

definition piece :: "bytes \<Rightarrow> nat \<Rightarrow> nat \<Rightarrow> bytes" where
  "piece buf L i = slice (i * piece_size) (min piece_size (L - i * piece_size)) buf"

lemma pieces_less: "i < pieces L \<longleftrightarrow> i * piece_size < L"
proof
  assume "i < pieces L"
  then have "Suc i * piece_size \<le> pieces L * piece_size" by (simp add: Suc_leI)
  also have "\<dots> \<le> L + piece_size - 1" unfolding pieces_def by (rule div_times_less_eq_dividend)
  finally show "i * piece_size < L" by simp
next
  assume "i * piece_size < L"
  then have "Suc i * piece_size \<le> L + piece_size - 1" by simp
  then have "Suc i \<le> pieces L" unfolding pieces_def by (simp add: less_eq_div_iff_mult_less_eq)
  then show "i < pieces L" by simp
qed

lemma piece_key_inject [simp]: "piece_key key i = piece_key key j \<longleftrightarrow> i = j"
  by (simp add: piece_key_def)

lemma length_piece_key: "i < 1000 \<Longrightarrow> length (piece_key key i) \<le> length key + 4"
  using length_nat_to_string_bound [of i 2] by (simp add: piece_key_def)

lemma insert_value_ok:
  assumes "mongoc_ok M up" "up (cw_mongo w)" "mc_find M key (cw_mongo w) = []"
    and "off + n \<le> length buf" "2 * length key + n \<le> 16 * 1024 * 1024 - 1024"
  obtains m' where "insert_value M key buf (int off) (int n) w = (Inr (), w\<lparr>cw_mongo := m'\<rparr>)" "up m'"
    "\<And>j. mc_find M j m' = (if j = key then [[(''_id'', key), (key, slice off n buf)]]
                            else mc_find M j (cw_mongo w))"
proof -
  let ?v = "slice off n buf"
  have size: "length key + length key + length ?v \<le> 16 * 1024 * 1024 - 1024" using assms(4,5) by simp
  obtain m' where m': "mc_insert M [(''_id'', key), (key, ?v)] (cw_mongo w) = (None, m')" "up m'"
    "\<forall>j. mc_find M j m' = (if j = key then [[(''_id'', key), (key, ?v)]] else mc_find M j (cw_mongo w))"
    using assms(1-3) size unfolding mongoc_ok_def by blast
  have "insert_value M key buf (int off) (int n) w = (Inr (), w\<lparr>cw_mongo := m'\<rparr>)"
    using m'(1) assms(4) by (simp add: insert_value_def mongo_insert_doc_def mem_read_def)
  with m' that show thesis by blast
qed

text \<open>One turn of the loop writes piece \<open>i\<close> and moves to the next one.\<close>

lemma next_piece:
  assumes "i * piece_size < L" "L < 2 ^ 31 - piece_size"
    and sub: "sub = int (min piece_size (L - i * piece_size))"
  shows "\<exists>sub'. and_then (int_ok (int (min (i * piece_size) L) + sub)) (\<lambda>finished.
           and_then (int_ok (finished + MAX_DOC_SIZE)) (\<lambda>reach.
             Inr (finished, if reach > int L then int L mod MAX_DOC_SIZE else sub))) =
         Inr (int (min (Suc i * piece_size) L), sub') \<and>
         (Suc i * piece_size < L \<longrightarrow> sub' = int (min piece_size (L - Suc i * piece_size)))"
proof -
  have fin: "int (min (i * piece_size) L) + sub = int (min (Suc i * piece_size) L)"
    using assms(1) sub by (simp add: min_def) linarith
  let ?sub' = "if int (min (Suc i * piece_size) L) + MAX_DOC_SIZE > int L
               then int L mod MAX_DOC_SIZE else sub"
  have "?sub' = int (min piece_size (L - Suc i * piece_size))" if "Suc i * piece_size < L"
  proof (cases "L < Suc i * piece_size + piece_size")
    case True
    have "L mod piece_size = (L - Suc i * piece_size) mod piece_size"
      using that by (metis le_mod_geq mod_mult_self1 le_add_diff_inverse2 less_imp_le)
    also have "\<dots> = L - Suc i * piece_size" using True that by (intro mod_less) simp
    finally have "int L mod MAX_DOC_SIZE = int (L - Suc i * piece_size)"
      by (metis MAX_DOC_SIZE_eq of_nat_mod)
    then show ?thesis using True that by (simp add: MAX_DOC_SIZE_eq min_def)
  next
    case False
    then show ?thesis using that sub by (simp add: MAX_DOC_SIZE_eq min_def)
  qed
  moreover have "int_ok (int (min (Suc i * piece_size) L)) = Inr (int (min (Suc i * piece_size) L))"
    using assms(2) by (simp add: int_ok_def min_def)
  moreover have "int_ok (int (min (Suc i * piece_size) L) + MAX_DOC_SIZE) =
                 Inr (int (min (Suc i * piece_size) L) + MAX_DOC_SIZE)"
    using assms(2) by (simp add: int_ok_def min_def MAX_DOC_SIZE_eq)
  ultimately show ?thesis unfolding fin by (intro exI [of _ ?sub']) simp
qed

definition piece_doc :: "string \<Rightarrow> bytes \<Rightarrow> nat \<Rightarrow> nat \<Rightarrow> document" where
  "piece_doc key buf L i = [(''_id'', piece_key key i), (piece_key key i, piece buf L i)]"

lemma write_chunks_ok:
  assumes ok: "mongoc_ok M up" and L: "L < 2 ^ 31 - piece_size" "L \<le> length buf"
    and key: "length key < 1000"
  shows "i \<le> pieces L \<Longrightarrow> up (cw_mongo w) \<Longrightarrow>
         (i < pieces L \<longrightarrow> sub = int (min piece_size (L - i * piece_size))) \<Longrightarrow>
         (\<forall>j. i \<le> j \<and> j < pieces L \<longrightarrow> mc_find M (piece_key key j) (cw_mongo w) = []) \<Longrightarrow>
         \<exists>m'. write_chunks M key buf (int L) i (int (min (i * piece_size) L)) sub w =
                Some (Inr (), w\<lparr>cw_mongo := m'\<rparr>) \<and> up m' \<and>
              (\<forall>j. i \<le> j \<and> j < pieces L \<longrightarrow> mc_find M (piece_key key j) m' = [piece_doc key buf L j]) \<and>
              (\<forall>k. (\<forall>j<pieces L. k \<noteq> piece_key key j) \<longrightarrow> mc_find M k m' = mc_find M k (cw_mongo w)) \<and>
              (\<forall>j<i. mc_find M (piece_key key j) m' = mc_find M (piece_key key j) (cw_mongo w))"
proof (induction "pieces L - i" arbitrary: i sub w)
  case 0
  then have "\<not> i * piece_size < L" using pieces_less [of i L] by simp
  then have "write_chunks M key buf (int L) i (int (min (i * piece_size) L)) sub w = Some (Inr (), w)"
    by (subst write_chunks.simps) simp
  with 0 show ?case by (intro exI [of _ "cw_mongo w"]) simp
next
  case (Suc n)
  then have less: "i < pieces L" by simp
  then have iL: "i * piece_size < L" by (simp add: pieces_less)
  have sub: "sub = int (min piece_size (L - i * piece_size))" using Suc.prems less by simp
  have i1000: "i < 1000" using iL L(1) by simp
  let ?k = "piece_key key i"
  have sk: "sub_key key i = Inr ?k"
    using key length_piece_key [OF i1000, of key]
    by (simp add: sub_key_def sprintf_to_def piece_key_def)
  have room: "i * piece_size + min piece_size (L - i * piece_size) \<le> length buf"
    "2 * length ?k + min piece_size (L - i * piece_size) \<le> 16 * 1024 * 1024 - 1024"
    using iL L(2) length_piece_key [OF i1000, of key] key by auto
  have empty: "mc_find M ?k (cw_mongo w) = []" using Suc.prems(4) less by blast
  obtain m1 where m1: "insert_value M ?k buf (int (i * piece_size)) sub w = (Inr (), w\<lparr>cw_mongo := m1\<rparr>)"
    "up m1" "\<And>j. mc_find M j m1 = (if j = ?k then [piece_doc key buf L i] else mc_find M j (cw_mongo w))"
    using insert_value_ok [OF ok Suc.prems(2) empty room] unfolding sub piece_doc_def piece_def by metis
  have min_i: "min (i * piece_size) L = i * piece_size" using iL by simp
  obtain sub' where np: "and_then (int_ok (int (min (i * piece_size) L) + sub)) (\<lambda>finished.
      and_then (int_ok (finished + MAX_DOC_SIZE)) (\<lambda>reach.
        Inr (finished, if reach > int L then int L mod MAX_DOC_SIZE else sub))) =
      Inr (int (min (Suc i * piece_size) L), sub')"
    and sub': "Suc i * piece_size < L \<longrightarrow> sub' = int (min piece_size (L - Suc i * piece_size))"
    using next_piece [OF iL L(1) sub] by blast
  let ?w1 = "w\<lparr>cw_mongo := m1\<rparr>"
  have hyp: "n = pieces L - Suc i" "Suc i \<le> pieces L" "up (cw_mongo ?w1)"
    "Suc i < pieces L \<longrightarrow> sub' = int (min piece_size (L - Suc i * piece_size))"
    "\<forall>j. Suc i \<le> j \<and> j < pieces L \<longrightarrow> mc_find M (piece_key key j) (cw_mongo ?w1) = []"
    using Suc.hyps(2) less m1(2,3) sub' Suc.prems(4) by (simp_all add: pieces_less)
  obtain m2 where m2:
    "write_chunks M key buf (int L) (Suc i) (int (min (Suc i * piece_size) L)) sub' ?w1 =
       Some (Inr (), ?w1\<lparr>cw_mongo := m2\<rparr>)" "up m2"
    "\<forall>j. Suc i \<le> j \<and> j < pieces L \<longrightarrow> mc_find M (piece_key key j) m2 = [piece_doc key buf L j]"
    "\<forall>k. (\<forall>j<pieces L. k \<noteq> piece_key key j) \<longrightarrow> mc_find M k m2 = mc_find M k (cw_mongo ?w1)"
    "\<forall>j<Suc i. mc_find M (piece_key key j) m2 = mc_find M (piece_key key j) (cw_mongo ?w1)"
    using Suc.hyps(1) [OF hyp] by blast
  have "write_chunks M key buf (int L) i (int (min (i * piece_size) L)) sub w =
        write_chunks M key buf (int L) (Suc i) (int (min (Suc i * piece_size) L)) sub' ?w1"
    using np m1(1) sk iL unfolding min_i by (subst write_chunks.simps) simp
  then have run: "write_chunks M key buf (int L) i (int (min (i * piece_size) L)) sub w =
    Some (Inr (), w\<lparr>cw_mongo := m2\<rparr>)" using m2(1) by simp
  have "mc_find M (piece_key key j) m2 = [piece_doc key buf L j]" if "i \<le> j" "j < pieces L" for j
    using that m2(3,5) m1(3) [of ?k] by (cases "j = i") auto
  moreover have "mc_find M k m2 = mc_find M k (cw_mongo w)" if "\<forall>j<pieces L. k \<noteq> piece_key key j" for k
    using that m2(4) m1(3) [of k] less by auto
  moreover have "mc_find M (piece_key key j) m2 = mc_find M (piece_key key j) (cw_mongo w)" if "j < i" for j
    using that m2(5) m1(3) [of "piece_key key j"] by simp
  ultimately show ?case using run m2(2) by blast
qed

section \<open>Reading the pieces back\<close>

text \<open>Copying the next piece after the bytes already there.\<close>

lemma strcpy_extends:
  assumes "off + length s < length d" "take off d = pre" "off = length pre"
  shows "\<exists>d'. strcpy_at off s d = Inr d' \<and> length d' = length d \<and>
              take (off + length s) d' = pre @ s \<and> d' ! (off + length s) = CHR 0x00"
  using assms by (auto simp: strcpy_at_def memcpy_at_def nth_append)

lemma copy_piece:
  assumes "mc_find M (piece_key key i) m = [piece_doc key buf L i]" "piece_key key i \<noteq> ''_id''"
  shows "copy_fields (piece_key key i) (mc_find M (piece_key key i) m) off d =
         and_then (strcpy_at off (cstr (piece buf L i)) d) Inr"
proof -
  have "copy_fields (piece_key key i) [] off = Inr" by (rule ext) simp
  then show ?thesis using assms by (simp add: piece_doc_def)
qed

lemma piece_key_not_id: "key \<noteq> [] \<Longrightarrow> piece_key key i \<noteq> ''_id''"
proof
  assume key: "key \<noteq> []" and eq: "piece_key key i = ''_id''"
  have "CHR ''d'' \<in> set (nat_to_string i)"
  proof -
    have "last (piece_key key i) = last (nat_to_string i)" by (simp add: piece_key_def)
    with eq have "last (nat_to_string i) = CHR ''d''" by simp
    then show ?thesis by (metis last_in_set nat_to_string_nonempty)
  qed
  with nat_to_string_digits [of i] show False by (auto simp: is_digit_def)
qed

lemma cstr_piece: "CHR 0x00 \<notin> set (take L buf) \<Longrightarrow> cstr (piece buf L i) = piece buf L i"
proof (rule cstr_id)
  assume nul: "CHR 0x00 \<notin> set (take L buf)"
  have "piece buf L i = take (min piece_size (L - i * piece_size)) (drop (i * piece_size) (take L buf))"
    by (simp add: piece_def slice_def drop_take)
  then have "set (piece buf L i) \<subseteq> set (take L buf)"
    by (metis dual_order.trans set_drop_subset set_take_subset)
  with nul show "CHR 0x00 \<notin> set (piece buf L i)" by blast
qed

lemma read_chunks_ok:
  assumes key: "length key < 1000" "key \<noteq> []" and L: "L < 2 ^ 31 - piece_size" "L \<le> length buf"
    and nul: "CHR 0x00 \<notin> set (take L buf)"
    and docs: "\<And>i. i < pieces L \<Longrightarrow> mc_find M (piece_key key i) (cw_mongo w) = [piece_doc key buf L i]"
  shows "i + left = pieces L \<Longrightarrow> L < length d \<Longrightarrow>
         take (min (i * piece_size) L) d = take (min (i * piece_size) L) buf \<Longrightarrow>
         (i > 0 \<longrightarrow> d ! (min (i * piece_size) L) = CHR 0x00) \<Longrightarrow> 0 < i + left \<Longrightarrow>
         \<exists>d'. read_chunks M key i left (i * piece_size) d w = (Inr d', w) \<and>
              length d' = length d \<and> take L d' = take L buf \<and> d' ! L = CHR 0x00"
proof (induction left arbitrary: i d)
  case 0
  then have "L \<le> i * piece_size" using pieces_less [of i L] by simp
  then have "min (i * piece_size) L = L" by simp
  with 0 show ?case by (simp add: creturn_def)
next
  case (Suc left)
  then have less: "i < pieces L" by simp
  then have iL: "i * piece_size < L" by (simp add: pieces_less)
  let ?p = "piece buf L i" and ?off = "i * piece_size"
  have sk: "sub_key key i = Inr (piece_key key i)"
    using key iL L(1) length_piece_key [of i key]
    by (simp add: sub_key_def sprintf_to_def piece_key_def)
  have len: "length ?p = min piece_size (L - ?off)" using iL L(2) by (simp add: piece_def)
  have nxt: "?off + length ?p = min (Suc i * piece_size) L" using iL len by simp
  have pre: "take ?off d = take ?off buf" "?off = length (take ?off buf)"
    using Suc.prems(3) iL L(2) by simp_all
  have "?off + length ?p < length d" using nxt Suc.prems(2) by simp
  from strcpy_extends [OF this pre(1) pre(2)] obtain d1 where
    d1: "strcpy_at ?off ?p d = Inr d1" "length d1 = length d"
    "take (?off + length ?p) d1 = take ?off buf @ ?p" "d1 ! (?off + length ?p) = CHR 0x00" by blast
  have "take ?off buf @ ?p = take (?off + length ?p) buf"
    using len L(2) iL by (simp add: piece_def slice_def take_add)
  then have "take (min (Suc i * piece_size) L) d1 = take (min (Suc i * piece_size) L) buf"
    using d1(3) unfolding nxt by simp
  moreover have "d1 ! (min (Suc i * piece_size) L) = CHR 0x00" using d1(4) unfolding nxt .
  ultimately obtain d2 where d2: "read_chunks M key (Suc i) left (Suc i * piece_size) d1 w = (Inr d2, w)"
    "length d2 = length d1" "take L d2 = take L buf" "d2 ! L = CHR 0x00"
    using Suc.IH [of "Suc i" d1] Suc.prems(1,2) d1(2) by auto
  have "copy_fields (piece_key key i) (mc_find M (piece_key key i) (cw_mongo w)) ?off d = Inr d1"
    using copy_piece [OF docs [OF less] piece_key_not_id [OF key(2)], of ?off d] d1(1) cstr_piece [OF nul]
    by simp
  then have "read_chunks M key i (Suc left) ?off d w = read_chunks M key (Suc i) left (Suc i * piece_size) d1 w"
    using sk by (simp add: cbind_def clift_def MAX_DOC_SIZE_eq add.commute)
  with d2 d1(2) show ?case by auto
qed

section \<open>Metadata in documents\<close>

lemma write_mongo_small:
  assumes "mongoc_ok M up" "up (cw_mongo w)" "mc_find M key (cw_mongo w) = []" "length key < 1024"
    and "L \<le> piece_size" "L \<le> length buf"
  obtains m' where "write_mongo_sized M key buf (int L) w = Some (Inr (), w\<lparr>cw_mongo := m'\<rparr>)" "up m'"
    "\<And>j. mc_find M j m' = (if j = key then [[(''_id'', key), (key, take L buf)]]
                            else mc_find M j (cw_mongo w))"
proof -
  have room: "0 + L \<le> length buf" "2 * length key + L \<le> 16 * 1024 * 1024 - 1024"
    using assms(4-6) by simp_all
  obtain m' where m': "insert_value M key buf (int 0) (int L) w = (Inr (), w\<lparr>cw_mongo := m'\<rparr>)" "up m'"
    "\<And>j. mc_find M j m' = (if j = key then [[(''_id'', key), (key, take L buf)]]
                            else mc_find M j (cw_mongo w))"
    using insert_value_ok [OF assms(1-3) room] unfolding slice_0 by metis
  moreover have "write_mongo_sized M key buf (int L) w = Some (insert_value M key buf (int 0) (int L) w)"
    using assms(5) by (simp add: write_mongo_sized_def MAX_DOC_SIZE_eq)
  ultimately show thesis using that by metis
qed

lemma read_mongo_small:
  assumes "mc_find M key (cw_mongo w) = [[(''_id'', key), (key, v)]]" "key \<noteq> ''_id''"
    and "len \<le> MAX_DOC_SIZE" "length (cstr v) < length d"
  shows "read_mongo_sized M key d len w = (Inr (cstr v @ CHR 0x00 # drop (Suc (length (cstr v))) d), w)"
  using assms by (simp add: read_mongo_sized_def clift_def strcpy_at_start)

lemma create_mongo_ok:
  assumes "mongoc_ok M up" "up (cw_mongo w)" "storable m" "data_id m = Live d"
    and "mc_find M d (cw_mongo w) = []"
  obtains m' where "create_symbios_metadata_mongo M m w = Some (Inr (), w\<lparr>cw_mongo := m'\<rparr>)" "up m'"
    "\<And>j. mc_find M j m' = (if j = d then [[(''_id'', d), (d, metadata_text m @ [CHR 0x00])]]
                            else mc_find M j (cw_mongo w))"
proof -
  let ?t = "metadata_text m @ [CHR 0x00]"
  have len: "length (metadata_text m) < 1024" and dang: "server m \<noteq> Dangling"
    using assms(3) by (auto elim: storableE)
  have "length d < 1024" using len assms(4) by (simp add: metadata_text_def ptr_text_def)
  moreover have "length ?t \<le> piece_size" using len by simp
  ultimately obtain m' where m': "write_mongo_sized M d ?t (int (length ?t)) w = Some (Inr (), w\<lparr>cw_mongo := m'\<rparr>)"
    "up m'" "\<And>j. mc_find M j m' = (if j = d then [[(''_id'', d), (d, ?t)]] else mc_find M j (cw_mongo w))"
    using write_mongo_small [OF assms(1,2,5), of "length ?t" ?t] by (metis order_refl take_all)
  have "create_symbios_metadata_mongo M m w = write_mongo_sized M d ?t (int (length ?t)) w"
    using assms(4) len dang
    by (simp add: create_symbios_metadata_mongo_def serialize_metadata_text add.commute)
  with m' that show thesis by metis
qed

lemma query_mongo_ok:
  assumes "mc_find M d (cw_mongo w) = [[(''_id'', d), (d, metadata_text m @ [CHR 0x00])]]"
    and "d \<noteq> ''_id''" "storable m"
  shows "query_symbios_metadata_by_id_mongo junk M d w = (Inr (queried m), w)"
proof -
  have nul: "CHR 0x00 \<notin> set (metadata_text m)" and len: "length (metadata_text m) < 1024"
    using assms(3) by (auto simp: metadata_text_no_NUL elim: storableE)
  have c: "cstr (metadata_text m @ [CHR 0x00]) = metadata_text m"
    using nul by (rule cstr_append_NUL)
  obtain rest where rd: "read_mongo_sized M d (malloc junk 1024) 1024 w = (Inr (metadata_text m @ CHR 0x00 # rest), w)"
    using read_mongo_small [OF assms(1,2), of 1024 "malloc junk 1024"] len unfolding c
    by (simp add: MAX_DOC_SIZE_eq)
  obtain m' where m': "deserialize_metadata (metadata_text m) = Inr m'"
    "m'\<lparr>data_id := dangle (data_id m'), server := dangle (server m')\<rparr> = queried m"
    using assms(3) by (rule deserialize_storable)
  show ?thesis
    using rd m' nul
    by (simp add: query_symbios_metadata_by_id_mongo_def cbind_def clift_def creturn_def string_in_terminated)
qed

section \<open>A collection for the examples\<close>

definition ref_mongoc :: "(string \<Rightarrow> document option) mongoc" where
  "ref_mongoc =
     \<lparr>mc_connect = \<lambda>uri. (True, True, True),
      mc_insert = \<lambda>doc m.
        (case map_of doc ''_id'' of
           None \<Rightarrow> (Some ''no _id'', m)
         | Some i \<Rightarrow> if m i \<noteq> None then (Some ''duplicate key'', m) else (None, m(i := Some doc))),
      mc_find = \<lambda>i m. (case m i of None \<Rightarrow> [] | Some doc \<Rightarrow> [doc]),
      mc_drop = \<lambda>m. (None, \<lambda>_. None)\<rparr>"

lemma ref_mongoc_ok: "mongoc_ok ref_mongoc (\<lambda>m. True)"
  by (auto simp: mongoc_ok_def ref_mongoc_def split: option.splits)

section \<open>Values come back\<close>



end
