(* ===== verification/Link_Tests.thy ===== *)
theory Link_Tests
  imports Shadow_Link_Mongo
begin

text \<open>
  The metadata drivers \<^verbatim>\<open>test_link_redis.c\<close> and \<^verbatim>\<open>test_link_mongo.c\<close> of
  \<^verbatim>\<open>src/old/internal_component/shadow_link\<close>. The two files differ in the storage they call,
  so the loops take the two metadata calls as arguments. Options reach \<^verbatim>\<open>parse_opt\<close> as pairs
  of a key and its argument, in order. Every process is run with its own rank; barriers change
  nothing of its state, and the figures \<^verbatim>\<open>result_report\<close> prints for the slowest process are given
  by \<open>report_env\<close>.
\<close>

section \<open>Arguments\<close>

record arguments =
  a_count :: int
  a_primary :: bool
  a_shadow :: bool
  a_target :: "string option"
  a_io_mode :: int
  a_redis_hosts :: "string option"

text \<open>The defaults of \<^verbatim>\<open>main\<close>; \<^verbatim>\<open>redis_hosts\<close> is not initialised, which is \<open>None\<close> here.\<close>

definition default_arguments :: arguments where
  "default_arguments =
     \<lparr>a_count = -1, a_primary = False, a_shadow = False, a_target = None, a_io_mode = -1,
      a_redis_hosts = None\<rparr>"

definition either_message :: string where
  "either_message = ''Metadata can only be either primary or shadow''"

text \<open>\<^verbatim>\<open>argp_usage\<close> ends the process with \<^verbatim>\<open>EX_USAGE\<close>, 64.\<close>

definition argp_usage :: "(('h, 'm) cworld, 'a) cprog" where
  "argp_usage = cfail (Exit 64)"

definition parse_opt_common ::
  "char \<Rightarrow> string \<Rightarrow> arguments \<Rightarrow> (('h, 'm) cworld, arguments option) cprog" where
  "parse_opt_common key arg a =
     (if key = CHR ''c'' then creturn (Some (a\<lparr>a_count := atoi arg\<rparr>))
      else if key = CHR ''p''
      then (if a_shadow a then cbind (cprint either_message) (\<lambda>_. argp_usage)
            else creturn (Some (a\<lparr>a_primary := True\<rparr>)))
      else if key = CHR ''s''
      then (if a_primary a then cbind (cprint either_message) (\<lambda>_. argp_usage)
            else creturn (Some (a\<lparr>a_shadow := True\<rparr>)))
      else if key = CHR ''t'' then creturn (Some (a\<lparr>a_target := Some arg\<rparr>))
      else if key = CHR ''m'' then creturn (Some (a\<lparr>a_io_mode := atoi arg\<rparr>))
      else creturn None)"

definition parse_opt_mongo ::
  "char \<Rightarrow> string \<Rightarrow> arguments \<Rightarrow> (('h, 'm) cworld, arguments option) cprog" where
  "parse_opt_mongo = parse_opt_common"

definition parse_opt_redis ::
  "char \<Rightarrow> string \<Rightarrow> arguments \<Rightarrow> (('h, 'm) cworld, arguments option) cprog" where
  "parse_opt_redis key arg a =
     (if key = CHR ''r'' then creturn (Some (a\<lparr>a_redis_hosts := Some arg\<rparr>))
      else parse_opt_common key arg a)"

text \<open>\<^verbatim>\<open>argp_parse\<close> over the options; an option the parser does not know is a usage error.\<close>

fun argp_parse ::
  "(char \<Rightarrow> string \<Rightarrow> arguments \<Rightarrow> (('h, 'm) cworld, arguments option) cprog) \<Rightarrow>
   (char \<times> string) list \<Rightarrow> arguments \<Rightarrow> (('h, 'm) cworld, arguments) cprog" where
  "argp_parse parse_opt [] a = creturn a"
| "argp_parse parse_opt ((key, arg) # opts) a =
     cbind (parse_opt key arg a) (\<lambda>r.
       case r of None \<Rightarrow> argp_usage | Some a' \<Rightarrow> argp_parse parse_opt opts a')"

section \<open>The tests\<close>

definition test_key :: "string \<Rightarrow> int \<Rightarrow> int \<Rightarrow> nat \<Rightarrow> string" where
  "test_key key_base rank r i =
     key_base @ ''_'' @ show_d rank @ ''_'' @ show_d r @ ''_'' @ nat_to_string i"

definition test_metadata :: "arguments \<Rightarrow> string \<Rightarrow> symbios_metadata res" where
  "test_metadata conf key =
     (if a_primary conf
      then Inr \<lparr>primary = True, data_id = Live key, target_stor = UNKNOWN, server = Null,
                port = -1, offset = -1\<rparr>
      else and_then (int_ok (a_count conf * 16384)) (\<lambda>off.
           Inr \<lparr>primary = False, data_id = Live key, target_stor = PFS1,
                server = Live ''ares-stor-15'', port = 3334, offset = word_of_int off\<rparr>))"

definition make_key ::
  "rand_fun \<Rightarrow> string \<Rightarrow> int \<Rightarrow> nat \<Rightarrow> (('h, 'm) cworld, string) cprog" where
  "make_key rnd key_base rank i =
     cbind (crand rnd) (\<lambda>r. clift (sprintf_to 1024 (test_key key_base rank r i)))"

fun write_loop ::
  "(symbios_metadata \<Rightarrow> (('h, 'm) cworld, unit) oprog) \<Rightarrow> rand_fun \<Rightarrow> arguments \<Rightarrow> string \<Rightarrow> int \<Rightarrow>
   nat \<Rightarrow> nat \<Rightarrow> (('h, 'm) cworld, unit) oprog" where
  "write_loop create rnd conf key_base rank i 0 = ototal (creturn ())"
| "write_loop create rnd conf key_base rank i (Suc left) =
     obind (ototal (cbind (make_key rnd key_base rank i) (\<lambda>key. clift (test_metadata conf key)))) (\<lambda>metadata.
     obind (create metadata) (\<lambda>_.
     write_loop create rnd conf key_base rank (Suc i) left))"

fun read_loop ::
  "(string \<Rightarrow> (('h, 'm) cworld, symbios_metadata) cprog) \<Rightarrow> rand_fun \<Rightarrow> string \<Rightarrow> int \<Rightarrow>
   nat \<Rightarrow> nat \<Rightarrow> (('h, 'm) cworld, unit) cprog" where
  "read_loop query rnd key_base rank i 0 = creturn ()"
| "read_loop query rnd key_base rank i (Suc left) =
     cbind (make_key rnd key_base rank i) (\<lambda>key.
     cbind (query key) (\<lambda>_.
     read_loop query rnd key_base rank (Suc i) left))"

definition write_test_redis ::
  "'h hircluster \<Rightarrow> rand_fun \<Rightarrow> arguments \<Rightarrow> string \<Rightarrow> int \<Rightarrow> (('h, 'm) cworld, unit) oprog" where
  "write_test_redis H rnd conf key_base rank =
     write_loop (\<lambda>m. ototal (create_symbios_metadata_redis H m)) rnd conf key_base rank 0
       (nat (a_count conf))"

definition read_test_redis ::
  "(nat \<Rightarrow> char) \<Rightarrow> 'h hircluster \<Rightarrow> rand_fun \<Rightarrow> arguments \<Rightarrow> string \<Rightarrow> int \<Rightarrow>
   (('h, 'm) cworld, unit) cprog" where
  "read_test_redis junk H rnd conf key_base rank =
     read_loop (query_symbios_metadata_by_id_redis junk H) rnd key_base rank 0 (nat (a_count conf))"

definition write_test_mongo ::
  "'m mongoc \<Rightarrow> rand_fun \<Rightarrow> arguments \<Rightarrow> string \<Rightarrow> int \<Rightarrow> (('h, 'm) cworld, unit) oprog" where
  "write_test_mongo M rnd conf key_base rank =
     write_loop (create_symbios_metadata_mongo M) rnd conf key_base rank 0 (nat (a_count conf))"

definition read_test_mongo ::
  "(nat \<Rightarrow> char) \<Rightarrow> 'm mongoc \<Rightarrow> rand_fun \<Rightarrow> arguments \<Rightarrow> string \<Rightarrow> int \<Rightarrow>
   (('h, 'm) cworld, unit) cprog" where
  "read_test_mongo junk M rnd conf key_base rank =
     read_loop (query_symbios_metadata_by_id_mongo junk M) rnd key_base rank 0 (nat (a_count conf))"

text \<open>
  \<^verbatim>\<open>result_report\<close>. The number of processes, and the texts of \<^verbatim>\<open>n / duration_max\<close> and \<^verbatim>\<open>duration_max\<close>.
  The product \<^verbatim>\<open>count * nprocs\<close> is of type \<^verbatim>\<open>int\<close>.
\<close>

record report_env =
  re_nprocs :: int
  re_throughput :: "int \<Rightarrow> string"
  re_wall :: string

definition result_report ::
  "string \<Rightarrow> report_env \<Rightarrow> string \<Rightarrow> int \<Rightarrow> int \<Rightarrow> (('h, 'm) cworld, unit) cprog" where
  "result_report db T name count rank =
     (if rank \<noteq> 0 then creturn ()
      else cbind (cprint (''Test of '' @ name @ '' finishes ...'')) (\<lambda>_.
           cbind (clift (int_ok (count * re_nprocs T))) (\<lambda>ops.
           cbind (cprint (''Throughput of '' @ name @ '' ('' @ db @ ''): '' @ re_throughput T ops @ '' op/s'')) (\<lambda>_.
           cprint (''Total wall time: '' @ re_wall T @ '' s'')))))"

definition result_report_redis ::
  "report_env \<Rightarrow> string \<Rightarrow> int \<Rightarrow> int \<Rightarrow> (('h, 'm) cworld, unit) cprog" where
  "result_report_redis = result_report ''Redis''"

definition result_report_mongo ::
  "report_env \<Rightarrow> string \<Rightarrow> int \<Rightarrow> int \<Rightarrow> (('h, 'm) cworld, unit) cprog" where
  "result_report_mongo = result_report ''MongoDB''"

text \<open>\<^verbatim>\<open>do_test\<close> over the tests and the report of a driver.\<close>

definition test_name :: "arguments \<Rightarrow> string" where
  "test_name conf =
     (if a_io_mode conf = 0
      then (if a_primary conf then ''primary metadata creation'' else ''shadow metadata creation'')
      else ''primary/shadow metadata query'')"

definition do_test ::
  "(('h, 'm) cworld, unit) oprog \<Rightarrow> (('h, 'm) cworld, unit) cprog \<Rightarrow>
   (string \<Rightarrow> int \<Rightarrow> int \<Rightarrow> (('h, 'm) cworld, unit) cprog) \<Rightarrow> arguments \<Rightarrow> int \<Rightarrow>
   (('h, 'm) cworld, unit) oprog" where
  "do_test write_test read_test report conf rank =
     obind (ototal (if rank = 0
                    then cprint (''Test starts, each rank does '' @ show_d (a_count conf) @
                                 ''x metadata operations ...'')
                    else creturn ())) (\<lambda>_.
     obind (if a_io_mode conf = 0 then write_test
            else if a_io_mode conf = 1 then ototal read_test else ototal (creturn ())) (\<lambda>_.
     ototal (report (test_name conf) (a_count conf) rank)))"

definition do_test_redis ::
  "(nat \<Rightarrow> char) \<Rightarrow> 'h hircluster \<Rightarrow> rand_fun \<Rightarrow> report_env \<Rightarrow> arguments \<Rightarrow> string \<Rightarrow> int \<Rightarrow>
   (('h, 'm) cworld, unit) oprog" where
  "do_test_redis junk H rnd T conf key_base rank =
     do_test (write_test_redis H rnd conf key_base rank) (read_test_redis junk H rnd conf key_base rank)
       (result_report_redis T) conf rank"

definition do_test_mongo ::
  "(nat \<Rightarrow> char) \<Rightarrow> 'm mongoc \<Rightarrow> rand_fun \<Rightarrow> report_env \<Rightarrow> arguments \<Rightarrow> string \<Rightarrow> int \<Rightarrow>
   (('h, 'm) cworld, unit) oprog" where
  "do_test_mongo junk M rnd T conf key_base rank =
     do_test (write_test_mongo M rnd conf key_base rank) (read_test_mongo junk M rnd conf key_base rank)
       (result_report_mongo T) conf rank"

definition KEY_BASE_STR :: string where "KEY_BASE_STR = ''test''"

definition test_seed :: "int \<Rightarrow> int \<Rightarrow> int res" where
  "test_seed rank count =
     and_then (int_ok (rank * count)) (\<lambda>p.
     and_then (int_ok (rank + count)) (\<lambda>s. int_ok (s + p)))"

text \<open>\<^verbatim>\<open>main\<close> after the options are parsed; rank 1 prints the configuration.\<close>

definition print_conf :: "string option \<Rightarrow> arguments \<Rightarrow> int \<Rightarrow> (('h, 'm) cworld, unit) cprog" where
  "print_conf hosts conf rank =
     (if rank \<noteq> 1 then creturn ()
      else cbind (case hosts of None \<Rightarrow> creturn ()
                  | Some h \<Rightarrow> cprint (''Redis host file: '' @ h)) (\<lambda>_.
           cbind (cprint (''Number of operations: '' @ show_d (a_count conf))) (\<lambda>_.
           if a_io_mode conf = 0
           then cbind (cprint ''I/O mode: write'') (\<lambda>_.
                if a_primary conf then cprint ''Metadata: primary''
                else if a_shadow conf
                then cbind (cprint ''Metadata: shadow'') (\<lambda>_.
                     cprint (''Target storage: '' @
                             (case a_target conf of None \<Rightarrow> ''(null)'' | Some t \<Rightarrow> t)))
                else creturn ())
           else if a_io_mode conf = 1 then cprint ''I/O mode: read'' else creturn ())))"

text \<open>\<^verbatim>\<open>print_conf\<close> of the MongoDB driver has no host file to name.\<close>

definition print_conf_mongo :: "arguments \<Rightarrow> int \<Rightarrow> (('h, 'm) cworld, unit) cprog" where
  "print_conf_mongo = print_conf None"

definition link_run_redis ::
  "(nat \<Rightarrow> char) \<Rightarrow> 'h hircluster \<Rightarrow> rand_fun \<Rightarrow> report_env \<Rightarrow> int \<Rightarrow> arguments \<Rightarrow> (('h, 'm) cworld, int) oprog" where
  "link_run_redis junk H rnd T rank conf =
     (case a_redis_hosts conf of
        None \<Rightarrow> ototal (cfail Undefined)
      | Some hosts \<Rightarrow>
          obind (ototal (print_conf (Some hosts) conf rank)) (\<lambda>_.
          obind (ototal (connectToRedisServerWithHostfile H (Some hosts))) (\<lambda>ret.
          obind (ototal (cbind (clift (test_seed rank (a_count conf))) srand)) (\<lambda>_.
          obind (do_test_redis junk H rnd T conf KEY_BASE_STR rank) (\<lambda>_.
          ototal (creturn 0))))))"

definition test_link_redis_main ::
  "(nat \<Rightarrow> char) \<Rightarrow> 'h hircluster \<Rightarrow> rand_fun \<Rightarrow> report_env \<Rightarrow> int \<Rightarrow> (char \<times> string) list \<Rightarrow>
   (('h, 'm) cworld, int) oprog" where
  "test_link_redis_main junk H rnd T rank opts =
     obind (ototal (argp_parse parse_opt_redis opts default_arguments)) (link_run_redis junk H rnd T rank)"

definition link_run_mongo ::
  "(nat \<Rightarrow> char) \<Rightarrow> 'm mongoc \<Rightarrow> bool \<Rightarrow> int \<Rightarrow> rand_fun \<Rightarrow> report_env \<Rightarrow> string \<Rightarrow> int \<Rightarrow> arguments \<Rightarrow>
   (('h, 'm) cworld, int) oprog" where
  "link_run_mongo junk M harmless junk_ret rnd T hostname rank conf =
     obind (ototal (print_conf_mongo conf rank)) (\<lambda>_.
     obind (ototal (connectToMongoDBServerMPI M harmless junk_ret hostname)) (\<lambda>ret.
     obind (ototal (cbind (clift (test_seed rank (a_count conf))) srand)) (\<lambda>_.
     obind (do_test_mongo junk M rnd T conf KEY_BASE_STR rank) (\<lambda>_.
     ototal (creturn 0)))))"

definition test_link_mongo_main ::
  "(nat \<Rightarrow> char) \<Rightarrow> 'm mongoc \<Rightarrow> bool \<Rightarrow> int \<Rightarrow> rand_fun \<Rightarrow> report_env \<Rightarrow> string \<Rightarrow> int \<Rightarrow> (char \<times> string) list \<Rightarrow>
   (('h, 'm) cworld, int) oprog" where
  "test_link_mongo_main junk M harmless junk_ret rnd T hostname rank opts =
     obind (ototal (argp_parse parse_opt_mongo opts default_arguments))
       (link_run_mongo junk M harmless junk_ret rnd T hostname rank)"

section \<open>The metadata store the drivers rely on\<close>

text \<open>
  The contract: in a ready store a storable record can be created under a key that is free;
  it is then held under that key, whatever was held under other keys is still held, and a
  query of a held key answers. \<^verbatim>\<open>_id\<close> is MongoDB's name for keys and cannot be one.
\<close>

locale link_store =
  fixes create :: "symbios_metadata \<Rightarrow> (('h, 'm) cworld, unit) oprog"
    and query :: "string \<Rightarrow> (('h, 'm) cworld, symbios_metadata) cprog"
    and ready :: "'h \<Rightarrow> 'm \<Rightarrow> bool"
    and unused :: "'h \<Rightarrow> 'm \<Rightarrow> string \<Rightarrow> bool"
    and holds :: "'h \<Rightarrow> 'm \<Rightarrow> string \<Rightarrow> symbios_metadata \<Rightarrow> bool"
  assumes create_stores:
      "ready (cw_redis w) (cw_mongo w) \<Longrightarrow> storable m \<Longrightarrow> data_id m = Live d \<Longrightarrow> d \<noteq> ''_id'' \<Longrightarrow>
       unused (cw_redis w) (cw_mongo w) d \<Longrightarrow>
       \<exists>h' m'. create m w = Some (Inr (), w\<lparr>cw_redis := h', cw_mongo := m'\<rparr>) \<and> ready h' m' \<and>
         holds h' m' d m \<and>
         (\<forall>k n. k \<noteq> d \<longrightarrow> holds (cw_redis w) (cw_mongo w) k n \<longrightarrow> holds h' m' k n) \<and>
         (\<forall>k. k \<noteq> d \<longrightarrow> unused (cw_redis w) (cw_mongo w) k \<longrightarrow> unused h' m' k)"
    and query_finds:
      "holds (cw_redis w) (cw_mongo w) d m \<Longrightarrow> storable m \<Longrightarrow> d \<noteq> ''_id'' \<Longrightarrow>
       query d w = (Inr (queried m), w)"

text \<open>The key and the record of the \<open>j\<close>-th operation for a seed.\<close>

definition nth_key :: "rand_fun \<Rightarrow> int \<Rightarrow> int \<Rightarrow> nat \<Rightarrow> string" where
  "nth_key rnd seed rank j = test_key KEY_BASE_STR rank (rnd seed j) j"

definition link_record :: "arguments \<Rightarrow> string \<Rightarrow> symbios_metadata" where
  "link_record conf key =
     (if a_primary conf
      then \<lparr>primary = True, data_id = Live key, target_stor = UNKNOWN, server = Null,
            port = -1, offset = -1\<rparr>
      else \<lparr>primary = False, data_id = Live key, target_stor = PFS1,
            server = Live ''ares-stor-15'', port = 3334,
            offset = word_of_int (a_count conf * 16384)\<rparr>)"

text \<open>The number of operations leaves the arithmetic of the test in the range of \<^verbatim>\<open>int\<close>.\<close>

definition test_count_ok :: "arguments \<Rightarrow> bool" where
  "test_count_ok conf \<longleftrightarrow> 0 \<le> a_count conf \<and> a_count conf < 131072"

lemma test_metadata_ok: "test_count_ok conf \<Longrightarrow> test_metadata conf key = Inr (link_record conf key)"
  by (auto simp: test_metadata_def link_record_def test_count_ok_def int_ok_def)

lemma length_test_key:
  assumes "in_int32 rank" "in_int32 r" "i < 1000000"
  shows "length (test_key KEY_BASE_STR rank r i) \<le> 40"
  using assms length_int_to_string_bound [of rank] length_int_to_string_bound [of r]
    length_nat_to_string_bound [of i 5]
  by (simp add: test_key_def KEY_BASE_STR_def show_d_def in_int32_def)

lemma test_key_field_name: "field_name (test_key KEY_BASE_STR rank r i)"
proof -
  have "SERDE_MD_SEP \<notin> set (nat_to_string i)" "CHR 0x00 \<notin> set (nat_to_string i)"
    using nat_to_string_digits [of i] by (auto simp: SERDE_MD_SEP_def is_digit_def)
  then show ?thesis
    using sep_not_in_number
    by (simp add: field_name_def test_key_def KEY_BASE_STR_def show_d_def) (simp add: SERDE_MD_SEP_def)
qed

lemma test_key_not_id: "test_key KEY_BASE_STR rank r i \<noteq> ''_id''"
  by (simp add: test_key_def KEY_BASE_STR_def)

lemma underscore_not_digit: "CHR ''_'' \<notin> set (nat_to_string i)"
  using nat_to_string_digits [of i] by (auto simp: is_digit_def)

lemma test_key_inject:
  assumes "test_key b rank r i = test_key b rank r' i'"
  shows "i = i'"
proof -
  have "(b @ ''_'' @ show_d rank @ ''_'' @ show_d r) @ CHR ''_'' # nat_to_string i =
        (b @ ''_'' @ show_d rank @ ''_'' @ show_d r') @ CHR ''_'' # nat_to_string i'"
    using assms by (simp add: test_key_def)
  then have "nat_to_string i = nat_to_string i'"
    using last_field_inject [OF underscore_not_digit underscore_not_digit] by blast
  then show ?thesis by simp
qed

lemma link_record_storable:
  assumes "in_int32 rank" "in_int32 r" "i < 1000000"
  shows "storable (link_record conf (test_key KEY_BASE_STR rank r i))"
proof -
  have len: "length (show_d64 x) \<le> 11" for x by (rule length_show_d64)
  have "length (show_d i) \<le> 11" if "in_int32 i" for i
    using that length_int_to_string_bound by (simp add: show_d_def in_int32_def)
  then have "length (show_d (-1)) \<le> 11" "length (show_d 0) \<le> 11" "length (show_d 3334) \<le> 11"
    by (simp_all add: in_int32_def)
  then show ?thesis
    using length_test_key [OF assms] test_key_field_name len [of "-1"]
      len [of "word_of_int (a_count conf * 16384)"]
    by (simp add: storable_def link_record_def metadata_text_def ptr_text_def UNKNOWN_def PFS1_def
        in_int32_def) (simp add: field_name_def SERDE_MD_SEP_def)
qed

lemma rand_in_int32:
  assumes "rand_ok rnd"
  shows "in_int32 (rnd seed j)"
proof -
  have "0 \<le> rnd seed j" "rnd seed j < 2 ^ 31" using assms by (simp_all add: rand_ok_def)
  then show ?thesis by (simp add: in_int32_def)
qed

lemma nth_record_storable:
  "in_int32 rank \<Longrightarrow> rand_ok rnd \<Longrightarrow> j < 1000000 \<Longrightarrow> storable (link_record conf (nth_key rnd seed rank j))"
  unfolding nth_key_def by (simp add: link_record_storable rand_in_int32)

lemma make_key_ok:
  assumes "in_int32 rank" "rand_ok rnd" "j < 1000000" "cw_seed w = seed" "cw_calls w = j"
  shows "make_key rnd KEY_BASE_STR rank j w = (Inr (nth_key rnd seed rank j), w\<lparr>cw_calls := Suc j\<rparr>)"
proof -
  have "length (test_key KEY_BASE_STR rank (rnd seed j) j) < 1024"
    using length_test_key [OF assms(1) rand_in_int32 [OF assms(2)] assms(3)] by (rule le_less_trans) simp
  then show ?thesis
    using assms(4,5) by (simp add: make_key_def cbind_def crand_def clift_def sprintf_to_def nth_key_def)
qed

context link_store
begin

text \<open>Everything created before index \<open>i\<close> is held.\<close>

definition written :: "rand_fun \<Rightarrow> int \<Rightarrow> int \<Rightarrow> arguments \<Rightarrow> nat \<Rightarrow> 'h \<Rightarrow> 'm \<Rightarrow> bool" where
  "written rnd seed rank conf i h m \<longleftrightarrow>
     (\<forall>j<i. holds h m (nth_key rnd seed rank j) (link_record conf (nth_key rnd seed rank j)))"

lemma write_loop_written:
  assumes "in_int32 rank" "rand_ok rnd" "test_count_ok conf" "i + n < 1000000"
    and "ready (cw_redis w) (cw_mongo w)" "cw_seed w = seed" "cw_calls w = i"
    and "\<forall>j. i \<le> j \<and> j < i + n \<longrightarrow> unused (cw_redis w) (cw_mongo w) (nth_key rnd seed rank j)"
    and "written rnd seed rank conf i (cw_redis w) (cw_mongo w)"
  shows "\<exists>h' m'. write_loop create rnd conf KEY_BASE_STR rank i n w =
           Some (Inr (), w\<lparr>cw_redis := h', cw_mongo := m', cw_calls := i + n\<rparr>) \<and>
         ready h' m' \<and> written rnd seed rank conf (i + n) h' m'"
  using assms(4-)
proof (induction n arbitrary: i w)
  case 0
  then show ?case
    by (intro exI [of _ "cw_redis w"] exI [of _ "cw_mongo w"]) (simp add: ototal_def creturn_def)
next
  case (Suc n)
  let ?k = "nth_key rnd seed rank i" and ?w1 = "w\<lparr>cw_calls := Suc i\<rparr>"
  let ?r = "link_record conf ?k"
  have key: "make_key rnd KEY_BASE_STR rank i w = (Inr ?k, ?w1)"
    using Suc.prems by (intro make_key_ok [OF assms(1,2)]) simp_all
  have st: "storable ?r" using Suc.prems(1) by (intro nth_record_storable [OF assms(1,2)]) simp
  have live: "data_id ?r = Live ?k" by (simp add: link_record_def)
  have "?k \<noteq> ''_id''" unfolding nth_key_def by (rule test_key_not_id)
  moreover have "unused (cw_redis ?w1) (cw_mongo ?w1) ?k" "ready (cw_redis ?w1) (cw_mongo ?w1)"
    using Suc.prems(2,5) by simp_all
  ultimately obtain h1 m1 where c: "create ?r ?w1 = Some (Inr (), ?w1\<lparr>cw_redis := h1, cw_mongo := m1\<rparr>)"
    "ready h1 m1" "holds h1 m1 ?k ?r"
    "\<forall>k n. k \<noteq> ?k \<longrightarrow> holds (cw_redis ?w1) (cw_mongo ?w1) k n \<longrightarrow> holds h1 m1 k n"
    "\<forall>k. k \<noteq> ?k \<longrightarrow> unused (cw_redis ?w1) (cw_mongo ?w1) k \<longrightarrow> unused h1 m1 k"
    using create_stores [of ?w1 ?r ?k] st live by blast
  let ?w2 = "?w1\<lparr>cw_redis := h1, cw_mongo := m1\<rparr>"
  have other: "nth_key rnd seed rank j \<noteq> ?k" if "j \<noteq> i" for j
    using that test_key_inject unfolding nth_key_def by blast
  have "\<forall>j. Suc i \<le> j \<and> j < Suc i + n \<longrightarrow> unused h1 m1 (nth_key rnd seed rank j)"
    using c(5) other Suc.prems(5) by simp
  moreover have "written rnd seed rank conf (Suc i) h1 m1"
    using c(3,4) other Suc.prems(6) unfolding written_def by (auto simp: less_Suc_eq)
  ultimately obtain h2 m2 where
    w2: "write_loop create rnd conf KEY_BASE_STR rank (Suc i) n ?w2 =
         Some (Inr (), ?w2\<lparr>cw_redis := h2, cw_mongo := m2, cw_calls := Suc i + n\<rparr>)"
    "ready h2 m2" "written rnd seed rank conf (Suc i + n) h2 m2"
    using Suc.IH [of "Suc i" ?w2] Suc.prems c(2) by auto
  have "write_loop create rnd conf KEY_BASE_STR rank i (Suc n) w =
        write_loop create rnd conf KEY_BASE_STR rank (Suc i) n ?w2"
    using key c(1) by (simp add: obind_def ototal_def cbind_def clift_def test_metadata_ok [OF assms(3)])
  with w2 show ?case by (intro exI [of _ h2] exI [of _ m2]) simp
qed

lemma read_loop_finds:
  assumes "in_int32 rank" "rand_ok rnd" "i + n < 1000000" "cw_seed w = seed" "cw_calls w = i"
    and "written rnd seed rank conf (i + n) (cw_redis w) (cw_mongo w)"
  shows "read_loop query rnd KEY_BASE_STR rank i n w = (Inr (), w\<lparr>cw_calls := i + n\<rparr>)"
  using assms(3-)
proof (induction n arbitrary: i w)
  case 0
  then show ?case by (simp add: creturn_def)
next
  case (Suc n)
  let ?k = "nth_key rnd seed rank i" and ?w1 = "w\<lparr>cw_calls := Suc i\<rparr>"
  have key: "make_key rnd KEY_BASE_STR rank i w = (Inr ?k, ?w1)"
    using Suc.prems by (intro make_key_ok [OF assms(1,2)]) simp_all
  have "storable (link_record conf ?k)"
    using Suc.prems(1) by (intro nth_record_storable [OF assms(1,2)]) simp
  moreover have "holds (cw_redis ?w1) (cw_mongo ?w1) ?k (link_record conf ?k)"
    using Suc.prems(4) unfolding written_def by simp
  moreover have "?k \<noteq> ''_id''" unfolding nth_key_def by (rule test_key_not_id)
  ultimately have q: "query ?k ?w1 = (Inr (queried (link_record conf ?k)), ?w1)"
    by (intro query_finds)
  show ?case
    using key q Suc.IH [of "Suc i" ?w1] Suc.prems by (simp add: cbind_def)
qed

end

section \<open>Redis and MongoDB as metadata stores\<close>

text \<open>
  A server that keeps the requirement of its package is a metadata store; for one that does
  not, the store is never ready.
\<close>

definition redis_ready :: "'h hircluster \<Rightarrow> ('h \<Rightarrow> bool) \<Rightarrow> 'h \<Rightarrow> 'm \<Rightarrow> bool" where
  "redis_ready H up h m \<longleftrightarrow> hircluster_ok H up \<and> up h"

definition redis_holds :: "'h hircluster \<Rightarrow> 'h \<Rightarrow> 'm \<Rightarrow> string \<Rightarrow> symbios_metadata \<Rightarrow> bool" where
  "redis_holds H h m k n \<longleftrightarrow> hc_get H k h = Reply (metadata_text n)"

interpretation redis_links: link_store
  "\<lambda>m. ototal (create_symbios_metadata_redis H m)" "query_symbios_metadata_by_id_redis junk H"
  "redis_ready H up" "\<lambda>h m k. True" "redis_holds H"
proof
  fix w :: "('a, 'b) cworld" and m d
  assume "redis_ready H up (cw_redis w) (cw_mongo w)" "storable m" "data_id m = Live d"
  then obtain h' where "create_symbios_metadata_redis H m w = (Inr (), w\<lparr>cw_redis := h'\<rparr>)" "up h'"
    "\<And>k. hc_get H k h' = (if k = d then Reply (metadata_text m) else hc_get H k (cw_redis w))"
    by (auto simp: redis_ready_def elim: create_redis_ok)
  then show "\<exists>h' m'. ototal (create_symbios_metadata_redis H m) w =
      Some (Inr (), w\<lparr>cw_redis := h', cw_mongo := m'\<rparr>) \<and> redis_ready H up h' m' \<and> redis_holds H h' m' d m \<and>
      (\<forall>k n. k \<noteq> d \<longrightarrow> redis_holds H (cw_redis w) (cw_mongo w) k n \<longrightarrow> redis_holds H h' m' k n) \<and>
      (\<forall>k. k \<noteq> d \<longrightarrow> True \<longrightarrow> True)"
    using \<open>redis_ready H up (cw_redis w) (cw_mongo w)\<close>
    by (intro exI [of _ h'] exI [of _ "cw_mongo w"])
       (simp add: ototal_def redis_ready_def redis_holds_def)
next
  fix w :: "('a, 'b) cworld" and d m
  assume "redis_holds H (cw_redis w) (cw_mongo w) d m" "storable m"
  then show "query_symbios_metadata_by_id_redis junk H d w = (Inr (queried m), w)"
    by (simp add: redis_holds_def query_redis_ok)
qed

definition mongo_ready :: "'m mongoc \<Rightarrow> ('m \<Rightarrow> bool) \<Rightarrow> 'h \<Rightarrow> 'm \<Rightarrow> bool" where
  "mongo_ready M up h m \<longleftrightarrow> mongoc_ok M up \<and> up m"

definition mongo_holds :: "'m mongoc \<Rightarrow> 'h \<Rightarrow> 'm \<Rightarrow> string \<Rightarrow> symbios_metadata \<Rightarrow> bool" where
  "mongo_holds M h m k n \<longleftrightarrow>
     mc_find M k m = [[(''_id'', k), (k, metadata_text n @ [CHR 0x00])]]"

interpretation mongo_links: link_store
  "create_symbios_metadata_mongo M" "query_symbios_metadata_by_id_mongo junk M"
  "mongo_ready M up" "\<lambda>h m k. mc_find M k m = []" "mongo_holds M"
proof
  fix w :: "('b, 'a) cworld" and m d
  assume "mongo_ready M up (cw_redis w) (cw_mongo w)" "storable m" "data_id m = Live d"
    "mc_find M d (cw_mongo w) = []"
  then obtain m' where "create_symbios_metadata_mongo M m w = Some (Inr (), w\<lparr>cw_mongo := m'\<rparr>)" "up m'"
    "\<And>j. mc_find M j m' = (if j = d then [[(''_id'', d), (d, metadata_text m @ [CHR 0x00])]]
                            else mc_find M j (cw_mongo w))"
    by (auto simp: mongo_ready_def elim: create_mongo_ok)
  then show "\<exists>h' m'. create_symbios_metadata_mongo M m w =
      Some (Inr (), w\<lparr>cw_redis := h', cw_mongo := m'\<rparr>) \<and> mongo_ready M up h' m' \<and> mongo_holds M h' m' d m \<and>
      (\<forall>k n. k \<noteq> d \<longrightarrow> mongo_holds M (cw_redis w) (cw_mongo w) k n \<longrightarrow> mongo_holds M h' m' k n) \<and>
      (\<forall>k. k \<noteq> d \<longrightarrow> mc_find M k (cw_mongo w) = [] \<longrightarrow> mc_find M k m' = [])"
    using \<open>mongo_ready M up (cw_redis w) (cw_mongo w)\<close>
    by (intro exI [of _ "cw_redis w"] exI [of _ m']) (simp add: mongo_ready_def mongo_holds_def)
next
  fix w :: "('b, 'a) cworld" and d m
  assume "mongo_holds M (cw_redis w) (cw_mongo w) d m" "storable m" "d \<noteq> ''_id''"
  then show "query_symbios_metadata_by_id_mongo junk M d w = (Inr (queried m), w)"
    by (simp add: mongo_holds_def query_mongo_ok)
qed

section \<open>A run\<close>

definition hostfile_readable :: "(string \<Rightarrow> xfile option) \<Rightarrow> string \<Rightarrow> bool" where
  "hostfile_readable files name =
     (case files name of
        None \<Rightarrow> False
      | Some (content, attrs) \<Rightarrow>
          (case hostfile_nodes 0 content [] of Inl e \<Rightarrow> False | Inr nodes \<Rightarrow> nodes \<noteq> []))"

lemma print_conf_out: "\<exists>out. print_conf hosts conf rank w = (Inr (), w\<lparr>cw_out := out\<rparr>)"
proof -
  have "\<exists>out. (case hosts of None \<Rightarrow> creturn () | Some h \<Rightarrow> cprint (''Redis host file: '' @ h)) w =
          (Inr (), w\<lparr>cw_out := out\<rparr>)"
    by (cases hosts) (auto simp: creturn_def cprint_def intro: exI [of _ "cw_out w"])
  then obtain out where "(case hosts of None \<Rightarrow> creturn () | Some h \<Rightarrow> cprint (''Redis host file: '' @ h)) w =
          (Inr (), w\<lparr>cw_out := out\<rparr>)" by blast
  then show ?thesis
    by (cases "rank = 1") (auto simp: print_conf_def cbind_def cprint_def creturn_def intro: exI [of _ "cw_out w"])
qed

lemma connect_redis_out:
  assumes "hostfile_readable (cw_files w) name"
  shows "\<exists>ret out. connectToRedisServerWithHostfile H (Some name) w = (Inr ret, w\<lparr>cw_out := out\<rparr>)"
proof -
  obtain content attrs nodes where f: "cw_files w name = Some (content, attrs)"
    "hostfile_nodes 0 content [] = Inr nodes" "nodes \<noteq> []"
    using assms by (auto simp: hostfile_readable_def split: option.splits sum.splits prod.splits)
  then have "genNodeListFromHostfile (Some name) w = (Inr (butlast nodes), w)"
    by (simp add: genNodeListFromHostfile_def clift_def)
  then show ?thesis
    by (cases "hc_connect H (butlast nodes)")
       (auto simp: connectToRedisServerWithHostfile_def cbind_def connect_nodes_def cprint_def creturn_def
         intro: exI [of _ "cw_out w"])
qed

text \<open>What is before and after the test changes the output and the seed only.\<close>

lemma link_run_redis_test:
  assumes "a_redis_hosts conf = Some hosts" "hostfile_readable (cw_files w) hosts"
    and "test_seed rank (a_count conf) = Inr seed"
  obtains out where "link_run_redis junk H rnd T rank conf w =
    obind (do_test_redis junk H rnd T conf KEY_BASE_STR rank)
      (\<lambda>_. ototal (creturn 0)) (w\<lparr>cw_out := out, cw_seed := seed, cw_calls := 0\<rparr>)"
proof -
  obtain o1 where p: "print_conf (Some hosts) conf rank w = (Inr (), w\<lparr>cw_out := o1\<rparr>)"
    using print_conf_out by blast
  obtain ret o2 where c: "connectToRedisServerWithHostfile H (Some hosts) (w\<lparr>cw_out := o1\<rparr>) =
      (Inr ret, w\<lparr>cw_out := o2\<rparr>)"
    using connect_redis_out [of "w\<lparr>cw_out := o1\<rparr>" hosts H] assms(2) by auto
  have "link_run_redis junk H rnd T rank conf w =
    obind (do_test_redis junk H rnd T conf KEY_BASE_STR rank)
      (\<lambda>_. ototal (creturn 0)) (w\<lparr>cw_out := o2, cw_seed := seed, cw_calls := 0\<rparr>)"
    using assms(1,3) p c by (simp add: link_run_redis_def obind_total srand_def)
  with that show thesis by blast
qed

lemma result_report_out:
  assumes "in_int32 (count * re_nprocs T)"
  shows "\<exists>out. result_report db T name count rank w = (Inr (), w\<lparr>cw_out := out\<rparr>)"
  using assms
  by (cases "rank = 0")
    (auto simp: result_report_def cbind_def cprint_def creturn_def clift_def int_ok_def in_int32_def intro: exI [of _ "cw_out w"])

lemma do_test_run:
  assumes "a_io_mode conf = 0 \<or> a_io_mode conf = 1" "in_int32 (a_count conf * re_nprocs T)"
    and "\<And>out. \<exists>w'. (if a_io_mode conf = 0 then write_test else ototal read_test) (w\<lparr>cw_out := out\<rparr>) =
                 Some (Inr (), w') \<and> P (cw_redis w') (cw_mongo w') \<and> cw_files w' = cw_files w"
  shows "\<exists>w'. obind (do_test write_test read_test (result_report db T) conf rank) (\<lambda>_. ototal (creturn 0)) w =
                Some (Inr 0, w') \<and>
              P (cw_redis w') (cw_mongo w') \<and> cw_files w' = cw_files w"
proof -
  let ?out = "if rank = 0 then cw_out w @ [''Test starts, each rank does '' @ show_d (a_count conf) @
                                 ''x metadata operations ...''] else cw_out w"
  obtain w1 where w1: "(if a_io_mode conf = 0 then write_test else ototal read_test) (w\<lparr>cw_out := ?out\<rparr>) =
      Some (Inr (), w1)" "P (cw_redis w1) (cw_mongo w1)" "cw_files w1 = cw_files w"
    using assms(3) by blast
  obtain out where rep: "result_report db T (test_name conf) (a_count conf) rank w1 = (Inr (), w1\<lparr>cw_out := out\<rparr>)"
    using result_report_out [OF assms(2)] by blast
  have mode: "(if a_io_mode conf = 0 then write_test else if a_io_mode conf = 1 then ototal read_test
               else ototal (creturn ())) = (if a_io_mode conf = 0 then write_test else ototal read_test)"
    using assms(1) by auto
  show ?thesis
    using w1 rep unfolding do_test_def mode
    by (cases "rank = 0") (simp_all add: obind_def ototal_def cprint_def creturn_def)
qed

section \<open>Properties\<close>

text \<open>
  C37. A run of the Redis metadata test in write mode followed by a run in read mode with the
  same rank and number of operations (which, times the number of processes, is an \<^verbatim>\<open>int\<close>): both
  end with status 0, because the second run seeds
  \<^verbatim>\<open>rand\<close> alike, asks for exactly the keys the first one created, and finds every record
  (a missing key would make it copy from a null pointer).
\<close>

theorem link_redis_write_then_read:
  assumes "hircluster_ok H up" "up (cw_redis w)" "rand_ok rnd" "in_int32 rank"
    and "test_count_ok conf" "test_seed rank (a_count conf) = Inr seed" "a_io_mode conf = 0"
    and "in_int32 (a_count conf * re_nprocs T)"
    and "a_redis_hosts conf = Some hosts" "hostfile_readable (cw_files w) hosts"
    and "a_count conf' = a_count conf" "a_io_mode conf' = 1" "a_redis_hosts conf' = Some hosts"
  shows "\<exists>w' w''. link_run_redis junk H rnd T rank conf w = Some (Inr 0, w') \<and>
                  link_run_redis junk H rnd T rank conf' w' = Some (Inr 0, w'')"
proof -
  let ?n = "nat (a_count conf)"
  let ?written = "redis_links.written H rnd seed rank conf ?n"
  have n: "0 + ?n < 1000000" using assms(5) by (auto simp: test_count_ok_def)
  obtain o1 where run1: "link_run_redis junk H rnd T rank conf w =
    obind (do_test_redis junk H rnd T conf KEY_BASE_STR rank)
      (\<lambda>_. ototal (creturn 0)) (w\<lparr>cw_out := o1, cw_seed := seed, cw_calls := 0\<rparr>)"
    using link_run_redis_test [OF assms(9,10,6)] by blast
  let ?w1 = "w\<lparr>cw_out := o1, cw_seed := seed, cw_calls := 0\<rparr>"
  have writes: "\<exists>w'. (if a_io_mode conf = 0 then write_test_redis H rnd conf KEY_BASE_STR rank
                else ototal (read_test_redis junk H rnd conf KEY_BASE_STR rank)) (?w1\<lparr>cw_out := out\<rparr>) =
               Some (Inr (), w') \<and>
             ?written (cw_redis w') (cw_mongo w') \<and> cw_files w' = cw_files ?w1" for out
    using assms(7) redis_links.write_loop_written [OF assms(4,3,5) n, of H up "?w1\<lparr>cw_out := out\<rparr>" seed]
      assms(1,2) by (auto simp: write_test_redis_def redis_ready_def redis_links.written_def)
  obtain w' where w': "link_run_redis junk H rnd T rank conf w = Some (Inr 0, w')"
    "?written (cw_redis w') (cw_mongo w')" "cw_files w' = cw_files w"
    using do_test_run [OF disjI1 [OF assms(7)] assms(8) writes, of "''Redis''" rank] unfolding run1
    by (auto simp: do_test_redis_def result_report_redis_def)
  obtain o2 where run2: "link_run_redis junk H rnd T rank conf' w' =
    obind (do_test_redis junk H rnd T conf' KEY_BASE_STR rank)
      (\<lambda>_. ototal (creturn 0)) (w'\<lparr>cw_out := o2, cw_seed := seed, cw_calls := 0\<rparr>)"
    using link_run_redis_test [OF assms(13)] assms(6,10,11) w'(3) by metis
  let ?w2 = "w'\<lparr>cw_out := o2, cw_seed := seed, cw_calls := 0\<rparr>"
  have "read_test_redis junk H rnd conf' KEY_BASE_STR rank (?w2\<lparr>cw_out := out\<rparr>) =
        (Inr (), ?w2\<lparr>cw_out := out, cw_calls := 0 + ?n\<rparr>)" for out
    using redis_links.read_loop_finds [OF assms(4,3) n, of "?w2\<lparr>cw_out := out\<rparr>" seed H conf junk] w'(2)
    by (simp add: read_test_redis_def assms(11))
  then have reads: "\<exists>w''. (if a_io_mode conf' = 0 then write_test_redis H rnd conf' KEY_BASE_STR rank
                else ototal (read_test_redis junk H rnd conf' KEY_BASE_STR rank)) (?w2\<lparr>cw_out := out\<rparr>) =
               Some (Inr (), w'') \<and> True \<and> cw_files w'' = cw_files ?w2" for out
    using assms(12) by (simp add: ototal_def)
  have "\<exists>w''. link_run_redis junk H rnd T rank conf' w' = Some (Inr 0, w'')"
    using do_test_run [where P = "\<lambda>_ _. True" and T = T, OF disjI2 [OF assms(12)] _ reads, of "''Redis''" rank] assms(8,11)
    unfolding run2 by (auto simp: do_test_redis_def result_report_redis_def)
  with w'(1) show ?thesis by blast
qed

definition ref_conf_write :: arguments where
  "ref_conf_write =
     default_arguments\<lparr>a_count := 3, a_shadow := True, a_io_mode := 0, a_redis_hosts := Some ''hosts''\<rparr>"

definition ref_conf_read :: arguments where
  "ref_conf_read = default_arguments\<lparr>a_count := 3, a_io_mode := 1, a_redis_hosts := Some ''hosts''\<rparr>"

definition ref_link_world :: "(string \<Rightarrow> bytes option, unit) cworld" where
  "ref_link_world =
     (ref_cworld (\<lambda>_. None) ())\<lparr>cw_files := (\<lambda>_. Some (''a'' @ [CHR ''\<newline>''], \<lambda>_. None))\<rparr>"

lemma ref_hostfile_readable: "hostfile_readable (cw_files ref_link_world) ''hosts''"
  using hostfile_nodes_lines [of "[''a'']" 0 "[]"]
  by (simp add: hostfile_readable_def ref_link_world_def ref_cworld_def host_line_def host_name_def
      host_entry_def REDIS_PORT_BASE_def decimal_eval)

definition ref_report :: report_env where
  "ref_report = \<lparr>re_nprocs = 4, re_throughput = (\<lambda>_. ''1.0''), re_wall = ''1.0''\<rparr>"

theorem link_redis_write_then_read_witness:
  "\<exists>w' w''. link_run_redis (\<lambda>_. CHR ''x'') ref_hircluster (\<lambda>_ n. int (n mod 7)) ref_report 2 ref_conf_write ref_link_world =
              Some (Inr 0, w') \<and>
            link_run_redis (\<lambda>_. CHR ''x'') ref_hircluster (\<lambda>_ n. int (n mod 7)) ref_report 2 ref_conf_read w' = Some (Inr 0, w'')"
proof (rule link_redis_write_then_read [OF ref_hircluster_ok])
  show "rand_ok (\<lambda>_ n. int (n mod 7))"
    unfolding rand_ok_def by (auto intro: order.strict_trans [of _ 7])
  show "test_seed 2 (a_count ref_conf_write) = Inr 11"
    by (simp add: test_seed_def int_ok_def ref_conf_write_def default_arguments_def)
  show "hostfile_readable (cw_files ref_link_world) ''hosts''" by (rule ref_hostfile_readable)
qed (simp_all add: in_int32_def test_count_ok_def ref_conf_write_def ref_conf_read_def default_arguments_def
      ref_report_def)

text \<open>
  The same for MongoDB: after the write test of a rank, the read test with the same seed
  and number of operations completes, provided that no document had one of its keys before.
\<close>

theorem link_mongo_write_then_read:
  assumes "mongoc_ok M up" "up (cw_mongo w)" "rand_ok rnd" "in_int32 rank" "test_count_ok conf"
    and "cw_seed w = seed" "cw_calls w = 0" "a_count conf' = a_count conf"
    and "\<forall>j<nat (a_count conf). mc_find M (nth_key rnd seed rank j) (cw_mongo w) = []"
  shows "\<exists>w' w''. write_test_mongo M rnd conf KEY_BASE_STR rank w = Some (Inr (), w') \<and>
           cbind (srand seed) (\<lambda>_. read_test_mongo junk M rnd conf' KEY_BASE_STR rank) w' = (Inr (), w'')"
proof -
  let ?n = "nat (a_count conf)"
  have n: "0 + ?n < 1000000" using assms(5) by (auto simp: test_count_ok_def)
  obtain h' m' where w': "write_test_mongo M rnd conf KEY_BASE_STR rank w =
      Some (Inr (), w\<lparr>cw_redis := h', cw_mongo := m', cw_calls := 0 + ?n\<rparr>)"
    "mongo_links.written M rnd seed rank conf (0 + ?n) h' m'"
    using mongo_links.write_loop_written [OF assms(4,3,5) n, of M up w seed] assms(1,2,6,7,9)
    by (auto simp: write_test_mongo_def mongo_ready_def mongo_links.written_def)
  let ?w = "w\<lparr>cw_redis := h', cw_mongo := m', cw_calls := 0 + ?n\<rparr>"
  have "read_test_mongo junk M rnd conf' KEY_BASE_STR rank (?w\<lparr>cw_seed := seed, cw_calls := 0\<rparr>) =
        (Inr (), ?w\<lparr>cw_seed := seed, cw_calls := 0 + ?n\<rparr>)"
    using mongo_links.read_loop_finds [OF assms(4,3) n, of "?w\<lparr>cw_seed := seed, cw_calls := 0\<rparr>" seed M conf junk]
      w'(2) by (simp add: read_test_mongo_def assms(8))
  then show ?thesis using w'(1) by (simp add: cbind_def srand_def)
qed

theorem link_mongo_write_then_read_witness:
  "\<exists>w' w''. write_test_mongo ref_mongoc (\<lambda>_ n. 5) ref_conf_write KEY_BASE_STR 2 (ref_cworld () (\<lambda>_. None)) =
              Some (Inr (), w') \<and>
            cbind (srand 1) (\<lambda>_. read_test_mongo (\<lambda>_. CHR ''x'') ref_mongoc (\<lambda>_ n. 5) ref_conf_read KEY_BASE_STR 2) w' =
              (Inr (), w'')"
proof (rule link_mongo_write_then_read [OF ref_mongoc_ok])
  show "rand_ok (\<lambda>_ n. 5)" by (simp add: rand_ok_def)
qed (simp_all add: in_int32_def test_count_ok_def ref_conf_write_def ref_conf_read_def default_arguments_def
      ref_cworld_def ref_mongoc_def)

end
