(* ===== verification/Engine_Io.thy ===== *)
theory Engine_Io
  imports Shadow_Link_Mongo
begin

text \<open>
  The calls below the engine prototype: \<^verbatim>\<open>common.c\<close>, \<^verbatim>\<open>common.h\<close>, \<^verbatim>\<open>io_redis.c\<close> and \<^verbatim>\<open>io_mongo.c\<close> of
  \<^verbatim>\<open>src/old/internal_component/engine\<close>. They resemble those of the shadow links, but reads assign to
  their parameter, and documents have one field more.
\<close>

section \<open>common.h\<close>

definition engine_REDIS_HOST_START :: nat where "engine_REDIS_HOST_START = 1"
definition engine_REDIS_HOST_COUNT :: nat where "engine_REDIS_HOST_COUNT = 4"
definition engine_MONGODB_HOST :: string where "engine_MONGODB_HOST = ''ares-comp-25-40g''"
definition engine_MONGODB_PORT :: nat where "engine_MONGODB_PORT = 27017"

section \<open>common.c\<close>

definition engine_charset :: string where
  "engine_charset =
     ''abcdefghijklmnopqrstuvwxyzABCDEFGHIJKLMNOPQRSTUVWXYZ0123456789,.-#'' @ [CHR 0x27] @ ''?!''"

definition engine_randstring :: "rand_fun \<Rightarrow> int \<Rightarrow> (('h, 'm) cworld, string option) cprog" where
  "engine_randstring = randstring_from engine_charset"

text \<open>Every byte of the block is \<^verbatim>\<open>'A'\<close>, the one of the terminator too.\<close>

definition engine_genstring :: "int \<Rightarrow> bytes option" where
  "engine_genstring len =
     (if len = 0 \<or> len < -1 then None else Some (replicate (nat (len + 1)) (CHR ''A'')))"

section \<open>io_redis.c\<close>

definition engine_genNodeList :: "string \<Rightarrow> string res" where
  "engine_genNodeList nodelist = node_list 2048 engine_REDIS_HOST_START 0 engine_REDIS_HOST_COUNT nodelist"

definition engine_genNodeListFromHostfile :: "string option \<Rightarrow> (('h, 'm) cworld, string) cprog" where
  "engine_genNodeListFromHostfile hostfile w =
     (case hostfile of
        None \<Rightarrow> cbind (cprint ''Invalid Redis hostfile'') (\<lambda>_. cfail (Exit (-1))) w
      | Some name \<Rightarrow>
          (case cw_files w name of
             None \<Rightarrow> cbind (cprint (''Fail to open hostfile '' @ name)) (\<lambda>_. cfail (Exit (-1))) w
           | Some (content, attrs) \<Rightarrow>
               clift (and_then (hostfile_nodes 0 content []) (\<lambda>nodelist.
                 if nodelist = [] then Inl Undefined else Inr (butlast nodelist))) w))"

text \<open>The context returned, or null (\<open>False\<close>) after an error.\<close>

definition engine_connect_nodes :: "'h hircluster \<Rightarrow> string \<Rightarrow> (('h, 'm) cworld, bool) cprog" where
  "engine_connect_nodes H nodelist =
     (case hc_connect H nodelist of
        Some errstr \<Rightarrow> cbind (cprint (''Error: '' @ errstr)) (\<lambda>_. creturn False)
      | None \<Rightarrow> creturn True)"

definition engine_connectToRedisServer :: "'h hircluster \<Rightarrow> (('h, 'm) cworld, bool) cprog" where
  "engine_connectToRedisServer H =
     cbind (clift (engine_genNodeList [])) (engine_connect_nodes H)"

definition engine_connectToRedisServerWithHostfile ::
  "'h hircluster \<Rightarrow> string option \<Rightarrow> (('h, 'm) cworld, bool) cprog" where
  "engine_connectToRedisServerWithHostfile H hostfile =
     cbind (engine_genNodeListFromHostfile hostfile) (engine_connect_nodes H)"

definition engine_write_redis ::
  "'h hircluster \<Rightarrow> string \<Rightarrow> string \<Rightarrow> (('h, 'm) cworld, unit) cprog" where
  "engine_write_redis H key_str value =
     redis_set_checked H ''Something is wrong in write'' key_str value"

definition engine_write_redis_sized ::
  "'h hircluster \<Rightarrow> string \<Rightarrow> bytes \<Rightarrow> int \<Rightarrow> (('h, 'm) cworld, unit) cprog" where
  "engine_write_redis_sized H key_str value len =
     (if len < 0 then cfail Undefined
      else case mem_read 0 (nat len) value of
             None \<Rightarrow> cfail Undefined
           | Some v \<Rightarrow> redis_set_checked H ''Something is wrong in write'' key_str v)"

text \<open>The reply's string is assigned to the parameter: the caller's buffer stays as it is.\<close>

definition engine_read_redis :: "'h hircluster \<Rightarrow> string \<Rightarrow> (('h, 'm) cworld, unit) cprog" where
  "engine_read_redis H key_str w =
     (case hc_get H key_str (cw_redis w) of
        NullReply \<Rightarrow> cbind (cprint ''Something is wrong in read'') (\<lambda>_. cfail Undefined) w
      | NilReply \<Rightarrow> cfail Undefined w
      | Reply s \<Rightarrow> cprint (''res: '' @ cstr s) w)"

definition engine_read_redis_sized ::
  "'h hircluster \<Rightarrow> string \<Rightarrow> bytes \<Rightarrow> int \<Rightarrow> (('h, 'm) cworld, bytes) cprog" where
  "engine_read_redis_sized H key_str value len w =
     (case hc_get H key_str (cw_redis w) of
        NullReply \<Rightarrow> cbind (cprint ''Something is wrong in read'') (\<lambda>_. cfail Undefined) w
      | _ \<Rightarrow> creturn value w)"

section \<open>io_mongo.c\<close>

text \<open>As in the shadow links, \<open>harmless\<close> and \<open>junk_ret\<close> stand for a stray pointer and a missing return.\<close>

definition engine_connectToMongoDBServerWithURI ::
  "'m mongoc \<Rightarrow> bool \<Rightarrow> int \<Rightarrow> string \<Rightarrow> (('h, 'm) cworld, int) cprog" where
  "engine_connectToMongoDBServerWithURI M harmless junk_ret uri_string =
     (case mc_connect M uri_string of
        (uri, client, ping) \<Rightarrow>
          if \<not> uri then cbind (cprint (''failed to parse URI: '' @ uri_string)) (\<lambda>_. creturn 1)
          else if \<not> client then creturn 1
          else if \<not> ping then cbind (cprint ''ping failed'') (\<lambda>_. creturn 1)
          else if \<not> harmless then cfail Undefined
          else creturn junk_ret)"

definition engine_mongo_uri :: "string \<Rightarrow> string res" where
  "engine_mongo_uri host =
     sprintf_to 1024 (''mongodb://'' @ host @ '':'' @ nat_to_string engine_MONGODB_PORT)"

definition engine_connectToMongoDBServer ::
  "'m mongoc \<Rightarrow> bool \<Rightarrow> int \<Rightarrow> (('h, 'm) cworld, int) cprog" where
  "engine_connectToMongoDBServer M harmless junk_ret =
     cbind (clift (engine_mongo_uri engine_MONGODB_HOST)) (engine_connectToMongoDBServerWithURI M harmless junk_ret)"

definition engine_connectToMongoDBServerMPI ::
  "'m mongoc \<Rightarrow> bool \<Rightarrow> int \<Rightarrow> string \<Rightarrow> (('h, 'm) cworld, int) cprog" where
  "engine_connectToMongoDBServerMPI M harmless junk_ret hostname =
     cbind (clift (engine_mongo_uri hostname)) (engine_connectToMongoDBServerWithURI M harmless junk_ret)"

definition engine_cleanMongoDB :: "'m mongoc \<Rightarrow> (('h, 'm) cworld, unit) cprog" where
  "engine_cleanMongoDB M w =
     (case mc_drop M (cw_mongo w) of
        (Some msg, m') \<Rightarrow> cprint msg (w\<lparr>cw_mongo := m'\<rparr>)
      | (None, m') \<Rightarrow> (Inr (), w\<lparr>cw_mongo := m'\<rparr>))"

text \<open>The identifier, the key with the numbers of the process and a random one, goes to 30 bytes.\<close>

definition engine_write_mongo ::
  "rand_fun \<Rightarrow> 'm mongoc \<Rightarrow> int \<Rightarrow> string \<Rightarrow> (('h, 'm) cworld, unit) cprog" where
  "engine_write_mongo rnd M process_id key_str =
     cbind (crand rnd) (\<lambda>r.
     cbind (clift (sprintf_to 30 (key_str @ show_d process_id @ show_d r))) (\<lambda>id.
     mongo_insert_doc M [(''_id'', id), (key_str, ''mongodb'')]))"

definition engine_insert_value ::
  "'m mongoc \<Rightarrow> string \<Rightarrow> bytes \<Rightarrow> int \<Rightarrow> int \<Rightarrow> (('h, 'm) cworld, unit) cprog" where
  "engine_insert_value M key buf off len =
     (if len < 0 \<or> off < 0 then cfail Undefined
      else case mem_read (nat off) (nat len) buf of
             None \<Rightarrow> cfail Undefined
           | Some v \<Rightarrow> mongo_insert_doc M [(''_id'', key), (''queryid'', key), (key, v)])"

partial_function (option) engine_write_chunks ::
  "'m mongoc \<Rightarrow> string \<Rightarrow> bytes \<Rightarrow> int \<Rightarrow> nat \<Rightarrow> int \<Rightarrow> int \<Rightarrow> ('h, 'm) cworld \<Rightarrow>
   (unit res \<times> ('h, 'm) cworld) option" where
  "engine_write_chunks M key_str buf len count finished_length sub_length w =
     (if finished_length < len
      then (case cbind (clift (sub_key key_str count)) (\<lambda>sub_key_str.
                   engine_insert_value M sub_key_str buf finished_length sub_length) w of
              (Inl e, w') \<Rightarrow> Some (Inl e, w')
            | (Inr _, w') \<Rightarrow>
                (case and_then (int_ok (finished_length + sub_length)) (\<lambda>finished_length.
                      and_then (int_ok (finished_length + MAX_DOC_SIZE)) (\<lambda>reach.
                      Inr (finished_length,
                           if reach > len then len mod MAX_DOC_SIZE else sub_length))) of
                   Inl e \<Rightarrow> Some (Inl e, w')
                 | Inr next_piece \<Rightarrow>
                     engine_write_chunks M key_str buf len (Suc count)
                       (fst next_piece) (snd next_piece) w'))
      else Some (Inr (), w))"

definition engine_write_mongo_sized ::
  "'m mongoc \<Rightarrow> string \<Rightarrow> bytes \<Rightarrow> int \<Rightarrow> (('h, 'm) cworld, unit) oprog" where
  "engine_write_mongo_sized M key_str buf len w =
     (if len > MAX_DOC_SIZE then engine_write_chunks M key_str buf len 0 0 MAX_DOC_SIZE w
      else Some (engine_insert_value M key_str buf 0 len w))"

text \<open>The JSON of what is found is assigned to the parameter, too.\<close>

fun engine_read_chunks :: "string \<Rightarrow> nat \<Rightarrow> nat \<Rightarrow> unit res" where
  "engine_read_chunks key_str i 0 = Inr ()"
| "engine_read_chunks key_str i (Suc left) =
     and_then (sub_key key_str i) (\<lambda>_. engine_read_chunks key_str (Suc i) left)"

definition engine_read_mongo_sized ::
  "string \<Rightarrow> bytes \<Rightarrow> int \<Rightarrow> (('h, 'm) cworld, bytes) cprog" where
  "engine_read_mongo_sized key_str buf len =
     (if len > MAX_DOC_SIZE
      then cbind (clift (engine_read_chunks key_str 0
                           (nat ((len + MAX_DOC_SIZE - 1) div MAX_DOC_SIZE)))) (\<lambda>_. creturn buf)
      else creturn buf)"

section \<open>Lemmas\<close>

text \<open>
  \<^verbatim>\<open>write_mongo\<close> has 30 bytes for the identifier: a key of 28 characters or more overflows them.
\<close>

theorem engine_write_mongo_overflow:
  assumes "28 \<le> length key_str"
  shows "fst (engine_write_mongo rnd M process_id key_str w) = Inl Undefined"
proof -
  let ?p = "show_d process_id" and ?r = "show_d (rnd (cw_seed w) (cw_calls w))"
  have "0 < length (show_d i)" for i by (simp add: show_d_def int_to_string_def)
  from this [of process_id] this [of "rnd (cw_seed w) (cw_calls w)"]
  have "\<not> length (key_str @ ?p @ ?r) < 30" using assms unfolding length_append by linarith
  then show ?thesis
    by (simp add: engine_write_mongo_def cbind_def crand_def clift_def sprintf_to_def cfail_def)
qed

end
