(* ===== verification/Engine.thy ===== *)
theory Engine
  imports Engine_Io
begin

text \<open>
  The engine prototype \<^verbatim>\<open>src/old/internal_component/engine\<close>: the choice of a target storage,
  the trace replayer and its I/O (\<^verbatim>\<open>test_engine.c\<close>) and the two small drivers \<^verbatim>\<open>test_redis.c\<close> and
  \<^verbatim>\<open>test_mongo.c\<close>.

  Every process runs with its own rank. A line that rank 0 reads and broadcasts is the same
  line for every rank, so the trace is an argument of each. The destination files are
  streams in mode \<^verbatim>\<open>a+\<close>: a write goes to the end of the file whatever the position, a read
  starts at the position. Streams take every byte they are given. Times are left out.
\<close>

section \<open>Policies\<close>

definition target_stor_list :: "string list" where
  "target_stor_list = [''PFS1'', ''PFS2'', ''REDIS'', ''MONGO'']"

text \<open>\<^verbatim>\<open>sizeof(target_stor_list)\<close> is the size of four rows of 32 bytes.\<close>

definition sizeof_target_stor_list :: int where
  "sizeof_target_stor_list = int (length target_stor_list) * 32"

definition policy_random :: "rand_fun \<Rightarrow> (('h, 'm) cworld, int) cprog" where
  "policy_random rnd = cbind (crand rnd) (\<lambda>r. creturn (r mod sizeof_target_stor_list))"

definition policy_roundrobin :: "rand_fun \<Rightarrow> (('h, 'm) cworld, int) cprog" where
  "policy_roundrobin rnd = cbind (crand rnd) (\<lambda>r. creturn (r mod sizeof_target_stor_list))"

definition policy_heuristic :: "(('h, 'm) cworld, int) cprog" where
  "policy_heuristic = creturn 0"

definition policy_model :: "(('h, 'm) cworld, int) cprog" where
  "policy_model = creturn 0"

text \<open>For another policy the result is not initialised.\<close>

definition select_target :: "rand_fun \<Rightarrow> string \<Rightarrow> (('h, 'm) cworld, int) cprog" where
  "select_target rnd policy =
     (if policy = ''RANDOM'' then policy_random rnd
      else if policy = ''ROUND-ROBIN'' then policy_roundrobin rnd
      else if policy = ''HEURISTIC'' then policy_heuristic
      else if policy = ''MODEL'' then policy_model
      else cfail Undefined)"

text \<open>The target of \<^verbatim>\<open>main\<close>: the one given, or row \<^verbatim>\<open>select_target\<close> of the list.\<close>

definition choose_target :: "rand_fun \<Rightarrow> string \<Rightarrow> string \<Rightarrow> (('h, 'm) cworld, string) cprog" where
  "choose_target rnd policy target =
     (if target \<noteq> [] then creturn target
      else cbind (select_target rnd policy) (\<lambda>i.
             if 0 \<le> i \<and> i < int (length target_stor_list) then creturn (target_stor_list ! nat i)
             else cfail Undefined))"

section \<open>The trace\<close>

datatype io_ops = OPEN | READ | WRITE | SEEK | CLOSE

record trace_record =
  tr_ops :: io_ops
  tr_size :: size_t
  tr_offset :: int

text \<open>A \<^verbatim>\<open>char\<close> of value 0xFF compares equal to \<^verbatim>\<open>EOF\<close>.\<close>

definition get_record_count :: "string \<Rightarrow> nat" where
  "get_record_count trace =
     length (filter (\<lambda>c. c = CHR ''\<newline>'') (takeWhile (\<lambda>c. c \<noteq> CHR 0xFF) trace))"

definition trace_op :: "string \<Rightarrow> io_ops \<Rightarrow> io_ops" where
  "trace_op token old =
     (if strstr token ''OPEN'' \<or> strstr token ''open'' then OPEN
      else if strstr token ''READ'' \<or> strstr token ''read'' then READ
      else if strstr token ''WRITE'' \<or> strstr token ''write'' then WRITE
      else if strstr token ''SEEK'' \<or> strstr token ''seek'' then SEEK
      else if strstr token ''CLOSE'' \<or> strstr token ''close'' then CLOSE
      else old)"

text \<open>
  The record and the rest of the trace; a null token or, at the end of the trace, the null
  record lead the caller to an access through a null pointer.
\<close>

definition next_trace_record :: "string \<Rightarrow> trace_record \<Rightarrow> (trace_record \<times> string) res" where
  "next_trace_record trace record0 =
     (case fgets 1024 trace of
        None \<Rightarrow> Inl Undefined
      | Some (line, rest) \<Rightarrow>
          (case next_tok (CHR '','') (cstr line) of
             (None, _) \<Rightarrow> Inl Undefined
           | (Some token, r0) \<Rightarrow>
               let (t1, r1) = next_tok (CHR '','') r0;
                   (t2, r2) = next_tok (CHR '','') r1
               in and_then (tok_num t1) (\<lambda>off.
                  and_then (tok_num t2) (\<lambda>size.
                  Inr (\<lparr>tr_ops = trace_op token (tr_ops record0), tr_size = word_of_int size,
                        tr_offset = off\<rparr>, rest)))))"

section \<open>The state of a process and its I/O\<close>

text \<open>A stream is the name of its file; \<open>None\<close> is the null pointer.\<close>

record ('h, 'm) engine =
  e_world :: "('h, 'm) cworld"
  e_fp1 :: "string option"
  e_fp2 :: "string option"
  e_buf :: "bytes option"
  e_total :: int

definition on_world :: "(('h, 'm) cworld, 'a) oprog \<Rightarrow> (('h, 'm) engine, 'a) oprog" where
  "on_world p s =
     (case p (e_world s) of None \<Rightarrow> None | Some (r, w') \<Rightarrow> Some (r, s\<lparr>e_world := w'\<rparr>))"

definition file_content :: "('h, 'm) cworld \<Rightarrow> string \<Rightarrow> bytes" where
  "file_content w name = (case cw_files w name of None \<Rightarrow> [] | Some (c, a) \<Rightarrow> c)"

definition file_append :: "string \<Rightarrow> bytes \<Rightarrow> ('h, 'm) cworld \<Rightarrow> ('h, 'm) cworld" where
  "file_append name v w =
     w\<lparr>cw_files := (cw_files w)(name :=
          Some (case cw_files w name of None \<Rightarrow> (v, \<lambda>_. None) | Some (c, a) \<Rightarrow> (c @ v, a)))\<rparr>"

text \<open>\<^verbatim>\<open>pfs1_io\<close> and \<^verbatim>\<open>pfs2_io\<close>, for their stream; \<^verbatim>\<open>MPI_Abort\<close> ends the program.\<close>

definition stream_io :: "string option \<Rightarrow> trace_record \<Rightarrow> (('h, 'm) engine, unit) oprog" where
  "stream_io fp record0 s =
     (case (fp, e_buf s) of
        (Some name, Some buf) \<Rightarrow>
          if tr_offset record0 < 0
          then obind (on_world (ototal (cprint ''Fail to seek to offset in destination file'')))
                     (\<lambda>_. ototal (cfail (Exit 207))) s
          else if tr_ops record0 = WRITE
          then (case mem_read 0 (unat (tr_size record0)) buf of
                  None \<Rightarrow> Some (Inl Undefined, s)
                | Some v \<Rightarrow> Some (Inr (), s\<lparr>e_world := file_append name v (e_world s)\<rparr>))
          else if tr_ops record0 = READ
          then (case memcpy_at 0 (slice (nat (tr_offset record0)) (unat (tr_size record0))
                                        (file_content (e_world s) name)) buf of
                  None \<Rightarrow> Some (Inl Undefined, s)
                | Some buf' \<Rightarrow> Some (Inr (), s\<lparr>e_buf := Some buf'\<rparr>))
          else Some (Inr (), s)
      | _ \<Rightarrow> Some (Inl Undefined, s))"

definition pfs1_io :: "trace_record \<Rightarrow> (('h, 'm) engine, unit) oprog" where
  "pfs1_io record0 s = stream_io (e_fp1 s) record0 s"

definition pfs2_io :: "trace_record \<Rightarrow> (('h, 'm) engine, unit) oprog" where
  "pfs2_io record0 s = stream_io (e_fp2 s) record0 s"

text \<open>
  \<^verbatim>\<open>pfs_io\<close>, which the replay called before: it duplicates one of the two streams, and seeks in both,
  whose offset the duplicate shares. For another stripe size the stream is not initialised.
\<close>

definition PFS1_STRIPE_SIZE :: int where "PFS1_STRIPE_SIZE = 4096"
definition PFS2_STRIPE_SIZE :: int where "PFS2_STRIPE_SIZE = 131072"

definition pfs_io :: "int \<Rightarrow> trace_record \<Rightarrow> (('h, 'm) engine, unit) oprog" where
  "pfs_io stripe_size record0 s =
     (let dest_fp = (if stripe_size = PFS1_STRIPE_SIZE then e_fp1 s
                     else if stripe_size = PFS2_STRIPE_SIZE then e_fp2 s
                     else None)
      in if dest_fp = None \<or> e_fp1 s = None \<or> (0 \<le> tr_offset record0 \<and> e_fp2 s = None)
         then Some (Inl Undefined, s)
         else stream_io dest_fp record0 s)"

text \<open>The size reaches the Redis and MongoDB calls as an \<^verbatim>\<open>int\<close>.\<close>

definition int_size :: "size_t \<Rightarrow> int" where
  "int_size n = sint (ucast n :: int32)"

definition io_key :: "rand_fun \<Rightarrow> int \<Rightarrow> (('h, 'm) cworld, string) cprog" where
  "io_key rnd rank =
     cbind (crand rnd) (\<lambda>r. clift (sprintf_to 1024 (''test_'' @ show_d rank @ ''_'' @ show_d r)))"

definition redis_io ::
  "'h hircluster \<Rightarrow> rand_fun \<Rightarrow> int \<Rightarrow> trace_record \<Rightarrow> (('h, 'm) engine, unit) oprog" where
  "redis_io H rnd rank record0 s =
     (case e_buf s of
        None \<Rightarrow> Some (Inl Undefined, s)
      | Some buf \<Rightarrow>
          on_world (ototal (cbind (io_key rnd rank) (\<lambda>key.
            if tr_ops record0 = WRITE
            then engine_write_redis_sized H key buf (int_size (tr_size record0))
            else if tr_ops record0 = READ
            then cbind (engine_read_redis_sized H key buf (int_size (tr_size record0)))
                       (\<lambda>_. creturn ())
            else creturn ()))) s)"

definition mongo_io ::
  "'m mongoc \<Rightarrow> rand_fun \<Rightarrow> int \<Rightarrow> trace_record \<Rightarrow> (('h, 'm) engine, unit) oprog" where
  "mongo_io M rnd rank record0 s =
     (case e_buf s of
        None \<Rightarrow> Some (Inl Undefined, s)
      | Some buf \<Rightarrow>
          on_world (obind (ototal (io_key rnd rank)) (\<lambda>key.
            if tr_ops record0 = WRITE
            then engine_write_mongo_sized M key buf (int_size (tr_size record0))
            else if tr_ops record0 = READ
            then obind (ototal (engine_read_mongo_sized key buf (int_size (tr_size record0))))
                       (\<lambda>_. ototal (creturn ()))
            else ototal (creturn ()))) s)"

definition target_io ::
  "'h hircluster \<Rightarrow> 'm mongoc \<Rightarrow> rand_fun \<Rightarrow> int \<Rightarrow> string \<Rightarrow> trace_record \<Rightarrow>
   (('h, 'm) engine, unit) oprog" where
  "target_io H M rnd rank target record0 =
     (if target = ''PFS1'' then pfs1_io record0
      else if target = ''PFS2'' then pfs2_io record0
      else if target = ''REDIS'' then redis_io H rnd rank record0
      else if target = ''MONGO'' then mongo_io M rnd rank record0
      else ototal (creturn ()))"

text \<open>The loop of \<^verbatim>\<open>do_io\<close>: \<open>left\<close> more records.\<close>

fun replay ::
  "(trace_record \<Rightarrow> (('h, 'm) engine, unit) oprog) \<Rightarrow> nat \<Rightarrow> string \<Rightarrow> trace_record \<Rightarrow>
   (('h, 'm) engine, unit) oprog" where
  "replay io 0 trace record0 = ototal (creturn ())"
| "replay io (Suc left) trace record0 =
     (case next_trace_record trace record0 of
        Inl e \<Rightarrow> ototal (cfail e)
      | Inr (record1, rest) \<Rightarrow>
          obind (\<lambda>s. Some (Inr (), s\<lparr>e_total := e_total s + sint (tr_size record1)\<rparr>)) (\<lambda>_.
          obind (io record1) (\<lambda>_.
          replay io left rest record1)))"

definition do_io ::
  "'h hircluster \<Rightarrow> 'm mongoc \<Rightarrow> rand_fun \<Rightarrow> trace_record \<Rightarrow> string \<Rightarrow> string \<Rightarrow> int \<Rightarrow>
   (('h, 'm) engine, unit) oprog" where
  "do_io H M rnd junk_record target trace_file rank s =
     (case cw_files (e_world s) trace_file of
        None \<Rightarrow> obind (on_world (ototal (cprint (''Fail to open trace file '' @ trace_file))))
                      (\<lambda>_. ototal (cfail (Exit 205))) s
      | Some (trace, attrs) \<Rightarrow>
          obind (on_world (ototal (cprint (''Number of record: '' @ nat_to_string (get_record_count trace)))))
            (\<lambda>_. replay (target_io H M rnd rank target) (get_record_count trace - 1) trace junk_record) s)"

section \<open>Initialisation and finalisation\<close>

definition PFS_MAX_RETRY :: nat where "PFS_MAX_RETRY = 3"

text \<open>\<open>opens a\<close> tells whether the \<open>a\<close>-th \<^verbatim>\<open>fopen\<close> of a file succeeds; \<open>left\<close> retries remain.\<close>

fun open_retry :: "(nat \<Rightarrow> bool) \<Rightarrow> nat \<Rightarrow> nat \<Rightarrow> bool" where
  "open_retry opens a 0 = opens a"
| "open_retry opens a (Suc left) = (opens a \<or> open_retry opens (Suc a) left)"

definition PFS1_DEST_FILE :: string where "PFS1_DEST_FILE = ''/mnt/nvme/kfeng/pvfs2-mount/engine.dat''"
definition PFS2_DEST_FILE :: string where "PFS2_DEST_FILE = ''/mnt/nvme/kfeng/pvfs2-mount2/engine.dat''"

definition dest_name :: "string \<Rightarrow> int \<Rightarrow> string" where
  "dest_name base rank = base @ ''_'' @ show_d rank"

definition open_dest ::
  "(string \<Rightarrow> nat \<Rightarrow> bool) \<Rightarrow> string \<Rightarrow> string \<Rightarrow> int \<Rightarrow> (('h, 'm) engine, string) oprog" where
  "open_dest opens name label code =
     (if open_retry (opens name) 0 PFS_MAX_RETRY
      then (\<lambda>s. Some (Inr name, s\<lparr>e_world := file_append name [] (e_world s)\<rparr>))
      else obind (on_world (ototal (cprint (''Fail to open dest file '' @ name @ '' on '' @ label))))
                 (\<lambda>_. ototal (cfail (Exit code))))"

definition init_engine ::
  "'h hircluster \<Rightarrow> 'm mongoc \<Rightarrow> bool \<Rightarrow> int \<Rightarrow> (string \<Rightarrow> nat \<Rightarrow> bool) \<Rightarrow> string \<Rightarrow> int \<Rightarrow>
   string \<Rightarrow> string \<Rightarrow> int \<Rightarrow> (('h, 'm) engine, unit) oprog" where
  "init_engine H M harmless junk_ret opens hostname rank target redis_hosts max_req_size =
     obind (if target = [] \<or> target = ''PFS1''
            then obind (open_dest opens (dest_name PFS1_DEST_FILE rank) ''PFS1'' 201)
                       (\<lambda>name s. Some (Inr (), s\<lparr>e_fp1 := Some name\<rparr>))
            else ototal (creturn ())) (\<lambda>_.
     obind (if target = [] \<or> target = ''PFS2''
            then obind (open_dest opens (dest_name PFS2_DEST_FILE rank) ''PFS2'' 202)
                       (\<lambda>name s. Some (Inr (), s\<lparr>e_fp2 := Some name\<rparr>))
            else ototal (creturn ())) (\<lambda>_.
     obind (if target = [] \<or> target = ''REDIS''
            then obind (on_world (ototal (engine_connectToRedisServerWithHostfile H (Some redis_hosts))))
                   (\<lambda>cc. if cc then ototal (creturn ())
                          else obind (on_world (ototal (cprint ''Fail to connect to Redis server'')))
                                     (\<lambda>_. ototal (cfail (Exit 203))))
            else ototal (creturn ())) (\<lambda>_.
     obind (if target = [] \<or> target = ''MONGO''
            then obind (on_world (ototal (engine_connectToMongoDBServerMPI M harmless junk_ret hostname)))
                   (\<lambda>ret. if ret \<noteq> 1 then ototal (creturn ())
                           else obind (on_world (ototal (cprint ''Fail to connect to MongoDB server'')))
                                      (\<lambda>_. ototal (cfail (Exit 204))))
            else ototal (creturn ())) (\<lambda>_.
     obind (on_world (ototal (srand rank))) (\<lambda>_ s.
       Some (Inr (), s\<lparr>e_buf := engine_genstring max_req_size\<rparr>))))))"

text \<open>\<^verbatim>\<open>finalize\<close>: the streams are closed and the buffer is freed.\<close>

definition finalize_engine :: "(('h, 'm) engine, unit) oprog" where
  "finalize_engine s = Some (Inr (), s\<lparr>e_fp1 := None, e_fp2 := None, e_buf := None\<rparr>)"

section \<open>The program\<close>

record engine_arguments =
  ea_req_size :: int
  ea_count :: int
  ea_policy :: string
  ea_target :: string
  ea_trace_file :: "string option"
  ea_redis_hosts :: "string option"

text \<open>The defaults of \<^verbatim>\<open>main\<close>; \<^verbatim>\<open>trace_file\<close> is not initialised, \<^verbatim>\<open>redis_hosts\<close> is null.\<close>

definition default_engine_arguments :: engine_arguments where
  "default_engine_arguments =
     \<lparr>ea_req_size = -1, ea_count = -1, ea_policy = ''RANDOM'', ea_target = ''PFS1'',
      ea_trace_file = None, ea_redis_hosts = None\<rparr>"

text \<open>What \<^verbatim>\<open>argp_parse\<close> calls the parser with: options, positional arguments, the end.\<close>

datatype argp_event = Opt char string | Arg nat | End

definition engine_usage :: "engine_arguments res" where
  "engine_usage = Inl (Exit 64)"

definition engine_parse_opt :: "argp_event \<Rightarrow> engine_arguments \<Rightarrow> engine_arguments res" where
  "engine_parse_opt ev a =
     (case ev of
        Opt key arg \<Rightarrow>
          if key = CHR ''s'' then Inr (a\<lparr>ea_req_size := atoi arg\<rparr>)
          else if key = CHR ''c'' then Inr (a\<lparr>ea_count := atoi arg\<rparr>)
          else if key = CHR ''p'' then Inr (a\<lparr>ea_policy := arg\<rparr>)
          else if key = CHR ''t'' then Inr (a\<lparr>ea_target := arg\<rparr>)
          else if key = CHR ''f'' then Inr (a\<lparr>ea_trace_file := Some arg\<rparr>)
          else if key = CHR ''r'' then Inr (a\<lparr>ea_redis_hosts := Some arg\<rparr>)
          else engine_usage
      | Arg arg_num \<Rightarrow> if arg_num \<ge> 8 then engine_usage else Inr a
      | End \<Rightarrow> if ea_trace_file a = None then Inl Undefined
               else if ea_redis_hosts a = None then engine_usage else Inr a)"

fun engine_argp_parse :: "argp_event list \<Rightarrow> engine_arguments \<Rightarrow> engine_arguments res" where
  "engine_argp_parse [] a = engine_parse_opt End a"
| "engine_argp_parse (ev # evs) a = and_then (engine_parse_opt ev a) (engine_argp_parse evs)"

definition MAX_REQ_SIZE :: int where "MAX_REQ_SIZE = 256 * (1024 * 1024)"

text \<open>
  \<^verbatim>\<open>main\<close>: rank 0 parses the options and prints them; every rank gets the values by
  broadcast. \<open>realpath\<close> writes to buffers of 128 bytes.
\<close>

definition engine_config ::
  "(string \<Rightarrow> string) \<Rightarrow> argp_event list \<Rightarrow> (int \<times> string \<times> string \<times> string \<times> string) res" where
  "engine_config realpath evs =
     and_then (engine_argp_parse evs default_engine_arguments) (\<lambda>a.
       case (ea_trace_file a, ea_redis_hosts a) of
         (Some tf, Some rh) \<Rightarrow>
           and_then (sprintf_to 128 (ea_policy a)) (\<lambda>policy.
           and_then (sprintf_to 128 (ea_target a)) (\<lambda>target.
           and_then (sprintf_to 128 (realpath tf)) (\<lambda>trace_file.
           and_then (sprintf_to 128 (realpath rh)) (\<lambda>redis_hosts.
           Inr (ea_req_size a, policy, target, trace_file, redis_hosts)))))
       | _ \<Rightarrow> Inl Undefined)"

definition engine_main ::
  "'h hircluster \<Rightarrow> 'm mongoc \<Rightarrow> bool \<Rightarrow> int \<Rightarrow> (string \<Rightarrow> nat \<Rightarrow> bool) \<Rightarrow> string \<Rightarrow> (string \<Rightarrow> string) \<Rightarrow>
   rand_fun \<Rightarrow> trace_record \<Rightarrow> int \<Rightarrow> argp_event list \<Rightarrow> (('h, 'm) engine, int) oprog" where
  "engine_main H M harmless junk_ret opens hostname realpath rnd junk_record rank evs =
     (case engine_config realpath evs of
        Inl e \<Rightarrow> ototal (cfail e)
      | Inr (req_size, policy, target0, trace_file, redis_hosts) \<Rightarrow>
          obind (on_world (ototal (choose_target rnd policy target0))) (\<lambda>target.
          obind (init_engine H M harmless junk_ret opens hostname rank target redis_hosts
                   (if req_size < 0 then MAX_REQ_SIZE else req_size)) (\<lambda>_.
          obind (do_io H M rnd junk_record target trace_file rank) (\<lambda>_.
          obind finalize_engine (\<lambda>_.
          ototal (creturn 0))))))"

section \<open>The small drivers\<close>

text \<open>
  \<^verbatim>\<open>test_redis.c\<close>: 50000 writes of one random value under the keys \<^verbatim>\<open>base_rank_1\<close>, \<^verbatim>\<open>\<dots>\<close>; the
  result of the connection is not looked at.
\<close>

definition NUM_OPS_redis :: nat where "NUM_OPS_redis = 50000"
definition TEST_SIZE :: int where "TEST_SIZE = 32768"

definition rank_key :: "string \<Rightarrow> int \<Rightarrow> nat \<Rightarrow> string" where
  "rank_key key_base rank i = key_base @ ''_'' @ show_d rank @ ''_'' @ nat_to_string i"

definition test_redis_loop ::
  "'h hircluster \<Rightarrow> string \<Rightarrow> int \<Rightarrow> string \<Rightarrow> nat \<Rightarrow> (('h, 'm) cworld, unit) cprog" where
  "test_redis_loop H key_base rank value n =
     cfor 1 n (\<lambda>i. cbind (clift (sprintf_to 1024 (rank_key key_base rank i))) (\<lambda>key.
       engine_write_redis H key value))"

definition test_redis_main ::
  "'h hircluster \<Rightarrow> rand_fun \<Rightarrow> int \<Rightarrow> string list \<Rightarrow> (('h, 'm) cworld, int) cprog" where
  "test_redis_main H rnd rank argv =
     (case argv of
        [prog, base] \<Rightarrow>
          cbind (clift (sprintf_to 1024 base)) (\<lambda>key_base.
          cbind (engine_randstring rnd TEST_SIZE) (\<lambda>value.
          cbind (engine_connectToRedisServer H) (\<lambda>cc.
          cbind (srand 1) (\<lambda>_.
          case value of
            None \<Rightarrow> cfail Undefined
          | Some v \<Rightarrow> cbind (test_redis_loop H key_base rank v NUM_OPS_redis) (\<lambda>_. creturn 0)))))
      | _ \<Rightarrow> cbind (cprint ''Usage: key_base'') (\<lambda>_. cfail (Exit (-1))))"

text \<open>\<^verbatim>\<open>test_mongo.c\<close> after the options: \<open>count\<close> documents of \<open>req_size\<close> bytes.\<close>

definition test_mongo_body ::
  "'m mongoc \<Rightarrow> rand_fun \<Rightarrow> bytes \<Rightarrow> int \<Rightarrow> int \<Rightarrow> nat \<Rightarrow> (('h, 'm) cworld, unit) oprog" where
  "test_mongo_body M rnd buf req_size rank i =
     obind (ototal (cbind (crand rnd) (\<lambda>r.
       clift (sprintf_to 1024 (''test_'' @ show_d rank @ ''_'' @ show_d r @ ''_'' @ nat_to_string i))))) (\<lambda>key.
     engine_write_mongo_sized M key buf req_size)"

fun test_mongo_loop ::
  "'m mongoc \<Rightarrow> rand_fun \<Rightarrow> bytes \<Rightarrow> int \<Rightarrow> int \<Rightarrow> nat \<Rightarrow> nat \<Rightarrow> (('h, 'm) cworld, unit) oprog" where
  "test_mongo_loop M rnd buf req_size rank i 0 = ototal (creturn ())"
| "test_mongo_loop M rnd buf req_size rank i (Suc left) =
     obind (test_mongo_body M rnd buf req_size rank i) (\<lambda>_.
     test_mongo_loop M rnd buf req_size rank (Suc i) left)"

definition test_mongo_main ::
  "'m mongoc \<Rightarrow> bool \<Rightarrow> int \<Rightarrow> rand_fun \<Rightarrow> string \<Rightarrow> int \<Rightarrow> int \<Rightarrow> int \<Rightarrow> (('h, 'm) cworld, int) oprog" where
  "test_mongo_main M harmless junk_ret rnd hostname rank req_size count =
     (case int_ok (req_size * count) of
        Inl e \<Rightarrow> ototal (cfail e)
      | Inr total_size_per_rank \<Rightarrow>
          obind (ototal (engine_connectToMongoDBServerMPI M harmless junk_ret hostname)) (\<lambda>ret.
          obind (ototal (cbind (clift (and_then (int_ok (rank + count)) (\<lambda>a.
                                      and_then (int_ok (rank * count)) (\<lambda>b. int_ok (a + b))))) srand)) (\<lambda>_.
          if req_size < 0 then ototal (cfail Undefined)
          else obind (test_mongo_loop M rnd (replicate (nat req_size) (CHR ''A'')) req_size rank 0 (nat count))
                 (\<lambda>_. ototal (creturn 0)))))"

text \<open>
  The options of \<^verbatim>\<open>test_mongo.c\<close>. Its parser refuses positional arguments, and prints a null
  pointer for a policy or a target that is not given as glibc does.
\<close>

record mongo_arguments =
  ma_req_size :: int
  ma_count :: int
  ma_policy :: "string option"
  ma_target :: "string option"

definition default_mongo_arguments :: mongo_arguments where
  "default_mongo_arguments = \<lparr>ma_req_size = -1, ma_count = -1, ma_policy = None, ma_target = None\<rparr>"

definition mongo_parse_opt :: "argp_event \<Rightarrow> mongo_arguments \<Rightarrow> mongo_arguments res" where
  "mongo_parse_opt ev a =
     (case ev of
        Opt key arg \<Rightarrow>
          if key = CHR ''s'' then Inr (a\<lparr>ma_req_size := atoi arg\<rparr>)
          else if key = CHR ''c'' then Inr (a\<lparr>ma_count := atoi arg\<rparr>)
          else if key = CHR ''p'' then Inr (a\<lparr>ma_policy := Some arg\<rparr>)
          else if key = CHR ''t'' then Inr (a\<lparr>ma_target := Some arg\<rparr>)
          else Inl (Exit 64)
      | Arg arg_num \<Rightarrow> Inl (Exit 64)
      | End \<Rightarrow> Inr a)"

fun mongo_argp_parse :: "argp_event list \<Rightarrow> mongo_arguments \<Rightarrow> mongo_arguments res" where
  "mongo_argp_parse [] a = mongo_parse_opt End a"
| "mongo_argp_parse (ev # evs) a = and_then (mongo_parse_opt ev a) (mongo_argp_parse evs)"

definition or_null :: "string option \<Rightarrow> string" where
  "or_null s = (case s of None \<Rightarrow> ''(null)'' | Some t \<Rightarrow> t)"

definition test_mongo_program ::
  "'m mongoc \<Rightarrow> bool \<Rightarrow> int \<Rightarrow> rand_fun \<Rightarrow> string \<Rightarrow> int \<Rightarrow> argp_event list \<Rightarrow> (('h, 'm) cworld, int) oprog" where
  "test_mongo_program M harmless junk_ret rnd hostname rank evs =
     obind (ototal (clift (mongo_argp_parse evs default_mongo_arguments))) (\<lambda>a.
     obind (ototal (cbind (cprint (''Request size: '' @ show_d (ma_req_size a))) (\<lambda>_.
                    cbind (cprint (''Number of operations: '' @ show_d (ma_count a))) (\<lambda>_.
                    cbind (cprint (''Policy: '' @ or_null (ma_policy a))) (\<lambda>_.
                    cprint (''Target storage: '' @ or_null (ma_target a))))))) (\<lambda>_.
     test_mongo_main M harmless junk_ret rnd hostname rank (ma_req_size a) (ma_count a)))"

section \<open>Well-formed traces\<close>

text \<open>A trace line: an operation's name, an offset and a length.\<close>

type_synonym entry = "string \<times> int \<times> int"

definition trace_line :: "entry \<Rightarrow> string" where
  "trace_line e =
     (case e of (name, off, sz) \<Rightarrow>
        name @ '','' @ show_d off @ '','' @ show_d sz @ [CHR ''\<newline>''])"

definition trace_text :: "entry list \<Rightarrow> string" where
  "trace_text es = concat (map trace_line es)"

definition entry_ok :: "nat \<Rightarrow> entry \<Rightarrow> bool" where
  "entry_ok cap e \<longleftrightarrow>
     (case e of (name, off, sz) \<Rightarrow>
        name \<noteq> [] \<and> length name \<le> 900 \<and>
        (\<forall>c\<in>set name. c \<notin> {CHR '','', CHR ''\<newline>'', CHR 0x00, CHR 0xFF}) \<and>
        0 \<le> off \<and> off < 2 ^ 31 \<and> 0 \<le> sz \<and> sz \<le> int cap \<and> sz < 2 ^ 31)"

text \<open>The records of the lines; an unknown name repeats the operation before it.\<close>

fun trace_records :: "io_ops \<Rightarrow> entry list \<Rightarrow> trace_record list" where
  "trace_records old [] = []"
| "trace_records old ((name, off, sz) # es) =
     \<lparr>tr_ops = trace_op name old, tr_size = word_of_int sz, tr_offset = off\<rparr> #
     trace_records (trace_op name old) es"

fun run_records ::
  "(trace_record \<Rightarrow> (('h, 'm) engine, unit) oprog) \<Rightarrow> trace_record list \<Rightarrow> (('h, 'm) engine, unit) oprog" where
  "run_records io [] = ototal (creturn ())"
| "run_records io (r # rs) =
     obind (\<lambda>s. Some (Inr (), s\<lparr>e_total := e_total s + sint (tr_size r)\<rparr>)) (\<lambda>_.
     obind (io r) (\<lambda>_. run_records io rs))"

lemma next_tok_piece:
  "a \<noteq> [] \<Longrightarrow> d \<notin> set a \<Longrightarrow> next_tok d (a @ d # rest) = (Some a, rest)"
  by (simp add: next_tok_def strtok_token)

lemma next_tok_last:
  assumes "a \<noteq> []" "d \<notin> set a"
  shows "next_tok d a = (Some a, [])"
proof -
  have "dropWhile (\<lambda>c. c = d) a = a" using assms by (cases a) auto
  then show ?thesis using assms by (simp add: next_tok_def strtok_def takeWhile_until)
qed

lemma special_not_in_number:
  "CHR '','' \<notin> set (show_d i)" "CHR ''\<newline>'' \<notin> set (show_d i)" "CHR 0x00 \<notin> set (show_d i)"
  "CHR 0xFF \<notin> set (show_d i)"
  unfolding show_d_def by (rule no_char_in_int_to_string; simp add: is_digit_def)+

lemma next_trace_record_line:
  assumes "entry_ok cap (name, off, sz)"
  shows "next_trace_record (trace_line (name, off, sz) @ rest) r =
    Inr (\<lparr>tr_ops = trace_op name (tr_ops r), tr_size = word_of_int sz, tr_offset = off\<rparr>, rest)"
proof -
  let ?l = "name @ '','' @ show_d off @ '','' @ show_d sz"
  have name: "name \<noteq> []" "CHR '','' \<notin> set name" "CHR ''\<newline>'' \<notin> set name" "CHR 0x00 \<notin> set name"
    "length name \<le> 900" using assms by (auto simp: entry_ok_def)
  have num: "- (2 ^ 31) \<le> off" "off < 2 ^ 31" "- (2 ^ 31) \<le> sz" "sz < 2 ^ 31"
    using assms by (simp_all add: entry_ok_def)
  have len: "length ?l + 1 < 1024"
    using name(5) length_int_to_string_bound [OF num(1,2)] length_int_to_string_bound [OF num(3,4)]
    by (simp add: show_d_def)
  have nl: "CHR ''\<newline>'' \<notin> set ?l" using name(3) special_not_in_number(2) by simp
  have line: "fgets 1024 (trace_line (name, off, sz) @ rest) = Some (?l @ [CHR ''\<newline>''], rest)"
    using fgets_line [OF nl len, of rest] by (simp add: trace_line_def)
  have c: "cstr (?l @ [CHR ''\<newline>'']) = ?l @ [CHR ''\<newline>'']"
    using name(4) special_not_in_number(3) by (intro cstr_id) simp
  have t0: "next_tok (CHR '','') (?l @ [CHR ''\<newline>'']) =
      (Some name, show_d off @ CHR '','' # show_d sz @ [CHR ''\<newline>''])"
    using next_tok_piece [OF name(1,2)] by simp
  have t1: "next_tok (CHR '','') (show_d off @ CHR '','' # show_d sz @ [CHR ''\<newline>'']) =
      (Some (show_d off), show_d sz @ [CHR ''\<newline>''])"
    using special_not_in_number(1) by (intro next_tok_piece) (simp_all add: show_d_def)
  have t2: "next_tok (CHR '','') (show_d sz @ [CHR ''\<newline>'']) = (Some (show_d sz @ [CHR ''\<newline>'']), [])"
    using special_not_in_number(1) by (intro next_tok_last) simp_all
  have a1: "atoi (show_d off) = off" unfolding show_d_def by (rule atoi_int_to_string [OF num(1,2)])
  have a2: "atoi (show_d sz @ [CHR ''\<newline>'']) = sz"
    unfolding show_d_def by (rule atoi_append [OF num(3,4)]) (simp add: is_digit_def)
  show ?thesis unfolding next_trace_record_def line
    by (simp only: option.case prod.case c t0 t1 t2 Let_def tok_num_def a1 a2 and_then_simps)
qed

lemma replay_text:
  "\<forall>e\<in>set es. entry_ok cap e \<Longrightarrow> n \<le> length es \<Longrightarrow>
   replay io n (trace_text es) r = run_records io (take n (trace_records (tr_ops r) es))"
proof (induction es arbitrary: n r)
  case Nil
  then show ?case by simp
next
  case (Cons e es)
  obtain name off sz where e: "e = (name, off, sz)" by (cases e)
  show ?case
  proof (cases n)
    case 0
    then show ?thesis by simp
  next
    case (Suc k)
    let ?r = "\<lparr>tr_ops = trace_op name (tr_ops r), tr_size = word_of_int sz, tr_offset = off\<rparr>"
    have "next_trace_record (trace_text (e # es)) r = Inr (?r, trace_text es)"
      using Cons.prems(1) next_trace_record_line [of cap name off sz] by (simp add: e trace_text_def)
    moreover have "replay io k (trace_text es) ?r = run_records io (take k (trace_records (tr_ops ?r) es))"
      using Cons.prems Suc by (intro Cons.IH) simp_all
    ultimately show ?thesis by (simp add: Suc e)
  qed
qed

lemma trace_text_plain: "\<forall>e\<in>set es. entry_ok cap e \<Longrightarrow> CHR 0xFF \<notin> set (trace_text es)"
  by (induction es)
     (auto simp: trace_text_def trace_line_def entry_ok_def special_not_in_number split: prod.splits)

lemma count_lines:
  "\<forall>e\<in>set es. entry_ok cap e \<Longrightarrow>
   length (filter (\<lambda>c. c = CHR ''\<newline>'') (trace_text es)) = length es"
proof (induction es)
  case Nil
  then show ?case by (simp add: trace_text_def)
next
  case (Cons e es)
  obtain name off sz where e: "e = (name, off, sz)" by (cases e)
  have "filter (\<lambda>c. c = CHR ''\<newline>'') name = []" "filter (\<lambda>c. c = CHR ''\<newline>'') (show_d i) = []" for i
    using Cons.prems special_not_in_number(2) [of i] by (auto simp: e entry_ok_def filter_empty_conv)
  then show ?case using Cons by (simp add: trace_text_def trace_line_def e)
qed

lemma get_record_count_text: "\<forall>e\<in>set es. entry_ok cap e \<Longrightarrow> get_record_count (trace_text es) = length es"
  by (simp add: get_record_count_def takeWhile_until trace_text_plain count_lines)

lemma length_trace_records [simp]: "length (trace_records old es) = length es"
  by (induction old es rule: trace_records.induct) simp_all

section \<open>Replaying on a stream\<close>

definition stream_ready :: "nat \<Rightarrow> trace_record \<Rightarrow> bool" where
  "stream_ready cap r \<longleftrightarrow> 0 \<le> tr_offset r \<and> unat (tr_size r) \<le> cap"

definition written_size :: "trace_record list \<Rightarrow> nat" where
  "written_size rs = sum_list (map (\<lambda>r. if tr_ops r = WRITE then unat (tr_size r) else 0) rs)"

lemma file_content_append:
  "file_content (file_append name v w) name = file_content w name @ v"
  by (auto simp: file_content_def file_append_def split: option.splits)

text \<open>One record: the file grows by the size of a write and by nothing else.\<close>

lemma stream_io_step:
  assumes "stream_ready (length b) r" "e_buf s = Some b"
  shows "\<exists>s' b'. stream_io (Some name) r s = Some (Inr (), s') \<and> e_buf s' = Some b' \<and> length b' = length b \<and>
           e_fp1 s' = e_fp1 s \<and> e_fp2 s' = e_fp2 s \<and> e_total s' = e_total s \<and>
           prefix (file_content (e_world s) name) (file_content (e_world s') name) \<and>
           length (file_content (e_world s') name) = length (file_content (e_world s) name) + written_size [r]"
proof -
  have off: "\<not> tr_offset r < 0" and size: "unat (tr_size r) \<le> length b"
    using assms(1) by (simp_all add: stream_ready_def)
  have rd: "\<exists>b'. memcpy_at 0 (slice (nat (tr_offset r)) (unat (tr_size r)) (file_content (e_world s) name)) b =
              Some b' \<and> length b' = length b"
    using size by (auto simp: memcpy_at_def)
  have wr: "mem_read 0 (unat (tr_size r)) b = Some (take (unat (tr_size r)) b)"
    using size by (simp add: mem_read_def)
  show ?thesis
  proof (cases "tr_ops r = WRITE")
    case True
    then show ?thesis
      using off size wr assms(2)
      by (simp add: stream_io_def file_content_append written_size_def)
  next
    case False
    then show ?thesis
      using off rd assms(2) by (cases "tr_ops r = READ") (auto simp: stream_io_def written_size_def)
  qed
qed

lemma run_records_pfs1:
  "\<forall>r\<in>set rs. stream_ready (length b) r \<Longrightarrow> e_buf s = Some b \<Longrightarrow> e_fp1 s = Some name \<Longrightarrow>
   \<exists>s'. run_records pfs1_io rs s = Some (Inr (), s') \<and>
        prefix (file_content (e_world s) name) (file_content (e_world s') name) \<and>
        length (file_content (e_world s') name) = length (file_content (e_world s) name) + written_size rs \<and>
        e_total s' = e_total s + sum_list (map (\<lambda>r. sint (tr_size r)) rs)"
proof (induction rs arbitrary: s b)
  case Nil
  then show ?case by (simp add: ototal_def creturn_def written_size_def)
next
  case (Cons r rs)
  let ?s = "s\<lparr>e_total := e_total s + sint (tr_size r)\<rparr>"
  have "stream_ready (length b) r" "e_buf ?s = Some b" using Cons.prems by simp_all
  from stream_io_step [OF this, of name] obtain s1 b1 where
    s1: "stream_io (Some name) r ?s = Some (Inr (), s1)" "e_buf s1 = Some b1" "length b1 = length b"
    "e_fp1 s1 = e_fp1 ?s" "e_total s1 = e_total ?s"
    "prefix (file_content (e_world ?s) name) (file_content (e_world s1) name)"
    "length (file_content (e_world s1) name) = length (file_content (e_world ?s) name) + written_size [r]"
    by blast
  have ready: "\<forall>r\<in>set rs. stream_ready (length b1) r" and fp: "e_fp1 s1 = Some name"
    using Cons.prems s1(3,4) by simp_all
  obtain s2 where s2: "run_records pfs1_io rs s1 = Some (Inr (), s2)"
    "prefix (file_content (e_world s1) name) (file_content (e_world s2) name)"
    "length (file_content (e_world s2) name) = length (file_content (e_world s1) name) + written_size rs"
    "e_total s2 = e_total s1 + sum_list (map (\<lambda>r. sint (tr_size r)) rs)"
    using Cons.IH [OF ready s1(2) fp] by blast
  have "run_records pfs1_io (r # rs) s = run_records pfs1_io rs s1"
    using s1(1) Cons.prems(3) by (simp add: obind_def pfs1_io_def)
  moreover have "written_size (r # rs) = written_size [r] + written_size rs" by (simp add: written_size_def)
  moreover have "prefix (file_content (e_world s) name) (file_content (e_world s2) name)"
    using prefix_order.trans [OF s1(6) s2(2)] by simp
  ultimately show ?case using s1 s2 by (intro exI [of _ s2]) simp
qed

lemma trace_records_ready:
  "\<forall>e\<in>set es. entry_ok cap e \<Longrightarrow> \<forall>r\<in>set (trace_records old es). stream_ready cap r"
proof (induction old es rule: trace_records.induct)
  case (2 old name off sz es)
  have "unat (word_of_int sz :: size_t) \<le> cap"
    using 2(2) by (simp add: entry_ok_def unat_eq_nat_uint uint_word_of_int nat_le_iff)
  then show ?case using 2 by (simp add: stream_ready_def entry_ok_def)
qed simp

section \<open>Properties\<close>

text \<open>
  C39. Replaying a trace on the first parallel file system: the program handles every record
  but the last one of the trace; the destination file keeps what it had and grows by exactly
  the sizes of the writes among them, whatever their offsets; the total counts the same
  records.
\<close>

theorem engine_replay_appends:
  assumes "cw_files (e_world s) trace_file = Some (trace_text es, attrs)" "e_fp1 s = Some name"
    and "e_buf s = Some b" "\<forall>e\<in>set es. entry_ok (length b) e"
  shows "\<exists>s'. do_io H M rnd junk ''PFS1'' trace_file rank s = Some (Inr (), s') \<and>
           prefix (file_content (e_world s) name) (file_content (e_world s') name) \<and>
           length (file_content (e_world s') name) =
             length (file_content (e_world s) name) + written_size (butlast (trace_records (tr_ops junk) es)) \<and>
           e_total s' = e_total s +
             sum_list (map (\<lambda>r. sint (tr_size r)) (butlast (trace_records (tr_ops junk) es)))"
proof -
  let ?rs = "butlast (trace_records (tr_ops junk) es)"
  let ?out = "cw_out (e_world s) @ [''Number of record: '' @ nat_to_string (length es)]"
  let ?s = "s\<lparr>e_world := (e_world s)\<lparr>cw_out := ?out\<rparr>\<rparr>"
  have io: "target_io H M rnd rank ''PFS1'' = pfs1_io" by (rule ext) (simp add: target_io_def)
  have "replay (target_io H M rnd rank ''PFS1'') (length es - 1) (trace_text es) junk =
        run_records (target_io H M rnd rank ''PFS1'') ?rs"
    using replay_text [OF assms(4), of "length es - 1" "target_io H M rnd rank ''PFS1''" junk]
    by (simp add: butlast_conv_take)
  then have run: "do_io H M rnd junk ''PFS1'' trace_file rank s = run_records pfs1_io ?rs ?s"
    using assms(1) get_record_count_text [OF assms(4)]
    by (simp add: do_io_def obind_def on_world_def ototal_def cprint_def io)
  have "\<forall>r\<in>set ?rs. stream_ready (length b) r"
    using trace_records_ready [OF assms(4)] by (auto dest: in_set_butlastD)
  from run_records_pfs1 [OF this, of ?s name] assms(2,3) run show ?thesis
    by (simp add: file_content_def)
qed

definition ref_engine :: "(string \<Rightarrow> bytes option, string \<Rightarrow> document option) engine" where
  "ref_engine =
     \<lparr>e_world = (ref_cworld (\<lambda>_. None) (\<lambda>_. None))\<lparr>cw_files := (\<lambda>n. if n = ''trace'' then
        Some (trace_text [(''WRITE'', 5, 3), (''READ'', 0, 2), (''WRITE'', 0, 1)], \<lambda>_. None) else None)\<rparr>,
      e_fp1 = Some ''dest'', e_fp2 = None, e_buf = engine_genstring 7, e_total = 0\<rparr>"

theorem engine_replay_appends_witness:
  "\<exists>s'. do_io ref_hircluster ref_mongoc (\<lambda>_ _. 0)
          \<lparr>tr_ops = OPEN, tr_size = 0, tr_offset = 0\<rparr> ''PFS1'' ''trace'' 0 ref_engine = Some (Inr (), s') \<and>
        length (file_content (e_world s') ''dest'') = 3 \<and> e_total s' = 5"
proof -
  have names: "trace_op ''WRITE'' x = WRITE" "trace_op ''READ'' x = READ" for x
    by (simp_all add: trace_op_def strstr_def)
  show ?thesis
    using engine_replay_appends [of ref_engine "''trace''" "[(''WRITE'', 5, 3), (''READ'', 0, 2), (''WRITE'', 0, 1)]"
        "\<lambda>_. None" "''dest''" "replicate 8 (CHR ''A'')" ref_hircluster ref_mongoc "\<lambda>_ _. 0"
        "\<lparr>tr_ops = OPEN, tr_size = 0, tr_offset = 0\<rparr>" 0]
    by (auto simp: ref_engine_def ref_cworld_def engine_genstring_def entry_ok_def file_content_def written_size_def names)
qed

text \<open>
  A target chosen by the random or the round-robin policy is one of the four only when the
  random number modulo 128 is below 4; otherwise the name is copied from outside the list.
\<close>

theorem engine_policy_out_of_list:
  assumes "policy = ''RANDOM'' \<or> policy = ''ROUND-ROBIN''"
  shows "fst (choose_target rnd policy [] w) =
    (if rnd (cw_seed w) (cw_calls w) mod 128 < 4
     then Inr (target_stor_list ! nat (rnd (cw_seed w) (cw_calls w) mod 128)) else Inl Undefined)"
  using assms
  by (auto simp: choose_target_def select_target_def policy_random_def policy_roundrobin_def cbind_def
      crand_def creturn_def cfail_def sizeof_target_stor_list_def target_stor_list_def)

theorem engine_policy_out_of_list_witness:
  "fst (choose_target (\<lambda>_ _. 1804289383) ''RANDOM'' [] (ref_cworld () ())) = Inl Undefined"
  by (subst engine_policy_out_of_list) (simp_all add: ref_cworld_def)

text \<open>C35. A destination file is opened iff one of the first four attempts succeeds.\<close>

theorem engine_open_retries:
  "open_retry opens 0 PFS_MAX_RETRY \<longleftrightarrow> (\<exists>a<4. opens a)"
  by (auto simp: PFS_MAX_RETRY_def numeral_eq_Suc less_Suc_eq)


text \<open>
  Without \<^verbatim>\<open>-s\<close> the MongoDB driver fills a buffer of -1 bytes, and without \<^verbatim>\<open>-c\<close> it inserts nothing:
  the defaults are not usable values.
\<close>

theorem test_mongo_needs_size:
  assumes "\<forall>ev \<in> set evs. \<exists>key arg. ev = Opt key arg \<and> key \<in> {CHR ''c'', CHR ''p'', CHR ''t''}"
  shows "test_mongo_program M harmless junk_ret rnd hostname rank evs w \<noteq> Some (Inr r, w')"
proof -
  have "\<exists>a'. mongo_argp_parse evs a = Inr a' \<and> ma_req_size a' = ma_req_size a" for a
    using assms
  proof (induction evs arbitrary: a)
    case (Cons ev evs)
    obtain a1 where "mongo_parse_opt ev a = Inr a1" "ma_req_size a1 = ma_req_size a"
      using Cons.prems by (auto simp: mongo_parse_opt_def)
    moreover obtain a2 where "mongo_argp_parse evs a1 = Inr a2" "ma_req_size a2 = ma_req_size a1"
      using Cons.IH [of a1] Cons.prems by auto
    ultimately show ?case by simp
  qed (simp add: mongo_parse_opt_def)
  from this [of default_mongo_arguments] obtain a
    where a: "mongo_argp_parse evs default_mongo_arguments = Inr a" "ma_req_size a = -1"
    by (auto simp: default_mongo_arguments_def)
  have "test_mongo_main M harmless junk_ret rnd hostname rank (-1) n w1 \<noteq> Some (Inr r, w')" for n w1
    by (auto simp: test_mongo_main_def obind_def ototal_def cfail_def split: sum.splits option.splits prod.splits)
  then show ?thesis
    using a by (auto simp: test_mongo_program_def obind_def ototal_def clift_def split: sum.splits option.splits prod.splits)
qed


text \<open>
  With both streams open \<^verbatim>\<open>pfs_io\<close> does what the two functions do that replaced it. After the
  initialisation for one of the two targets the other stream is null, and \<^verbatim>\<open>pfs_io\<close> passes it to
  \<^verbatim>\<open>fseek\<close>.
\<close>

lemma pfs_io_both_open:
  assumes "e_fp1 s = Some a" "e_fp2 s = Some b"
  shows "pfs_io PFS1_STRIPE_SIZE r s = pfs1_io r s" "pfs_io PFS2_STRIPE_SIZE r s = pfs2_io r s"
  using assms by (simp_all add: pfs_io_def pfs1_io_def pfs2_io_def Let_def PFS1_STRIPE_SIZE_def PFS2_STRIPE_SIZE_def)

lemma on_world_fp2: "on_world q s = Some (r, s') \<Longrightarrow> e_fp2 s' = e_fp2 s"
  by (auto simp: on_world_def split: option.splits)

lemma pfs_io_one_stream:
  assumes "init_engine H M harmless junk_ret opens hostname rank ''PFS1'' redis_hosts max_req_size s = Some (Inr (), s')"
    and "e_fp2 s = None" "0 \<le> tr_offset r"
  shows "pfs_io stripe_size r s' = Some (Inl Undefined, s')"
proof -
  have "e_fp2 s' = None"
    using assms(1,2)
    by (auto simp: init_engine_def obind_def ototal_def open_dest_def creturn_def cfail_def
        dest: on_world_fp2 split: option.splits sum.splits prod.splits if_splits)
  then show ?thesis using assms(3) by (simp add: pfs_io_def Let_def)
qed

text \<open>When \<^verbatim>\<open>main\<close> returns, the streams are closed and the buffer is freed.\<close>

lemma engine_main_finalized:
  assumes "engine_main H M harmless junk_ret opens hostname realpath rnd junk_record rank evs s = Some (Inr x, s')"
  shows "x = 0" "e_fp1 s' = None" "e_fp2 s' = None" "e_buf s' = None"
  using assms
  by (auto simp: engine_main_def obind_def ototal_def creturn_def cfail_def finalize_engine_def
      split: option.splits sum.splits prod.splits)

end
