(* ===== verification/Colocation.thy ===== *)
theory Colocation
  imports Engine
begin

text \<open>
  \<^verbatim>\<open>src/old/colocation/Redis\<close>: a program that loads the data a trace reads into a Redis
  cluster (\<^verbatim>\<open>prepare_data_redis\<close>) and then replays the trace against it until a time limit
  (\<^verbatim>\<open>replay_trace_redis\<close>, \<^verbatim>\<open>main.c\<close>). A null reply is what hiredis-vip returns together with an
  error in the context. The times of the replays are an argument of \<^verbatim>\<open>main\<close>.
\<close>

section \<open>redis.c\<close>

definition colo_charset :: string where
  "colo_charset = ''abcdefghijklmnopqrstuvwxyzABCDEFGHIJKLMNOPQRSTUVWXYZ0123456789''"

definition colo_randstring :: "rand_fun \<Rightarrow> int \<Rightarrow> (('h, 'm) cworld, string option) cprog" where
  "colo_randstring = randstring_from colo_charset"

definition colo_node :: "nat \<Rightarrow> string" where
  "colo_node i =
     ''ares-stor-'' @ show_02d (if i > 1 then 16 + i + 1 else 16 + i) @ ''-40g:'' @ nat_to_string (7000 + i)"

definition redis_node_count :: nat where "redis_node_count = 16"

fun colo_nodes :: "nat \<Rightarrow> nat \<Rightarrow> string \<Rightarrow> string res" where
  "colo_nodes i 0 nodelist = Inr nodelist"
| "colo_nodes i (Suc left) nodelist =
     and_then (sprintf_to 32 (colo_node i)) (\<lambda>tmp.
     and_then (strcat_to 512 nodelist tmp) (\<lambda>nodelist.
     and_then (if i \<noteq> redis_node_count - 1 then strcat_to 512 nodelist '','' else Inr nodelist) (\<lambda>nodelist.
     colo_nodes (Suc i) left nodelist)))"

definition redis_init :: "'h hircluster \<Rightarrow> int \<Rightarrow> (('h, 'm) cworld, int) cprog" where
  "redis_init H rank =
     cbind (clift (colo_nodes 0 redis_node_count [])) (\<lambda>nodelist.
     cbind (if rank = 0 then cprint (''Redis node list: '' @ nodelist) else creturn ()) (\<lambda>_.
     case hc_connect H nodelist of
       Some errstr \<Rightarrow> cbind (cprint (''Fail to connect to Redis server: '' @ errstr))
                            (\<lambda>_. cfail (Exit (-1)))
     | None \<Rightarrow> creturn 0))"

text \<open>\<^verbatim>\<open>getline\<close>: the next line with its newline, and the rest.\<close>

definition getline :: "string \<Rightarrow> (string \<times> string) option" where
  "getline s =
     (if s = [] then None
      else Some (case dropWhile (\<lambda>c. c \<noteq> CHR ''\<newline>'') s of
                   [] \<Rightarrow> (s, [])
                 | c # rest \<Rightarrow> (takeWhile (\<lambda>c. c \<noteq> CHR ''\<newline>'') s @ [c], rest)))"

lemma getline_shorter: "getline s = Some (l, r) \<Longrightarrow> length r < length s"
proof -
  assume g: "getline s = Some (l, r)"
  have "length (dropWhile (\<lambda>c. c \<noteq> CHR ''\<newline>'') s) \<le> length s" by (rule length_dropWhile_le)
  with g show ?thesis by (auto simp: getline_def split: if_splits list.splits)
qed

text \<open>The operation, offset and size of a line.\<close>

definition line_fields :: "string \<Rightarrow> (string \<times> int64 \<times> size_t) res" where
  "line_fields line =
     (let (t0, r0) = next_tok (CHR '','') (cstr line);
          (t1, r1) = next_tok (CHR '','') r0;
          (t2, r2) = next_tok (CHR '','') r1
      in case (t0, t1, t2) of
           (Some operation, Some off, Some sz) \<Rightarrow>
             Inr (operation, word_of_int (atol off), word_of_int (atol sz))
         | _ \<Rightarrow> Inl Undefined)"

definition colo_key :: "int64 \<Rightarrow> size_t \<Rightarrow> int \<Rightarrow> string" where
  "colo_key off sz rank = show_d64 off @ ''_'' @ show_d64 sz @ ''_'' @ show_d rank"

text \<open>Putting a random value of the requested size under the key of the request.\<close>

definition put_data ::
  "'h hircluster \<Rightarrow> rand_fun \<Rightarrow> int64 \<Rightarrow> size_t \<Rightarrow> int \<Rightarrow> (('h, 'm) cworld, unit) cprog" where
  "put_data H rnd off sz rank =
     cbind (colo_randstring rnd (sint sz)) (\<lambda>writebuf.
     cbind (clift (sprintf_to 128 (colo_key off sz rank))) (\<lambda>key w.
       case writebuf of
         None \<Rightarrow> (Inl Undefined, w)
       | Some v \<Rightarrow>
           (case hc_set H key v (cw_redis w) of
              (reply, h') \<Rightarrow>
                let w' = w\<lparr>cw_redis := h'\<rparr>
                in case reply of
                     NullReply \<Rightarrow> cbind (cprint ''Fail to put data'') (\<lambda>_. cfail (Exit (-1))) w'
                   | NilReply \<Rightarrow> (Inl Undefined, w')
                   | Reply s \<Rightarrow>
                       if cstr s \<noteq> ''OK''
                       then cbind (cprint (''Fail to put key: '' @ key)) (\<lambda>_. cfail (Exit (-1))) w'
                       else (Inr (), w'))))"

function prepare_lines ::
  "'h hircluster \<Rightarrow> rand_fun \<Rightarrow> int \<Rightarrow> string \<Rightarrow> (('h, 'm) cworld, unit) cprog" where
  "prepare_lines H rnd rank trace =
     (case getline trace of
        None \<Rightarrow> creturn ()
      | Some (line, rest) \<Rightarrow>
          if length line < 4 then creturn ()
          else cbind (clift (line_fields line)) (\<lambda>(operation, off, sz).
               cbind (if operation = ''READ'' \<and> sz \<noteq> 0 then put_data H rnd off sz rank
                      else creturn ()) (\<lambda>_.
               prepare_lines H rnd rank rest)))"
  by pat_completeness auto
termination
  by (relation "measure (\<lambda>(H, rnd, rank, trace). length trace)") (auto dest: getline_shorter)

declare prepare_lines.simps [simp del]

definition prepare_data_redis ::
  "'h hircluster \<Rightarrow> rand_fun \<Rightarrow> string \<Rightarrow> int \<Rightarrow> (('h, 'm) cworld, int) cprog" where
  "prepare_data_redis H rnd trace_file rank w =
     (case cw_files w trace_file of
        None \<Rightarrow> (Inr (-1), w)
      | Some (trace, attrs) \<Rightarrow> cbind (prepare_lines H rnd rank trace) (\<lambda>_. creturn 0) w)"

text \<open>\<^verbatim>\<open>reply->len\<close> is 0 in a nil reply.\<close>

definition check_data ::
  "'h hircluster \<Rightarrow> int64 \<Rightarrow> size_t \<Rightarrow> int \<Rightarrow> (('h, 'm) cworld, unit) cprog" where
  "check_data H off sz rank =
     cbind (clift (sprintf_to 128 (colo_key off sz rank))) (\<lambda>key w.
       case hc_get H key (cw_redis w) of
         NullReply \<Rightarrow> (Inl Undefined, w)
       | reply \<Rightarrow>
           let len = (case reply of Reply v \<Rightarrow> length v | _ \<Rightarrow> 0)
           in if len \<noteq> unat sz
              then cbind (cprint ''Something is wrong during replaying read'') (\<lambda>_. cfail (Exit (-1))) w
              else (Inr (), w))"

function replay_lines ::
  "'h hircluster \<Rightarrow> rand_fun \<Rightarrow> int \<Rightarrow> string \<Rightarrow> size_t \<Rightarrow> (('h, 'm) cworld, size_t) cprog" where
  "replay_lines H rnd rank trace total_size =
     (case getline trace of
        None \<Rightarrow> creturn total_size
      | Some (line, rest) \<Rightarrow>
          if length line < 4 then creturn total_size
          else cbind (clift (line_fields line)) (\<lambda>(operation, off, sz).
               cbind (if operation = ''WRITE''
                      then (if sz \<noteq> 0 then put_data H rnd off sz rank else creturn ())
                      else if operation = ''READ'' then check_data H off sz rank
                      else creturn ()) (\<lambda>_.
               replay_lines H rnd rank rest (total_size + sz))))"
  by pat_completeness auto
termination
  by (relation "measure (\<lambda>(H, rnd, rank, trace, total_size). length trace)") (auto dest: getline_shorter)

declare replay_lines.simps [simp del]

definition replay_trace_redis ::
  "'h hircluster \<Rightarrow> rand_fun \<Rightarrow> string \<Rightarrow> int \<Rightarrow> (('h, 'm) cworld, size_t) cprog" where
  "replay_trace_redis H rnd trace_file rank w =
     (case cw_files w trace_file of
        None \<Rightarrow> (Inr (-1), w)
      | Some (trace, attrs) \<Rightarrow> replay_lines H rnd rank trace 0 w)"

section \<open>main.c\<close>

text \<open>The replays: \<open>took k\<close> is how long the \<open>k\<close>-th takes.\<close>

partial_function (option) replay_until ::
  "(('h, 'm) cworld, size_t) cprog \<Rightarrow> (nat \<Rightarrow> int) \<Rightarrow> int \<Rightarrow> nat \<Rightarrow> int \<Rightarrow> ('h, 'm) cworld \<Rightarrow>
   (size_t res \<times> ('h, 'm) cworld) option" where
  "replay_until replay_once took time_limit k duration w =
     (case replay_once w of
        (Inl e, w') \<Rightarrow> Some (Inl e, w')
      | (Inr total_size, w') \<Rightarrow>
          if duration + took k > time_limit then Some (Inr total_size, w')
          else replay_until replay_once took time_limit (Suc k) (duration + took k) w')"

text \<open>
  With \<^verbatim>\<open>prepare_only\<close> nothing is replayed, and rank 0 then prints the uninitialised
  \<^verbatim>\<open>total_size\<close>.
\<close>

definition colo_main ::
  "'h hircluster \<Rightarrow> rand_fun \<Rightarrow> (nat \<Rightarrow> int) \<Rightarrow> int \<Rightarrow> string list \<Rightarrow> (('h, 'm) cworld, int) oprog" where
  "colo_main H rnd took rank argv =
     (case argv of
        [prog, trace_file, limit, only] \<Rightarrow>
          obind (ototal (redis_init H rank)) (\<lambda>_.
          obind (ototal (prepare_data_redis H rnd trace_file rank)) (\<lambda>_.
          if atoi only = 0
          then obind (replay_until (replay_trace_redis H rnd trace_file rank) took (atoi limit) 0 0)
                     (\<lambda>total_size. ototal (creturn 0))
          else if rank = 0 then ototal (cfail Undefined) else ototal (creturn 0)))
      | _ \<Rightarrow> ototal (cbind (cprint ''Usage: trace_file time_limit prepare_only'')
                             (\<lambda>_. cfail (Exit (-1)))))"

section \<open>Well-formed traces\<close>

definition colo_entry_ok :: "entry \<Rightarrow> bool" where
  "colo_entry_ok e \<longleftrightarrow>
     (case e of (name, off, sz) \<Rightarrow>
        name \<noteq> [] \<and> (\<forall>c\<in>set name. c \<notin> {CHR '','', CHR ''\<newline>'', CHR 0x00}) \<and>
        - (2 ^ 63) \<le> off \<and> off < 2 ^ 63 \<and> 0 \<le> sz \<and> sz \<le> 512 * 1024 * 1024)"

lemma getline_line:
  "CHR ''\<newline>'' \<notin> set l \<Longrightarrow> getline (l @ CHR ''\<newline>'' # rest) = Some (l @ [CHR ''\<newline>''], rest)"
proof -
  assume l: "CHR ''\<newline>'' \<notin> set l"
  have "takeWhile (\<lambda>c. c \<noteq> CHR ''\<newline>'') (l @ CHR ''\<newline>'' # rest) = l"
    using l by (subst takeWhile_append2) auto
  moreover have "dropWhile (\<lambda>c. c \<noteq> CHR ''\<newline>'') (l @ CHR ''\<newline>'' # rest) = CHR ''\<newline>'' # rest"
    using l by (subst dropWhile_append2) auto
  ultimately show ?thesis unfolding getline_def by (simp only: list.case append_is_Nil_conv) simp
qed

lemma line_fields_line:
  assumes "colo_entry_ok (name, off, sz)"
  shows "line_fields (trace_line (name, off, sz)) = Inr (name, word_of_int off, word_of_int sz)"
proof -
  let ?l = "name @ '','' @ show_d off @ '','' @ show_d sz"
  have name: "name \<noteq> []" "CHR '','' \<notin> set name" "CHR ''\<newline>'' \<notin> set name" "CHR 0x00 \<notin> set name"
    using assms by (auto simp: colo_entry_ok_def)
  have num: "- (2 ^ 63) \<le> off" "off < 2 ^ 63" "- (2 ^ 63) \<le> sz" "sz < 2 ^ 63"
    using assms by (simp_all add: colo_entry_ok_def)
  have c: "cstr (?l @ [CHR ''\<newline>'']) = ?l @ [CHR ''\<newline>'']"
    using name(4) special_not_in_number(3) by (intro cstr_id) simp
  have t0: "next_tok (CHR '','') (?l @ [CHR ''\<newline>'']) =
      (Some name, show_d off @ CHR '','' # show_d sz @ [CHR ''\<newline>''])"
    using next_tok_piece [OF name(1,2)] by simp
  have t1: "next_tok (CHR '','') (show_d off @ CHR '','' # show_d sz @ [CHR ''\<newline>'']) =
      (Some (show_d off), show_d sz @ [CHR ''\<newline>''])"
    using special_not_in_number(1) by (intro next_tok_piece) (simp_all add: show_d_def)
  have t2: "next_tok (CHR '','') (show_d sz @ [CHR ''\<newline>'']) = (Some (show_d sz @ [CHR ''\<newline>'']), [])"
    using special_not_in_number(1) by (intro next_tok_last) simp_all
  have a1: "atol (show_d off) = off" unfolding show_d_def by (rule atol_int_to_string [OF num(1,2)])
  have a2: "atol (show_d sz @ [CHR ''\<newline>'']) = sz"
    using num(3,4) decimal_prefix_append [of "CHR ''\<newline>''" sz "[]"]
    by (simp add: show_d_def atol_def is_digit_def)
  have "trace_line (name, off, sz) = ?l @ [CHR ''\<newline>'']" by (simp add: trace_line_def)
  then show ?thesis unfolding line_fields_def
    by (simp only: c t0 t1 t2 Let_def prod.case option.case a1 a2)
qed

text \<open>Reading the next line of a trace of entries.\<close>

lemma getline_entry:
  assumes "colo_entry_ok e"
  shows "getline (trace_line e @ rest) = Some (trace_line e, rest)" "\<not> length (trace_line e) < 4"
proof -
  obtain name off sz where e: "e = (name, off, sz)" by (cases e)
  let ?l = "name @ '','' @ show_d off @ '','' @ show_d sz"
  have "CHR ''\<newline>'' \<notin> set ?l"
    using assms special_not_in_number(2) by (auto simp: e colo_entry_ok_def)
  then show "getline (trace_line e @ rest) = Some (trace_line e, rest)"
    using getline_line [of ?l rest] by (simp add: e trace_line_def)
  have "length name \<ge> 1" "length (show_d off) \<ge> 1" "length (show_d sz) \<ge> 1"
    using assms by (auto simp: e colo_entry_ok_def show_d_def Suc_le_eq)
  then show "\<not> length (trace_line e) < 4" by (auto simp: e trace_line_def)
qed

lemma prepare_lines_step:
  assumes "colo_entry_ok (name, off, sz)"
  shows "prepare_lines H rnd rank (trace_text ((name, off, sz) # es)) =
    cbind (if name = ''READ'' \<and> word_of_int sz \<noteq> (0 :: size_t)
           then put_data H rnd (word_of_int off) (word_of_int sz) rank else creturn ())
      (\<lambda>_. prepare_lines H rnd rank (trace_text es))"
  using getline_entry [OF assms] line_fields_line [OF assms]
  by (subst prepare_lines.simps) (simp add: trace_text_def)

lemma replay_lines_step:
  assumes "colo_entry_ok (name, off, sz)"
  shows "replay_lines H rnd rank (trace_text ((name, off, sz) # es)) tot =
    cbind (if name = ''WRITE''
           then (if word_of_int sz \<noteq> (0 :: size_t)
                 then put_data H rnd (word_of_int off) (word_of_int sz) rank else creturn ())
           else if name = ''READ'' then check_data H (word_of_int off) (word_of_int sz) rank
           else creturn ())
      (\<lambda>_. replay_lines H rnd rank (trace_text es) (tot + word_of_int sz))"
  using getline_entry [OF assms] line_fields_line [OF assms]
  by (subst replay_lines.simps) (simp add: trace_text_def)

lemma lines_end:
  "prepare_lines H rnd rank (trace_text []) = creturn ()"
  "replay_lines H rnd rank (trace_text []) tot = creturn tot"
  by (subst prepare_lines.simps replay_lines.simps, simp add: trace_text_def getline_def)+

section \<open>What the cluster holds\<close>

lemma randchars_length:
  "\<exists>v c. randchars rnd chars n w = (Inr v, w\<lparr>cw_calls := c\<rparr>) \<and> length v = n"
proof (induction n arbitrary: w)
  case 0
  then show ?case by (auto simp: creturn_def intro: exI [of _ "cw_calls w"])
next
  case (Suc n)
  obtain v c where "randchars rnd chars n (w\<lparr>cw_calls := Suc (cw_calls w)\<rparr>) =
      (Inr v, w\<lparr>cw_calls := Suc (cw_calls w), cw_calls := c\<rparr>)" "length v = n"
    using Suc by blast
  then show ?case by (simp add: cbind_def crand_def creturn_def) blast
qed

lemma sint_small:
  assumes "unat sz < 2 ^ 63"
  shows "sint (sz :: size_t) = int (unat sz)"
proof -
  define n where "n = unat sz"
  then have "sint sz = signed_take_bit 63 (int n)"
    using signed_of_nat [where 'a = int and 'b = 64, of n] by simp
  also have "\<dots> = int n"
  proof (rule signed_take_bit_int_eq_self)
    have "n < 2 ^ 63" using assms n_def by simp
    then show "- (2 ^ 63) \<le> int n" "int n < 2 ^ 63" by simp_all
  qed
  finally show ?thesis by (simp only: n_def)
qed

lemma colo_randstring_length:
  assumes "0 < n"
  shows "\<exists>v c. colo_randstring rnd (int n) w = (Inr (Some v), w\<lparr>cw_calls := c\<rparr>) \<and> length v = n"
proof -
  obtain v c where "randchars rnd colo_charset n w = (Inr v, w\<lparr>cw_calls := c\<rparr>)" "length v = n"
    using randchars_length by blast
  then show ?thesis
    using assms by (simp add: colo_randstring_def randstring_from_def cbind_def creturn_def) blast
qed

lemma colo_key_fits: "in_int32 rank \<Longrightarrow> sprintf_to 128 (colo_key off sz rank) = Inr (colo_key off sz rank)"
  using length_show_d64 [of off] length_show_d64 [of sz] length_int_to_string_bound [of rank]
  by (intro sprintf_to_fits) (simp add: colo_key_def show_d_def in_int32_def)

lemma low_half_inject:
  assumes "unat a < 2 ^ 31" "unat b < 2 ^ 31" "show_d64 a = show_d64 b"
  shows "a = b"
  using assms low_half_identity unfolding show_d64_def by (metis int_to_string_inject)

text \<open>Requests with different sizes have different keys.\<close>

lemma colo_key_size:
  assumes "colo_key off sz rank = colo_key off' sz' rank" "unat sz < 2 ^ 31" "unat sz' < 2 ^ 31"
  shows "sz = sz'"
proof -
  have us: "CHR ''_'' \<notin> set (int_to_string i)" for i
    by (rule no_char_in_int_to_string) (simp_all add: is_digit_def)
  have "(show_d64 off @ CHR ''_'' # show_d64 sz) @ CHR ''_'' # show_d rank =
        (show_d64 off' @ CHR ''_'' # show_d64 sz') @ CHR ''_'' # show_d rank"
    using assms(1) by (simp add: colo_key_def)
  then have "show_d64 off @ CHR ''_'' # show_d64 sz = show_d64 off' @ CHR ''_'' # show_d64 sz'"
    by simp
  then have "show_d64 sz = show_d64 sz'"
    using last_field_inject [OF us us] unfolding show_d64_def by blast
  then show ?thesis by (rule low_half_inject [OF assms(2,3)])
qed

definition loaded :: "'h hircluster \<Rightarrow> int \<Rightarrow> (int64 \<times> size_t) set \<Rightarrow> 'h \<Rightarrow> bool" where
  "loaded H rank S h \<longleftrightarrow>
     (\<forall>(off, sz)\<in>S. \<exists>v. hc_get H (colo_key off sz rank) h = Reply v \<and> length v = unat sz) \<and>
     (\<forall>off. hc_get H (colo_key off 0 rank) h = NilReply)"

lemma put_data_loads:
  assumes "hircluster_ok H up" "up (cw_redis w)" "in_int32 rank" "sz \<noteq> 0" "unat sz \<le> 512 * 1024 * 1024"
    and "loaded H rank S (cw_redis w)" "\<forall>(o', s')\<in>S. unat s' < 2 ^ 31"
  shows "\<exists>h' c. put_data H rnd off sz rank w = (Inr (), w\<lparr>cw_calls := c, cw_redis := h'\<rparr>) \<and> up h' \<and>
                loaded H rank (insert (off, sz) S) h'"
proof -
  have pos: "0 < unat sz" using assms(4) by (simp add: unat_gt_0)
  have sint: "sint sz = int (unat sz)" using assms(5) by (intro sint_small) simp
  obtain v c where rs: "colo_randstring rnd (sint sz) w = (Inr (Some v), w\<lparr>cw_calls := c\<rparr>)"
    and v: "length v = unat sz"
    using colo_randstring_length [OF pos] unfolding sint by metis
  let ?k = "colo_key off sz rank"
  have "length v \<le> 512 * 1024 * 1024" using v assms(5) by simp
  then obtain h' where h': "hc_set H ?k v (cw_redis w) = (Reply ''OK'', h')" "up h'"
    "\<And>k'. hc_get H k' h' = (if k' = ?k then Reply v else hc_get H k' (cw_redis w))"
    using hircluster_set [OF assms(1,2)] by metis
  have "put_data H rnd off sz rank w = (Inr (), w\<lparr>cw_calls := c, cw_redis := h'\<rparr>)"
    using rs h'(1) colo_key_fits [OF assms(3)] by (simp add: put_data_def cbind_def clift_def cstr_id)
  moreover have "loaded H rank (insert (off, sz) S) h'"
  proof -
    have "\<exists>v. hc_get H (colo_key o' s' rank) h' = Reply v \<and> length v = unat s'"
      if "(o', s') \<in> insert (off, sz) S" for o' s'
    proof (cases "colo_key o' s' rank = ?k")
      case True
      have "unat s' < 2 ^ 31" using that assms(5,7) by auto
      then have "s' = sz" using colo_key_size [OF True] assms(5) by simp
      then show ?thesis using True h'(3) v by simp
    next
      case False
      then have "(o', s') \<in> S" using that by auto
      then show ?thesis using False h'(3) assms(6) unfolding loaded_def by auto
    qed
    moreover have "hc_get H (colo_key o' 0 rank) h' = NilReply" for o'
      using colo_key_size [of o' 0 rank off sz] assms(4,5,6) h'(3) unfolding loaded_def by auto
    ultimately show ?thesis unfolding loaded_def by blast
  qed
  ultimately show ?thesis using h'(2) by blast
qed

section \<open>Preparing and replaying\<close>

definition reads :: "entry list \<Rightarrow> (int64 \<times> size_t) set" where
  "reads es = {(word_of_int off, word_of_int sz) | off sz. (''READ'', off, sz) \<in> set es \<and> sz \<noteq> 0}"

lemma colo_size:
  assumes "colo_entry_ok (name, off, sz)"
  shows "unat (word_of_int sz :: size_t) \<le> 512 * 1024 * 1024" "(word_of_int sz :: size_t) = 0 \<longleftrightarrow> sz = 0"
proof -
  define n where "n = nat sz"
  have b: "0 \<le> sz" "sz \<le> 512 * 1024 * 1024" using assms by (simp_all add: colo_entry_ok_def)
  have sz: "sz = int n" "n \<le> 512 * 1024 * 1024" using b by (simp_all add: n_def nat_le_iff)
  then have "unat (word_of_int sz :: size_t) = n" using size_fits [of n] by simp
  then show "unat (word_of_int sz :: size_t) \<le> 512 * 1024 * 1024" using sz(2) by simp
  show "(word_of_int sz :: size_t) = 0 \<longleftrightarrow> sz = 0"
    using sz size_of_nat_eq_0 [of n] by simp
qed

lemma small_reads: "\<forall>e\<in>set es. colo_entry_ok e \<Longrightarrow> \<forall>(o', s')\<in>reads es. unat s' < 2 ^ 31"
  by (auto simp: reads_def dest!: bspec dest: colo_size(1))

lemma reads_Cons:
  "reads ((name, off, sz) # es) =
     (if name = ''READ'' \<and> sz \<noteq> 0 then insert (word_of_int off, word_of_int sz) (reads es) else reads es)"
  by (auto simp: reads_def)

lemma prepare_lines_load:
  assumes "hircluster_ok H up" "in_int32 rank"
  shows "\<forall>e\<in>set es. colo_entry_ok e \<Longrightarrow> up (cw_redis w) \<Longrightarrow> loaded H rank S (cw_redis w) \<Longrightarrow>
         \<forall>(o', s')\<in>S. unat s' < 2 ^ 31 \<Longrightarrow>
         \<exists>h' c. prepare_lines H rnd rank (trace_text es) w = (Inr (), w\<lparr>cw_calls := c, cw_redis := h'\<rparr>) \<and>
                up h' \<and> loaded H rank (S \<union> reads es) h'"
proof (induction es arbitrary: w S)
  case Nil
  then show ?case
    by (intro exI [of _ "cw_redis w"] exI [of _ "cw_calls w"]) (simp add: lines_end creturn_def reads_def)
next
  case (Cons e es)
  obtain name off sz where e: "e = (name, off, sz)" by (cases e)
  have ok: "colo_entry_ok (name, off, sz)" using Cons.prems(1) e by simp
  let ?o = "word_of_int off :: int64" and ?s = "word_of_int sz :: size_t"
  let ?S = "if name = ''READ'' \<and> sz \<noteq> 0 then insert (?o, ?s) S else S"
  have "\<exists>h1 c1. (if name = ''READ'' \<and> ?s \<noteq> 0 then put_data H rnd ?o ?s rank else creturn ()) w =
          (Inr (), w\<lparr>cw_calls := c1, cw_redis := h1\<rparr>) \<and> up h1 \<and> loaded H rank ?S h1"
  proof (cases "name = ''READ'' \<and> sz \<noteq> 0")
    case True
    then show ?thesis
      using put_data_loads [OF assms(1) Cons.prems(2) assms(2) _ colo_size(1) [OF ok] Cons.prems(3,4)]
        colo_size(2) [OF ok] by simp
  next
    case False
    then show ?thesis
      using Cons.prems(2,3) colo_size(2) [OF ok]
      by (intro exI [of _ "cw_redis w"] exI [of _ "cw_calls w"]) (auto simp: creturn_def)
  qed
  then obtain h1 c1 where s1: "(if name = ''READ'' \<and> ?s \<noteq> 0 then put_data H rnd ?o ?s rank else creturn ()) w =
      (Inr (), w\<lparr>cw_calls := c1, cw_redis := h1\<rparr>)" "up h1" "loaded H rank ?S h1" by blast
  have "\<forall>(o', s')\<in>?S. unat s' < 2 ^ 31" using Cons.prems(4) colo_size(1) [OF ok] by auto
  then obtain h2 c2 where "prepare_lines H rnd rank (trace_text es) (w\<lparr>cw_calls := c1, cw_redis := h1\<rparr>) =
      (Inr (), w\<lparr>cw_calls := c2, cw_redis := h2\<rparr>)" "up h2" "loaded H rank (?S \<union> reads es) h2"
    using Cons.IH [of "w\<lparr>cw_calls := c1, cw_redis := h1\<rparr>" ?S] Cons.prems(1) s1 by auto
  moreover have "?S \<union> reads es = S \<union> reads (e # es)" by (auto simp: e reads_Cons)
  ultimately show ?case using s1(1) unfolding e prepare_lines_step [OF ok] by (auto simp: cbind_Inr)
qed

lemma check_data_ok:
  assumes "in_int32 rank" "loaded H rank S (cw_redis w)" "sz \<noteq> 0 \<longrightarrow> (off, sz) \<in> S"
  shows "check_data H off sz rank w = (Inr (), w)"
proof (cases "sz = 0")
  case True
  then have "hc_get H (colo_key off sz rank) (cw_redis w) = NilReply" using assms(2) by (simp add: loaded_def)
  then show ?thesis using True colo_key_fits [OF assms(1)] by (simp add: check_data_def clift_def cbind_def)
next
  case False
  then obtain v where "hc_get H (colo_key off sz rank) (cw_redis w) = Reply v" "length v = unat sz"
    using assms(2,3) unfolding loaded_def by auto
  then show ?thesis using colo_key_fits [OF assms(1)] by (simp add: check_data_def clift_def cbind_def)
qed

lemma replay_lines_ok:
  assumes "hircluster_ok H up" "in_int32 rank"
  shows "\<forall>e\<in>set es. colo_entry_ok e \<Longrightarrow> up (cw_redis w) \<Longrightarrow> loaded H rank S (cw_redis w) \<Longrightarrow>
         \<forall>(o', s')\<in>S. unat s' < 2 ^ 31 \<Longrightarrow> reads es \<subseteq> S \<Longrightarrow>
         \<exists>h' c. replay_lines H rnd rank (trace_text es) tot w =
           (Inr (tot + sum_list (map (\<lambda>(name, off, sz). word_of_int sz) es)), w\<lparr>cw_calls := c, cw_redis := h'\<rparr>)"
proof (induction es arbitrary: w tot S)
  case Nil
  then show ?case
    by (intro exI [of _ "cw_redis w"] exI [of _ "cw_calls w"]) (simp add: lines_end creturn_def)
next
  case (Cons e es)
  obtain name off sz where e: "e = (name, off, sz)" by (cases e)
  have ok: "colo_entry_ok (name, off, sz)" using Cons.prems(1) e by simp
  let ?o = "word_of_int off :: int64" and ?s = "word_of_int sz :: size_t"
  let ?S = "if name = ''WRITE'' \<and> sz \<noteq> 0 then insert (?o, ?s) S else S"
  let ?step = "if name = ''WRITE'' then (if ?s \<noteq> 0 then put_data H rnd ?o ?s rank else creturn ())
               else if name = ''READ'' then check_data H ?o ?s rank else creturn ()"
  have rd: "sz \<noteq> 0 \<Longrightarrow> name = ''READ'' \<Longrightarrow> (?o, ?s) \<in> S" using Cons.prems(5) by (auto simp: e reads_Cons)
  have "\<exists>h1 c1. ?step w = (Inr (), w\<lparr>cw_calls := c1, cw_redis := h1\<rparr>) \<and> up h1 \<and> loaded H rank ?S h1"
  proof (cases "name = ''WRITE'' \<and> sz \<noteq> 0")
    case True
    then show ?thesis
      using put_data_loads [OF assms(1) Cons.prems(2) assms(2) _ colo_size(1) [OF ok] Cons.prems(3,4)]
        colo_size(2) [OF ok] by simp
  next
    case False
    then have "?step w = (Inr (), w)"
      using check_data_ok [OF assms(2) Cons.prems(3), of ?s ?o] rd colo_size(2) [OF ok]
      by (auto simp: creturn_def)
    then show ?thesis
      using Cons.prems(2,3) False by (intro exI [of _ "cw_redis w"] exI [of _ "cw_calls w"]) auto
  qed
  then obtain h1 c1 where s1: "?step w = (Inr (), w\<lparr>cw_calls := c1, cw_redis := h1\<rparr>)" "up h1"
    "loaded H rank ?S h1" by blast
  have small: "\<forall>(o', s')\<in>?S. unat s' < 2 ^ 31" using Cons.prems(4) colo_size(1) [OF ok] by auto
  have sub: "reads es \<subseteq> ?S" using Cons.prems(5) by (auto simp: e reads_Cons split: if_splits)
  obtain h2 c2 where "replay_lines H rnd rank (trace_text es) (tot + ?s) (w\<lparr>cw_calls := c1, cw_redis := h1\<rparr>) =
      (Inr (tot + ?s + sum_list (map (\<lambda>(name, off, sz). word_of_int sz) es)), w\<lparr>cw_calls := c2, cw_redis := h2\<rparr>)"
    using Cons.IH [of "w\<lparr>cw_calls := c1, cw_redis := h1\<rparr>" ?S "tot + ?s"] Cons.prems(1) s1 small sub by auto
  then show ?case
    using s1(1) unfolding e replay_lines_step [OF ok] by (auto simp: cbind_Inr add.assoc)
qed

section \<open>Properties\<close>

text \<open>
  C38. After \<^verbatim>\<open>prepare_data_redis\<close> on a trace, \<^verbatim>\<open>replay_trace_redis\<close> on the same trace and rank
  never exits: every \<^verbatim>\<open>READ\<close> finds a value of the requested length, also after the \<^verbatim>\<open>WRITE\<close>s
  replayed before it, and the result is the sum of the sizes of all lines.
\<close>

theorem colocation_replay_after_prepare:
  assumes "hircluster_ok H up" "up (cw_redis w)" "in_int32 rank"
    and "cw_files w trace_file = Some (trace_text es, attrs)" "\<forall>e\<in>set es. colo_entry_ok e"
    and "\<forall>off. hc_get H (colo_key off 0 rank) (cw_redis w) = NilReply"
  shows "\<exists>w' w''. prepare_data_redis H rnd trace_file rank w = (Inr 0, w') \<and>
           replay_trace_redis H rnd trace_file rank w' =
             (Inr (sum_list (map (\<lambda>(name, off, sz). word_of_int sz) es)), w'')"
proof -
  have "loaded H rank {} (cw_redis w)" using assms(6) by (simp add: loaded_def)
  then obtain h' c where p: "prepare_lines H rnd rank (trace_text es) w = (Inr (), w\<lparr>cw_calls := c, cw_redis := h'\<rparr>)"
    "up h'" "loaded H rank ({} \<union> reads es) h'"
    using prepare_lines_load [OF assms(1,3,5,2)] by blast
  let ?w = "w\<lparr>cw_calls := c, cw_redis := h'\<rparr>"
  obtain h2 c2 where "replay_lines H rnd rank (trace_text es) 0 ?w =
      (Inr (0 + sum_list (map (\<lambda>(name, off, sz). word_of_int sz) es)), ?w\<lparr>cw_calls := c2, cw_redis := h2\<rparr>)"
    using replay_lines_ok [OF assms(1,3,5), of ?w "reads es" rnd 0] p small_reads [OF assms(5)] by auto
  then show ?thesis
    using p(1) assms(4) by (simp add: prepare_data_redis_def replay_trace_redis_def cbind_def creturn_def)
qed

definition ref_colo_world :: "(string \<Rightarrow> bytes option, unit) cworld" where
  "ref_colo_world = (ref_cworld (\<lambda>_. None) ())\<lparr>cw_files := (\<lambda>_. Some (trace_text
     [(''READ'', 0, 4096), (''READ'', 8192, 0), (''WRITE'', 0, 512), (''READ'', 0, 4096)], \<lambda>_. None))\<rparr>"

theorem colocation_replay_after_prepare_witness:
  "\<exists>w' w''. prepare_data_redis ref_hircluster (\<lambda>_ _. 3) ''trace'' 5 ref_colo_world = (Inr 0, w') \<and>
            replay_trace_redis ref_hircluster (\<lambda>_ _. 3) ''trace'' 5 w' = (Inr 8704, w'')"
  using colocation_replay_after_prepare [OF ref_hircluster_ok, where w = ref_colo_world and rank = 5
      and trace_file = "''trace''" and attrs = "\<lambda>_. None" and rnd = "\<lambda>_ _. 3"
      and es = "[(''READ'', 0, 4096), (''READ'', 8192, 0), (''WRITE'', 0, 512), (''READ'', 0, 4096)]"]
  by (auto simp: ref_colo_world_def ref_cworld_def in_int32_def colo_entry_ok_def ref_hircluster_def)

text \<open>
  The loop of \<^verbatim>\<open>main\<close> ends: when every replay succeeds and takes at least one unit of time,
  at most \<open>time_limit + 1\<close> replays are made.
\<close>

theorem colocation_main_loop_ends:
  assumes "\<And>w. \<exists>n w'. replay_once w = (Inr n, w')" "\<And>k. 1 \<le> took k"
  shows "\<exists>n w'. replay_until replay_once took time_limit k duration w = Some (Inr n, w')"
proof (induction "nat (time_limit + 1 - duration)" arbitrary: k duration w rule: less_induct)
  case less
  obtain n w' where once: "replay_once w = (Inr n, w')" using assms(1) by blast
  show ?case
  proof (cases "duration + took k > time_limit")
    case True
    then show ?thesis using once by (subst replay_until.simps) simp
  next
    case False
    then have "nat (time_limit + 1 - (duration + took k)) < nat (time_limit + 1 - duration)"
      using assms(2) [of k] by simp
    then show ?thesis using less once False by (subst replay_until.simps) simp
  qed
qed

theorem colocation_main_loop_ends_witness:
  "\<exists>n w'. replay_until (creturn 8704) (\<lambda>_. 2) 60 0 0 ref_colo_world = Some (Inr n, w')"
  by (rule colocation_main_loop_ends) (simp_all add: creturn_def)

end
