(* ===== verification/Xattr_Links.thy ===== *)
theory Xattr_Links
  imports Shadow_Link
begin

text \<open>
  \<^verbatim>\<open>src/old/single_hop/xattr\<close>: numeric arguments (\<^verbatim>\<open>get_num.c\<close>), error reports
  (\<^verbatim>\<open>error_functions.c\<close>), shadow links kept in extended attributes (\<^verbatim>\<open>link_fs.c\<close>) and the
  drivers \<^verbatim>\<open>setxattr.c\<close>, \<^verbatim>\<open>getxattr.c\<close>, \<^verbatim>\<open>header.c\<close> and \<^verbatim>\<open>header_mpi.c\<close>, without their clocks.

  \<open>denied\<close> are the files that cannot be opened, \<open>attr_ok\<close> the attribute names the file
  system accepts. Formatted messages arrive as text.
\<close>

section \<open>get_num.c\<close>

definition EXIT_FAILURE :: int where "EXIT_FAILURE = 1"

definition GN_NONNEG :: nat where "GN_NONNEG = 1"
definition GN_GT_0 :: nat where "GN_GT_0 = 2"
definition GN_ANY_BASE :: nat where "GN_ANY_BASE = 64"
definition GN_BASE_8 :: nat where "GN_BASE_8 = 128"
definition GN_BASE_16 :: nat where "GN_BASE_16 = 256"

text \<open>\<^verbatim>\<open>flags & f\<close> for a flag \<open>f\<close> that is a power of two.\<close>

definition has_flag :: "nat \<Rightarrow> nat \<Rightarrow> bool" where
  "has_flag flags f = (flags div f mod 2 = 1)"

definition gnFail ::
  "string \<Rightarrow> string \<Rightarrow> string option \<Rightarrow> string option \<Rightarrow> (('h, 'm) cworld, 'a) cprog" where
  "gnFail fname msg arg name =
     cbind (cprint (fname @ '' error'' @
              (case name of None \<Rightarrow> [] | Some n \<Rightarrow> '' (in '' @ n @ '')'') @ '': '' @ msg)) (\<lambda>_.
     cbind (case arg of Some (c # cs) \<Rightarrow> cprint (''        offending text: '' @ (c # cs))
            | _ \<Rightarrow> creturn ()) (\<lambda>_.
     cfail (Exit EXIT_FAILURE)))"

definition getNum ::
  "string \<Rightarrow> string option \<Rightarrow> nat \<Rightarrow> string option \<Rightarrow> (('h, 'm) cworld, int) cprog" where
  "getNum fname arg flags name =
     (case arg of
        None \<Rightarrow> gnFail fname ''null or empty string'' arg name
      | Some s \<Rightarrow>
          if s = [] then gnFail fname ''null or empty string'' arg name
          else
            let base = (if has_flag flags GN_ANY_BASE then 0 else if has_flag flags GN_BASE_8 then 8
                        else if has_flag flags GN_BASE_16 then 16 else 10);
                (res, endptr, erange) = strtol s base
            in if erange then gnFail fname ''strtol() failed'' arg name
               else if endptr \<noteq> [] then gnFail fname ''nonnumeric characters'' arg name
               else if has_flag flags GN_NONNEG \<and> res < 0
               then gnFail fname ''negative value not allowed'' arg name
               else if has_flag flags GN_GT_0 \<and> res \<le> 0
               then gnFail fname ''value must be > 0'' arg name
               else creturn res)"

definition getLong :: "string option \<Rightarrow> nat \<Rightarrow> string option \<Rightarrow> (('h, 'm) cworld, int) cprog" where
  "getLong arg flags name = getNum ''getLong'' arg flags name"

definition getInt :: "string option \<Rightarrow> nat \<Rightarrow> string option \<Rightarrow> (('h, 'm) cworld, int) cprog" where
  "getInt arg flags name =
     cbind (getNum ''getInt'' arg flags name) (\<lambda>res.
       if res > 2 ^ 31 - 1 \<or> res < - (2 ^ 31) then gnFail ''getInt'' ''integer out of range'' arg name
       else creturn res)"

section \<open>error_functions.c\<close>

text \<open>\<^verbatim>\<open>terminate\<close>, with the value of the environment variable \<^verbatim>\<open>EF_DUMPCORE\<close>.\<close>

definition terminate :: "string option \<Rightarrow> bool \<Rightarrow> fault" where
  "terminate dumpcore useExit3 =
     (case dumpcore of
        Some (c # cs) \<Rightarrow> Std_Exn ''abort''
      | _ \<Rightarrow> Exit EXIT_FAILURE)"

text \<open>
  The message and the text of the error are formatted, but \<^verbatim>\<open>buf\<close>, which is printed, is never
  set: \<open>junk\<close> is what it holds. \<open>texts\<close> is the table of names in \<^verbatim>\<open>ename.c.inc\<close> and \<^verbatim>\<open>strerror\<close>.
\<close>

definition MAX_ENAME :: int where "MAX_ENAME = 133"

type_synonym err_texts = "(int \<Rightarrow> string) \<times> (int \<Rightarrow> string)"

definition outputError ::
  "(nat \<Rightarrow> char) \<Rightarrow> err_texts \<Rightarrow> bool \<Rightarrow> int \<Rightarrow> bool \<Rightarrow> string \<Rightarrow> (('h, 'm) cworld, unit) cprog" where
  "outputError junk texts useErr err flushStdout format =
     (let buf = malloc junk 500;
          userMsg = take 499 format;
          name = (if err > 0 \<and> err \<le> MAX_ENAME then fst texts err else ''?UNKNOWN?'');
          errText = (if useErr then take 499 ('' ['' @ name @ '' '' @ snd texts err @ '']'') else '':'')
      in cbind (clift (string_in buf)) cprint)"

definition errMsg ::
  "(nat \<Rightarrow> char) \<Rightarrow> err_texts \<Rightarrow> int \<Rightarrow> string \<Rightarrow> (('h, 'm) cworld, unit) cprog" where
  "errMsg junk texts errno format = outputError junk texts True errno True format"

definition errExit ::
  "(nat \<Rightarrow> char) \<Rightarrow> err_texts \<Rightarrow> string option \<Rightarrow> int \<Rightarrow> string \<Rightarrow> (('h, 'm) cworld, 'a) cprog" where
  "errExit junk texts dumpcore errno format =
     cbind (outputError junk texts True errno True format) (\<lambda>_. cfail (terminate dumpcore True))"

definition err_exit ::
  "(nat \<Rightarrow> char) \<Rightarrow> err_texts \<Rightarrow> string option \<Rightarrow> int \<Rightarrow> string \<Rightarrow> (('h, 'm) cworld, 'a) cprog" where
  "err_exit junk texts dumpcore errno format =
     cbind (outputError junk texts True errno False format) (\<lambda>_. cfail (terminate dumpcore False))"

definition errExitEN ::
  "(nat \<Rightarrow> char) \<Rightarrow> err_texts \<Rightarrow> string option \<Rightarrow> int \<Rightarrow> string \<Rightarrow> (('h, 'm) cworld, 'a) cprog" where
  "errExitEN junk texts dumpcore errnum format =
     cbind (outputError junk texts True errnum True format) (\<lambda>_. cfail (terminate dumpcore True))"

definition fatal ::
  "(nat \<Rightarrow> char) \<Rightarrow> err_texts \<Rightarrow> string option \<Rightarrow> string \<Rightarrow> (('h, 'm) cworld, 'a) cprog" where
  "fatal junk texts dumpcore format =
     cbind (outputError junk texts False 0 True format) (\<lambda>_. cfail (terminate dumpcore True))"

definition usageErr :: "string \<Rightarrow> (('h, 'm) cworld, 'a) cprog" where
  "usageErr format = cbind (cprint (''Usage: '' @ format)) (\<lambda>_. cfail (Exit EXIT_FAILURE))"

definition cmdLineErr :: "string \<Rightarrow> (('h, 'm) cworld, 'a) cprog" where
  "cmdLineErr format =
     cbind (cprint (''Command-line usage error: '' @ format)) (\<lambda>_. cfail (Exit EXIT_FAILURE))"

section \<open>link_fs.c\<close>

text \<open>The surroundings of the drivers: refusals of the system and the error report.\<close>

record ('h, 'm) xenv =
  x_denied :: "string \<Rightarrow> bool"
  x_attr_ok :: "string \<Rightarrow> bool"
  x_fail :: "string \<Rightarrow> (('h, 'm) cworld, int) cprog"

definition xenv_of ::
  "(string \<Rightarrow> bool) \<Rightarrow> (string \<Rightarrow> bool) \<Rightarrow> (nat \<Rightarrow> char) \<Rightarrow> err_texts \<Rightarrow> string option \<Rightarrow> int \<Rightarrow>
   ('h, 'm) xenv" where
  "xenv_of denied attr_ok junk texts dumpcore errno =
     \<lparr>x_denied = denied, x_attr_ok = attr_ok, x_fail = errExit junk texts dumpcore errno\<rparr>"

definition touch_link :: "('h, 'm) xenv \<Rightarrow> string \<Rightarrow> (('h, 'm) cworld, int) cprog" where
  "touch_link X filename w =
     (if x_denied X filename then x_fail X (''fail to open '' @ filename) w
      else (Inr 0, w\<lparr>cw_files := (cw_files w)(filename :=
              Some (case cw_files w filename of None \<Rightarrow> ([], \<lambda>_. None) | Some f \<Rightarrow> f))\<rparr>))"

definition insert_link ::
  "('h, 'm) xenv \<Rightarrow> string \<Rightarrow> int \<Rightarrow> string \<Rightarrow> string \<Rightarrow> (('h, 'm) cworld, int) cprog" where
  "insert_link X filename seg_id attr target =
     cbind (clift (sprintf_to 1024 (target @ '':'' @ filename @ ''_'' @ show_d seg_id))) (\<lambda>key w.
       case cw_files w filename of
         Some (content, attrs) \<Rightarrow>
           if x_attr_ok X attr
           then (Inr 0, w\<lparr>cw_files := (cw_files w)(filename := Some (content, attrs(attr := Some key)))\<rparr>)
           else x_fail X ''setxattr'' w
       | None \<Rightarrow> x_fail X ''setxattr'' w)"

definition remove_link :: "('h, 'm) xenv \<Rightarrow> string \<Rightarrow> (('h, 'm) cworld, int) cprog" where
  "remove_link X filename w =
     (case cw_files w filename of
        None \<Rightarrow> x_fail X (''fail to remove '' @ filename) w
      | Some f \<Rightarrow> (Inr 0, w\<lparr>cw_files := (cw_files w)(filename := None)\<rparr>))"

section \<open>setxattr.c\<close>

definition NUM_OPS_xattr :: nat where "NUM_OPS_xattr = 100"

definition setxattr_name :: "string \<Rightarrow> int \<Rightarrow> int \<Rightarrow> nat \<Rightarrow> string" where
  "setxattr_name base nprocs rank i =
     (if nprocs = 1 then base @ ''_'' @ nat_to_string i
      else base @ ''_'' @ show_d rank @ ''_'' @ nat_to_string i)"

definition setxattr_turn ::
  "('h, 'm) xenv \<Rightarrow> string \<Rightarrow> int \<Rightarrow> int \<Rightarrow> nat \<Rightarrow> (('h, 'm) cworld, unit) cprog" where
  "setxattr_turn X base nprocs rank i =
     cbind (clift (sprintf_to 1024 (setxattr_name base nprocs rank i))) (\<lambda>filename.
     cbind (touch_link X filename) (\<lambda>_.
     cbind (insert_link X filename (int i) ''loc'' ''redis'') (\<lambda>_.
     cbind (remove_link X filename) (\<lambda>_. creturn ()))))"

definition setxattr_main ::
  "('h, 'm) xenv \<Rightarrow> int \<Rightarrow> int \<Rightarrow> string list \<Rightarrow> (('h, 'm) cworld, int) cprog" where
  "setxattr_main X nprocs rank argv =
     (if length argv < 2 \<or> argv ! 1 = ''--help'' then usageErr (hd argv @ '' file'')
      else cbind (cfor 1 NUM_OPS_xattr (setxattr_turn X (argv ! 1) nprocs rank)) (\<lambda>_. creturn 0))"

section \<open>header.c and header_mpi.c\<close>

definition header_text :: string where "header_text = ''The past is not dead.''"

text \<open>One turn: the text is appended to the file, which is created if need be, and the file removed.\<close>

definition header_turn :: "('h, 'm) xenv \<Rightarrow> string \<Rightarrow> (('h, 'm) cworld, unit) cprog" where
  "header_turn X name w =
     (if x_denied X name then cbind (x_fail X (''fail to open '' @ name)) (\<lambda>_. creturn ()) w
      else cbind (remove_link X name) (\<lambda>_. creturn ())
             (w\<lparr>cw_files := (cw_files w)(name :=
                Some (case cw_files w name of None \<Rightarrow> (header_text, \<lambda>_. None)
                      | Some (c, a) \<Rightarrow> (c @ header_text, a)))\<rparr>))"

definition header_main :: "('h, 'm) xenv \<Rightarrow> string list \<Rightarrow> (('h, 'm) cworld, int) cprog" where
  "header_main X argv =
     (if length argv < 2 \<or> argv ! 1 = ''--help'' then usageErr (hd argv @ '' file'')
      else cbind (cfor 1 NUM_OPS_xattr (\<lambda>i. header_turn X (argv ! 1))) (\<lambda>_. creturn 0))"

text \<open>\<^verbatim>\<open>MPI_File_open\<close> with \<^verbatim>\<open>CREATE\<close> and \<^verbatim>\<open>RDWR\<close>, and a write at the start of the file.\<close>

definition header_mpi_turn :: "('h, 'm) xenv \<Rightarrow> string \<Rightarrow> (('h, 'm) cworld, unit) cprog" where
  "header_mpi_turn X name w =
     (if x_denied X name then cbind (x_fail X (''fail to open '' @ name)) (\<lambda>_. creturn ()) w
      else cbind (remove_link X name) (\<lambda>_. creturn ())
             (w\<lparr>cw_files := (cw_files w)(name :=
                Some (case cw_files w name of None \<Rightarrow> (header_text, \<lambda>_. None)
                      | Some (c, a) \<Rightarrow> (overlay 0 header_text c, a)))\<rparr>))"

definition header_mpi_main ::
  "('h, 'm) xenv \<Rightarrow> int \<Rightarrow> int \<Rightarrow> string list \<Rightarrow> (('h, 'm) cworld, int) cprog" where
  "header_mpi_main X nprocs rank argv =
     (if length argv < 2 \<or> argv ! 1 = ''--help'' then usageErr (hd argv @ '' file'')
      else cbind (clift (sprintf_to 1024 (if nprocs = 1 then argv ! 1
                                          else argv ! 1 @ ''_'' @ show_d rank))) (\<lambda>filename.
           cbind (cfor 1 NUM_OPS_xattr (\<lambda>i. header_mpi_turn X filename)) (\<lambda>_. creturn 0)))"

section \<open>getxattr.c\<close>

definition NUM_OPS_getxattr :: nat where "NUM_OPS_getxattr = 10000"
definition XATTR_SIZE :: nat where "XATTR_SIZE = 10000"

definition getxattr_usageError :: "string \<Rightarrow> (('h, 'm) cworld, 'a) cprog" where
  "getxattr_usageError progName =
     cbind (cprint (''Usage: '' @ progName @ '' [-x] file...'')) (\<lambda>_. cfail (Exit EXIT_FAILURE))"

text \<open>
  The loop over \<^verbatim>\<open>getopt(argc, argv, "x")\<close>: whether an option was \<^verbatim>\<open>x\<close>, and the words that are not
  options, which \<^verbatim>\<open>getopt\<close> moves to the end; \<open>None\<close> after an unknown option.
\<close>

fun getxattr_opts :: "bool \<Rightarrow> string list \<Rightarrow> (bool \<times> string list) option" where
  "getxattr_opts hexDisplay [] = Some (hexDisplay, [])"
| "getxattr_opts hexDisplay (a # as) =
     (if a = ''--'' then Some (hexDisplay, as)
      else if 1 < length a \<and> hd a = CHR ''-''
      then (if list_all (\<lambda>c. c = CHR ''x'') (tl a) then getxattr_opts True as else None)
      else case getxattr_opts hexDisplay as of
             None \<Rightarrow> None
           | Some (h, files) \<Rightarrow> Some (h, a # files))"

text \<open>
  \<^verbatim>\<open>listxattr\<close> stores the names one after the other, each with its terminator; \<open>names\<close> lists
  the attributes of a file.
\<close>

definition listxattr ::
  "((string \<Rightarrow> bytes option) \<Rightarrow> string list) \<Rightarrow> ('h, 'm) cworld \<Rightarrow> string \<Rightarrow> bytes option" where
  "listxattr names w f =
     (case cw_files w f of
        None \<Rightarrow> None
      | Some (content, attrs) \<Rightarrow>
          let list = concat (map (\<lambda>n. n @ [CHR 0x00]) (names attrs))
          in if length list \<le> XATTR_SIZE then Some list else None)"

definition getxattr_len :: "('h, 'm) cworld \<Rightarrow> string \<Rightarrow> string \<Rightarrow> int" where
  "getxattr_len w f name =
     (case cw_files w f of
        None \<Rightarrow> -1
      | Some (content, attrs) \<Rightarrow>
          (case attrs name of
             None \<Rightarrow> -1
           | Some v \<Rightarrow> if length v \<le> XATTR_SIZE then int (length v) else -1))"

text \<open>The loop over the list: every name is looked up, its length is kept for nothing.\<close>

function getxattr_values :: "('h, 'm) cworld \<Rightarrow> string \<Rightarrow> bytes \<Rightarrow> nat \<Rightarrow> int list" where
  "getxattr_values w f list ns =
     (if ns < length list
      then getxattr_len w f (cstr (drop ns list)) #
           getxattr_values w f list (ns + length (cstr (drop ns list)) + 1)
      else [])"
  by pat_completeness auto
termination
  by (relation "measure (\<lambda>(w, f, list, ns). length list - ns)") auto

declare getxattr_values.simps [simp del]

fun getxattr_files ::
  "('h, 'm) xenv \<Rightarrow> ((string \<Rightarrow> bytes option) \<Rightarrow> string list) \<Rightarrow> string list \<Rightarrow> (('h, 'm) cworld, int list list) cprog" where
  "getxattr_files X names [] = creturn []"
| "getxattr_files X names (f # fs) = (\<lambda>w.
     case listxattr names w f of
       None \<Rightarrow> cbind (x_fail X ''listxattr'') (\<lambda>_. creturn []) w
     | Some list \<Rightarrow>
         cbind (getxattr_files X names fs) (\<lambda>vs. creturn (getxattr_values w f list 0 # vs)) w)"

definition getxattr_main ::
  "('h, 'm) xenv \<Rightarrow> ((string \<Rightarrow> bytes option) \<Rightarrow> string list) \<Rightarrow> string list \<Rightarrow> (('h, 'm) cworld, int) cprog" where
  "getxattr_main X names argv =
     (case getxattr_opts False (tl argv) of
        None \<Rightarrow> getxattr_usageError (hd argv)
      | Some (hexDisplay, files) \<Rightarrow>
          if files = [] then getxattr_usageError (hd argv)
          else cbind (cfor 1 NUM_OPS_getxattr (\<lambda>i. cbind (getxattr_files X names files) (\<lambda>_. creturn ())))
                     (\<lambda>_. cfail (Exit 0)))"

section \<open>Lemmas\<close>

lemma gnFail_result: "gnFail fname msg arg name w \<noteq> (Inr r, w')"
  by (auto simp: gnFail_def cbind_def cfail_def cprint_def creturn_def split: option.splits list.splits prod.splits sum.splits)

lemma setxattr_turn_restores:
  assumes "cw_files w (setxattr_name base nprocs rank i) = None" "\<not> x_denied X (setxattr_name base nprocs rank i)"
    and "x_attr_ok X ''loc''" "length (setxattr_name base nprocs rank i) < 950" "i < 1000"
  shows "setxattr_turn X base nprocs rank i w = (Inr (), w)"
proof -
  let ?f = "setxattr_name base nprocs rank i"
  have len: "length (show_d (int i)) \<le> 11"
    using length_int_to_string_bound [of "int i"] assms(5) by (simp add: show_d_def)
  have key: "sprintf_to 1024 (''redis:'' @ ?f @ ''_'' @ show_d (int i)) = Inr (''redis:'' @ ?f @ ''_'' @ show_d (int i))"
    using assms(4) len by (intro sprintf_to_fits) simp
  have name: "sprintf_to 1024 ?f = Inr ?f" using assms(4) by (intro sprintf_to_fits) simp
  have restored: "(cw_files w)(?f := None) = cw_files w" using assms(1) by (rule fun_upd_idem)
  show ?thesis
    using assms(1-3) key name restored
    by (simp add: setxattr_turn_def cbind_def clift_def touch_link_def insert_link_def remove_link_def creturn_def)
qed

lemma header_turn_removes:
  assumes "\<not> x_denied X name"
  shows "header_turn X name w = (Inr (), w\<lparr>cw_files := (cw_files w)(name := None)\<rparr>)"
  using assms by (simp add: header_turn_def remove_link_def cbind_def creturn_def)

section \<open>Properties\<close>

text \<open>
  C26. A number that \<^verbatim>\<open>getInt\<close> accepts comes from a non-empty argument, is in the range of \<^verbatim>\<open>int\<close>
  and satisfies the conditions its flags ask for; nothing is printed.
\<close>

theorem getInt_checked:
  assumes "getInt arg flags name w = (Inr r, w')"
  shows "w' = w \<and> - (2 ^ 31) \<le> r \<and> r < 2 ^ 31 \<and> (has_flag flags GN_NONNEG \<longrightarrow> 0 \<le> r) \<and>
         (has_flag flags GN_GT_0 \<longrightarrow> 0 < r) \<and> (\<exists>c s. arg = Some (c # s))"
proof -
  obtain r1 w1 where n: "getNum ''getInt'' arg flags name w = (Inr r1, w1)"
    and rest: "(if r1 > 2 ^ 31 - 1 \<or> r1 < - (2 ^ 31) then gnFail ''getInt'' ''integer out of range'' arg name
                else creturn r1) w1 = (Inr r, w')"
    using assms unfolding getInt_def by (auto simp: cbind_result)
  have r: "r = r1" "w' = w1" "- (2 ^ 31) \<le> r" "r < 2 ^ 31"
    using rest by (auto simp: creturn_def gnFail_result split: if_splits)
  have "w1 = w \<and> (has_flag flags GN_NONNEG \<longrightarrow> 0 \<le> r1) \<and> (has_flag flags GN_GT_0 \<longrightarrow> 0 < r1) \<and>
        (\<exists>c s. arg = Some (c # s))"
    using n unfolding getNum_def Let_def
    by (cases arg; cases "the arg") (auto simp: creturn_def gnFail_result split: prod.splits if_splits)
  with r show ?thesis by simp
qed

theorem getInt_checked_witness:
  "fst (getInt (Some ''42'') GN_GT_0 None (ref_cworld () ())) = Inr 42 \<and> (0::int) < 42"
proof -
  have "''42'' = int_to_string 42" by (simp add: decimal_eval)
  then have st: "strtol ''42'' 10 = (42, [], False)" using strtol_int_to_string [of 42] by simp
  have run: "getInt (Some ''42'') GN_GT_0 None (ref_cworld () ()) = (Inr 42, ref_cworld () ())"
    by (simp add: getInt_def getNum_def has_flag_def GN_NONNEG_def GN_GT_0_def GN_ANY_BASE_def GN_BASE_8_def
        GN_BASE_16_def st creturn_def cbind_def)
  show ?thesis using getInt_checked [OF run] run by simp
qed

text \<open>
  Every \<^verbatim>\<open>int\<close> printed in decimal is read back by \<^verbatim>\<open>getInt\<close> when the flags ask for no base and
  their conditions hold.
\<close>

theorem getInt_round_trip:
  assumes "- (2 ^ 31) \<le> i" "i < 2 ^ 31"
    and "\<not> has_flag flags GN_ANY_BASE" "\<not> has_flag flags GN_BASE_8" "\<not> has_flag flags GN_BASE_16"
    and "has_flag flags GN_NONNEG \<longrightarrow> 0 \<le> i" "has_flag flags GN_GT_0 \<longrightarrow> 0 < i"
  shows "getInt (Some (int_to_string i)) flags name w = (Inr i, w)"
proof -
  have "strtol (int_to_string i) 10 = (i, [], False)" using assms(1,2) by (intro strtol_int_to_string) simp_all
  then show ?thesis
    using assms by (auto simp: getInt_def getNum_def creturn_def cbind_def)
qed

theorem getInt_round_trip_witness:
  "getInt (Some (int_to_string (- 17))) 0 None (ref_cworld () ()) = (Inr (- 17), ref_cworld () ())"
  by (rule getInt_round_trip) (simp_all add: has_flag_def)

text \<open>
  The extended-attribute benchmark leaves the file system as it found it: when none of its
  file names is taken, it ends with status 0 in the state it began with.
\<close>

theorem setxattr_main_restores:
  assumes "\<forall>i. 1 \<le> i \<and> i \<le> 100 \<longrightarrow> cw_files w (setxattr_name base nprocs rank i) = None \<and>
             \<not> x_denied X (setxattr_name base nprocs rank i)"
    and "x_attr_ok X ''loc''" "length base < 900" "base \<noteq> ''--help''" "in_int32 rank"
  shows "setxattr_main X nprocs rank [prog, base] w = (Inr 0, w)"
proof -
  have len: "length (setxattr_name base nprocs rank i) < 950" if "i < 1000" for i
    using that assms(3,5) length_int_to_string_bound [of rank] length_nat_to_string_bound [of i 2]
    by (simp add: setxattr_name_def show_d_def in_int32_def)
  have "\<exists>w'. cfor 1 NUM_OPS_xattr (setxattr_turn X base nprocs rank) w = (Inr (), w') \<and> w' = w"
  proof (rule cfor_invariant [where I = "\<lambda>j w'. w' = w"])
    fix j and w' :: "('a, 'b) cworld"
    assume j: "1 \<le> j" "j < 1 + NUM_OPS_xattr" "w' = w"
    then have "setxattr_turn X base nprocs rank j w' = (Inr (), w)"
      using assms(1,2) len [of j] by (auto simp: NUM_OPS_xattr_def intro!: setxattr_turn_restores)
    then show "\<exists>w''. setxattr_turn X base nprocs rank j w' = (Inr (), w'') \<and> w'' = w" by blast
  qed simp
  then show ?thesis
    using assms(4) by (auto simp: setxattr_main_def cbind_Inr creturn_def)
qed

theorem setxattr_main_restores_witness:
  "setxattr_main (xenv_of (\<lambda>_. False) (\<lambda>_. True) (\<lambda>_. CHR ''x'') (\<lambda>_. [], \<lambda>_. []) None 0) 4 2 [''a.out'', ''f''] (ref_cworld () ()) =
     (Inr 0, ref_cworld () ())"
  by (rule setxattr_main_restores) (simp_all add: ref_cworld_def xenv_of_def in_int32_def)

text \<open>
  The header benchmark ends with status 0 and with its file gone, also when the file existed
  before with other content.
\<close>

theorem header_main_removes:
  assumes "\<not> x_denied X name" "name \<noteq> ''--help''"
  shows "header_main X [prog, name] w = (Inr 0, w\<lparr>cw_files := (cw_files w)(name := None)\<rparr>)"
proof -
  have "\<exists>w'. cfor 1 99 (\<lambda>i. header_turn X name) (w\<lparr>cw_files := (cw_files w)(name := None)\<rparr>) = (Inr (), w') \<and>
          w' = w\<lparr>cw_files := (cw_files w)(name := None)\<rparr>"
    by (rule cfor_invariant [where I = "\<lambda>j w'. w' = w\<lparr>cw_files := (cw_files w)(name := None)\<rparr>"])
       (simp_all add: header_turn_removes [OF assms(1)])
  moreover have "cfor 1 NUM_OPS_xattr (\<lambda>i. header_turn X name) w =
      cfor (Suc 1) 99 (\<lambda>i. header_turn X name) (w\<lparr>cw_files := (cw_files w)(name := None)\<rparr>)"
  proof -
    have "NUM_OPS_xattr = Suc 99" by (simp add: NUM_OPS_xattr_def)
    then show ?thesis
      unfolding \<open>NUM_OPS_xattr = Suc 99\<close> cfor.simps(2) by (simp add: cbind_def header_turn_removes [OF assms(1)])
  qed
  moreover have "cfor i n (\<lambda>i. header_turn X name) = cfor j n (\<lambda>i. header_turn X name)" for i j n
    by (induction n arbitrary: i j) (simp_all, metis)
  ultimately have "cfor 1 NUM_OPS_xattr (\<lambda>i. header_turn X name) w =
      (Inr (), w\<lparr>cw_files := (cw_files w)(name := None)\<rparr>)" by metis
  then show ?thesis using assms(2) by (simp add: header_main_def cbind_Inr creturn_def)
qed

theorem header_main_removes_witness:
  "header_main (xenv_of (\<lambda>_. False) (\<lambda>_. True) (\<lambda>_. CHR ''x'') (\<lambda>_. [], \<lambda>_. []) None 0) [''a.out'', ''f'']
     ((ref_cworld () ())\<lparr>cw_files := (\<lambda>_. None)(''f'' := Some (''old'', \<lambda>_. None))\<rparr>) =
   (Inr 0, (ref_cworld () ())\<lparr>cw_files := (\<lambda>_. None)\<rparr>)"
  by (subst header_main_removes) (simp_all add: xenv_of_def ref_cworld_def fun_eq_iff)

text \<open>
  The lookups of \<^verbatim>\<open>getxattr\<close> visit the names of the file in order, whatever their lengths, and a run
  over files that exist ends with status 0 and changes nothing.
\<close>

lemma getxattr_values_visits:
  assumes "\<forall>n \<in> set ns. CHR 0x00 \<notin> set n"
  shows "getxattr_values w f (pre @ concat (map (\<lambda>n. n @ [CHR 0x00]) ns)) (length pre) = map (getxattr_len w f) ns"
  using assms
proof (induction ns arbitrary: pre)
  case Nil
  then show ?case by (simp add: getxattr_values.simps)
next
  case (Cons n ns)
  have "cstr (n @ CHR 0x00 # concat (map (\<lambda>n. n @ [CHR 0x00]) ns)) = n"
    using Cons.prems by (simp add: cstr_def takeWhile_append)
  then show ?case
    using Cons.IH [of "pre @ n @ [CHR 0x00]"] Cons.prems by (subst getxattr_values.simps) simp
qed

lemma getxattr_files_reads:
  assumes "\<forall>f \<in> set fs. listxattr names w f \<noteq> None"
  shows "\<exists>vs. getxattr_files X names fs w = (Inr vs, w)"
  using assms by (induction fs) (auto simp: creturn_def cbind_def)

lemma cfor_idle: "p w = (Inr (), w) \<Longrightarrow> cfor i n (\<lambda>_. p) w = (Inr (), w)"
  by (induction n arbitrary: i) (simp_all add: creturn_def cbind_def)

theorem getxattr_reads_only:
  assumes "getxattr_opts False (tl argv) = Some (hexDisplay, files)" "files \<noteq> []"
    and "\<forall>f \<in> set files. listxattr names w f \<noteq> None"
  shows "getxattr_main X names argv w = (Inl (Exit 0), w)"
proof -
  have turn: "cbind (getxattr_files X names files) (\<lambda>_. creturn ()) w = (Inr (), w)"
    using getxattr_files_reads [OF assms(3), of X] by (auto simp: cbind_def creturn_def)
  have "cfor i n (\<lambda>i. cbind (getxattr_files X names files) (\<lambda>_. creturn ())) w = (Inr (), w)" for i n
    using turn by (intro cfor_idle)
  then show ?thesis using assms(1,2) by (simp add: getxattr_main_def cbind_def cfail_def)
qed

end
