(* ===== verification/Hop_Links.thy ===== *)
theory Hop_Links
  imports Shadow_Link_Mongo
begin

text \<open>
  The single-hop links of \<^verbatim>\<open>src/old/single_hop\<close>: links as Redis keys (\<^verbatim>\<open>redis/link_redis.c\<close>) and
  as MongoDB documents (\<^verbatim>\<open>mongodb/link_mongo.c\<close>), and the programs that create them
  (\<^verbatim>\<open>redis_create_shadow.c\<close>, \<^verbatim>\<open>redis_create_shadow_mt.c\<close>, \<^verbatim>\<open>insert.c\<close>, \<^verbatim>\<open>insert_mpi.c\<close>) or print them (\<^verbatim>\<open>query.c\<close>), without
  their clocks and reports.
\<close>

section \<open>redis/link_redis.c\<close>

definition hop_genNodeList :: "string res" where
  "hop_genNodeList = node_list 1024 25 0 8 []"

text \<open>An error of the connection is printed; the context is returned all the same.\<close>

definition hop_connectToRedisServer :: "'h hircluster \<Rightarrow> (('h, 'm) cworld, unit) cprog" where
  "hop_connectToRedisServer H =
     cbind (clift hop_genNodeList) (\<lambda>nodelist.
       case hc_connect H nodelist of
         Some errstr \<Rightarrow> cprint (''Error: '' @ errstr)
       | None \<Rightarrow> creturn ())"

definition create_return_link_redis ::
  "'h hircluster \<Rightarrow> string \<Rightarrow> string \<Rightarrow> (('h, 'm) cworld, unit) cprog" where
  "create_return_link_redis H key_str target = redis_set_checked H ''Something is wrong'' key_str target"

definition create_link_redis :: "'h hircluster \<Rightarrow> string \<Rightarrow> (('h, 'm) cworld, unit) cprog" where
  "create_link_redis H key_str = redis_set_checked H ''Something is wrong'' key_str ''redis''"

section \<open>redis/redis_create_shadow_mt.c\<close>

definition NUM_OPS_mt :: nat where "NUM_OPS_mt = 1000"

definition hop_key :: "string \<Rightarrow> int \<Rightarrow> nat \<Rightarrow> string" where
  "hop_key key_base rank i = key_base @ ''_'' @ show_d rank @ ''_'' @ nat_to_string i"

definition link_turn :: "'h hircluster \<Rightarrow> string \<Rightarrow> int \<Rightarrow> nat \<Rightarrow> (('h, 'm) cworld, unit) cprog" where
  "link_turn H key_base rank i =
     cbind (clift (sprintf_to 1024 (hop_key key_base rank i))) (\<lambda>temp. create_link_redis H temp)"

definition return_link_turn :: "'h hircluster \<Rightarrow> string \<Rightarrow> int \<Rightarrow> nat \<Rightarrow> (('h, 'm) cworld, unit) cprog" where
  "return_link_turn H key_base rank i =
     cbind (clift (sprintf_to 1024 (hop_key key_base rank (i + NUM_OPS_mt)))) (\<lambda>temp.
       create_return_link_redis H temp ''orangefs'')"

definition create_shadow_mt_main ::
  "'h hircluster \<Rightarrow> int \<Rightarrow> string list \<Rightarrow> (('h, 'm) cworld, int) cprog" where
  "create_shadow_mt_main H rank argv =
     (case argv of
        [prog, base] \<Rightarrow>
          cbind (clift (sprintf_to 1024 base)) (\<lambda>key_base.
          cbind (hop_connectToRedisServer H) (\<lambda>_.
          cbind (srand 1) (\<lambda>_.
          cbind (cfor 1 NUM_OPS_mt (link_turn H key_base rank)) (\<lambda>_.
          cbind (cfor 1 NUM_OPS_mt (return_link_turn H key_base rank)) (\<lambda>_.
          creturn 0)))))
      | _ \<Rightarrow> cbind (cprint ''Usage: key_base'') (\<lambda>_. cfail (Exit (-1))))"

section \<open>redis/redis_create_shadow.c\<close>

definition NUM_OPS_shadow :: nat where "NUM_OPS_shadow = 10000"

definition shadow_buf :: string where "shadow_buf = ''OrangeFS: this is the actual file name''"

text \<open>The value is as many bytes of the buffer as the \<^emph>\<open>key\<close> has characters.\<close>

definition shadow_turn :: "'h hircluster \<Rightarrow> string \<Rightarrow> (('h, 'm) cworld, unit) cprog" where
  "shadow_turn H key =
     (case mem_read 0 (length key) (shadow_buf @ [CHR 0x00]) of
        None \<Rightarrow> cfail Undefined
      | Some v \<Rightarrow> redis_set_checked H ''Something is wrong'' key v)"

definition shadow_nodes :: string where
  "shadow_nodes =
     ''ares-comp-25-40g:7000,ares-comp-26-40g:7001,ares-comp-27-40g:7002,ares-comp-28-40g:7003,'' @
     ''ares-comp-29-40g:7004,ares-comp-30-40g:7005,ares-comp-31-40g:7006,ares-comp-32-40g:7007''"

definition create_shadow_main :: "'h hircluster \<Rightarrow> string list \<Rightarrow> (('h, 'm) cworld, int) cprog" where
  "create_shadow_main H argv =
     (case argv of
        [prog, key] \<Rightarrow>
          cbind (cprint (''Node list: '' @ shadow_nodes)) (\<lambda>_.
          cbind (case hc_connect H shadow_nodes of
                   Some errstr \<Rightarrow> cprint (''Error: '' @ errstr) | None \<Rightarrow> creturn ()) (\<lambda>_.
          cbind (srand 1) (\<lambda>_.
          cbind (cfor 1 NUM_OPS_shadow (\<lambda>i. shadow_turn H key)) (\<lambda>_.
          creturn 0))))
      | _ \<Rightarrow> cbind (cprint ''Usage: key'') (\<lambda>_. cfail (Exit (-1))))"

section \<open>mongodb/link_mongo.c\<close>

definition hop_connectToMongoDBServerWithURI ::
  "'m mongoc \<Rightarrow> bool \<Rightarrow> int \<Rightarrow> string \<Rightarrow> (('h, 'm) cworld, int) cprog" where
  "hop_connectToMongoDBServerWithURI M harmless junk_ret uri_string =
     (case mc_connect M uri_string of
        (uri, client, ping) \<Rightarrow>
          if \<not> uri then cbind (cprint (''failed to parse URI: '' @ uri_string)) (\<lambda>_. creturn 1)
          else if \<not> client then creturn 1
          else if \<not> ping then cbind (cprint ''ping failed'') (\<lambda>_. creturn 1)
          else if \<not> harmless then cfail Undefined
          else creturn junk_ret)"

definition hop_connectToMongoDBServer ::
  "'m mongoc \<Rightarrow> bool \<Rightarrow> int \<Rightarrow> (('h, 'm) cworld, int) cprog" where
  "hop_connectToMongoDBServer M harmless junk_ret =
     cbind (clift (mongo_uri ''ares-comp-25-40g'')) (hop_connectToMongoDBServerWithURI M harmless junk_ret)"

definition hop_connectToMongoDBServerMPI ::
  "'m mongoc \<Rightarrow> bool \<Rightarrow> int \<Rightarrow> string \<Rightarrow> (('h, 'm) cworld, int) cprog" where
  "hop_connectToMongoDBServerMPI M harmless junk_ret hostname =
     cbind (clift (mongo_uri hostname)) (hop_connectToMongoDBServerWithURI M harmless junk_ret)"

definition hop_cleanMongoDB :: "'m mongoc \<Rightarrow> (('h, 'm) cworld, unit) cprog" where
  "hop_cleanMongoDB M w =
     (case mc_drop M (cw_mongo w) of
        (Some msg, m') \<Rightarrow> cprint msg (w\<lparr>cw_mongo := m'\<rparr>)
      | (None, m') \<Rightarrow> (Inr (), w\<lparr>cw_mongo := m'\<rparr>))"

definition create_link_mongo :: "'m mongoc \<Rightarrow> string \<Rightarrow> (('h, 'm) cworld, unit) cprog" where
  "create_link_mongo M key_str = mongo_insert_doc M [(key_str, ''mongodb'')]"

definition create_return_link_mongo ::
  "'m mongoc \<Rightarrow> string \<Rightarrow> string \<Rightarrow> (('h, 'm) cworld, unit) cprog" where
  "create_return_link_mongo M key_str target = mongo_insert_doc M [(key_str, target)]"

text \<open>The value is the C string in the buffer.\<close>

definition create_link_mongo_sized ::
  "'m mongoc \<Rightarrow> string \<Rightarrow> bytes \<Rightarrow> (('h, 'm) cworld, unit) cprog" where
  "create_link_mongo_sized M key_str buf =
     cbind (clift (string_in buf)) (\<lambda>s. mongo_insert_doc M [(key_str, s)])"

section \<open>mongodb/insert.c and insert_mpi.c\<close>

definition NUM_OPS_insert :: nat where "NUM_OPS_insert = 1000"

definition insert_main ::
  "'m mongoc \<Rightarrow> bool \<Rightarrow> int \<Rightarrow> string list \<Rightarrow> (('h, 'm) cworld, int) cprog" where
  "insert_main M harmless junk_ret argv =
     (if length argv < 2 then cbind (cprint ''Usage: size'') (\<lambda>_. cfail (Exit (-1)))
      else let sz = atoi (argv ! 1) in
           if sz < 0 then cfail Undefined
           else cbind (hop_connectToMongoDBServer M harmless junk_ret) (\<lambda>_.
                cbind (cfor 0 NUM_OPS_insert (\<lambda>i.
                  cbind (clift (sprintf_to 128 (''key_'' @ nat_to_string i))) (\<lambda>key.
                  create_link_mongo_sized M key (replicate (nat sz) (CHR ''A''))))) (\<lambda>_.
                creturn 0)))"

definition insert_mpi_main ::
  "'m mongoc \<Rightarrow> rand_fun \<Rightarrow> bool \<Rightarrow> int \<Rightarrow> string \<Rightarrow> int \<Rightarrow> int \<Rightarrow> string list \<Rightarrow> (('h, 'm) cworld, int) cprog" where
  "insert_mpi_main M rnd harmless junk_ret hostname now rank argv =
     (if length argv < 2 then cbind (cprint ''Usage: key_base'') (\<lambda>_. cfail (Exit (-1)))
      else cbind (clift (sprintf_to 1024 (argv ! 1))) (\<lambda>key_base.
           cbind (hop_connectToMongoDBServerMPI M harmless junk_ret hostname) (\<lambda>_.
           cbind (srand (now + rank)) (\<lambda>_.
           cbind (cfor 0 10 (\<lambda>i.
             cbind (crand rnd) (\<lambda>r.
             cbind (clift (sprintf_to 1024 (key_base @ ''_'' @ show_d rank @ ''_'' @ show_d r))) (\<lambda>key.
             create_link_mongo M key)))) (\<lambda>_.
           creturn 0)))))"

section \<open>mongodb/query.c\<close>

text \<open>
  \<^verbatim>\<open>query.c\<close> prints every document. \<open>all_docs\<close> is what a query without conditions finds, \<open>as_json\<close> the
  text of a document. A block of a negative size is not allocated, and filled nevertheless; a
  connection that failed is not noticed, and the query goes to a null collection.
\<close>

fun print_docs :: "(document \<Rightarrow> string) \<Rightarrow> document list \<Rightarrow> (('h, 'm) cworld, unit) cprog" where
  "print_docs as_json [] = creturn ()"
| "print_docs as_json (d # ds) = cbind (cprint (as_json d)) (\<lambda>_. print_docs as_json ds)"

definition query_main ::
  "'m mongoc \<Rightarrow> bool \<Rightarrow> int \<Rightarrow> ('m \<Rightarrow> document list) \<Rightarrow> (document \<Rightarrow> string) \<Rightarrow> string list \<Rightarrow>
   (('h, 'm) cworld, int) cprog" where
  "query_main M harmless junk_ret all_docs as_json argv =
     (if length argv < 3 then cbind (cprint ''Usage: URI size'') (\<lambda>_. cfail (Exit (-1)))
      else if atoi (argv ! 2) < 0 then cbind (cprint ''Allocate error!'') (\<lambda>_. cfail Undefined)
      else cbind (hop_connectToMongoDBServerWithURI M harmless junk_ret (argv ! 1)) (\<lambda>_.
           if mc_connect M (argv ! 1) \<noteq> (True, True, True) then cfail Undefined
           else cbind (\<lambda>w. print_docs as_json (all_docs (cw_mongo w)) w) (\<lambda>_. creturn 0)))"

section \<open>redis_create_shadow.c and redis_create_shadow_mt.c: random strings\<close>

definition hop_charset :: string where
  "hop_charset =
     ''abcdefghijklmnopqrstuvwxyzABCDEFGHIJKLMNOPQRSTUVWXYZ0123456789,.-#'' @ [CHR 0x27] @ ''?!''"

definition shadow_randstring :: "rand_fun \<Rightarrow> int \<Rightarrow> (('h, 'm) cworld, string option) cprog" where
  "shadow_randstring = randstring_from hop_charset"

definition shadow_mt_randstring :: "rand_fun \<Rightarrow> int \<Rightarrow> (('h, 'm) cworld, string option) cprog" where
  "shadow_mt_randstring = randstring_from hop_charset"

section \<open>Lemmas\<close>

lemma hop_key_inject [simp]: "hop_key b rank i = hop_key b rank j \<longleftrightarrow> i = j"
  by (simp add: hop_key_def)

lemma hop_key_fits:
  "length b < 900 \<Longrightarrow> in_int32 rank \<Longrightarrow> i \<le> 2000 \<Longrightarrow> sprintf_to 1024 (hop_key b rank i) = Inr (hop_key b rank i)"
  using length_int_to_string_bound [of rank] length_nat_to_string_bound [of i 3]
  by (intro sprintf_to_fits) (simp add: hop_key_def show_d_def in_int32_def)

lemma node_list_fits:
  "start + i + left \<le> 100 \<Longrightarrow> length nodelist + 18 * left < cap \<Longrightarrow>
   \<exists>nodes. node_list cap start i left nodelist = Inr nodes"
proof (induction left arbitrary: i nodelist)
  case (Suc left)
  let ?t = "REDIS_HOST_BASE @ show_02d (start + i) @ '':'' @ nat_to_string (REDIS_PORT_BASE + i)"
  have "length (nat_to_string (start + i)) \<le> 2" "length (nat_to_string (7000 + i)) \<le> 4"
    using Suc.prems(1) length_nat_to_string_bound [of "start + i" 1] length_nat_to_string_bound [of "7000 + i" 3]
    by simp_all
  moreover have "length (show_02d (start + i)) \<le> 2"
    using calculation(1) by (simp add: show_02d_def) (simp add: nat_to_string.simps)
  ultimately have t: "length ?t \<le> 17" by (simp add: REDIS_HOST_BASE_def REDIS_PORT_BASE_def)
  then have "sprintf_to 32 ?t = Inr ?t" "strcat_to cap nodelist ?t = Inr (nodelist @ ?t)"
    "strcat_to cap (nodelist @ ?t) '','' = Inr (nodelist @ ?t @ '','')"
    using Suc.prems(2) by (simp_all add: sprintf_to_def strcat_to_def)
  then show ?case
    using Suc.IH [of "Suc i" "nodelist @ ?t @ (if left \<noteq> 0 then '','' else [])"] Suc.prems t
    by (cases "left = 0") simp_all
qed simp

lemma hop_connect_out: "\<exists>out. hop_connectToRedisServer H w = (Inr (), w\<lparr>cw_out := out\<rparr>)"
proof -
  obtain nodes where g: "hop_genNodeList = Inr nodes"
    unfolding hop_genNodeList_def using node_list_fits [of 25 0 8 "[]" 1024] by auto
  show ?thesis
  proof (cases "hc_connect H nodes")
    case None
    then show ?thesis unfolding hop_connectToRedisServer_def g
      by (intro exI [of _ "cw_out w"]) (simp add: creturn_def)
  next
    case (Some errstr)
    then show ?thesis unfolding hop_connectToRedisServer_def g by (auto simp: cprint_def)
  qed
qed

text \<open>A loop that sets one key per turn: the keys set so far and everything else.\<close>

lemma set_loop:
  assumes "hircluster_ok H up" "up (cw_redis w)" "length v \<le> 512 * 1024 * 1024"
    and turn: "\<And>j w. a \<le> j \<Longrightarrow> j < a + n \<Longrightarrow> body j w = redis_set_checked H msg (key j) v w"
  shows "\<exists>h'. cfor a n body w = (Inr (), w\<lparr>cw_redis := h'\<rparr>) \<and> up h' \<and>
     (\<forall>k. hc_get H k h' = (if \<exists>j. a \<le> j \<and> j < a + n \<and> k = key j then Reply v else hc_get H k (cw_redis w)))"
proof -
  let ?I = "\<lambda>j w'. \<exists>h'. w' = w\<lparr>cw_redis := h'\<rparr> \<and> up h' \<and>
     (\<forall>k. hc_get H k h' = (if \<exists>i. a \<le> i \<and> i < j \<and> k = key i then Reply v else hc_get H k (cw_redis w)))"
  have "\<exists>w'. cfor a n body w = (Inr (), w') \<and> ?I (a + n) w'"
  proof (rule cfor_invariant [where I = ?I])
    show "?I a w" using assms(2) by (intro exI [of _ "cw_redis w"]) auto
  next
    fix j and w' :: "('a, 'b) cworld"
    assume j: "a \<le> j" "j < a + n" and "?I j w'"
    then obtain h1 where h1: "w' = w\<lparr>cw_redis := h1\<rparr>" "up h1"
      "\<forall>k. hc_get H k h1 = (if \<exists>i. a \<le> i \<and> i < j \<and> k = key i then Reply v else hc_get H k (cw_redis w))"
      by blast
    have "up (cw_redis w')" using h1(1,2) by simp
    then obtain h2 where h2: "redis_set_checked H msg (key j) v w' = (Inr (), w'\<lparr>cw_redis := h2\<rparr>)" "up h2"
      "\<And>k. hc_get H k h2 = (if k = key j then Reply v else hc_get H k (cw_redis w'))"
      using redis_set_checked_ok [OF assms(1) _ assms(3)] by metis
    have "?I (Suc j) (w'\<lparr>cw_redis := h2\<rparr>)"
      using h1 h2(2,3) j by (intro exI [of _ h2]) (auto simp: less_Suc_eq)
    then show "\<exists>w''. body j w' = (Inr (), w'') \<and> ?I (Suc j) w''"
      using turn [OF j] h2(1) by auto
  qed
  then show ?thesis by blast
qed

section \<open>Properties\<close>

text \<open>
  The MPI program that creates links leaves, for its rank, 1000 links \<^verbatim>\<open>redis\<close> under the keys
  1 to 1000 and 1000 return links \<^verbatim>\<open>orangefs\<close> under the keys 1001 to 2000, and every other key
  as it was.
\<close>

theorem create_shadow_mt_links:
  assumes "hircluster_ok H up" "up (cw_redis w)" "in_int32 rank" "length base < 900"
  shows "\<exists>w'. create_shadow_mt_main H rank [prog, base] w = (Inr 0, w') \<and>
     (\<forall>k. hc_get H k (cw_redis w') =
        (if \<exists>j. 1 \<le> j \<and> j \<le> 1000 \<and> k = hop_key base rank j then Reply ''redis''
         else if \<exists>j. 1 \<le> j \<and> j \<le> 1000 \<and> k = hop_key base rank (j + 1000) then Reply ''orangefs''
         else hc_get H k (cw_redis w)))"
proof -
  obtain out where c: "hop_connectToRedisServer H w = (Inr (), w\<lparr>cw_out := out\<rparr>)"
    using hop_connect_out by blast
  let ?w1 = "w\<lparr>cw_out := out, cw_seed := 1, cw_calls := 0\<rparr>"
  have l1: "length ''redis'' \<le> 512 * 1024 * 1024" and l2: "length ''orangefs'' \<le> 512 * 1024 * 1024" by simp_all
  have up1: "up (cw_redis ?w1)" using assms(2) by simp
  have t1: "link_turn H base rank j w' = redis_set_checked H ''Something is wrong'' (hop_key base rank j) ''redis'' w'"
    if "1 \<le> j" "j < 1 + NUM_OPS_mt" for j and w' :: "('a, 'b) cworld"
    using that hop_key_fits [OF assms(4,3), of j] by (simp add: link_turn_def create_link_redis_def NUM_OPS_mt_def)
  obtain h2 where h2: "cfor 1 NUM_OPS_mt (link_turn H base rank) ?w1 = (Inr (), ?w1\<lparr>cw_redis := h2\<rparr>)" "up h2"
    "\<forall>k. hc_get H k h2 = (if \<exists>j. 1 \<le> j \<and> j < 1 + NUM_OPS_mt \<and> k = hop_key base rank j then Reply ''redis''
                          else hc_get H k (cw_redis ?w1))"
    using set_loop [where a = 1 and n = NUM_OPS_mt and body = "link_turn H base rank"
        and key = "hop_key base rank", OF assms(1) up1 l1] t1 by blast
  let ?w2 = "?w1\<lparr>cw_redis := h2\<rparr>"
  have up2: "up (cw_redis ?w2)" using h2(2) by simp
  have t2: "return_link_turn H base rank j w' =
      redis_set_checked H ''Something is wrong'' (hop_key base rank (j + 1000)) ''orangefs'' w'"
    if "1 \<le> j" "j < 1 + NUM_OPS_mt" for j and w' :: "('a, 'b) cworld"
    using that hop_key_fits [OF assms(4,3), of "j + 1000"]
    by (simp add: return_link_turn_def create_return_link_redis_def NUM_OPS_mt_def)
  obtain h3 where h3: "cfor 1 NUM_OPS_mt (return_link_turn H base rank) ?w2 = (Inr (), ?w2\<lparr>cw_redis := h3\<rparr>)"
    "\<forall>k. hc_get H k h3 = (if \<exists>j. 1 \<le> j \<and> j < 1 + NUM_OPS_mt \<and> k = hop_key base rank (j + 1000) then Reply ''orangefs''
                          else hc_get H k (cw_redis ?w2))"
    using set_loop [where a = 1 and n = NUM_OPS_mt and body = "return_link_turn H base rank"
        and key = "\<lambda>j. hop_key base rank (j + 1000)", OF assms(1) up2 l2] t2 by blast
  have run: "create_shadow_mt_main H rank [prog, base] w = (Inr 0, ?w2\<lparr>cw_redis := h3\<rparr>)"
    using assms(4) c h2(1) h3(1)
    by (simp add: create_shadow_mt_main_def sprintf_to_def cbind_Inr srand_def creturn_def)
  have gets: "hc_get H k (cw_redis (?w2\<lparr>cw_redis := h3\<rparr>)) =
      (if \<exists>j. 1 \<le> j \<and> j < 1 + NUM_OPS_mt \<and> k = hop_key base rank (j + 1000) then Reply ''orangefs''
       else if \<exists>j. 1 \<le> j \<and> j < 1 + NUM_OPS_mt \<and> k = hop_key base rank j then Reply ''redis'' else hc_get H k (cw_redis w))" for k
  proof -
    have "cw_redis (?w2\<lparr>cw_redis := h3\<rparr>) = h3" "cw_redis ?w2 = h2" "cw_redis ?w1 = cw_redis w" by simp_all
    then show ?thesis using h3(2) [rule_format, of k] h2(3) [rule_format, of k] by (simp only:)
  qed
  have swap: "(if \<exists>j. 1 \<le> j \<and> j < 1 + NUM_OPS_mt \<and> k = hop_key base rank (j + 1000) then Reply ''orangefs''
      else if \<exists>j. 1 \<le> j \<and> j < 1 + NUM_OPS_mt \<and> k = hop_key base rank j then Reply ''redis'' else hc_get H k (cw_redis w)) =
      (if \<exists>j. 1 \<le> j \<and> j \<le> 1000 \<and> k = hop_key base rank j then Reply ''redis''
       else if \<exists>j. 1 \<le> j \<and> j \<le> 1000 \<and> k = hop_key base rank (j + 1000) then Reply ''orangefs''
       else hc_get H k (cw_redis w))" for k
  proof -
    have le: "(j < 1 + NUM_OPS_mt) = (j \<le> 1000)" for j by (auto simp: NUM_OPS_mt_def)
    show ?thesis unfolding le by auto
  qed
  show ?thesis
    by (rule exI [of _ "?w2\<lparr>cw_redis := h3\<rparr>"], rule conjI [OF run], rule allI) (rule trans [OF gets swap])
qed

theorem create_shadow_mt_links_witness:
  "\<exists>w'. create_shadow_mt_main ref_hircluster 3 [''a.out'', ''f''] (ref_cworld (\<lambda>_. None) ()) = (Inr 0, w') \<and>
        hc_get ref_hircluster (hop_key ''f'' 3 7) (cw_redis w') = Reply ''redis'' \<and>
        hc_get ref_hircluster (hop_key ''f'' 3 1007) (cw_redis w') = Reply ''orangefs''"
proof -
  obtain w' where w': "create_shadow_mt_main ref_hircluster 3 [''a.out'', ''f''] (ref_cworld (\<lambda>_. None) ()) = (Inr 0, w')"
    "\<forall>k. hc_get ref_hircluster k (cw_redis w') =
        (if \<exists>j. 1 \<le> j \<and> j \<le> 1000 \<and> k = hop_key ''f'' 3 j then Reply ''redis''
         else if \<exists>j. 1 \<le> j \<and> j \<le> 1000 \<and> k = hop_key ''f'' 3 (j + 1000) then Reply ''orangefs''
         else hc_get ref_hircluster k (cw_redis (ref_cworld (\<lambda>_. None) ())))"
    using create_shadow_mt_links [OF ref_hircluster_ok, where w = "ref_cworld (\<lambda>_. None) ()" and rank = 3
        and base = "''f''" and prog = "''a.out''"]
    by (auto simp: in_int32_def)
  have "\<exists>j. 1 \<le> j \<and> j \<le> 1000 \<and> (1007::nat) = j + 1000" by (rule exI [of _ 7]) simp
  then show ?thesis using w' by simp
qed

text \<open>
  \<^verbatim>\<open>redis_create_shadow\<close> stores, under its key, as many bytes of the target's name as the key
  has characters: the name is cut for a key shorter than it, and for a key of more than 39
  characters the program reads past the end of the name.
\<close>

theorem shadow_value_length_of_key:
  assumes "hircluster_ok H up" "up (cw_redis w)"
  shows "if length key \<le> 39
    then \<exists>w'. create_shadow_main H [prog, key] w = (Inr 0, w') \<and>
              hc_get H key (cw_redis w') = Reply (take (length key) (shadow_buf @ [CHR 0x00]))
    else \<exists>w'. create_shadow_main H [prog, key] w = (Inl Undefined, w')"
proof -
  let ?v = "take (length key) (shadow_buf @ [CHR 0x00])"
  have buf: "length (shadow_buf @ [CHR 0x00]) = 39" by (simp add: shadow_buf_def)
  obtain out where out: "cbind (cprint (''Node list: '' @ shadow_nodes)) (\<lambda>_.
      case hc_connect H shadow_nodes of Some errstr \<Rightarrow> cprint (''Error: '' @ errstr) | None \<Rightarrow> creturn ()) w =
      (Inr (), w\<lparr>cw_out := out\<rparr>)"
    by (cases "hc_connect H shadow_nodes") (auto simp: cbind_def cprint_def creturn_def)
  let ?w1 = "w\<lparr>cw_out := out, cw_seed := 1, cw_calls := 0\<rparr>"
  have run: "create_shadow_main H [prog, key] w =
      cbind (cfor 1 NUM_OPS_shadow (\<lambda>i. shadow_turn H key)) (\<lambda>_. creturn 0) ?w1"
    using out
    by (simp add: create_shadow_main_def cbind_def srand_def split: prod.splits sum.splits)
  show ?thesis
  proof (cases "length key \<le> 39")
    case True
    have t: "shadow_turn H key w' = redis_set_checked H ''Something is wrong'' key ?v w'" for w' :: "('a, 'b) cworld"
      using True buf by (simp add: shadow_turn_def mem_read_def)
    have v: "length ?v \<le> 512 * 1024 * 1024" using True by simp
    have up1: "up (cw_redis ?w1)" using assms(2) by simp
    obtain h' where h': "cfor 1 NUM_OPS_shadow (\<lambda>i. shadow_turn H key) ?w1 = (Inr (), ?w1\<lparr>cw_redis := h'\<rparr>)"
      "\<forall>k. hc_get H k h' = (if \<exists>j. 1 \<le> j \<and> j < 1 + NUM_OPS_shadow \<and> k = key then Reply ?v
                            else hc_get H k (cw_redis ?w1))"
      using set_loop [OF assms(1) up1 v t] by blast
    have "\<exists>j. 1 \<le> j \<and> j < 1 + NUM_OPS_shadow" by (rule exI [of _ 1]) (simp add: NUM_OPS_shadow_def)
    then have "hc_get H key h' = Reply ?v" using h'(2) by simp
    then show ?thesis using True h'(1) run by (simp add: cbind_Inr creturn_def)
  next
    case False
    then have t: "shadow_turn H key = (cfail Undefined :: (('a, 'b) cworld, unit) cprog)" using buf by (simp add: shadow_turn_def mem_read_def)
    have "NUM_OPS_shadow = Suc 9999" by (simp add: NUM_OPS_shadow_def)
    then have "cfor 1 NUM_OPS_shadow (\<lambda>i. shadow_turn H key) ?w1 = (Inl Undefined, ?w1)"
      unfolding \<open>NUM_OPS_shadow = Suc 9999\<close> cfor.simps(2) t by (simp add: cfail_def)
    then show ?thesis using False run by (simp add: cbind_Inl)
  qed
qed

theorem shadow_value_length_of_key_witness:
  "\<exists>w'. create_shadow_main ref_hircluster [''a.out'', ''link''] (ref_cworld (\<lambda>_. None) ()) = (Inr 0, w') \<and>
        hc_get ref_hircluster ''link'' (cw_redis w') = Reply ''Oran''"
  using shadow_value_length_of_key [OF ref_hircluster_ok, where w = "ref_cworld (\<lambda>_. None) ()" and key = "''link''"
      and prog = "''a.out''"]
  by (simp add: shadow_buf_def)

text \<open>
  \<^verbatim>\<open>insert\<close> with a positive size never stores a link: its buffer has no terminating NUL, so the
  first insertion reads past its end.
\<close>

theorem insert_reads_past_buffer:
  assumes "0 < atoi (argv ! 1)" "2 \<le> length argv"
    and "mc_connect M uri = (True, True, True)" "mongo_uri ''ares-comp-25-40g'' = Inr uri"
  shows "insert_main M True junk_ret argv w = (Inl Undefined, w)"
proof -
  have "string_in (replicate (nat (atoi (argv ! 1))) (CHR ''A'')) = Inl Undefined"
    by (simp add: string_in_def)
  then have body: "create_link_mongo_sized M key (replicate (nat (atoi (argv ! 1))) (CHR ''A'')) = cfail Undefined" for key
    by (simp add: create_link_mongo_sized_def)
  have "length (nat_to_string 0) \<le> Suc 0" by (rule length_nat_to_string_bound) simp
  moreover have "NUM_OPS_insert = Suc 999" by (simp add: NUM_OPS_insert_def)
  ultimately have "cfor 0 NUM_OPS_insert (\<lambda>i. cbind (clift (sprintf_to 128 (''key_'' @ nat_to_string i))) (\<lambda>key.
      create_link_mongo_sized M key (replicate (nat (atoi (argv ! 1))) (CHR ''A'')))) w = (Inl Undefined, w)"
    unfolding body \<open>NUM_OPS_insert = Suc 999\<close> cfor.simps(2)
    by (simp add: sprintf_to_def) (simp add: cfail_def)
  then show ?thesis
    using assms
    by (simp add: insert_main_def hop_connectToMongoDBServer_def hop_connectToMongoDBServerWithURI_def
        cbind_def cfail_def creturn_def)
qed

theorem insert_reads_past_buffer_witness:
  "insert_main ref_mongoc True 0 [''insert'', int_to_string 16] (ref_cworld () (\<lambda>_. None)) =
     (Inl Undefined, ref_cworld () (\<lambda>_. None))"
proof (rule insert_reads_past_buffer)
  show "0 < atoi ([''insert'', int_to_string 16] ! 1)" using atoi_int_to_string [of 16] by simp
  show "mongo_uri ''ares-comp-25-40g'' = Inr (''mongodb://ares-comp-25-40g:'' @ nat_to_string MONGODB_PORT)"
    using length_nat_to_string_bound [of 27017 4] by (simp add: mongo_uri_def sprintf_to_def MONGODB_PORT_def)
qed (simp_all add: ref_mongoc_def)

text \<open>\<^verbatim>\<open>query.c\<close> prints the documents in order and changes nothing else.\<close>

lemma print_docs_out: "print_docs as_json ds w = (Inr (), w\<lparr>cw_out := cw_out w @ map as_json ds\<rparr>)"
  by (induction ds arbitrary: w) (simp_all add: creturn_def cbind_def cprint_def)

theorem query_prints_all:
  assumes "\<not> atoi (argv ! 2) < 0" "3 \<le> length argv" "mc_connect M (argv ! 1) = (True, True, True)"
  shows "query_main M True junk_ret all_docs as_json argv w =
    (Inr 0, w\<lparr>cw_out := cw_out w @ map as_json (all_docs (cw_mongo w))\<rparr>)"
  using assms by (simp add: query_main_def hop_connectToMongoDBServerWithURI_def cbind_def creturn_def print_docs_out)

end
