(* ===== verification/Iris.thy ===== *)
theory Iris
  imports Wire_Reference Client_Laws "HOL-Library.Signed_Division"
begin

text \<open>
  \<^verbatim>\<open>common/include/common/iris.h\<close> and \<^verbatim>\<open>common/src/common/iris.cpp\<close>: the library handler that
  benchmarks and replayers drive. With \<^verbatim>\<open>IRIS\<close> it maps a range of a file to objects of at
  most \<^verbatim>\<open>max_obj_size\<close> bytes (\<^verbatim>\<open>DataMapper\<close>) and calls one storage client for each; with
  \<^verbatim>\<open>SYMBIOS\<close> or \<^verbatim>\<open>NIOBE\<close> it sends the request to the Symbios client.

  A \<^verbatim>\<open>long\<close> is an \<open>int\<close>, and a sum that leaves its range is undefined; the object size of the
  mapper is a 32-bit \<^verbatim>\<open>uint\<close>. The result of \<^verbatim>\<open>rand()\<close> and the number of servers of a client call
  are arguments. Debug output is left out; the text \<^verbatim>\<open>do_mapped_read\<close> prints is its result.
\<close>

section \<open>Data\<close>

datatype IOLib = POSIX | IRIS | NIOBE | SYMBIOS

datatype OPType = READ | WRITE | DELETE

record DataDescriptor =
  dsc_id :: string
  dsc_position :: int
  dsc_size :: int
  dsc_chunk_index :: int32

record LibHandler =
  lh_file :: string
  lh_lib_type :: IOLib
  lh_db_type :: uint16
  lh_max_obj_size :: int
  lh_print :: bool

text \<open>\<^verbatim>\<open>slice_str\<close>: the characters \<open>start\<close> to \<open>end\<close>, both included, and a NUL.\<close>

definition slice_str :: "bytes \<Rightarrow> bytes \<Rightarrow> nat \<Rightarrow> nat \<Rightarrow> bytes res" where
  "slice_str str buffer start stop =
     (case mem_read start (Suc stop - start) str of
        None \<Rightarrow> if start \<le> stop then Inl Undefined
                else (case memcpy_at 0 [CHR 0x00] buffer of None \<Rightarrow> Inl Undefined | Some b \<Rightarrow> Inr b)
      | Some piece \<Rightarrow>
          (case memcpy_at 0 (piece @ [CHR 0x00]) buffer of None \<Rightarrow> Inl Undefined | Some b \<Rightarrow> Inr b))"

section \<open>The data mapper\<close>

lemma smod_less: "0 < b \<Longrightarrow> (a :: int) smod b < b"
  using smod_int_compares(1) [of a b] smod_int_compares(4) [of a b] by (cases "0 \<le> a") auto

text \<open>
  The loop of \<^verbatim>\<open>DataMapper::map\<close>: \<open>max\<close> is \<^verbatim>\<open>maxObjSize\<close>, a division by which is undefined for
  0; the quotient and the remainder are those of C.
\<close>

function map_loop :: "string \<Rightarrow> int \<Rightarrow> int \<Rightarrow> nat \<Rightarrow> DataDescriptor list res" where
  "map_loop src_id maxObjSize curr_pos remaining =
     (if remaining = 0 then Inr []
      else if maxObjSize \<le> 0 then Inl Undefined
      else let index = curr_pos sdiv maxObjSize;
               position = curr_pos smod maxObjSize;
               room = maxObjSize - position;
               sz = (if int remaining > room then room else int remaining);
               obj = \<lparr>dsc_id = src_id @ int_to_string index, dsc_position = position, dsc_size = sz,
                      dsc_chunk_index = word_of_int index\<rparr>
           in if curr_pos + sz \<ge> 2 ^ 63 then Inl Undefined
              else and_then (map_loop src_id maxObjSize (curr_pos + sz) (remaining - nat sz)) (\<lambda>objects.
                     Inr (obj # objects)))"
  by pat_completeness auto
termination
  by (relation "measure (\<lambda>(_, _, _, remaining). remaining)") (auto simp: Let_def smod_less intro!: diff_less)

declare map_loop.simps [simp del]

text \<open>\<^verbatim>\<open>DataMapper(type, max_obj_size).map(src)\<close>: the \<^verbatim>\<open>long\<close> becomes a \<^verbatim>\<open>uint\<close>.\<close>

definition DataMapper_map :: "int \<Rightarrow> string \<Rightarrow> int \<Rightarrow> size_t \<Rightarrow> DataDescriptor list res" where
  "DataMapper_map max_obj_size file offset request_size =
     map_loop file (uint (word_of_int max_obj_size :: int32)) offset (unat request_size)"

section \<open>The operations\<close>

text \<open>
  The constructor of \<^verbatim>\<open>doOp\<close> constructs the factory, which constructs the clients that are not
  there yet, and asks it for the client of an index.
\<close>

definition doOp :: "probes \<Rightarrow> ('r, 'm) world \<Rightarrow> uint16 \<Rightarrow> IOClientType res" where
  "doOp P w db_type =
     and_then (IOFactory P (STORAGE_SOLUTIONS (w_conf w))) (\<lambda>_. GetIOClient w db_type)"

text \<open>The loops over the objects, for the methods of the client.\<close>

fun write_objs ::
  "('w \<Rightarrow> Data \<Rightarrow> Data \<Rightarrow> Data res \<times> 'w) \<Rightarrow> uint16 \<Rightarrow> 'w \<Rightarrow> bytes option \<Rightarrow> size_t \<Rightarrow> DataDescriptor list \<Rightarrow>
   unit res \<times> 'w" where
  "write_objs wr db_type w dat source_position [] = (Inr (), w)"
| "write_objs wr db_type w dat source_position (i # objs) =
     (let dest_data = default_Data\<lparr>d_id := dsc_id i, d_position := word_of_int (dsc_position i),
                        d_data_size := word_of_int (dsc_size i), d_storage_index := db_type\<rparr>;
          src_data = default_Data\<lparr>d_buffer := dat, d_position := source_position,
                       d_data_size := word_of_int (dsc_size i)\<rparr>
      in case wr w src_data dest_data of
           (Inl e, w') \<Rightarrow> (Inl e, w')
         | (Inr _, w') \<Rightarrow>
             write_objs wr db_type w' dat (source_position + word_of_int (dsc_size i)) objs)"

fun remove_objs ::
  "('w \<Rightarrow> Data \<Rightarrow> bool res \<times> 'w) \<Rightarrow> uint16 \<Rightarrow> 'w \<Rightarrow> DataDescriptor list \<Rightarrow> unit res \<times> 'w" where
  "remove_objs rm db_type w [] = (Inr (), w)"
| "remove_objs rm db_type w (i # objs) =
     (case rm w (default_Data\<lparr>d_id := dsc_id i, d_position := word_of_int (dsc_position i),
                   d_storage_index := db_type\<rparr>) of
        (Inl e, w') \<Rightarrow> (Inl e, w')
      | (Inr _, w') \<Rightarrow> remove_objs rm db_type w' objs)"

text \<open>
  The read loop prints what it reads when \<^verbatim>\<open>print_p\<close> is set; the buffer of the caller is not
  touched. \<^verbatim>\<open>data_offset\<close> is an \<^verbatim>\<open>int\<close>, compared with the request's size as a \<^verbatim>\<open>size_t\<close>.
\<close>

fun read_objs ::
  "(Data \<Rightarrow> Data \<Rightarrow> Data res) \<Rightarrow> uint16 \<Rightarrow> bool \<Rightarrow> size_t \<Rightarrow> int32 \<Rightarrow> DataDescriptor list \<Rightarrow> string res" where
  "read_objs rd db_type print_p request_size data_offset [] = Inr []"
| "read_objs rd db_type print_p request_size data_offset (i # objs) =
     (let sz = word_of_int (dsc_size i);
          src_data = default_Data\<lparr>d_id := dsc_id i, d_position := word_of_int (dsc_position i),
                       d_data_size := sz, d_storage_index := db_type\<rparr>;
          dest_data = default_Data\<lparr>d_position := 0,
                        d_data_size := (if scast data_offset + sz > request_size
                                        then request_size - scast data_offset else sz)\<rparr>;
          data_offset' = ucast (scast data_offset + sz)
      in and_then (rd src_data dest_data) (\<lambda>got.
         and_then (if print_p
                   then (case memcpy_at (unat sz) [CHR 0x00] (old_bytes (d_buffer got)) of
                           None \<Rightarrow> Inl Undefined
                         | Some buf \<Rightarrow> Inr (takeWhile (\<lambda>c. c \<noteq> CHR 0x00) buf))
                   else Inr []) (\<lambda>printed.
         if scast data_offset' > request_size then Inr printed
         else and_then (read_objs rd db_type print_p request_size data_offset' objs) (\<lambda>rest.
                Inr (printed @ rest)))))"

text \<open>What the requests to the Symbios client share.\<close>

definition symbios_request :: "LibHandler \<Rightarrow> int \<Rightarrow> size_t \<Rightarrow> Data" where
  "symbios_request h offset request_size =
     default_Data\<lparr>d_id := lh_file h, d_position := word_of_int offset, d_data_size := request_size,
       d_storage_index := lh_db_type h\<rparr>"

text \<open>\<^verbatim>\<open>objs[0]\<close> is read before the loop.\<close>

definition do_mapped_write ::
  "('r, 'm) env \<Rightarrow> probes \<Rightarrow> int \<Rightarrow> int \<Rightarrow> LibHandler \<Rightarrow> int \<Rightarrow> size_t \<Rightarrow> bytes option \<Rightarrow> ('r, 'm) world \<Rightarrow>
   unit res \<times> ('r, 'm) world" where
  "do_mapped_write E P random num_servers h offset request_size dat w =
     (case lh_lib_type h of
        IRIS \<Rightarrow>
          (case DataMapper_map (lh_max_obj_size h) (lh_file h) offset request_size of
             Inl e \<Rightarrow> (Inl e, w)
           | Inr [] \<Rightarrow> (Inl Undefined, w)
           | Inr objs \<Rightarrow>
               (case doOp P w (lh_db_type h) of
                  Inl e \<Rightarrow> (Inl e, w)
                | Inr t \<Rightarrow> write_objs (client_Write E t) (lh_db_type h) w dat 0 objs))
      | POSIX \<Rightarrow> (Inl (Exit 3), w)
      | _ \<Rightarrow>
          let destination = symbios_request h offset request_size;
              source = destination\<lparr>d_buffer := dat, d_position := 0\<rparr>
          in (case Client_StoreRequest E w random num_servers source destination of
                (Inl e, w') \<Rightarrow> (Inl e, w') | (Inr _, w') \<Rightarrow> (Inr (), w')))"

text \<open>The delete maps the range first, for every library.\<close>

definition do_mapped_delete ::
  "('r, 'm) env \<Rightarrow> probes \<Rightarrow> int \<Rightarrow> int \<Rightarrow> LibHandler \<Rightarrow> int \<Rightarrow> size_t \<Rightarrow> bytes option \<Rightarrow> ('r, 'm) world \<Rightarrow>
   unit res \<times> ('r, 'm) world" where
  "do_mapped_delete E P random num_servers h offset request_size dat w =
     (case DataMapper_map (lh_max_obj_size h) (lh_file h) offset request_size of
        Inl e \<Rightarrow> (Inl e, w)
      | Inr [] \<Rightarrow> (Inl Undefined, w)
      | Inr objs \<Rightarrow>
          (case lh_lib_type h of
             IRIS \<Rightarrow>
               (case doOp P w (lh_db_type h) of
                  Inl e \<Rightarrow> (Inl e, w)
                | Inr t \<Rightarrow> remove_objs (client_Remove E t) (lh_db_type h) w objs)
           | POSIX \<Rightarrow> (Inl (Exit 3), w)
           | _ \<Rightarrow>
               (case Client_Delete E w random num_servers
                       ((symbios_request h offset request_size)\<lparr>d_buffer := dat\<rparr>) of
                  (Inl e, w') \<Rightarrow> (Inl e, w') | (Inr _, w') \<Rightarrow> (Inr (), w'))))"

text \<open>The result: the caller's buffer after the read and the text printed.\<close>

definition do_mapped_read ::
  "('r, 'm) env \<Rightarrow> probes \<Rightarrow> int \<Rightarrow> int \<Rightarrow> LibHandler \<Rightarrow> int \<Rightarrow> size_t \<Rightarrow> bytes option \<Rightarrow> ('r, 'm) world \<Rightarrow>
   (bytes option \<times> string) res" where
  "do_mapped_read E P random num_servers h offset request_size dat w =
     and_then (DataMapper_map (lh_max_obj_size h) (lh_file h) offset request_size) (\<lambda>objs.
       case lh_lib_type h of
         IRIS \<Rightarrow>
           and_then (doOp P w (lh_db_type h)) (\<lambda>t.
           and_then (read_objs (client_Read E t w) (lh_db_type h) (lh_print h) request_size 0 objs) (\<lambda>text.
             Inr (dat, text @ (if lh_print h then [CHR 0x0A] else []))))
       | POSIX \<Rightarrow> Inl (Exit 3)
       | _ \<Rightarrow>
           let source = (symbios_request h offset request_size)\<lparr>d_buffer := dat\<rparr>;
               destination = source\<lparr>d_position := 0\<rparr>
           in and_then (Client_LocateRequest E w random num_servers source destination) (\<lambda>d.
                Inr (d_buffer d, [])))"

text \<open>\<^verbatim>\<open>LibHandler::run\<close>: the new world, the caller's buffer and the text printed.\<close>

definition LibHandler_run ::
  "('r, 'm) env \<Rightarrow> probes \<Rightarrow> int \<Rightarrow> int \<Rightarrow> LibHandler \<Rightarrow> OPType \<Rightarrow> int \<Rightarrow> size_t \<Rightarrow> bytes option \<Rightarrow>
   ('r, 'm) world \<Rightarrow> (bytes option \<times> string) res \<times> ('r, 'm) world" where
  "LibHandler_run E P random num_servers h op_type offset request_size dat w =
     (case op_type of
        READ \<Rightarrow> (do_mapped_read E P random num_servers h offset request_size dat w, w)
      | WRITE \<Rightarrow>
          (case do_mapped_write E P random num_servers h offset request_size dat w of
             (r, w') \<Rightarrow> (and_then r (\<lambda>_. Inr (dat, [])), w'))
      | DELETE \<Rightarrow>
          (case do_mapped_delete E P random num_servers h offset request_size dat w of
             (r, w') \<Rightarrow> (and_then r (\<lambda>_. Inr (dat, [])), w')))"

text \<open>
  The constructor. For Symbios it loads the configuration through the new client and keeps
  of the storage solutions the one of \<^verbatim>\<open>db_type\<close>, under index 0; \<open>load\<close> is
  \<^verbatim>\<open>ConfigureSymbiosClient\<close> on the configuration with the new file name.
\<close>

definition LibHandler_new ::
  "(conf \<Rightarrow> conf res) \<Rightarrow> string \<Rightarrow> LibHandler \<Rightarrow> ('r, 'm) world \<Rightarrow> LibHandler res \<times> ('r, 'm) world" where
  "LibHandler_new load symbios_conf h w =
     (if lh_lib_type h = SYMBIOS \<or> lh_lib_type h = NIOBE
      then let c = (w_conf w)\<lparr>CONFIGURATION_FILE := symbios_conf\<rparr> in
           (case load c of
              Inl e \<Rightarrow> (Inl e, w\<lparr>w_conf := c\<rparr>)
            | Inr c1 \<Rightarrow>
                let solution = (case map_of (STORAGE_SOLUTIONS c1) (lh_db_type h) of
                                  None \<Rightarrow> None | Some s \<Rightarrow> s)
                in (Inr h, w\<lparr>w_conf := c1\<lparr>STORAGE_SOLUTIONS := [(0, solution)],
                                       DATA_DISTRIBUTION_POLICY := RANDOM_POLICY\<rparr>\<rparr>))
      else (Inr h, w))"

section \<open>The mapper covers the range\<close>

text \<open>The bytes a list of descriptors asks for, and the bytes of a range of the file.\<close>

definition asked_bytes :: "DataDescriptor list \<Rightarrow> (string \<times> int) list" where
  "asked_bytes objs =
     concat (map (\<lambda>i. map (\<lambda>j. (dsc_id i, dsc_position i + int j)) [0..<nat (dsc_size i)]) objs)"

definition range_bytes :: "string \<Rightarrow> int \<Rightarrow> int \<Rightarrow> nat \<Rightarrow> (string \<times> int) list" where
  "range_bytes fname m offset n =
     map (\<lambda>j. (fname @ int_to_string ((offset + int j) div m), (offset + int j) mod m)) [0..<n]"

lemma range_bytes_split:
  assumes "s \<le> n"
  shows "range_bytes fname m offset n = range_bytes fname m offset s @ range_bytes fname m (offset + int s) (n - s)"
proof -
  have "[0..<n] = [0..<s] @ map (\<lambda>j. j + s) [0..<n - s]"
    using upt_add_eq_append [of 0 s "n - s"] assms by (simp add: map_add_upt)
  then show ?thesis by (simp add: range_bytes_def add_ac)
qed

lemma range_bytes_one_object:
  assumes "0 < m" "offset mod m + int s \<le> m"
  shows "range_bytes fname m offset s =
    map (\<lambda>j. (fname @ int_to_string (offset div m), offset mod m + int j)) [0..<s]"
proof -
  have "(offset + int j) div m = offset div m \<and> (offset + int j) mod m = offset mod m + int j"
    if "j < s" for j
  proof -
    have eq: "offset + int j = offset div m * m + (offset mod m + int j)" by simp
    have "0 \<le> offset mod m + int j" "offset mod m + int j < m" using assms that by auto
    then show ?thesis
      by (subst eq, subst eq) (simp only: mod_mult_self3 div_mult_self3, simp)
  qed
  then show ?thesis by (simp add: range_bytes_def)
qed

definition wf_descriptor :: "int \<Rightarrow> DataDescriptor \<Rightarrow> bool" where
  "wf_descriptor m i \<longleftrightarrow> 0 \<le> dsc_position i \<and> 0 < dsc_size i \<and> dsc_position i + dsc_size i \<le> m"

lemma sdiv_smod_nonneg: "0 \<le> (a :: int) \<Longrightarrow> 0 < b \<Longrightarrow> a sdiv b = a div b \<and> a smod b = a mod b"
  by (auto simp: smod_mod_positive signed_divide_int_def sgn_if)

text \<open>One turn of the loop for a position inside the file.\<close>

lemma map_loop_step:
  assumes "0 \<le> cur" "0 < m" "0 < n" "cur + int n < 2 ^ 63"
    and "s = min n (nat (m - cur mod m))"
  shows "map_loop fname m cur n =
    and_then (map_loop fname m (cur + int s) (n - s)) (\<lambda>objs.
      Inr (\<lparr>dsc_id = fname @ int_to_string (cur div m), dsc_position = cur mod m, dsc_size = int s,
            dsc_chunk_index = word_of_int (cur div m)\<rparr> # objs))"
proof -
  have room: "0 < m - cur mod m" using assms(2) by simp
  then have sz: "(if int n > m - cur mod m then m - cur mod m else int n) = int s"
    using assms(5) by (auto simp: min_def)
  have "\<not> cur + int s \<ge> 2 ^ 63" using assms(4,5) by auto
  then show ?thesis
    using assms(1-3) sdiv_smod_nonneg [OF assms(1,2)]
    by (subst map_loop.simps) (simp add: Let_def sz)
qed

lemma map_loop_covers:
  assumes "0 \<le> cur" "0 < m" "cur + int n < 2 ^ 63"
  shows "\<exists>objs. map_loop fname m cur n = Inr objs \<and> asked_bytes objs = range_bytes fname m cur n \<and>
    list_all (wf_descriptor m) objs"
  using assms
proof (induction n arbitrary: cur rule: less_induct)
  case (less n)
  show ?case
  proof (cases "n = 0")
    case True
    then show ?thesis by (simp add: map_loop.simps asked_bytes_def range_bytes_def)
  next
    case False
    define s where "s = min n (nat (m - cur mod m))"
    have s: "0 < s" "s \<le> n" "cur mod m + int s \<le> m"
      using False less.prems(2) pos_mod_bound [of m cur] by (auto simp: s_def min_def simp del: pos_mod_bound)
    then obtain objs where objs: "map_loop fname m (cur + int s) (n - s) = Inr objs"
      "asked_bytes objs = range_bytes fname m (cur + int s) (n - s)" "list_all (wf_descriptor m) objs"
      using less.IH [of "n - s" "cur + int s"] less.prems by auto
    have "wf_descriptor m \<lparr>dsc_id = fname @ int_to_string (cur div m), dsc_position = cur mod m,
        dsc_size = int s, dsc_chunk_index = word_of_int (cur div m)\<rparr>"
      using s less.prems(2) by (simp add: wf_descriptor_def)
    then show ?thesis
      using map_loop_step [of cur m n s fname] False objs s less.prems s_def
        range_bytes_split [OF s(2), of fname m cur] range_bytes_one_object [of m cur s fname]
      by (simp add: asked_bytes_def)
  qed
qed

section \<open>Stores that write from the middle of a buffer\<close>

text \<open>The objects of a file, and the bytes in those from index \<open>a\<close> up to \<open>b\<close>.\<close>

definition chunk_key :: "string \<Rightarrow> nat \<Rightarrow> string" where
  "chunk_key fname j = fname @ int_to_string (int j)"

definition chunks_content :: "(string \<Rightarrow> bytes option) \<Rightarrow> string \<Rightarrow> nat \<Rightarrow> nat \<Rightarrow> bytes" where
  "chunks_content objs fname a b = concat (map (\<lambda>j. old_bytes (objs (chunk_key fname j))) [a..<b])"

lemma chunk_key_inject [simp]: "chunk_key fname i = chunk_key fname j \<longleftrightarrow> i = j"
  by (simp add: chunk_key_def)

lemma chunks_content_empty [simp]: "chunks_content objs fname a a = []"
  by (simp add: chunks_content_def)

lemma chunks_content_Cons:
  "k < c \<Longrightarrow> chunks_content objs fname k c =
     old_bytes (objs (chunk_key fname k)) @ chunks_content objs fname (Suc k) c"
  by (simp add: chunks_content_def upt_conv_Cons)

lemma chunks_content_append:
  "a \<le> b \<Longrightarrow> b \<le> c \<Longrightarrow> chunks_content objs fname a c =
     chunks_content objs fname a b @ chunks_content objs fname b c"
  using upt_add_eq_append [of a b "c - b"] by (simp add: chunks_content_def)

text \<open>
  The handler passes its whole buffer and the position of the next object's bytes in it. The
  Redis and the MongoDB client read such a source the way the handler means it; the file
  client does not: it takes the size for the end of the data.
\<close>

locale carrying_store = object_store +
  assumes wr_carries: "up w (d_id dst) \<Longrightarrow> carries src dat \<Longrightarrow>
      fits w (length (old_bytes (obj w (d_id dst)))) \<Longrightarrow> fits w (unat (d_position dst) + length dat) \<Longrightarrow>
      \<exists>s' w'. wr w src dst = (Inr s', w') \<and>
        obj w' = (obj w)(d_id dst \<mapsto> stored_value (obj w (d_id dst)) (unat (d_position dst)) dat) \<and>
        up w' = up w \<and> fits w' = fits w"
begin

lemma write_new_chunk:
  assumes "up w (dsc_id i)" "obj w (dsc_id i) = None" "dsc_position i = 0" "dsc_size i = int n"
    and "fits w n" "p + n \<le> length b" "length b < 2 ^ 63"
  shows "\<exists>w'. (\<forall>objs. write_objs wr ix w (Some b) (of_nat p) (i # objs) =
      write_objs wr ix w' (Some b) (of_nat (p + n)) objs) \<and>
    obj w' = (obj w)(dsc_id i \<mapsto> slice p n b) \<and> up w' = up w \<and> fits w' = fits w"
proof -
  let ?dst = "default_Data\<lparr>d_id := dsc_id i, d_position := 0, d_data_size := of_nat n, d_storage_index := ix\<rparr>"
  let ?src = "default_Data\<lparr>d_buffer := Some b, d_position := of_nat p, d_data_size := of_nat n\<rparr>"
  have sizes: "unat (of_nat p :: size_t) = p" "unat (of_nat n :: size_t) = n"
    using assms(6,7) by (simp_all add: size_fits)
  then have car: "carries ?src (slice p n b)" using assms(6) by (simp add: carries_def mem_read_def)
  have "fits w 0" using fits_mono [OF assms(5)] by simp
  moreover have "fits w (length (slice p n b))" using assms(5,6) by simp
  ultimately obtain s' w' where "wr w ?src ?dst = (Inr s', w')"
    "obj w' = (obj w)(dsc_id i \<mapsto> slice p n b)" "up w' = up w" "fits w' = fits w"
    using wr_carries [of w ?dst ?src "slice p n b"] assms(1,2) car by (auto simp: stored_value_def)
  then show ?thesis using assms(3,4) by (auto simp: Let_def)
qed

text \<open>Writing \<open>n\<close> bytes of the buffer from object \<open>k\<close> on, none of which exists.\<close>

lemma write_new_chunks:
  assumes "0 < m" "k * m + n < 2 ^ 63" "p + n \<le> length b" "length b < 2 ^ 63"
    and "\<And>j. j * m < 2 ^ 63 \<Longrightarrow> up w (chunk_key fname j)" "fits w (min m n)" "\<And>j. k \<le> j \<Longrightarrow> obj w (chunk_key fname j) = None"
  shows "\<exists>objs w' c. map_loop fname (int m) (int (k * m)) n = Inr objs \<and>
    write_objs wr ix w (Some b) (of_nat p) objs = (Inr (), w') \<and> (objs = [] \<longleftrightarrow> n = 0) \<and> k \<le> c \<and>
    chunks_content (obj w') fname k c = slice p n b \<and> c = k + (n + m - 1) div m \<and>
    (\<forall>key. (\<forall>j\<ge>k. key \<noteq> chunk_key fname j) \<longrightarrow> obj w' key = obj w key)"
  using assms(2-7)
proof (induction n arbitrary: k p w rule: less_induct)
  case (less n)
  show ?case
  proof (cases "n = 0")
    case True
    then show ?thesis using assms(1) by (auto simp: map_loop.simps chunks_content_def slice_def)
  next
    case False
    define s where "s = min n m"
    have s: "0 < s" "s \<le> n" "s \<le> m" using False assms(1) by (auto simp: s_def)
    let ?i = "\<lparr>dsc_id = chunk_key fname k, dsc_position = 0, dsc_size = int s,
                dsc_chunk_index = word_of_int (int k)\<rparr>"
    have "k * m < 2 ^ 63" using less.prems(1) by linarith
    then have up_k: "up w (chunk_key fname k)" by (rule less.prems(4))
    have "int (k * m) + int n < 2 ^ 63" using less.prems(1) by (simp flip: of_nat_mult of_nat_add)
    then have "map_loop fname (int m) (int (k * m)) n =
        and_then (map_loop fname (int m) (int (k * m) + int s) (n - s)) (\<lambda>objs. Inr (?i # objs))"
      using map_loop_step [of "int (k * m)" "int m" n s fname] False assms(1)
      by (simp add: s_def chunk_key_def)
    note step = this
    have fit: "fits w s" using less.prems(5) by (simp add: s_def min.commute)
    have "\<exists>w'. (\<forall>objs. write_objs wr ix w (Some b) (of_nat p) (?i # objs) =
        write_objs wr ix w' (Some b) (of_nat (p + s)) objs) \<and>
      obj w' = (obj w)(dsc_id ?i \<mapsto> slice p s b) \<and> up w' = up w \<and> fits w' = fits w"
      by (rule write_new_chunk) (use less.prems s fit up_k in auto)
    then obtain w1 where w1: "\<And>objs. write_objs wr ix w (Some b) (of_nat p) (?i # objs) =
        write_objs wr ix w1 (Some b) (of_nat (p + s)) objs"
      "obj w1 = (obj w)(chunk_key fname k \<mapsto> slice p s b)" "up w1 = up w" "fits w1 = fits w"
      by auto
    show ?thesis
    proof (cases "n \<le> m")
      case True
      then have "s = n" "(n + m - 1) div m = 1"
        using False by (auto simp: s_def intro!: div_nat_eqI)
      then show ?thesis
        using step w1 False
        by (auto simp: map_loop.simps [of _ _ _ 0] chunks_content_def simp del: write_objs.simps(2))
    next
      case False
      then have sm: "s = m" by (simp add: s_def)
      have "fits w1 (min m (n - m))" using fits_mono [OF less.prems(5), of "min m (n - m)"] w1(4) by simp
      then obtain objs w' where rest: "map_loop fname (int m) (int (Suc k * m)) (n - m) = Inr objs"
        "write_objs wr ix w1 (Some b) (of_nat (p + m)) objs = (Inr (), w')"
        "chunks_content (obj w') fname (Suc k) (Suc k + (n - m + m - 1) div m) = slice (p + m) (n - m) b"
        "\<forall>key. (\<forall>j\<ge>Suc k. key \<noteq> chunk_key fname j) \<longrightarrow> obj w' key = obj w1 key"
        using less.IH [of "n - m" "Suc k" "p + m" w1] less.prems False assms(1) w1
        by (auto simp: algebra_simps of_nat_diff)
      have here: "obj w' (chunk_key fname k) = Some (slice p m b)" using rest(4) w1(2) sm by auto
      have num: "k + (n + m - 1) div m = Suc k + (n - m + m - 1) div m"
        using False assms(1) div_add_self2 [of m "n - 1"] by simp
      have "chunks_content (obj w') fname k (Suc k + (n - m + m - 1) div m) = slice p m b @ slice (p + m) (n - m) b"
        using here rest(3) chunks_content_Cons [of k "Suc k + (n - m + m - 1) div m" "obj w'" fname] by simp
      also have "\<dots> = slice p n b" using False take_add [of m "n - m" "drop p b"] by (simp add: slice_def add.commute)
      finally show ?thesis
        using step rest(1,2,4) w1(1,2) sm num \<open>n \<noteq> 0\<close>
        by (auto simp: algebra_simps simp del: write_objs.simps(2))
    qed
  qed
qed

end

lemma redis_client_carries:
  "carrying_store (client_up E REDIS_IO) (client_fits REDIS_IO) (client_obj E REDIS_IO)
     (client_Read E REDIS_IO) (client_Write E REDIS_IO) (client_Remove E REDIS_IO) (client_Size E REDIS_IO)"
proof (unfold_locales, goal_cases)
  case (1 w dst src dat)
  then show ?case
    using redis_write_stored [of "e_redis E" src dat "w_redis w" dst]
    by (auto simp: redis_up_def redis_fits_def fun_eq_iff)
qed

lemma mongo_client_carries:
  "carrying_store (client_up E MONGO_IO) (client_fits MONGO_IO) (client_obj E MONGO_IO)
     (client_Read E MONGO_IO) (client_Write E MONGO_IO) (client_Remove E MONGO_IO) (client_Size E MONGO_IO)"
proof (unfold_locales, goal_cases)
  case (1 w dst src dat)
  then show ?case
    using mongo_write_stored [of "e_mongo E" src dat "w_mongo w" dst "e_junk E"]
    by (auto simp: mongo_up_def mongo_fits_def fun_eq_iff)
qed

interpretation redis_chunks: carrying_store "client_up E REDIS_IO" "client_fits REDIS_IO"
  "client_obj E REDIS_IO" "client_Read E REDIS_IO" "client_Write E REDIS_IO" "client_Remove E REDIS_IO"
  "client_Size E REDIS_IO"
  by (rule redis_client_carries)

interpretation mongo_chunks: carrying_store "client_up E MONGO_IO" "client_fits MONGO_IO"
  "client_obj E MONGO_IO" "client_Read E MONGO_IO" "client_Write E MONGO_IO" "client_Remove E MONGO_IO"
  "client_Size E MONGO_IO"
  by (rule mongo_client_carries)

section \<open>Properties\<close>

text \<open>
  C18. The mapper covers a range of a file: it ends, and the descriptors it returns ask for
  every byte of the range once and in order, byte \<open>p\<close> of the file in object \<open>p div m\<close> at
  position \<open>p mod m\<close>; no descriptor is empty or leaves its object.
\<close>

theorem data_mapper_covers:
  assumes "0 \<le> offset" "0 < m" "m < 2 ^ 32" "offset + int (unat n) < 2 ^ 63"
  shows "\<exists>objs. DataMapper_map m fname offset n = Inr objs \<and>
    asked_bytes objs = range_bytes fname m offset (unat n) \<and> list_all (wf_descriptor m) objs"
proof -
  have "uint (word_of_int m :: int32) = m" using assms(2,3) by (simp add: uint_word_of_int)
  then show ?thesis
    using map_loop_covers [OF assms(1,2,4), of fname] by (simp add: DataMapper_map_def)
qed

theorem data_mapper_covers_witness:
  "\<exists>objs. DataMapper_map 4 ''f'' 6 5 = Inr objs \<and>
     asked_bytes objs = [(''f1'', 2), (''f1'', 3), (''f2'', 0), (''f2'', 1), (''f2'', 2)] \<and>
     list_all (wf_descriptor 4) objs"
proof -
  have "range_bytes ''f'' 4 6 (unat (5 :: size_t)) =
      [(''f1'', 2), (''f1'', 3), (''f2'', 0), (''f2'', 1), (''f2'', 2)]"
    by (simp add: range_bytes_def upt_conv_Cons decimal_eval)
  then show ?thesis using data_mapper_covers [of 6 4 5 "''f''"] by simp
qed

text \<open>
  C19. Appending through the handler with Redis or MongoDB: writing data at the end of a file
  of \<open>k\<close> full objects succeeds, and the file's objects together then hold the old content
  followed by the data; objects of other names stay as they are. (\<open>k = 0\<close>: a new file.)
\<close>

theorem iris_write_appends:
  assumes "lh_lib_type h = IRIS" "doOp P w (lh_db_type h) = Inr t" "t = REDIS_IO \<or> t = MONGO_IO"
    and "lh_max_obj_size h = int m" "0 < m" "m < 2 ^ 32" "dat \<noteq> []" "k * m + length dat < 2 ^ 63"
    and "\<And>j. j * m < 2 ^ 63 \<Longrightarrow> client_up E t w (chunk_key (lh_file h) j)" "client_fits t w m"
    and "\<And>j. k \<le> j \<Longrightarrow> client_obj E t w (chunk_key (lh_file h) j) = None"
  shows "\<exists>w'. do_mapped_write E P random num_servers h (int (k * m)) (of_nat (length dat)) (Some dat) w =
      (Inr (), w') \<and>
    chunks_content (client_obj E t w') (lh_file h) 0 (k + (length dat + m - 1) div m) =
      chunks_content (client_obj E t w) (lh_file h) 0 k @ dat \<and>
    (\<forall>key. (\<forall>j\<ge>k. key \<noteq> chunk_key (lh_file h) j) \<longrightarrow> client_obj E t w' key = client_obj E t w key)"
proof -
  let ?f = "lh_file h" and ?n = "length dat" and ?c = "k + (length dat + m - 1) div m"
  have fit: "client_fits t w (min m ?n)"
    using client_store.fits_mono [OF assms(10), of "min m ?n"] by simp
  have "carrying_store (client_up E t) (client_fits t) (client_obj E t)
      (client_Read E t) (client_Write E t) (client_Remove E t) (client_Size E t)"
    using assms(3) redis_client_carries mongo_client_carries by auto
  from carrying_store.write_new_chunks [OF this assms(5), of k ?n 0 dat w ?f "lh_db_type h"]
  obtain objs w' where w': "map_loop ?f (int m) (int (k * m)) ?n = Inr objs" "objs \<noteq> []"
    "write_objs (client_Write E t) (lh_db_type h) w (Some dat) 0 objs = (Inr (), w')"
    "chunks_content (client_obj E t w') ?f k ?c = dat"
    "\<And>key. \<forall>j\<ge>k. key \<noteq> chunk_key ?f j \<Longrightarrow> client_obj E t w' key = client_obj E t w key"
    using assms(7-9,11) fit by auto
  have "uint (word_of_int (int m) :: int32) = int m" "unat (of_nat ?n :: size_t) = ?n"
    using assms(6,8) by (simp_all add: unsigned_of_nat take_bit_nat_eq_self size_fits)
  then have run: "do_mapped_write E P random num_servers h (int (k * m)) (of_nat ?n) (Some dat) w = (Inr (), w')"
    using w'(1-3) assms(1,2,4) by (cases objs) (auto simp: do_mapped_write_def DataMapper_map_def)
  have "chunks_content (client_obj E t w') ?f 0 k = chunks_content (client_obj E t w) ?f 0 k"
    unfolding chunks_content_def by (rule arg_cong [where f = concat], rule map_cong) (auto simp: w'(5))
  then show ?thesis
    using run w'(4,5) chunks_content_append [of 0 k ?c "client_obj E t w'" ?f] by auto
qed

definition ref_probes :: probes where
  "ref_probes = \<lparr>p_exists = (\<lambda>_. True), p_redis = (\<lambda>_ _. True), p_mongo = (\<lambda>_ _ _. None), p_rank = 0\<rparr>"

lemma ref_doOp:
  "doOp ref_probes (ref_world pol) 0 = Inr FILE_IO" "doOp ref_probes (ref_world pol) 1 = Inr REDIS_IO"
  "doOp ref_probes (ref_world pol) 2 = Inr MONGO_IO"
proof -
  have node: "RedisIOClient_node (RedisSS ''127.0.0.1'' ''6379'') 0 = Inr (''127.0.0.1'', 6379)"
    by code_simp
  have "IOFactory ref_probes (STORAGE_SOLUTIONS (w_conf (ref_world pol))) =
      Inr [(FILE_IO, 0), (REDIS_IO, 1), (MONGO_IO, 2)]"
    by (simp add: ref_world_def ref_conf_def ConfigurationManager_def IOFactory_def get_instance_def
        IOClient_def construct_client_def FileIOClient_def RedisIOClient_def MongoIOClient_def
        ref_probes_def node)
  then show "doOp ref_probes (ref_world pol) 0 = Inr FILE_IO"
    "doOp ref_probes (ref_world pol) 1 = Inr REDIS_IO" "doOp ref_probes (ref_world pol) 2 = Inr MONGO_IO"
    by (simp_all add: doOp_def GetIOClient_def ref_world_def ref_conf_def ConfigurationManager_def)
qed

theorem iris_write_appends_witness:
  "\<exists>w'. do_mapped_write (ref_env (\<lambda>k. k)) ref_probes 0 1
      \<lparr>lh_file = ''f'', lh_lib_type = IRIS, lh_db_type = 1, lh_max_obj_size = 2, lh_print = False\<rparr>
      0 5 (Some ''hello'') (ref_world RANDOM_POLICY) = (Inr (), w') \<and>
    chunks_content (client_obj (ref_env (\<lambda>k. k)) REDIS_IO w') ''f'' 0 3 = ''hello''"
proof -
  let ?E = "ref_env (\<lambda>k. k)" and ?w = "ref_world RANDOM_POLICY"
  have up: "client_up ?E REDIS_IO ?w key" "client_fits REDIS_IO ?w 2" "client_obj ?E REDIS_IO ?w key = None" for key
    by (simp_all add: ref_env_def ref_world_def redis_up_def map_redis_ok redis_fits_def redis_max_def)
  show ?thesis
    using iris_write_appends [of "\<lparr>lh_file = ''f'', lh_lib_type = IRIS, lh_db_type = 1, lh_max_obj_size = 2,
        lh_print = False\<rparr>" ref_probes ?w REDIS_IO 2 "''hello''" 0 ?E 0 1] up
    by (auto simp: ref_doOp numeral_3_eq_3)
qed

text \<open>
  With the file client the second object of a write is lost: writing two objects' worth
  of data to a new file succeeds, the first object gets its half and the second one is
  created empty, because the file client takes the size of the second object for the end of
  the data in the buffer.
\<close>

theorem iris_file_second_object_lost:
  assumes "lh_lib_type h = IRIS" "doOp P w (lh_db_type h) = Inr FILE_IO"
    and "lh_max_obj_size h = int m" "0 < m" "m < 2 ^ 32" "length dat = 2 * m"
    and "\<And>j. \<not> fs_denied (w_fs w) (chunk_key (lh_file h) j)" "m \<le> fs_room (w_fs w)"
    and "\<And>j. fs_files (w_fs w) (chunk_key (lh_file h) j) = None"
  shows "\<exists>w'. do_mapped_write E P random num_servers h 0 (of_nat (length dat)) (Some dat) w = (Inr (), w') \<and>
    fs_files (w_fs w') (chunk_key (lh_file h) 0) = Some (take m dat) \<and>
    fs_files (w_fs w') (chunk_key (lh_file h) 1) = Some []"
proof -
  let ?f = "lh_file h" and ?ix = "lh_db_type h" and ?m = "of_nat m :: size_t"
  let ?i = "\<lambda>j. \<lparr>dsc_id = chunk_key ?f j, dsc_position = 0, dsc_size = int m, dsc_chunk_index = of_nat j\<rparr>"
  have m: "unat ?m = m" "uint (of_nat m :: int32) = int m" "unat (of_nat (length dat) :: size_t) = 2 * m"
    using assms(5) size_fits [of "length dat"]
    by (simp_all add: unsigned_of_nat take_bit_nat_eq_self assms(6) del: of_nat_mult)
  have objs: "map_loop ?f (int m) 0 (2 * m) = Inr [?i 0, ?i 1]"
    using map_loop_step [of 0 "int m" "2 * m" m ?f] map_loop_step [of "int m" "int m" m m ?f] assms(4,5)
    by (simp add: chunk_key_def map_loop.simps [of _ _ _ 0])
  let ?src = "\<lambda>p. default_Data\<lparr>d_buffer := Some dat, d_position := p, d_data_size := ?m\<rparr>"
  let ?dst = "\<lambda>j. default_Data\<lparr>d_id := chunk_key ?f j, d_position := 0, d_data_size := ?m, d_storage_index := ?ix\<rparr>"
  let ?fs1 = "(w_fs w)\<lparr>fs_files := (fs_files (w_fs w))(chunk_key ?f 0 \<mapsto> take m dat)\<rparr>"
  let ?fs2 = "?fs1\<lparr>fs_files := (fs_files ?fs1)(chunk_key ?f 1 \<mapsto> [])\<rparr>"
  have "FileIOClient_Write (w_fs w) (?src 0) (?dst 0) = (Inr (?src 0), ?fs1)"
    using FileIOClient_Write_overlay [of "w_fs w" "?dst 0" "?src 0" dat "take m dat"] assms(4,6-9) m(1)
    by (auto simp: overlay_def)
  moreover have "FileIOClient_Write ?fs1 (?src ?m) (?dst 1) = (Inr (?src ?m), ?fs2)"
    using FileIOClient_Write_overlay [of ?fs1 "?dst 1" "?src ?m" dat "[]"] assms(6,7,9) m(1)
    by (simp add: slice_def)
  ultimately have "write_objs (client_Write E FILE_IO) ?ix w (Some dat) 0 [?i 0, ?i 1] =
      (Inr (), w\<lparr>w_fs := ?fs2\<rparr>)"
    by (simp add: Let_def)
  then have "do_mapped_write E P random num_servers h 0 (of_nat (length dat)) (Some dat) w =
      (Inr (), w\<lparr>w_fs := ?fs2\<rparr>)"
    using objs m(2,3) assms(1-3) by (simp add: do_mapped_write_def DataMapper_map_def)
  then show ?thesis by simp
qed

theorem iris_file_second_object_lost_witness:
  "\<exists>w'. do_mapped_write (ref_env (\<lambda>k. k)) ref_probes 0 1
      \<lparr>lh_file = ''f'', lh_lib_type = IRIS, lh_db_type = 0, lh_max_obj_size = 2, lh_print = False\<rparr>
      0 4 (Some ''abcd'') (ref_world RANDOM_POLICY) = (Inr (), w') \<and>
    fs_files (w_fs w') (chunk_key ''f'' 0) = Some ''ab'' \<and> fs_files (w_fs w') (chunk_key ''f'' 1) = Some []"
  using iris_file_second_object_lost [of "\<lparr>lh_file = ''f'', lh_lib_type = IRIS, lh_db_type = 0,
      lh_max_obj_size = 2, lh_print = False\<rparr>" ref_probes "ref_world RANDOM_POLICY" 2 "''abcd''"
      "ref_env (\<lambda>k. k)" 0 1]
  by (simp add: ref_doOp) (simp add: ref_world_def ref_fs_def)

end
