(* ===== verification/Arguments.thy ===== *)
theory Arguments
  imports Error_Codes
begin

text \<open>
  The command-line parser of \<^verbatim>\<open>common/include/common/arguments.h\<close>: the option classes derived
  from \<^verbatim>\<open>Arg\<close>, \<^verbatim>\<open>ArgFactory\<close> and \<^verbatim>\<open>ArgMap\<close>.

  An object of one of the classes is a value of \<open>'f Arg\<close>, with the fields of the base class in
  \<open>Arg_base\<close> and the list \<^verbatim>\<open>args_\<close> of its own; \<open>'f\<close> is \<^verbatim>\<open>float\<close> and \<open>stof\<close> its parser. A
  method that changes its object returns its outcome and the object as it is left, also when it
  throws: a caller may catch the exception and go on with the object. Messages are not
  modelled. Numbers of type \<^verbatim>\<open>int\<close> are integers in the range of \<^verbatim>\<open>int\<close>.
\<close>

section \<open>Numbers\<close>

text \<open>\<^verbatim>\<open>std::stoi\<close> and \<^verbatim>\<open>std::stoul\<close> in base 10.\<close>

definition stoi :: "string \<Rightarrow> int res" where
  "stoi s =
     (let (r, endptr, erange) = strtol s 10 in
      if endptr = s then Inl (Std_Exn ''invalid_argument: stoi'')
      else if erange \<or> r < - (2 ^ 31) \<or> r \<ge> 2 ^ 31 then Inl (Std_Exn ''out_of_range: stoi'')
      else Inr r)"

text \<open>\<^verbatim>\<open>strtoul\<close> accepts a minus sign and negates the unsigned result.\<close>

definition stoul :: "string \<Rightarrow> size_t res" where
  "stoul s =
     (let t = dropWhile is_space s;
          neg = prefix ''-'' t;
          u = (if neg \<or> prefix ''+'' t then drop 1 t else t);
          ds = base_digits 10 u;
          n = base_value 10 ds
      in if ds = [] then Inl (Std_Exn ''invalid_argument: stoul'')
         else if n \<ge> 2 ^ 64 then Inl (Std_Exn ''out_of_range: stoul'')
         else Inr (if neg then - of_nat n else of_nat n))"

section \<open>The option classes\<close>

datatype ArgType = kNone | kString | kStringMap | kInt | kFloat | kSize

record Arg_base =
  opt_name :: string
  is_set :: bool
  use_default :: bool

datatype 'f Arg =
    NoneArg Arg_base
  | StringArg Arg_base "string list"
  | StringMapArg Arg_base "string \<rightharpoonup> int" "int list"
  | IntArg Arg_base "int list"
  | FloatArg Arg_base "'f list"
  | SizeArg Arg_base "size_t list"

definition new_base :: "string \<Rightarrow> Arg_base" where
  "new_base opt = \<lparr>opt_name = opt, is_set = False, use_default = False\<rparr>"

definition default_base :: "string \<Rightarrow> Arg_base" where
  "default_base opt = \<lparr>opt_name = opt, is_set = True, use_default = True\<rparr>"

fun base_of :: "'f Arg \<Rightarrow> Arg_base" where
  "base_of (NoneArg b) = b"
| "base_of (StringArg b _) = b"
| "base_of (StringMapArg b _ _) = b"
| "base_of (IntArg b _) = b"
| "base_of (FloatArg b _) = b"
| "base_of (SizeArg b _) = b"

definition IsSet :: "'f Arg \<Rightarrow> bool" where
  "IsSet a = is_set (base_of a)"

fun GetType :: "'f Arg \<Rightarrow> ArgType" where
  "GetType (NoneArg _) = kNone"
| "GetType (StringArg _ _) = kString"
| "GetType (StringMapArg _ _ _) = kStringMap"
| "GetType (IntArg _ _) = kInt"
| "GetType (FloatArg _ _) = kFloat"
| "GetType (SizeArg _ _) = kSize"

text \<open>
  The common shape of the overrides of \<^verbatim>\<open>Add(std::string)\<close>: the default value is dropped, then
  the text is converted (which may throw), then the value is kept.
\<close>

definition Add_value :: "Arg_base \<Rightarrow> 'v list \<Rightarrow> 'v res \<Rightarrow> nat res \<times> Arg_base \<times> 'v list" where
  "Add_value b args v =
     (if use_default b \<and> args = [] then (Inl Undefined, b, args)
      else let b' = b\<lparr>use_default := False\<rparr>; args' = (if use_default b then tl args else args)
        in case v of
             Inl e \<Rightarrow> (Inl e, b', args')
           | Inr x \<Rightarrow> (Inr 1, b'\<lparr>is_set := True\<rparr>, args' @ [x]))"

definition ToSize :: "string \<Rightarrow> size_t res" where
  "ToSize arg =
     (if arg = [] then Inl Undefined
      else let c = last arg in
        if c = CHR ''k'' \<or> c = CHR ''K'' then and_then (stoul arg) (\<lambda>n. Inr (n * 2 ^ 10))
        else if c = CHR ''m'' \<or> c = CHR ''M'' then and_then (stoul arg) (\<lambda>n. Inr (n * 2 ^ 20))
        else if c = CHR ''g'' \<or> c = CHR ''G'' then and_then (stoul arg) (\<lambda>n. Inr (n * 2 ^ 30))
        else stoul arg)"

text \<open>\<^verbatim>\<open>StringMapArg::AssertArgExists\<close> and the look-up after it.\<close>

definition AssertArgExists :: "(string \<rightharpoonup> int) \<Rightarrow> string \<Rightarrow> int res" where
  "AssertArgExists arg_map arg =
     (case arg_map arg of None \<Rightarrow> Inl (Thrown_Int 1) | Some i \<Rightarrow> Inr i)"

fun Add :: "(string \<Rightarrow> 'f res) \<Rightarrow> 'f Arg \<Rightarrow> string \<Rightarrow> nat res \<times> 'f Arg" where
  "Add stof (NoneArg b) arg = (Inl (Thrown_Int 1), NoneArg b)"
| "Add stof (StringArg b args) arg =
     (let (r, b', args') = Add_value b args (Inr arg) in (r, StringArg b' args'))"
| "Add stof (StringMapArg b arg_map args) arg =
     (let (r, b', args') = Add_value b args (AssertArgExists arg_map arg)
      in (r, StringMapArg b' arg_map args'))"
| "Add stof (IntArg b args) arg =
     (let (r, b', args') = Add_value b args (stoi arg) in (r, IntArg b' args'))"
| "Add stof (FloatArg b args) arg =
     (let (r, b', args') = Add_value b args (stof arg) in (r, FloatArg b' args'))"
| "Add stof (SizeArg b args) arg =
     (let (r, b', args') = Add_value b args (ToSize arg) in (r, SizeArg b' args'))"

text \<open>\<^verbatim>\<open>Add()\<close> without a value: only \<^verbatim>\<open>NoneArg\<close> overrides it.\<close>

fun Add_flag :: "'f Arg \<Rightarrow> nat res \<times> 'f Arg" where
  "Add_flag (NoneArg b) = (Inr 0, NoneArg (b\<lparr>is_set := True\<rparr>))"
| "Add_flag a = (Inl (Thrown_Int 1), a)"

fun AddStringMapVal_arg :: "'f Arg \<Rightarrow> string \<Rightarrow> int \<Rightarrow> unit res \<times> 'f Arg" where
  "AddStringMapVal_arg (StringMapArg b arg_map args) val i =
     (Inr (), StringMapArg b (arg_map(val \<mapsto> i)) args)"
| "AddStringMapVal_arg a val i = (Inl (Thrown_Int 1), a)"

text \<open>The getters: \<^verbatim>\<open>back()\<close> of an empty list is undefined.\<close>

definition get_back :: "Arg_base \<Rightarrow> 'v list \<Rightarrow> 'v res" where
  "get_back b args =
     (if is_set b then (if args = [] then Inl Undefined else Inr (last args)) else Inl (Thrown_Int 1))"

definition get_list :: "Arg_base \<Rightarrow> 'v list \<Rightarrow> 'v list res" where
  "get_list b args = (if is_set b then Inr args else Inl (Thrown_Int 1))"

fun GetStringOpt_arg :: "'f Arg \<Rightarrow> string res" where
  "GetStringOpt_arg (StringArg b args) = get_back b args"
| "GetStringOpt_arg _ = Inl (Thrown_Int 1)"

fun GetStringOpts_arg :: "'f Arg \<Rightarrow> string list res" where
  "GetStringOpts_arg (StringArg b args) = get_list b args"
| "GetStringOpts_arg _ = Inl (Thrown_Int 1)"

fun GetIntOpt_arg :: "'f Arg \<Rightarrow> int res" where
  "GetIntOpt_arg (StringMapArg b _ args) = get_back b args"
| "GetIntOpt_arg (IntArg b args) = get_back b args"
| "GetIntOpt_arg _ = Inl (Thrown_Int 1)"

fun GetIntOpts_arg :: "'f Arg \<Rightarrow> int list res" where
  "GetIntOpts_arg (StringMapArg b _ args) = get_list b args"
| "GetIntOpts_arg (IntArg b args) = get_list b args"
| "GetIntOpts_arg _ = Inl (Thrown_Int 1)"

fun GetFloatOpt_arg :: "'f Arg \<Rightarrow> 'f res" where
  "GetFloatOpt_arg (FloatArg b args) = get_back b args"
| "GetFloatOpt_arg _ = Inl (Thrown_Int 1)"

fun GetFloatOpts_arg :: "'f Arg \<Rightarrow> 'f list res" where
  "GetFloatOpts_arg (FloatArg b args) = get_list b args"
| "GetFloatOpts_arg _ = Inl (Thrown_Int 1)"

fun GetSizeOpt_arg :: "'f Arg \<Rightarrow> size_t res" where
  "GetSizeOpt_arg (SizeArg b args) = get_back b args"
| "GetSizeOpt_arg _ = Inl (Thrown_Int 1)"

fun GetSizeOpts_arg :: "'f Arg \<Rightarrow> size_t list res" where
  "GetSizeOpts_arg (SizeArg b args) = get_list b args"
| "GetSizeOpts_arg _ = Inl (Thrown_Int 1)"

section \<open>ArgFactory\<close>

text \<open>
  The overloads of \<^verbatim>\<open>Get\<close>, told apart by the type of the default value. A \<^verbatim>\<open>switch\<close> that has no
  case for the type runs off the end of the function.
\<close>

datatype 'f dval = No_dval | String_dval string | Int_dval int | Float_dval 'f | Size_dval size_t

fun ArgFactory_Get :: "string \<Rightarrow> ArgType \<Rightarrow> 'f dval \<Rightarrow> 'f Arg res" where
  "ArgFactory_Get opt kNone No_dval = Inr (NoneArg (new_base opt))"
| "ArgFactory_Get opt kString No_dval = Inr (StringArg (new_base opt) [])"
| "ArgFactory_Get opt kStringMap No_dval = Inr (StringMapArg (new_base opt) Map.empty [])"
| "ArgFactory_Get opt kInt No_dval = Inr (IntArg (new_base opt) [])"
| "ArgFactory_Get opt kFloat No_dval = Inr (FloatArg (new_base opt) [])"
| "ArgFactory_Get opt kSize No_dval = Inr (SizeArg (new_base opt) [])"
| "ArgFactory_Get opt kString (String_dval d) = Inr (StringArg (default_base opt) [d])"
| "ArgFactory_Get opt kStringMap (Int_dval d) = Inr (StringMapArg (default_base opt) Map.empty [d])"
| "ArgFactory_Get opt kInt (Int_dval d) = Inr (IntArg (default_base opt) [d])"
| "ArgFactory_Get opt kFloat (Float_dval d) = Inr (FloatArg (default_base opt) [d])"
| "ArgFactory_Get opt kSize (Size_dval d) = Inr (SizeArg (default_base opt) [d])"
| "ArgFactory_Get opt _ _ = Inl Undefined"

section \<open>ArgMap\<close>

type_synonym 'f ArgMap = "string \<rightharpoonup> 'f Arg"

text \<open>\<^verbatim>\<open>AddOpt\<close>: \<^verbatim>\<open>emplace\<close> keeps an option that is already there.\<close>

definition AddOpt :: "'f ArgMap \<Rightarrow> string \<Rightarrow> ArgType \<Rightarrow> 'f dval \<Rightarrow> 'f ArgMap res" where
  "AddOpt m opt type d =
     and_then (ArgFactory_Get opt type d)
       (\<lambda>a. Inr (if m opt = None then m(opt \<mapsto> a) else m))"

definition OptExists :: "'f ArgMap \<Rightarrow> string \<Rightarrow> bool" where
  "OptExists m opt = (m opt \<noteq> None)"

definition AssertOptExists :: "'f ArgMap \<Rightarrow> string \<Rightarrow> 'f Arg res" where
  "AssertOptExists m opt = (case m opt of None \<Rightarrow> Inl (Thrown_Int 1) | Some a \<Rightarrow> Inr a)"

definition OptIsSet :: "'f ArgMap \<Rightarrow> string \<Rightarrow> bool" where
  "OptIsSet m opt = (case m opt of None \<Rightarrow> False | Some a \<Rightarrow> IsSet a)"

definition AssertOptIsSet :: "'f ArgMap \<Rightarrow> string \<Rightarrow> 'f Arg res" where
  "AssertOptIsSet m opt =
     and_then (AssertOptExists m opt) (\<lambda>a. if OptIsSet m opt then Inr a else Inl (Thrown_Int 1))"

definition AssertOptIsNotSet :: "'f ArgMap \<Rightarrow> string \<Rightarrow> unit res" where
  "AssertOptIsNotSet m opt = (if OptIsSet m opt then Inl (Thrown_Int 1) else Inr ())"

definition AddStringMapVal :: "'f ArgMap \<Rightarrow> string \<Rightarrow> string \<Rightarrow> int \<Rightarrow> 'f ArgMap res" where
  "AddStringMapVal m opt val i =
     and_then (AssertOptExists m opt)
       (\<lambda>a. case AddStringMapVal_arg a val i of (Inl e, _) \<Rightarrow> Inl e | (Inr _, a') \<Rightarrow> Inr (m(opt \<mapsto> a')))"

text \<open>
  \<^verbatim>\<open>ArgIter\<close> from index \<open>i\<close> on. A word that does not begin with a dash selects the option with
  the empty name, and like any other option that takes the word after it.
\<close>

function ArgIter_from ::
  "(string \<Rightarrow> 'f res) \<Rightarrow> string list \<Rightarrow> nat \<Rightarrow> 'f ArgMap \<Rightarrow> unit res \<times> 'f ArgMap" where
  "ArgIter_from stof argv i m =
     (if i < length argv
      then let arg_str = (if prefix ''-'' (argv ! i) then argv ! i else '''') in
        case AssertOptExists m arg_str of
          Inl e \<Rightarrow> (Inl e, m)
        | Inr arg \<Rightarrow>
            (if GetType arg \<noteq> kNone \<and> \<not> i + 1 < length argv then (Inl (Thrown_Int 1), m)
             else case (if GetType arg \<noteq> kNone then Add stof arg (argv ! (i + 1)) else Add_flag arg) of
                 (Inl e, arg') \<Rightarrow> (Inl e, m(arg_str \<mapsto> arg'))
               | (Inr n, arg') \<Rightarrow> ArgIter_from stof argv (i + n + 1) (m(arg_str \<mapsto> arg')))
      else (Inr (), m))"
  by pat_completeness auto
termination by (relation "measure (\<lambda>(stof, argv, i, m). length argv - i)") auto

declare ArgIter_from.simps [simp del]

definition ArgIter :: "(string \<Rightarrow> 'f res) \<Rightarrow> 'f ArgMap \<Rightarrow> string list \<Rightarrow> unit res \<times> 'f ArgMap" where
  "ArgIter stof m argv = ArgIter_from stof argv 1 m"

definition GetStringOpt :: "'f ArgMap \<Rightarrow> string \<Rightarrow> string res" where
  "GetStringOpt m opt = and_then (AssertOptIsSet m opt) GetStringOpt_arg"

definition GetStringOpts :: "'f ArgMap \<Rightarrow> string \<Rightarrow> string list res" where
  "GetStringOpts m opt = and_then (AssertOptIsSet m opt) GetStringOpts_arg"

definition GetIntOpt :: "'f ArgMap \<Rightarrow> string \<Rightarrow> int res" where
  "GetIntOpt m opt = and_then (AssertOptIsSet m opt) GetIntOpt_arg"

text \<open>\<^verbatim>\<open>GetIntOpts\<close> calls the option's getter and has no \<^verbatim>\<open>return\<close>.\<close>

definition GetIntOpts :: "'f ArgMap \<Rightarrow> string \<Rightarrow> int list res" where
  "GetIntOpts m opt =
     and_then (AssertOptIsSet m opt) (\<lambda>a. and_then (GetIntOpts_arg a) (\<lambda>_. Inl Undefined))"

definition GetFloatOpt :: "'f ArgMap \<Rightarrow> string \<Rightarrow> 'f res" where
  "GetFloatOpt m opt = and_then (AssertOptIsSet m opt) GetFloatOpt_arg"

definition GetFloatOpts :: "'f ArgMap \<Rightarrow> string \<Rightarrow> 'f list res" where
  "GetFloatOpts m opt = and_then (AssertOptIsSet m opt) GetFloatOpts_arg"

definition GetSizeOpt :: "'f ArgMap \<Rightarrow> string \<Rightarrow> size_t res" where
  "GetSizeOpt m opt = and_then (AssertOptIsSet m opt) GetSizeOpt_arg"

definition GetSizeOpts :: "'f ArgMap \<Rightarrow> string \<Rightarrow> size_t list res" where
  "GetSizeOpts m opt = and_then (AssertOptIsSet m opt) GetSizeOpts_arg"

section \<open>What the parser promises\<close>

text \<open>The values of an option, whatever its class, and the conversion its class applies.\<close>

datatype 'f val = SV string | IV int | FV 'f | ZV size_t

fun vals :: "'f Arg \<Rightarrow> 'f val list" where
  "vals (NoneArg _) = []"
| "vals (StringArg _ xs) = map SV xs"
| "vals (StringMapArg _ _ xs) = map IV xs"
| "vals (IntArg _ xs) = map IV xs"
| "vals (FloatArg _ xs) = map FV xs"
| "vals (SizeArg _ xs) = map ZV xs"

definition map_res :: "('a \<Rightarrow> 'b) \<Rightarrow> 'a res \<Rightarrow> 'b res" where
  "map_res f r = and_then r (\<lambda>x. Inr (f x))"

fun conv :: "(string \<Rightarrow> 'f res) \<Rightarrow> 'f Arg \<Rightarrow> string \<Rightarrow> 'f val res" where
  "conv stof (NoneArg _) s = Inl (Thrown_Int 1)"
| "conv stof (StringArg _ _) s = Inr (SV s)"
| "conv stof (StringMapArg _ arg_map _) s = map_res IV (AssertArgExists arg_map s)"
| "conv stof (IntArg _ _) s = map_res IV (stoi s)"
| "conv stof (FloatArg _ _) s = map_res FV (stof s)"
| "conv stof (SizeArg _ _) s = map_res ZV (ToSize s)"

text \<open>Well-formed options: a set option has a value, a default is the only value.\<close>

definition wf_arg :: "'f Arg \<Rightarrow> bool" where
  "wf_arg a \<longleftrightarrow>
     (GetType a = kNone \<longrightarrow> \<not> use_default (base_of a)) \<and>
     (GetType a \<noteq> kNone \<longrightarrow>
        (is_set (base_of a) \<longleftrightarrow> vals a \<noteq> []) \<and> (use_default (base_of a) \<longrightarrow> length (vals a) = 1))"

definition wf_args :: "'f ArgMap \<Rightarrow> bool" where
  "wf_args m \<longleftrightarrow> (\<forall>k a. m k = Some a \<longrightarrow> wf_arg a)"

text \<open>The values given on the command line so far, and the words that follow option \<open>k\<close>.\<close>

definition given :: "'f Arg \<Rightarrow> 'f val list" where
  "given a = (if use_default (base_of a) then [] else vals a)"

definition occs :: "string \<Rightarrow> (string \<times> string) list \<Rightarrow> string list" where
  "occs k kvs = map snd (filter (\<lambda>kv. fst kv = k) kvs)"

text \<open>The words of a command line made of options with their values.\<close>

definition words_of :: "(string \<times> string) list \<Rightarrow> string list" where
  "words_of kvs = concat (map (\<lambda>(k, v). [k, v]) kvs)"

text \<open>The options of a map after the words of \<open>kvs\<close>.\<close>

definition collected :: "(string \<Rightarrow> 'f res) \<Rightarrow> 'f ArgMap \<Rightarrow> (string \<times> string) list \<Rightarrow> 'f ArgMap \<Rightarrow> bool" where
  "collected stof m kvs m' \<longleftrightarrow>
     (\<forall>k. case m k of
        None \<Rightarrow> m' k = None
      | Some a \<Rightarrow> (\<exists>a'. m' k = Some a' \<and> GetType a' = GetType a \<and>
          (if occs k kvs = [] then a' = a
           else map Inr (vals a') = map Inr (given a) @ map (conv stof a) (occs k kvs))))"

section \<open>Lemmas on numbers\<close>

lemma stoi_int_to_string:
  assumes "- (2 ^ 31) \<le> i" "i < 2 ^ 31"
  shows "stoi (int_to_string i) = Inr i"
proof -
  have "strtol (int_to_string i) 10 = (i, [], False)" using assms by (intro strtol_int_to_string) simp_all
  then show ?thesis using assms int_to_string_nonempty [of i, symmetric] by (simp add: stoi_def)
qed

lemma stoul_nat_to_string:
  assumes rest: "rest = [] \<or> \<not> is_digit (hd rest)"
  shows "stoul (nat_to_string n @ rest) =
           (if n < 2 ^ 64 then Inr (of_nat n) else Inl (Std_Exn ''out_of_range: stoul''))"
proof -
  obtain c t where ct: "nat_to_string n = c # t" "is_digit c" using nat_to_string_Cons by blast
  note c = is_digit_not_space [OF ct(2)] is_digit_not_sign [OF ct(2)]
  have digits: "(\<lambda>c. digit_in 10 c \<noteq> None) = is_digit" by (rule ext) (simp add: digit_in_10)
  have "takeWhile is_digit (nat_to_string n @ rest) = nat_to_string n @ takeWhile is_digit rest"
    by (rule takeWhile_append2) (use nat_to_string_digits in blast)
  also have "takeWhile is_digit rest = []" using rest by (cases rest) auto
  finally have ds: "base_digits 10 (nat_to_string n @ rest) = nat_to_string n"
    by (simp only: base_digits_def digits append_Nil2)
  have "dropWhile is_space (nat_to_string n @ rest) = nat_to_string n @ rest" using ct c by simp
  moreover have "\<not> prefix ''-'' (nat_to_string n @ rest)" "\<not> prefix ''+'' (nat_to_string n @ rest)"
    using ct c by auto
  ultimately show ?thesis
    by (simp add: stoul_def Let_def ds strtol_nat)
qed

lemma ToSize_nat_to_string:
  "n < 2 ^ 64 \<Longrightarrow> ToSize (nat_to_string n) = Inr (of_nat n)"
proof -
  assume n: "n < 2 ^ 64"
  have "is_digit (last (nat_to_string n))" using nat_to_string_digits last_in_set nat_to_string_nonempty by blast
  then have "last (nat_to_string n) \<notin> {CHR ''k'', CHR ''K'', CHR ''m'', CHR ''M'', CHR ''g'', CHR ''G''}"
    by (auto simp: is_digit_def)
  then have "ToSize (nat_to_string n) = stoul (nat_to_string n)" by (simp add: ToSize_def Let_def)
  then show ?thesis using stoul_nat_to_string [of "[]" n] n by simp
qed

section \<open>Lemmas on options\<close>

lemma Add_value_Inr:
  "Add_value b xs (Inr x) =
     (if use_default b \<and> xs = [] then (Inl Undefined, b, xs)
      else (Inr 1, b\<lparr>is_set := True, use_default := False\<rparr>, (if use_default b then tl xs else xs) @ [x]))"
  by (simp add: Add_value_def Let_def)

lemma wf_arg_default: "wf_arg a \<Longrightarrow> use_default (base_of a) \<Longrightarrow> \<exists>v. vals a = [v]"
  by (cases a) (auto simp: wf_arg_def length_Suc_conv)

text \<open>Adding a word an option accepts keeps its class and gives it the converted word.\<close>

lemma Add_accepted:
  assumes wf: "wf_arg a" and v: "conv stof a s = Inr v"
  shows "fst (Add stof a s) = Inr 1" "GetType (snd (Add stof a s)) = GetType a"
    "conv stof (snd (Add stof a s)) = conv stof a" "wf_arg (snd (Add stof a s))"
    "given (snd (Add stof a s)) = given a @ [v]" "vals (snd (Add stof a s)) = given a @ [v]"
  using assms wf_arg_default [OF wf]
  by (cases a; auto simp: wf_arg_def given_def Add_value_Inr map_res_def and_then_def fun_eq_iff split: sum.splits)+

lemma Add_ok_accepts: "Add stof a s = (Inr n, a') \<Longrightarrow> n = 1 \<and> (\<exists>v. conv stof a s = Inr v)"
  by (cases a) (auto simp: Add_value_def Let_def map_res_def and_then_def split: sum.splits if_splits)

lemma Add_wf:
  assumes "wf_arg a" "Add stof a s = (Inr n, a')"
  shows "wf_arg a'"
  using Add_ok_accepts [OF assms(2)] Add_accepted(4) [OF assms(1)] assms(2) by (metis snd_conv)

lemma Add_flag_wf: "wf_arg a \<Longrightarrow> Add_flag a = (Inr n, a') \<Longrightarrow> wf_arg a'"
  by (cases a) (auto simp: wf_arg_def)

lemma wf_args_upd: "wf_args m \<Longrightarrow> wf_arg a \<Longrightarrow> wf_args (m(k \<mapsto> a))"
  by (auto simp: wf_args_def)

lemma wf_args_empty: "wf_args Map.empty"
  by (simp add: wf_args_def)

lemma ArgFactory_Get_wf: "ArgFactory_Get opt type d = Inr a \<Longrightarrow> wf_arg a"
  by (cases "(opt, type, d)" rule: ArgFactory_Get.cases) (auto simp: wf_arg_def new_base_def default_base_def)

lemma AddOpt_wf: "wf_args m \<Longrightarrow> AddOpt m opt type d = Inr m' \<Longrightarrow> wf_args m'"
  by (auto simp: AddOpt_def and_then_def wf_args_upd ArgFactory_Get_wf split: sum.splits if_splits)

lemma AddStringMapVal_wf:
  assumes "wf_args m" "AddStringMapVal m opt val i = Inr m'"
  shows "wf_args m'"
proof -
  obtain a where a: "m opt = Some a" using assms(2)
    by (auto simp: AddStringMapVal_def AssertOptExists_def and_then_def split: option.splits)
  then have "wf_arg a" using assms(1) by (auto simp: wf_args_def)
  then show ?thesis using assms a
    by (cases a) (auto simp: AddStringMapVal_def AssertOptExists_def and_then_def wf_arg_def intro!: wf_args_upd)
qed

section \<open>Lemmas on the loop\<close>

lemma ArgIter_from_end: "length argv \<le> i \<Longrightarrow> ArgIter_from stof argv i m = (Inr (), m)"
  by (subst ArgIter_from.simps) simp

lemma ArgIter_from_option:
  assumes "i + 1 < length argv" "arg_str = (if prefix ''-'' (argv ! i) then argv ! i else '''')"
    and "m arg_str = Some a" "GetType a \<noteq> kNone" "Add stof a (argv ! (i + 1)) = (Inr 1, a')"
  shows "ArgIter_from stof argv i m = ArgIter_from stof argv (i + 2) (m(arg_str \<mapsto> a'))"
  using assms by (subst ArgIter_from.simps) (simp add: AssertOptExists_def)

lemma ArgIter_from_wf:
  "ArgIter_from stof argv i m = (Inr (), m') \<Longrightarrow> wf_args m \<Longrightarrow> wf_args m'"
proof (induction stof argv i m rule: ArgIter_from.induct)
  case (1 stof argv i m)
  show ?case
  proof (cases "i < length argv")
    case False
    then show ?thesis using "1.prems" by (simp add: ArgIter_from_end)
  next
    case True
    define k where "k = (if prefix ''-'' (argv ! i) then argv ! i else '''')"
    note step = "1.prems"(1) [unfolded ArgIter_from.simps [of stof argv i m] Let_def, folded k_def]
    obtain a where a: "m k = Some a" "\<not> (GetType a \<noteq> kNone \<and> \<not> i + 1 < length argv)"
      using step True by (auto simp: AssertOptExists_def split: option.splits if_splits)
    obtain n a' where add: "(if GetType a \<noteq> kNone then Add stof a (argv ! (i + 1)) else Add_flag a) = (Inr n, a')"
        and rec: "ArgIter_from stof argv (i + n + 1) (m(k \<mapsto> a')) = (Inr (), m')"
      using step a True by (auto simp: AssertOptExists_def split: prod.splits sum.splits if_splits)
    have "wf_arg a" using "1.prems"(2) a(1) by (auto simp: wf_args_def)
    then have "wf_arg a'" using add Add_wf Add_flag_wf by (metis (full_types))
    then have "wf_args (m(k \<mapsto> a'))" using "1.prems"(2) by (intro wf_args_upd)
    with "1.IH" [OF True k_def _ a(2) add [symmetric] refl] rec a(1)
    show ?thesis by (simp add: AssertOptExists_def fun_upd_def)
  qed
qed

lemma occs_Cons: "occs k ((k', v) # kvs) = (if k' = k then v # occs k kvs else occs k kvs)"
  by (simp add: occs_def)

text \<open>One option with its value, then the rest of the line.\<close>

lemma collected_step:
  assumes "m k = Some a" "conv stof a v = Inr x" "GetType a' = GetType a" "conv stof a' = conv stof a"
    and "given a' = given a @ [x]" "vals a' = given a @ [x]"
    and rest: "collected stof (m(k \<mapsto> a')) kvs m'"
  shows "collected stof m ((k, v) # kvs) m'"
  unfolding collected_def
proof
  fix j
  have "case (m(k \<mapsto> a')) j of None \<Rightarrow> m' j = None
      | Some a \<Rightarrow> \<exists>b. m' j = Some b \<and> GetType b = GetType a \<and>
          (if occs j kvs = [] then b = a
           else map Inr (vals b) = map Inr (given a) @ map (conv stof a) (occs j kvs))"
    using rest unfolding collected_def by blast
  then show "case m j of None \<Rightarrow> m' j = None
      | Some a \<Rightarrow> \<exists>b. m' j = Some b \<and> GetType b = GetType a \<and>
          (if occs j ((k, v) # kvs) = [] then b = a
           else map Inr (vals b) = map Inr (given a) @ map (conv stof a) (occs j ((k, v) # kvs)))"
    using assms(1-6) by (cases "j = k") (auto simp: occs_Cons split: option.splits if_splits)
qed

lemma drop_Cons_Cons:
  assumes "drop i xs = a # b # ys"
  shows "i + 1 < length xs" "xs ! i = a" "xs ! (i + 1) = b" "drop (i + 2) xs = ys"
proof -
  show len: "i + 1 < length xs" using arg_cong [OF assms, of length] by simp
  have "drop i xs ! 0 = a" "drop i xs ! 1 = b" "drop 2 (drop i xs) = ys" using assms by simp_all
  then show "xs ! i = a" "xs ! (i + 1) = b" "drop (i + 2) xs = ys" using len by (simp_all add: add.commute)
qed

lemma ArgIter_from_collects:
  assumes "drop i argv = words_of kvs" "wf_args m"
    and "\<forall>(k, v) \<in> set kvs. prefix ''-'' k \<and> (\<exists>a x. m k = Some a \<and> conv stof a v = Inr x)"
  shows "\<exists>m'. ArgIter_from stof argv i m = (Inr (), m') \<and> collected stof m kvs m'"
  using assms
proof (induction kvs arbitrary: i m)
  case Nil
  then have "length argv \<le> i" by (simp add: words_of_def)
  then show ?case by (auto simp: ArgIter_from_end collected_def occs_def split: option.splits)
next
  case (Cons kv kvs)
  obtain k v where kv: "kv = (k, v)" by (cases kv)
  then have "drop i argv = k # v # words_of kvs" using Cons.prems(1) by (simp add: words_of_def)
  note pos = drop_Cons_Cons [OF this]
  obtain a x where k: "prefix ''-'' k" and a: "m k = Some a" "conv stof a v = Inr x"
    using Cons.prems(3) kv by auto
  have wf: "wf_arg a" using Cons.prems(2) a(1) by (auto simp: wf_args_def)
  define a' where "a' = snd (Add stof a v)"
  note add = Add_accepted [OF wf a(2), folded a'_def]
  have Add: "Add stof a v = (Inr 1, a')" using add(1) by (simp add: a'_def prod_eq_iff)
  have "GetType a \<noteq> kNone" using a(2) by (cases a) auto
  then have step: "ArgIter_from stof argv i m = ArgIter_from stof argv (i + 2) (m(k \<mapsto> a'))"
    using pos(1-3) k a(1) Add by (intro ArgIter_from_option) simp_all
  have "\<forall>(j, w) \<in> set kvs. prefix ''-'' j \<and> (\<exists>b y. (m(k \<mapsto> a')) j = Some b \<and> conv stof b w = Inr y)"
    using Cons.prems(3) a(1) add(3) by fastforce
  with Cons.IH [OF pos(4) wf_args_upd [OF Cons.prems(2) add(4)]]
  obtain m' where "ArgIter_from stof argv (i + 2) (m(k \<mapsto> a')) = (Inr (), m')" "collected stof (m(k \<mapsto> a')) kvs m'"
    by blast
  then show ?case
    using step kv collected_step [where m = m and k = k and stof = stof and v = v, OF a add(2) add(3) add(5) add(6)] by auto
qed

lemma get_back_defined: "(is_set b \<longrightarrow> xs \<noteq> []) \<Longrightarrow> get_back b xs \<noteq> Inl Undefined"
  by (simp add: get_back_def)

lemma getters_defined:
  assumes "wf_arg a"
  shows "GetStringOpt_arg a \<noteq> Inl Undefined" "GetIntOpt_arg a \<noteq> Inl Undefined"
    "GetFloatOpt_arg a \<noteq> Inl Undefined" "GetSizeOpt_arg a \<noteq> Inl Undefined"
  using assms by (cases a; simp add: wf_arg_def get_back_defined)+

lemma AssertOptIsSet_wf:
  assumes "wf_args m" "\<And>a. wf_arg a \<Longrightarrow> get a \<noteq> Inl Undefined"
  shows "and_then (AssertOptIsSet m opt) get \<noteq> Inl Undefined"
  using assms by (auto simp: AssertOptIsSet_def AssertOptExists_def and_then_def wf_args_def split: option.splits)

section \<open>Properties\<close>

text \<open>
  C28. A command line of options with values the options accept is parsed: every option ends
  with the converted words that follow its occurrences, in their order, after the values it
  already had; a default value is dropped, and options that do not occur are left as they were.
\<close>

theorem arg_iter_collects:
  assumes "wf_args m"
    and "\<forall>(k, v) \<in> set kvs. prefix ''-'' k \<and> (\<exists>a x. m k = Some a \<and> conv stof a v = Inr x)"
  shows "\<exists>m'. ArgIter stof m (prog # words_of kvs) = (Inr (), m') \<and> collected stof m kvs m'"
  unfolding ArgIter_def using assms by (intro ArgIter_from_collects) simp_all

theorem arg_iter_collects_witness:
  "\<exists>m'. ArgIter (\<lambda>_. Inl Undefined) [''-e'' \<mapsto> IntArg (default_base ''-e'') [0 :: int]]
          [''test'', ''-e'', ''24'', ''-e'', ''25''] = (Inr (), m') \<and>
        (\<exists>a. m' ''-e'' = Some (a :: unit Arg) \<and> vals a = [IV 24, IV 25])"
proof -
  let ?m = "[''-e'' \<mapsto> IntArg (default_base ''-e'') [0 :: int]] :: unit ArgMap"
  let ?kvs = "[(''-e'', ''24''), (''-e'', ''25'')]"
  let ?stof = "\<lambda>_. Inl Undefined :: unit res"
  have n: "stoi ''24'' = Inr 24" "stoi ''25'' = Inr 25"
    using stoi_int_to_string [of 24] stoi_int_to_string [of 25] by (simp_all add: decimal_eval)
  have "wf_args ?m" by (simp add: wf_args_def wf_arg_def default_base_def)
  moreover have "\<forall>(k, v) \<in> set ?kvs. prefix ''-'' k \<and> (\<exists>a x. ?m k = Some a \<and> conv ?stof a v = Inr x)"
    using n by (simp add: map_res_def and_then_def)
  ultimately obtain m' where m': "ArgIter ?stof ?m (''test'' # words_of ?kvs) = (Inr (), m')"
      "collected ?stof ?m ?kvs m'"
    using arg_iter_collects [of ?m ?kvs ?stof "''test''"] by blast
  have "\<exists>a. m' ''-e'' = Some a \<and> vals a = [IV 24, IV 25]"
    using m'(2) n unfolding collected_def
    by (auto simp: occs_def given_def default_base_def map_res_def and_then_def map_eq_Cons_conv dest!: spec [of _ "''-e''"])
  then show ?thesis using m'(1) by (auto simp: words_of_def)
qed

text \<open>
  C29. Parsing keeps the options well-formed: when \<^verbatim>\<open>ArgIter\<close> returns, a set option has a value,
  so that no single-value getter of the map takes the last element of an empty list.
\<close>

theorem arg_iter_getters_defined:
  assumes "wf_args m" "ArgIter stof m argv = (Inr (), m')"
  shows "wf_args m' \<and> GetStringOpt m' opt \<noteq> Inl Undefined \<and> GetIntOpt m' opt \<noteq> Inl Undefined \<and>
         GetFloatOpt m' opt \<noteq> Inl Undefined \<and> GetSizeOpt m' opt \<noteq> Inl Undefined"
proof -
  have "wf_args m'" using assms ArgIter_from_wf unfolding ArgIter_def by blast
  then show ?thesis
    unfolding GetStringOpt_def GetIntOpt_def GetFloatOpt_def GetSizeOpt_def
    by (intro conjI AssertOptIsSet_wf) (simp_all add: getters_defined)
qed

theorem arg_iter_getters_defined_witness:
  "\<exists>m'. ArgIter (\<lambda>_. Inl Undefined) [''-g'' \<mapsto> (NoneArg (new_base ''-g'') :: unit Arg)] [''test'', ''-g''] = (Inr (), m')
        \<and> wf_args m' \<and> GetSizeOpt m' ''-g'' \<noteq> Inl Undefined"
proof -
  let ?m = "[''-g'' \<mapsto> (NoneArg (new_base ''-g'') :: unit Arg)]"
  let ?m' = "?m(''-g'' \<mapsto> NoneArg ((new_base ''-g'')\<lparr>is_set := True\<rparr>))"
  have "wf_args ?m" by (simp add: wf_args_def wf_arg_def new_base_def)
  moreover have "ArgIter (\<lambda>_. Inl Undefined) ?m [''test'', ''-g''] = (Inr (), ?m')"
    by (simp add: ArgIter_def ArgIter_from.simps AssertOptExists_def Let_def)
  ultimately show ?thesis using arg_iter_getters_defined [of ?m "\<lambda>_. Inl Undefined" "[''test'', ''-g'']" ?m' "''-g''"]
    by blast
qed

text \<open>
  C30. A size with a unit: a decimal number that fits in 64 bits followed by k, m or g is that
  number times 1024, its square or its cube, modulo \<open>2\<^sup>6\<^sup>4\<close>; a larger number throws.
\<close>

theorem to_size_units:
  "ToSize (nat_to_string n @ [u]) =
     (let shift = (if u \<in> {CHR ''k'', CHR ''K''} then 10 else if u \<in> {CHR ''m'', CHR ''M''} then 20 else 30)
      in if n < 2 ^ 64 then Inr (of_nat (n * 2 ^ shift)) else Inl (Std_Exn ''out_of_range: stoul''))"
  if "u \<in> {CHR ''k'', CHR ''K'', CHR ''m'', CHR ''M'', CHR ''g'', CHR ''G''}"
proof -
  have "\<not> is_digit u" using that by (auto simp: is_digit_def)
  then have "stoul (nat_to_string n @ [u]) =
       (if n < 2 ^ 64 then Inr (of_nat n) else Inl (Std_Exn ''out_of_range: stoul''))"
    by (intro stoul_nat_to_string) simp
  then show ?thesis using that by (auto simp: ToSize_def and_then_def)
qed

theorem to_size_units_witness:
  "ToSize ''35k'' = Inr 35840 \<and> ToSize ''34359738369g'' = Inr (2 ^ 30)"
  using to_size_units [of "CHR ''k''" 35] to_size_units [of "CHR ''g''" 34359738369]
  by (simp add: decimal_eval)

text \<open>
  A word the class of an option rejects: \<^verbatim>\<open>Add\<close> throws what the conversion throws, and an
  option that had a default is left set but without a value; taking its value is then undefined.
\<close>

theorem rejected_word_loses_default:
  assumes "wf_arg a" "use_default (base_of a)" "conv stof a s = Inl e"
  shows "\<exists>a'. Add stof a s = (Inl e, a') \<and> IsSet a' \<and> vals a' = [] \<and>
           (GetType a \<in> {kInt, kStringMap} \<longrightarrow> GetIntOpt_arg a' = Inl Undefined)"
  using assms wf_arg_default [OF assms(1,2)]
  by (cases a) (auto simp: wf_arg_def Add_value_def map_res_def and_then_def IsSet_def get_back_def Let_def split: sum.splits)

theorem rejected_word_loses_default_witness:
  "\<exists>a'. Add (\<lambda>_. Inl Undefined) (IntArg (default_base ''-e'') [7] :: unit Arg) ''x'' =
          (Inl (Std_Exn ''invalid_argument: stoi''), a') \<and> GetIntOpt_arg a' = Inl Undefined"
proof -
  let ?a = "IntArg (default_base ''-e'') [7] :: unit Arg"
  have "stoi ''x'' = Inl (Std_Exn ''invalid_argument: stoi'')" by code_simp
  then have "conv (\<lambda>_. Inl Undefined) ?a ''x'' = Inl (Std_Exn ''invalid_argument: stoi'')"
    by (simp add: map_res_def and_then_def)
  moreover have "wf_arg ?a" "use_default (base_of ?a)" by (simp_all add: wf_arg_def default_base_def)
  ultimately show ?thesis
    using rejected_word_loses_default [of ?a "\<lambda>_. Inl Undefined" "''x''"] by auto
qed

text \<open>
  A positional word is not a value: it selects the option with the empty name, which takes
  the word after it, and the positional word itself is lost; a positional word at the end of
  the line throws.
\<close>

theorem positional_word_lost:
  assumes "wf_args m" "m '''' = Some a" "conv stof a v = Inr x" "\<not> prefix ''-'' w"
  shows "(\<exists>m'. ArgIter stof m [prog, w, v] = (Inr (), m') \<and> map_option vals (m' '''') = Some (given a @ [x]))
    \<and> ArgIter stof m [prog, w] = (Inl (Thrown_Int 1), m)"
proof
  have wf: "wf_arg a" using assms(1,2) by (auto simp: wf_args_def)
  define a' where "a' = snd (Add stof a v)"
  note add = Add_accepted [OF wf assms(3), folded a'_def]
  have Add: "Add stof a v = (Inr 1, a')" using add(1) by (simp add: a'_def prod_eq_iff)
  have none: "GetType a \<noteq> kNone" using assms(3) by (cases a) auto
  have "ArgIter_from stof [prog, w, v] 1 m = ArgIter_from stof [prog, w, v] (1 + 2) (m('''' \<mapsto> a'))"
    using assms(2,4) Add none by (intro ArgIter_from_option) simp_all
  then show "\<exists>m'. ArgIter stof m [prog, w, v] = (Inr (), m') \<and> map_option vals (m' '''') = Some (given a @ [x])"
    using add(6) by (simp add: ArgIter_def ArgIter_from_end)
  show "ArgIter stof m [prog, w] = (Inl (Thrown_Int 1), m)"
    unfolding ArgIter_def using assms(2,4) none by (subst ArgIter_from.simps) (simp add: AssertOptExists_def)
qed

theorem positional_word_lost_witness:
  "\<exists>m'. ArgIter (\<lambda>_. Inl Undefined) ['''' \<mapsto> (StringArg (new_base '''') [] :: unit Arg)]
          [''cp'', ''from'', ''to''] = (Inr (), m') \<and> map_option vals (m' '''') = Some [SV ''to'']"
proof -
  let ?m = "['''' \<mapsto> (StringArg (new_base '''') [] :: unit Arg)]"
  have "wf_args ?m" by (simp add: wf_args_def wf_arg_def new_base_def)
  from positional_word_lost [OF this, of "StringArg (new_base '''') []" "\<lambda>_. Inl Undefined" "''to''" "SV ''to''" "''from''" "''cp''"]
  show ?thesis by (simp add: given_def new_base_def)
qed

end
