(* ===== verification/Bench_Stats.thy ===== *)
theory Bench_Stats
  imports Complex_Main Arguments File_Io
begin

text \<open>
  The statistics of \<^verbatim>\<open>benchmark/src/benchmark/benchmark.cpp\<close>: \<^verbatim>\<open>time_stats\<close> combines the times of all
  processes, \<^verbatim>\<open>io_stats\<close> and \<^verbatim>\<open>md_stats\<close> append a line to a table that later runs add to. The
  operations on \<^verbatim>\<open>double\<close> (type \<open>'d\<close>), the reductions of MPI and what a stream prints for a
  \<^verbatim>\<open>double\<close> are operations of \<open>double_ops\<close>.
\<close>

record 'd double_ops =
  db_sum :: "'d list \<Rightarrow> 'd"
  db_min :: "'d list \<Rightarrow> 'd"
  db_max :: "'d list \<Rightarrow> 'd"
  db_sub :: "'d \<Rightarrow> 'd \<Rightarrow> 'd"
  db_div :: "'d \<Rightarrow> 'd \<Rightarrow> 'd"
  db_sq :: "'d \<Rightarrow> 'd"
  db_sqrt :: "'d \<Rightarrow> 'd"
  db_of_int :: "int \<Rightarrow> 'd"
  db_of_size :: "size_t \<Rightarrow> 'd"
  db_show :: "'d \<Rightarrow> string"

record 'd time_summary =
  avg_msec :: 'd
  std_msec :: 'd
  min_msec :: 'd
  max_msec :: 'd

text \<open>\<open>ts\<close> are the values of \<^verbatim>\<open>local_time_spent\<close> of all processes.\<close>

definition time_stats :: "'d double_ops \<Rightarrow> 'd list \<Rightarrow> int \<Rightarrow> 'd time_summary" where
  "time_stats D ts nprocs =
     (let avg = db_div D (db_sum D ts) (db_of_int D nprocs)
      in \<lparr>avg_msec = avg,
          std_msec = db_sqrt D (db_sum D (map (\<lambda>t. db_sq D (db_sub D t avg)) ts)),
          min_msec = db_min D ts, max_msec = db_max D ts\<rparr>)"

section \<open>The table\<close>

text \<open>
  A line through an \<^verbatim>\<open>ofstream\<close> opened to append; the flag says whether the stream is still good.
\<close>

definition put_line :: "string \<Rightarrow> fs \<times> bool \<Rightarrow> bytes \<Rightarrow> fs \<times> bool" where
  "put_line p s l =
     (if snd s
      then let fs = fst s;
               content = old_bytes (fs_files fs p);
               r = posix_write fs content (length content) l
           in (fs\<lparr>fs_files := (fs_files fs)(p \<mapsto> snd r)\<rparr>, fst r = of_nat (length l))
      else s)"

definition append_report :: "string \<Rightarrow> bytes \<Rightarrow> bytes \<Rightarrow> fs \<Rightarrow> fs" where
  "append_report output_path header row fs =
     (case posix_open_creat fs output_path of
        None \<Rightarrow> fs
      | Some (_, fs1) \<Rightarrow>
          fst (foldl (put_line output_path) (fs1, True)
                 ((if fs_files fs output_path = None then [header] else []) @ [row])))"

fun csv_line :: "string list \<Rightarrow> string" where
  "csv_line [] = [CHR 0x0A]"
| "csv_line [x] = x @ [CHR 0x0A]"
| "csv_line (x # xs) = x @ '','' @ csv_line xs"

definition size_string :: "size_t \<Rightarrow> string" where
  "size_string n = nat_to_string (unat n)"

definition io_header :: string where
  "io_header = csv_line [''avg_msec'', ''std_msec'', ''min_msec'', ''max_msec'', ''nprocs'', ''block_size'', ''ap'',
     ''tot_read'', ''tot_write'', ''tot_bytes'', ''bw_read'', ''bw_write'', ''bw_kbps'', ''conf'']"

definition md_header :: string where
  "md_header = csv_line [''avg_msec'', ''std_msec'', ''min_msec'', ''max_msec'', ''nprocs'', ''md_fcnt'', ''md_dir'',
     ''tot_ops'', ''thrpt_kiops'', ''conf'']"

definition time_fields :: "'d double_ops \<Rightarrow> 'd time_summary \<Rightarrow> int \<Rightarrow> string list" where
  "time_fields D s nprocs =
     map (db_show D) [avg_msec s, std_msec s, min_msec s, max_msec s] @ [int_to_string nprocs]"

definition io_row ::
  "'d double_ops \<Rightarrow> 'd list \<Rightarrow> int \<Rightarrow> size_t \<Rightarrow> size_t \<Rightarrow> size_t \<Rightarrow> int \<Rightarrow> string \<Rightarrow> string" where
  "io_row D ts nprocs read_per_proc write_per_proc block_size ap conf =
     (let s = time_stats D ts nprocs;
          tot_read = read_per_proc * word_of_int nprocs;
          tot_write = write_per_proc * word_of_int nprocs;
          tot_bytes = tot_read + tot_write;
          bw = (\<lambda>n. db_show D (db_div D (db_of_size D n) (avg_msec s)))
      in csv_line (time_fields D s nprocs @
           [size_string block_size, int_to_string ap, size_string tot_read, size_string tot_write,
            size_string tot_bytes, bw tot_read, bw tot_write, bw tot_bytes, conf]))"

definition md_row :: "'d double_ops \<Rightarrow> 'd list \<Rightarrow> int \<Rightarrow> size_t \<Rightarrow> size_t \<Rightarrow> string \<Rightarrow> string" where
  "md_row D ts nprocs md_fcnt_per_proc md_dir_per_proc conf =
     (let s = time_stats D ts nprocs;
          md_fcnt = md_fcnt_per_proc * word_of_int nprocs;
          md_dir = md_dir_per_proc * word_of_int nprocs;
          tot_ops = md_fcnt + md_dir
      in csv_line (time_fields D s nprocs @
           [size_string md_fcnt, size_string md_dir, size_string tot_ops,
            db_show D (db_div D (db_of_size D tot_ops) (avg_msec s)), conf]))"

text \<open>The process of rank 0 writes; the others only take part in the reductions.\<close>

definition with_report :: "'f ArgMap \<Rightarrow> int \<Rightarrow> bytes \<Rightarrow> (string \<Rightarrow> bytes) \<Rightarrow> fs \<Rightarrow> unit res \<times> fs" where
  "with_report m rank header row fs =
     (if \<not> OptIsSet m ''-out'' \<or> rank \<noteq> 0 then (Inr (), fs)
      else case GetStringOpt m ''-config'' of
          Inl e \<Rightarrow> (Inl e, fs)
        | Inr conf \<Rightarrow>
            (case GetStringOpt m ''-out'' of
               Inl e \<Rightarrow> (Inl e, fs)
             | Inr output_path \<Rightarrow> (Inr (), append_report output_path header (row conf) fs)))"

definition io_stats ::
  "'d double_ops \<Rightarrow> 'd list \<Rightarrow> 'f ArgMap \<Rightarrow> int \<Rightarrow> int \<Rightarrow> size_t \<Rightarrow> size_t \<Rightarrow> size_t \<Rightarrow> int \<Rightarrow> fs \<Rightarrow> unit res \<times> fs" where
  "io_stats D ts m rank nprocs read_per_proc write_per_proc block_size ap =
     with_report m rank io_header (io_row D ts nprocs read_per_proc write_per_proc block_size ap)"

definition md_stats ::
  "'d double_ops \<Rightarrow> 'd list \<Rightarrow> 'f ArgMap \<Rightarrow> int \<Rightarrow> int \<Rightarrow> size_t \<Rightarrow> size_t \<Rightarrow> fs \<Rightarrow> unit res \<times> fs" where
  "md_stats D ts m rank nprocs md_fcnt_per_proc md_dir_per_proc =
     with_report m rank md_header (md_row D ts nprocs md_fcnt_per_proc md_dir_per_proc)"

section \<open>Lemmas\<close>

definition put_text :: "string \<Rightarrow> bytes \<Rightarrow> fs \<Rightarrow> fs" where
  "put_text p c fs = fs\<lparr>fs_files := (fs_files fs)(p \<mapsto> c)\<rparr>"

lemma put_text_simps [simp]:
  "fs_files (put_text p c fs) p = Some c" "put_text p d (put_text p c fs) = put_text p d fs"
  "fs_room (put_text p c fs) = fs_room fs" "fs_denied (put_text p c fs) = fs_denied fs"
  by (simp_all add: put_text_def)

lemma csv_line_nonempty [simp]: "csv_line xs \<noteq> []"
  by (induction xs rule: csv_line.induct) simp_all

lemma put_line_room:
  assumes "fs_files fs p = Some c" "length c + length l \<le> fs_room fs"
  shows "put_line p (fs, True) l = (put_text p (c @ l) fs, True)"
proof -
  have "overlay (length c) l c = c @ l" by (simp add: overlay_def)
  then show ?thesis
    using assms posix_write_room [of "length c" l fs c]
    by (auto simp: put_line_def put_text_def Let_def old_bytes_def)
qed

lemma append_report_room:
  assumes "\<not> fs_denied fs p"
    and "length (case fs_files fs p of None \<Rightarrow> h | Some c \<Rightarrow> c) + length r \<le> fs_room fs"
  shows "append_report p h r fs = put_text p ((case fs_files fs p of None \<Rightarrow> h | Some c \<Rightarrow> c) @ r) fs"
proof (cases "fs_files fs p")
  case None
  then have op: "posix_open_creat fs p = Some ([], put_text p [] fs)"
    using assms(1) by (simp add: posix_open_creat_def put_text_def old_bytes_def)
  have "put_line p (put_text p [] fs, True) h = (put_text p h fs, True)"
    using assms(2) None by (subst put_line_room [of _ _ "[]"]) simp_all
  moreover have "put_line p (put_text p h fs, True) r = (put_text p (h @ r) fs, True)"
    using assms(2) None by (subst put_line_room [of _ _ h]) simp_all
  ultimately show ?thesis using None op by (simp add: append_report_def)
next
  case (Some c)
  then have op: "posix_open_creat fs p = Some (c, put_text p c fs)"
    using assms(1) by (simp add: posix_open_creat_def put_text_def old_bytes_def)
  have "put_line p (put_text p c fs, True) r = (put_text p (c @ r) fs, True)"
    using assms(2) Some by (subst put_line_room [of _ _ c]) simp_all
  then show ?thesis using Some op by (simp add: append_report_def)
qed


lemma with_report_room:
  assumes "OptIsSet m ''-out''" "GetStringOpt m ''-config'' = Inr conf" "GetStringOpt m ''-out'' = Inr p"
    and "\<not> fs_denied fs p"
    and "length (case fs_files fs p of None \<Rightarrow> h | Some c \<Rightarrow> c) + length (row conf) \<le> fs_room fs"
  shows "with_report m 0 h row fs =
    (Inr (), put_text p ((case fs_files fs p of None \<Rightarrow> h | Some c \<Rightarrow> c) @ row conf) fs)"
  using assms append_report_room [OF assms(4,5)] by (simp add: with_report_def)

lemma reports_append:
  assumes "OptIsSet m ''-out''" "GetStringOpt m ''-config'' = Inr conf" "GetStringOpt m ''-out'' = Inr p"
    and "\<not> fs_denied fs p" "length c + length (concat (map (\<lambda>row. row conf) rows)) \<le> fs_room fs"
  shows "foldl (\<lambda>fs row. snd (with_report m 0 h row fs)) (put_text p c fs) rows =
    put_text p (c @ concat (map (\<lambda>row. row conf) rows)) fs"
  using assms(5)
proof (induction rows arbitrary: c)
  case (Cons row rows)
  have "with_report m 0 h row (put_text p c fs) = (Inr (), put_text p (c @ row conf) fs)"
    using with_report_room [OF assms(1-3), of "put_text p c fs" h row] Cons.prems assms(4) by simp
  then show ?case using Cons by simp
qed simp

section \<open>Properties\<close>

text \<open>What one run reports: the times of its processes and its parameters.\<close>

record 'd io_run =
  run_times :: "'d list"
  run_nprocs :: int
  run_read :: size_t
  run_write :: size_t
  run_block :: size_t
  run_ap :: int

definition run_row :: "'d double_ops \<Rightarrow> string \<Rightarrow> 'd io_run \<Rightarrow> string" where
  "run_row D conf r =
     io_row D (run_times r) (run_nprocs r) (run_read r) (run_write r) (run_block r) (run_ap r) conf"

definition report_run :: "'d double_ops \<Rightarrow> 'f ArgMap \<Rightarrow> fs \<Rightarrow> 'd io_run \<Rightarrow> fs" where
  "report_run D m fs r =
     snd (io_stats D (run_times r) m 0 (run_nprocs r) (run_read r) (run_write r) (run_block r) (run_ap r) fs)"

lemma report_run_with:
  "report_run D m fs r = snd (with_report m 0 io_header (\<lambda>conf. run_row D conf r) fs)"
  by (simp add: report_run_def io_stats_def run_row_def)

lemma report_runs_with:
  "foldl (report_run D m) fs rs =
     foldl (\<lambda>fs row. snd (with_report m 0 io_header row fs)) fs (map (\<lambda>r conf. run_row D conf r) rs)"
  by (simp add: foldl_map report_run_with [abs_def])

text \<open>
  The table of the I/O workload. Over any number of runs with the same options, the file named
  by \<^verbatim>\<open>-out\<close> gets the header once and then one line for each run, in order; nothing else of the
  file system changes.
\<close>

theorem io_table_one_header:
  assumes "OptIsSet m ''-out''" "GetStringOpt m ''-config'' = Inr conf" "GetStringOpt m ''-out'' = Inr p"
    and "\<not> fs_denied fs p" "fs_files fs p = None" "rs \<noteq> []"
    and "length io_header + length (concat (map (run_row D conf) rs)) \<le> fs_room fs"
  shows "foldl (report_run D m) fs rs = put_text p (io_header @ concat (map (run_row D conf) rs)) fs"
proof -
  obtain r rs' where rs: "rs = r # rs'" using assms(6) by (cases rs) simp_all
  have "report_run D m fs r = put_text p (io_header @ run_row D conf r) fs"
    using assms rs by (simp add: report_run_with with_report_room)
  then show ?thesis
    using reports_append [OF assms(1-4), of "io_header @ run_row D conf r" "map (\<lambda>r conf. run_row D conf r) rs'" io_header]
      assms(7) rs by (simp add: report_runs_with comp_def)
qed

text \<open>
  The two workloads do not keep their tables apart: a metadata run whose \<^verbatim>\<open>-out\<close> names the table
  of an I/O run adds its ten fields under the header of the fourteen others.
\<close>

theorem md_row_under_io_header:
  assumes "OptIsSet m ''-out''" "GetStringOpt m ''-config'' = Inr conf" "GetStringOpt m ''-out'' = Inr p"
    and "\<not> fs_denied fs p" "fs_files fs p = Some (io_header @ rows)"
    and "length (io_header @ rows @ md_row D ts nprocs f d conf) \<le> fs_room fs"
  shows "md_stats D ts m 0 nprocs f d fs = (Inr (), put_text p (io_header @ rows @ md_row D ts nprocs f d conf) fs)"
  using assms with_report_room [OF assms(1-4), of md_header "md_row D ts nprocs f d"] by (simp add: md_stats_def)

text \<open>
  The standard deviation is not one: the sum of the squared deviations is not divided by the
  number of processes. On exact numbers the value is the deviation times the root of that number.
\<close>

definition real_ops :: "(real \<Rightarrow> string) \<Rightarrow> real double_ops" where
  "real_ops sh =
     \<lparr>db_sum = sum_list, db_min = (\<lambda>ts. fold min ts (hd ts)), db_max = (\<lambda>ts. fold max ts (hd ts)),
      db_sub = (-), db_div = (/), db_sq = (\<lambda>x. x ^ 2), db_sqrt = sqrt, db_of_int = of_int,
      db_of_size = (\<lambda>n. of_nat (unat n)), db_show = sh\<rparr>"

definition std_deviation :: "real list \<Rightarrow> real" where
  "std_deviation ts =
     (let avg = sum_list ts / real (length ts)
      in sqrt (sum_list (map (\<lambda>t. (t - avg) ^ 2) ts) / real (length ts)))"

theorem std_msec_not_deviation:
  assumes "ts \<noteq> []"
  shows "std_msec (time_stats (real_ops sh) ts (int (length ts))) = sqrt (real (length ts)) * std_deviation ts"
proof -
  have "0 < real (length ts)" using assms by simp
  then have "sqrt (real (length ts)) * sqrt (x / real (length ts)) = sqrt x" for x
    by (simp flip: real_sqrt_mult)
  then show ?thesis by (simp add: time_stats_def real_ops_def std_deviation_def Let_def)
qed

end
