(* ===== verification/Rng.thy ===== *)
theory Rng
  imports Error_Codes
begin

text \<open>
  \<^verbatim>\<open>common/include/common/rng.h\<close>: the distributions the benchmark takes its offsets from.

  The random engines and distributions of the C++ library are the operations of \<open>rng_ops\<close>:
  \<open>'d\<close> is \<^verbatim>\<open>double\<close>, \<open>'g\<close> the state of \<^verbatim>\<open>std::default_random_engine\<close>, \<open>rng_draw\<close> one call of a
  distribution with the parameters it was built with, and \<open>rng_clock\<close> the reading of the clock.
\<close>

datatype DistributionType = dNone | dNormal | dGamma | dExponential | dUniform

record ('d, 'g) rng_ops =
  rng_default :: 'g
  rng_engine :: "size_t \<Rightarrow> 'g"
  rng_clock :: size_t
  rng_draw :: "DistributionType \<Rightarrow> 'd list \<Rightarrow> 'g \<Rightarrow> 'd \<times> 'g"
  d_zero :: 'd
  d_one :: 'd
  d_of_size :: "size_t \<Rightarrow> 'd"
  d_round :: "'d \<Rightarrow> 'd"
  d_to_int :: "'d \<Rightarrow> int32"
  d_to_size :: "'d \<Rightarrow> size_t"

text \<open>
  An object of a class derived from \<^verbatim>\<open>Distribution\<close>: the generator of the base class, and the
  counter of \<^verbatim>\<open>CountDistribution\<close> or the parameters of \<^verbatim>\<open>distribution_\<close>, \<open>[]\<close> when it is default
  constructed.
\<close>

datatype ('d, 'g) Distribution =
    CountDistribution 'g size_t size_t
  | RealDistribution 'g DistributionType "'d list"

fun Seed :: "('d, 'g) rng_ops \<Rightarrow> size_t \<Rightarrow> ('d, 'g) Distribution \<Rightarrow> ('d, 'g) Distribution" where
  "Seed N seed (CountDistribution _ i c) = CountDistribution (rng_engine N seed) i c"
| "Seed N seed (RealDistribution _ t ps) = RealDistribution (rng_engine N seed) t ps"

definition Seed_clock :: "('d, 'g) rng_ops \<Rightarrow> ('d, 'g) Distribution \<Rightarrow> ('d, 'g) Distribution" where
  "Seed_clock N d = Seed N (rng_clock N) d"

text \<open>The three overloads of \<^verbatim>\<open>Shape\<close>; the base class throws for those a class does not override.\<close>

fun Shape_size :: "('d, 'g) rng_ops \<Rightarrow> size_t \<Rightarrow> ('d, 'g) Distribution \<Rightarrow> ('d, 'g) Distribution res" where
  "Shape_size N p (CountDistribution g _ c) = Inr (CountDistribution g p c)"
| "Shape_size N p (RealDistribution g t ps) =
     (if t = dUniform then Inr (RealDistribution g t [d_zero N, d_of_size N p]) else Inl (Thrown_Int 1))"

fun Shape_double :: "('d, 'g) rng_ops \<Rightarrow> 'd \<Rightarrow> ('d, 'g) Distribution \<Rightarrow> ('d, 'g) Distribution res" where
  "Shape_double N p (CountDistribution g i c) = Inl (Thrown_Int 1)"
| "Shape_double N p (RealDistribution g t ps) =
     (case t of
        dNormal \<Rightarrow> Inr (RealDistribution g t [d_zero N, p])
      | dGamma \<Rightarrow> Inr (RealDistribution g t [d_one N, p])
      | dExponential \<Rightarrow> Inr (RealDistribution g t [p])
      | dUniform \<Rightarrow> Inr (RealDistribution g t [d_zero N, p])
      | dNone \<Rightarrow> Inl (Thrown_Int 1))"

fun Shape_double2 :: "'d \<Rightarrow> 'd \<Rightarrow> ('d, 'g) Distribution \<Rightarrow> ('d, 'g) Distribution res" where
  "Shape_double2 p q (CountDistribution g i c) = Inl (Thrown_Int 1)"
| "Shape_double2 p q (RealDistribution g t ps) =
     (if t \<in> {dNormal, dGamma, dUniform} then Inr (RealDistribution g t [p, q]) else Inl (Thrown_Int 1))"

fun GetInt :: "('d, 'g) rng_ops \<Rightarrow> ('d, 'g) Distribution \<Rightarrow> int32 \<times> ('d, 'g) Distribution" where
  "GetInt N (CountDistribution g i c) = (ucast c, CountDistribution g i (c + i))"
| "GetInt N (RealDistribution g t ps) =
     (let (x, g') = rng_draw N t ps g in (d_to_int N (d_round N x), RealDistribution g' t ps))"

fun GetSize :: "('d, 'g) rng_ops \<Rightarrow> ('d, 'g) Distribution \<Rightarrow> size_t \<times> ('d, 'g) Distribution" where
  "GetSize N (CountDistribution g i c) = (c, CountDistribution g i (c + i))"
| "GetSize N (RealDistribution g t ps) =
     (let (x, g') = rng_draw N t ps g in (d_to_size N (d_round N x), RealDistribution g' t ps))"

fun GetDouble :: "('d, 'g) rng_ops \<Rightarrow> ('d, 'g) Distribution \<Rightarrow> 'd \<times> ('d, 'g) Distribution" where
  "GetDouble N (CountDistribution g i c) = (d_of_size N c, CountDistribution g i (c + i))"
| "GetDouble N (RealDistribution g t ps) =
     (let (x, g') = rng_draw N t ps g in (d_round N x, RealDistribution g' t ps))"

definition DistributionFactory_Get :: "('d, 'g) rng_ops \<Rightarrow> DistributionType \<Rightarrow> ('d, 'g) Distribution" where
  "DistributionFactory_Get N t =
     (if t = dNone then CountDistribution (rng_default N) 1 0 else RealDistribution (rng_default N) t [])"

text \<open>\<^verbatim>\<open>static_cast<DistributionType>\<close> of an \<^verbatim>\<open>int\<close>; other values select no case of a \<^verbatim>\<open>switch\<close>.\<close>

definition DistributionType_of :: "int \<Rightarrow> DistributionType option" where
  "DistributionType_of i =
     (if i = 0 then Some dNone else if i = 1 then Some dNormal else if i = 2 then Some dGamma
      else if i = 3 then Some dExponential else if i = 4 then Some dUniform else None)"

text \<open>The sizes of \<open>n\<close> successive calls of \<^verbatim>\<open>GetSize\<close>, and the object after them.\<close>

fun draws :: "('d, 'g) rng_ops \<Rightarrow> nat \<Rightarrow> ('d, 'g) Distribution \<Rightarrow> size_t list \<times> ('d, 'g) Distribution" where
  "draws N 0 d = ([], d)"
| "draws N (Suc n) d = (let (x, d1) = GetSize N d; (xs, d2) = draws N n d1 in (x # xs, d2))"

text \<open>
  The sequential access pattern: a counting distribution shaped with a block size gives the
  offsets of the consecutive blocks, whatever it was seeded with, wrapping around at \<open>2\<^sup>6\<^sup>4\<close>.
\<close>

theorem count_distribution_sequential:
  "\<exists>d. Shape_size N block (Seed N seed (DistributionFactory_Get N dNone)) = Inr d \<and>
       fst (draws N n d) = map (\<lambda>i. of_nat i * block) [0..<n]"
proof -
  have "fst (draws N n (CountDistribution g block c)) = map (\<lambda>i. c + of_nat i * block) [0..<n]" for g c
  proof (induction n arbitrary: c)
    case (Suc n)
    have "map (\<lambda>i. c + of_nat i * block) [0..<Suc n] =
          (c + of_nat 0 * block) # map (\<lambda>i. c + of_nat (Suc i) * block) [0..<n]"
      by (simp add: map_upt_Suc del: upt_Suc)
    then show ?case using Suc.IH [of "c + block"] by (simp add: split_beta algebra_simps del: upt_Suc)
  qed simp
  from this [of "rng_engine N seed" 0] show ?thesis
    by (simp add: DistributionFactory_Get_def)
qed

end
