(* ===== verification/Benchmark.thy ===== *)
theory Benchmark
  imports Bench_Stats Rng Redis_Io C_Program
begin

unbundle bit_operations_syntax

text \<open>
  The workload generator \<^verbatim>\<open>benchmark/src/benchmark\<close>: its storage clients (\<^verbatim>\<open>orangefs.h\<close>,
  \<^verbatim>\<open>redis.h\<close>, \<^verbatim>\<open>mongo.h\<close>, \<^verbatim>\<open>io_client_factory.h\<close>), its options (\<^verbatim>\<open>benchmark.h\<close>) and its
  workloads (\<^verbatim>\<open>benchmark.cpp\<close>), as one of the \<open>nprocs\<close> MPI processes runs them.

  The world holds the file system of \<open>File_Io\<close> and the state of the Redis cluster. boost's
  directory operations, redis++, the product of a \<^verbatim>\<open>float\<close> and a size, and whether the file
  system accepts a direct transfer are operations of \<open>bench_env\<close>, and so are the operations on
  doubles and the times the processes measure. A loop that may not end gives \<open>None\<close>.
\<close>

section \<open>The world\<close>

record 'r bworld =
  bw_fs :: fs
  bw_redis :: 'r

record ('r, 'f, 'd, 'g) bench_env =
  be_redis :: "'r redis_ops"
  be_connect :: "string \<Rightarrow> int \<Rightarrow> unit res"
  be_create_directory :: "string \<Rightarrow> fs \<Rightarrow> unit res \<times> fs"
  be_remove_all :: "string \<Rightarrow> fs \<Rightarrow> unit res \<times> fs"
  be_directory :: "string \<Rightarrow> fs \<Rightarrow> string list res"
  be_direct_ok :: "nat \<Rightarrow> nat \<Rightarrow> bool"
  be_stof :: "string \<Rightarrow> 'f res"
  be_fraction :: "'f \<Rightarrow> size_t \<Rightarrow> int \<Rightarrow> size_t"
  be_rng :: "('d, 'g) rng_ops"
  be_double :: "'d double_ops"
  be_times :: "'d list"

section \<open>FileMode\<close>

definition kRead :: nat where "kRead = 1"
definition kWrite :: nat where "kWrite = 2"
definition kCreate :: nat where "kCreate = 4"
definition kDirect :: nat where "kDirect = 8"
definition kSync :: nat where "kSync = 16"

definition in_mode :: "nat \<Rightarrow> nat \<Rightarrow> bool" where
  "in_mode mode f = (mode AND f \<noteq> 0)"

section \<open>Keys of the Redis cluster\<close>

definition SetKey :: "'r redis_ops \<Rightarrow> string \<Rightarrow> bytes \<Rightarrow> ('r bworld, unit) cprog" where
  "SetKey R k v w =
     (case redis_set R (bw_redis w) k v of
        (Inl e, r) \<Rightarrow> (Inl (Std_Exn e), w\<lparr>bw_redis := r\<rparr>)
      | (Inr _, r) \<Rightarrow> (Inr (), w\<lparr>bw_redis := r\<rparr>))"

definition HasKey :: "'r redis_ops \<Rightarrow> string \<Rightarrow> ('r bworld, bool) cprog" where
  "HasKey R k w =
     (case redis_get R (bw_redis w) k of
        Inl e \<Rightarrow> (Inl (Std_Exn e), w)
      | Inr v \<Rightarrow> (Inr (v \<noteq> None), w))"

text \<open>\<^verbatim>\<open>GetKey\<close> takes the value of an empty optional when the key is absent.\<close>

definition GetKey :: "'r redis_ops \<Rightarrow> string \<Rightarrow> ('r bworld, bytes) cprog" where
  "GetKey R k w =
     (case redis_get R (bw_redis w) k of
        Inl e \<Rightarrow> (Inl (Std_Exn e), w)
      | Inr None \<Rightarrow> (Inl Undefined, w)
      | Inr (Some v) \<Rightarrow> (Inr v, w))"

definition RemoveKey :: "'r redis_ops \<Rightarrow> string \<Rightarrow> ('r bworld, unit) cprog" where
  "RemoveKey R k w =
     (case redis_del R (bw_redis w) k of
        (Inl e, r) \<Rightarrow> (Inl (Std_Exn e), w\<lparr>bw_redis := r\<rparr>)
      | (Inr _, r) \<Rightarrow> (Inr (), w\<lparr>bw_redis := r\<rparr>))"

text \<open>The constructor of \<^verbatim>\<open>MongoContext\<close> and all its methods throw.\<close>

definition MongoContext :: "string \<Rightarrow> int \<Rightarrow> unit res" where
  "MongoContext addr port = Inl (Thrown_Int 1)"

definition mongo_SetKey :: "string \<Rightarrow> bytes \<Rightarrow> ('w, unit) cprog" where
  "mongo_SetKey k v = cfail (Thrown_Int 1)"

definition mongo_HasKey :: "string \<Rightarrow> ('w, bool) cprog" where
  "mongo_HasKey k = cfail (Thrown_Int 1)"

definition mongo_GetKey :: "string \<Rightarrow> ('w, bytes) cprog" where
  "mongo_GetKey k = cfail (Thrown_Int 1)"

definition mongo_RemoveKey :: "string \<Rightarrow> ('w, unit) cprog" where
  "mongo_RemoveKey k = cfail (Thrown_Int 1)"

section \<open>Open files\<close>

record OrangefsFile =
  of_path :: string
  of_off :: nat
  of_readable :: bool
  of_writable :: bool
  of_direct :: bool

record RedisFile =
  rf_path :: string
  rf_off :: size_t

record MongoFile =
  mf_path :: string
  mf_off :: size_t

datatype BenchFile = Orangefs OrangefsFile | Redis RedisFile | Mongo MongoFile

text \<open>The constructor of \<^verbatim>\<open>OrangefsFile\<close>: the flags of \<^verbatim>\<open>open\<close> and the call.\<close>

definition OrangefsFile_new :: "string \<Rightarrow> nat \<Rightarrow> ('r bworld, OrangefsFile) cprog" where
  "OrangefsFile_new path mode w =
     (let fs = bw_fs w;
          rd = in_mode mode kRead; wr = in_mode mode kWrite;
          f = \<lparr>of_path = path, of_off = 0, of_readable = rd \<or> \<not> wr, of_writable = wr,
               of_direct = in_mode mode kDirect\<rparr>
      in if fs_denied fs path then (Inl (Thrown_Int 1), w)
         else case fs_files fs path of
             Some _ \<Rightarrow> (Inr f, w)
           | None \<Rightarrow>
               if in_mode mode kCreate
               then (Inr f, w\<lparr>bw_fs := fs\<lparr>fs_files := (fs_files fs)(path \<mapsto> [])\<rparr>\<rparr>)
               else (Inl (Thrown_Int 1), w))"

text \<open>
  \<^verbatim>\<open>read\<close> and \<^verbatim>\<open>write\<close> on the descriptor: -1 on a descriptor of the wrong access mode and on a
  direct transfer the file system refuses. The result is stored in an \<^verbatim>\<open>int\<close>.
\<close>

definition OrangefsFile_Read ::
  "('r, 'f, 'd, 'g) bench_env \<Rightarrow> OrangefsFile \<Rightarrow> bytes \<Rightarrow> size_t \<Rightarrow> ('r bworld, bytes \<times> OrangefsFile) cprog" where
  "OrangefsFile_Read E f buffer sz w =
     (let fs = bw_fs w;
          got = posix_read fs (old_bytes (fs_files fs (of_path f))) (of_off f) (unat sz)
      in if \<not> of_readable f \<or> (of_direct f \<and> \<not> be_direct_ok E (of_off f) (unat sz))
         then (Inl (Thrown_Int 1), w)
         else case memcpy_at 0 got buffer of
             None \<Rightarrow> (Inl Undefined, w)
           | Some buffer' \<Rightarrow>
               if sint (of_nat (length got) :: int32) < 0 then (Inl (Thrown_Int 1), w)
               else (Inr (buffer', f\<lparr>of_off := of_off f + length got\<rparr>), w))"

definition OrangefsFile_Write ::
  "('r, 'f, 'd, 'g) bench_env \<Rightarrow> OrangefsFile \<Rightarrow> bytes \<Rightarrow> size_t \<Rightarrow> ('r bworld, OrangefsFile) cprog" where
  "OrangefsFile_Write E f buffer sz w =
     (let fs = bw_fs w in
      if \<not> of_writable f \<or> (of_direct f \<and> \<not> be_direct_ok E (of_off f) (unat sz))
      then (Inl (Thrown_Int 1), w)
      else case mem_read 0 (unat sz) buffer of
          None \<Rightarrow> (Inl Undefined, w)
        | Some dat \<Rightarrow>
            let (n, content) = posix_write fs (old_bytes (fs_files fs (of_path f))) (of_off f) dat;
                w' = w\<lparr>bw_fs := fs\<lparr>fs_files := (fs_files fs)(of_path f \<mapsto> content)\<rparr>\<rparr>
            in if sint (ucast n :: int32) < 0 then (Inl (Thrown_Int 1), w')
               else (Inr (f\<lparr>of_off := of_off f + unat n\<rparr>), w'))"

definition OrangefsFile_Seek :: "OrangefsFile \<Rightarrow> size_t \<Rightarrow> OrangefsFile" where
  "OrangefsFile_Seek f off = (if lseek_set_fails off then f else f\<lparr>of_off := unat off\<rparr>)"

text \<open>The files kept in blocks of \<^verbatim>\<open>kBlockSize\<close> bytes under the keys path0, path1, ...\<close>

definition kBlockSize :: size_t where "kBlockSize = 2 ^ 20"

definition block_key :: "string \<Rightarrow> size_t \<Rightarrow> string" where
  "block_key path sfx = path @ nat_to_string (unat sfx)"

definition piece_size :: "size_t \<Rightarrow> size_t \<Rightarrow> size_t" where
  "piece_size i sz = (if i + kBlockSize < sz then kBlockSize else sz - i)"

text \<open>
  \<^verbatim>\<open>RedisFile\<close> and \<^verbatim>\<open>MongoFile\<close> have the same loops, over the \<^verbatim>\<open>GetKey\<close> or \<^verbatim>\<open>SetKey\<close> of their context.
\<close>

partial_function (option) block_read_loop ::
  "(string \<Rightarrow> ('r bworld, bytes) cprog) \<Rightarrow> string \<Rightarrow> size_t \<Rightarrow> size_t \<Rightarrow> size_t \<Rightarrow> size_t \<Rightarrow> bytes \<Rightarrow> 'r bworld \<Rightarrow>
   (bytes res \<times> 'r bworld) option" where
  "block_read_loop get path sz i sfx rem buffer w =
     (if i < sz
      then case get (block_key path sfx) w of
          (Inl e, w') \<Rightarrow> Some (Inl e, w')
        | (Inr block, w') \<Rightarrow>
            (case mem_read (unat rem) (unat (piece_size i sz)) (c_str block) of
               None \<Rightarrow> Some (Inl Undefined, w')
             | Some dat \<Rightarrow>
                 (case memcpy_at (unat i) dat buffer of
                    None \<Rightarrow> Some (Inl Undefined, w')
                  | Some buffer' \<Rightarrow> block_read_loop get path sz (i + kBlockSize) (sfx + 1) 0 buffer' w'))
      else Some (Inr buffer, w))"

definition RedisFile_Read ::
  "('r, 'f, 'd, 'g) bench_env \<Rightarrow> RedisFile \<Rightarrow> bytes \<Rightarrow> size_t \<Rightarrow> ('r bworld, bytes \<times> RedisFile) oprog" where
  "RedisFile_Read E f buffer sz =
     obind (block_read_loop (GetKey (be_redis E)) (rf_path f) sz 0 (rf_off f div kBlockSize) (rf_off f mod kBlockSize) buffer)
       (\<lambda>buffer'. ototal (creturn (buffer', f\<lparr>rf_off := rf_off f + sz\<rparr>)))"

text \<open>
  \<^verbatim>\<open>Write\<close> copies into the characters of the local string \<^verbatim>\<open>block\<close>, which stays empty: only
  bytes inside the string may be written.
\<close>

partial_function (option) block_write_loop ::
  "(string \<Rightarrow> bytes \<Rightarrow> ('r bworld, unit) cprog) \<Rightarrow> string \<Rightarrow> bytes \<Rightarrow> size_t \<Rightarrow> size_t \<Rightarrow> size_t \<Rightarrow> size_t \<Rightarrow> bytes \<Rightarrow> 'r bworld \<Rightarrow>
   (unit res \<times> 'r bworld) option" where
  "block_write_loop set_key path buffer sz i sfx rem block w =
     (if i < sz
      then case mem_read (unat i) (unat (piece_size i sz)) buffer of
          None \<Rightarrow> Some (Inl Undefined, w)
        | Some dat \<Rightarrow>
            (case memcpy_at (unat rem) dat block of
               None \<Rightarrow> Some (Inl Undefined, w)
             | Some block' \<Rightarrow>
                 (case set_key (block_key path sfx) block' w of
                    (Inl e, w') \<Rightarrow> Some (Inl e, w')
                  | (Inr _, w') \<Rightarrow> block_write_loop set_key path buffer sz (i + kBlockSize) (sfx + 1) 0 block' w'))
      else Some (Inr (), w))"

definition RedisFile_Write ::
  "('r, 'f, 'd, 'g) bench_env \<Rightarrow> RedisFile \<Rightarrow> bytes \<Rightarrow> size_t \<Rightarrow> ('r bworld, RedisFile) oprog" where
  "RedisFile_Write E f buffer sz =
     obind (block_write_loop (SetKey (be_redis E)) (rf_path f) buffer sz 0 (rf_off f div kBlockSize) (rf_off f mod kBlockSize) [])
       (\<lambda>_. ototal (creturn (f\<lparr>rf_off := rf_off f + sz\<rparr>)))"

definition RedisFile_Seek :: "RedisFile \<Rightarrow> size_t \<Rightarrow> RedisFile" where
  "RedisFile_Seek f off = f\<lparr>rf_off := off\<rparr>"

definition MongoFile_Read :: "MongoFile \<Rightarrow> bytes \<Rightarrow> size_t \<Rightarrow> ('r bworld, bytes \<times> MongoFile) oprog" where
  "MongoFile_Read f buffer sz =
     obind (block_read_loop mongo_GetKey (mf_path f) sz 0 (mf_off f div kBlockSize) (mf_off f mod kBlockSize) buffer)
       (\<lambda>buffer'. ototal (creturn (buffer', f\<lparr>mf_off := mf_off f + sz\<rparr>)))"

definition MongoFile_Write :: "MongoFile \<Rightarrow> bytes \<Rightarrow> size_t \<Rightarrow> ('r bworld, MongoFile) oprog" where
  "MongoFile_Write f buffer sz =
     obind (block_write_loop mongo_SetKey (mf_path f) buffer sz 0 (mf_off f div kBlockSize) (mf_off f mod kBlockSize) [])
       (\<lambda>_. ototal (creturn (f\<lparr>mf_off := mf_off f + sz\<rparr>)))"

definition MongoFile_Seek :: "MongoFile \<Rightarrow> size_t \<Rightarrow> MongoFile" where
  "MongoFile_Seek f off = f\<lparr>mf_off := off\<rparr>"

text \<open>The virtual methods of \<^verbatim>\<open>File\<close>.\<close>

fun File_Read ::
  "('r, 'f, 'd, 'g) bench_env \<Rightarrow> BenchFile \<Rightarrow> bytes \<Rightarrow> size_t \<Rightarrow> ('r bworld, bytes \<times> BenchFile) oprog" where
  "File_Read E (Orangefs f) buffer sz =
     obind (ototal (OrangefsFile_Read E f buffer sz)) (\<lambda>(b, f'). ototal (creturn (b, Orangefs f')))"
| "File_Read E (Redis f) buffer sz =
     obind (RedisFile_Read E f buffer sz) (\<lambda>(b, f'). ototal (creturn (b, Redis f')))"
| "File_Read E (Mongo f) buffer sz =
     obind (MongoFile_Read f buffer sz) (\<lambda>(b, f'). ototal (creturn (b, Mongo f')))"

fun File_Write ::
  "('r, 'f, 'd, 'g) bench_env \<Rightarrow> BenchFile \<Rightarrow> bytes \<Rightarrow> size_t \<Rightarrow> ('r bworld, BenchFile) oprog" where
  "File_Write E (Orangefs f) buffer sz =
     obind (ototal (OrangefsFile_Write E f buffer sz)) (\<lambda>f'. ototal (creturn (Orangefs f')))"
| "File_Write E (Redis f) buffer sz =
     obind (RedisFile_Write E f buffer sz) (\<lambda>f'. ototal (creturn (Redis f')))"
| "File_Write E (Mongo f) buffer sz =
     obind (MongoFile_Write f buffer sz) (\<lambda>f'. ototal (creturn (Mongo f')))"

fun File_Seek :: "BenchFile \<Rightarrow> size_t \<Rightarrow> BenchFile" where
  "File_Seek (Orangefs f) off = Orangefs (OrangefsFile_Seek f off)"
| "File_Seek (Redis f) off = Redis (RedisFile_Seek f off)"
| "File_Seek (Mongo f) off = Mongo (MongoFile_Seek f off)"

section \<open>Storage clients\<close>

datatype BenchClientType = kOrangefs | kMongo | kRedis

text \<open>
  An object of a class derived from \<^verbatim>\<open>IOClient\<close>; the flag says whether the shared pointer to
  the context is set. A \<^verbatim>\<open>MongoIO\<close> never gets one, since the constructor of the context throws.
\<close>

datatype BenchClient = OrangefsIO string | RedisIO bool | MongoIO bool

definition IOClientFactory_Get :: "BenchClientType \<Rightarrow> BenchClient" where
  "IOClientFactory_Get type =
     (case type of kMongo \<Rightarrow> MongoIO False | kOrangefs \<Rightarrow> OrangefsIO '''' | kRedis \<Rightarrow> RedisIO False)"

definition RedisContext :: "('r, 'f, 'd, 'g) bench_env \<Rightarrow> string \<Rightarrow> int \<Rightarrow> unit res" where
  "RedisContext E addr port = be_connect E addr port"

fun Connect :: "('r, 'f, 'd, 'g) bench_env \<Rightarrow> BenchClient \<Rightarrow> string \<Rightarrow> int \<Rightarrow> BenchClient res" where
  "Connect E (OrangefsIO _) addr port = Inr (OrangefsIO addr)"
| "Connect E (RedisIO _) addr port = and_then (RedisContext E addr port) (\<lambda>_. Inr (RedisIO True))"
| "Connect E (MongoIO _) addr port = and_then (MongoContext addr port) (\<lambda>_. Inr (MongoIO True))"

definition RedisIO_Open :: "'r redis_ops \<Rightarrow> string \<Rightarrow> ('r bworld, RedisFile) cprog" where
  "RedisIO_Open R path =
     cbind (HasKey R path) (\<lambda>has.
     cbind (if has then creturn () else SetKey R path []) (\<lambda>_.
     creturn \<lparr>rf_path = path, rf_off = 0\<rparr>))"

definition MongoIO_Open :: "string \<Rightarrow> ('r bworld, MongoFile) cprog" where
  "MongoIO_Open path =
     cbind (mongo_HasKey path) (\<lambda>has.
     cbind (if has then creturn () else mongo_SetKey path []) (\<lambda>_.
     creturn \<lparr>mf_path = path, mf_off = 0\<rparr>))"

fun Open :: "('r, 'f, 'd, 'g) bench_env \<Rightarrow> BenchClient \<Rightarrow> string \<Rightarrow> nat \<Rightarrow> ('r bworld, BenchFile) cprog" where
  "Open E (OrangefsIO addr) path mode =
     cbind (OrangefsFile_new (addr @ path) mode) (\<lambda>f. creturn (Orangefs f))"
| "Open E (RedisIO True) path mode = cbind (RedisIO_Open (be_redis E) path) (\<lambda>f. creturn (Redis f))"
| "Open E (RedisIO False) path mode = cfail Undefined"
| "Open E (MongoIO True) path mode = cbind (MongoIO_Open path) (\<lambda>f. creturn (Mongo f))"
| "Open E (MongoIO False) path mode = cfail Undefined"

definition on_fs :: "(fs \<Rightarrow> unit res \<times> fs) \<Rightarrow> ('r bworld, unit) cprog" where
  "on_fs op w = (case op (bw_fs w) of (r, fs) \<Rightarrow> (r, w\<lparr>bw_fs := fs\<rparr>))"

fun Mkdir :: "('r, 'f, 'd, 'g) bench_env \<Rightarrow> BenchClient \<Rightarrow> string \<Rightarrow> ('r bworld, unit) cprog" where
  "Mkdir E (OrangefsIO addr) path = on_fs (be_create_directory E (addr @ path))"
| "Mkdir E (RedisIO True) path = SetKey (be_redis E) path []"
| "Mkdir E (RedisIO False) path = cfail Undefined"
| "Mkdir E (MongoIO True) path = mongo_SetKey path []"
| "Mkdir E (MongoIO False) path = cfail Undefined"

fun Rmdir :: "('r, 'f, 'd, 'g) bench_env \<Rightarrow> BenchClient \<Rightarrow> string \<Rightarrow> ('r bworld, unit) cprog" where
  "Rmdir E (OrangefsIO addr) path = on_fs (be_remove_all E (addr @ path))"
| "Rmdir E (RedisIO True) path = RemoveKey (be_redis E) path"
| "Rmdir E (RedisIO False) path = cfail Undefined"
| "Rmdir E (MongoIO True) path = mongo_RemoveKey path"
| "Rmdir E (MongoIO False) path = cfail Undefined"

definition Remove_bench :: "('r, 'f, 'd, 'g) bench_env \<Rightarrow> BenchClient \<Rightarrow> string \<Rightarrow> ('r bworld, unit) cprog" where
  "Remove_bench E io path = Rmdir E io path"

fun Ls :: "('r, 'f, 'd, 'g) bench_env \<Rightarrow> BenchClient \<Rightarrow> string \<Rightarrow> ('r bworld, string list) cprog" where
  "Ls E (OrangefsIO addr) path = (\<lambda>w. (be_directory E path (bw_fs w), w))"
| "Ls E (RedisIO _) path = cfail (Thrown_Int 1)"
| "Ls E (MongoIO _) path = cfail (Thrown_Int 1)"

section \<open>BenchmarkArgs\<close>

text \<open>The options the constructor declares, in its order.\<close>

definition bench_options :: "('f ArgMap \<Rightarrow> 'f ArgMap res) list" where
  "bench_options =
     [\<lambda>m. AddOpt m ''-w'' kStringMap No_dval,
      \<lambda>m. AddStringMapVal m ''-w'' ''prealloc'' 0,
      \<lambda>m. AddStringMapVal m ''-w'' ''io-only'' 1,
      \<lambda>m. AddStringMapVal m ''-w'' ''md-fs'' 2,
      \<lambda>m. AddOpt m ''-s'' kStringMap No_dval,
      \<lambda>m. AddStringMapVal m ''-s'' ''orangefs'' 0,
      \<lambda>m. AddStringMapVal m ''-s'' ''mongodb'' 1,
      \<lambda>m. AddStringMapVal m ''-s'' ''redis'' 2,
      \<lambda>m. AddOpt m ''-caddr'' kString No_dval,
      \<lambda>m. AddOpt m ''-cport'' kInt (Int_dval 0),
      \<lambda>m. AddOpt m ''-p'' kSize No_dval,
      \<lambda>m. AddOpt m ''-path'' kString No_dval,
      \<lambda>m. AddOpt m ''-config'' kString No_dval,
      \<lambda>m. AddOpt m ''-rfrac'' kFloat No_dval,
      \<lambda>m. AddOpt m ''-wfrac'' kFloat No_dval,
      \<lambda>m. AddOpt m ''-bs'' kSize No_dval,
      \<lambda>m. AddOpt m ''-fs'' kSize No_dval,
      \<lambda>m. AddOpt m ''-tot'' kSize No_dval,
      \<lambda>m. AddOpt m ''-ap'' kStringMap No_dval,
      \<lambda>m. AddStringMapVal m ''-ap'' ''seq'' 0,
      \<lambda>m. AddStringMapVal m ''-ap'' ''uniform'' 4,
      \<lambda>m. AddOpt m ''-md_depth'' kInt No_dval,
      \<lambda>m. AddOpt m ''-md_fcnt'' kSize No_dval,
      \<lambda>m. AddOpt m ''-direct'' kNone No_dval,
      \<lambda>m. AddOpt m ''-out'' kString No_dval,
      \<lambda>m. AddOpt m ''-seed'' kInt No_dval]"

definition assert_all :: "'f ArgMap \<Rightarrow> string list \<Rightarrow> unit res" where
  "assert_all m opts = foldl and_then (Inr ()) (map (\<lambda>opt _. and_then (AssertOptIsSet m opt) (\<lambda>_. Inr ())) opts)"

definition assert_config :: "'f ArgMap \<Rightarrow> unit res" where
  "assert_config m = (if OptIsSet m ''-out'' then assert_all m [''-config''] else Inr ())"

definition VerifyArgs :: "'f ArgMap \<Rightarrow> unit res" where
  "VerifyArgs m =
     and_then (assert_all m [''-s'']) (\<lambda>_.
     and_then (GetIntOpt m ''-s'') (\<lambda>storage_service.
     and_then (if storage_service = 0 then assert_all m [''-caddr'']
               else if storage_service = 1 \<or> storage_service = 2 then assert_all m [''-caddr'', ''-cport'']
               else Inr ()) (\<lambda>_.
     and_then (assert_all m [''-w'']) (\<lambda>_.
     and_then (GetIntOpt m ''-w'') (\<lambda>workload.
     if workload = 0 then assert_all m [''-path'', ''-fs'']
     else if workload = 1
     then and_then (assert_all m [''-path'', ''-rfrac'', ''-wfrac'', ''-bs'', ''-fs'', ''-tot'']) (\<lambda>_. assert_config m)
     else if workload = 2
     then and_then (assert_all m [''-md_depth'', ''-md_fcnt'', ''-path'']) (\<lambda>_. assert_config m)
     else Inr ())))))"

definition BenchmarkArgs :: "(string \<Rightarrow> 'f res) \<Rightarrow> string list \<Rightarrow> 'f ArgMap res" where
  "BenchmarkArgs stof argv =
     and_then (foldl and_then (Inr Map.empty) bench_options) (\<lambda>m.
     case ArgIter stof m argv of
       (Inl e, _) \<Rightarrow> Inl e
     | (Inr _, m') \<Rightarrow> and_then (VerifyArgs m') (\<lambda>_. Inr m'))"

section \<open>Workloads\<close>

text \<open>
  \<^verbatim>\<open>create_dist\<close>, with the access pattern it returns through its reference argument; a value of \<^verbatim>\<open>-ap\<close> that is no \<^verbatim>\<open>DistributionType\<close> runs off the factory.
\<close>

definition create_dist ::
  "('r, 'f, 'd, 'g) bench_env \<Rightarrow> 'f ArgMap \<Rightarrow> size_t \<Rightarrow> size_t \<Rightarrow> (int \<times> ('d, 'g) Distribution) res" where
  "create_dist E m file_size block_size =
     and_then (if OptIsSet m ''-ap'' then GetIntOpt m ''-ap'' else Inr 0) (\<lambda>ap.
     case DistributionType_of ap of
       None \<Rightarrow> Inl Undefined
     | Some access_pattern \<Rightarrow>
         let N = be_rng E; distr = DistributionFactory_Get N access_pattern in
         and_then
           (if access_pattern = dNone then Shape_size N block_size distr
            else if access_pattern = dUniform
            then and_then (Shape_size N (file_size - block_size) distr) (\<lambda>distr'.
                 if OptIsSet m ''-seed''
                 then and_then (GetIntOpt m ''-seed'') (\<lambda>seed. Inr (Seed N (word_of_int seed) distr'))
                 else Inr distr')
            else Inr distr) (\<lambda>distr''. Inr (ap, distr'')))"

definition prealloc_block :: size_t where "prealloc_block = 2 ^ 24"

partial_function (option) prealloc_loop ::
  "('r, 'f, 'd, 'g) bench_env \<Rightarrow> bytes \<Rightarrow> size_t \<Rightarrow> size_t \<Rightarrow> BenchFile \<Rightarrow> 'r bworld \<Rightarrow>
   (unit res \<times> 'r bworld) option" where
  "prealloc_loop E buffer file_size_per_proc i fp w =
     (if i < file_size_per_proc
      then let write_size = (if i + prealloc_block \<le> file_size_per_proc then prealloc_block
                             else file_size_per_proc - i)
        in (case File_Write E fp buffer write_size w of
              None \<Rightarrow> None
            | Some r \<Rightarrow>
                (case r of
                   (Inl e, w') \<Rightarrow> Some (Inl e, w')
                 | (Inr fp', w') \<Rightarrow> prealloc_loop E buffer file_size_per_proc (i + prealloc_block) fp' w'))
      else Some (Inr (), w))"

text \<open>A size divided by \<^verbatim>\<open>nprocs\<close>, which is converted to \<^verbatim>\<open>size_t\<close>.\<close>

definition per_proc :: "size_t \<Rightarrow> int \<Rightarrow> size_t res" where
  "per_proc n nprocs =
     (if (word_of_int nprocs :: size_t) = 0 then Inl Undefined else Inr (n div word_of_int nprocs))"

definition rank_path :: "string \<Rightarrow> int \<Rightarrow> string" where
  "rank_path path rank = path @ int_to_string rank"

definition prealloc ::
  "('r, 'f, 'd, 'g) bench_env \<Rightarrow> BenchClient \<Rightarrow> int \<Rightarrow> int \<Rightarrow> 'f ArgMap \<Rightarrow> ('r bworld, unit) oprog" where
  "prealloc E io rank nprocs m =
     obind (ototal (clift (GetStringOpt m ''-path''))) (\<lambda>path.
     obind (ototal (clift (GetSizeOpt m ''-fs''))) (\<lambda>file_size.
     obind (ototal (Open E io (rank_path path rank) (kWrite OR kCreate))) (\<lambda>fp.
     obind (ototal (clift (per_proc file_size nprocs))) (\<lambda>file_size_per_proc.
     prealloc_loop E (zeros (unat prealloc_block)) file_size_per_proc 0 fp))))"

text \<open>The two loops of \<^verbatim>\<open>io_file_workload\<close>.\<close>

partial_function (option) io_write_loop ::
  "('r, 'f, 'd, 'g) bench_env \<Rightarrow> bytes \<Rightarrow> size_t \<Rightarrow> size_t \<Rightarrow> size_t \<Rightarrow> ('d, 'g) Distribution \<Rightarrow>
   BenchFile \<Rightarrow> 'r bworld \<Rightarrow> (BenchFile res \<times> 'r bworld) option" where
  "io_write_loop E buffer block_size write_per_proc i distr fp w =
     (if i < write_per_proc
      then let d = GetSize (be_rng E) distr in
        (case File_Write E (File_Seek fp (fst d)) buffer block_size w of
           None \<Rightarrow> None
         | Some r \<Rightarrow>
             (case r of
                (Inl e, w') \<Rightarrow> Some (Inl e, w')
              | (Inr fp', w') \<Rightarrow>
                  io_write_loop E buffer block_size write_per_proc (i + block_size) (snd d) fp' w'))
      else Some (Inr fp, w))"

partial_function (option) io_read_loop ::
  "('r, 'f, 'd, 'g) bench_env \<Rightarrow> bytes \<Rightarrow> size_t \<Rightarrow> size_t \<Rightarrow> size_t \<Rightarrow> ('d, 'g) Distribution \<Rightarrow>
   BenchFile \<Rightarrow> 'r bworld \<Rightarrow> (unit res \<times> 'r bworld) option" where
  "io_read_loop E buffer block_size read_per_proc i distr fp w =
     (if i < read_per_proc
      then let d = GetSize (be_rng E) distr in
        (case File_Read E (File_Seek fp (fst d)) buffer block_size w of
           None \<Rightarrow> None
         | Some r \<Rightarrow>
             (case r of
                (Inl e, w') \<Rightarrow> Some (Inl e, w')
              | (Inr bf, w') \<Rightarrow>
                  io_read_loop E (fst bf) block_size read_per_proc (i + block_size) (snd d) (snd bf) w'))
      else Some (Inr (), w))"

definition io_file_workload ::
  "('r, 'f, 'd, 'g) bench_env \<Rightarrow> BenchClient \<Rightarrow> int \<Rightarrow> int \<Rightarrow> 'f ArgMap \<Rightarrow> ('r bworld, unit) oprog" where
  "io_file_workload E io rank nprocs m =
     obind (ototal (clift (GetStringOpt m ''-path''))) (\<lambda>path.
     obind (ototal (clift (GetFloatOpt m ''-rfrac''))) (\<lambda>rfrac.
     obind (ototal (clift (GetFloatOpt m ''-wfrac''))) (\<lambda>wfrac.
     obind (ototal (clift (GetSizeOpt m ''-bs''))) (\<lambda>block_size.
     obind (ototal (clift (and_then (GetSizeOpt m ''-fs'') (\<lambda>n. per_proc n nprocs)))) (\<lambda>file_size_per_proc.
     obind (ototal (clift (GetSizeOpt m ''-tot''))) (\<lambda>tot_bytes.
     let direct = (if OptIsSet m ''-direct'' then kDirect else 0); buffer = zeros (unat block_size) in
     obind (ototal (Open E io (rank_path path rank) (kRead OR kWrite OR direct))) (\<lambda>fp.
     obind (ototal (clift (create_dist E m file_size_per_proc block_size))) (\<lambda>(_, distr).
     let write_per_proc = be_fraction E wfrac tot_bytes nprocs in
     obind (io_write_loop E buffer block_size write_per_proc 0 distr fp) (\<lambda>fp'.
     obind (ototal (clift (create_dist E m file_size_per_proc block_size))) (\<lambda>(access_pattern, distr').
     let read_per_proc = be_fraction E rfrac tot_bytes nprocs in
     obind (io_read_loop E buffer block_size read_per_proc 0 distr' fp') (\<lambda>_.
     ototal (on_fs (io_stats (be_double E) (be_times E) m rank nprocs read_per_proc write_per_proc
       block_size access_pattern)))))))))))))"

text \<open>
  \<^verbatim>\<open>md_fs_workload\<close>: a chain of nested directories, then the same file opened again and again.
  The counter of the second loop is an \<^verbatim>\<open>int\<close>, whose increment past its range is undefined.
\<close>

fun mkdirs ::
  "('r, 'f, 'd, 'g) bench_env \<Rightarrow> BenchClient \<Rightarrow> string \<Rightarrow> nat \<Rightarrow> string \<Rightarrow> ('r bworld, string) cprog" where
  "mkdirs E io dirstr 0 newdir = creturn newdir"
| "mkdirs E io dirstr (Suc n) newdir =
     cbind (Mkdir E io (newdir @ dirstr)) (\<lambda>_. mkdirs E io dirstr n (newdir @ dirstr))"

definition open_files ::
  "('r, 'f, 'd, 'g) bench_env \<Rightarrow> BenchClient \<Rightarrow> string \<Rightarrow> nat \<Rightarrow> ('r bworld, unit) cprog" where
  "open_files E io newfile fcnt =
     cfor 0 (min fcnt (2 ^ 31)) (\<lambda>i. cbind (Open E io newfile (kWrite OR kCreate)) (\<lambda>_.
        if i = 2 ^ 31 - 1 then cfail Undefined else creturn ()))"

definition md_fs_workload ::
  "('r, 'f, 'd, 'g) bench_env \<Rightarrow> BenchClient \<Rightarrow> int \<Rightarrow> int \<Rightarrow> 'f ArgMap \<Rightarrow> ('r bworld, unit) cprog" where
  "md_fs_workload E io rank nprocs m =
     cbind (clift (and_then (GetSizeOpt m ''-md_fcnt'') (\<lambda>n. per_proc n nprocs))) (\<lambda>fcnt.
     cbind (clift (GetIntOpt m ''-md_depth'')) (\<lambda>depth.
     cbind (clift (GetStringOpt m ''-path'')) (\<lambda>path.
     let dirstr = ''/md-ex'' @ int_to_string rank in
     cbind (mkdirs E io dirstr (nat depth) path) (\<lambda>newdir.
     cbind (open_files E io (newdir @ ''/file'' @ int_to_string rank) (unat fcnt)) (\<lambda>_.
     cbind (if depth > 0 then Rmdir E io (path @ dirstr) else creturn ()) (\<lambda>_.
     on_fs (md_stats (be_double E) (be_times E) m rank nprocs fcnt (word_of_int depth))))))))"

definition BenchClientType_of :: "int \<Rightarrow> BenchClientType option" where
  "BenchClientType_of i =
     (if i = 0 then Some kOrangefs else if i = 1 then Some kMongo else if i = 2 then Some kRedis else None)"

definition bench_main ::
  "('r, 'f, 'd, 'g) bench_env \<Rightarrow> int \<Rightarrow> int \<Rightarrow> string list \<Rightarrow> ('r bworld, unit) oprog" where
  "bench_main E rank nprocs argv =
     obind (ototal (clift (BenchmarkArgs (be_stof E) argv))) (\<lambda>m.
     obind (ototal (clift (GetIntOpt m ''-s''))) (\<lambda>storage_service.
     case BenchClientType_of storage_service of
       None \<Rightarrow> ototal (cfail Undefined)
     | Some type \<Rightarrow>
         obind (ototal (clift (GetStringOpt m ''-caddr''))) (\<lambda>addr.
         obind (ototal (clift (GetIntOpt m ''-cport''))) (\<lambda>port.
         obind (ototal (clift (Connect E (IOClientFactory_Get type) addr port))) (\<lambda>io.
         obind (ototal (clift (GetIntOpt m ''-w''))) (\<lambda>workload.
         if workload = 0 then prealloc E io rank nprocs m
         else if workload = 1 then io_file_workload E io rank nprocs m
         else if workload = 2 then ototal (md_fs_workload E io rank nprocs m)
         else ototal (creturn ())))))))"

text \<open>A concrete environment: a map for the cluster, and file-system operations that do nothing.\<close>

definition ref_bench :: "(string \<rightharpoonup> bytes, unit, unit, unit) bench_env" where
  "ref_bench =
     \<lparr>be_redis = map_redis, be_connect = (\<lambda>_ _. Inr ()), be_create_directory = (\<lambda>_ fs. (Inr (), fs)),
      be_remove_all = (\<lambda>_ fs. (Inr (), fs)), be_directory = (\<lambda>_ _. Inr []), be_direct_ok = (\<lambda>_ _. True),
      be_stof = (\<lambda>_. Inr ()), be_fraction = (\<lambda>_ n _. n),
      be_rng = \<lparr>rng_default = (), rng_engine = (\<lambda>_. ()), rng_clock = 0, rng_draw = (\<lambda>_ _ _. ((), ())),
        d_zero = (), d_one = (), d_of_size = (\<lambda>_. ()), d_round = (\<lambda>_. ()), d_to_int = (\<lambda>_. 0),
        d_to_size = (\<lambda>_. 0)\<rparr>,
      be_double = \<lparr>db_sum = (\<lambda>_. ()), db_min = (\<lambda>_. ()), db_max = (\<lambda>_. ()), db_sub = (\<lambda>_ _. ()),
        db_div = (\<lambda>_ _. ()), db_sq = (\<lambda>_. ()), db_sqrt = (\<lambda>_. ()), db_of_int = (\<lambda>_. ()),
        db_of_size = (\<lambda>_. ()), db_show = (\<lambda>_. ''0'')\<rparr>,
      be_times = [()]\<rparr>"

definition ref_bench_world :: "(string \<rightharpoonup> bytes) bworld" where
  "ref_bench_world =
     \<lparr>bw_fs = \<lparr>fs_files = Map.empty, fs_denied = (\<lambda>_. False), fs_room = 100, fs_max_io = 100\<rparr>,
      bw_redis = Map.empty\<rparr>"

section \<open>Lemmas\<close>

definition put_file :: "string \<Rightarrow> bytes \<Rightarrow> 'r bworld \<Rightarrow> 'r bworld" where
  "put_file p c w = w\<lparr>bw_fs := (bw_fs w)\<lparr>fs_files := (fs_files (bw_fs w))(p \<mapsto> c)\<rparr>\<rparr>"

definition file_at :: "string \<Rightarrow> 'r bworld \<Rightarrow> bytes" where
  "file_at p w = old_bytes (fs_files (bw_fs w) p)"

lemma put_file_simps [simp]:
  "file_at p (put_file p c w) = c" "put_file p c (put_file p d w) = put_file p c w"
  "fs_room (bw_fs (put_file p c w)) = fs_room (bw_fs w)" "fs_files (bw_fs (put_file p c w)) p = Some c"
  by (simp_all add: put_file_def file_at_def)

lemma overlay_overlay: "overlay (off + length a) b (overlay off a old) = overlay off (a @ b) old"
proof -
  let ?p = "take off old @ zeros (off - length old) @ a"
  have p: "length ?p = off + length a" by (simp add: min_def)
  have "overlay off a old = ?p @ drop (off + length a) old" by (simp add: overlay_def)
  then have "overlay (off + length a) b (overlay off a old) = ?p @ b @ drop (length b) (drop (off + length a) old)"
    using p by (simp add: overlay_def)
  then show ?thesis by (simp add: overlay_def add.commute add.left_commute)
qed

lemma zeros_add: "zeros (m + n) = zeros m @ zeros n"
  by (simp add: zeros_def replicate_add)

lemma small_int32: "k < 2 ^ 31 \<Longrightarrow> \<not> sint (ucast (of_nat k :: int64) :: int32) < 0"
proof -
  assume k: "k < 2 ^ 31"
  then have "(ucast (of_nat k :: int64) :: int32) = word_of_int (int k)"
    by (simp add: unsigned_of_nat take_bit_nat_eq_self)
  moreover have "sint (word_of_int (int k) :: int32) = int k"
    using k by (intro sint_word_of_int_32) simp_all
  ultimately show ?thesis by simp
qed

lemma OrangefsFile_Write_zeros:
  assumes "of_writable f" "\<not> of_direct f" "0 < unat k" "unat k \<le> n" "unat k < 2 ^ 31"
    and "of_off f + unat k \<le> fs_room (bw_fs w)"
  shows "OrangefsFile_Write E f (zeros n) k w =
    (Inr (f\<lparr>of_off := of_off f + unat k\<rparr>),
     put_file (of_path f) (overlay (of_off f) (zeros (unat k)) (file_at (of_path f) w)) w)"
proof -
  have "mem_read 0 (unat k) (zeros n) = Some (zeros (unat k))"
    using assms(4) by (simp add: mem_read_def zeros_def min_def)
  moreover have "posix_write (bw_fs w) (file_at (of_path f) w) (of_off f) (zeros (unat k)) =
      (k, overlay (of_off f) (zeros (unat k)) (file_at (of_path f) w))"
    using assms(3,6) posix_write_room [of "of_off f" "zeros (unat k)" "bw_fs w" "file_at (of_path f) w"]
    by (auto simp: zeros_def)
  moreover have "\<not> sint (ucast k :: int32) < 0" using small_int32 [OF assms(5)] by simp
  ultimately show ?thesis
    using assms(1,2) by (simp add: OrangefsFile_Write_def put_file_def file_at_def Let_def)
qed

lemma size_less_add:
  fixes i b n :: size_t
  assumes "unat i + unat b < 2 ^ 64"
  shows "unat (i + b) = unat i + unat b"
  using assms by (simp add: unat_word_ariths)

lemma prealloc_loop_zeros:
  assumes "of_writable f" "\<not> of_direct f" "of_off f = unat i" "unat n < 2 ^ 63"
    and "unat n \<le> fs_room (bw_fs w)" "unat i < unat n"
  shows "prealloc_loop E (zeros (2 ^ 24)) n i (Orangefs f) w =
    Some (Inr (), put_file (of_path f) (overlay (unat i) (zeros (unat n - unat i)) (file_at (of_path f) w)) w)"
  using assms
proof (induction "unat n - unat i" arbitrary: i f w rule: less_induct)
  case less
  let ?b = "prealloc_block" and ?p = "of_path f"
  define k where "k = (if i + ?b \<le> n then ?b else n - i)"
  have b: "unat ?b = 2 ^ 24" by (simp add: prealloc_block_def)
  have ib: "unat (i + ?b) = unat i + 2 ^ 24"
    using less.prems(4,6) b size_less_add [of i ?b] by simp
  have k: "unat k = min (2 ^ 24) (unat n - unat i)"
    using ib b less.prems(6) by (auto simp: k_def word_le_nat_alt unat_sub_if' min_def)
  let ?w = "put_file ?p (overlay (unat i) (zeros (unat k)) (file_at ?p w)) w"
  have room: "unat i + unat k \<le> fs_room (bw_fs w)" using k less.prems(5,6) by simp
  have "OrangefsFile_Write E f (zeros (2 ^ 24)) k w = (Inr (f\<lparr>of_off := unat i + unat k\<rparr>), ?w)"
    using less.prems k room by (subst OrangefsFile_Write_zeros) simp_all
  then have wr: "File_Write E (Orangefs f) (zeros (2 ^ 24)) k w =
      Some (Inr (Orangefs (f\<lparr>of_off := unat i + unat k\<rparr>)), ?w)"
    by (simp add: obind_def ototal_def creturn_def)
  have step: "prealloc_loop E (zeros (2 ^ 24)) n i (Orangefs f) w =
      prealloc_loop E (zeros (2 ^ 24)) n (i + ?b) (Orangefs (f\<lparr>of_off := unat i + unat k\<rparr>)) ?w"
    using less.prems(6) wr unfolding k_def by (subst prealloc_loop.simps) (simp add: word_less_nat_alt Let_def)
  show ?case
  proof (cases "unat n \<le> unat (i + ?b)")
    case True
    then have "unat k = unat n - unat i" using k ib by simp
    then show ?thesis
      using step True by (simp add: prealloc_loop.simps [of _ _ _ "i + ?b"] word_less_nat_alt)
  next
    case False
    then have k': "unat k = 2 ^ 24" using k ib by simp
    have split: "zeros (unat n - unat i) = zeros (unat k) @ zeros (unat n - unat (i + ?b))"
      using False ib k' less.prems(6) by (simp flip: zeros_add)
    have "overlay (unat (i + ?b)) (zeros (unat n - unat (i + ?b))) (file_at ?p ?w) =
          overlay (unat i) (zeros (unat n - unat i)) (file_at ?p w)"
      using overlay_overlay [of "unat i" "zeros (unat k)" "zeros (unat n - unat (i + ?b))" "file_at ?p w"] ib k' split
      by simp
    then show ?thesis
      using less.hyps [of "i + ?b" "f\<lparr>of_off := unat i + unat k\<rparr>" ?w] less.prems False ib k' step by simp
  qed
qed

lemma OrangefsFile_new_creates:
  assumes "\<not> fs_denied (bw_fs w) p"
  shows "OrangefsFile_new p (kWrite OR kCreate) w =
    (Inr \<lparr>of_path = p, of_off = 0, of_readable = False, of_writable = True, of_direct = False\<rparr>,
     put_file p (file_at p w) w)"
proof -
  have mode: "in_mode (kWrite OR kCreate) kWrite" "in_mode (kWrite OR kCreate) kCreate"
    "\<not> in_mode (kWrite OR kCreate) kRead" "\<not> in_mode (kWrite OR kCreate) kDirect"
    by (simp_all add: in_mode_def kWrite_def kCreate_def kRead_def kDirect_def)
  have "put_file p c w = w" if "fs_files (bw_fs w) p = Some c" for c
    using that by (simp add: put_file_def fun_upd_idem)
  then show ?thesis using assms mode
    by (auto simp: OrangefsFile_new_def Let_def put_file_def file_at_def split: option.splits)
qed

lemma prealloc_zeros:
  fixes n :: size_t and addr path :: string and rank nprocs :: int
  defines "p \<equiv> addr @ rank_path path rank" and "k \<equiv> unat n div nat nprocs"
  assumes "GetStringOpt m ''-path'' = Inr path" "GetSizeOpt m ''-fs'' = Inr n"
    and "0 < nprocs" "nprocs < 2 ^ 31" "\<not> fs_denied (bw_fs w) p" "k \<le> fs_room (bw_fs w)" "k < 2 ^ 63"
  shows "prealloc E (OrangefsIO addr) rank nprocs m w = Some (Inr (), put_file p (zeros k @ drop k (file_at p w)) w)"
proof -
  let ?f = "\<lparr>of_path = p, of_off = 0, of_readable = False, of_writable = True, of_direct = False\<rparr>"
  let ?w = "put_file p (file_at p w) w"
  have np: "unat (word_of_int nprocs :: size_t) = nat nprocs"
    using assms(5,6) by (simp add: unat_eq_nat_uint uint_word_of_int_eq take_bit_int_eq_self)
  have k: "unat (n div word_of_int nprocs) = k" using np by (simp add: k_def unat_div_distrib)
  have nz: "(word_of_int nprocs :: size_t) \<noteq> 0" using np assms(5) by (metis nat_0_iff not_le unat_0)
  have "Open E (OrangefsIO addr) (rank_path path rank) (kWrite OR kCreate) w = (Inr (Orangefs ?f), ?w)"
    using OrangefsFile_new_creates [OF assms(7)] by (simp add: cbind_def creturn_def p_def)
  then have "prealloc E (OrangefsIO addr) rank nprocs m w =
      prealloc_loop E (zeros (2 ^ 24)) (n div word_of_int nprocs) 0 (Orangefs ?f) ?w"
    using assms(3,4) nz
    by (simp add: prealloc_def obind_def ototal_def clift_def per_proc_def prealloc_block_def)
  also have "\<dots> = Some (Inr (), put_file p (zeros k @ drop k (file_at p w)) w)"
  proof (cases "k = 0")
    case True
    then show ?thesis using k by (simp add: prealloc_loop.simps word_less_nat_alt)
  next
    case False
    then show ?thesis
      using k assms(8,9) by (subst prealloc_loop_zeros) (simp_all add: overlay_0)
  qed
  finally show ?thesis .
qed

text \<open>Reading options after a successful parse.\<close>

lemma collected_one:
  assumes "collected stof m kvs m'" "wf_args m'" "m k = Some a" "occs k kvs = [v]" "given a = []" "conv stof a v = Inr x"
  obtains a' where "m' k = Some a'" "GetType a' = GetType a" "vals a' = [x]" "AssertOptIsSet m' k = Inr a'"
proof -
  obtain a' where a': "m' k = Some a'" "GetType a' = GetType a" "map Inr (vals a') = [Inr x :: 'a val res]"
    using assms unfolding collected_def by (auto dest!: spec [of _ k])
  then have "vals a' = [x]" by (auto simp: map_eq_Cons_conv)
  moreover have "GetType a \<noteq> kNone" using assms(6) by (cases a) auto
  moreover have "wf_arg a'" using assms(2) a'(1) by (auto simp: wf_args_def)
  ultimately have "IsSet a'" using a'(2) by (simp add: wf_arg_def IsSet_def)
  then show ?thesis
    using that a' \<open>vals a' = [x]\<close> by (simp add: AssertOptIsSet_def AssertOptExists_def OptIsSet_def and_then_def)
qed

lemma get_one:
  assumes "AssertOptIsSet m k = Inr a" "vals a = [x]"
  shows "GetType a = kString \<Longrightarrow> x = SV s \<Longrightarrow> GetStringOpt m k = Inr s"
    "GetType a \<in> {kInt, kStringMap} \<Longrightarrow> x = IV i \<Longrightarrow> GetIntOpt m k = Inr i"
    "GetType a = kSize \<Longrightarrow> x = ZV z \<Longrightarrow> GetSizeOpt m k = Inr z"
proof -
  have "is_set (base_of a)" using assms(1)
    by (auto simp: AssertOptIsSet_def AssertOptExists_def OptIsSet_def and_then_def IsSet_def split: option.splits if_splits)
  then show "GetType a = kString \<Longrightarrow> x = SV s \<Longrightarrow> GetStringOpt m k = Inr s"
    "GetType a \<in> {kInt, kStringMap} \<Longrightarrow> x = IV i \<Longrightarrow> GetIntOpt m k = Inr i"
    "GetType a = kSize \<Longrightarrow> x = ZV z \<Longrightarrow> GetSizeOpt m k = Inr z"
    using assms by (cases a; auto simp: GetStringOpt_def GetIntOpt_def GetSizeOpt_def and_then_def get_back_def)+
qed

lemma foldl_and_then_inv:
  assumes "\<forall>f \<in> set fs. \<forall>a b. f a = Inr b \<longrightarrow> P a \<longrightarrow> P b" "\<forall>a. r = Inr a \<longrightarrow> P a" "foldl and_then r fs = Inr m"
  shows "P m"
  using assms
proof (induction fs arbitrary: r)
  case (Cons f fs)
  have "\<forall>a. and_then r f = Inr a \<longrightarrow> P a"
    using Cons.prems(1,2) by (auto simp: and_then_def split: sum.splits)
  then show ?case using Cons.IH [of "and_then r f"] Cons.prems(1,3) by simp
qed simp

lemma bench_options_wf:
  assumes "foldl and_then (Inr Map.empty) bench_options = Inr m"
  shows "wf_args m"
proof -
  have "\<forall>f \<in> set bench_options. \<forall>a b. f a = Inr b \<longrightarrow> wf_args a \<longrightarrow> wf_args b"
    unfolding bench_options_def by (auto intro: AddOpt_wf AddStringMapVal_wf)
  then show ?thesis by (rule foldl_and_then_inv [OF _ _ assms]) (simp add: wf_args_empty)
qed

lemmas declare_opt = AddOpt_def AddStringMapVal_def AssertOptExists_def and_then_def

lemma bench_options_at:
  "\<exists>m. foldl and_then (Inr Map.empty) bench_options = Inr m \<and>
    m ''-w'' = Some (StringMapArg (new_base ''-w'') [''prealloc'' \<mapsto> 0, ''io-only'' \<mapsto> 1, ''md-fs'' \<mapsto> 2] []) \<and>
    m ''-s'' = Some (StringMapArg (new_base ''-s'') [''orangefs'' \<mapsto> 0, ''mongodb'' \<mapsto> 1, ''redis'' \<mapsto> 2] []) \<and>
    m ''-caddr'' = Some (StringArg (new_base ''-caddr'') []) \<and>
    m ''-cport'' = Some (IntArg (default_base ''-cport'') [0]) \<and>
    m ''-path'' = Some (StringArg (new_base ''-path'') []) \<and>
    m ''-fs'' = Some (SizeArg (new_base ''-fs'') [])"
  unfolding bench_options_def by (simp add: declare_opt)

lemma VerifyArgs_prealloc:
  assumes "GetIntOpt m ''-s'' = Inr 0" "GetIntOpt m ''-w'' = Inr 0"
    and "\<forall>k \<in> {''-s'', ''-caddr'', ''-w'', ''-path'', ''-fs''}. \<exists>a. AssertOptIsSet m k = Inr a"
  shows "VerifyArgs m = Inr ()"
  using assms by (auto simp: VerifyArgs_def assert_all_def and_then_def)

text \<open>The options a prealloc command line leaves.\<close>

lemma prealloc_args:
  fixes stof :: "string \<Rightarrow> 'f res"
  assumes "n < 2 ^ 64"
  shows "\<exists>m. BenchmarkArgs stof [prog, ''-w'', ''prealloc'', ''-s'', ''orangefs'', ''-caddr'', addr,
           ''-path'', path, ''-fs'', nat_to_string n] = Inr m \<and>
    GetIntOpt m ''-w'' = Inr 0 \<and> GetIntOpt m ''-s'' = Inr 0 \<and> GetStringOpt m ''-caddr'' = Inr addr \<and>
    GetIntOpt m ''-cport'' = Inr 0 \<and> GetStringOpt m ''-path'' = Inr path \<and> GetSizeOpt m ''-fs'' = Inr (of_nat n)"
proof -
  let ?kvs = "[(''-w'', ''prealloc''), (''-s'', ''orangefs''), (''-caddr'', addr), (''-path'', path), (''-fs'', nat_to_string n)]"
  obtain m :: "'f ArgMap" where m: "foldl and_then (Inr Map.empty) bench_options = Inr m"
    and w: "m ''-w'' = Some (StringMapArg (new_base ''-w'') [''prealloc'' \<mapsto> 0, ''io-only'' \<mapsto> 1, ''md-fs'' \<mapsto> 2] [])"
    and s: "m ''-s'' = Some (StringMapArg (new_base ''-s'') [''orangefs'' \<mapsto> 0, ''mongodb'' \<mapsto> 1, ''redis'' \<mapsto> 2] [])"
    and caddr: "m ''-caddr'' = Some (StringArg (new_base ''-caddr'') [])"
    and cport: "m ''-cport'' = Some (IntArg (default_base ''-cport'') [0])"
    and path: "m ''-path'' = Some (StringArg (new_base ''-path'') [])"
    and fs: "m ''-fs'' = Some (SizeArg (new_base ''-fs'') [])"
    using bench_options_at by blast
  note wf = bench_options_wf [OF m]
  have size: "ToSize (nat_to_string n) = Inr (of_nat n)"
    using ToSize_nat_to_string assms by simp
  have conv: "\<forall>(k, v) \<in> set ?kvs. prefix ''-'' k \<and> (\<exists>a x. m k = Some a \<and> conv stof a v = Inr x)"
    using w s caddr path fs size by (simp add: map_res_def and_then_def AssertArgExists_def)
  obtain m' where iter: "ArgIter stof m (prog # words_of ?kvs) = (Inr (), m')" and col: "collected stof m ?kvs m'"
    using ArgIter_from_collects [OF _ wf conv, of 1 "prog # words_of ?kvs"] unfolding ArgIter_def by auto
  have wf': "wf_args m'" using ArgIter_from_wf [of stof _ 1 m m'] iter wf unfolding ArgIter_def by blast
  note one = collected_one [OF col wf']
  obtain aw where aw: "GetType aw = kStringMap" "vals aw = [IV 0]" "AssertOptIsSet m' ''-w'' = Inr aw"
    using one [OF w, of "''prealloc''" "IV 0"] by (auto simp: occs_def given_def new_base_def map_res_def and_then_def AssertArgExists_def)
  obtain as where as: "GetType as = kStringMap" "vals as = [IV 0]" "AssertOptIsSet m' ''-s'' = Inr as"
    using one [OF s, of "''orangefs''" "IV 0"] by (auto simp: occs_def given_def new_base_def map_res_def and_then_def AssertArgExists_def)
  obtain ac where ac: "GetType ac = kString" "vals ac = [SV addr]" "AssertOptIsSet m' ''-caddr'' = Inr ac"
    using one [OF caddr, of "addr" "SV addr"] by (auto simp: occs_def given_def new_base_def)
  obtain ap where ap: "GetType ap = kString" "vals ap = [SV path]" "AssertOptIsSet m' ''-path'' = Inr ap"
    using one [OF path, of "path" "SV path"] by (auto simp: occs_def given_def new_base_def)
  obtain af where af: "GetType af = kSize" "vals af = [ZV (of_nat n)]" "AssertOptIsSet m' ''-fs'' = Inr af"
    using one [OF fs, of "nat_to_string n" "ZV (of_nat n)"] size by (auto simp: occs_def given_def new_base_def map_res_def and_then_def)
  have cport': "GetIntOpt m' ''-cport'' = Inr 0"
    using col cport unfolding collected_def
    by (auto simp: occs_def GetIntOpt_def AssertOptIsSet_def AssertOptExists_def OptIsSet_def IsSet_def and_then_def
        default_base_def get_back_def dest!: spec [of _ "''-cport''"])
  have get: "GetIntOpt m' ''-w'' = Inr 0" "GetIntOpt m' ''-s'' = Inr 0" "GetStringOpt m' ''-caddr'' = Inr addr"
    "GetStringOpt m' ''-path'' = Inr path" "GetSizeOpt m' ''-fs'' = Inr (of_nat n)"
    using get_one(2) [OF aw(3,2)] get_one(2) [OF as(3,2)] get_one(1) [OF ac(3,2)] get_one(1) [OF ap(3,2)]
      get_one(3) [OF af(3,2)] aw(1) as(1) ac(1) ap(1) af(1) by simp_all
  have "VerifyArgs m' = Inr ()"
    using get aw(3) as(3) ac(3) ap(3) af(3) by (intro VerifyArgs_prealloc) auto
  then have "BenchmarkArgs stof (prog # words_of ?kvs) = Inr m'"
    using m iter by (simp add: BenchmarkArgs_def and_then_def)
  then show ?thesis using get cport' by (auto simp: words_of_def)
qed

lemma getters_throw_1:
  assumes "wf_args m"
  shows "GetStringOpt m k = Inl e \<Longrightarrow> e = Thrown_Int 1" "GetIntOpt m k = Inl e \<Longrightarrow> e = Thrown_Int 1"
proof -
  have a: "GetStringOpt_arg a = Inl e \<Longrightarrow> e = Thrown_Int 1" "GetIntOpt_arg a = Inl e \<Longrightarrow> e = Thrown_Int 1" if "wf_arg a" for a
    using getters_defined(1,2) [OF that] by (cases a; auto simp: get_back_def split: if_splits)+
  then show "GetStringOpt m k = Inl e \<Longrightarrow> e = Thrown_Int 1" "GetIntOpt m k = Inl e \<Longrightarrow> e = Thrown_Int 1"
    using assms
    by (auto simp: GetStringOpt_def GetIntOpt_def AssertOptIsSet_def AssertOptExists_def and_then_def wf_args_def
        split: option.splits if_splits)
qed

lemma BenchmarkArgs_wf:
  assumes "BenchmarkArgs stof argv = Inr m"
  shows "wf_args m"
proof -
  obtain m0 where "foldl and_then (Inr Map.empty) bench_options = Inr m0" "ArgIter stof m0 argv = (Inr (), m)"
    using assms by (auto simp: BenchmarkArgs_def and_then_def split: sum.splits prod.splits)
  then show ?thesis using bench_options_wf ArgIter_from_wf unfolding ArgIter_def by blast
qed

section \<open>Properties\<close>

text \<open>
  C31. The prealloc workload from the command line to the file: with the options \<^verbatim>\<open>-w prealloc\<close>,
  \<^verbatim>\<open>-s orangefs\<close>, \<^verbatim>\<open>-caddr\<close>, \<^verbatim>\<open>-path\<close> and \<^verbatim>\<open>-fs\<close> and room for the data, every process returns
  and has overwritten the first \<open>n div nprocs\<close> bytes of its own file, named after its rank,
  with zeros; nothing else of the world changes.
\<close>

theorem prealloc_end_to_end:
  fixes n :: nat and addr path :: string and rank nprocs :: int
  defines "p \<equiv> addr @ rank_path path rank" and "k \<equiv> n div nat nprocs"
  assumes "n < 2 ^ 64" "0 < nprocs" "nprocs < 2 ^ 31" "\<not> fs_denied (bw_fs w) p"
    and "k \<le> fs_room (bw_fs w)" "k < 2 ^ 63"
  shows "bench_main E rank nprocs [prog, ''-w'', ''prealloc'', ''-s'', ''orangefs'', ''-caddr'', addr,
           ''-path'', path, ''-fs'', nat_to_string n] w =
         Some (Inr (), put_file p (zeros k @ drop k (file_at p w)) w)"
proof -
  let ?argv = "[prog, ''-w'', ''prealloc'', ''-s'', ''orangefs'', ''-caddr'', addr, ''-path'', path, ''-fs'', nat_to_string n]"
  obtain m where args: "BenchmarkArgs (be_stof E) ?argv = Inr m" "GetIntOpt m ''-w'' = Inr 0" "GetIntOpt m ''-s'' = Inr 0"
      "GetStringOpt m ''-caddr'' = Inr addr" "GetIntOpt m ''-cport'' = Inr 0"
    and get: "GetStringOpt m ''-path'' = Inr path" "GetSizeOpt m ''-fs'' = Inr (of_nat n)"
    using prealloc_args [OF assms(3)] by blast
  have "bench_main E rank nprocs ?argv w = prealloc E (OrangefsIO addr) rank nprocs m w"
    using args by (simp add: bench_main_def obind_def ototal_def clift_def BenchClientType_of_def IOClientFactory_Get_def)
  also have "\<dots> = Some (Inr (), put_file p (zeros k @ drop k (file_at p w)) w)"
    using prealloc_zeros [OF get assms(4,5)] assms(3,6-8) by (simp add: p_def k_def size_fits)
  finally show ?thesis .
qed

theorem prealloc_end_to_end_witness:
  "\<exists>w'. bench_main ref_bench 1 4
      [''benchmark'', ''-w'', ''prealloc'', ''-s'', ''orangefs'', ''-caddr'', ''/mnt'', ''-path'', ''/f'', ''-fs'', ''35'']
      ref_bench_world =
    Some (Inr (), w') \<and> fs_files (bw_fs w') ''/mnt/f1'' = Some (zeros 8)"
proof -
  have p: "''/mnt'' @ rank_path ''/f'' 1 = ''/mnt/f1''" by (simp add: rank_path_def decimal_eval)
  have n: "nat_to_string 35 = ''35''" by (simp add: decimal_eval)
  show ?thesis
    using prealloc_end_to_end [of 35 4 ref_bench_world "''/mnt''" "''/f''" 1 ref_bench "''benchmark''"]
    unfolding p n by (auto simp: ref_bench_world_def file_at_def old_bytes_def)
qed

text \<open>
  Writing to a benchmark file on Redis is never defined: any write of at least one byte copies
  into the empty string that is to hold the block, before anything is stored.
\<close>

theorem redis_file_write_undefined:
  assumes "0 < sz"
  shows "RedisFile_Write E f buffer sz w = Some (Inl Undefined, w)"
proof -
  have "piece_size 0 sz \<noteq> 0" using assms by (auto simp: piece_size_def kBlockSize_def)
  then have "0 < unat (piece_size 0 sz)" by (simp add: unat_gt_0)
  then have "memcpy_at r dat [] = None" if "mem_read 0 (unat (piece_size 0 sz)) buffer = Some dat" for r dat
    using that by (auto simp: mem_read_def memcpy_at_def slice_def split: if_splits)
  then show ?thesis
    using assms by (auto simp: RedisFile_Write_def obind_def block_write_loop.simps [of _ _ _ _ 0] split: option.splits)
qed

theorem redis_file_write_undefined_witness:
  "RedisFile_Write ref_bench \<lparr>rf_path = ''/f'', rf_off = 0\<rparr> ''ab'' 2 ref_bench_world =
     Some (Inl Undefined, ref_bench_world)"
  by (rule redis_file_write_undefined) simp

text \<open>
  C32. With a block size of 0 the write loop of the I/O workload never ends normally: as long as
  there is something to write, the loop either throws or does not return.
\<close>

theorem zero_block_never_finishes:
  assumes "i < write_per_proc"
  shows "io_write_loop E buffer 0 write_per_proc i distr fp w \<noteq> Some (Inr fp', w')"
proof
  assume "io_write_loop E buffer 0 write_per_proc i distr fp w = Some (Inr fp', w')"
  then have "(0 :: size_t) = 0 \<longrightarrow> i < write_per_proc \<longrightarrow> (\<exists>e. fst (Inr fp' :: BenchFile res, w') = Inl e)"
  proof (rule io_write_loop.raw_induct [rotated, where P = "\<lambda>E b k n i d f w y. k = 0 \<longrightarrow> i < n \<longrightarrow> (\<exists>e. fst y = Inl e)"])
    fix loop and E :: "('a, 'b, 'c, 'd) bench_env" and buffer k n i distr fp w y
    assume IH: "\<And>E b k n i d f w y. loop E b k n i d f w = Some y \<Longrightarrow> k = 0 \<longrightarrow> i < n \<longrightarrow> (\<exists>e. fst y = Inl e)"
      and body: "(if i < n then let d = GetSize (be_rng E) distr in
          (case File_Write E (File_Seek fp (fst d)) buffer k w of
             None \<Rightarrow> None
           | Some r \<Rightarrow> (case r of (Inl e, w') \<Rightarrow> Some (Inl e, w')
               | (Inr fp', w') \<Rightarrow> loop E buffer k n (i + k) (snd d) fp' w'))
        else Some (Inr fp, w)) = Some y"
    show "k = 0 \<longrightarrow> i < n \<longrightarrow> (\<exists>e. fst y = Inl e)"
    proof (intro impI)
      assume k: "k = 0" and i: "i < n"
      let ?d = "GetSize (be_rng E) distr"
      obtain res w' where fw: "File_Write E (File_Seek fp (fst ?d)) buffer k w = Some (res, w')"
        using body i by (auto simp: Let_def split: option.splits)
      show "\<exists>e. fst y = Inl e"
      proof (cases res)
        case (Inl e)
        then show ?thesis using body i fw by (auto simp: Let_def)
      next
        case (Inr fp')
        then have "loop E buffer k n (i + k) (snd ?d) fp' w' = Some y" using body i fw by (simp add: Let_def)
        from IH [OF this] show ?thesis using k i by simp
      qed
    qed
  qed
  then show False using assms by simp
qed

theorem zero_block_never_finishes_witness:
  "io_write_loop ref_bench [] 0 1 0 (CountDistribution () 0 0)
     (Redis \<lparr>rf_path = ''/f'', rf_off = 0\<rparr>) ref_bench_world \<noteq>
   Some (Inr (Redis \<lparr>rf_path = ''/f'', rf_off = 0\<rparr>), ref_bench_world)"
  by (rule zero_block_never_finishes) simp

lemma ToSize_35: "ToSize ''35'' = Inr 35"
  using ToSize_nat_to_string [of 35] by (simp add: decimal_eval)

text \<open>
  A benchmark of MongoDB always ends with \<^verbatim>\<open>throw 1\<close>, before any workload and without touching
  the world: the context cannot be constructed.
\<close>

theorem mongo_benchmark_throws:
  assumes "BenchmarkArgs (be_stof E) argv = Inr m" "GetIntOpt m ''-s'' = Inr 1"
  shows "bench_main E rank nprocs argv w = Some (Inl (Thrown_Int 1), w)"
proof -
  note throws = getters_throw_1 [OF BenchmarkArgs_wf [OF assms(1)]]
  have connect: "Connect E (IOClientFactory_Get kMongo) addr port = Inl (Thrown_Int 1)" for addr port
    by (simp add: IOClientFactory_Get_def MongoContext_def and_then_def)
  show ?thesis
    using assms connect throws(1) [of "''-caddr''"] throws(2) [of "''-cport''"]
    by (cases "GetStringOpt m ''-caddr''"; cases "GetIntOpt m ''-cport''")
       (auto simp: bench_main_def obind_def ototal_def clift_def BenchClientType_of_def)
qed

theorem mongo_benchmark_throws_witness:
  "bench_main ref_bench 0 1 [''benchmark'', ''-s'', ''mongodb'', ''-caddr'', ''h'', ''-w'', ''prealloc'', ''-path'', ''/f'',
     ''-fs'', ''35''] ref_bench_world = Some (Inl (Thrown_Int 1), ref_bench_world)"
proof -
  let ?argv = "[''benchmark'', ''-s'', ''mongodb'', ''-caddr'', ''h'', ''-w'', ''prealloc'', ''-path'', ''/f'', ''-fs'', ''35'']"
  obtain m where "BenchmarkArgs (be_stof ref_bench) ?argv = Inr m" "GetIntOpt m ''-s'' = Inr 1"
    by (simp add: BenchmarkArgs_def bench_options_def declare_opt ArgIter_def ArgIter_from.simps Add_value_def AssertArgExists_def new_base_def default_base_def ToSize_35 VerifyArgs_def assert_all_def AssertOptIsSet_def OptIsSet_def IsSet_def GetIntOpt_def get_back_def Let_def)
  then show ?thesis by (rule mongo_benchmark_throws)
qed

end
