(* ===== verification/Daemon.thy ===== *)
theory Daemon
  imports Error_Codes
begin

text \<open>
  The process around the server: the class \<^verbatim>\<open>Daemon\<close> of \<^verbatim>\<open>src/symbios/server/daemon.h\<close> as the
  \<^verbatim>\<open>main\<close> of \<^verbatim>\<open>server/main.cpp\<close> uses it, and the loop \<^verbatim>\<open>Server::RunInternal\<close> that waits for the
  exit signal. The threads and the signals are the steps of \<open>dstep\<close>; where the thread that called
  \<^verbatim>\<open>Run\<close> or \<^verbatim>\<open>Stop\<close> stands is the field \<open>location\<close>.

  Constructing the server (\<open>start\<close>) may throw. The barrier, the message on standard output and
  the backtrace are not modelled, nor what the static destructors do after \<^verbatim>\<open>exit\<close>.
\<close>

section \<open>State\<close>

datatype worker_state = No_worker | Polling | Done | Joined

datatype location =
    Constructed | Serving | Waiting | Returned | Stopping | Stopped | Left fault | Exited int

text \<open>\<^verbatim>\<open>is_running_\<close> has no initialiser: \<open>None\<close>. A log file is a list of the messages appended.\<close>

record daemon =
  main_log_file :: string
  spawn_thread :: bool
  wait_flag :: bool
  is_running :: "bool option"
  future_taken :: bool
  exit_set :: bool
  worker :: worker_state
  handlers :: bool
  logs :: "string \<Rightarrow> string list"
  location :: location

text \<open>The constructor does not keep its log file: the static member stays the empty string.\<close>

definition mk_Daemon :: "string \<Rightarrow> bool \<Rightarrow> bool \<Rightarrow> daemon" where
  "mk_Daemon log_file spawn wait =
     \<lparr>main_log_file = '''', spawn_thread = spawn, wait_flag = wait, is_running = None,
      future_taken = False, exit_set = False, worker = No_worker, handlers = False,
      logs = (\<lambda>_. []), location = Constructed\<rparr>"

section \<open>Operations\<close>

text \<open>\<^verbatim>\<open>Server::RunInternal\<close>: the first poll that finds the future ready; \<open>None\<close> when none does.\<close>

partial_function (option) RunInternal :: "(nat \<Rightarrow> bool) \<Rightarrow> nat \<Rightarrow> nat option" where
  "RunInternal ready k = (if ready k then Some k else RunInternal ready (Suc k))"

definition catchSignals :: "daemon \<Rightarrow> daemon" where
  "catchSignals d = d\<lparr>handlers := True\<rparr>"

definition Daemon_Run :: "unit res \<Rightarrow> daemon \<Rightarrow> daemon" where
  "Daemon_Run start d =
     (if future_taken d then d\<lparr>location := Left (Std_Exn ''future_already_retrieved'')\<rparr>
      else let d1 = d\<lparr>future_taken := True\<rparr> in
        case start of
          Inl e \<Rightarrow> d1\<lparr>location := Left e\<rparr>
        | Inr _ \<Rightarrow>
            let d2 = (catchSignals d1)\<lparr>is_running := Some True\<rparr> in
            if spawn_thread d2
            then d2\<lparr>worker := Polling, location := (if wait_flag d2 then Waiting else Returned)\<rparr>
            else d2\<lparr>location := Serving\<rparr>)"

text \<open>\<^verbatim>\<open>Stop\<close>, up to the \<^verbatim>\<open>join\<close>, and the \<^verbatim>\<open>join\<close> once the worker has left its loop.\<close>

definition Daemon_Stop :: "daemon \<Rightarrow> daemon" where
  "Daemon_Stop d =
     (case is_running d of
        None \<Rightarrow> d\<lparr>location := Left Undefined\<rparr>
      | Some False \<Rightarrow> d
      | Some True \<Rightarrow>
          if spawn_thread d
          then (if exit_set d then d\<lparr>location := Left (Std_Exn ''promise_already_satisfied'')\<rparr>
                else d\<lparr>exit_set := True, location := Stopping\<rparr>)
          else d\<lparr>is_running := Some False\<rparr>)"

definition Daemon_join :: "daemon \<Rightarrow> daemon" where
  "Daemon_join d = d\<lparr>worker := Joined, is_running := Some False, location := Stopped\<rparr>"

text \<open>An \<^verbatim>\<open>ofstream\<close> with an empty name does not open, and what is written to it is lost.\<close>

definition logMessage :: "string \<Rightarrow> string \<Rightarrow> daemon \<Rightarrow> daemon" where
  "logMessage filename message d =
     (if filename = '''' then d else d\<lparr>logs := (logs d)(filename := logs d filename @ [message])\<rparr>)"

datatype sig = SIGHUP | SIGTERM | SIGABRT | SIGSEGV | SIGBUS | SIGCHLD | SIGTSTP | SIGTTOU | SIGTTIN

definition terminate_handler :: "daemon \<Rightarrow> daemon" where
  "terminate_handler d =
     (logMessage (main_log_file d) ''terminate signal caught'' d)\<lparr>location := Exited 0\<rparr>"

fun signalHandler :: "sig \<Rightarrow> daemon \<Rightarrow> daemon" where
  "signalHandler SIGHUP d = logMessage (main_log_file d) ''hangup signal caught'' d"
| "signalHandler SIGTERM d = terminate_handler d"
| "signalHandler SIGABRT d = terminate_handler d"
| "signalHandler SIGSEGV d = terminate_handler d"
| "signalHandler SIGBUS d = terminate_handler d"
| "signalHandler _ d = d"

section \<open>Steps\<close>

definition gone :: "daemon \<Rightarrow> bool" where
  "gone d = (case location d of Left _ \<Rightarrow> True | Exited _ \<Rightarrow> True | _ \<Rightarrow> False)"

inductive dstep :: "daemon \<Rightarrow> daemon \<Rightarrow> bool" where
  run: "location d = Constructed \<Longrightarrow> dstep d (Daemon_Run start d)"
| stop: "location d \<in> {Constructed, Returned, Stopped} \<Longrightarrow> dstep d (Daemon_Stop d)"
| join: "location d = Stopping \<Longrightarrow> worker d = Done \<Longrightarrow> dstep d (Daemon_join d)"
| worker_leaves: "worker d = Polling \<Longrightarrow> exit_set d \<Longrightarrow> \<not> gone d \<Longrightarrow> dstep d (d\<lparr>worker := Done\<rparr>)"
| server_leaves: "location d = Serving \<Longrightarrow> exit_set d \<Longrightarrow> dstep d (d\<lparr>location := Returned\<rparr>)"
| caught: "handlers d \<Longrightarrow> \<not> gone d \<Longrightarrow> dstep d (signalHandler s d)"

inductive reached :: "daemon \<Rightarrow> daemon \<Rightarrow> bool" for d0 where
  init: "reached d0 d0"
| more: "reached d0 d \<Longrightarrow> dstep d d' \<Longrightarrow> reached d0 d'"

inductive_cases dstepE: "dstep d d'"

section \<open>The invariant\<close>

definition daemon_inv :: "daemon \<Rightarrow> bool" where
  "daemon_inv d \<longleftrightarrow>
     main_log_file d = '''' \<and> logs d = (\<lambda>_. []) \<and>
     (exit_set d \<longrightarrow> spawn_thread d) \<and>
     (location d = Constructed \<longrightarrow> \<not> future_taken d) \<and>
     (case location d of
        Constructed \<Rightarrow> is_running d = None \<and> worker d = No_worker \<and> \<not> exit_set d \<and> \<not> handlers d
      | Serving \<Rightarrow> is_running d = Some True \<and> \<not> spawn_thread d
      | Waiting \<Rightarrow> is_running d = Some True \<and> spawn_thread d \<and> \<not> exit_set d \<and> worker d = Polling
      | Returned \<Rightarrow> is_running d = Some True \<and> spawn_thread d \<and> \<not> exit_set d \<and> worker d = Polling
      | Stopping \<Rightarrow> is_running d = Some True \<and> spawn_thread d \<and> exit_set d \<and> worker d \<in> {Polling, Done}
      | Stopped \<Rightarrow> is_running d = Some False \<and> spawn_thread d \<and> exit_set d \<and> worker d = Joined
      | Left _ \<Rightarrow> \<not> handlers d
      | Exited i \<Rightarrow> i = 0 \<and> handlers d)"

lemma mk_Daemon_inv: "daemon_inv (mk_Daemon log_file spawn wait)"
  by (simp add: daemon_inv_def mk_Daemon_def)

lemma logMessage_inv: "main_log_file d = '''' \<Longrightarrow> logMessage (main_log_file d) msg d = d"
  by (simp add: logMessage_def)

lemma signalHandler_cases:
  assumes "main_log_file d = ''''"
  shows "signalHandler s d \<in> {d, d\<lparr>location := Exited 0\<rparr>}"
  using assms by (cases s) (simp_all add: terminate_handler_def logMessage_def)

lemma dstep_inv:
  assumes "dstep d d'" "daemon_inv d"
  shows "daemon_inv d'"
  using assms(1)
proof cases
  case (run start)
  then show ?thesis using assms(2)
    by (cases start) (auto simp: daemon_inv_def Daemon_Run_def catchSignals_def Let_def)
next
  case stop
  then show ?thesis using assms(2) by (auto simp: daemon_inv_def Daemon_Stop_def)
next
  case (caught s)
  have "signalHandler s d = d \<or> signalHandler s d = d\<lparr>location := Exited 0\<rparr>"
    using signalHandler_cases [of d s] assms(2) by (simp add: daemon_inv_def)
  moreover have "daemon_inv (d\<lparr>location := Exited 0\<rparr>)" using assms(2) caught(2) by (simp add: daemon_inv_def)
  ultimately show ?thesis using assms(2) caught(1) by metis
next
  case join
  then show ?thesis using assms(2) by (simp add: daemon_inv_def Daemon_join_def)
next
  case worker_leaves
  then show ?thesis using assms(2) by (cases "location d") (auto simp: daemon_inv_def gone_def)
next
  case server_leaves
  then show ?thesis using assms(2) by (auto simp: daemon_inv_def)
qed

lemma reached_inv: "reached d0 d \<Longrightarrow> daemon_inv d0 \<Longrightarrow> daemon_inv d"
  by (induction rule: reached.induct) (auto intro: dstep_inv)

lemma spawn_thread_kept:
  "spawn_thread (Daemon_Run start d) = spawn_thread d" "spawn_thread (Daemon_Stop d) = spawn_thread d"
  "spawn_thread (Daemon_join d) = spawn_thread d" "spawn_thread (signalHandler s d) = spawn_thread d"
  subgoal by (simp add: Daemon_Run_def catchSignals_def Let_def split: sum.splits)
  subgoal by (simp add: Daemon_Stop_def split: option.splits bool.splits)
  subgoal by (simp add: Daemon_join_def)
  subgoal by (cases s) (simp_all add: terminate_handler_def logMessage_def)
  done

lemma dstep_spawn: "dstep d d' \<Longrightarrow> spawn_thread d' = spawn_thread d"
  by (erule dstepE) (simp_all add: spawn_thread_kept)

lemma reached_spawn: "reached d0 d \<Longrightarrow> spawn_thread d = spawn_thread d0"
  by (induction rule: reached.induct) (auto dest: dstep_spawn)

lemmas reached_facts = reached_inv [OF _ mk_Daemon_inv] reached_spawn

section \<open>Properties\<close>

text \<open>
  C23. As the server's \<^verbatim>\<open>main\<close> runs it, without a thread of its own, the daemon never returns from
  \<^verbatim>\<open>Run\<close>: nothing ever fulfils the promise the serving loop waits for. It ends only by a signal
  (exit status 0) or because the server could not be constructed.
\<close>

theorem daemon_runs_until_signal:
  assumes "reached (mk_Daemon log_file False wait) d"
  shows "\<not> exit_set d \<and> (location d \<in> {Constructed, Serving, Exited 0} \<or> (\<exists>e. location d = Left e))"
  using reached_facts [OF assms] by (cases "location d") (auto simp: daemon_inv_def mk_Daemon_def)

theorem daemon_runs_until_signal_witness:
  "location (signalHandler SIGBUS (Daemon_Run (Inr ()) (mk_Daemon ''log'' False True))) = Exited 0 \<and>
   \<not> exit_set (signalHandler SIGBUS (Daemon_Run (Inr ()) (mk_Daemon ''log'' False True)))"
proof -
  let ?d = "mk_Daemon ''log'' False True"
  have "reached ?d (Daemon_Run (Inr ()) ?d)" by (rule more [OF init run]) (simp add: mk_Daemon_def)
  then have "reached ?d (signalHandler SIGBUS (Daemon_Run (Inr ()) ?d))"
    by (rule more) (rule caught, simp_all add: Daemon_Run_def catchSignals_def mk_Daemon_def gone_def)
  from daemon_runs_until_signal [OF this] show ?thesis by (simp add: terminate_handler_def)
qed



text \<open>
  The daemon never logs: the log file it was constructed with is not kept, so that the messages
  about caught signals are written to no file.
\<close>

theorem daemon_log_stays_empty:
  assumes "reached (mk_Daemon log_file spawn wait) d"
  shows "logs d name = []"
  using reached_facts(1) [OF assms] by (simp add: daemon_inv_def)

theorem daemon_log_stays_empty_witness:
  "logs (signalHandler SIGHUP (Daemon_Run (Inr ()) (mk_Daemon ''log'' False True))) ''log'' = []"
proof (rule daemon_log_stays_empty)
  let ?d = "mk_Daemon ''log'' False True"
  have "reached ?d (Daemon_Run (Inr ()) ?d)" by (rule more [OF init run]) (simp add: mk_Daemon_def)
  then show "reached ?d (signalHandler SIGHUP (Daemon_Run (Inr ()) ?d))"
    by (rule more) (rule caught, simp_all add: Daemon_Run_def catchSignals_def mk_Daemon_def gone_def)
qed

text \<open>\<^verbatim>\<open>Server::RunInternal\<close> returns at the first poll that finds the future ready.\<close>

lemma RunInternal_first:
  assumes "ready (k + n)" "\<forall>i < n. \<not> ready (k + i)"
  shows "RunInternal ready k = Some (k + n)"
  using assms
proof (induction n arbitrary: k)
  case 0
  then show ?case by (simp add: RunInternal.simps)
next
  case (Suc n)
  have "\<not> ready k" using Suc.prems(2) by (metis add_0_right zero_less_Suc)
  moreover have "\<forall>i < n. \<not> ready (Suc k + i)" using Suc.prems(2) by (metis add_Suc_shift not_less_eq)
  ultimately show ?case using Suc.IH [of "Suc k"] Suc.prems(1) by (simp add: RunInternal.simps [of ready k])
qed

end
