(* ===== verification/Startup.thy ===== *)
theory Startup
  imports Wire_Reference Daemon
begin

text \<open>
  Starting the server: the constructor \<^verbatim>\<open>Server::Server\<close>, \<^verbatim>\<open>server/main.cpp\<close>, and what they promise
  together with the configuration manager, the client factory and the distribution engines: a
  configuration written as JSON is loaded as it was meant, and on a server that started every
  placement has a client.

  The servers' RPC bindings are the names of \<open>rpc_bindings\<close>; rpclib registers them. \<open>parse\<close> is
  rapidjson on the named file, \<open>None\<close> when the file cannot be opened.
\<close>

section \<open>Server::Server\<close>

definition rpc_bindings :: "string list" where
  "rpc_bindings = [''StoreRequest'', ''LocateRequest'', ''DeleteRequest'', ''SizeRequest'']"

text \<open>Constructing the engine of the policy; only the heuristic engine does work.\<close>

definition preload_engine :: "conf \<Rightarrow> unit res" where
  "preload_engine c =
     (case DATA_DISTRIBUTION_POLICY c of
        HEURISTICS_POLICY \<Rightarrow> and_then (HeuristicsDDE (STORAGE_SOLUTIONS c) []) (\<lambda>_. Inr ())
      | _ \<Rightarrow> Inr ())"

definition Server_new ::
  "probes \<Rightarrow> (string \<Rightarrow> basket_conf \<Rightarrow> basket_conf) \<Rightarrow> conf res \<Rightarrow> basket_conf \<Rightarrow>
   (conf \<times> basket_conf \<times> (IOClientType \<times> uint16) list) res" where
  "Server_new P default_server loaded b =
     and_then (ConfigureSymbiosServer default_server loaded b) (\<lambda>(c, b').
     and_then (preload_engine c) (\<lambda>_.
     and_then (IOFactory P (STORAGE_SOLUTIONS c)) (\<lambda>made. Inr (c, b', made))))"

section \<open>main.cpp\<close>

definition server_main ::
  "probes \<Rightarrow> (string \<Rightarrow> basket_conf \<Rightarrow> basket_conf) \<Rightarrow> (string \<Rightarrow> string option) \<Rightarrow> (string \<Rightarrow> string option) \<Rightarrow>
   (string \<Rightarrow> json option) \<Rightarrow> string list \<Rightarrow> conf \<Rightarrow> basket_conf \<Rightarrow> daemon" where
  "server_main P default_server getenv create_directories parse argv c b =
     (let c1 = (if length argv > 1 then c\<lparr>CONFIGURATION_FILE := argv ! 1\<rparr> else c);
          b1 = b\<lparr>BACKED_FILE_DIR := SERVER_DIR c1\<rparr>;
          loaded = LoadConfiguration getenv create_directories (parse (CONFIGURATION_FILE c1)) c1;
          start = and_then (Server_new P default_server loaded b1) (\<lambda>_. Inr ())
      in Daemon_Run start (mk_Daemon ''./single_node_symbios_server.log'' False True))"

section \<open>Configurations as JSON\<close>

fun solution_json :: "StorageSolution \<Rightarrow> json" where
  "solution_json (FileSS mount) = JObject [(''TYPE'', JString ''FILE_IO''), (''MOUNT'', JString mount)]"
| "solution_json (RedisSS ip port) =
     JObject [(''TYPE'', JString ''REDIS_IO''), (''IP'', JString ip), (''PORT'', JString port)]"
| "solution_json (MongoSS ip database collection) =
     JObject [(''TYPE'', JString ''MONGO_IO''), (''IP'', JString ip), (''DATABASE'', JString database),
       (''COLLECTION'', JString collection)]"

fun policy_name :: "DataDistributionPolicy \<Rightarrow> string" where
  "policy_name RANDOM_POLICY = ''RANDOM_POLICY''"
| "policy_name ROUND_ROBIN_POLICY = ''ROUND_ROBIN_POLICY''"
| "policy_name HEURISTICS_POLICY = ''HEURISTICS_POLICY''"
| "policy_name DYNAMIC_PROGRAMMING_POLICY = ''DYNAMIC_PROGRAMMING_POLICY''"

definition conf_json :: "conf \<Rightarrow> StorageSolution list \<Rightarrow> json" where
  "conf_json c sols =
     JObject [(''SERVER_LISTS'', JString (SERVER_LISTS c)), (''CLIENT_LISTS'', JString (CLIENT_LISTS c)),
       (''SYMBIOS_PORT'', JInt (uint (SYMBIOS_PORT c))), (''SERVER_RPC_THREADS'', JInt (uint (SERVER_RPC_THREADS c))),
       (''SERVER_DIR'', JString (SERVER_DIR c)), (''RANDOM_SEED'', JInt (uint (RANDOM_SEED c))),
       (''STORAGE_SOLUTIONS'', JArray (map solution_json sols)),
       (''DATA_DISTRIBUTION_POLICY'', JString (policy_name (DATA_DISTRIBUTION_POLICY c)))]"

text \<open>Texts in which no environment variable is replaced.\<close>

definition plain :: "string \<Rightarrow> bool" where
  "plain s \<longleftrightarrow> CHR ''$'' \<notin> set s"

fun plain_solution :: "StorageSolution \<Rightarrow> bool" where
  "plain_solution (FileSS mount) = plain mount"
| "plain_solution (RedisSS ip port) = (plain ip \<and> plain port)"
| "plain_solution (MongoSS ip database collection) = (plain ip \<and> plain database \<and> plain collection)"

definition numbered :: "StorageSolution list \<Rightarrow> storage_solutions" where
  "numbered sols = zip (map of_nat [0..<length sols]) (map Some sols)"

section \<open>Lemmas on loading\<close>

lemma env_search_plain: "plain s \<Longrightarrow> env_search s = None"
  by (induction s) (auto simp: plain_def env_here_def)

lemma replaceEnvVariable_plain [simp]: "plain s \<Longrightarrow> replaceEnvVariable getenv s = Inr s"
  by (simp add: replaceEnvVariable_def env_search_plain)

lemma plain_number [simp]: "0 \<le> i \<Longrightarrow> plain (int_to_string i)"
  using nat_to_string_digits [of "nat i"] by (auto simp: plain_def int_to_string_def is_digit_def)

lemma config_uint16_number:
  assumes "map_of ms member = Some (JInt (uint (p :: uint16)))"
  shows "config_uint16 getenv (JObject ms) member v = Inr p"
proof -
  have "uint p < 65536" "0 \<le> uint p" using uint_lt2p [of p] by simp_all
  then have range: "uint p < 2147483648" "- 2147483648 \<le> uint p" by linarith+
  then have "atoi (int_to_string (uint p)) = uint p" by (intro atoi_int_to_string) simp_all
  then show ?thesis using range assms by (simp add: config_uint16_def)
qed

lemma config_string_plain:
  "map_of ms member = Some (JString s) \<Longrightarrow> plain s \<Longrightarrow> config_string getenv (JObject ms) member v = Inr s"
  by (simp add: config_string_def)

lemma config_solution_json: "plain_solution s \<Longrightarrow> config_solution getenv (solution_json s) = Inr (Some s)"
  by (cases s) (simp_all add: config_solution_def config_string_plain and_then_def)

lemma config_solutions_from_keys:
  assumes "i + length rs \<le> 2 ^ 16" "length variable = i" "map fst variable = map of_nat [0..<i]"
    and "list_all2 (\<lambda>r s. config_solution getenv r = Inr s) rs ss"
  shows "config_solutions_from getenv i rs variable = Inr (variable @ zip (map of_nat [i..<i + length rs]) ss)"
  using assms
proof (induction rs arbitrary: i variable ss)
  case Nil
  then show ?case by simp
next
  case (Cons r rs)
  then obtain s ss' where ss: "ss = s # ss'" "config_solution getenv r = Inr s"
      "list_all2 (\<lambda>r s. config_solution getenv r = Inr s) rs ss'"
    by (auto simp: list_all2_Cons1)
  have "(of_nat i :: uint16) \<notin> set (map fst variable)"
    using Cons.prems(1) unfolding Cons.prems(3) by (auto simp: uint16_of_nat_inject)
  then have "map_of variable (of_nat i) = None" by (simp add: map_of_eq_None_iff)
  moreover have "[i..<i + length (r # rs)] = i # [Suc i..<Suc i + length rs]" by (simp add: upt_rec)
  ultimately show ?case
    using Cons.IH [of "Suc i" "variable @ [(of_nat i, s)]" ss'] Cons.prems(1-3) ss by simp
qed

lemma config_solutions_array:
  assumes "map_of ms member = Some (JArray rs)" "length rs \<le> 2 ^ 16"
    and "list_all2 (\<lambda>r s. config_solution getenv r = Inr s) rs ss"
  shows "config_solutions getenv (JObject ms) member = Inr (zip (map of_nat [0..<length rs]) ss)"
  using assms config_solutions_from_keys [of 0 rs "[]" getenv ss] by (simp add: config_solutions_def)

lemma config_policy_name:
  "map_of ms member = Some (JString (policy_name p)) \<Longrightarrow> config_policy (JObject ms) member v = Inr p"
  by (cases p) (simp_all add: config_policy_def)

lemma LoadConfiguration_conf_json:
  assumes "plain (SERVER_LISTS c)" "plain (CLIENT_LISTS c)" "plain (SERVER_DIR c)"
    and "list_all plain_solution sols" "length sols < 2 ^ 15" "create_directories (SERVER_DIR c) = None"
  shows "LoadConfiguration getenv create_directories (Some (conf_json c sols)) old =
    Inr (old\<lparr>SERVER_LISTS := SERVER_LISTS c, CLIENT_LISTS := CLIENT_LISTS c, SYMBIOS_PORT := SYMBIOS_PORT c,
            SERVER_RPC_THREADS := SERVER_RPC_THREADS c, SERVER_DIR := SERVER_DIR c, RANDOM_SEED := RANDOM_SEED c,
            STORAGE_SOLUTIONS := numbered sols, DATA_DISTRIBUTION_POLICY := DATA_DISTRIBUTION_POLICY c\<rparr>)"
proof -
  have "list_all2 (\<lambda>r s. config_solution getenv r = Inr s) (map solution_json sols) (map Some sols)"
    using assms(4) by (simp add: list_all2_conv_all_nth list_all_length config_solution_json)
  then have "config_solutions getenv (JObject ms) ''STORAGE_SOLUTIONS'' = Inr (numbered sols)"
    if "map_of ms ''STORAGE_SOLUTIONS'' = Some (JArray (map solution_json sols))" for ms
    using config_solutions_array [OF that] assms(5) by (simp add: numbered_def)
  then show ?thesis
    using assms(1-3,6)
    by (simp add: LoadConfiguration_def conf_json_def config_string_plain config_uint16_number config_policy_name
        and_then_def)
qed

lemma numbered_wf: "length sols < 2 ^ 15 \<Longrightarrow> wf_solutions (numbered sols)"
  by (auto simp: wf_solutions_def numbered_def list_all_iff dest!: set_zip_rightD)

lemma numbered_Nil [simp]: "numbered sols = [] \<longleftrightarrow> sols = []"
  by (cases sols) (simp_all add: numbered_def upt_conv_Cons del: upt_Suc)

section \<open>Lemmas on the factory\<close>

lemma get_instance_keeps:
  assumes "get_instance P sols made t ix = Inr made'"
  shows "set made \<subseteq> set made'" "t \<in> fst ` set made'"
  using assms
  by (auto simp: get_instance_def and_then_def split: option.splits sum.splits dest!: map_of_SomeD intro: rev_image_eqI)

lemma IOFactory_loop_complete:
  "IOFactory_loop P sols entries made = Inr made' \<Longrightarrow>
   set made \<subseteq> set made' \<and> (\<forall>ix s. (ix, Some s) \<in> set entries \<longrightarrow> io_client_type s \<in> fst ` set made')"
proof (induction entries arbitrary: made)
  case Nil
  then show ?case by simp
next
  case (Cons e entries)
  obtain ix s where e: "e = (ix, Some s)" using Cons.prems by (cases e) (auto split: option.splits)
  obtain m where m: "get_instance P sols made (io_client_type s) ix = Inr m"
      "IOFactory_loop P sols entries m = Inr made'"
    using Cons.prems e by (auto simp: and_then_def split: sum.splits)
  note keeps = get_instance_keeps [OF m(1)]
  show ?case using Cons.IH [OF m(2)] keeps e by (auto dest: subsetD)
qed

lemma Server_new_made:
  assumes "Server_new P default_server (Inr old) b = Inr (c, b', made)" "map_of (STORAGE_SOLUTIONS c) ix = Some (Some s)"
  shows "io_client_type s \<in> fst ` set made"
proof -
  have "IOFactory_loop P (STORAGE_SOLUTIONS c) (STORAGE_SOLUTIONS c) [] = Inr made"
    using assms(1) by (auto simp: Server_new_def IOFactory_def and_then_def split: sum.splits)
  from IOFactory_loop_complete [OF this] show ?thesis using map_of_SomeD [OF assms(2)] by blast
qed

section \<open>Properties\<close>

text \<open>
  C13. Loading a configuration written as JSON gives that configuration: every field the file sets
  (server and client lists, port, threads, directory, seed, storage solutions numbered from 0 in
  the order of the array, policy) has the value written, and the other fields keep theirs. No text
  of the configuration contains a dollar sign, and the server directory can be created.
\<close>

theorem configuration_round_trip:
  assumes "plain (SERVER_LISTS c)" "plain (CLIENT_LISTS c)" "plain (SERVER_DIR c)"
    and "list_all plain_solution sols" "length sols < 2 ^ 15" "create_directories (SERVER_DIR c) = None"
    and "STORAGE_SOLUTIONS c = numbered sols"
  shows "LoadConfiguration getenv create_directories (Some (conf_json c sols)) old =
    Inr (c\<lparr>CONFIGURATION_FILE := CONFIGURATION_FILE old, SERVER_COUNT := SERVER_COUNT old,
           MAX_OBJ_SIZE := MAX_OBJ_SIZE old\<rparr>)"
  unfolding LoadConfiguration_conf_json [where create_directories = create_directories, OF assms(1-6)] using assms(7) by simp

theorem configuration_round_trip_witness:
  "LoadConfiguration (\<lambda>_. None) (\<lambda>_. None)
     (Some (conf_json (ConfigurationManager\<lparr>STORAGE_SOLUTIONS := numbered [FileSS ''/mnt'', RedisSS ''h'' ''7000'']\<rparr>)
        [FileSS ''/mnt'', RedisSS ''h'' ''7000''])) ConfigurationManager =
   Inr (ConfigurationManager\<lparr>STORAGE_SOLUTIONS := numbered [FileSS ''/mnt'', RedisSS ''h'' ''7000'']\<rparr>)"
  by (subst configuration_round_trip) (simp_all add: ConfigurationManager_def plain_def)

text \<open>
  C12. A server that was constructed from a configuration finds a client for everything it places:
  whatever the request, every engine but dynamic programming returns one distribution, and the
  storage it selects is of a class the factory has constructed.
\<close>

theorem started_server_has_client:
  assumes "Server_new P default_server (LoadConfiguration getenv create_directories (Some (conf_json c sols)) old) b =
             Inr (c', b', made)"
    and "plain (SERVER_LISTS c)" "plain (CLIENT_LISTS c)" "plain (SERVER_DIR c)"
    and "list_all plain_solution sols" "length sols < 2 ^ 15" "create_directories (SERVER_DIR c) = None"
    and "sols \<noteq> []" "DATA_DISTRIBUTION_POLICY c \<noteq> DYNAMIC_PROGRAMMING_POLICY" "w_conf w = c'"
  shows "\<exists>d w' t. Distribute E w src dst = (Inr [d], w') \<and>
           GetIOClient w' (d_storage_index (dd_destination_data d)) = Inr t \<and> t \<in> fst ` set made"
proof -
  note load = LoadConfiguration_conf_json [where create_directories = create_directories, OF assms(2-7)]
  have c': "STORAGE_SOLUTIONS c' = numbered sols" "DATA_DISTRIBUTION_POLICY c' = DATA_DISTRIBUTION_POLICY c"
    using assms(1) unfolding load
    by (auto simp: Server_new_def ConfigureSymbiosServer_def Let_def and_then_def split: sum.splits)
  have wf: "wf_solutions (sols_of w)" "sols_of w \<noteq> []"
    using numbered_wf [OF assms(6)] assms(8,10) c'(1) by (simp_all add: sols_of_def)
  obtain sel i j where dist: "Distribute E w src dst = (Inr [place src dst sel], w\<lparr>w_rand_calls := i, w_seq_calls := j\<rparr>)"
      and "sel \<in> fst ` set (sols_of w)"
    using Distribute_places [OF wf] assms(9,10) c'(2) by metis
  then obtain s where s: "map_of (sols_of w) sel = Some (Some s)"
    using wf_solutions_index(2) [OF wf(1)] by (metis map_of_eq_None_iff not_None_eq)
  have "io_client_type s \<in> fst ` set made"
    using Server_new_made [OF assms(1) [unfolded load]] s assms(10) by (simp add: sols_of_def)
  then show ?thesis
    using dist s by (intro exI [of _ "place src dst sel"]) (simp add: place_def GetIOClient_def sols_of_def)
qed

definition ref_probes_up :: probes where
  "ref_probes_up = \<lparr>p_exists = (\<lambda>_. True), p_redis = (\<lambda>_ _. True), p_mongo = (\<lambda>_ _ _. None), p_rank = 0\<rparr>"

definition ref_basket :: basket_conf where
  "ref_basket = \<lparr>RPC_PORT = 8000, RPC_THREADS = 4, MEMORY_ALLOCATED = 0, BACKED_FILE_DIR = '''', NUM_SERVERS = 1\<rparr>"

theorem started_server_has_client_witness:
  "\<exists>d w' t. Distribute (ref_env (\<lambda>n. n))
       ((ref_world RANDOM_POLICY)\<lparr>w_conf := (ref_conf RANDOM_POLICY)
          \<lparr>STORAGE_SOLUTIONS := numbered [FileSS ''/mnt''], SERVER_COUNT := 1\<rparr>\<rparr>) default_Data default_Data = (Inr [d], w') \<and>
     GetIOClient w' (d_storage_index (dd_destination_data d)) = Inr t \<and> t \<in> fst ` set [(FILE_IO, 0 :: uint16)]"
proof (rule started_server_has_client)
  let ?c = "ref_conf RANDOM_POLICY" and ?sols = "[FileSS ''/mnt'']"
  have plain: "plain (SERVER_LISTS ?c)" "plain (CLIENT_LISTS ?c)" "plain (SERVER_DIR ?c)" "list_all plain_solution ?sols"
    by (simp_all add: ref_conf_def ConfigurationManager_def plain_def)
  note load = LoadConfiguration_conf_json [OF plain, of "\<lambda>_. None" "\<lambda>_. None" ?c]
  show "Server_new ref_probes_up (\<lambda>_ b. b)
      (LoadConfiguration (\<lambda>_. None) (\<lambda>_. None) (Some (conf_json ?c ?sols)) ?c) ref_basket =
    Inr (?c\<lparr>STORAGE_SOLUTIONS := numbered ?sols, SERVER_COUNT := 1\<rparr>,
         ref_basket\<lparr>RPC_THREADS := SERVER_RPC_THREADS ?c, MEMORY_ALLOCATED := 1048576, BACKED_FILE_DIR := SERVER_DIR ?c,
           RPC_PORT := SYMBIOS_PORT ?c\<rparr>, [(FILE_IO, 0)])"
    unfolding load [simplified]
    by (simp add: Server_new_def ConfigureSymbiosServer_def and_then_def preload_engine_def IOFactory_def numbered_def
        get_instance_def IOClient_def construct_client_def FileIOClient_def ref_probes_up_def ref_basket_def ref_conf_def
        ConfigurationManager_def)
qed (simp_all add: ref_conf_def ConfigurationManager_def plain_def)

end
