(* ===== verification/Replayer.thy ===== *)
theory Replayer
  imports Iris Colocation
begin

text \<open>
  \<^verbatim>\<open>common/include/common/replayer.h\<close>: the trace replayer of the integration benchmarks, over the
  library handler of \<open>Iris\<close> or, with \<^verbatim>\<open>POSIX\<close>, over one \<^verbatim>\<open>FILE\<close>.

  The state holds the world, the number of calls of \<^verbatim>\<open>rand\<close> so far (\<open>rnd k\<close> is what the \<open>k\<close>-th
  call returns) and the stream \<^verbatim>\<open>file\<close>. A trace is read as it was when it was opened. A stream
  writes through at once. Timers and the MPI reduction of the times are not modelled. Lines are
  read and split as in \<open>Colocation\<close>.
\<close>

section \<open>State\<close>

datatype stream = Unset | Null_stream | Stream string nat | Closed

record ('r, 'm) rstate =
  rs_w :: "('r, 'm) world"
  rs_calls :: nat
  rs_file :: stream

text \<open>What the replayer is given besides its arguments.\<close>

record ('r, 'm) renv =
  re_env :: "('r, 'm) env"
  re_probes :: probes
  re_rand :: "nat \<Rightarrow> int"
  re_servers :: int
  re_load :: "conf \<Rightarrow> conf res"

section \<open>Random buffers\<close>

definition random_text :: "(nat \<Rightarrow> int) \<Rightarrow> nat \<Rightarrow> nat \<Rightarrow> bytes" where
  "random_text rnd calls n = map (\<lambda>i. charset ! nat (rnd (calls + i) mod int (length charset))) [0..<n]"

text \<open>
  \<^verbatim>\<open>randstring\<close>: the text and its terminator, \<open>None\<close> for NULL. For a negative length \<^verbatim>\<open>malloc\<close>
  is asked for more than it can give, except that for -1 it is asked for nothing and the
  terminator is stored before the block; the \<^verbatim>\<open>int\<close> counter does not reach lengths of \<open>2\<^sup>3\<^sup>1\<close>.
\<close>

definition rp_randstring ::
  "('r, 'm) renv \<Rightarrow> int \<Rightarrow> (('r, 'm) rstate, bytes option) cprog" where
  "rp_randstring R len s =
     (if len = 0 \<or> len < -1 then (Inr None, s)
      else if len = -1 \<or> len \<ge> 2 ^ 31 then (Inl Undefined, s)
      else (Inr (Some (random_text (re_rand R) (rs_calls s) (nat len) @ [CHR 0x00])),
            s\<lparr>rs_calls := rs_calls s + nat len\<rparr>))"

section \<open>The stream\<close>

definition set_file :: "string \<Rightarrow> bytes \<Rightarrow> ('r, 'm) rstate \<Rightarrow> ('r, 'm) rstate" where
  "set_file p c s =
     s\<lparr>rs_w := (rs_w s)\<lparr>w_fs := (w_fs (rs_w s))\<lparr>fs_files := (fs_files (w_fs (rs_w s)))(p \<mapsto> c)\<rparr>\<rparr>\<rparr>"

definition file_of :: "string \<Rightarrow> ('r, 'm) rstate \<Rightarrow> bytes" where
  "file_of p s = old_bytes (fs_files (w_fs (rs_w s)) p)"

text \<open>\<^verbatim>\<open>fopen(path, "w+")\<close> truncates.\<close>

definition rp_fopen :: "string \<Rightarrow> ('r, 'm) rstate \<Rightarrow> ('r, 'm) rstate" where
  "rp_fopen p s =
     (if fs_denied (w_fs (rs_w s)) p then s\<lparr>rs_file := Null_stream\<rparr>
      else (set_file p [] s)\<lparr>rs_file := Stream p 0\<rparr>)"

definition rp_fclose :: "(('r, 'm) rstate, unit) cprog" where
  "rp_fclose s =
     (case rs_file s of Stream p pos \<Rightarrow> (Inr (), s\<lparr>rs_file := Closed\<rparr>) | _ \<Rightarrow> (Inl Undefined, s))"

text \<open>\<^verbatim>\<open>fseek(file, offset, SEEK_SET)\<close> refuses a negative offset; nobody looks at its result.\<close>

definition rp_fseek :: "int64 \<Rightarrow> (('r, 'm) rstate, unit) cprog" where
  "rp_fseek off s =
     (case rs_file s of
        Stream p pos \<Rightarrow>
          (Inr (), if lseek_set_fails off then s else s\<lparr>rs_file := Stream p (unat off)\<rparr>)
      | _ \<Rightarrow> (Inl Undefined, s))"

definition rp_fwrite :: "bytes option \<Rightarrow> size_t \<Rightarrow> (('r, 'm) rstate, unit) cprog" where
  "rp_fwrite buf sz s =
     (case rs_file s of
        Stream p pos \<Rightarrow>
          (case mem_read 0 (unat sz) (old_bytes buf) of
             None \<Rightarrow> (Inl Undefined, s)
           | Some dat \<Rightarrow>
               let (n, content) = posix_write (w_fs (rs_w s)) (file_of p s) pos dat
               in (Inr (), (set_file p content s)
                             \<lparr>rs_file := Stream p (if n = -1 then pos else pos + unat n)\<rparr>))
      | _ \<Rightarrow> (Inl Undefined, s))"

text \<open>\<^verbatim>\<open>fread\<close> into a block of one byte more than the request; \<^verbatim>\<open>malloc\<close> fails for a negative size.\<close>

definition rp_fread :: "size_t \<Rightarrow> (('r, 'm) rstate, unit) cprog" where
  "rp_fread sz s =
     (case rs_file s of
        Stream p pos \<Rightarrow>
          if sint sz < 0 then (Inl Undefined, s)
          else (Inr (), s\<lparr>rs_file := Stream p (pos + min (unat sz) (length (file_of p s) - pos))\<rparr>)
      | _ \<Rightarrow> (Inl Undefined, s))"

section \<open>Replaying\<close>

text \<open>One call of \<^verbatim>\<open>lh.run\<close>; a request to the Symbios client takes one random number.\<close>

definition lib_run ::
  "('r, 'm) renv \<Rightarrow> LibHandler \<Rightarrow> OPType \<Rightarrow> int64 \<Rightarrow> size_t \<Rightarrow> bytes option \<Rightarrow> (('r, 'm) rstate, unit) cprog" where
  "lib_run R h op off sz dat s =
     (case LibHandler_run (re_env R) (re_probes R) (re_rand R (rs_calls s)) (re_servers R) h op (sint off) sz dat (rs_w s) of
        (r, w') \<Rightarrow>
          (and_then r (\<lambda>_. Inr ()),
           s\<lparr>rs_w := w', rs_calls := (if lh_lib_type h = IRIS then rs_calls s else rs_calls s + 1)\<rparr>))"

definition rank_file :: "LibHandler \<Rightarrow> int \<Rightarrow> string" where
  "rank_file h rank = lh_file h @ int_to_string rank"

definition replay_op ::
  "('r, 'm) renv \<Rightarrow> LibHandler \<Rightarrow> int \<Rightarrow> string \<Rightarrow> int64 \<Rightarrow> size_t \<Rightarrow> (('r, 'm) rstate, unit) cprog" where
  "replay_op R h rank operation off sz =
     (let posix = (lh_lib_type h = POSIX) in
      if operation = ''FOPEN'' then (if posix then (\<lambda>s. (Inr (), rp_fopen (rank_file h rank) s)) else creturn ())
      else if operation = ''FCLOSE'' then (if posix then rp_fclose else creturn ())
      else if operation = ''WRITE''
      then cbind (rp_randstring R (sint sz)) (\<lambda>writebuf.
             if posix then cbind (rp_fseek off) (\<lambda>_. rp_fwrite writebuf sz)
             else lib_run R h OPType.WRITE off sz writebuf)
      else if operation = ''READ''
      then cbind (rp_randstring R (sint sz)) (\<lambda>readbuf.
             if posix then cbind (rp_fseek off) (\<lambda>_. rp_fread sz)
             else lib_run R h OPType.READ off sz readbuf)
      else if operation = ''LSEEK'' then (if posix then rp_fseek off else creturn ())
      else creturn ())"

function replay_text ::
  "('r, 'm) renv \<Rightarrow> LibHandler \<Rightarrow> int \<Rightarrow> string \<Rightarrow> (('r, 'm) rstate, unit) cprog" where
  "replay_text R h rank trace =
     (case getline trace of
        None \<Rightarrow> creturn ()
      | Some (line, rest) \<Rightarrow>
          if length line < 4 then creturn ()
          else cbind (clift (line_fields line)) (\<lambda>(operation, off, sz).
               cbind (replay_op R h rank operation off sz) (\<lambda>_. replay_text R h rank rest)))"
  by pat_completeness auto
termination
  by (relation "measure (\<lambda>(R, h, rank, trace). length trace)") (auto dest: getline_shorter)

declare replay_text.simps [simp del]

text \<open>The repetitions; the trace is opened again for each, and a trace that is not there ends them.\<close>

fun replay_reps ::
  "('r, 'm) renv \<Rightarrow> LibHandler \<Rightarrow> int \<Rightarrow> string \<Rightarrow> nat \<Rightarrow> (('r, 'm) rstate, bool) cprog" where
  "replay_reps R h rank traceFile 0 s = (Inr True, s)"
| "replay_reps R h rank traceFile (Suc rep) s =
     (case posix_open_rdonly (w_fs (rs_w s)) traceFile of
        None \<Rightarrow> (Inr False, s)
      | Some trace \<Rightarrow>
          cbind (replay_text R h rank trace) (\<lambda>_. replay_reps R h rank traceFile rep) s)"

definition with_handler ::
  "('r, 'm) renv \<Rightarrow> string \<Rightarrow> LibHandler \<Rightarrow> (LibHandler \<Rightarrow> (('r, 'm) rstate, 'a) cprog) \<Rightarrow> (('r, 'm) rstate, 'a) cprog" where
  "with_handler R symbios_conf h body s =
     (case LibHandler_new (re_load R) symbios_conf h (rs_w s) of
        (Inl e, w') \<Rightarrow> (Inl e, s\<lparr>rs_w := w'\<rparr>)
      | (Inr h', w') \<Rightarrow> body h' (s\<lparr>rs_w := w', rs_file := Unset\<rparr>))"

text \<open>
  \<^verbatim>\<open>replay_trace\<close>. A negative number of repetitions counts down to the least \<^verbatim>\<open>int\<close> and overflows.
\<close>

definition replay_trace ::
  "('r, 'm) renv \<Rightarrow> string \<Rightarrow> LibHandler \<Rightarrow> string \<Rightarrow> int \<Rightarrow> int \<Rightarrow> (('r, 'm) rstate, unit) cprog" where
  "replay_trace R symbios_conf h traceFile repetitions rank =
     with_handler R symbios_conf h (\<lambda>h'.
       if repetitions \<ge> 0
       then cbind (replay_reps R h' rank traceFile (nat repetitions)) (\<lambda>_. creturn ())
       else cbind (replay_reps R h' rank traceFile (nat (repetitions + 2 ^ 31))) (\<lambda>went_on.
              if went_on then cfail Undefined else creturn ()))"

section \<open>Preparing and cleaning\<close>

text \<open>The largest end of a request, where the sum of the two \<^verbatim>\<open>long\<close>s must not overflow.\<close>

definition grow :: "int \<Rightarrow> int64 \<Rightarrow> size_t \<Rightarrow> int res" where
  "grow max_offset off sz =
     (let e = sint off + sint sz in
      if e < - (2 ^ 63) \<or> e \<ge> 2 ^ 63 then Inl Undefined else Inr (max max_offset e))"

function prepare_text ::
  "('r, 'm) renv \<Rightarrow> LibHandler \<Rightarrow> string \<Rightarrow> int \<Rightarrow> (('r, 'm) rstate, int) cprog" where
  "prepare_text R h trace max_offset =
     (case getline trace of
        None \<Rightarrow> creturn max_offset
      | Some (line, rest) \<Rightarrow>
          cbind (clift (line_fields line)) (\<lambda>(operation, off, sz).
          cbind (if operation = ''READ''
                 then cbind (rp_randstring R (sint sz)) (\<lambda>writebuf.
                        if lh_lib_type h = POSIX then clift (grow max_offset off sz)
                        else cbind (lib_run R h OPType.WRITE off sz writebuf) (\<lambda>_. creturn max_offset))
                 else creturn max_offset) (\<lambda>max_offset'.
          prepare_text R h rest max_offset')))"
  by pat_completeness auto
termination
  by (relation "measure (\<lambda>(R, h, trace, max_offset). length trace)") (auto dest: getline_shorter)

declare prepare_text.simps [simp del]

definition prepare_data ::
  "('r, 'm) renv \<Rightarrow> string \<Rightarrow> LibHandler \<Rightarrow> string \<Rightarrow> int \<Rightarrow> (('r, 'm) rstate, int) cprog" where
  "prepare_data R symbios_conf h traceFile rank =
     with_handler R symbios_conf h (\<lambda>h' s.
       case posix_open_rdonly (w_fs (rs_w s)) traceFile of
         None \<Rightarrow> (Inl Undefined, s)
       | Some trace \<Rightarrow>
           cbind (prepare_text R h' trace 0) (\<lambda>max_offset.
           if lh_lib_type h' = POSIX
           then (\<lambda>s. cbind (rp_randstring R max_offset) (\<lambda>writebuf.
                     cbind (rp_fwrite writebuf (word_of_int max_offset)) (\<lambda>_. creturn 0)) (rp_fopen (rank_file h' rank) s))
           else creturn 0) s)"

function clean_text ::
  "('r, 'm) renv \<Rightarrow> LibHandler \<Rightarrow> string \<Rightarrow> int \<Rightarrow> (('r, 'm) rstate, int) cprog" where
  "clean_text R h trace max_offset =
     (case getline trace of
        None \<Rightarrow> creturn max_offset
      | Some (line, rest) \<Rightarrow>
          cbind (clift (line_fields line)) (\<lambda>(operation, off, sz).
          cbind (if operation = ''WRITE''
                 then (if lh_lib_type h = POSIX then clift (grow max_offset off sz)
                       else cbind (lib_run R h OPType.DELETE off sz None) (\<lambda>_. creturn max_offset))
                 else creturn max_offset) (\<lambda>max_offset'.
          clean_text R h rest max_offset')))"
  by pat_completeness auto
termination
  by (relation "measure (\<lambda>(R, h, trace, max_offset). length trace)") (auto dest: getline_shorter)

declare clean_text.simps [simp del]

definition clean_data ::
  "('r, 'm) renv \<Rightarrow> string \<Rightarrow> LibHandler \<Rightarrow> string \<Rightarrow> int \<Rightarrow> (('r, 'm) rstate, int) cprog" where
  "clean_data R symbios_conf h traceFile rank =
     with_handler R symbios_conf h (\<lambda>h' s.
       case posix_open_rdonly (w_fs (rs_w s)) traceFile of
         None \<Rightarrow> (Inl Undefined, s)
       | Some trace \<Rightarrow>
           cbind (clean_text R h' trace 0) (\<lambda>_.
           if lh_lib_type h' = POSIX
           then (\<lambda>s. (Inr 0, s\<lparr>rs_w := (rs_w s)\<lparr>w_fs := (w_fs (rs_w s))
                     \<lparr>fs_files := (fs_files (w_fs (rs_w s)))(rank_file h' rank := None)\<rparr>\<rparr>\<rparr>))
           else creturn 0) s)"

section \<open>Lemmas\<close>

lemma replay_text_step:
  assumes "colo_entry_ok (name, off, sz)"
  shows "replay_text R h rank (trace_text ((name, off, sz) # es)) =
    cbind (replay_op R h rank name (word_of_int off) (word_of_int sz)) (\<lambda>_. replay_text R h rank (trace_text es))"
  using getline_entry [OF assms] line_fields_line [OF assms]
  by (subst replay_text.simps) (simp add: trace_text_def)

lemma replay_text_end: "replay_text R h rank (trace_text []) = creturn ()"
  by (subst replay_text.simps) (simp add: trace_text_def getline_def)

lemma set_file_simps [simp]:
  "file_of p (set_file p c s) = c" "set_file p c (set_file p d s) = set_file p c s"
  "w_fs (rs_w (set_file p c s)) = (w_fs (rs_w s))\<lparr>fs_files := (fs_files (w_fs (rs_w s)))(p \<mapsto> c)\<rparr>"
  "rs_calls (set_file p c s) = rs_calls s" "rs_file (set_file p c s) = rs_file s"
  "set_file p c (s\<lparr>rs_calls := k\<rparr>) = (set_file p c s)\<lparr>rs_calls := k\<rparr>"
  "set_file p c (s\<lparr>rs_file := f\<rparr>) = (set_file p c s)\<lparr>rs_file := f\<rparr>"
  "file_of p (s\<lparr>rs_calls := k\<rparr>) = file_of p s" "file_of p (s\<lparr>rs_file := f\<rparr>) = file_of p s"
  by (simp_all add: set_file_def file_of_def)

lemma length_random_text [simp]: "length (random_text rnd calls n) = n"
  by (simp add: random_text_def)

lemma word_of_nat_small:
  assumes "n < 2 ^ 31"
  shows "sint (word_of_int (int n) :: 64 word) = int n" "unat (word_of_int (int n) :: 64 word) = n"
    "\<not> lseek_set_fails (word_of_int (int n))"
proof -
  have n: "n < 2 ^ 63" "n < 2 ^ 64" using assms by simp_all
  show u: "unat (word_of_int (int n) :: 64 word) = n" using n(2) by (simp add: size_fits)
  have "sint (word_of_int (int n) :: 64 word) = int (unat (word_of_int (int n) :: 64 word))"
    using u n(1) by (intro sint_small) (simp only:)
  then show "sint (word_of_int (int n) :: 64 word) = int n" by (simp only: u)
  then show "\<not> lseek_set_fails (word_of_int (int n))" by (simp add: lseek_set_fails_def)
qed

text \<open>The entries of a list of writes, and what they leave of a file.\<close>

definition writes :: "(nat \<times> nat) list \<Rightarrow> entry list" where
  "writes ws = map (\<lambda>(off, n). (''WRITE'', int off, int n)) ws"

fun written :: "(nat \<Rightarrow> int) \<Rightarrow> nat \<Rightarrow> (nat \<times> nat) list \<Rightarrow> bytes \<Rightarrow> bytes" where
  "written rnd calls [] c = c"
| "written rnd calls ((off, n) # ws) c =
     written rnd (calls + n) ws (if n = 0 then c else overlay off (random_text rnd calls n) c)"

definition write_fits :: "nat \<Rightarrow> nat \<times> nat \<Rightarrow> bool" where
  "write_fits room w = (case w of (off, n) \<Rightarrow> off < 2 ^ 31 \<and> n \<le> 512 * 1024 * 1024 \<and> off + n \<le> room)"

lemma write_entry_ok: "write_fits room (off, n) \<Longrightarrow> colo_entry_ok (''WRITE'', int off, int n)"
  by (auto simp: write_fits_def colo_entry_ok_def)

lemma replay_op_write:
  assumes "lh_lib_type h = POSIX" "rs_file s = Stream p pos" "write_fits (fs_room (w_fs (rs_w s))) (off, n)"
  shows "\<exists>pos'. replay_op R h rank ''WRITE'' (word_of_int (int off)) (word_of_int (int n)) s =
    (Inr (), (set_file p (written (re_rand R) (rs_calls s) [(off, n)] (file_of p s)) s)
               \<lparr>rs_calls := rs_calls s + n, rs_file := Stream p pos'\<rparr>)"
proof -
  have small: "off < 2 ^ 31" "n < 2 ^ 31" "off + n \<le> fs_room (w_fs (rs_w s))"
    using assms(3) by (simp_all add: write_fits_def)
  note off = word_of_nat_small [OF small(1)] and n = word_of_nat_small [OF small(2)]
  let ?t = "random_text (re_rand R) (rs_calls s) n" and ?buf = "if n = 0 then None else Some (random_text (re_rand R) (rs_calls s) n @ [CHR 0x00])"
  have rand: "rp_randstring R (sint (word_of_int (int n) :: 64 word)) s = (Inr ?buf, s\<lparr>rs_calls := rs_calls s + n\<rparr>)"
    unfolding n(1) using small(2) by (simp add: rp_randstring_def)
  have read: "mem_read 0 n (old_bytes ?buf) = Some ?t" by (simp add: mem_read_def old_bytes_def random_text_def)
  have ne: "of_nat n \<noteq> (-1 :: int64)" using n(1) by (metis of_int_of_nat_eq sint_n1 of_nat_0_le_iff not_le neg_less_0_iff_less zero_less_one)
  have "posix_write (w_fs (rs_w s)) (file_of p s) off ?t = (of_nat n, if n = 0 then file_of p s else overlay off ?t (file_of p s))"
    using posix_write_room [of off ?t "w_fs (rs_w s)" "file_of p s"] small(3) by (cases n) (auto simp: random_text_def)
  then show ?thesis
    using assms(1,2) rand read off n ne
    by (intro exI [of _ "off + n"]) (simp add: replay_op_def cbind_def rp_fseek_def rp_fwrite_def Let_def)
qed

lemma replay_writes:
  assumes "lh_lib_type h = POSIX" "rs_file s = Stream p pos" "list_all (write_fits (fs_room (w_fs (rs_w s)))) ws"
    and "fs_files (w_fs (rs_w s)) p \<noteq> None"
  shows "\<exists>pos'. replay_text R h rank (trace_text (writes ws @ es)) s =
    replay_text R h rank (trace_text es)
      ((set_file p (written (re_rand R) (rs_calls s) ws (file_of p s)) s)
         \<lparr>rs_calls := rs_calls s + sum_list (map snd ws), rs_file := Stream p pos'\<rparr>)"
  using assms
proof (induction ws arbitrary: s pos)
  case Nil
  obtain c where "fs_files (w_fs (rs_w s)) p = Some c" using Nil.prems(4) by blast
  then have "set_file p (file_of p s) s = s" by (simp add: set_file_def file_of_def old_bytes_def fun_upd_idem)
  moreover have "s\<lparr>rs_file := Stream p pos\<rparr> = s" using Nil.prems(2) by (cases s) simp
  ultimately show ?case by (intro exI [of _ pos]) (simp add: writes_def)
next
  case (Cons a ws)
  obtain off n where a: "a = (off, n)" by (cases a)
  have fits: "write_fits (fs_room (w_fs (rs_w s))) (off, n)" using Cons.prems(3) a by simp
  obtain pos1 where op: "replay_op R h rank ''WRITE'' (word_of_int (int off)) (word_of_int (int n)) s =
      (Inr (), (set_file p (written (re_rand R) (rs_calls s) [(off, n)] (file_of p s)) s)
               \<lparr>rs_calls := rs_calls s + n, rs_file := Stream p pos1\<rparr>)" (is "_ = (_, ?s1)")
    using replay_op_write [OF Cons.prems(1,2) fits] by blast
  obtain pos' where "replay_text R h rank (trace_text (writes ws @ es)) ?s1 =
      replay_text R h rank (trace_text es)
        ((set_file p (written (re_rand R) (rs_calls ?s1) ws (file_of p ?s1)) ?s1)
           \<lparr>rs_calls := rs_calls ?s1 + sum_list (map snd ws), rs_file := Stream p pos'\<rparr>)"
    using Cons.IH [of ?s1 pos1] Cons.prems(1,3) by auto
  moreover have "replay_text R h rank (trace_text (writes (a # ws) @ es)) s =
      replay_text R h rank (trace_text (writes ws @ es)) ?s1"
    using replay_text_step [OF write_entry_ok [OF fits], of R h rank "writes ws @ es"] op a
    by (simp add: writes_def cbind_def)
  ultimately show ?case using a by (intro exI [of _ pos']) (simp add: add.assoc)
qed

section \<open>Properties\<close>

text \<open>
  C33. Replaying a trace on a POSIX file: for a trace that opens the file, writes any list of requests
  and closes it, the replay returns, and the file of the process holds exactly the random texts of
  the requests, each placed at its offset in the order of the trace, gaps filled with zeros.
  Whatever the file held before is gone.
\<close>

theorem posix_replay_writes_file:
  fixes ws :: "(nat \<times> nat) list"
  defines "trace \<equiv> trace_text ((''FOPEN'', 0, 0) # writes ws @ [(''FCLOSE'', 0, 0)])"
  assumes "lh_lib_type h = POSIX" "list_all (write_fits (fs_room (w_fs (rs_w s)))) ws"
    and "fs_files (w_fs (rs_w s)) traceFile = Some trace" "\<not> fs_denied (w_fs (rs_w s)) traceFile"
    and "\<not> fs_denied (w_fs (rs_w s)) (rank_file h rank)"
  shows "replay_trace R symbios_conf h traceFile 1 rank s =
    (Inr (), (set_file (rank_file h rank) (written (re_rand R) (rs_calls s) ws []) s)
               \<lparr>rs_calls := rs_calls s + sum_list (map snd ws), rs_file := Closed\<rparr>)"
proof -
  let ?p = "rank_file h rank"
  let ?s0 = "s\<lparr>rs_file := Unset\<rparr>"
  let ?s1 = "(set_file ?p [] s)\<lparr>rs_file := Stream ?p 0\<rparr>"
  have fopen: "replay_text R h rank trace ?s0 =
      replay_text R h rank (trace_text (writes ws @ [(''FCLOSE'', 0, 0)])) ?s1"
    using replay_text_step [of "''FOPEN''" 0 0 R h rank "writes ws @ [(''FCLOSE'', 0, 0)]"] assms(2,6)
    by (simp add: trace_def colo_entry_ok_def cbind_def replay_op_def rp_fopen_def)
  obtain pos' where ws: "replay_text R h rank (trace_text (writes ws @ [(''FCLOSE'', 0, 0)])) ?s1 =
      replay_text R h rank (trace_text [(''FCLOSE'', 0, 0)])
        ((set_file ?p (written (re_rand R) (rs_calls s) ws []) ?s1)
           \<lparr>rs_calls := rs_calls s + sum_list (map snd ws), rs_file := Stream ?p pos'\<rparr>)"
    using replay_writes [of h ?s1 ?p 0 ws R rank "[(''FCLOSE'', 0, 0)]"] assms(2,3) by auto
  have "replay_text R h rank (trace_text [(''FCLOSE'', 0, 0)]) u = (Inr (), u\<lparr>rs_file := Closed\<rparr>)"
    if "rs_file u = Stream ?p pos'" for u
    using replay_text_step [of "''FCLOSE''" 0 0 R h rank "[]"] that assms(2)
    by (simp add: colo_entry_ok_def cbind_def replay_op_def rp_fclose_def replay_text_end creturn_def)
  then have "replay_text R h rank trace ?s0 =
      (Inr (), (set_file ?p (written (re_rand R) (rs_calls s) ws []) s)
         \<lparr>rs_calls := rs_calls s + sum_list (map snd ws), rs_file := Closed\<rparr>)"
    using fopen ws by simp
  then show ?thesis
    using assms(2,4,5)
    by (simp add: replay_trace_def with_handler_def LibHandler_new_def cbind_def posix_open_rdonly_def creturn_def)
qed

definition ref_handler :: LibHandler where
  "ref_handler = \<lparr>lh_file = ''/f'', lh_lib_type = POSIX, lh_db_type = 0, lh_max_obj_size = 10, lh_print = False\<rparr>"

definition ref_renv :: "(string \<rightharpoonup> bytes, (string \<times> bytes) list) renv" where
  "ref_renv = \<lparr>re_env = ref_env (\<lambda>n. n), re_probes = ref_probes, re_rand = int, re_servers = 1, re_load = Inr\<rparr>"

definition ref_rstate :: "string \<Rightarrow> (string \<rightharpoonup> bytes, (string \<times> bytes) list) rstate" where
  "ref_rstate trace =
     \<lparr>rs_w = (ref_world RANDOM_POLICY)\<lparr>w_fs := ref_fs\<lparr>fs_files := [''/t'' \<mapsto> trace]\<rparr>\<rparr>, rs_calls = 0, rs_file = Unset\<rparr>"

theorem posix_replay_writes_file_witness:
  "\<exists>s'. replay_trace ref_renv '''' ref_handler ''/t'' 1 0
      (ref_rstate (trace_text ((''FOPEN'', 0, 0) # writes [(2, 3)] @ [(''FCLOSE'', 0, 0)]))) = (Inr (), s') \<and>
    file_of ''/f0'' s' = zeros 2 @ ''abc''"
proof -
  let ?s = "ref_rstate (trace_text ((''FOPEN'', 0, 0) # writes [(2, 3)] @ [(''FCLOSE'', 0, 0)]))"
  have p: "rank_file ref_handler 0 = ''/f0''" by (simp add: rank_file_def ref_handler_def decimal_eval)
  have abc: "random_text int 0 3 = ''abc''" by code_simp
  have "replay_trace ref_renv '''' ref_handler ''/t'' 1 0 ?s =
    (Inr (), (set_file ''/f0'' (written (re_rand ref_renv) (rs_calls ?s) [(2, 3)] []) ?s)
               \<lparr>rs_calls := rs_calls ?s + sum_list (map snd [(2 :: nat, 3 :: nat)]), rs_file := Closed\<rparr>)"
    unfolding p [symmetric]
    by (rule posix_replay_writes_file) (simp_all add: ref_handler_def ref_rstate_def ref_fs_def write_fits_def)
  then show ?thesis by (auto simp: ref_renv_def ref_rstate_def abc overlay_def)
qed

end
