(* ===== verification/Debug_Trace.thy ===== *)
theory Debug_Trace
  imports Complex_Main Error_Codes
begin

text \<open>
  \<^verbatim>\<open>common/include/common/debug.h\<close> and \<^verbatim>\<open>debug.cpp\<close>: the timer the tools and benchmarks measure
  with, the tracer that prints a line when a traced function starts and one when it ends, and
  the handler that prints a stack trace. The clock is a sequence of readings in nanoseconds;
  sums of them are exact (in the program up to 2^53 ns) and the times in milliseconds are
  rationals. What an output stream makes of a double is a parameter. The nesting depth of traced
  functions, an \<^verbatim>\<open>int\<close>, is far below 2^31. One thread is modelled.
\<close>

section \<open>Timer\<close>

record Timer =
  t1 :: int
  time_elapsed :: int

definition mk_Timer :: Timer where
  "mk_Timer = \<lparr>t1 = 0, time_elapsed = 0\<rparr>"

definition startTime :: "int \<Rightarrow> Timer \<Rightarrow> Timer" where
  "startTime now t = t\<lparr>t1 := now, time_elapsed := 0\<rparr>"

definition resumeTime :: "int \<Rightarrow> Timer \<Rightarrow> Timer" where
  "resumeTime now t = t\<lparr>t1 := now\<rparr>"

definition pauseTime :: "int \<Rightarrow> Timer \<Rightarrow> Timer" where
  "pauseTime now t = t\<lparr>time_elapsed := time_elapsed t + (now - t1 t)\<rparr>"

definition getTimeElapsed :: "Timer \<Rightarrow> rat" where
  "getTimeElapsed t = of_int (time_elapsed t) / 1000000"

definition endTime :: "int \<Rightarrow> Timer \<Rightarrow> rat \<times> Timer" where
  "endTime now t =
     (let t' = t\<lparr>time_elapsed := time_elapsed t + (now - t1 t)\<rparr> in (getTimeElapsed t', t'))"

text \<open>A stopwatch: \<open>resumeTime\<close> and \<open>pauseTime\<close> around each of a list of intervals.\<close>

fun stopwatch :: "(int \<times> int) list \<Rightarrow> Timer \<Rightarrow> Timer" where
  "stopwatch [] t = t"
| "stopwatch ((a, b) # is) t = stopwatch is (pauseTime b (resumeTime a t))"

section \<open>The tracer\<close>

text \<open>The macros the sources are compiled with, and what the process is asked for.\<close>

record trace_env =
  COMMON_DEBUG_TRACE :: bool
  COMMON_DEBUG_TIMER :: bool
  te_thread :: string
  te_mpi_rank :: int
  te_clock :: "nat \<Rightarrow> int"
  te_double :: "rat \<Rightarrow> string"

text \<open>The static variables, the lines printed, and the readings of the clock so far.\<close>

record trace_state =
  ts_rank :: int
  ts_item :: int
  ts_out :: "string list"
  ts_ticks :: nat

definition initial_trace :: trace_state where
  "initial_trace = \<lparr>ts_rank = 0, ts_item = 0, ts_out = [], ts_ticks = 0\<rparr>"

record AutoTrace =
  m_line :: string
  at_timer :: Timer

text \<open>\<^verbatim>\<open>static_for\<close> calls the function with each element of the tuple and its index.\<close>

fun static_for :: "nat \<Rightarrow> (nat \<Rightarrow> 'a \<Rightarrow> 's \<Rightarrow> 's) \<Rightarrow> 'a list \<Rightarrow> 's \<Rightarrow> 's" where
  "static_for i f [] s = s"
| "static_for i f (x # xs) s = static_for (Suc i) f xs (f i x s)"

definition args_text :: "string list \<Rightarrow> string" where
  "args_text args =
     (if args = [] then ''Void'' else static_for 0 (\<lambda>i w stream. stream @ w @ '', '') args [])"

definition newline_reset :: string where
  "newline_reset = [CHR ''\<newline>'', CHR 0x1B] @ ''[00m''"

definition traced :: "trace_env \<Rightarrow> bool" where
  "traced C \<longleftrightarrow> COMMON_DEBUG_TRACE C \<or> COMMON_DEBUG_TIMER C"

definition line_head :: "int \<Rightarrow> string \<Rightarrow> int \<Rightarrow> string \<Rightarrow> string" where
  "line_head item thread rank line =
     int_to_string item @ '';'' @ thread @ '';'' @ int_to_string rank @ '';'' @ line @ '';''"

definition AutoTrace_new ::
  "trace_env \<Rightarrow> string \<Rightarrow> string list \<Rightarrow> trace_state \<Rightarrow> AutoTrace \<times> trace_state" where
  "AutoTrace_new C string args s =
     (let rank = (if ts_rank s = -1 then te_mpi_rank C else ts_rank s);
          item = (if traced C then ts_item s + 1 else ts_item s);
          stream = (if traced C then line_head item (te_thread C) rank string else []) @
                   (if COMMON_DEBUG_TIMER C then '';;'' else []) @
                   (if COMMON_DEBUG_TRACE C then ''args('' @ args_text args @ '');'' else []) @
                   (if traced C then ''start'' @ newline_reset else []);
          s' = s\<lparr>ts_rank := rank, ts_item := item,
                 ts_out := ts_out s @ (if traced C then [stream] else [])\<rparr>
      in if COMMON_DEBUG_TIMER C
         then (\<lparr>m_line = string, at_timer = startTime (te_clock C (ts_ticks s)) mk_Timer\<rparr>,
               s'\<lparr>ts_ticks := ts_ticks s + 1\<rparr>)
         else (\<lparr>m_line = string, at_timer = mk_Timer\<rparr>, s'))"

text \<open>The destructor prints the number before it counts down.\<close>

definition AutoTrace_end :: "trace_env \<Rightarrow> AutoTrace \<Rightarrow> trace_state \<Rightarrow> trace_state" where
  "AutoTrace_end C a s =
     (let end_time = fst (endTime (te_clock C (ts_ticks s)) (at_timer a));
          stream = (if traced C then line_head (ts_item s) (te_thread C) (ts_rank s) (m_line a) else []) @
                   (if COMMON_DEBUG_TRACE C then '';'' else []) @
                   (if COMMON_DEBUG_TIMER C then te_double C end_time @ '';msecs;'' else []) @
                   (if traced C then ''finish'' @ newline_reset else [])
      in s\<lparr>ts_item := (if traced C then ts_item s - 1 else ts_item s),
           ts_out := ts_out s @ (if traced C then [stream] else []),
           ts_ticks := (if COMMON_DEBUG_TIMER C then ts_ticks s + 1 else ts_ticks s)\<rparr>)"

text \<open>
  Traced functions call each other: \<^verbatim>\<open>AUTO_TRACER\<close> declares a local object at the top of the body,
  which is destroyed when the function returns.
\<close>

datatype call = Call string "string list" "call list"

fun run_call :: "trace_env \<Rightarrow> call \<Rightarrow> trace_state \<Rightarrow> trace_state"
  and run_calls :: "trace_env \<Rightarrow> call list \<Rightarrow> trace_state \<Rightarrow> trace_state" where
  "run_call C (Call f args body) s =
     (case AutoTrace_new C f args s of (a, s1) \<Rightarrow> AutoTrace_end C a (run_calls C body s1))"
| "run_calls C [] s = s"
| "run_calls C (c # cs) s = run_calls C cs (run_call C c s)"

section \<open>The printing macros\<close>

text \<open>
  They print the place and a message, or the names and values of up to three variables, when
  \<^verbatim>\<open>COMMON_DEBUG_MSG\<close> is defined, and are empty otherwise. Values are the texts their \<^verbatim>\<open><<\<close> gives.
\<close>

definition dbg_head :: "string \<Rightarrow> nat \<Rightarrow> string" where
  "dbg_head src_file src_line = ''DBG: '' @ src_file @ ''('' @ nat_to_string src_line @ '') ''"

definition dbg_item :: "string \<Rightarrow> string \<Rightarrow> string" where
  "dbg_item var val = var @ '' = ['' @ val @ '']''"

definition dbg_print :: "bool \<Rightarrow> string \<Rightarrow> nat \<Rightarrow> string \<Rightarrow> trace_state \<Rightarrow> trace_state" where
  "dbg_print COMMON_DEBUG_MSG src_file src_line txt s =
     (if COMMON_DEBUG_MSG
      then s\<lparr>ts_out := ts_out s @ [dbg_head src_file src_line @ txt @ [CHR ''\<newline>'']]\<rparr>
      else s)"

definition COMMON_DBGVAR :: "bool \<Rightarrow> string \<Rightarrow> nat \<Rightarrow> string \<times> string \<Rightarrow> trace_state \<Rightarrow> trace_state" where
  "COMMON_DBGVAR on src_file src_line v = dbg_print on src_file src_line (dbg_item (fst v) (snd v))"

definition COMMON_DBGVAR2 ::
  "bool \<Rightarrow> string \<Rightarrow> nat \<Rightarrow> string \<times> string \<Rightarrow> string \<times> string \<Rightarrow> trace_state \<Rightarrow> trace_state" where
  "COMMON_DBGVAR2 on src_file src_line v1 v2 =
     dbg_print on src_file src_line (dbg_item (fst v1) (snd v1) @ dbg_item (fst v2) (snd v2))"

definition COMMON_DBGVAR3 ::
  "bool \<Rightarrow> string \<Rightarrow> nat \<Rightarrow> string \<times> string \<Rightarrow> string \<times> string \<Rightarrow> string \<times> string \<Rightarrow>
   trace_state \<Rightarrow> trace_state" where
  "COMMON_DBGVAR3 on src_file src_line v1 v2 v3 =
     dbg_print on src_file src_line
       (dbg_item (fst v1) (snd v1) @ dbg_item (fst v2) (snd v2) @ dbg_item (fst v3) (snd v3))"

definition COMMON_DBGMSG :: "bool \<Rightarrow> string \<Rightarrow> nat \<Rightarrow> string \<Rightarrow> trace_state \<Rightarrow> trace_state" where
  "COMMON_DBGMSG on src_file src_line msg = dbg_print on src_file src_line msg"

section \<open>The signal handler\<close>

text \<open>
  \<^verbatim>\<open>backtrace\<close> stores the return addresses of up to 300 frames in an array of 10.
\<close>

definition handler :: "nat \<Rightarrow> int \<Rightarrow> fault \<times> string list" where
  "handler frames sig =
     (if min frames 300 > 10 then (Undefined, [])
      else (Exit 0, [''Error: signal '' @ int_to_string sig]))"

section \<open>common/error.h\<close>

text \<open>
  The class \<^verbatim>\<open>common::err::Error\<close>. \<open>fmt\<close> is what \<^verbatim>\<open>printf\<close> makes of the format and the
  arguments; the message has to fit a buffer of 2048 bytes.
\<close>

record err_Error =
  ee_code :: int
  ee_msg :: string
  ee_fmt :: string

definition mk_err_Error :: "int \<Rightarrow> string \<Rightarrow> err_Error" where
  "mk_err_Error code fmt = \<lparr>ee_code = code, ee_msg = [], ee_fmt = fmt\<rparr>"

definition err_format :: "(string \<Rightarrow> 'a list \<Rightarrow> string) \<Rightarrow> 'a list \<Rightarrow> err_Error \<Rightarrow> err_Error res" where
  "err_format printf args e =
     (let text = printf (ee_fmt e) args
      in if length text < 2048 then Inr (e\<lparr>ee_msg := text\<rparr>) else Inl Undefined)"

section \<open>Lemmas\<close>

lemma static_for_append: "static_for i (\<lambda>i w stream. stream @ g w) xs s = s @ concat (map g xs)"
  by (induction xs arbitrary: i s) simp_all

lemma stopwatch_elapsed: "time_elapsed (stopwatch is t) = time_elapsed t + (\<Sum>(a, b) \<leftarrow> is. b - a)"
  by (induction "is" t rule: stopwatch.induct) (simp_all add: pauseTime_def resumeTime_def)

text \<open>The heads of the lines a call prints, from the number \<open>k\<close> of the function that makes it.\<close>

fun heads :: "string \<Rightarrow> int \<Rightarrow> int \<Rightarrow> call \<Rightarrow> string list"
  and heads_list :: "string \<Rightarrow> int \<Rightarrow> int \<Rightarrow> call list \<Rightarrow> string list" where
  "heads thread rank k (Call f args body) =
     [line_head (k + 1) thread rank f] @ heads_list thread rank (k + 1) body @ [line_head (k + 1) thread rank f]"
| "heads_list thread rank k [] = []"
| "heads_list thread rank k (c # cs) = heads thread rank k c @ heads_list thread rank k cs"

definition trace_rank :: "trace_env \<Rightarrow> trace_state \<Rightarrow> int" where
  "trace_rank C s = (if ts_rank s = -1 then te_mpi_rank C else ts_rank s)"

text \<open>What running a call does to the tracer's state.\<close>

definition prints :: "trace_env \<Rightarrow> string list \<Rightarrow> trace_state \<Rightarrow> trace_state \<Rightarrow> bool" where
  "prints C hs s s' \<longleftrightarrow>
     (\<exists>ls. ts_out s' = ts_out s @ ls \<and> list_all2 prefix hs ls) \<and> ts_item s' = ts_item s \<and>
     trace_rank C s' = trace_rank C s \<and> (ts_rank s \<noteq> -1 \<longrightarrow> ts_rank s' = ts_rank s)"

lemma prints_trans: "prints C hs s s1 \<Longrightarrow> prints C hs' s1 s2 \<Longrightarrow> prints C (hs @ hs') s s2"
  by (auto simp: prints_def intro!: list_all2_appendI)

lemma AutoTrace_new_prints:
  assumes "traced C" "te_mpi_rank C \<noteq> -1" "AutoTrace_new C f args s = (a, s1)"
  shows "m_line a = f" "ts_item s1 = ts_item s + 1" "ts_rank s1 = trace_rank C s" "trace_rank C s1 = trace_rank C s"
    "\<exists>l. ts_out s1 = ts_out s @ [l] \<and> prefix (line_head (ts_item s + 1) (te_thread C) (trace_rank C s) f) l"
  using assms by (auto simp: AutoTrace_new_def Let_def trace_rank_def split: if_splits)

lemma AutoTrace_end_prints:
  assumes "traced C"
  shows "ts_item (AutoTrace_end C a s) = ts_item s - 1" "ts_rank (AutoTrace_end C a s) = ts_rank s"
    "\<exists>l. ts_out (AutoTrace_end C a s) = ts_out s @ [l] \<and>
       prefix (line_head (ts_item s) (te_thread C) (ts_rank s) (m_line a)) l"
  using assms by (simp_all add: AutoTrace_end_def Let_def)

lemma run_rank_0:
  "ts_rank s = 0 \<Longrightarrow> ts_rank (run_call C c s) = 0" "ts_rank s = 0 \<Longrightarrow> ts_rank (run_calls C cs s) = 0"
proof (induction C c s and C cs s rule: run_call_run_calls.induct)
  case (1 C f args body s)
  obtain a s1 where new: "AutoTrace_new C f args s = (a, s1)" by fastforce
  then have "ts_rank s1 = 0" using "1.prems" by (auto simp: AutoTrace_new_def Let_def split: if_splits)
  then show ?case using "1.IH" [OF new [symmetric]] new by (simp add: AutoTrace_end_def Let_def)
qed simp_all

lemma prints_nested:
  assumes "traced C" "te_mpi_rank C \<noteq> -1"
  shows "prints C (heads (te_thread C) (trace_rank C s) (ts_item s) c) s (run_call C c s)"
    and "prints C (heads_list (te_thread C) (trace_rank C s) (ts_item s) cs) s (run_calls C cs s)"
  using assms
proof (induction C c s and C cs s rule: run_call_run_calls.induct)
  case (1 C f args body s)
  let ?r = "trace_rank C s" and ?k = "ts_item s + 1"
  obtain a s1 where new: "AutoTrace_new C f args s = (a, s1)" by fastforce
  note s1 = AutoTrace_new_prints [OF "1.prems" new]
  define s2 where "s2 = run_calls C body s1"
  have body: "prints C (heads_list (te_thread C) ?r ?k body) s1 s2"
    using "1.IH" [OF new [symmetric] "1.prems"] s1 by (simp add: s2_def)
  have r2: "ts_rank s2 = ?r" using body s1(3) "1.prems"(2) by (auto simp: prints_def trace_rank_def split: if_splits)
  obtain l1 where l1: "ts_out s1 = ts_out s @ [l1]" "prefix (line_head ?k (te_thread C) ?r f) l1" using s1(5) by blast
  obtain ls where ls: "ts_out s2 = ts_out s1 @ ls" "list_all2 prefix (heads_list (te_thread C) ?r ?k body) ls"
    and k2: "ts_item s2 = ?k" using body s1(2) by (auto simp: prints_def)
  obtain l2 where l2: "ts_out (AutoTrace_end C a s2) = ts_out s2 @ [l2]" "prefix (line_head ?k (te_thread C) ?r f) l2"
    using AutoTrace_end_prints(3) [OF "1.prems"(1), of a s2] k2 r2 s1(1) by auto
  have "list_all2 prefix (heads (te_thread C) ?r (ts_item s) (Call f args body)) ([l1] @ ls @ [l2])"
    using l1(2) ls(2) l2(2) by (simp add: list_all2_appendI)
  moreover have "run_call C (Call f args body) s = AutoTrace_end C a s2" using new by (simp add: s2_def)
  moreover have "trace_rank C (AutoTrace_end C a s2) = ?r"
    using AutoTrace_end_prints(2) [OF "1.prems"(1), of a s2] r2 s1(3,4) by (simp add: trace_rank_def)
  ultimately show ?case
    using l1(1) ls(1) l2(1) AutoTrace_end_prints(1) [OF "1.prems"(1), of a s2] k2
      AutoTrace_end_prints(2) [OF "1.prems"(1), of a s2] r2 by (simp add: prints_def trace_rank_def)
next
  case (2 C s)
  then show ?case by (simp add: prints_def)
next
  case (3 C c cs s)
  have c: "prints C (heads (te_thread C) (trace_rank C s) (ts_item s) c) s (run_call C c s)"
    using "3.IH"(1) "3.prems" by simp
  then have "trace_rank C (run_call C c s) = trace_rank C s" "ts_item (run_call C c s) = ts_item s"
    by (simp_all add: prints_def)
  then show ?case using prints_trans [OF c] "3.IH"(2) "3.prems" by simp
qed

section \<open>Properties\<close>

text \<open>
  C40. The tracer's numbers are nesting depths. When traced functions call each other, the
  line a function prints when it starts and the one it prints when it ends carry the same
  number, one more than its caller's, the name of the thread, the rank and the name of the
  function; the lines come in the order of the calls, and the counter is back where it was.
\<close>

theorem trace_numbers_nest:
  assumes "traced C" "te_mpi_rank C \<noteq> -1"
  shows "\<exists>ls. ts_out (run_calls C cs s) = ts_out s @ ls \<and>
    list_all2 prefix (heads_list (te_thread C) (trace_rank C s) (ts_item s) cs) ls \<and>
    ts_item (run_calls C cs s) = ts_item s"
  using prints_nested(2) [OF assms] by (auto simp: prints_def)

text \<open>A process that traces, with the clock and the printing of doubles fixed.\<close>

definition ref_trace_env :: trace_env where
  "ref_trace_env = \<lparr>COMMON_DEBUG_TRACE = True, COMMON_DEBUG_TIMER = False, te_thread = ''main'', te_mpi_rank = 3,
     te_clock = (\<lambda>n. int n), te_double = (\<lambda>x. ''0'')\<rparr>"

theorem trace_numbers_nest_witness:
  "\<exists>l1 l2 l3 l4. ts_out (run_calls ref_trace_env [Call ''Store'' [] [Call ''Locate'' [''x''] []]] initial_trace) = [l1, l2, l3, l4] \<and>
    prefix ''1;main;0;Store;'' l1 \<and> prefix ''2;main;0;Locate;'' l2 \<and> prefix ''2;main;0;Locate;'' l3 \<and>
    prefix ''1;main;0;Store;'' l4"
proof -
  have "traced ref_trace_env" "te_mpi_rank ref_trace_env \<noteq> -1" by (simp_all add: traced_def ref_trace_env_def)
  from trace_numbers_nest [OF this, of "[Call ''Store'' [] [Call ''Locate'' [''x''] []]]" initial_trace]
  show ?thesis
    by (simp add: initial_trace_def trace_rank_def ref_trace_env_def line_head_def decimal_eval int_to_string_def
        list_all2_Cons1 del: run_calls.simps) blast
qed

text \<open>
  Every line of a trace says rank 0. The variable that keeps the rank starts as 0, and MPI is
  asked for the rank only when it is -1, which it never is.
\<close>

theorem trace_rank_is_0: "ts_rank (run_calls C cs initial_trace) = 0"
  by (rule run_rank_0(2)) (simp add: initial_trace_def)

text \<open>
  A timer that is resumed before and paused after each of a list of intervals has the sum of
  their lengths, in milliseconds; one that is ended after a pause counts the last interval again.
\<close>

theorem timer_sums_intervals:
  "getTimeElapsed (stopwatch is (startTime now t)) = of_int (\<Sum>(a, b) \<leftarrow> is. b - a) / 1000000 \<and>
   fst (endTime c (stopwatch (is @ [(a, b)]) (startTime now t))) =
     of_int ((\<Sum>(a, b) \<leftarrow> is. b - a) + (b - a) + (c - a)) / 1000000"
proof -
  have "t1 (stopwatch (is @ [(a, b)]) u) = a" for u
    by (induction "is" u rule: stopwatch.induct) (simp_all add: pauseTime_def resumeTime_def)
  then show ?thesis
    by (simp add: getTimeElapsed_def endTime_def Let_def stopwatch_elapsed startTime_def)
qed

text \<open>
  The handler that prints a stack trace writes past its array: for every stack of more than
  10 frames its behaviour is undefined.
\<close>

theorem handler_overflows: "fst (handler frames sig) = (if frames > 10 then Undefined else Exit 0)"
  by (simp add: handler_def)

end
