(* ===== verification/Timing.thy ===== *)
theory Timing
  imports Complex_Main
begin

text \<open>
  The clocks of the prototypes under \<^verbatim>\<open>src/old\<close>: the timing macros of \<^verbatim>\<open>common.h\<close> and the functions
  that subtract two readings of the clock. They compute with doubles; the results are exact
  rationals here.
\<close>

section \<open>The timing macros\<close>

record timespec =
  tv_sec :: int
  tv_nsec :: int

text \<open>The variables \<^verbatim>\<open>DECLARE_TIMING\<close> declares.\<close>

record timing =
  timeStart :: timespec
  timeEnd :: timespec
  timeTally :: rat
  countTally :: nat

definition DECLARE_TIMING :: "timespec \<Rightarrow> timing" where
  "DECLARE_TIMING junk = \<lparr>timeStart = junk, timeEnd = junk, timeTally = 0, countTally = 0\<rparr>"

definition time_diff :: "timespec \<Rightarrow> timespec \<Rightarrow> rat" where
  "time_diff start stop =
     of_int (tv_sec stop - tv_sec start) + of_int (tv_nsec stop - tv_nsec start) / 10 ^ 9"

definition START_TIMING :: "timespec \<Rightarrow> timing \<Rightarrow> timing" where
  "START_TIMING now t = t\<lparr>timeStart := now\<rparr>"

definition STOP_TIMING :: "timespec \<Rightarrow> timing \<Rightarrow> timing" where
  "STOP_TIMING now t =
     t\<lparr>timeEnd := now, timeTally := timeTally t + time_diff (timeStart t) now, countTally := countTally t + 1\<rparr>"

definition GET_TIMING :: "timing \<Rightarrow> rat" where
  "GET_TIMING t = timeTally t"

definition GET_AVERAGE_TIMING :: "timing \<Rightarrow> rat" where
  "GET_AVERAGE_TIMING t = (if countTally t \<noteq> 0 then timeTally t / of_nat (countTally t) else 0)"

definition CLEAR_AVERAGE_TIMING :: "timing \<Rightarrow> timing" where
  "CLEAR_AVERAGE_TIMING t = t\<lparr>timeTally := 0, countTally := 0\<rparr>"

section \<open>Differences of readings\<close>

text \<open>\<open>None\<close> is the null pointer.\<close>

definition timespec_substract :: "timespec option \<Rightarrow> timespec option \<Rightarrow> rat" where
  "timespec_substract start stop =
     (case (start, stop) of (Some a, Some b) \<Rightarrow> time_diff a b | _ \<Rightarrow> -1)"

definition engine_timespec_substract :: "timespec option \<Rightarrow> timespec option \<Rightarrow> rat" where
  "engine_timespec_substract start stop =
     (case (start, stop) of (Some a, Some b) \<Rightarrow> time_diff a b | _ \<Rightarrow> -1)"

definition timeval_substract :: "(int \<times> int) option \<Rightarrow> (int \<times> int) option \<Rightarrow> rat" where
  "timeval_substract start stop =
     (case (start, stop) of
        (Some (s_sec, s_usec), Some (e_sec, e_usec)) \<Rightarrow>
          of_int (e_sec - s_sec) + of_int (e_usec - s_usec) / 1000000
      | _ \<Rightarrow> -1)"

section \<open>Lemmas\<close>

text \<open>Timing a list of intervals, and their average.\<close>

fun timings :: "(timespec \<times> timespec) list \<Rightarrow> timing \<Rightarrow> timing" where
  "timings [] t = t"
| "timings ((a, b) # is) t = timings is (STOP_TIMING b (START_TIMING a t))"

lemma timings_tally:
  "timeTally (timings is t) = timeTally t + (\<Sum>(a, b) \<leftarrow> is. time_diff a b)"
  "countTally (timings is t) = countTally t + length is"
  by (induction "is" t rule: timings.induct) (simp_all add: STOP_TIMING_def START_TIMING_def)

text \<open>The tally of the macros is the sum of the intervals, and the average their mean.\<close>

theorem timing_average:
  assumes "is \<noteq> []"
  shows "GET_TIMING (timings is (DECLARE_TIMING junk)) = (\<Sum>(a, b) \<leftarrow> is. time_diff a b) \<and>
    GET_AVERAGE_TIMING (timings is (DECLARE_TIMING junk)) = (\<Sum>(a, b) \<leftarrow> is. time_diff a b) / of_nat (length is)"
  using assms by (simp add: GET_TIMING_def GET_AVERAGE_TIMING_def timings_tally DECLARE_TIMING_def)

end
