(* ===== verification/Spec2Isabelle.thy ===== *)
theory Spec2Isabelle
  imports Lost_Updates Range_Read Posix_Shim Client_Laws Predictor_Process Link_Tests Colocation Xattr_Links Hop_Links
    Iris Benchmark Startup Replayer Debug_Trace Timing
begin

text \<open>
  Symbios is a storage service that puts one interface over several storage solutions (a
  parallel file system, a Redis cluster, MongoDB). This development models its C++ sources
  (\<^verbatim>\<open>src\<close>, \<^verbatim>\<open>include\<close>, \<^verbatim>\<open>common\<close>, \<^verbatim>\<open>benchmark\<close>) and the C prototypes it grew from (\<^verbatim>\<open>old\<close>) as
  functions of HOL, and proves what they do. Paths below are relative to the repository.

  \<^bold>\<open>The program.\<close> An application calls \<^verbatim>\<open>fopen\<close>, \<^verbatim>\<open>fread\<close>, \<^verbatim>\<open>fwrite\<close>; a preloaded shim
  (\<^verbatim>\<open>client/posix.cpp\<close>) turns the calls on files below a mount point into requests of the client
  (\<^verbatim>\<open>client/client.cpp\<close>), which sends them over an RPC library to a server. The server
  (\<^verbatim>\<open>server/server.cpp\<close>) asks a data distribution engine where the data should go, records the
  placement through the metadata orchestrator, and calls the client of the chosen storage
  (\<^verbatim>\<open>io_clients\<close>). The metadata of an object is kept in the storages themselves: the storage the
  request names gets the primary record, each other one a link to it. Objects longer than
  \<^verbatim>\<open>MAX_OBJ_SIZE\<close> are cut into segments. Iris (\<^verbatim>\<open>common/iris.cpp\<close>), the trace replayer and the
  benchmark run on top of the same storage clients.

  \<^bold>\<open>Conventions.\<close> A struct is a record, an enumeration a datatype, a \<^verbatim>\<open>size_t\<close> a 64-bit word whose
  arithmetic wraps around, a buffer the list of its bytes. An operation that can fail returns
  \<open>fault + 'a\<close>: \<open>Thrown\<close> for an \<^verbatim>\<open>ErrorException\<close>, \<open>Thrown_Int\<close> and \<open>Std_Exn\<close> for other
  exceptions, \<open>Exit\<close> for the end of the process, \<open>Undefined\<close> for undefined behaviour
  (\<open>Error_Codes\<close>). State is passed and returned, also
  on a failing path. Code outside the repository (rapidjson, MessagePack's bytes, redis++,
  mongocxx, hiredis-vip, libmongoc, rpclib, dlib, boost, MPI, floating point) is a parameter; what
  the theorems need of it is a named predicate (\<open>wire_ok\<close>, \<open>redis_ok\<close>, \<open>mongo_ok\<close>,
  \<open>hircluster_ok\<close>, \<open>mongoc_ok\<close>). \<open>Wire_Reference\<close> instantiates the parameters of the server at
  once, and the witnesses run on it.

  \<^bold>\<open>The theories.\<close>

  \<^item> \<open>Symbios_Prelude\<close>: machine types, buffers, decimal strings, \<^verbatim>\<open>strtol\<close>, \<^verbatim>\<open>strtok\<close>; generic lemmas.
  \<^item> \<open>Error_Codes\<close>, \<open>Data_Structures\<close>, \<open>Configuration\<close>: the headers \<^verbatim>\<open>error_*.h\<close>,
    \<^verbatim>\<open>data_structure.h\<close> with the MessagePack adaptors, and \<^verbatim>\<open>configuration_manager.h\<close>.
  \<^item> \<open>Object_Store\<close>: the locale \<open>object_store\<close>, the contract of a storage client (a write at
    position 0 overlays the object, a read returns it, a removal forgets it, other objects keep
    their content). \<open>File_Io\<close>, \<open>Redis_Io\<close> and \<open>Mongo_Io\<close> model \<^verbatim>\<open>io_clients/*_io.cpp\<close> and each
    interprets the locale on its own operations; \<open>Io_Factory\<close> models the singletons and the
    dispatch, and interprets it once more on the dispatched operations. \<open>Client_Laws\<close> has
    what lies outside the contract, the positioned writes: the file client overlays, the two
    others agree with each other and lose bytes at the end of an object.
  \<^item> \<open>Data_Distribution\<close>, \<open>Metadata_Orchestrator\<close>, \<open>Segmentation\<close>, \<open>Server\<close>: the engines, the
    records and links, the cut of a range into segments, the four request handlers and the
    client calls.
  \<^item> \<open>Object_Service\<close>, \<open>Block_Object\<close>, \<open>Range_Read\<close>, \<open>Stale_Links\<close>: what the handlers amount to. The locale
    \<open>simulation\<close> lifts a step that refines a specification to sequences of requests;
    \<open>byte_register\<close> (one register of bytes) and \<open>register_family\<close> (a store of named registers that
    do not disturb each other) are sublocales of it, interpreted on the server for objects of one
    segment. Objects of several segments are a list of blocks, a third interpretation of
    \<open>simulation\<close>, for requests through the storage of the primary record; \<open>Stale_Links\<close> shows
    what goes wrong through the others, and \<open>Range_Read\<close> what a read of a part of them returns.
  \<^item> \<open>Tasks\<close>, \<open>Isolation\<close>, \<open>Handler_Isolation\<close>, \<open>Concurrency\<close>, \<open>Linearization\<close>, \<open>Races\<close>,
    \<open>Lost_Updates\<close>: the handlers as threads. A server answers with \<^verbatim>\<open>SERVER_RPC_THREADS\<close> threads, and
    servers share the storages. \<open>Tasks\<close> cuts the handlers at their calls of the placement engine, of the
    file client, and of the Redis and MongoDB services (a write through Redis is a \<^verbatim>\<open>get\<close> and a \<^verbatim>\<open>set\<close>);
    run alone they are the handlers of \<open>Server\<close>. \<open>Isolation\<close> has a rely-guarantee predicate for tasks
    (\<open>safe\<close>), \<open>Handler_Isolation\<close> shows it of the handlers, \<open>Concurrency\<close> has pools and fair
    schedules, \<open>Linearization\<close> the order in which concurrent requests take effect, \<open>Races\<close> and
    \<open>Lost_Updates\<close> what goes wrong between two creations, two updates, and an update and a read.
  \<^item> \<open>Posix_Shim\<close>: the stdio calls, with the steps of a process that uses them.
  \<^item> \<open>Daemon\<close>, \<open>Startup\<close>: the process around the server as a step relation with its signals and
    its thread; \<^verbatim>\<open>Server::Server\<close>, \<^verbatim>\<open>server/main.cpp\<close>, the configuration read back from JSON.
  \<^item> \<open>Serializers\<close>, \<open>Double_Buffer\<close>, \<open>Cost_Predictor\<close>, \<open>Predictor_Process\<close>: \<^verbatim>\<open>storage_cost_predictor\<close>;
    the double buffer, and the predictor with its worker, as steps of concurrent threads.
  \<^item> \<open>Iris\<close>, \<open>Arguments\<close>, \<open>Rng\<close>, \<open>Replayer\<close>, \<open>Bench_Stats\<close>, \<open>Benchmark\<close>: \<^verbatim>\<open>common\<close> and \<^verbatim>\<open>benchmark\<close>. \<open>Iris\<close> extends
    the client contract to \<open>carrying_store\<close>, a client that also takes writes at positions
    other than 0, and interprets it on Redis and MongoDB.
  \<^item> \<open>Debug_Trace\<close>: the timer, the tracer, the printing macros and the signal handler of \<^verbatim>\<open>common/debug.h\<close>, and
    \<^verbatim>\<open>common/error.h\<close>.
  \<^item> \<open>C_Program\<close>, \<open>Timing\<close>, \<open>Shadow_Link\<close>, \<open>Shadow_Link_Mongo\<close>, \<open>Link_Tests\<close>, \<open>Engine_Io\<close>, \<open>Engine\<close>,
    \<open>Colocation\<close>, \<open>Xattr_Links\<close>, \<open>Hop_Links\<close>: the programs under \<^verbatim>\<open>old\<close>, in a state-and-error monad. The
    locale \<open>link_store\<close> of \<open>Link_Tests\<close> is what the two test drivers need of a storage, and is
    interpreted on the Redis and on the MongoDB calls.

  \<^bold>\<open>What is shown.\<close>

  \<^item> The service: the server refines a store of named byte registers, and for large objects a
    list of blocks, over any sequence of requests and whatever the engine picks; links lead to
    the primary record; the pieces of a range cover its bytes once and in order, and when the
    segments are files the reply starts with them; what is written through the shim is read back. A configuration written as
    JSON is loaded as meant, and on a server that started every placement has a client.
  \<^item> The clients: read after write, agreement of the three writes where they agree.
  \<^item> Concurrency of the service: under every fair interleaving of the handlers' steps, clients of
    different objects finish with the answers they would get alone. Updates, reads and sizes of
    existing objects answer as if they had run one at a time, when each overwritten object is in
    Redis and has one writer; without either condition they do not, and two creations of the same
    object are not safe: the runs that show it are given.
  \<^item> Processes and threads: the daemon serves until a signal and can be stopped; one consumer of
    the double buffer is safe, and two can race on an empty list; the predictor's worker fits
    exactly the window it was given, and \<^verbatim>\<open>Finalize\<close> ends from every reachable state.
  \<^item> Tools: the option parser collects what it was given, units are shifts, preallocation writes
    and ends exactly when blocks are not empty, a replayed trace leaves the file it describes.
  \<^item> Prototypes: texts, values and node lists of the links are read back as they were written;
    the replays and drivers end with the state they should.
  \<^item> Defects: where the code does not do what its comments or its callers expect, the behaviour it
    has is proved (a second segment makes the links to an object unreadable, two concurrent creations lose an object, two
    concurrent updates lose a write, an update in MongoDB hides the object, a link without a server is misread, an append is refused, a second Iris object
    is lost in a file, only the first row of the saved models is loaded, a storage no saved model
    names is never trained, and others).

  \<^bold>\<open>Loops.\<close> Loops over data are structural recursions or have a measure. Those the code may run
  forever (a block of size 0, a transfer that makes no progress, a replay until a time limit, the
  polling of the exit flag) are \<open>partial_function (option)\<close> with \<open>None\<close> for not returning, and
  theorems that claim a result prove \<open>Some\<close>. No fuel is used.

  \<^bold>\<open>Not modelled.\<close> \<^verbatim>\<open>src/symbios/client/redis.cpp\<close> repeats the class declarations of redis++
  and has no logic of the program. The usage text of the benchmark and the bandwidth reports of
  the engine and colocation prototypes only print; their timers and timing macros are modelled
  apart from the programs that use them. Ownership of memory (leaks, double frees) is not modelled.
  In the concurrent model a method of the file client is one step, although it makes several system
  calls; the calls of Redis and MongoDB are steps of their own. Tests, scripts and recorded
  results are not part of the program.
\<close>

section \<open>The storage service as a whole\<close>



text \<open>
  C6. Shadow links. Storing the metadata of an object no storage knew writes the primary
  record to the storage the request names and a link to every other; afterwards the
  metadata looked up through any configured storage is the primary record.
\<close>

theorem shadow_links_lead_to_primary:
  assumes "wire_ok E" "wf_solutions (sols_of w)" "separate (sols_of w)"
    and "Locate E w req = Inl (Thrown e)" "MAX_OBJ_SIZE (w_conf w) \<noteq> 0"
    and "d_storage_index req \<in> fst ` set (sols_of w)"
    and "store_fresh (MAX_OBJ_SIZE (w_conf w)) ds (fresh_primary req) = (ds', prec)"
    and "key_ready E w (meta_id req) n" "packs_within E (meta_id req) prec n"
  shows "\<exists>w'. Orchestrator_Store E w req ds = (Inr ds', w') \<and>
    (\<forall>r. d_id r = d_id req \<longrightarrow> d_storage_index r \<in> fst ` set (sols_of w) \<longrightarrow>
       read_primary E w' r = Inr prec)"
proof -
  obtain w' where w': "Orchestrator_Store E w req ds = (Inr ds', w')" "serves_like E w' w"
    "key_ready E w' (meta_id req) n" "published E w' (meta_id req) prec"
    using Orchestrator_Store_fresh [OF assms] by blast
  have "wf_Metadata prec"
    using store_fresh_wf [OF _ assms(7)] by (simp add: fresh_primary_def wf_Metadata_def)
  then have "read_primary E w' r = Inr prec"
    if "d_id r = d_id req" "d_storage_index r \<in> fst ` set (sols_of w)" for r
    using published_read [OF assms(1), of prec w' r n] w' that serves_like_sols [OF w'(2)]
    by (simp add: meta_id_def)
  then show ?thesis using w'(1) by blast
qed

theorem shadow_links_lead_to_primary_witness:
  "\<exists>w'. Orchestrator_Store (ref_env (\<lambda>k. k)) (ref_world RANDOM_POLICY) (target ''x'' 1 5)
      [place (put_source ''x'' ''hello'') (target ''x'' 1 5) 2] =
      (Inr [(place (put_source ''x'' ''hello'') (target ''x'' 1 5) 2)\<lparr>dd_destination_data :=
          (target ''x'' 1 5)\<lparr>d_storage_index := 2, d_position := 0, d_id := ''x0''\<rparr>\<rparr>], w') \<and>
    read_primary (ref_env (\<lambda>k. k)) w' (target ''x'' 0 0) = Inr (fresh_meta (target ''x'' 1 5) 2)"
proof -
  let ?E = "ref_env (\<lambda>k. k)" and ?w = "ref_world RANDOM_POLICY" and ?r = "target ''x'' 1 5"
  obtain e where e: "Locate ?E ?w ?r = Inl (Thrown e)"
    using ref_Locate_absent [of ?r] by auto
  have M: "MAX_OBJ_SIZE (w_conf ?w) \<noteq> 0" by (simp add: ref_world_def ref_conf_def ConfigurationManager_def)
  have packs: "packs_within ?E (meta_id ?r) (fresh_meta ?r 2) 1000" by code_simp
  have ready: "key_ready ?E ?w (meta_id ?r) 1000"
    by (rule ref_key_ready) (simp_all add: meta_id_def)
  have ix: "d_storage_index ?r \<in> fst ` set (sols_of ?w)" "(0 :: uint16) \<in> fst ` set (sols_of ?w)"
    by (simp_all add: ref_world_sols)
  have fresh: "store_fresh (MAX_OBJ_SIZE (w_conf ?w)) [place (put_source ''x'' ''hello'') ?r 2] (fresh_primary ?r) =
      ([(place (put_source ''x'' ''hello'') ?r 2)\<lparr>dd_destination_data :=
          ?r\<lparr>d_storage_index := 2, d_position := 0, d_id := ''x0''\<rparr>\<rparr>], fresh_meta ?r 2)"
    using store_fresh_one [of ?r] by (simp add: data_key_def)
  show ?thesis
    using shadow_links_lead_to_primary [OF ref_wire_ok ref_wf_solutions ref_separate e M ix(1) fresh ready packs]
      ix(2) by (metis target_simps(1,2))
qed

end
